(* ===== verification/Prelude.thy ===== *)
theory Prelude
  imports Main "HOL-Library.Word" "HOL-Library.Product_Lexorder" "HOL-Library.Multiset"
begin

text \<open>
  Shared vocabulary of the development: the machine integers of the C++ sources as words, the
  result type of core/result.hpp (extended with a value for undefined behaviour), bounds-checked
  reads of byte spans, little-endian decoding, checked 64-bit arithmetic, and the contract of
  std::sort as a locale over the comparison function.

  Host assumptions of every supported build (x86-64 and ARM64): size_t and uintptr_t have 64 bits
  and an object has fewer than 2^63 bytes, which \<open>host_object\<close> states where a theorem needs it.
\<close>

unbundle bit_operations_syntax

section \<open>Machine integers\<close>

type_synonym u8 = "8 word"
type_synonym u16 = "16 word"
type_synonym u32 = "32 word"
type_synonym u64 = "64 word"

abbreviation u64_max :: u64 where
  "u64_max \<equiv> 0xFFFFFFFFFFFFFFFF"

named_theorems result_simps \<open>case analysis of a Result-valued computation\<close>
named_theorems unat_simps \<open>unsigned words read as natural numbers\<close>

declare word_le_nat_alt [unat_simps] word_less_nat_alt [unat_simps]
declare unat_plus_if' [unat_simps] unat_sub_if' [unat_simps]

text \<open>A vector or span of the host: its size is below 2^63.\<close>

definition host_object :: "'a list \<Rightarrow> bool" where
  "host_object xs \<longleftrightarrow> length xs < 2 ^ 63"

lemma host_object_length: "host_object xs \<Longrightarrow> length xs < 2 ^ 64"
  by (simp add: host_object_def)

lemma host_object_unat [unat_simps]:
  "host_object xs \<Longrightarrow> unat (of_nat (length xs) :: u64) = length xs"
  by (simp add: host_object_def unat_of_nat)

lemma unat_lt_2p64 [simp]: "unat (w :: u64) < 18446744073709551616"
  using unsigned_less [of w] by simp

lemma unat_le_2p64 [simp]: "unat (w :: u64) \<le> 18446744073709551616"
  by (simp add: less_imp_le)

lemma unat_u64_max [simp, unat_simps]: "unat u64_max = 18446744073709551615"
  by simp

lemma all_from_Suc:
  "m < k \<Longrightarrow> (\<forall>i. m \<le> i \<and> i < k \<longrightarrow> P i) \<longleftrightarrow> P m \<and> (\<forall>i. Suc m \<le> i \<and> i < k \<longrightarrow> P i)"
  using le_eq_less_or_eq Suc_le_eq by auto

section \<open>Results, errors and undefined behaviour\<close>

text \<open>
  \<open>Success\<close> and \<open>Failure\<close> are the two alternatives of astraea::core::Result. \<open>Undefined\<close> is not
  a value of the program: it marks an execution that evaluates an expression with undefined
  behaviour (a span index out of range). The safety theorems show that it is never reached.
\<close>

datatype ('a, 'e) Result = Success 'a | Failure 'e | Undefined

text \<open>
  \<open>and_then r h k\<close> is the pattern \<^verbatim>\<open>if (!r.has_value()) return failure(h(r.error())); k(r.value())\<close>.
\<close>

definition and_then :: "('a, 'e) Result \<Rightarrow> ('e \<Rightarrow> 'f) \<Rightarrow> ('a \<Rightarrow> ('b, 'f) Result) \<Rightarrow> ('b, 'f) Result" where
  "and_then r h k = (case r of Success v \<Rightarrow> k v | Failure e \<Rightarrow> Failure (h e) | Undefined \<Rightarrow> Undefined)"

text \<open>Continue with the value of a computation whose failure is passed on unchanged.\<close>

abbreviation with_value :: "('a, 'e) Result \<Rightarrow> ('a \<Rightarrow> ('b, 'e) Result) \<Rightarrow> ('b, 'e) Result" where
  "with_value r k \<equiv> and_then r id k"

definition map_value :: "('a \<Rightarrow> 'b) \<Rightarrow> ('a, 'e) Result \<Rightarrow> ('b, 'e) Result" where
  "map_value f r = (case r of Success v \<Rightarrow> Success (f v) | Failure e \<Rightarrow> Failure e | Undefined \<Rightarrow> Undefined)"

fun has_value :: "('a, 'e) Result \<Rightarrow> bool" where
  "has_value (Success _) = True"
| "has_value (Failure _) = False"
| "has_value Undefined = False"

lemma and_then_simps [simp]:
  "and_then (Success v) h k = k v"
  "and_then (Failure e) h k = Failure (h e)"
  "and_then Undefined h k = Undefined"
  by (simp_all add: and_then_def)

lemma map_value_simps [simp]:
  "map_value f (Success v) = Success (f v)"
  "map_value f (Failure e) = Failure e"
  "map_value f Undefined = Undefined"
  by (simp_all add: map_value_def)

lemma and_then_Success [result_simps]:
  "and_then r h k = Success v \<longleftrightarrow> (\<exists>a. r = Success a \<and> k a = Success v)"
  by (cases r) auto

lemma and_then_Failure [result_simps]:
  "and_then r h k = Failure e \<longleftrightarrow>
     (\<exists>d. r = Failure d \<and> e = h d) \<or> (\<exists>a. r = Success a \<and> k a = Failure e)"
  by (cases r) auto

lemma and_then_Undefined [result_simps]:
  "and_then r h k = Undefined \<longleftrightarrow> r = Undefined \<or> (\<exists>a. r = Success a \<and> k a = Undefined)"
  by (cases r) auto

lemma map_value_Success [result_simps]:
  "map_value f r = Success v \<longleftrightarrow> (\<exists>a. r = Success a \<and> v = f a)"
  by (cases r) auto

lemma map_value_Undefined [result_simps]:
  "map_value f r = Undefined \<longleftrightarrow> r = Undefined"
  by (cases r) auto

lemma map_value_Failure [result_simps]:
  "map_value f r = Failure e \<longleftrightarrow> r = Failure e"
  by (cases r) auto

lemma if_Failure_Success: "(if C then Failure e else r) = Success v \<longleftrightarrow> \<not> C \<and> r = Success v"
  by simp

lemma has_value_iff [result_simps]: "has_value r \<longleftrightarrow> (\<exists>v. r = Success v)"
  by (cases r) auto

text \<open>Outcome of an allocation that the sources guard with a try block.\<close>

datatype host_event = No_exception | Bad_alloc | Length_error

type_synonym host_allocator = "nat \<Rightarrow> host_event"

section \<open>Checked 64-bit arithmetic\<close>

definition checked_add_u64 :: "u64 \<Rightarrow> u64 \<Rightarrow> u64 option" where
  "checked_add_u64 lhs rhs = (if lhs > u64_max - rhs then None else Some (lhs + rhs))"

definition checked_mul_u64 :: "u64 \<Rightarrow> u64 \<Rightarrow> u64 option" where
  "checked_mul_u64 lhs rhs =
     (if lhs \<noteq> 0 \<and> rhs > u64_max div lhs then None else Some (lhs * rhs))"

definition is_power_of_two :: "u64 \<Rightarrow> bool" where
  "is_power_of_two v \<longleftrightarrow> v \<noteq> 0 \<and> v AND (v - 1) = 0"

lemma gt_max_minus_iff [unat_simps]:
  "(a :: u64) > u64_max - b \<longleftrightarrow> 2 ^ 64 \<le> unat a + unat b"
  by (simp add: word_less_nat_alt unat_sub_if') (use unat_lt_2p64 [of a] unat_lt_2p64 [of b] in linarith)

lemma checked_add_u64_Some:
  "checked_add_u64 a b = Some c \<longleftrightarrow> unat a + unat b < 2 ^ 64 \<and> c = a + b"
  by (auto simp: checked_add_u64_def gt_max_minus_iff)

lemma checked_add_u64_None: "checked_add_u64 a b = None \<longleftrightarrow> 2 ^ 64 \<le> unat a + unat b"
  by (auto simp: checked_add_u64_def gt_max_minus_iff)

lemma unat_add_no_wrap: "unat (a :: u64) + unat b < 2 ^ 64 \<Longrightarrow> unat (a + b) = unat a + unat b"
  by (simp add: unat_plus_if')

lemma checked_mul_u64_Some:
  "checked_mul_u64 a b = Some c \<longleftrightarrow> unat a * unat b < 2 ^ 64 \<and> c = a * b"
proof (cases "a = 0")
  case True
  then show ?thesis by (auto simp: checked_mul_u64_def)
next
  case False
  then have pos: "0 < unat a" by (simp add: unat_gt_0)
  have "rhs > u64_max div a \<longleftrightarrow> 2 ^ 64 \<le> unat a * unat rhs" for rhs :: u64
    using pos by (auto simp: word_less_nat_alt unat_div div_less_iff_less_mult mult.commute)
  with False show ?thesis by (auto simp: checked_mul_u64_def)
qed

lemma checked_mul_u64_None: "checked_mul_u64 a b = None \<longleftrightarrow> 2 ^ 64 \<le> unat a * unat b"
  using checked_mul_u64_Some [of a b] by (metis not_le option.exhaust option.distinct(1))

lemma unat_mult_no_wrap: "unat (a :: u64) * unat b < 2 ^ 64 \<Longrightarrow> unat (a * b) = unat a * unat b"
  by (simp add: unat_word_ariths)

lemma nat_and_pred_zero: "0 < (n :: nat) \<Longrightarrow> n AND (n - 1) = 0 \<Longrightarrow> \<exists>k. n = 2 ^ k"
proof (induction n rule: less_induct)
  case (less n)
  show ?case
  proof (cases "even n")
    case True
    then obtain m where m: "n = 2 * m" by blast
    with less.prems have "0 < m" by simp
    have "(2 * m - 1) div 2 = m - 1" using \<open>0 < m\<close> by linarith
    then have "n AND (n - 1) = 2 * (m AND (m - 1))"
      by (subst and_rec) (simp add: m)
    with less.prems have "m AND (m - 1) = 0" by simp
    with less.IH [of m] \<open>0 < m\<close> m obtain k where "m = 2 ^ k" by auto
    with m have "n = 2 ^ Suc k" by simp
    then show ?thesis by blast
  next
    case False
    then obtain m where m: "n = 2 * m + 1" using oddE by blast
    have "n AND (n - 1) = 2 * (m AND m)"
      by (subst and_rec) (simp add: m)
    with less.prems have "m = 0" by simp
    with m have "n = 2 ^ 0" by simp
    then show ?thesis by blast
  qed
qed

lemma is_power_of_two_unat:
  assumes "is_power_of_two v"
  obtains k where "k < 64" and "unat v = 2 ^ k"
proof -
  from assms have nz: "v \<noteq> 0" and "unat (v AND (v - 1)) = 0"
    by (simp_all add: is_power_of_two_def)
  then have "unat v AND (unat v - 1) = 0"
    by (simp add: unsigned_and_eq unat_minus_one)
  with nz obtain k where k: "unat v = 2 ^ k"
    using nat_and_pred_zero [of "unat v"] by (auto simp: unat_gt_0)
  have "(2 :: nat) ^ k < 2 ^ 64" using unat_lt_2p64 [of v] k by simp
  then have "k < 64" by (rule power_less_imp_less_exp [rotated]) simp
  with k that show ?thesis by blast
qed

lemma is_power_of_two_pow: "k < 64 \<Longrightarrow> is_power_of_two (2 ^ k)"
  by (auto simp: is_power_of_two_def mask_eq_exp_minus_1 [symmetric] bit_simps intro!: bit_eqI)

lemma is_power_of_two_iff: "is_power_of_two v \<longleftrightarrow> (\<exists>k. unat v = 2 ^ k)"
proof
  assume "is_power_of_two v"
  then show "\<exists>k. unat v = 2 ^ k" by (auto elim: is_power_of_two_unat)
next
  assume "\<exists>k. unat v = 2 ^ k"
  then obtain k where k: "unat v = 2 ^ k" ..
  have "(2 :: nat) ^ k < 2 ^ 64" using unat_lt_2p64 [of v] k by simp
  then have "k < 64" by (rule power_less_imp_less_exp [rotated]) simp
  have "unat (of_nat (2 ^ k) :: u64) = 2 ^ k"
    using \<open>(2 :: nat) ^ k < 2 ^ 64\<close> by (simp add: unat_of_nat del: of_nat_power)
  with k have "v = 2 ^ k" by (metis of_nat_numeral of_nat_power word_unat_eq_iff)
  with \<open>k < 64\<close> show "is_power_of_two v" by (simp add: is_power_of_two_pow)
qed

lemma unat_ucast_up:
  "LENGTH('a :: len) \<le> LENGTH('b :: len) \<Longrightarrow> unat (ucast (w :: 'a word) :: 'b word) = unat w"
  by (simp add: unsigned_ucast_eq take_bit_nat_eq_self_iff)
    (meson less_le_trans one_le_numeral power_increasing unsigned_less)

lemma mod_unat_iff: "(a :: u64) mod c = b mod c \<longleftrightarrow> unat a mod unat c = unat b mod unat c"
  by (simp add: word_unat_eq_iff unat_mod)

text \<open>The overflow guard of a range of a given size, shared by GuestRange and the ELF parser.\<close>

lemma create_guard_iff:
  "(sz :: u64) > 0 \<and> b > u64_max - (sz - 1) \<longleftrightarrow> 2 ^ 64 < unat b + unat sz"
proof (cases "sz = 0")
  case True
  then show ?thesis using unat_lt_2p64 [of b] by (simp add: not_less less_imp_le)
next
  case False
  then have "0 < unat sz" by (simp add: unat_gt_0)
  with False show ?thesis
    unfolding gt_max_minus_iff by (simp add: word_less_nat_alt unat_minus_one) linarith
qed

section \<open>Byte spans and little-endian integers\<close>

text \<open>Indexing a span: out of range it is undefined behaviour.\<close>

definition span_at :: "'a list \<Rightarrow> u64 \<Rightarrow> ('a, 'e) Result" where
  "span_at bytes i = (if unat i < length bytes then Success (bytes ! unat i) else Undefined)"

lemma span_at_in_range [simp]: "unat i < length bytes \<Longrightarrow> span_at bytes i = Success (bytes ! unat i)"
  by (simp add: span_at_def)

text \<open>The loop of the read_little_endian templates: bytes are accumulated in a 64-bit value.\<close>

primrec read_le_loop :: "u8 list \<Rightarrow> u64 \<Rightarrow> nat list \<Rightarrow> u64 \<Rightarrow> (u64, 'e) Result" where
  "read_le_loop bytes offset [] value = Success value"
| "read_le_loop bytes offset (i # is) value =
     and_then (span_at bytes (offset + of_nat i)) id
       (\<lambda>byte. read_le_loop bytes offset is (value OR push_bit (i * 8) (ucast byte)))"

definition read_little_endian :: "nat \<Rightarrow> u8 list \<Rightarrow> u64 \<Rightarrow> (u64, 'e) Result" where
  "read_little_endian n bytes offset = read_le_loop bytes offset [0..<n] 0"

definition read_u16 :: "u8 list \<Rightarrow> u64 \<Rightarrow> (u16, 'e) Result" where
  "read_u16 bytes offset = map_value ucast (read_little_endian 2 bytes offset)"

definition read_u32 :: "u8 list \<Rightarrow> u64 \<Rightarrow> (u32, 'e) Result" where
  "read_u32 bytes offset = map_value ucast (read_little_endian 4 bytes offset)"

definition read_u64 :: "u8 list \<Rightarrow> u64 \<Rightarrow> (u64, 'e) Result" where
  "read_u64 bytes offset = read_little_endian 8 bytes offset"

text \<open>The value a list of bytes denotes, least significant byte first.\<close>

primrec le_nat :: "u8 list \<Rightarrow> nat" where
  "le_nat [] = 0"
| "le_nat (b # bs) = unat b + 256 * le_nat bs"

lemma le_nat_append: "le_nat (xs @ ys) = le_nat xs + 256 ^ length xs * le_nat ys"
  by (induction xs) (simp_all add: algebra_simps)

lemma le_nat_bound: "le_nat bs < 256 ^ length bs"
proof (induction bs)
  case (Cons b bs)
  have "unat b < 256" using unsigned_less [of b] by simp
  with Cons show ?case by simp
qed simp

lemma or_push_bit_add:
  fixes a b :: nat
  assumes "a < 2 ^ k"
  shows "a OR push_bit k b = a + push_bit k b"
proof -
  have "a AND push_bit k b = 0"
  proof (rule bit_eqI)
    fix n
    have "\<not> bit a n" if "k \<le> n"
    proof -
      have "a < 2 ^ n" using assms that by (meson less_le_trans one_le_numeral power_increasing)
      then show ?thesis by (simp add: bit_iff_odd)
    qed
    then show "bit (a AND push_bit k b) n \<longleftrightarrow> bit (0::nat) n"
      by (auto simp: bit_simps)
  qed
  then show ?thesis by (simp add: disjunctive_add_eq_or)
qed

lemma read_le_loop_step:
  assumes "length xs = i"
  shows "(of_nat (le_nat xs) :: 'a :: len word) OR push_bit (i * 8) (ucast b) = of_nat (le_nat (xs @ [b]))"
proof -
  have bound: "le_nat xs < 2 ^ (i * 8)"
    using le_nat_bound [of xs] assms by (simp add: mult.commute [of i] power_mult)
  have "(of_nat (le_nat xs) :: 'a word) OR push_bit (i * 8) (of_nat (unat b)) =
          of_nat (le_nat xs OR push_bit (i * 8) (unat b))"
    by (simp add: of_nat_or_eq of_nat_push_bit)
  also have "le_nat xs OR push_bit (i * 8) (unat b) = le_nat (xs @ [b])"
    using or_push_bit_add [OF bound, of "unat b"] assms
    by (simp add: le_nat_append push_bit_eq_mult mult.commute [of i] power_mult)
  finally show ?thesis by simp
qed

lemma read_le_loop_ok:
  assumes "unat off + n \<le> length bs" and "length bs < 2 ^ 64" and "n \<le> 8" and "i \<le> n"
  shows "read_le_loop bs off [i..<n] (of_nat (le_nat (take i (drop (unat off) bs))))
           = Success (of_nat (le_nat (take n (drop (unat off) bs))))"
  using assms(4)
proof (induction "n - i" arbitrary: i)
  case 0
  then show ?case by simp
next
  case (Suc d)
  then have "i < n" by simp
  then have i64: "unat (of_nat i :: u64) = i" using assms(3) by (simp add: unat_of_nat)
  then have idx: "unat (off + of_nat i) = unat off + i"
    using assms \<open>i < n\<close> by (simp add: unat_plus_if')
  let ?xs = "take i (drop (unat off) bs)"
  have len: "length ?xs = i" using assms \<open>i < n\<close> by simp
  have snoc: "take (Suc i) (drop (unat off) bs) = ?xs @ [bs ! (unat off + i)]"
    using assms \<open>i < n\<close> by (simp add: take_Suc_conv_app_nth)
  have "d = n - Suc i" using Suc.hyps(2) by linarith
  then show ?case
    using \<open>i < n\<close> assms idx read_le_loop_step [OF len, where b = "bs ! (unat off + i)" and ?'a = 64] Suc.hyps(1) [of "Suc i"]
    by (simp add: upt_conv_Cons snoc)
qed

lemma read_little_endian_ok:
  assumes "unat off + n \<le> length bs" and "length bs < 2 ^ 64" and "n \<le> 8"
  shows "read_little_endian n bs off = Success (of_nat (le_nat (take n (drop (unat off) bs))))"
  using read_le_loop_ok [OF assms, of 0] by (simp add: read_little_endian_def)

text \<open>\<open>field_nat bytes offset n\<close>: the n-byte little-endian integer stored at an offset.\<close>

definition field_nat :: "u8 list \<Rightarrow> nat \<Rightarrow> nat \<Rightarrow> nat" where
  "field_nat bytes offset n = le_nat (take n (drop offset bytes))"

lemma ucast_of_nat_u64: "LENGTH('b :: len) \<le> 64 \<Longrightarrow> ucast (of_nat n :: u64) = (of_nat n :: 'b word)"
  by (rule bit_word_eqI) (simp add: bit_simps)

lemma read_u16_ok:
  "unat off + 2 \<le> length bs \<Longrightarrow> length bs < 2 ^ 64 \<Longrightarrow> read_u16 bs off = Success (of_nat (field_nat bs (unat off) 2))"
  by (simp add: read_u16_def read_little_endian_ok field_nat_def ucast_of_nat_u64)

lemma read_u32_ok:
  "unat off + 4 \<le> length bs \<Longrightarrow> length bs < 2 ^ 64 \<Longrightarrow> read_u32 bs off = Success (of_nat (field_nat bs (unat off) 4))"
  by (simp add: read_u32_def read_little_endian_ok field_nat_def ucast_of_nat_u64)

lemma read_u64_ok:
  "unat off + 8 \<le> length bs \<Longrightarrow> length bs < 2 ^ 64 \<Longrightarrow> read_u64 bs off = Success (of_nat (field_nat bs (unat off) 8))"
  by (simp add: read_u64_def read_little_endian_ok field_nat_def)

lemmas read_word_ok = read_u16_ok read_u32_ok read_u64_ok

text \<open>The bytes the sources emit for an n-byte integer.\<close>

definition le_bytes :: "nat \<Rightarrow> u64 \<Rightarrow> u8 list" where
  "le_bytes n v = map (\<lambda>i. ucast (drop_bit (i * 8) v AND 0xff)) [0..<n]"

lemma length_le_bytes [simp]: "length (le_bytes n v) = n"
  by (simp add: le_bytes_def)

lemma unat_byte_of: "unat (ucast (drop_bit (i * 8) v AND 0xff :: u64) :: u8) = unat v div 256 ^ i mod 256"
proof -
  have "(0xff :: u64) = mask 8" by (simp add: mask_eq_exp_minus_1)
  then have "unat (ucast (drop_bit (i * 8) v AND 0xff :: u64) :: u8)
      = take_bit 8 (take_bit 8 (drop_bit (i * 8) (unat v)))"
    by (simp only: take_bit_eq_mask [symmetric] unsigned_ucast_eq unsigned_take_bit_eq
        unsigned_drop_bit_eq) (simp add: take_bit_nat_eq_self)
  then show ?thesis
    by (simp add: take_bit_eq_mod drop_bit_eq_div mult.commute [of i] power_mult)
qed

lemma le_nat_le_bytes: "le_nat (le_bytes n v) = unat v mod 256 ^ n"
proof (induction n)
  case 0
  then show ?case by (simp add: le_bytes_def)
next
  case (Suc n)
  have "le_bytes (Suc n) v = le_bytes n v @ [ucast (drop_bit (n * 8) v AND 0xff)]"
    by (simp add: le_bytes_def)
  then have "le_nat (le_bytes (Suc n) v) = unat v mod 256 ^ n + 256 ^ n * (unat v div 256 ^ n mod 256)"
    by (simp add: le_nat_append Suc unat_byte_of del: unsigned_and_eq)
  also have "\<dots> = unat v mod 256 ^ Suc n"
    by (simp add: mod_mult2_eq mult.commute [of 256])
  finally show ?case .
qed

lemma le_nat_le_bytes_8 [simp]: "le_nat (le_bytes 8 v) = unat v"
  using unat_lt_2p64 [of v] by (simp add: le_nat_le_bytes)

section \<open>std::sort\<close>

text \<open>
  std::sort with a comparison function. The executable definition is an insertion sort; the locale
  \<open>comparator\<close> states what the standard requires of the comparison (a strict weak order) and what
  it then promises of the result, and \<open>sorted_permutation_unique\<close> shows when the promise
  determines it.
\<close>

primrec insert_by :: "('a \<Rightarrow> 'a \<Rightarrow> bool) \<Rightarrow> 'a \<Rightarrow> 'a list \<Rightarrow> 'a list" where
  "insert_by lt x [] = [x]"
| "insert_by lt x (y # ys) = (if lt y x then y # insert_by lt x ys else x # y # ys)"

primrec std_sort :: "('a \<Rightarrow> 'a \<Rightarrow> bool) \<Rightarrow> 'a list \<Rightarrow> 'a list" where
  "std_sort lt [] = []"
| "std_sort lt (x # xs) = insert_by lt x (std_sort lt xs)"

lemma mset_insert_by [simp]: "mset (insert_by lt x ys) = add_mset x (mset ys)"
  by (induction ys) auto

lemma set_insert_by [simp]: "set (insert_by lt x ys) = insert x (set ys)"
  by (induction ys) auto

lemma mset_std_sort [simp]: "mset (std_sort lt xs) = mset xs"
  by (induction xs) auto

lemma set_std_sort [simp]: "set (std_sort lt xs) = set xs"
  by (induction xs) auto

lemma length_std_sort [simp]: "length (std_sort lt xs) = length xs"
  by (metis mset_std_sort size_mset)

lemma sorted_wrt_insert_by:
  "(\<And>x y. R x y \<Longrightarrow> R y x) \<Longrightarrow> sorted_wrt R (insert_by lt x ys) \<longleftrightarrow> (\<forall>y \<in> set ys. R x y) \<and> sorted_wrt R ys"
  by (induction ys) auto

text \<open>A symmetric relation holds pairwise on a list exactly when it does on the sorted list.\<close>

lemma pairwise_std_sort: "(\<And>x y. R x y \<Longrightarrow> R y x) \<Longrightarrow> sorted_wrt R (std_sort lt xs) \<longleftrightarrow> sorted_wrt R xs"
  by (induction xs) (simp_all add: sorted_wrt_insert_by)

lemma distinct_std_sort [simp]: "distinct (std_sort lt xs) = distinct xs"
  by (simp add: distinct_count_atmost_1)

locale comparator =
  fixes lt :: "'a \<Rightarrow> 'a \<Rightarrow> bool"
  assumes irreflexive: "\<not> lt x x"
    and transitive: "lt x y \<Longrightarrow> lt y z \<Longrightarrow> lt x z"
    and incomparable_transitive:
      "\<not> lt x y \<Longrightarrow> \<not> lt y z \<Longrightarrow> \<not> lt x z"
begin

lemma sorted_insert_by:
  "sorted_wrt (\<lambda>a b. \<not> lt b a) ys \<Longrightarrow> sorted_wrt (\<lambda>a b. \<not> lt b a) (insert_by lt x ys)"
proof (induction ys)
  case (Cons y ys)
  have asym: "\<not> lt x y" if "lt y x" using that irreflexive transitive by blast
  show ?case
  proof (cases "lt y x")
    case True
    with Cons asym show ?thesis by auto
  next
    case False
    have "\<not> lt b x" if "b \<in> set ys" for b
      using Cons.prems that False incomparable_transitive [of b y x] by simp
    with Cons.prems False show ?thesis by simp
  qed
qed simp

lemma sorted_std_sort: "sorted_wrt (\<lambda>a b. \<not> lt b a) (std_sort lt xs)"
  by (induction xs) (simp_all add: sorted_insert_by)

text \<open>
  Where the comparison separates the elements, the result does not depend on the algorithm: any
  sorted permutation of the input is the same list.
\<close>

lemma sorted_permutation_unique:
  assumes total: "\<And>x y. x \<in> set xs \<Longrightarrow> y \<in> set xs \<Longrightarrow> x \<noteq> y \<Longrightarrow> lt x y \<or> lt y x"
    and "mset ys = mset xs" and "sorted_wrt (\<lambda>a b. \<not> lt b a) ys"
  shows "ys = std_sort lt xs"
proof -
  have "ys = zs" if "mset ys = mset zs" "set zs = set xs" "sorted_wrt (\<lambda>a b. \<not> lt b a) ys"
    "sorted_wrt (\<lambda>a b. \<not> lt b a) zs" "set zs \<subseteq> set xs" for zs
    using that(1,3,4,5)
  proof (induction ys arbitrary: zs)
    case (Cons y ys)
    then obtain z zs' where zs: "zs = z # zs'" by (cases zs) auto
    have "y = z"
    proof (rule ccontr)
      assume "y \<noteq> z"
      with Cons.prems zs have "y \<in> set zs'" "z \<in> set ys"
        by (metis insert_iff list.simps(15) set_mset_mset)+
      with Cons.prems zs total [of y z] \<open>y \<noteq> z\<close> show False by auto
    qed
    with Cons zs show ?case by auto
  qed simp
  then show ?thesis using assms(2,3) sorted_std_sort [of xs] by simp
qed

text \<open>std::unique after std::sort leaves a strictly increasing list.\<close>

lemma strict_remdups_adj:
  assumes "\<And>x y. x \<noteq> y \<Longrightarrow> lt x y \<or> lt y x" and "sorted_wrt (\<lambda>a b. \<not> lt b a) xs"
  shows "sorted_wrt lt (remdups_adj xs)"
  using assms(2)
proof (induction xs rule: remdups_adj.induct)
  case (3 x y xs)
  have "lt x z" if "x \<noteq> y" and "z \<in> set (y # xs)" for z
    using that assms(1) [of x z] assms(1) [of x y] "3.prems" by auto
  with 3 show ?case by auto
qed simp_all

end

text \<open>A comparison through a key of a linearly ordered type is a comparator.\<close>

lemma comparator_by_key: "comparator (\<lambda>x y. key x < (key y :: 'k :: linorder))"
  by unfold_locales auto

interpretation u64_order: comparator "(<) :: u64 \<Rightarrow> u64 \<Rightarrow> bool"
  by unfold_locales auto

end
