(* ===== verification/Guest_Address.thy ===== *)
theory Guest_Address
  imports Prelude
begin

text \<open>
  include/astraea/memory/guest_address.hpp: guest addresses, guest sizes and guest ranges with
  checked arithmetic. GuestAddress and GuestSize wrap one 64-bit value and are words here;
  \<open>range_wf\<close> is the invariant that the private constructor of GuestRange protects, and
  \<open>range_addrs\<close> is the set of guest addresses a range stands for.
\<close>

section \<open>Addresses and sizes\<close>

datatype AddressErrorCode =
    guest_range_overflow
  | address_addition_overflow
  | size_addition_overflow
  | size_subtraction_underflow

type_synonym AddressError = AddressErrorCode
type_synonym GuestSize = u64
type_synonym GuestAddress = u64

definition GuestSize_checked_add :: "GuestSize \<Rightarrow> GuestSize \<Rightarrow> (GuestSize, AddressError) Result" where
  "GuestSize_checked_add lhs rhs =
     (if lhs > u64_max - rhs then Failure size_addition_overflow else Success (lhs + rhs))"

definition GuestSize_checked_subtract :: "GuestSize \<Rightarrow> GuestSize \<Rightarrow> (GuestSize, AddressError) Result" where
  "GuestSize_checked_subtract lhs rhs =
     (if rhs > lhs then Failure size_subtraction_underflow else Success (lhs - rhs))"

definition GuestAddress_checked_add :: "GuestAddress \<Rightarrow> GuestSize \<Rightarrow> (GuestAddress, AddressError) Result" where
  "GuestAddress_checked_add base offset =
     (if base > u64_max - offset then Failure address_addition_overflow else Success (base + offset))"

section \<open>Ranges\<close>

record GuestRange =
  range_base :: GuestAddress
  range_size :: GuestSize

definition GuestRange_create :: "GuestAddress \<Rightarrow> GuestSize \<Rightarrow> (GuestRange, AddressError) Result" where
  "GuestRange_create base sz =
     (if sz > 0 \<and> base > u64_max - (sz - 1) then Failure guest_range_overflow
      else Success \<lparr>range_base = base, range_size = sz\<rparr>)"

definition range_empty :: "GuestRange \<Rightarrow> bool" where
  "range_empty r \<longleftrightarrow> range_size r = 0"

definition range_contains :: "GuestRange \<Rightarrow> GuestAddress \<Rightarrow> bool" where
  "range_contains r address =
     (if range_empty r \<or> address < range_base r then False
      else address - range_base r < range_size r)"

definition range_overlaps :: "GuestRange \<Rightarrow> GuestRange \<Rightarrow> bool" where
  "range_overlaps r other =
     (if range_empty r \<or> range_empty other then False
      else range_contains r (range_base other) \<or> range_contains other (range_base r))"

definition range_wf :: "GuestRange \<Rightarrow> bool" where
  "range_wf r \<longleftrightarrow> unat (range_base r) + unat (range_size r) \<le> 2 ^ 64"

definition range_addrs :: "GuestRange \<Rightarrow> GuestAddress set" where
  "range_addrs r = {a. unat (range_base r) \<le> unat a \<and> unat a < unat (range_base r) + unat (range_size r)}"

section \<open>Facts shared by the components\<close>

lemma GuestAddress_checked_add_Success [result_simps]:
  "GuestAddress_checked_add b off = Success a \<longleftrightarrow> unat b + unat off < 2 ^ 64 \<and> a = b + off"
  by (auto simp: GuestAddress_checked_add_def gt_max_minus_iff)

lemma GuestAddress_checked_add_Failure [result_simps]:
  "GuestAddress_checked_add b off = Failure e \<longleftrightarrow> 2 ^ 64 \<le> unat b + unat off \<and> e = address_addition_overflow"
  by (auto simp: GuestAddress_checked_add_def gt_max_minus_iff)

lemma GuestAddress_checked_add_defined [simp]: "GuestAddress_checked_add b off \<noteq> Undefined"
  by (simp add: GuestAddress_checked_add_def)

lemma GuestSize_checked_add_Success [result_simps]:
  "GuestSize_checked_add a b = Success c \<longleftrightarrow> unat a + unat b < 2 ^ 64 \<and> c = a + b"
  by (auto simp: GuestSize_checked_add_def gt_max_minus_iff)

lemma GuestSize_checked_subtract_Success [result_simps]:
  "GuestSize_checked_subtract a b = Success c \<longleftrightarrow> unat b \<le> unat a \<and> c = a - b"
  by (auto simp: GuestSize_checked_subtract_def word_less_nat_alt)

lemma GuestRange_create_Success [result_simps]:
  "GuestRange_create b s = Success r \<longleftrightarrow>
     unat b + unat s \<le> 2 ^ 64 \<and> r = \<lparr>range_base = b, range_size = s\<rparr>"
  unfolding GuestRange_create_def create_guard_iff by auto

lemma GuestRange_create_Failure [result_simps]:
  "GuestRange_create b s = Failure e \<longleftrightarrow> 2 ^ 64 < unat b + unat s \<and> e = guest_range_overflow"
  unfolding GuestRange_create_def create_guard_iff by auto

lemma GuestRange_create_defined [simp]: "GuestRange_create b s \<noteq> Undefined"
  by (simp add: GuestRange_create_def)

lemma GuestRange_create_wf: "GuestRange_create b s = Success r \<Longrightarrow> range_wf r"
  by (auto simp: GuestRange_create_Success range_wf_def)

lemma range_contains_iff [unat_simps]:
  "range_contains r a \<longleftrightarrow>
     unat (range_base r) \<le> unat a \<and> unat a < unat (range_base r) + unat (range_size r)"
  by (auto simp: range_contains_def range_empty_def word_less_nat_alt unat_sub_if' split: if_splits)

lemma range_contains_addrs: "range_contains r a \<longleftrightarrow> a \<in> range_addrs r"
  by (simp add: range_contains_iff range_addrs_def)

lemma range_empty_iff [unat_simps]: "range_empty r \<longleftrightarrow> unat (range_size r) = 0"
  by (simp add: range_empty_def unat_eq_0)

lemma range_overlaps_iff:
  "range_overlaps r s \<longleftrightarrow>
     unat (range_size r) \<noteq> 0 \<and> unat (range_size s) \<noteq> 0 \<and>
     unat (range_base r) < unat (range_base s) + unat (range_size s) \<and>
     unat (range_base s) < unat (range_base r) + unat (range_size r)"
  by (auto simp: range_overlaps_def unat_simps)

lemma range_overlaps_common_address:
  "range_overlaps r s \<longleftrightarrow> (\<exists>a. range_contains r a \<and> range_contains s a)"
proof
  assume ov: "range_overlaps r s"
  define a where "a = (if unat (range_base r) \<le> unat (range_base s) then range_base s else range_base r)"
  from ov have "range_contains r a \<and> range_contains s a"
    by (auto simp: a_def range_overlaps_iff range_contains_iff)
  then show "\<exists>a. range_contains r a \<and> range_contains s a" ..
next
  assume "\<exists>a. range_contains r a \<and> range_contains s a"
  then show "range_overlaps r s" by (auto simp: range_overlaps_iff range_contains_iff)
qed

lemma range_overlaps_sym: "range_overlaps r s = range_overlaps s r"
  by (auto simp: range_overlaps_iff)

end
