(* ===== verification/Elf64.thy ===== *)
theory Elf64
  imports Prelude
begin

text \<open>
  src/loader/elf64.cpp and include/astraea/loader/elf64.hpp: the bounded ELF64 parser.
  \<open>parse_elf64\<close> is split where the source has its phases: the identification bytes, the fixed
  header, the program-header table bounds, and the loop over the program headers with the checks
  of a PT_LOAD segment. \<open>elf64_accepts\<close> states, without reference to the parser, which byte
  strings are accepted, and \<open>decode_image\<close> what they mean.
\<close>

section \<open>Data\<close>

datatype ElfParseProfile = generic | ps5_sce | ps5_marked_raw

datatype ElfErrorCode =
    file_too_small
  | bad_magic
  | unsupported_class
  | unsupported_endianness
  | unsupported_ident_version
  | unsupported_elf_version
  | unsupported_machine
  | unsupported_file_type
  | invalid_elf_header_size
  | invalid_program_header_entry_size
  | unsupported_extended_program_header_count
  | integer_overflow
  | program_header_table_out_of_bounds
  | segment_file_range_out_of_bounds
  | load_file_size_exceeds_memory_size
  | load_virtual_range_overflow
  | invalid_load_alignment
  | load_segments_out_of_order

record ElfError =
  elf_error_code :: ElfErrorCode
  elf_error_program_header_index :: "nat option"
  elf_error_file_offset :: u64

record ElfHeader =
  elf_os_abi :: u8
  elf_abi_version :: u8
  elf_type :: u16
  elf_machine :: u16
  elf_version :: u32
  elf_entry :: u64
  elf_program_header_offset :: u64
  elf_section_header_offset :: u64
  elf_flags :: u32
  elf_header_size :: u16
  elf_program_header_entry_size :: u16
  elf_program_header_count :: u16
  elf_section_header_entry_size :: u16
  elf_section_header_count :: u16
  elf_section_name_table_index :: u16

record ProgramHeader =
  ph_type :: u32
  ph_flags :: u32
  ph_offset :: u64
  ph_virtual_address :: u64
  ph_physical_address :: u64
  ph_file_size :: u64
  ph_memory_size :: u64
  ph_alignment :: u64
  ph_index :: nat

record ElfImage =
  image_header :: ElfHeader
  image_program_headers :: "ProgramHeader list"

abbreviation kPtLoad :: u32 where "kPtLoad \<equiv> 1"
abbreviation kElf64ProgramHeaderSize :: u64 where "kElf64ProgramHeaderSize \<equiv> 56"

definition kElfMagic :: "u8 list" where
  "kElfMagic = [0x7f, 0x45, 0x4c, 0x46]"

definition input_size_u64 :: "u8 list \<Rightarrow> u64" where
  "input_size_u64 bytes = of_nat (length bytes)"

definition header_error :: "ElfErrorCode \<Rightarrow> u64 \<Rightarrow> ElfError" where
  "header_error code offset =
     \<lparr>elf_error_code = code, elf_error_program_header_index = None, elf_error_file_offset = offset\<rparr>"

definition program_header_error :: "ElfErrorCode \<Rightarrow> nat \<Rightarrow> u64 \<Rightarrow> ElfError" where
  "program_header_error code index offset =
     \<lparr>elf_error_code = code, elf_error_program_header_index = Some index, elf_error_file_offset = offset\<rparr>"

fun supported_file_type :: "u16 \<Rightarrow> u8 \<Rightarrow> u8 \<Rightarrow> ElfParseProfile \<Rightarrow> bool" where
  "supported_file_type type os_abi abi_version generic = (type = 2 \<or> type = 3)"
| "supported_file_type type os_abi abi_version ps5_sce = (type = 0xfe10 \<or> type = 0xfe18)"
| "supported_file_type type os_abi abi_version ps5_marked_raw =
     (type = 3 \<and> os_abi = 9 \<and> abi_version = 2)"

section \<open>The parser\<close>

text \<open>The loop over the four magic bytes.\<close>

primrec check_magic :: "u8 list \<Rightarrow> nat list \<Rightarrow> (unit, ElfError) Result" where
  "check_magic bytes [] = Success ()"
| "check_magic bytes (i # is) =
     with_value (span_at bytes (of_nat i)) (\<lambda>b.
       if b \<noteq> kElfMagic ! i then Failure (header_error bad_magic (of_nat i))
       else check_magic bytes is)"

definition check_ident :: "u8 list \<Rightarrow> (unit, ElfError) Result" where
  "check_ident bytes =
     (if length bytes < 16 then Failure (header_error file_too_small 0)
      else with_value (check_magic bytes [0..<4]) (\<lambda>_.
        with_value (span_at bytes 4) (\<lambda>ei_class.
        if ei_class \<noteq> 2 then Failure (header_error unsupported_class 4)
        else with_value (span_at bytes 5) (\<lambda>ei_data.
        if ei_data \<noteq> 1 then Failure (header_error unsupported_endianness 5)
        else with_value (span_at bytes 6) (\<lambda>ei_version.
        if ei_version \<noteq> 1 then Failure (header_error unsupported_ident_version 6)
        else if length bytes < 64 then Failure (header_error file_too_small 16)
        else Success ())))))"

definition read_elf_header :: "u8 list \<Rightarrow> (ElfHeader, ElfError) Result" where
  "read_elf_header bytes =
     with_value (span_at bytes 7) (\<lambda>os_abi.
     with_value (span_at bytes 8) (\<lambda>abi_version.
     with_value (read_u16 bytes 16) (\<lambda>type.
     with_value (read_u16 bytes 18) (\<lambda>machine.
     with_value (read_u32 bytes 20) (\<lambda>version.
     with_value (read_u64 bytes 24) (\<lambda>entry.
     with_value (read_u64 bytes 32) (\<lambda>phoff.
     with_value (read_u64 bytes 40) (\<lambda>shoff.
     with_value (read_u32 bytes 48) (\<lambda>flags.
     with_value (read_u16 bytes 52) (\<lambda>ehsize.
     with_value (read_u16 bytes 54) (\<lambda>phentsize.
     with_value (read_u16 bytes 56) (\<lambda>phnum.
     with_value (read_u16 bytes 58) (\<lambda>shentsize.
     with_value (read_u16 bytes 60) (\<lambda>shnum.
     with_value (read_u16 bytes 62) (\<lambda>shstrndx.
       Success \<lparr>elf_os_abi = os_abi, elf_abi_version = abi_version, elf_type = type,
         elf_machine = machine, elf_version = version, elf_entry = entry,
         elf_program_header_offset = phoff, elf_section_header_offset = shoff,
         elf_flags = flags, elf_header_size = ehsize,
         elf_program_header_entry_size = phentsize, elf_program_header_count = phnum,
         elf_section_header_entry_size = shentsize, elf_section_header_count = shnum,
         elf_section_name_table_index = shstrndx\<rparr>)))))))))))))))"

definition check_elf_header :: "ElfHeader \<Rightarrow> ElfParseProfile \<Rightarrow> (unit, ElfError) Result" where
  "check_elf_header header profile =
     (if elf_version header \<noteq> 1 then Failure (header_error unsupported_elf_version 20)
      else if elf_machine header \<noteq> 62 then Failure (header_error unsupported_machine 18)
      else if \<not> supported_file_type (elf_type header) (elf_os_abi header) (elf_abi_version header) profile
        then Failure (header_error unsupported_file_type 16)
      else if elf_header_size header \<noteq> 64 then Failure (header_error invalid_elf_header_size 52)
      else if elf_program_header_count header = 0xffff
        then Failure (header_error unsupported_extended_program_header_count 56)
      else Success ())"

text \<open>The bounds of the program-header table, checked when the table is not empty.\<close>

definition check_program_header_table :: "u8 list \<Rightarrow> ElfHeader \<Rightarrow> (unit, ElfError) Result" where
  "check_program_header_table bytes header =
     (if elf_program_header_entry_size header \<noteq> 56
      then Failure (header_error invalid_program_header_entry_size 54)
      else case checked_mul_u64 (ucast (elf_program_header_count header))
                  (ucast (elf_program_header_entry_size header)) of
        None \<Rightarrow> Failure (header_error integer_overflow 56)
      | Some table_size \<Rightarrow>
          (case checked_add_u64 (elf_program_header_offset header) table_size of
            None \<Rightarrow> Failure (header_error integer_overflow 32)
          | Some table_end \<Rightarrow>
              if elf_program_header_offset header > input_size_u64 bytes \<or>
                 table_end > input_size_u64 bytes
              then Failure (header_error program_header_table_out_of_bounds 32)
              else Success ()))"

definition read_program_header :: "u8 list \<Rightarrow> u64 \<Rightarrow> nat \<Rightarrow> (ProgramHeader, ElfError) Result" where
  "read_program_header bytes entry_offset index =
     with_value (read_u32 bytes entry_offset) (\<lambda>type.
     with_value (read_u32 bytes (entry_offset + 4)) (\<lambda>flags.
     with_value (read_u64 bytes (entry_offset + 8)) (\<lambda>offset.
     with_value (read_u64 bytes (entry_offset + 16)) (\<lambda>vaddr.
     with_value (read_u64 bytes (entry_offset + 24)) (\<lambda>paddr.
     with_value (read_u64 bytes (entry_offset + 32)) (\<lambda>filesz.
     with_value (read_u64 bytes (entry_offset + 40)) (\<lambda>memsz.
     with_value (read_u64 bytes (entry_offset + 48)) (\<lambda>align.
       Success \<lparr>ph_type = type, ph_flags = flags, ph_offset = offset, ph_virtual_address = vaddr,
         ph_physical_address = paddr, ph_file_size = filesz, ph_memory_size = memsz,
         ph_alignment = align, ph_index = index\<rparr>))))))))"

definition check_load_file_range :: "u64 \<Rightarrow> ProgramHeader \<Rightarrow> u64 \<Rightarrow> (unit, ElfError) Result" where
  "check_load_file_range input_size ph entry_offset =
     (if ph_file_size ph > 0
      then case checked_add_u64 (ph_offset ph) (ph_file_size ph) of
          None \<Rightarrow> Failure (program_header_error integer_overflow (ph_index ph) (entry_offset + 8))
        | Some file_end \<Rightarrow>
            if ph_offset ph > input_size \<or> file_end > input_size
            then Failure (program_header_error segment_file_range_out_of_bounds (ph_index ph) (entry_offset + 8))
            else Success ()
      else Success ())"

definition check_load_segment ::
  "u64 \<Rightarrow> ProgramHeader \<Rightarrow> u64 \<Rightarrow> u64 option \<Rightarrow> (unit, ElfError) Result" where
  "check_load_segment input_size ph entry_offset previous_load_address =
     (if ph_file_size ph > ph_memory_size ph
      then Failure (program_header_error load_file_size_exceeds_memory_size (ph_index ph) entry_offset)
      else with_value (check_load_file_range input_size ph entry_offset) (\<lambda>_.
        if ph_memory_size ph > 0 \<and> ph_virtual_address ph > u64_max - (ph_memory_size ph - 1)
        then Failure (program_header_error load_virtual_range_overflow (ph_index ph) (entry_offset + 16))
        else if ph_alignment ph > 1 \<and>
            (\<not> is_power_of_two (ph_alignment ph) \<or>
             ph_virtual_address ph mod ph_alignment ph \<noteq> ph_offset ph mod ph_alignment ph)
        then Failure (program_header_error invalid_load_alignment (ph_index ph) (entry_offset + 48))
        else case previous_load_address of
            None \<Rightarrow> Success ()
          | Some previous \<Rightarrow>
              if ph_virtual_address ph < previous
              then Failure (program_header_error load_segments_out_of_order (ph_index ph) (entry_offset + 16))
              else Success ()))"

primrec parse_program_headers ::
  "u8 list \<Rightarrow> u64 \<Rightarrow> nat list \<Rightarrow> u64 option \<Rightarrow> ProgramHeader list \<Rightarrow> (ProgramHeader list, ElfError) Result" where
  "parse_program_headers bytes phoff [] previous headers = Success headers"
| "parse_program_headers bytes phoff (index # rest) previous headers =
     with_value (read_program_header bytes (phoff + of_nat index * kElf64ProgramHeaderSize) index) (\<lambda>ph.
       if ph_type ph = kPtLoad
       then with_value (check_load_segment (input_size_u64 bytes) ph
                          (phoff + of_nat index * kElf64ProgramHeaderSize) previous) (\<lambda>_.
              parse_program_headers bytes phoff rest (Some (ph_virtual_address ph)) (headers @ [ph]))
       else parse_program_headers bytes phoff rest previous (headers @ [ph]))"

definition parse_elf64 :: "u8 list \<Rightarrow> ElfParseProfile \<Rightarrow> (ElfImage, ElfError) Result" where
  "parse_elf64 bytes profile =
     with_value (check_ident bytes) (\<lambda>_.
     with_value (read_elf_header bytes) (\<lambda>header.
     with_value (check_elf_header header profile) (\<lambda>_.
       if elf_program_header_count header = 0
       then Success \<lparr>image_header = header, image_program_headers = []\<rparr>
       else with_value (check_program_header_table bytes header) (\<lambda>_.
         with_value (parse_program_headers bytes (elf_program_header_offset header)
                       [0..<unat (elf_program_header_count header)] None []) (\<lambda>headers.
           Success \<lparr>image_header = header, image_program_headers = headers\<rparr>)))))"

section \<open>Reference semantics\<close>

definition decode_header :: "u8 list \<Rightarrow> ElfHeader" where
  "decode_header bytes =
     \<lparr>elf_os_abi = bytes ! 7, elf_abi_version = bytes ! 8,
      elf_type = of_nat (field_nat bytes 16 2), elf_machine = of_nat (field_nat bytes 18 2),
      elf_version = of_nat (field_nat bytes 20 4), elf_entry = of_nat (field_nat bytes 24 8),
      elf_program_header_offset = of_nat (field_nat bytes 32 8),
      elf_section_header_offset = of_nat (field_nat bytes 40 8),
      elf_flags = of_nat (field_nat bytes 48 4), elf_header_size = of_nat (field_nat bytes 52 2),
      elf_program_header_entry_size = of_nat (field_nat bytes 54 2),
      elf_program_header_count = of_nat (field_nat bytes 56 2),
      elf_section_header_entry_size = of_nat (field_nat bytes 58 2),
      elf_section_header_count = of_nat (field_nat bytes 60 2),
      elf_section_name_table_index = of_nat (field_nat bytes 62 2)\<rparr>"

definition decode_program_header :: "u8 list \<Rightarrow> nat \<Rightarrow> nat \<Rightarrow> ProgramHeader" where
  "decode_program_header bytes offset index =
     \<lparr>ph_type = of_nat (field_nat bytes offset 4), ph_flags = of_nat (field_nat bytes (offset + 4) 4),
      ph_offset = of_nat (field_nat bytes (offset + 8) 8),
      ph_virtual_address = of_nat (field_nat bytes (offset + 16) 8),
      ph_physical_address = of_nat (field_nat bytes (offset + 24) 8),
      ph_file_size = of_nat (field_nat bytes (offset + 32) 8),
      ph_memory_size = of_nat (field_nat bytes (offset + 40) 8),
      ph_alignment = of_nat (field_nat bytes (offset + 48) 8), ph_index = index\<rparr>"

definition decode_image :: "u8 list \<Rightarrow> ElfImage" where
  "decode_image bytes =
     (let header = decode_header bytes; phoff = unat (elf_program_header_offset header) in
      \<lparr>image_header = header,
       image_program_headers =
         map (\<lambda>i. decode_program_header bytes (phoff + i * 56) i)
           [0..<unat (elf_program_header_count header)]\<rparr>)"

definition load_segment_ok :: "nat \<Rightarrow> ProgramHeader \<Rightarrow> bool" where
  "load_segment_ok input_length ph \<longleftrightarrow>
     unat (ph_file_size ph) \<le> unat (ph_memory_size ph) \<and>
     (unat (ph_file_size ph) = 0 \<or> unat (ph_offset ph) + unat (ph_file_size ph) \<le> input_length) \<and>
     unat (ph_virtual_address ph) + unat (ph_memory_size ph) \<le> 2 ^ 64 \<and>
     (unat (ph_alignment ph) \<le> 1 \<or>
       is_power_of_two (ph_alignment ph) \<and>
       unat (ph_virtual_address ph) mod unat (ph_alignment ph) = unat (ph_offset ph) mod unat (ph_alignment ph))"

definition load_headers :: "ProgramHeader list \<Rightarrow> ProgramHeader list" where
  "load_headers phs = filter (\<lambda>ph. ph_type ph = kPtLoad) phs"

definition elf64_ident_ok :: "u8 list \<Rightarrow> bool" where
  "elf64_ident_ok bytes \<longleftrightarrow>
     64 \<le> length bytes \<and> take 4 bytes = kElfMagic \<and> bytes ! 4 = 2 \<and> bytes ! 5 = 1 \<and> bytes ! 6 = 1"

definition elf64_header_ok :: "ElfHeader \<Rightarrow> ElfParseProfile \<Rightarrow> bool" where
  "elf64_header_ok header profile \<longleftrightarrow>
     elf_version header = 1 \<and> elf_machine header = 62 \<and>
     supported_file_type (elf_type header) (elf_os_abi header) (elf_abi_version header) profile \<and>
     elf_header_size header = 64 \<and> elf_program_header_count header \<noteq> 0xffff"

definition elf64_table_ok :: "nat \<Rightarrow> ElfHeader \<Rightarrow> bool" where
  "elf64_table_ok input_length header \<longleftrightarrow>
     elf_program_header_entry_size header = 56 \<and>
     unat (elf_program_header_offset header) + unat (elf_program_header_count header) * 56 \<le> input_length"

definition elf64_segments_ok :: "nat \<Rightarrow> ProgramHeader list \<Rightarrow> bool" where
  "elf64_segments_ok input_length phs \<longleftrightarrow>
     list_all (load_segment_ok input_length) (load_headers phs) \<and>
     sorted (map ph_virtual_address (load_headers phs))"

definition elf64_accepts :: "u8 list \<Rightarrow> ElfParseProfile \<Rightarrow> bool" where
  "elf64_accepts bytes profile \<longleftrightarrow>
     elf64_ident_ok bytes \<and> elf64_header_ok (decode_header bytes) profile \<and>
     (elf_program_header_count (decode_header bytes) = 0 \<or>
      elf64_table_ok (length bytes) (decode_header bytes) \<and>
      elf64_segments_ok (length bytes) (image_program_headers (decode_image bytes)))"

section \<open>The phases\<close>

lemma check_ident_defined: "host_object bytes \<Longrightarrow> check_ident bytes \<noteq> Undefined"
  by (auto simp: check_ident_def result_simps span_at_def upt_rec)

lemma check_ident_Success:
  assumes "host_object bytes"
  shows "check_ident bytes = Success u \<longleftrightarrow> elf64_ident_ok bytes"
proof -
  have "take 4 bytes = [bytes ! 0, bytes ! 1, bytes ! 2, bytes ! 3]" if "64 \<le> length bytes"
  proof -
    from that have "3 < length bytes" and "2 < length bytes" and "1 < length bytes" and "bytes \<noteq> []"
      by auto
    then have "take (Suc (Suc (Suc (Suc 0)))) bytes = [bytes ! 0, bytes ! 1, bytes ! 2, bytes ! 3]"
      by (simp add: take_Suc_conv_app_nth numeral_2_eq_2 numeral_3_eq_3)
    then show ?thesis by (simp add: eval_nat_numeral)
  qed
  then show ?thesis
    by (auto simp: check_ident_def elf64_ident_ok_def result_simps span_at_def upt_rec kElfMagic_def
        split: if_splits)
qed

lemma read_elf_header_ok:
  assumes "host_object bytes" and "64 \<le> length bytes"
  shows "read_elf_header bytes = Success (decode_header bytes)"
  using assms(2) host_object_length [OF assms(1)]
  by (simp add: read_elf_header_def read_word_ok decode_header_def span_at_def)

lemma check_elf_header_defined: "check_elf_header header profile \<noteq> Undefined"
  by (simp add: check_elf_header_def)

lemma check_elf_header_Success: "check_elf_header header profile = Success u \<longleftrightarrow> elf64_header_ok header profile"
  by (auto simp: check_elf_header_def elf64_header_ok_def split: if_splits)

lemma check_program_header_table_defined: "check_program_header_table bytes header \<noteq> Undefined"
  by (simp add: check_program_header_table_def split: option.splits)

lemma check_program_header_table_Success:
  assumes "host_object bytes"
  shows "check_program_header_table bytes header = Success u \<longleftrightarrow> elf64_table_ok (length bytes) header"
proof -
  let ?n = "ucast (elf_program_header_count header) :: u64"
  have n: "unat ?n = unat (elf_program_header_count header)" by (simp add: unat_ucast_up)
  have "unat (elf_program_header_count header) < 65536"
    using unsigned_less [of "elf_program_header_count header", where ?'a = nat] by simp
  then have small: "unat ?n * 56 < 2 ^ 64" and m: "unat (?n * 56) = unat (elf_program_header_count header) * 56"
    by (simp_all add: n unat_word_ariths)
  then have "checked_mul_u64 ?n 56 = Some (?n * 56)"
    by (simp add: checked_mul_u64_Some)
  then show ?thesis
    using assms host_object_unat [OF assms] host_object_length [OF assms]
    by (auto simp: check_program_header_table_def elf64_table_ok_def input_size_u64_def
        checked_add_u64_Some checked_add_u64_None word_less_nat_alt m unat_add_no_wrap not_less
        split: option.splits if_splits)
qed

lemma read_program_header_ok:
  assumes "host_object bytes" and "unat off + 56 \<le> length bytes"
  shows "read_program_header bytes off i = Success (decode_program_header bytes (unat off) i)"
proof -
  have step: "unat (off + c) = unat off + unat c" if "unat c \<le> 56" for c
    using that assms host_object_length [OF assms(1)] by (simp add: unat_add_no_wrap)
  show ?thesis
    using assms(2) host_object_length [OF assms(1)]
    by (simp add: read_program_header_def read_word_ok decode_program_header_def step)
qed

lemma check_load_segment_defined: "check_load_segment n ph off prev \<noteq> Undefined"
  by (auto simp: check_load_segment_def check_load_file_range_def result_simps split: option.splits if_splits)

lemma check_load_file_range_Success:
  assumes "host_object bytes"
  shows "check_load_file_range (input_size_u64 bytes) ph off = Success u \<longleftrightarrow>
     unat (ph_file_size ph) = 0 \<or> unat (ph_offset ph) + unat (ph_file_size ph) \<le> length bytes"
  using host_object_unat [OF assms] host_object_length [OF assms]
  by (auto simp: check_load_file_range_def input_size_u64_def checked_add_u64_Some checked_add_u64_None
      word_less_nat_alt unat_add_no_wrap not_less split: option.splits if_splits)

lemma check_load_segment_Success:
  assumes "host_object bytes"
  shows "check_load_segment (input_size_u64 bytes) ph off prev = Success u \<longleftrightarrow>
     load_segment_ok (length bytes) ph \<and> (\<forall>p. prev = Some p \<longrightarrow> p \<le> ph_virtual_address ph)"
  unfolding check_load_segment_def load_segment_ok_def create_guard_iff
  by (auto simp: result_simps check_load_file_range_Success [OF assms] mod_unat_iff not_less
      word_less_nat_alt word_le_nat_alt split: option.splits if_splits)

definition ph_at :: "u8 list \<Rightarrow> u64 \<Rightarrow> nat \<Rightarrow> ProgramHeader" where
  "ph_at bytes phoff i = decode_program_header bytes (unat phoff + i * 56) i"

lemma table_offset:
  assumes "host_object bytes" and "unat phoff + (i + 1) * 56 \<le> length bytes"
  shows "unat (phoff + of_nat i * kElf64ProgramHeaderSize) = unat phoff + i * 56"
proof -
  have "i * 56 < 2 ^ 64" using assms host_object_length [OF assms(1)] by simp
  then have "unat (of_nat i * 56 :: u64) = i * 56"
    using unat_of_nat [of "i * 56", where ?'a = 64] by simp
  then show ?thesis using assms host_object_length [OF assms(1)] by (simp add: unat_add_no_wrap)
qed

lemma read_table_entry:
  assumes "host_object bytes" and "unat phoff + (i + 1) * 56 \<le> length bytes"
  shows "read_program_header bytes (phoff + of_nat i * kElf64ProgramHeaderSize) i = Success (ph_at bytes phoff i)"
  using read_program_header_ok [OF assms(1), of "phoff + of_nat i * kElf64ProgramHeaderSize" i]
    table_offset [OF assms] assms(2) by (simp add: ph_at_def)

lemma parse_program_headers_defined:
  assumes "host_object bytes" and "\<forall>i \<in> set is. unat phoff + (i + 1) * 56 \<le> length bytes"
  shows "parse_program_headers bytes phoff is prev hs \<noteq> Undefined"
  using assms(2)
  by (induction "is" arbitrary: prev hs)
    (auto simp: read_table_entry [OF assms(1)] result_simps check_load_segment_defined)

lemma parse_program_headers_Success:
  assumes "host_object bytes" and "\<forall>i \<in> set is. unat phoff + (i + 1) * 56 \<le> length bytes"
  shows "parse_program_headers bytes phoff is prev hs = Success out \<longleftrightarrow>
     out = hs @ map (ph_at bytes phoff) is \<and>
     list_all (load_segment_ok (length bytes)) (load_headers (map (ph_at bytes phoff) is)) \<and>
     sorted ((case prev of None \<Rightarrow> [] | Some p \<Rightarrow> [p])
       @ map ph_virtual_address (load_headers (map (ph_at bytes phoff) is)))"
  using assms(2)
proof (induction "is" arbitrary: prev hs)
  case Nil
  then show ?case by (auto simp: load_headers_def split: option.splits)
next
  case (Cons i rest)
  then have here: "unat phoff + (i + 1) * 56 \<le> length bytes" by simp
  show ?case
    using Cons by (auto simp: read_table_entry [OF assms(1) here] result_simps load_headers_def
        check_load_segment_Success [OF assms(1)] split: option.splits)
qed

section \<open>The parser as a whole\<close>

lemma elf64_table_entries:
  assumes "elf64_table_ok n header" and "i < unat (elf_program_header_count header)"
  shows "unat (elf_program_header_offset header) + (i + 1) * 56 \<le> n"
proof -
  have "(i + 1) * 56 \<le> unat (elf_program_header_count header) * 56" using assms(2) by simp
  then show ?thesis using assms(1) by (simp add: elf64_table_ok_def)
qed

lemma decode_image_table:
  "image_program_headers (decode_image bytes) =
     map (ph_at bytes (elf_program_header_offset (decode_header bytes)))
       [0..<unat (elf_program_header_count (decode_header bytes))]"
  by (simp add: decode_image_def ph_at_def Let_def)

lemma decode_image_header [simp]: "image_header (decode_image bytes) = decode_header bytes"
  by (simp add: decode_image_def Let_def)

lemma parse_elf64_defined:
  assumes "host_object bytes"
  shows "parse_elf64 bytes profile \<noteq> Undefined"
proof
  assume "parse_elf64 bytes profile = Undefined"
  then obtain u header v w where id: "check_ident bytes = Success u"
    and h: "read_elf_header bytes = Success header"
    and t: "check_program_header_table bytes header = Success w"
    and p: "parse_program_headers bytes (elf_program_header_offset header)
              [0..<unat (elf_program_header_count header)] None [] = Undefined"
    using assms read_elf_header_ok [OF assms]
    by (auto simp: parse_elf64_def result_simps check_ident_defined check_elf_header_defined
        check_program_header_table_defined check_ident_Success elf64_ident_ok_def split: if_splits)
  then have "elf64_table_ok (length bytes) header"
    using check_program_header_table_Success [OF assms] by simp
  then have "\<forall>i \<in> set [0..<unat (elf_program_header_count header)].
      unat (elf_program_header_offset header) + (i + 1) * 56 \<le> length bytes"
    using elf64_table_entries by auto
  with p show False using parse_program_headers_defined [OF assms] by blast
qed

lemma parse_elf64_iff:
  assumes "host_object bytes"
  shows "parse_elf64 bytes profile = Success img \<longleftrightarrow>
     elf64_accepts bytes profile \<and> img = decode_image bytes"
proof (cases "elf64_ident_ok bytes")
  case False
  then show ?thesis
    using check_ident_Success [OF assms] by (auto simp: parse_elf64_def result_simps elf64_accepts_def)
next
  case True
  let ?h = "decode_header bytes"
  have id: "check_ident bytes = Success ()" using check_ident_Success [OF assms] True by simp
  have hd: "read_elf_header bytes = Success ?h"
    using read_elf_header_ok [OF assms] True by (simp add: elf64_ident_ok_def)
  have loop: "parse_program_headers bytes (elf_program_header_offset ?h)
       [0..<unat (elf_program_header_count ?h)] None [] = Success hs \<longleftrightarrow>
     hs = image_program_headers (decode_image bytes) \<and>
     elf64_segments_ok (length bytes) (image_program_headers (decode_image bytes))"
    if "elf64_table_ok (length bytes) ?h" for hs
    using parse_program_headers_Success [OF assms] elf64_table_entries [OF that]
    by (auto simp: elf64_segments_ok_def decode_image_table)
  have "decode_image bytes = \<lparr>image_header = ?h, image_program_headers = []\<rparr>"
    if "elf_program_header_count ?h = 0"
    using that by (simp add: decode_image_def)
  moreover have "\<lparr>image_header = ?h, image_program_headers = image_program_headers (decode_image bytes)\<rparr> = decode_image bytes"
    by (simp add: decode_image_def Let_def)
  ultimately show ?thesis
    using True check_program_header_table_Success [OF assms, of ?h]
    by (auto simp: parse_elf64_def id hd result_simps elf64_accepts_def check_elf_header_Success loop)
qed

section \<open>Properties\<close>

text \<open>
  C1. The parser accepts exactly the byte strings that satisfy the declarative conditions on the
  identification, the header, the table bounds and every PT_LOAD segment (file range inside the
  input, no wrap of the virtual range, power-of-two alignment with congruent address and offset,
  ascending addresses), and it returns exactly the little-endian decoding of the header and of
  every program header. Whatever the header claims about table offsets and sizes, it never indexes the
  input out of range.
\<close>

theorem parse_elf64_correct:
  assumes "host_object bytes"
  shows "parse_elf64 bytes profile \<noteq> Undefined
    \<and> (parse_elf64 bytes profile = Success img \<longleftrightarrow> elf64_accepts bytes profile \<and> img = decode_image bytes)"
  using parse_elf64_defined [OF assms] parse_elf64_iff [OF assms] by simp

section \<open>A concrete file\<close>

text \<open>A well-formed file of 120 bytes: the header and one PT_LOAD segment at 0x400000.\<close>

definition sample_elf :: "u8 list" where
  "sample_elf =
  [127, 69, 76, 70, 2, 1, 1, 0, 0, 0, 0, 0, 0, 0, 0, 0, 2, 0, 62, 0, 1, 0, 0, 0, 0, 0, 64, 0,
   0, 0, 0, 0, 64, 0, 0, 0, 0, 0, 0, 0, 0, 0, 0, 0, 0, 0, 0, 0, 0, 0, 0, 0, 64, 0, 56, 0, 1,
   0, 0, 0, 0, 0, 0, 0, 1, 0, 0, 0, 5, 0, 0, 0, 0, 0, 0, 0, 0, 0, 0, 0, 0, 0, 64, 0, 0, 0, 0,
   0, 0, 0, 0, 0, 0, 0, 0, 0, 120, 0, 0, 0, 0, 0, 0, 0, 0, 16, 0, 0, 0, 0, 0, 0, 0, 16, 0, 0,
   0, 0, 0, 0]"

lemma sample_elf_host: "host_object sample_elf"
  by (simp add: host_object_def sample_elf_def)

lemmas elf64_eval = elf64_accepts_def elf64_ident_ok_def elf64_header_ok_def elf64_table_ok_def
  elf64_segments_ok_def load_segment_ok_def load_headers_def is_power_of_two_def
  decode_image_def decode_header_def decode_program_header_def field_nat_def kElfMagic_def

lemma sample_elf_accepted: "elf64_accepts sample_elf generic"
  by (simp add: elf64_eval sample_elf_def Let_def)

theorem parse_elf64_correct_witness:
  "parse_elf64 sample_elf generic = Success (decode_image sample_elf)"
  using parse_elf64_correct [OF sample_elf_host] sample_elf_accepted by blast

end
