(* ===== verification/Mapping_Intents.thy ===== *)
theory Mapping_Intents
  imports Guest_Address Elf64
begin

text \<open>
  include/astraea/memory/mapping.hpp and src/memory/mapping.cpp: guest permissions, the mapping
  intents derived from a PT_LOAD program header, the classification of two overlapping intents and
  the order the loader sorts intents by.
\<close>

section \<open>Permissions\<close>

datatype GuestPermission = read_permission | write_permission | execute_permission

fun permission_bit :: "GuestPermission \<Rightarrow> u8" where
  "permission_bit read_permission = 1"
| "permission_bit write_permission = 2"
| "permission_bit execute_permission = 4"

datatype PermissionErrorCode = invalid_permission_bits

text \<open>GuestPermissions wraps its bits.\<close>

type_synonym GuestPermissions = u8

definition kKnownMask :: u8 where
  "kKnownMask = permission_bit read_permission OR permission_bit write_permission OR permission_bit execute_permission"

definition checked_from_bits :: "u8 \<Rightarrow> (GuestPermissions, PermissionErrorCode) Result" where
  "checked_from_bits bits =
     (if bits AND NOT kKnownMask \<noteq> 0 then Failure invalid_permission_bits else Success bits)"

definition from_elf_flags :: "u32 \<Rightarrow> GuestPermissions" where
  "from_elf_flags flags =
     (let b0 = 0;
          b1 = (if flags AND 4 \<noteq> 0 then b0 OR permission_bit read_permission else b0);
          b2 = (if flags AND 2 \<noteq> 0 then b1 OR permission_bit write_permission else b1)
      in if flags AND 1 \<noteq> 0 then b2 OR permission_bit execute_permission else b2)"

definition permissions_has :: "GuestPermissions \<Rightarrow> GuestPermission \<Rightarrow> bool" where
  "permissions_has bits permission \<longleftrightarrow> bits AND permission_bit permission \<noteq> 0"

section \<open>Mapping intents\<close>

datatype MappingBackingKind = file_backing | zero_fill | anonymous

text \<open>The enumerators in their declaration order, which operator< compares.\<close>

instantiation MappingBackingKind :: linorder
begin

fun backing_rank :: "MappingBackingKind \<Rightarrow> nat" where
  "backing_rank file_backing = 0"
| "backing_rank zero_fill = 1"
| "backing_rank anonymous = 2"

definition less_eq_MappingBackingKind :: "MappingBackingKind \<Rightarrow> MappingBackingKind \<Rightarrow> bool" where
  "less_eq_MappingBackingKind a b \<longleftrightarrow> backing_rank a \<le> backing_rank b"

definition less_MappingBackingKind :: "MappingBackingKind \<Rightarrow> MappingBackingKind \<Rightarrow> bool" where
  "less_MappingBackingKind a b \<longleftrightarrow> backing_rank a < backing_rank b"

instance
proof
  fix a b :: MappingBackingKind
  show "a \<le> b \<Longrightarrow> b \<le> a \<Longrightarrow> a = b"
    by (cases a; cases b) (simp_all add: less_eq_MappingBackingKind_def)
qed (auto simp: less_eq_MappingBackingKind_def less_MappingBackingKind_def)

end

record MappingBacking =
  backing_kind :: MappingBackingKind
  backing_file_offset :: u64
  backing_byte_count :: GuestSize

record MappingIntent =
  intent_range :: GuestRange
  intent_permissions :: GuestPermissions
  intent_backing :: MappingBacking
  intent_source_index :: nat

datatype MappingErrorCode =
    not_load_segment
  | invalid_load_sizes
  | guest_range_overflow
  | address_addition_overflow
  | mapping_overlap_conflict

record MappingError =
  mapping_error_code :: MappingErrorCode
  mapping_error_first_source_index :: nat
  mapping_error_second_source_index :: nat

datatype OverlapClass =
    no_overlap
  | identical_compatible
  | different_backing
  | conflicting_initialized_bytes
  | file_vs_zero_fill
  | permission_disagreement

definition mapping_error :: "MappingErrorCode \<Rightarrow> nat \<Rightarrow> MappingError" where
  "mapping_error code first =
     \<lparr>mapping_error_code = code, mapping_error_first_source_index = first,
      mapping_error_second_source_index = 0\<rparr>"

definition overlap_start :: "MappingIntent \<Rightarrow> MappingIntent \<Rightarrow> u64" where
  "overlap_start lhs rhs = max (range_base (intent_range lhs)) (range_base (intent_range rhs))"

definition file_position_at :: "MappingIntent \<Rightarrow> u64 \<Rightarrow> u64" where
  "file_position_at intent guest_address =
     backing_file_offset (intent_backing intent) + (guest_address - range_base (intent_range intent))"

definition mapping_intent_less :: "MappingIntent \<Rightarrow> MappingIntent \<Rightarrow> bool" where
  "mapping_intent_less lhs rhs =
     (if range_base (intent_range lhs) \<noteq> range_base (intent_range rhs)
      then range_base (intent_range lhs) < range_base (intent_range rhs)
      else if range_size (intent_range lhs) \<noteq> range_size (intent_range rhs)
      then range_size (intent_range lhs) < range_size (intent_range rhs)
      else if intent_source_index lhs \<noteq> intent_source_index rhs
      then intent_source_index lhs < intent_source_index rhs
      else backing_kind (intent_backing lhs) < backing_kind (intent_backing rhs))"

definition file_intent :: "ProgramHeader \<Rightarrow> GuestRange \<Rightarrow> MappingIntent" where
  "file_intent ph r =
     \<lparr>intent_range = r, intent_permissions = from_elf_flags (ph_flags ph),
      intent_backing = \<lparr>backing_kind = file_backing, backing_file_offset = ph_offset ph,
        backing_byte_count = ph_file_size ph\<rparr>,
      intent_source_index = ph_index ph\<rparr>"

definition zero_intent :: "ProgramHeader \<Rightarrow> GuestRange \<Rightarrow> MappingIntent" where
  "zero_intent ph r =
     \<lparr>intent_range = r, intent_permissions = from_elf_flags (ph_flags ph),
      intent_backing = \<lparr>backing_kind = zero_fill, backing_file_offset = 0,
        backing_byte_count = ph_memory_size ph - ph_file_size ph\<rparr>,
      intent_source_index = ph_index ph\<rparr>"

definition push_file_intent :: "ProgramHeader \<Rightarrow> MappingIntent list \<Rightarrow> (MappingIntent list, MappingError) Result" where
  "push_file_intent ph intents =
     (if ph_file_size ph > 0
      then and_then (GuestRange_create (ph_virtual_address ph) (ph_file_size ph))
             (\<lambda>_. mapping_error MappingErrorCode.guest_range_overflow (ph_index ph))
             (\<lambda>r. Success (intents @ [file_intent ph r]))
      else Success intents)"

definition push_zero_intent :: "ProgramHeader \<Rightarrow> MappingIntent list \<Rightarrow> (MappingIntent list, MappingError) Result" where
  "push_zero_intent ph intents =
     (if ph_memory_size ph > ph_file_size ph
      then and_then (GuestAddress_checked_add (ph_virtual_address ph) (ph_file_size ph))
             (\<lambda>_. mapping_error MappingErrorCode.address_addition_overflow (ph_index ph))
             (\<lambda>zero_base.
                and_then (GuestRange_create zero_base (ph_memory_size ph - ph_file_size ph))
                  (\<lambda>_. mapping_error MappingErrorCode.guest_range_overflow (ph_index ph))
                  (\<lambda>r. Success (intents @ [zero_intent ph r])))
      else Success intents)"

definition mapping_intents_from_load :: "ProgramHeader \<Rightarrow> (MappingIntent list, MappingError) Result" where
  "mapping_intents_from_load ph =
     (if ph_type ph \<noteq> kPtLoad then Failure (mapping_error not_load_segment (ph_index ph))
      else if ph_file_size ph > ph_memory_size ph
      then Failure (mapping_error invalid_load_sizes (ph_index ph))
      else if ph_memory_size ph = 0 then Success []
      else and_then (GuestRange_create (ph_virtual_address ph) (ph_memory_size ph))
             (\<lambda>_. mapping_error MappingErrorCode.guest_range_overflow (ph_index ph))
             (\<lambda>_. with_value (push_file_intent ph []) (\<lambda>intents.
                   with_value (push_zero_intent ph intents) (\<lambda>intents.
                     Success (std_sort mapping_intent_less intents)))))"

definition classify_overlap :: "MappingIntent \<Rightarrow> MappingIntent \<Rightarrow> OverlapClass" where
  "classify_overlap lhs rhs =
     (if \<not> range_overlaps (intent_range lhs) (intent_range rhs) then no_overlap
      else if intent_permissions lhs \<noteq> intent_permissions rhs then permission_disagreement
      else if backing_kind (intent_backing lhs) \<noteq> backing_kind (intent_backing rhs) then file_vs_zero_fill
      else if backing_kind (intent_backing lhs) = file_backing
      then (if file_position_at lhs (overlap_start lhs rhs) \<noteq> file_position_at rhs (overlap_start lhs rhs)
            then conflicting_initialized_bytes
            else if intent_range lhs = intent_range rhs \<and> intent_backing lhs = intent_backing rhs
            then identical_compatible
            else different_backing)
      else if intent_range lhs = intent_range rhs \<and> intent_backing lhs = intent_backing rhs
      then identical_compatible
      else different_backing)"

section \<open>Facts about permissions\<close>

lemma from_elf_flags_has:
  "permissions_has (from_elf_flags flags) read_permission \<longleftrightarrow> flags AND 4 \<noteq> 0"
  "permissions_has (from_elf_flags flags) write_permission \<longleftrightarrow> flags AND 2 \<noteq> 0"
  "permissions_has (from_elf_flags flags) execute_permission \<longleftrightarrow> flags AND 1 \<noteq> 0"
  by (simp_all add: from_elf_flags_def permissions_has_def)

lemma elf_flag_bits:
  "flags AND 4 \<noteq> 0 \<longleftrightarrow> bit (flags :: u32) 2" "flags AND 2 \<noteq> 0 \<longleftrightarrow> bit flags 1" "flags AND 1 \<noteq> 0 \<longleftrightarrow> bit flags 0"
  using and_exp_eq_0_iff_not_bit [of flags 2] and_exp_eq_0_iff_not_bit [of flags 1] and_exp_eq_0_iff_not_bit [of flags 0]
  by simp_all

section \<open>The sorting order\<close>

definition mapping_key :: "MappingIntent \<Rightarrow> u64 \<times> u64 \<times> nat \<times> MappingBackingKind" where
  "mapping_key m = (range_base (intent_range m), range_size (intent_range m),
     intent_source_index m, backing_kind (intent_backing m))"

lemma mapping_intent_less_key: "mapping_intent_less a b \<longleftrightarrow> mapping_key a < mapping_key b"
  by (auto simp: mapping_intent_less_def mapping_key_def)

interpretation mapping_order: comparator mapping_intent_less
  using comparator_by_key [of mapping_key] by (simp add: mapping_intent_less_key [abs_def])

lemma sorted_bases:
  "sorted_wrt (\<lambda>a b. \<not> mapping_intent_less b a) ms \<Longrightarrow>
   sorted (map (\<lambda>m. range_base (intent_range m)) ms)"
  by (simp add: sorted_map)
    (erule sorted_wrt_mono_rel [rotated], auto simp: mapping_intent_less_def not_less split: if_splits)

section \<open>The intents of a segment\<close>

definition load_intents :: "ProgramHeader \<Rightarrow> MappingIntent list" where
  "load_intents ph =
     (if ph_file_size ph = 0 then []
      else [file_intent ph \<lparr>range_base = ph_virtual_address ph, range_size = ph_file_size ph\<rparr>]) @
     (if ph_memory_size ph = ph_file_size ph then []
      else [zero_intent ph \<lparr>range_base = ph_virtual_address ph + ph_file_size ph,
              range_size = ph_memory_size ph - ph_file_size ph\<rparr>])"

definition load_fits :: "ProgramHeader \<Rightarrow> bool" where
  "load_fits ph \<longleftrightarrow> unat (ph_file_size ph) \<le> unat (ph_memory_size ph) \<and>
     unat (ph_virtual_address ph) + unat (ph_memory_size ph) \<le> 2 ^ 64"

lemma load_segment_fits: "load_segment_ok n ph \<Longrightarrow> load_fits ph"
  by (simp add: load_segment_ok_def load_fits_def)

lemma load_fits_zero_base:
  assumes "load_fits ph" and "ph_memory_size ph \<noteq> ph_file_size ph"
  shows "unat (ph_virtual_address ph + ph_file_size ph) = unat (ph_virtual_address ph) + unat (ph_file_size ph)"
proof -
  have "unat (ph_file_size ph) \<noteq> unat (ph_memory_size ph)" using assms(2) by (auto simp: word_unat_eq_iff)
  then show ?thesis using assms(1) by (simp add: load_fits_def unat_add_no_wrap)
qed

lemma push_file_intent_fits:
  "load_fits ph \<Longrightarrow> push_file_intent ph ms =
     Success (ms @ (if ph_file_size ph = 0 then []
      else [file_intent ph \<lparr>range_base = ph_virtual_address ph, range_size = ph_file_size ph\<rparr>]))"
  by (auto simp: push_file_intent_def load_fits_def GuestRange_create_Success [THEN iffD2] word_gt_0)

lemma push_zero_intent_fits:
  assumes "load_fits ph"
  shows "push_zero_intent ph ms =
     Success (ms @ (if ph_memory_size ph = ph_file_size ph then []
      else [zero_intent ph \<lparr>range_base = ph_virtual_address ph + ph_file_size ph,
              range_size = ph_memory_size ph - ph_file_size ph\<rparr>]))"
proof (cases "ph_memory_size ph = ph_file_size ph")
  case True
  then show ?thesis by (simp add: push_zero_intent_def)
next
  case False
  then have ne: "unat (ph_file_size ph) < unat (ph_memory_size ph)"
    using assms by (auto simp: load_fits_def word_unat_eq_iff)
  have base: "GuestAddress_checked_add (ph_virtual_address ph) (ph_file_size ph)
      = Success (ph_virtual_address ph + ph_file_size ph)"
    using assms ne by (simp add: GuestAddress_checked_add_Success load_fits_def)
  have diff: "unat (ph_memory_size ph - ph_file_size ph) = unat (ph_memory_size ph) - unat (ph_file_size ph)"
    using ne by (simp add: unat_sub_if')
  show ?thesis
    using assms ne False load_fits_zero_base [OF assms False]
    by (simp add: push_zero_intent_def base word_less_nat_alt load_fits_def diff
        GuestRange_create_Success [THEN iffD2])
qed

lemma load_intents_sorted:
  assumes "load_fits ph"
  shows "std_sort mapping_intent_less (load_intents ph) = load_intents ph"
proof -
  have "\<not> mapping_intent_less (zero_intent ph \<lparr>range_base = ph_virtual_address ph + ph_file_size ph, range_size = s\<rparr>)
           (file_intent ph \<lparr>range_base = ph_virtual_address ph, range_size = ph_file_size ph\<rparr>)"
    if "ph_file_size ph \<noteq> 0" "ph_memory_size ph \<noteq> ph_file_size ph" for s
  proof -
    have "unat (ph_file_size ph) > 0" using that(1) by (simp add: unat_gt_0)
    then have "ph_virtual_address ph < ph_virtual_address ph + ph_file_size ph"
      using load_fits_zero_base [OF assms that(2)] by (simp add: word_less_nat_alt)
    then show ?thesis by (auto simp: mapping_intent_less_def file_intent_def zero_intent_def)
  qed
  then show ?thesis by (simp add: load_intents_def)
qed

lemma mapping_intents_from_load_iff:
  "mapping_intents_from_load ph = Success ms \<longleftrightarrow>
     ph_type ph = kPtLoad \<and> load_fits ph \<and> ms = load_intents ph"
proof (cases "ph_type ph = kPtLoad \<and> load_fits ph")
  case True
  then have le: "\<not> ph_file_size ph > ph_memory_size ph" by (simp add: load_fits_def word_less_nat_alt)
  have full: "GuestRange_create (ph_virtual_address ph) (ph_memory_size ph)
      = Success \<lparr>range_base = ph_virtual_address ph, range_size = ph_memory_size ph\<rparr>"
    using True by (simp add: GuestRange_create_Success load_fits_def)
  have "mapping_intents_from_load ph = Success (load_intents ph)"
  proof (cases "ph_memory_size ph = 0")
    case True
    with le show ?thesis using \<open>ph_type ph = kPtLoad \<and> load_fits ph\<close>
      by (simp add: mapping_intents_from_load_def load_intents_def word_gt_0)
  next
    case False
    with True show ?thesis using load_intents_sorted [of ph] le
      by (simp add: mapping_intents_from_load_def full push_file_intent_fits push_zero_intent_fits
          load_intents_def [symmetric])
  qed
  with True show ?thesis by auto
next
  case False
  then show ?thesis using unat_lt_2p64 [of "ph_virtual_address ph"]
    by (auto simp: mapping_intents_from_load_def load_fits_def result_simps word_less_nat_alt split: if_splits)
qed

lemma load_intents_member:
  "m \<in> set (load_intents ph) \<longleftrightarrow>
     (ph_file_size ph \<noteq> 0 \<and> m = file_intent ph \<lparr>range_base = ph_virtual_address ph, range_size = ph_file_size ph\<rparr>) \<or>
     (ph_memory_size ph \<noteq> ph_file_size ph \<and>
       m = zero_intent ph \<lparr>range_base = ph_virtual_address ph + ph_file_size ph,
              range_size = ph_memory_size ph - ph_file_size ph\<rparr>)"
  by (auto simp: load_intents_def)

lemma load_intents_wf:
  assumes "load_fits ph" and "m \<in> set (load_intents ph)"
  shows "range_wf (intent_range m)" and "range_size (intent_range m) \<noteq> 0"
    and "backing_byte_count (intent_backing m) = range_size (intent_range m)"
    and "backing_kind (intent_backing m) \<noteq> anonymous"
    and "intent_source_index m = ph_index ph"
    and "intent_permissions m = from_elf_flags (ph_flags ph)"
  using assms load_fits_zero_base [OF assms(1)]
  by (auto simp: load_intents_member file_intent_def zero_intent_def range_wf_def load_fits_def unat_sub_if')

section \<open>Overlaps\<close>

text \<open>Two intents agree on the file position at one address exactly when they agree at all.\<close>

lemma file_position_eq_iff:
  "file_position_at l a = file_position_at r a \<longleftrightarrow>
     backing_file_offset (intent_backing l) - range_base (intent_range l) =
     backing_file_offset (intent_backing r) - range_base (intent_range r)"
  by (auto simp: file_position_at_def algebra_simps)

definition common_address :: "MappingIntent \<Rightarrow> MappingIntent \<Rightarrow> u64 \<Rightarrow> bool" where
  "common_address l r a \<longleftrightarrow> range_contains (intent_range l) a \<and> range_contains (intent_range r) a"

lemma overlap_iff_common: "range_overlaps (intent_range l) (intent_range r) \<longleftrightarrow> (\<exists>a. common_address l r a)"
  by (simp add: range_overlaps_common_address common_address_def)

lemma classify_overlap_sym: "classify_overlap l r = classify_overlap r l"
  using range_overlaps_sym [of "intent_range l" "intent_range r"]
  by (auto simp: classify_overlap_def file_position_eq_iff)

section \<open>Properties\<close>

text \<open>
  A program header yields mapping intents exactly when it is a PT_LOAD segment whose file part
  is no larger than its memory part and whose virtual range does not wrap, and the intents are
  then the file-backed part followed by the zero-filled rest.
\<close>

theorem mapping_intents_from_load_correct:
  "mapping_intents_from_load ph = Success ms \<longleftrightarrow>
     ph_type ph = kPtLoad \<and> load_fits ph \<and> ms = load_intents ph"
  by (rule mapping_intents_from_load_iff)

lemma load_intents_cover_once:
  assumes "mapping_intents_from_load ph = Success ms"
  shows "m \<in> set ms \<and> range_contains (intent_range m) a \<longleftrightarrow>
     unat (ph_virtual_address ph) \<le> unat a \<and>
     unat a < unat (ph_virtual_address ph) + unat (ph_memory_size ph) \<and>
     m = (if unat a < unat (ph_virtual_address ph) + unat (ph_file_size ph)
          then file_intent ph \<lparr>range_base = ph_virtual_address ph, range_size = ph_file_size ph\<rparr>
          else zero_intent ph \<lparr>range_base = ph_virtual_address ph + ph_file_size ph,
                 range_size = ph_memory_size ph - ph_file_size ph\<rparr>)"
proof -
  have fits: "load_fits ph" and ms: "ms = load_intents ph"
    using assms mapping_intents_from_load_iff by auto
  have diff: "unat (ph_memory_size ph - ph_file_size ph) = unat (ph_memory_size ph) - unat (ph_file_size ph)"
    using fits by (simp add: load_fits_def unat_sub_if')
  have kinds: "file_intent ph r \<noteq> zero_intent ph s" for r s
    by (simp add: file_intent_def zero_intent_def)
  show ?thesis
    using fits load_fits_zero_base [OF fits] diff kinds kinds [symmetric]
    unfolding ms load_intents_member load_fits_def
    by (auto simp: range_contains_iff file_intent_def zero_intent_def word_unat_eq_iff)
qed

text \<open>The two intents of a segment, spelled out field by field.\<close>

lemma load_intent_fields:
  "file_intent ph r = \<lparr>intent_range = r,
     intent_permissions = (if bit (ph_flags ph) 2 then 1 else 0) + (if bit (ph_flags ph) 1 then 2 else 0) +
       (if bit (ph_flags ph) 0 then 4 else 0),
     intent_backing = \<lparr>backing_kind = file_backing, backing_file_offset = ph_offset ph,
       backing_byte_count = ph_file_size ph\<rparr>,
     intent_source_index = ph_index ph\<rparr>"
  "zero_intent ph r = \<lparr>intent_range = r,
     intent_permissions = (if bit (ph_flags ph) 2 then 1 else 0) + (if bit (ph_flags ph) 1 then 2 else 0) +
       (if bit (ph_flags ph) 0 then 4 else 0),
     intent_backing = \<lparr>backing_kind = zero_fill, backing_file_offset = 0,
       backing_byte_count = ph_memory_size ph - ph_file_size ph\<rparr>,
     intent_source_index = ph_index ph\<rparr>"
  by (simp_all add: file_intent_def zero_intent_def from_elf_flags_def Let_def elf_flag_bits)

text \<open>
  C2. The intents of a segment give every address of its virtual range exactly one source and no
  other address any. An address below the file size is backed by the file from the offset of the
  segment on, the others are filled with zeros; both parts carry the read, write and execute bits
  (1, 2, 4) of the flags 4, 2 and 1 of the header and its index.
\<close>

theorem load_intents_partition:
  assumes "mapping_intents_from_load ph = Success ms"
  defines "permissions \<equiv> (if bit (ph_flags ph) 2 then 1 else 0) + (if bit (ph_flags ph) 1 then 2 else 0) +
       (if bit (ph_flags ph) 0 then 4 else 0)"
  shows "m \<in> set ms \<and> range_contains (intent_range m) a \<longleftrightarrow>
     unat (ph_virtual_address ph) \<le> unat a \<and>
     unat a < unat (ph_virtual_address ph) + unat (ph_memory_size ph) \<and>
     m = (if unat a < unat (ph_virtual_address ph) + unat (ph_file_size ph)
          then \<lparr>intent_range = \<lparr>range_base = ph_virtual_address ph, range_size = ph_file_size ph\<rparr>,
                 intent_permissions = permissions,
                 intent_backing = \<lparr>backing_kind = file_backing, backing_file_offset = ph_offset ph,
                   backing_byte_count = ph_file_size ph\<rparr>,
                 intent_source_index = ph_index ph\<rparr>
          else \<lparr>intent_range = \<lparr>range_base = ph_virtual_address ph + ph_file_size ph,
                   range_size = ph_memory_size ph - ph_file_size ph\<rparr>,
                 intent_permissions = permissions,
                 intent_backing = \<lparr>backing_kind = zero_fill, backing_file_offset = 0,
                   backing_byte_count = ph_memory_size ph - ph_file_size ph\<rparr>,
                 intent_source_index = ph_index ph\<rparr>)"
  unfolding permissions_def load_intent_fields [symmetric] by (rule load_intents_cover_once [OF assms(1)])

definition sample_load :: ProgramHeader where
  "sample_load = \<lparr>ph_type = 1, ph_flags = 5, ph_offset = 0x200, ph_virtual_address = 0x400000,
     ph_physical_address = 0, ph_file_size = 0x80, ph_memory_size = 0x1000, ph_alignment = 0x100, ph_index = 3\<rparr>"

lemma sample_load_intents: "mapping_intents_from_load sample_load = Success (load_intents sample_load)"
  by (simp add: mapping_intents_from_load_iff load_fits_def sample_load_def)

theorem load_intents_partition_witness:
  "\<lparr>intent_range = \<lparr>range_base = 0x400080, range_size = 0xf80\<rparr>, intent_permissions = 5,
     intent_backing = \<lparr>backing_kind = zero_fill, backing_file_offset = 0, backing_byte_count = 0xf80\<rparr>,
     intent_source_index = 3\<rparr> \<in> set (load_intents sample_load) \<and>
   \<lparr>intent_range = \<lparr>range_base = 0x400000, range_size = 0x80\<rparr>, intent_permissions = 5,
     intent_backing = \<lparr>backing_kind = file_backing, backing_file_offset = 0x200, backing_byte_count = 0x80\<rparr>,
     intent_source_index = 3\<rparr> \<in> set (load_intents sample_load)"
  using load_intents_partition [OF sample_load_intents,
      where m = "\<lparr>intent_range = \<lparr>range_base = 0x400080, range_size = 0xf80\<rparr>, intent_permissions = 5,
        intent_backing = \<lparr>backing_kind = zero_fill, backing_file_offset = 0, backing_byte_count = 0xf80\<rparr>,
        intent_source_index = 3\<rparr>" and a = "0x400100"]
    load_intents_partition [OF sample_load_intents,
      where m = "\<lparr>intent_range = \<lparr>range_base = 0x400000, range_size = 0x80\<rparr>, intent_permissions = 5,
        intent_backing = \<lparr>backing_kind = file_backing, backing_file_offset = 0x200, backing_byte_count = 0x80\<rparr>,
        intent_source_index = 3\<rparr>" and a = "0x400010"]
  by (simp add: sample_load_def)

text \<open>
  What classify_overlap answers is what the two intents do at the addresses they share: no_overlap
  means they share none; conflicting_initialized_bytes means two file-backed intents that name a
  different file position at every shared address; the two compatible answers mean equal permissions
  and kind and, for file-backed intents, the same file position at every shared address.
\<close>

theorem classify_overlap_meaning:
  "(case classify_overlap l r of
      no_overlap \<Rightarrow> \<not> (\<exists>a. common_address l r a)
    | permission_disagreement \<Rightarrow> (\<exists>a. common_address l r a) \<and> intent_permissions l \<noteq> intent_permissions r
    | file_vs_zero_fill \<Rightarrow> (\<exists>a. common_address l r a) \<and> intent_permissions l = intent_permissions r \<and>
        backing_kind (intent_backing l) \<noteq> backing_kind (intent_backing r)
    | conflicting_initialized_bytes \<Rightarrow> (\<exists>a. common_address l r a) \<and>
        backing_kind (intent_backing l) = file_backing \<and> backing_kind (intent_backing r) = file_backing \<and>
        (\<forall>a. file_position_at l a \<noteq> file_position_at r a)
    | identical_compatible \<Rightarrow> (\<exists>a. common_address l r a) \<and>
        intent_permissions l = intent_permissions r \<and>
        intent_range l = intent_range r \<and> intent_backing l = intent_backing r
    | different_backing \<Rightarrow> (\<exists>a. common_address l r a) \<and>
        intent_permissions l = intent_permissions r \<and>
        backing_kind (intent_backing l) = backing_kind (intent_backing r) \<and>
        (intent_range l \<noteq> intent_range r \<or> intent_backing l \<noteq> intent_backing r) \<and>
        (backing_kind (intent_backing l) = file_backing \<longrightarrow>
           (\<forall>a. file_position_at l a = file_position_at r a)))
   \<and> classify_overlap l r = classify_overlap r l"
  unfolding overlap_iff_common [symmetric] classify_overlap_sym [of r l]
  by (auto simp: classify_overlap_def file_position_eq_iff)

theorem classify_overlap_meaning_witness:
  "classify_overlap (hd (load_intents sample_load)) (hd (load_intents sample_load)) = identical_compatible \<and>
   (\<exists>a. common_address (hd (load_intents sample_load)) (hd (load_intents sample_load)) a)"
  using classify_overlap_meaning [of "hd (load_intents sample_load)" "hd (load_intents sample_load)"]
  by (simp add: classify_overlap_def load_intents_def sample_load_def file_intent_def range_overlaps_def
      range_contains_def range_empty_def)

end
