(* ===== verification/Image_View.thy ===== *)
theory Image_View
  imports Mapping_Intents
begin

text \<open>
  src/memory/initialized_image_view.cpp: the read-only view of the initialized guest image. A view
  is created from the file bytes and the mapping intents; \<open>read_byte\<close> resolves one guest address
  through the sorted intents and \<open>copy_bytes\<close> reads a range. The abstract meaning of a view is the
  set \<open>view_sources\<close> of byte sources (a file position or a zero byte) an address has, and the
  locales \<open>byte_reader\<close> and \<open>range_reader\<close> are the contract the loader components rely on.
\<close>

section \<open>Data\<close>

datatype InitializedImageErrorCode =
    invalid_file_backing_range
  | backing_size_mismatch
  | unsupported_backing_kind
  | unmapped_guest_address
  | mapping_overlap_conflict
  | output_size_mismatch
  | host_size_unrepresentable

record InitializedImageError =
  image_error_code :: InitializedImageErrorCode
  image_error_guest_address :: "GuestAddress option"
  image_error_first_source_index :: "nat option"
  image_error_second_source_index :: "nat option"
  image_error_file_offset :: "u64 option"

text \<open>make_error with its defaulted arguments; the others are set by record update.\<close>

definition make_error :: "InitializedImageErrorCode \<Rightarrow> InitializedImageError" where
  "make_error code =
     \<lparr>image_error_code = code, image_error_guest_address = None, image_error_first_source_index = None,
      image_error_second_source_index = None, image_error_file_offset = None\<rparr>"

datatype ResolvedSourceKind = resolved_file | resolved_zero_fill

record ResolvedSource =
  resolved_kind :: ResolvedSourceKind
  resolved_file_offset :: u64
  resolved_source_index :: nat

record InitializedImageView =
  view_image_bytes :: "u8 list"
  view_intents :: "MappingIntent list"

definition image_size_u64 :: "u8 list \<Rightarrow> u64" where
  "image_size_u64 bytes = of_nat (length bytes)"

definition file_range_is_valid :: "MappingIntent \<Rightarrow> u64 \<Rightarrow> bool" where
  "file_range_is_valid intent image_size =
     (let offset = backing_file_offset (intent_backing intent);
          sz = backing_byte_count (intent_backing intent)
      in if offset > u64_max - sz then False
         else offset \<le> image_size \<and> offset + sz \<le> image_size)"

section \<open>Creation\<close>

fun validate_intent :: "u64 \<Rightarrow> MappingIntent \<Rightarrow> (unit, InitializedImageError) Result" where
  "validate_intent image_size intent =
     (if backing_byte_count (intent_backing intent) \<noteq> range_size (intent_range intent)
      then Failure ((make_error backing_size_mismatch)
             \<lparr>image_error_guest_address := Some (range_base (intent_range intent)),
              image_error_first_source_index := Some (intent_source_index intent)\<rparr>)
      else case backing_kind (intent_backing intent) of
          file_backing \<Rightarrow>
            if \<not> file_range_is_valid intent image_size
            then Failure ((make_error invalid_file_backing_range)
                   \<lparr>image_error_guest_address := Some (range_base (intent_range intent)),
                    image_error_first_source_index := Some (intent_source_index intent),
                    image_error_file_offset := Some (backing_file_offset (intent_backing intent))\<rparr>)
            else Success ()
        | zero_fill \<Rightarrow> Success ()
        | anonymous \<Rightarrow>
            Failure ((make_error unsupported_backing_kind)
              \<lparr>image_error_guest_address := Some (range_base (intent_range intent)),
               image_error_first_source_index := Some (intent_source_index intent)\<rparr>))"

primrec validate_intents ::
  "u64 \<Rightarrow> MappingIntent list \<Rightarrow> MappingIntent list \<Rightarrow> (MappingIntent list, InitializedImageError) Result" where
  "validate_intents image_size [] validated = Success validated"
| "validate_intents image_size (intent # rest) validated =
     with_value (validate_intent image_size intent) (\<lambda>_.
       validate_intents image_size rest (validated @ [intent]))"

definition view_create ::
  "u8 list \<Rightarrow> MappingIntent list \<Rightarrow> (InitializedImageView, InitializedImageError) Result" where
  "view_create image_bytes intents =
     with_value (validate_intents (image_size_u64 image_bytes) intents []) (\<lambda>validated.
       Success \<lparr>view_image_bytes = image_bytes, view_intents = std_sort mapping_intent_less validated\<rparr>)"

section \<open>Reading\<close>

definition source_at :: "MappingIntent \<Rightarrow> GuestAddress \<Rightarrow> (ResolvedSource, InitializedImageError) Result" where
  "source_at intent address =
     (if backing_kind (intent_backing intent) = zero_fill
      then Success \<lparr>resolved_kind = resolved_zero_fill, resolved_file_offset = 0,
             resolved_source_index = intent_source_index intent\<rparr>
      else let delta = address - range_base (intent_range intent);
               offset = backing_file_offset (intent_backing intent)
           in if offset > u64_max - delta
              then Failure ((make_error invalid_file_backing_range)
                     \<lparr>image_error_guest_address := Some address,
                      image_error_first_source_index := Some (intent_source_index intent),
                      image_error_file_offset := Some offset\<rparr>)
              else Success \<lparr>resolved_kind = resolved_file, resolved_file_offset = offset + delta,
                     resolved_source_index = intent_source_index intent\<rparr>)"

definition sources_match :: "ResolvedSource \<Rightarrow> ResolvedSource \<Rightarrow> bool" where
  "sources_match lhs rhs =
     (if resolved_kind lhs \<noteq> resolved_kind rhs then False
      else if resolved_kind lhs = resolved_zero_fill then True
      else resolved_file_offset lhs = resolved_file_offset rhs)"

text \<open>The loop of read_byte: it stops at the first intent above the address.\<close>

primrec resolve_loop ::
  "GuestAddress \<Rightarrow> MappingIntent list \<Rightarrow> ResolvedSource option \<Rightarrow> (ResolvedSource option, InitializedImageError) Result" where
  "resolve_loop address [] resolved = Success resolved"
| "resolve_loop address (intent # rest) resolved =
     (if range_base (intent_range intent) > address then Success resolved
      else if \<not> range_contains (intent_range intent) address then resolve_loop address rest resolved
      else with_value (source_at intent address) (\<lambda>candidate.
        case resolved of
          None \<Rightarrow> resolve_loop address rest (Some candidate)
        | Some r \<Rightarrow>
            if \<not> sources_match r candidate
            then Failure ((make_error InitializedImageErrorCode.mapping_overlap_conflict)
                   \<lparr>image_error_guest_address := Some address,
                    image_error_first_source_index := Some (resolved_source_index r),
                    image_error_second_source_index := Some (resolved_source_index candidate)\<rparr>)
            else resolve_loop address rest resolved))"

definition read_byte :: "InitializedImageView \<Rightarrow> GuestAddress \<Rightarrow> (u8, InitializedImageError) Result" where
  "read_byte view address =
     with_value (resolve_loop address (view_intents view) None) (\<lambda>resolved.
       case resolved of
         None \<Rightarrow> Failure ((make_error unmapped_guest_address)\<lparr>image_error_guest_address := Some address\<rparr>)
       | Some r \<Rightarrow>
           if resolved_kind r = resolved_zero_fill then Success 0
           else span_at (view_image_bytes view) (resolved_file_offset r))"

text \<open>
  The copy loop over a byte reader. \<open>copy_bytes\<close> returns the bytes it writes to an output span of
  the given size; a failing call writes a prefix that no caller reads.
\<close>

primrec copy_loop ::
  "(GuestAddress \<Rightarrow> (u8, InitializedImageError) Result) \<Rightarrow> GuestAddress \<Rightarrow> nat list \<Rightarrow> u8 list \<Rightarrow>
     (u8 list, InitializedImageError) Result" where
  "copy_loop rd base [] output = Success output"
| "copy_loop rd base (i # is) output =
     and_then (GuestAddress_checked_add base (of_nat i))
       (\<lambda>_. (make_error unmapped_guest_address)\<lparr>image_error_guest_address := Some base\<rparr>)
       (\<lambda>address. with_value (rd address) (\<lambda>byte. copy_loop rd base is (output @ [byte])))"

definition copy_bytes ::
  "InitializedImageView \<Rightarrow> GuestRange \<Rightarrow> nat \<Rightarrow> (u8 list, InitializedImageError) Result" where
  "copy_bytes view r output_size =
     (if output_size \<noteq> unat (range_size r)
      then Failure ((make_error output_size_mismatch)\<lparr>image_error_guest_address := Some (range_base r)\<rparr>)
      else copy_loop (read_byte view) (range_base r) [0..<unat (range_size r)] [])"

section \<open>Abstract meaning of a view\<close>

datatype byte_source = File_byte nat | Zero_byte

definition source_of :: "MappingIntent \<Rightarrow> GuestAddress \<Rightarrow> byte_source" where
  "source_of m a =
     (if backing_kind (intent_backing m) = zero_fill then Zero_byte
      else File_byte (unat (backing_file_offset (intent_backing m)) + (unat a - unat (range_base (intent_range m)))))"

definition intent_sources :: "MappingIntent list \<Rightarrow> GuestAddress \<Rightarrow> byte_source set" where
  "intent_sources ms a = {source_of m a | m. m \<in> set ms \<and> range_contains (intent_range m) a}"

definition view_sources :: "InitializedImageView \<Rightarrow> GuestAddress \<Rightarrow> byte_source set" where
  "view_sources v a = intent_sources (view_intents v) a"

fun source_byte :: "u8 list \<Rightarrow> byte_source \<Rightarrow> u8" where
  "source_byte bytes (File_byte k) = bytes ! k"
| "source_byte bytes Zero_byte = 0"

definition intent_valid :: "nat \<Rightarrow> MappingIntent \<Rightarrow> bool" where
  "intent_valid image_length m \<longleftrightarrow>
     backing_byte_count (intent_backing m) = range_size (intent_range m) \<and>
     backing_kind (intent_backing m) \<noteq> anonymous \<and>
     (backing_kind (intent_backing m) = zero_fill \<or>
      unat (backing_file_offset (intent_backing m)) + unat (range_size (intent_range m)) \<le> image_length)"

definition view_wf :: "InitializedImageView \<Rightarrow> bool" where
  "view_wf v \<longleftrightarrow> host_object (view_image_bytes v) \<and>
     sorted (map (\<lambda>m. range_base (intent_range m)) (view_intents v)) \<and>
     list_all (intent_valid (length (view_image_bytes v))) (view_intents v)"

section \<open>The reader contract\<close>

text \<open>The n bytes a reader returns from an address on, none of them past the end of the address space.\<close>

definition guest_bytes :: "(GuestAddress \<Rightarrow> (u8, 'e) Result) \<Rightarrow> GuestAddress \<Rightarrow> nat \<Rightarrow> u8 list \<Rightarrow> bool" where
  "guest_bytes rd a n bs \<longleftrightarrow>
     unat a + n \<le> 2 ^ 64 \<and> length bs = n \<and> (\<forall>i < n. rd (a + of_nat i) = Success (bs ! i))"

lemma guest_bytes_length: "guest_bytes rd a n bs \<Longrightarrow> length bs = n"
  by (simp add: guest_bytes_def)

lemma guest_bytes_eval:
  "guest_bytes rd a n bs \<longleftrightarrow>
     unat a + n \<le> 2 ^ 64 \<and> length bs = n \<and> map (\<lambda>i. rd (a + of_nat i)) [0..<n] = map Success bs"
  by (auto simp: guest_bytes_def list_eq_iff_nth_eq)

lemma guest_bytes_unique: "guest_bytes rd a n bs \<Longrightarrow> guest_bytes rd a n cs \<Longrightarrow> bs = cs"
  by (auto simp: guest_bytes_def intro: nth_equalityI)

locale byte_reader =
  fixes rd :: "'v \<Rightarrow> GuestAddress \<Rightarrow> (u8, InitializedImageError) Result"
    and valid :: "'v \<Rightarrow> bool"
  assumes rd_defined: "valid v \<Longrightarrow> rd v a \<noteq> Undefined"
begin

lemma copy_loop_defined: "valid v \<Longrightarrow> copy_loop (rd v) base is out \<noteq> Undefined"
  by (induction "is" arbitrary: out) (auto simp: result_simps rd_defined)

end

lemma copy_loop_Success:
  "copy_loop rd base is out = Success bs \<longleftrightarrow>
     (\<exists>new. bs = out @ new \<and>
       list_all2 (\<lambda>i b. unat base + unat (of_nat i :: u64) < 2 ^ 64 \<and> rd (base + of_nat i) = Success b) is new)"
  by (induction "is" arbitrary: out) (fastforce simp: result_simps list_all2_Cons1)+

locale range_reader = byte_reader +
  fixes cp :: "'v \<Rightarrow> GuestRange \<Rightarrow> nat \<Rightarrow> (u8 list, InitializedImageError) Result"
  assumes cp_defined: "valid v \<Longrightarrow> cp v r n \<noteq> Undefined"
    and cp_Success: "valid v \<Longrightarrow> range_wf r \<Longrightarrow> cp v r n = Success bs \<longleftrightarrow>
        n = unat (range_size r) \<and> length bs = n \<and>
        (\<forall>i < n. rd v (range_base r + of_nat i) = Success (bs ! i))"
begin

lemma cp_created:
  assumes "valid v" and "unat sz = n" and "GuestRange_create a sz = Success r"
  shows "cp v r n = Success bs \<longleftrightarrow> guest_bytes (rd v) a n bs"
proof -
  have "range_wf r" using assms(3) by (rule GuestRange_create_wf)
  with assms show ?thesis by (auto simp: cp_Success guest_bytes_def GuestRange_create_Success)
qed

text \<open>The pattern of every client: check that a range exists, copy it, go on with its bytes.\<close>

lemma create_copy_Success:
  assumes "valid v" and "unat sz = n"
  shows "and_then (GuestRange_create a sz) h (\<lambda>r. and_then (cp v r n) (h' r) k) = Success x \<longleftrightarrow>
     (\<exists>bs. guest_bytes (rd v) a n bs \<and> k bs = Success x)"
proof -
  have "\<exists>r. GuestRange_create a sz = Success r" if "guest_bytes (rd v) a n bs" for bs
    using that assms(2) by (auto simp: guest_bytes_def GuestRange_create_Success)
  then show ?thesis
    using cp_created [OF assms] by (auto simp: and_then_Success) blast+
qed

lemma create_copy_Undefined:
  assumes "valid v" and "unat sz = n"
  shows "and_then (GuestRange_create a sz) h (\<lambda>r. and_then (cp v r n) (h' r) k) = Undefined \<longleftrightarrow>
     (\<exists>bs. guest_bytes (rd v) a n bs \<and> k bs = Undefined)"
proof -
  have "\<exists>r. GuestRange_create a sz = Success r" if "guest_bytes (rd v) a n bs" for bs
    using that assms(2) by (auto simp: guest_bytes_def GuestRange_create_Success)
  then show ?thesis
    using cp_created [OF assms] cp_defined [OF assms(1)] by (auto simp: and_then_Undefined) blast+
qed

end

section \<open>A created view is well formed\<close>

lemma file_range_is_valid_iff:
  assumes "host_object bytes"
  shows "file_range_is_valid m (image_size_u64 bytes) \<longleftrightarrow>
     unat (backing_file_offset (intent_backing m)) + unat (backing_byte_count (intent_backing m)) \<le> length bytes"
  using host_object_unat [OF assms] host_object_length [OF assms]
  unfolding file_range_is_valid_def image_size_u64_def Let_def gt_max_minus_iff
  by (auto simp: word_le_nat_alt unat_add_no_wrap)

lemma validate_intent_defined: "validate_intent n m \<noteq> Undefined"
  by (simp split: MappingBackingKind.splits)

lemma validate_intent_Success:
  assumes "host_object bytes"
  shows "validate_intent (image_size_u64 bytes) m = Success u \<longleftrightarrow> intent_valid (length bytes) m"
  by (auto simp: intent_valid_def file_range_is_valid_iff [OF assms] split: MappingBackingKind.splits)

declare validate_intent.simps [simp del]

lemma validate_intents_defined: "validate_intents n ms acc \<noteq> Undefined"
  by (induction ms arbitrary: acc) (simp_all add: result_simps validate_intent_defined)

lemma validate_intents_Success:
  assumes "host_object bytes"
  shows "validate_intents (image_size_u64 bytes) ms acc = Success out \<longleftrightarrow>
     list_all (intent_valid (length bytes)) ms \<and> out = acc @ ms"
  by (induction ms arbitrary: acc) (auto simp: result_simps validate_intent_Success [OF assms])

lemma view_create_defined: "view_create bytes ms \<noteq> Undefined"
  by (simp add: view_create_def result_simps validate_intents_defined)

lemma view_create_Success:
  assumes "host_object bytes"
  shows "view_create bytes ms = Success v \<longleftrightarrow> list_all (intent_valid (length bytes)) ms \<and>
     v = \<lparr>view_image_bytes = bytes, view_intents = std_sort mapping_intent_less ms\<rparr>"
  by (auto simp: view_create_def result_simps validate_intents_Success [OF assms])

lemma view_create_wf:
  assumes "host_object bytes" and "view_create bytes ms = Success v"
  shows "view_wf v"
  using assms sorted_bases [OF mapping_order.sorted_std_sort, of ms]
  by (auto simp: view_create_Success view_wf_def list_all_iff)

lemma view_create_sources:
  assumes "host_object bytes" and "view_create bytes ms = Success v"
  shows "view_sources v = intent_sources ms" and "view_image_bytes v = bytes"
  using assms by (auto simp: view_create_Success view_sources_def intent_sources_def fun_eq_iff)

section \<open>Resolution of one address\<close>

definition resolved_of :: "ResolvedSource \<Rightarrow> byte_source" where
  "resolved_of r = (if resolved_kind r = resolved_zero_fill then Zero_byte else File_byte (unat (resolved_file_offset r)))"

lemma sources_match_iff: "sources_match a b \<longleftrightarrow> resolved_of a = resolved_of b"
  by (cases "resolved_kind a"; cases "resolved_kind b")
    (auto simp: sources_match_def resolved_of_def word_unat_eq_iff)

lemma source_at_ok:
  assumes "intent_valid n m" and "n < 2 ^ 64" and "range_contains (intent_range m) a"
  obtains r where "source_at m a = Success r" and "resolved_of r = source_of m a"
    and "resolved_kind r = resolved_file \<Longrightarrow> unat (resolved_file_offset r) < n"
proof (cases "backing_kind (intent_backing m) = zero_fill")
  case True
  then show ?thesis using that by (simp add: source_at_def resolved_of_def source_of_def)
next
  case False
  let ?delta = "a - range_base (intent_range m)"
  let ?off = "backing_file_offset (intent_backing m)"
  have delta: "unat ?delta = unat a - unat (range_base (intent_range m))"
    "unat ?delta < unat (range_size (intent_range m))"
    using assms(3) by (auto simp: range_contains_iff unat_sub_if')
  have "unat ?off + unat (range_size (intent_range m)) \<le> n"
    using assms(1) False by (simp add: intent_valid_def)
  with delta assms(2) have sum: "unat ?off + unat ?delta < n" "unat (?off + ?delta) = unat ?off + unat ?delta"
    by (simp_all add: unat_add_no_wrap)
  have "source_at m a = Success \<lparr>resolved_kind = resolved_file, resolved_file_offset = ?off + ?delta,
      resolved_source_index = intent_source_index m\<rparr>"
    unfolding source_at_def Let_def gt_max_minus_iff using False sum assms(2) by simp
  with that show ?thesis using sum delta False by (simp add: resolved_of_def source_of_def)
qed

lemma intent_sources_Cons:
  "intent_sources (m # ms) a =
     (if range_contains (intent_range m) a then {source_of m a} else {}) \<union> intent_sources ms a"
  by (auto simp: intent_sources_def)

lemma intent_sources_Nil [simp]: "intent_sources [] a = {}"
  by (simp add: intent_sources_def)

lemma intent_sources_above:
  assumes "\<forall>m \<in> set ms. a < range_base (intent_range m)"
  shows "intent_sources ms a = {}"
proof -
  have "\<not> range_contains (intent_range m) a" if "m \<in> set ms" for m
    using assms that by (auto simp: range_contains_def)
  then show ?thesis by (auto simp: intent_sources_def)
qed

definition resolves_to :: "nat \<Rightarrow> byte_source set \<Rightarrow> (ResolvedSource option, InitializedImageError) Result \<Rightarrow> bool" where
  "resolves_to n S res = (case res of
       Success None \<Rightarrow> S = {}
     | Success (Some r) \<Rightarrow> S = {resolved_of r} \<and> (resolved_kind r = resolved_file \<longrightarrow> unat (resolved_file_offset r) < n)
     | Failure e \<Rightarrow> image_error_code e = InitializedImageErrorCode.mapping_overlap_conflict \<and>
                    (\<exists>s \<in> S. \<exists>t \<in> S. s \<noteq> t)
     | Undefined \<Rightarrow> False)"

lemma resolve_loop_resolves:
  assumes "n < 2 ^ 64" and "list_all (intent_valid n) ms"
    and "sorted (map (\<lambda>m. range_base (intent_range m)) ms)"
    and "\<forall>r. r0 = Some r \<longrightarrow> resolved_kind r = resolved_file \<longrightarrow> unat (resolved_file_offset r) < n"
  shows "resolves_to n (set_option (map_option resolved_of r0) \<union> intent_sources ms a) (resolve_loop a ms r0)"
  using assms(2-4)
proof (induction ms arbitrary: r0)
  case Nil
  then show ?case by (cases r0) (auto simp: resolves_to_def)
next
  case (Cons m ms)
  let ?S = "set_option (map_option resolved_of r0) \<union> intent_sources (m # ms) a"
  consider (above) "a < range_base (intent_range m)"
    | (outside) "\<not> a < range_base (intent_range m)" "\<not> range_contains (intent_range m) a"
    | (covers) "\<not> a < range_base (intent_range m)" "range_contains (intent_range m) a" by blast
  then show ?case
  proof cases
    case above
    then have "intent_sources (m # ms) a = {}"
      using Cons.prems(2) by (intro intent_sources_above) auto
    with above Cons.prems(3) show ?thesis by (cases r0) (auto simp: resolves_to_def)
  next
    case outside
    then show ?thesis using Cons by (simp add: intent_sources_Cons)
  next
    case covers
    have "intent_valid n m" using Cons.prems(1) by simp
    then obtain r where r: "source_at m a = Success r" "resolved_of r = source_of m a"
      "resolved_kind r = resolved_file \<Longrightarrow> unat (resolved_file_offset r) < n"
      using source_at_ok [OF _ assms(1) covers(2)] by blast
    have srcs: "intent_sources (m # ms) a = insert (resolved_of r) (intent_sources ms a)"
      using covers r by (simp add: intent_sources_Cons)
    show ?thesis
    proof (cases r0)
      case None
      then show ?thesis using Cons.IH [of "Some r"] Cons.prems r covers srcs by simp
    next
      case (Some r1)
      show ?thesis
      proof (cases "resolved_of r1 = resolved_of r")
        case True
        then show ?thesis
          using Some Cons.IH [of "Some r1"] Cons.prems r covers srcs by (simp add: sources_match_iff)
      next
        case False
        then show ?thesis
          using Some r covers srcs by (auto simp: sources_match_iff resolves_to_def make_error_def)
      qed
    qed
  qed
qed

lemma view_resolves:
  assumes "view_wf v"
  shows "resolves_to (length (view_image_bytes v)) (view_sources v a) (resolve_loop a (view_intents v) None)"
  using assms resolve_loop_resolves [of "length (view_image_bytes v)" "view_intents v" None a]
  by (simp add: view_wf_def view_sources_def host_object_def)

lemma read_byte_cases:
  assumes "view_wf v"
  obtains (byte) s where "view_sources v a = {s}" and "read_byte v a = Success (source_byte (view_image_bytes v) s)"
  | (unmapped) "view_sources v a = {}"
      and "read_byte v a = Failure ((make_error unmapped_guest_address)\<lparr>image_error_guest_address := Some a\<rparr>)"
  | (conflict) e s t where "s \<in> view_sources v a" and "t \<in> view_sources v a" and "s \<noteq> t"
      and "read_byte v a = Failure e" and "image_error_code e = InitializedImageErrorCode.mapping_overlap_conflict"
proof (cases "resolve_loop a (view_intents v) None")
  case (Success ro)
  show ?thesis
  proof (cases ro)
    case None
    then show ?thesis using unmapped view_resolves [OF assms, of a] Success
      by (simp add: resolves_to_def read_byte_def)
  next
    case (Some r)
    then show ?thesis using byte [of "resolved_of r"] view_resolves [OF assms, of a] Success
      by (cases "resolved_kind r") (auto simp: resolves_to_def read_byte_def resolved_of_def)
  qed
next
  case (Failure e)
  then show ?thesis using conflict [of _ _ e] view_resolves [OF assms, of a]
    by (auto simp: resolves_to_def read_byte_def)
next
  case Undefined
  then show ?thesis using view_resolves [OF assms, of a] by (simp add: resolves_to_def)
qed

lemma read_byte_defined: "view_wf v \<Longrightarrow> read_byte v a \<noteq> Undefined"
  by (rule read_byte_cases [of v a]) auto

lemma read_byte_Success:
  assumes "view_wf v"
  shows "read_byte v a = Success b \<longleftrightarrow>
     (\<exists>s. view_sources v a = {s} \<and> b = source_byte (view_image_bytes v) s)"
  by (rule read_byte_cases [OF assms, of a]) auto

lemma read_byte_unmapped:
  assumes "view_wf v"
  shows "(\<exists>e. read_byte v a = Failure e \<and> image_error_code e = unmapped_guest_address) \<longleftrightarrow> view_sources v a = {}"
  by (rule read_byte_cases [OF assms, of a]) (auto simp: make_error_def)

lemma read_byte_conflict:
  assumes "view_wf v"
  shows "(\<exists>e. read_byte v a = Failure e \<and> image_error_code e = InitializedImageErrorCode.mapping_overlap_conflict)
     \<longleftrightarrow> (\<exists>s \<in> view_sources v a. \<exists>t \<in> view_sources v a. s \<noteq> t)"
  by (rule read_byte_cases [OF assms, of a]) (auto simp: make_error_def)

section \<open>The view implements the reader contract\<close>


interpretation view_bytes: byte_reader read_byte view_wf
  by unfold_locales (rule read_byte_defined)

lemma range_offset:
  assumes "range_wf r" and "i < unat (range_size r)"
  shows "unat (of_nat i :: u64) = i" and "unat (range_base r) + i < 2 ^ 64"
    and "unat (range_base r + of_nat i) = unat (range_base r) + i"
proof -
  have "i < 2 ^ 64" using assms(2) unsigned_less [of "range_size r"] by (simp add: less_trans [OF _ unat_lt_2p64])
  then show "unat (of_nat i :: u64) = i" by (simp add: unat_of_nat)
  moreover show "unat (range_base r) + i < 2 ^ 64" using assms by (simp add: range_wf_def)
  ultimately show "unat (range_base r + of_nat i) = unat (range_base r) + i"
    by (simp add: unat_plus_if')
qed

lemma copy_bytes_Success:
  assumes "range_wf r"
  shows "copy_bytes v r n = Success bs \<longleftrightarrow>
     n = unat (range_size r) \<and> length bs = n \<and>
     (\<forall>i < n. read_byte v (range_base r + of_nat i) = Success (bs ! i))"
  using range_offset [OF assms]
  by (auto simp: copy_bytes_def copy_loop_Success list_all2_conv_all_nth)

lemma copy_bytes_defined: "view_wf v \<Longrightarrow> copy_bytes v r n \<noteq> Undefined"
  by (simp add: copy_bytes_def view_bytes.copy_loop_defined)

interpretation view_ranges: range_reader read_byte view_wf copy_bytes
  by unfold_locales (simp_all add: copy_bytes_Success copy_bytes_defined)

section \<open>Properties\<close>

text \<open>
  C3. Every view the factory creates from a file is safe to read: whatever the intents and the
  address are, resolving an address never indexes the file out of range. The byte it returns is
  determined by the intents: it is the file byte (or zero) that every intent covering the address
  names, an address no intent covers is reported unmapped, and an address whose covering intents
  name different sources is reported as a conflict.
\<close>

theorem view_read_byte_correct:
  assumes "host_object bytes" and "view_create bytes ms = Success v"
  shows "read_byte v a \<noteq> Undefined \<and>
    (\<forall>b. read_byte v a = Success b \<longleftrightarrow> (\<exists>s. intent_sources ms a = {s} \<and> b = source_byte bytes s)) \<and>
    ((\<exists>e. read_byte v a = Failure e \<and> image_error_code e = unmapped_guest_address) \<longleftrightarrow>
       intent_sources ms a = {}) \<and>
    ((\<exists>e. read_byte v a = Failure e \<and>
        image_error_code e = InitializedImageErrorCode.mapping_overlap_conflict) \<longleftrightarrow>
       (\<exists>s \<in> intent_sources ms a. \<exists>t \<in> intent_sources ms a. s \<noteq> t))"
  using view_create_wf [OF assms] view_create_sources [OF assms]
  by (simp add: read_byte_defined read_byte_Success read_byte_unmapped read_byte_conflict)

definition sample_intents :: "MappingIntent list" where
  "sample_intents = load_intents \<lparr>ph_type = 1, ph_flags = 5, ph_offset = 2, ph_virtual_address = 0x1000,
     ph_physical_address = 0, ph_file_size = 3, ph_memory_size = 8, ph_alignment = 0, ph_index = 0\<rparr>"

definition sample_view :: InitializedImageView where
  "sample_view = \<lparr>view_image_bytes = [10, 11, 12, 13, 14], view_intents = sample_intents\<rparr>"

lemmas sample_view_eval = sample_view_def sample_intents_def load_intents_def file_intent_def zero_intent_def

lemma sample_view_created: "view_create [10, 11, 12, 13, 14] sample_intents = Success sample_view"
  by (subst view_create_Success)
    (simp_all add: host_object_def sample_view_eval intent_valid_def mapping_intent_less_def)

theorem view_read_byte_correct_witness:
  "read_byte sample_view 0x1001 = Success 13 \<and> read_byte sample_view 0x1005 = Success 0"
  using view_read_byte_correct [OF _ sample_view_created, of "0x1001"]
    view_read_byte_correct [OF _ sample_view_created, of "0x1005"]
  by (simp add: host_object_def sample_view_eval intent_sources_Cons source_of_def range_contains_iff)

text \<open>
  Copying a range succeeds exactly when the output has the size of the range and every byte of
  the range can be read, and the output is then the bytes of the range in order; it never reads
  outside the file.
\<close>

theorem view_copy_bytes_correct:
  assumes "view_wf v" and "range_wf r"
  shows "copy_bytes v r n \<noteq> Undefined \<and>
    (\<forall>bs. copy_bytes v r n = Success bs \<longleftrightarrow> n = unat (range_size r) \<and> length bs = n \<and>
       (\<forall>i < n. read_byte v (range_base r + of_nat i) = Success (bs ! i)))"
  using assms view_ranges.cp_Success view_ranges.cp_defined by blast

lemma sample_view_wf: "view_wf sample_view"
  by (rule view_create_wf [OF _ sample_view_created]) (simp add: host_object_def)

theorem view_copy_bytes_correct_witness:
  "copy_bytes sample_view \<lparr>range_base = 0x1000, range_size = 4\<rparr> 4 \<noteq> Undefined \<and>
   copy_bytes sample_view \<lparr>range_base = 0x1000, range_size = 4\<rparr> 4 = Success [12, 13, 14, 0]"
  using view_copy_bytes_correct [OF sample_view_wf, of "\<lparr>range_base = 0x1000, range_size = 4\<rparr>" 4]
  by (simp add: range_wf_def copy_bytes_def read_byte_def sample_view_eval source_at_def upt_rec
      GuestAddress_checked_add_def range_contains_def range_empty_def)

end
