(* ===== verification/Dynamic_Table.thy ===== *)
theory Dynamic_Table
  imports Image_View
begin

text \<open>
  src/loader/dynamic.cpp: the PT_DYNAMIC segment as a list of tagged entries that ends with the
  first DT_NULL entry. Tags are signed 64-bit values (bit_cast of the stored word).
\<close>

datatype DynamicErrorCode =
    not_dynamic_segment
  | integer_overflow
  | segment_out_of_bounds
  | invalid_segment_size
  | missing_terminator

record DynamicError =
  dynamic_error_code :: DynamicErrorCode
  dynamic_error_entry_index :: "nat option"
  dynamic_error_file_offset :: u64

record DynamicEntry =
  entry_tag :: int
  entry_value :: u64
  entry_index :: nat

record DynamicTable =
  table_entries :: "DynamicEntry list"

abbreviation kPtDynamic :: u32 where "kPtDynamic \<equiv> 2"
abbreviation kDynamicEntrySize :: u64 where "kDynamicEntrySize \<equiv> 16"

definition dynamic_error :: "DynamicErrorCode \<Rightarrow> u64 \<Rightarrow> DynamicError" where
  "dynamic_error code file_offset =
     \<lparr>dynamic_error_code = code, dynamic_error_entry_index = None, dynamic_error_file_offset = file_offset\<rparr>"

definition read_dynamic_entry :: "u8 list \<Rightarrow> u64 \<Rightarrow> nat \<Rightarrow> (DynamicEntry, DynamicError) Result" where
  "read_dynamic_entry bytes segment_offset index =
     (let entry_offset = segment_offset + of_nat index * kDynamicEntrySize in
      with_value (read_u64 bytes entry_offset) (\<lambda>raw_tag.
      with_value (read_u64 bytes (entry_offset + 8)) (\<lambda>value.
        Success \<lparr>entry_tag = sint raw_tag, entry_value = value, entry_index = index\<rparr>)))"

text \<open>The loop: it returns at the first DT_NULL, and fails when the entries run out.\<close>

primrec parse_dynamic_entries ::
  "u8 list \<Rightarrow> u64 \<Rightarrow> nat \<Rightarrow> nat list \<Rightarrow> DynamicEntry list \<Rightarrow> (DynamicTable, DynamicError) Result" where
  "parse_dynamic_entries bytes segment_offset entry_count [] entries =
     Failure ((dynamic_error missing_terminator segment_offset)\<lparr>dynamic_error_entry_index := Some entry_count\<rparr>)"
| "parse_dynamic_entries bytes segment_offset entry_count (index # rest) entries =
     with_value (read_dynamic_entry bytes segment_offset index) (\<lambda>entry.
       if entry_tag entry = 0 then Success \<lparr>table_entries = entries @ [entry]\<rparr>
       else parse_dynamic_entries bytes segment_offset entry_count rest (entries @ [entry]))"

definition parse_dynamic_table :: "u8 list \<Rightarrow> ProgramHeader \<Rightarrow> (DynamicTable, DynamicError) Result" where
  "parse_dynamic_table bytes segment =
     (if ph_type segment \<noteq> kPtDynamic
      then Failure (dynamic_error not_dynamic_segment (ph_offset segment))
      else if ph_file_size segment = 0
      then Failure (dynamic_error missing_terminator (ph_offset segment))
      else if ph_file_size segment mod kDynamicEntrySize \<noteq> 0
      then Failure (dynamic_error invalid_segment_size (ph_offset segment))
      else case checked_add_u64 (ph_offset segment) (ph_file_size segment) of
          None \<Rightarrow> Failure (dynamic_error DynamicErrorCode.integer_overflow (ph_offset segment))
        | Some segment_end \<Rightarrow>
            if ph_offset segment > input_size_u64 bytes \<or> segment_end > input_size_u64 bytes
            then Failure (dynamic_error segment_out_of_bounds (ph_offset segment))
            else (let entry_count = unat (ph_file_size segment div kDynamicEntrySize) in
                  parse_dynamic_entries bytes (ph_offset segment) entry_count [0..<entry_count] []))"

section \<open>Reference semantics\<close>

definition decode_dynamic_entry :: "u8 list \<Rightarrow> nat \<Rightarrow> nat \<Rightarrow> DynamicEntry" where
  "decode_dynamic_entry bytes offset i =
     \<lparr>entry_tag = sint (of_nat (field_nat bytes (offset + i * 16) 8) :: u64),
      entry_value = of_nat (field_nat bytes (offset + i * 16 + 8) 8), entry_index = i\<rparr>"

definition dynamic_segment_ok :: "nat \<Rightarrow> ProgramHeader \<Rightarrow> bool" where
  "dynamic_segment_ok input_length segment \<longleftrightarrow>
     ph_type segment = kPtDynamic \<and> unat (ph_file_size segment) mod 16 = 0 \<and>
     unat (ph_offset segment) + unat (ph_file_size segment) \<le> input_length"

text \<open>\<open>table_prefix dec n es\<close>: es are the first entries up to and including the first null tag.\<close>

definition table_prefix :: "(nat \<Rightarrow> DynamicEntry) \<Rightarrow> nat \<Rightarrow> DynamicEntry list \<Rightarrow> bool" where
  "table_prefix dec n es \<longleftrightarrow>
     (\<exists>k < n. entry_tag (dec k) = 0 \<and> (\<forall>i < k. entry_tag (dec i) \<noteq> 0) \<and> es = map dec [0..<Suc k])"

lemma read_dynamic_entry_ok:
  assumes "host_object bytes" and "unat off + (i + 1) * 16 \<le> length bytes"
  shows "read_dynamic_entry bytes off i = Success (decode_dynamic_entry bytes (unat off) i)"
proof -
  have "i * 16 < 2 ^ 64" using assms host_object_length [OF assms(1)] by simp
  then have "unat (of_nat i * 16 :: u64) = i * 16"
    using unat_of_nat [of "i * 16", where ?'a = 64] by simp
  then have e: "unat (off + of_nat i * 16) = unat off + i * 16"
    using assms host_object_length [OF assms(1)] by (simp add: unat_add_no_wrap)
  then have "unat (off + of_nat i * 16 + 8) = unat off + i * 16 + 8"
    using assms host_object_length [OF assms(1)] by (simp add: unat_add_no_wrap)
  with e show ?thesis using assms(2) host_object_length [OF assms(1)]
    by (simp add: read_dynamic_entry_def read_word_ok decode_dynamic_entry_def)
qed

lemma parse_dynamic_entries_spec:
  assumes "\<And>i. i < n \<Longrightarrow> read_dynamic_entry bytes off i = Success (dec i)" and "m \<le> n"
    and "\<forall>i < m. entry_tag (dec i) \<noteq> 0"
  shows "parse_dynamic_entries bytes off c [m..<n] (map dec [0..<m]) \<noteq> Undefined \<and>
     (\<forall>es. parse_dynamic_entries bytes off c [m..<n] (map dec [0..<m]) = Success \<lparr>table_entries = es\<rparr> \<longleftrightarrow>
       table_prefix dec n es)"
  using assms(2,3)
proof (induction "n - m" arbitrary: m)
  case 0
  then show ?case by (auto simp: table_prefix_def)
next
  case (Suc d)
  then have "m < n" by simp
  show ?case
  proof (cases "entry_tag (dec m) = 0")
    case True
    have "k = m" if "entry_tag (dec k) = 0" "\<forall>i < k. entry_tag (dec i) \<noteq> 0" for k
      using that True Suc.prems(2) by (metis linorder_neqE_nat)
    then have "table_prefix dec n es \<longleftrightarrow> es = map dec [0..<Suc m]" for es
      using True \<open>m < n\<close> Suc.prems(2) unfolding table_prefix_def by blast
    with True show ?thesis
      using \<open>m < n\<close> assms(1) [OF \<open>m < n\<close>] by (auto simp: upt_conv_Cons)
  next
    case False
    have "d = n - Suc m" using Suc.hyps(2) by linarith
    then show ?thesis
      using Suc.hyps(1) [of "Suc m"] Suc.prems False \<open>m < n\<close> assms(1) [OF \<open>m < n\<close>]
      by (auto simp: upt_conv_Cons less_Suc_eq)
  qed
qed

lemma dynamic_segment_entries:
  assumes "dynamic_segment_ok n segment" and "i < unat (ph_file_size segment) div 16"
  shows "unat (ph_offset segment) + (i + 1) * 16 \<le> n"
proof -
  have "(i + 1) * 16 \<le> unat (ph_file_size segment)" using assms(2) by simp
  then show ?thesis using assms(1) by (simp add: dynamic_segment_ok_def)
qed

lemma parse_dynamic_table_spec:
  assumes "host_object bytes"
  shows "parse_dynamic_table bytes segment \<noteq> Undefined \<and>
    (\<forall>es. parse_dynamic_table bytes segment = Success \<lparr>table_entries = es\<rparr> \<longleftrightarrow>
       dynamic_segment_ok (length bytes) segment \<and>
       table_prefix (decode_dynamic_entry bytes (unat (ph_offset segment)))
         (unat (ph_file_size segment) div 16) es)"
proof (cases "dynamic_segment_ok (length bytes) segment")
  case True
  let ?n = "unat (ph_file_size segment) div 16"
  have reads: "read_dynamic_entry bytes (ph_offset segment) i
      = Success (decode_dynamic_entry bytes (unat (ph_offset segment)) i)" if "i < ?n" for i
    using read_dynamic_entry_ok [OF assms dynamic_segment_entries [OF True that]] .
  have fits: "unat (ph_offset segment) + unat (ph_file_size segment) < 2 ^ 64"
    using True host_object_length [OF assms] by (simp add: dynamic_segment_ok_def)
  have "parse_dynamic_table bytes segment = parse_dynamic_entries bytes (ph_offset segment) ?n [0..<?n] []"
    if "ph_file_size segment \<noteq> 0"
    using True that fits host_object_unat [OF assms]
    by (auto simp: parse_dynamic_table_def dynamic_segment_ok_def checked_add_u64_Some checked_add_u64_None
        input_size_u64_def word_less_nat_alt unat_add_no_wrap unat_div unat_mod word_unat_eq_iff not_less
        split: option.splits)
  moreover have "parse_dynamic_table bytes segment
      = Failure (dynamic_error missing_terminator (ph_offset segment))" if "ph_file_size segment = 0"
    using True that by (simp add: parse_dynamic_table_def dynamic_segment_ok_def)
  moreover have "parse_dynamic_entries bytes (ph_offset segment) ?n [0..<?n] [] \<noteq> Undefined \<and>
     (\<forall>es. parse_dynamic_entries bytes (ph_offset segment) ?n [0..<?n] [] = Success \<lparr>table_entries = es\<rparr> \<longleftrightarrow>
       table_prefix (decode_dynamic_entry bytes (unat (ph_offset segment))) ?n es)"
    using parse_dynamic_entries_spec [where n = ?n and m = 0 and c = ?n, OF reads] by simp
  ultimately show ?thesis
    using True by (cases "ph_file_size segment = 0") (simp_all add: table_prefix_def)
next
  case False
  then show ?thesis using host_object_unat [OF assms] host_object_length [OF assms]
    by (auto simp: parse_dynamic_table_def dynamic_segment_ok_def checked_add_u64_Some input_size_u64_def
        word_less_nat_alt unat_add_no_wrap unat_mod word_unat_eq_iff split: option.splits if_splits)
qed

section \<open>Properties\<close>

text \<open>
  C4. The dynamic table parser never reads out of range, and it succeeds exactly when the segment is
  a PT_DYNAMIC segment of whole entries inside the file that contains a DT_NULL entry; the table is
  then the decoded entries up to and including the first DT_NULL.
\<close>

theorem parse_dynamic_table_correct:
  assumes "host_object bytes"
  shows "parse_dynamic_table bytes segment \<noteq> Undefined \<and>
    (\<forall>es. parse_dynamic_table bytes segment = Success \<lparr>table_entries = es\<rparr> \<longleftrightarrow>
       dynamic_segment_ok (length bytes) segment \<and>
       table_prefix (decode_dynamic_entry bytes (unat (ph_offset segment)))
         (unat (ph_file_size segment) div 16) es)"
  using assms by (rule parse_dynamic_table_spec)

definition sample_dynamic_bytes :: "u8 list" where
  "sample_dynamic_bytes = le_bytes 8 5 @ le_bytes 8 0x2000 @ le_bytes 8 0 @ le_bytes 8 0 @ le_bytes 8 9 @ le_bytes 8 9"

definition sample_dynamic_segment :: ProgramHeader where
  "sample_dynamic_segment = \<lparr>ph_type = 2, ph_flags = 4, ph_offset = 0, ph_virtual_address = 0x1000,
     ph_physical_address = 0, ph_file_size = 48, ph_memory_size = 48, ph_alignment = 8, ph_index = 1\<rparr>"

theorem parse_dynamic_table_correct_witness:
  "parse_dynamic_table sample_dynamic_bytes sample_dynamic_segment =
     Success \<lparr>table_entries =
       [\<lparr>entry_tag = 5, entry_value = 0x2000, entry_index = 0\<rparr>,
        \<lparr>entry_tag = 0, entry_value = 0, entry_index = 1\<rparr>]\<rparr>"
proof -
  let ?d = "decode_dynamic_entry sample_dynamic_bytes 0"
  have d: "?d 0 = \<lparr>entry_tag = 5, entry_value = 0x2000, entry_index = 0\<rparr>"
    "?d 1 = \<lparr>entry_tag = 0, entry_value = 0, entry_index = 1\<rparr>"
    by (simp_all add: decode_dynamic_entry_def sample_dynamic_bytes_def le_bytes_def field_nat_def upt_rec)
  have "host_object sample_dynamic_bytes" and "length sample_dynamic_bytes = 48"
    by (simp_all add: host_object_def sample_dynamic_bytes_def)
  moreover have "table_prefix ?d 3 [?d 0, ?d 1]"
    unfolding table_prefix_def by (rule exI [of _ 1]) (use d in \<open>auto simp: upt_rec\<close>)
  ultimately show ?thesis
    using parse_dynamic_table_correct [of sample_dynamic_bytes sample_dynamic_segment] d
    by (simp add: dynamic_segment_ok_def sample_dynamic_segment_def)
qed

end
