(* ===== verification/Dynamic_Metadata.thy ===== *)
theory Dynamic_Metadata
  imports Dynamic_Table
begin

text \<open>
  src/loader/dynamic_metadata.cpp: the string-table metadata of a dynamic table and the SCE view of
  its entries. Three loader files collect tags that may appear at most once (or repeatedly with one
  value) into optional slots with a merge_singleton of their own error type; the loop is modelled
  once (\<open>merge_entries\<close>), with the slots keyed by their tag, and the locale \<open>singleton_merge\<close>
  states what it relies on.
\<close>

section \<open>Singleton tags\<close>

record SingletonValue =
  singleton_value :: u64
  singleton_source_entry_index :: nat

definition singleton_of :: "DynamicEntry \<Rightarrow> SingletonValue" where
  "singleton_of e = \<lparr>singleton_value = entry_value e, singleton_source_entry_index = entry_index e\<rparr>"

type_synonym singleton_slots = "int \<rightharpoonup> SingletonValue"

text \<open>The loop over the entries: an entry with one of the tags is merged into the slot of its tag.\<close>

primrec merge_entries ::
  "(SingletonValue option \<Rightarrow> DynamicEntry \<Rightarrow> (SingletonValue, 'e) Result) \<Rightarrow> int list \<Rightarrow>
     DynamicEntry list \<Rightarrow> singleton_slots \<Rightarrow> (singleton_slots, 'e) Result" where
  "merge_entries merge tags [] slots = Success slots"
| "merge_entries merge tags (entry # rest) slots =
     (if entry_tag entry \<in> set tags
      then with_value (merge (slots (entry_tag entry)) entry) (\<lambda>s.
             merge_entries merge tags rest (slots(entry_tag entry \<mapsto> s)))
      else merge_entries merge tags rest slots)"

text \<open>The slot a tag ends up with, and the condition under which no merge fails.\<close>

definition slot_of :: "DynamicEntry list \<Rightarrow> int \<Rightarrow> SingletonValue option" where
  "slot_of es t = map_option singleton_of (find (\<lambda>e. entry_tag e = t) es)"

definition tag_slot :: "DynamicEntry list \<Rightarrow> int \<Rightarrow> SingletonValue option \<Rightarrow> SingletonValue option" where
  "tag_slot es t s = (case s of None \<Rightarrow> slot_of es t | Some v \<Rightarrow> Some v)"

definition tag_consistent :: "DynamicEntry list \<Rightarrow> int \<Rightarrow> SingletonValue option \<Rightarrow> bool" where
  "tag_consistent es t s \<longleftrightarrow>
     list_all (\<lambda>e. entry_tag e = t \<longrightarrow> map_option singleton_value (tag_slot es t s) = Some (entry_value e)) es"

lemma slot_of_Nil [simp]: "slot_of [] t = None"
  by (simp add: slot_of_def)

lemma slot_of_Cons [simp]:
  "slot_of (e # es) t = (if entry_tag e = t then Some (singleton_of e) else slot_of es t)"
  by (simp add: slot_of_def)

lemma slot_of_None: "slot_of es t = None \<longleftrightarrow> (\<forall>e \<in> set es. entry_tag e \<noteq> t)"
  by (auto simp: slot_of_def find_None_iff)

lemma tag_consistent_Nil [simp]: "tag_consistent [] t s"
  by (simp add: tag_consistent_def)

text \<open>The slot after merging an entry that agrees with it.\<close>

definition merged_slot :: "SingletonValue option \<Rightarrow> DynamicEntry \<Rightarrow> SingletonValue" where
  "merged_slot s e = (case s of None \<Rightarrow> singleton_of e | Some v \<Rightarrow> v)"

definition slot_agrees :: "SingletonValue option \<Rightarrow> DynamicEntry \<Rightarrow> bool" where
  "slot_agrees s e = (case s of None \<Rightarrow> True | Some v \<Rightarrow> entry_value e = singleton_value v)"

lemma tag_slot_Nil [simp]: "tag_slot [] t s = s"
  by (simp add: tag_slot_def split: option.split)

lemma tag_slot_Cons:
  "tag_slot (e # es) t s = (if entry_tag e = t then tag_slot es t (Some (merged_slot s e)) else tag_slot es t s)"
  by (simp add: tag_slot_def merged_slot_def split: option.split)

lemma tag_consistent_Cons:
  "tag_consistent (e # es) t s \<longleftrightarrow>
     (if entry_tag e = t then slot_agrees s e \<and> tag_consistent es t (Some (merged_slot s e))
      else tag_consistent es t s)"
  by (cases s) (auto simp: tag_consistent_def tag_slot_def singleton_of_def merged_slot_def slot_agrees_def)

locale singleton_merge =
  fixes merge :: "SingletonValue option \<Rightarrow> DynamicEntry \<Rightarrow> (SingletonValue, 'e) Result"
  assumes merge_empty: "merge None e = Success (singleton_of e)"
    and merge_same: "entry_value e = singleton_value s \<Longrightarrow> merge (Some s) e = Success s"
    and merge_conflict: "entry_value e \<noteq> singleton_value s \<Longrightarrow> \<exists>err. merge (Some s) e = Failure err"
begin

lemma merge_agrees: "slot_agrees s e \<Longrightarrow> merge s e = Success (merged_slot s e)"
  by (cases s) (simp_all add: slot_agrees_def merged_slot_def merge_empty merge_same)

lemma merge_disagrees: "\<not> slot_agrees s e \<Longrightarrow> \<exists>err. merge s e = Failure err"
  by (cases s) (simp_all add: slot_agrees_def merge_conflict)

lemma merge_defined: "merge s e \<noteq> Undefined"
  using merge_agrees [of s e] merge_disagrees [of s e] by (cases "slot_agrees s e") auto

lemma merge_entries_defined: "merge_entries merge tags es m \<noteq> Undefined"
  by (induction es arbitrary: m) (auto simp: result_simps merge_defined)

lemma merge_entries_Success:
  "merge_entries merge tags es m = Success out \<longleftrightarrow>
     (\<forall>t \<in> set tags. tag_consistent es t (m t)) \<and>
     out = (\<lambda>t. if t \<in> set tags then tag_slot es t (m t) else m t)"
proof (induction es arbitrary: m)
  case Nil
  then show ?case by auto
next
  case (Cons e es)
  let ?t = "entry_tag e"
  let ?m = "m(?t \<mapsto> merged_slot (m ?t) e)"
  consider (other) "?t \<notin> set tags" | (agrees) "?t \<in> set tags" "slot_agrees (m ?t) e"
    | (disagrees) "?t \<in> set tags" "\<not> slot_agrees (m ?t) e" by blast
  then show ?case
  proof cases
    case other
    then have "(\<forall>t \<in> set tags. tag_consistent (e # es) t (m t)) \<longleftrightarrow> (\<forall>t \<in> set tags. tag_consistent es t (m t))"
      and "(\<lambda>t. if t \<in> set tags then tag_slot (e # es) t (m t) else m t)
         = (\<lambda>t. if t \<in> set tags then tag_slot es t (m t) else m t)"
      by (auto simp: tag_consistent_Cons tag_slot_Cons)
    with other show ?thesis by (simp add: Cons.IH)
  next
    case agrees
    then have "(\<forall>t \<in> set tags. tag_consistent (e # es) t (m t)) \<longleftrightarrow> (\<forall>t \<in> set tags. tag_consistent es t (?m t))"
      and "(\<lambda>t. if t \<in> set tags then tag_slot (e # es) t (m t) else m t)
         = (\<lambda>t. if t \<in> set tags then tag_slot es t (?m t) else ?m t)"
      by (auto simp: tag_consistent_Cons tag_slot_Cons)
    with agrees show ?thesis by (simp add: Cons.IH merge_agrees)
  next
    case disagrees
    then show ?thesis using merge_disagrees [of "m ?t" e] by (auto simp: tag_consistent_Cons)
  qed
qed

end

text \<open>From empty slots: every tag of the list has one value, and its slot is its first entry.\<close>

definition tags_consistent :: "DynamicEntry list \<Rightarrow> int list \<Rightarrow> bool" where
  "tags_consistent es tags \<longleftrightarrow>
     list_all (\<lambda>e. list_all (\<lambda>d. entry_tag d \<in> set tags \<longrightarrow> entry_tag e = entry_tag d \<longrightarrow>
        entry_value e = entry_value d) es) es"

lemma slot_of_find:
  "e \<in> set es \<Longrightarrow> \<exists>d \<in> set es. entry_tag d = entry_tag e \<and> slot_of es (entry_tag e) = Some (singleton_of d)"
  by (induction es) auto

lemma tag_consistent_None:
  "tag_consistent es t None \<longleftrightarrow>
     (\<forall>e \<in> set es. entry_tag e = t \<longrightarrow> map_option singleton_value (slot_of es t) = Some (entry_value e))"
  by (simp add: tag_consistent_def tag_slot_def list_all_iff)

lemma tag_consistent_start: "(\<forall>t \<in> set tags. tag_consistent es t None) \<longleftrightarrow> tags_consistent es tags"
  (is "?slots \<longleftrightarrow> ?pairs")
proof
  assume slots: ?slots
  show ?pairs
    unfolding tags_consistent_def list_all_iff
  proof (intro ballI impI)
    fix e d
    assume "e \<in> set es" "d \<in> set es" "entry_tag d \<in> set tags" "entry_tag e = entry_tag d"
    moreover from this slots have "tag_consistent es (entry_tag d) None" by blast
    ultimately have "Some (entry_value e) = Some (entry_value d)"
      unfolding tag_consistent_None by metis
    then show "entry_value e = entry_value d" by simp
  qed
next
  assume pairs: ?pairs
  show ?slots
    unfolding tag_consistent_None
  proof (intro ballI impI)
    fix t e assume e: "t \<in> set tags" "e \<in> set es" "entry_tag e = t"
    then obtain d where "d \<in> set es" "entry_tag d = t" "slot_of es t = Some (singleton_of d)"
      using slot_of_find [of e es] by blast
    moreover from this e pairs have "entry_value d = entry_value e"
      unfolding tags_consistent_def list_all_iff by metis
    ultimately show "map_option singleton_value (slot_of es t) = Some (entry_value e)"
      by (simp add: singleton_of_def)
  qed
qed

context singleton_merge
begin

lemma merge_entries_start:
  "merge_entries merge tags es Map.empty = Success out \<longleftrightarrow>
     tags_consistent es tags \<and> out = (\<lambda>t. if t \<in> set tags then slot_of es t else None)"
  using merge_entries_Success [of tags es Map.empty out] tag_consistent_start [of tags es]
  by (auto simp: tag_slot_def)

text \<open>A scan for one tag that keeps its slot in an optional.\<close>

lemma single_tag_scan:
  assumes "\<And>h. f [] h = Success h"
    and "\<And>e es h. f (e # es) h =
      (if entry_tag e \<noteq> t then f es h else with_value (merge h e) (\<lambda>s. f es (Some s)))"
  shows "f es h = map_value (\<lambda>m. m t) (merge_entries merge [t] es (Map.empty(t := h)))"
  by (induction es arbitrary: h) (auto simp: assms and_then_def split: Result.split)

lemma single_tag_scan_Success:
  assumes "\<And>h. f [] h = Success h"
    and "\<And>e es h. f (e # es) h =
      (if entry_tag e \<noteq> t then f es h else with_value (merge h e) (\<lambda>s. f es (Some s)))"
  shows "f es None = Success out \<longleftrightarrow> tags_consistent es [t] \<and> out = slot_of es t"
  by (auto simp: single_tag_scan [of f t, OF assms] map_value_Success merge_entries_start)

lemma single_tag_scan_defined:
  assumes "\<And>h. f [] h = Success h"
    and "\<And>e es h. f (e # es) h =
      (if entry_tag e \<noteq> t then f es h else with_value (merge h e) (\<lambda>s. f es (Some s)))"
  shows "f es None \<noteq> Undefined"
  by (simp add: single_tag_scan [of f t, OF assms] map_value_Undefined merge_entries_defined)

end

section \<open>String-table metadata\<close>

abbreviation kDtNeeded :: int where "kDtNeeded \<equiv> 1"
abbreviation kDtStrtab :: int where "kDtStrtab \<equiv> 5"
abbreviation kDtStrsz :: int where "kDtStrsz \<equiv> 10"
abbreviation kDtSoname :: int where "kDtSoname \<equiv> 14"

record DynamicStringRef =
  ref_offset :: u64
  ref_source_entry_index :: nat

record DynamicStringTableDescriptor =
  string_table_range :: GuestRange

record DynamicStringMetadata =
  metadata_string_table :: "DynamicStringTableDescriptor option"
  metadata_needed :: "DynamicStringRef list"
  metadata_soname :: "DynamicStringRef option"

datatype DynamicMetadataErrorCode =
    conflicting_dynamic_tag
  | missing_required_companion_tag
  | guest_table_range_overflow
  | missing_string_table

record DynamicMetadataError =
  metadata_error_code :: DynamicMetadataErrorCode
  metadata_error_tag :: int
  metadata_error_source_entry_index :: "nat option"
  metadata_error_conflicting_entry_index :: "nat option"

definition metadata_error ::
  "DynamicMetadataErrorCode \<Rightarrow> int \<Rightarrow> nat option \<Rightarrow> nat option \<Rightarrow> DynamicMetadataError" where
  "metadata_error code tag source_entry_index conflicting_entry_index =
     \<lparr>metadata_error_code = code, metadata_error_tag = tag,
      metadata_error_source_entry_index = source_entry_index,
      metadata_error_conflicting_entry_index = conflicting_entry_index\<rparr>"

text \<open>merge_singleton: the result is the slot afterwards.\<close>

definition metadata_merge_singleton ::
  "SingletonValue option \<Rightarrow> DynamicEntry \<Rightarrow> (SingletonValue, DynamicMetadataError) Result" where
  "metadata_merge_singleton slot entry = (case slot of
       None \<Rightarrow> Success (singleton_of entry)
     | Some s \<Rightarrow>
         if singleton_value s \<noteq> entry_value entry
         then Failure (metadata_error conflicting_dynamic_tag (entry_tag entry) (Some (entry_index entry))
                (Some (singleton_source_entry_index s)))
         else Success s)"

interpretation metadata_merge: singleton_merge metadata_merge_singleton
  by unfold_locales (auto simp: metadata_merge_singleton_def)

record StringTags =
  tags_strtab :: "SingletonValue option"
  tags_strsz :: "SingletonValue option"
  tags_soname :: "SingletonValue option"
  tags_needed :: "DynamicStringRef list"

definition reference_of :: "DynamicEntry \<Rightarrow> DynamicStringRef" where
  "reference_of e = \<lparr>ref_offset = entry_value e, ref_source_entry_index = entry_index e\<rparr>"

primrec collect_string_tags ::
  "DynamicEntry list \<Rightarrow> StringTags \<Rightarrow> (StringTags, DynamicMetadataError) Result" where
  "collect_string_tags [] st = Success st"
| "collect_string_tags (entry # rest) st =
     (if entry_tag entry = kDtNeeded
      then collect_string_tags rest (st\<lparr>tags_needed := tags_needed st @ [reference_of entry]\<rparr>)
      else if entry_tag entry = kDtStrtab
      then with_value (metadata_merge_singleton (tags_strtab st) entry) (\<lambda>s.
             collect_string_tags rest (st\<lparr>tags_strtab := Some s\<rparr>))
      else if entry_tag entry = kDtStrsz
      then with_value (metadata_merge_singleton (tags_strsz st) entry) (\<lambda>s.
             collect_string_tags rest (st\<lparr>tags_strsz := Some s\<rparr>))
      else if entry_tag entry = kDtSoname
      then with_value (metadata_merge_singleton (tags_soname st) entry) (\<lambda>s.
             collect_string_tags rest (st\<lparr>tags_soname := Some s\<rparr>))
      else collect_string_tags rest st)"

definition companion_check :: "StringTags \<Rightarrow> (unit, DynamicMetadataError) Result" where
  "companion_check st = (case (tags_strtab st, tags_strsz st) of
       (Some strtab, None) \<Rightarrow>
         Failure (metadata_error missing_required_companion_tag kDtStrsz (Some (singleton_source_entry_index strtab)) None)
     | (None, Some strsz) \<Rightarrow>
         Failure (metadata_error missing_required_companion_tag kDtStrtab (Some (singleton_source_entry_index strsz)) None)
     | _ \<Rightarrow> Success ())"

definition reference_check :: "StringTags \<Rightarrow> (unit, DynamicMetadataError) Result" where
  "reference_check st = (case tags_strtab st of
       Some _ \<Rightarrow> Success ()
     | None \<Rightarrow> (case tags_needed st of
           first # _ \<Rightarrow> Failure (metadata_error missing_string_table kDtNeeded (Some (ref_source_entry_index first)) None)
         | [] \<Rightarrow> (case tags_soname st of
               Some soname \<Rightarrow>
                 Failure (metadata_error missing_string_table kDtSoname (Some (singleton_source_entry_index soname)) None)
             | None \<Rightarrow> Success ())))"

definition string_metadata_of :: "StringTags \<Rightarrow> (DynamicStringMetadata, DynamicMetadataError) Result" where
  "string_metadata_of st =
     (let metadata = \<lparr>metadata_string_table = None, metadata_needed = tags_needed st,
            metadata_soname = map_option (\<lambda>s. \<lparr>ref_offset = singleton_value s,
              ref_source_entry_index = singleton_source_entry_index s\<rparr>) (tags_soname st)\<rparr> in
      case (tags_strtab st, tags_strsz st) of
          (Some strtab, Some strsz) \<Rightarrow>
            and_then (GuestRange_create (singleton_value strtab) (singleton_value strsz))
              (\<lambda>_. metadata_error guest_table_range_overflow kDtStrtab
                 (Some (singleton_source_entry_index strtab)) (Some (singleton_source_entry_index strsz)))
              (\<lambda>range. Success (metadata\<lparr>metadata_string_table := Some \<lparr>string_table_range = range\<rparr>\<rparr>))
        | _ \<Rightarrow> Success metadata)"

definition build_dynamic_string_metadata ::
  "DynamicTable \<Rightarrow> (DynamicStringMetadata, DynamicMetadataError) Result" where
  "build_dynamic_string_metadata table =
     with_value (collect_string_tags (table_entries table)
         \<lparr>tags_strtab = None, tags_strsz = None, tags_soname = None, tags_needed = []\<rparr>) (\<lambda>st.
     with_value (companion_check st) (\<lambda>_.
     with_value (reference_check st) (\<lambda>_.
       string_metadata_of st)))"

text \<open>The record of slots as a map, and the loop as the generic merge.\<close>

definition string_slots :: "StringTags \<Rightarrow> singleton_slots" where
  "string_slots st = (\<lambda>t. if t = kDtStrtab then tags_strtab st else if t = kDtStrsz then tags_strsz st
     else if t = kDtSoname then tags_soname st else None)"

definition needed_refs :: "DynamicEntry list \<Rightarrow> DynamicStringRef list" where
  "needed_refs es = map reference_of (filter (\<lambda>e. entry_tag e = kDtNeeded) es)"

abbreviation string_singletons :: "int list" where
  "string_singletons \<equiv> [kDtStrtab, kDtStrsz, kDtSoname]"

lemma collect_string_tags_merge:
  "collect_string_tags es st =
     map_value (\<lambda>m. \<lparr>tags_strtab = m kDtStrtab, tags_strsz = m kDtStrsz, tags_soname = m kDtSoname,
        tags_needed = tags_needed st @ needed_refs es\<rparr>)
       (merge_entries metadata_merge_singleton string_singletons es (string_slots st))"
proof (induction es arbitrary: st)
  case Nil
  then show ?case by (simp add: string_slots_def needed_refs_def)
next
  case (Cons e es)
  have upd: "(string_slots st)(5 \<mapsto> s) = string_slots (st\<lparr>tags_strtab := Some s\<rparr>)"
    "(string_slots st)(10 \<mapsto> s) = string_slots (st\<lparr>tags_strsz := Some s\<rparr>)"
    "(string_slots st)(14 \<mapsto> s) = string_slots (st\<lparr>tags_soname := Some s\<rparr>)"
    "string_slots (st\<lparr>tags_needed := xs\<rparr>) = string_slots st" for s xs
    by (auto simp: string_slots_def fun_eq_iff)
  have get: "string_slots st 5 = tags_strtab st" "string_slots st 10 = tags_strsz st"
    "string_slots st 14 = tags_soname st" by (simp_all add: string_slots_def)
  consider "entry_tag e = 1" | "entry_tag e = 5" | "entry_tag e = 10" | "entry_tag e = 14"
    | "entry_tag e \<notin> {1, 5, 10, 14}" by blast
  then show ?case
    by cases (auto simp: Cons.IH upd get needed_refs_def and_then_def split: Result.split)
qed

text \<open>What the metadata of a table is, and when it has one.\<close>

definition string_reference_ok :: "DynamicEntry list \<Rightarrow> bool" where
  "string_reference_ok es \<longleftrightarrow>
     tags_consistent es string_singletons \<and>
     (slot_of es kDtStrtab = None \<longleftrightarrow> slot_of es kDtStrsz = None) \<and>
     (slot_of es kDtStrtab = None \<longrightarrow> needed_refs es = [] \<and> slot_of es kDtSoname = None) \<and>
     (case (slot_of es kDtStrtab, slot_of es kDtStrsz) of
        (Some strtab, Some strsz) \<Rightarrow> unat (singleton_value strtab) + unat (singleton_value strsz) \<le> 2 ^ 64
      | _ \<Rightarrow> True)"

definition string_metadata :: "DynamicEntry list \<Rightarrow> DynamicStringMetadata" where
  "string_metadata es =
     \<lparr>metadata_string_table = (case (slot_of es kDtStrtab, slot_of es kDtStrsz) of
          (Some strtab, Some strsz) \<Rightarrow> Some \<lparr>string_table_range =
             \<lparr>range_base = singleton_value strtab, range_size = singleton_value strsz\<rparr>\<rparr>
        | _ \<Rightarrow> None),
      metadata_needed = needed_refs es,
      metadata_soname = map_option (\<lambda>s. \<lparr>ref_offset = singleton_value s,
        ref_source_entry_index = singleton_source_entry_index s\<rparr>) (slot_of es kDtSoname)\<rparr>"

lemma collect_string_tags_Success:
  "collect_string_tags es \<lparr>tags_strtab = None, tags_strsz = None, tags_soname = None, tags_needed = []\<rparr> = Success st
   \<longleftrightarrow> tags_consistent es string_singletons \<and>
      st = \<lparr>tags_strtab = slot_of es kDtStrtab, tags_strsz = slot_of es kDtStrsz,
            tags_soname = slot_of es kDtSoname, tags_needed = needed_refs es\<rparr>"
proof -
  have "string_slots \<lparr>tags_strtab = None, tags_strsz = None, tags_soname = None, tags_needed = []\<rparr> = Map.empty"
    by (auto simp: string_slots_def)
  then show ?thesis
    by (auto simp: collect_string_tags_merge map_value_Success metadata_merge.merge_entries_start)
qed

lemma build_dynamic_string_metadata_iff:
  "build_dynamic_string_metadata table = Success md \<longleftrightarrow>
     string_reference_ok (table_entries table) \<and> md = string_metadata (table_entries table)"
  by (auto simp: build_dynamic_string_metadata_def result_simps collect_string_tags_Success companion_check_def
      reference_check_def string_metadata_of_def string_reference_ok_def string_metadata_def
      split: option.splits list.splits)

lemma build_dynamic_string_metadata_defined: "build_dynamic_string_metadata table \<noteq> Undefined"
  by (auto simp: build_dynamic_string_metadata_def result_simps collect_string_tags_merge
      metadata_merge.merge_entries_defined companion_check_def reference_check_def string_metadata_of_def
      split: option.splits list.splits)

lemma string_table_range_wf:
  "build_dynamic_string_metadata table = Success md \<Longrightarrow> metadata_string_table md = Some d \<Longrightarrow>
     range_wf (string_table_range d)"
  by (auto simp: build_dynamic_string_metadata_iff string_metadata_def string_reference_ok_def range_wf_def
      split: option.splits)

section \<open>The SCE view of the entries\<close>

datatype SceDynamicTagKind =
    module_attributes
  | export_library_attributes
  | import_library_attributes
  | hash_table_size
  | symbol_table_size
  | original_filename
  | module_information
  | needed_module
  | export_library
  | import_library
  | unknown

record SceDynamicRecord =
  sce_kind :: SceDynamicTagKind
  sce_raw_tag :: int
  sce_raw_value :: u64
  sce_source_entry_index :: nat

datatype SceDynamicMetadataErrorCode = conflicting_singleton_tag | host_allocation_failure

record SceDynamicMetadataError =
  sce_error_code :: SceDynamicMetadataErrorCode
  sce_error_tag :: int
  sce_error_source_entry_index :: "nat option"
  sce_error_conflicting_entry_index :: "nat option"

definition classify_sce_dynamic_tag :: "int \<Rightarrow> SceDynamicTagKind" where
  "classify_sce_dynamic_tag tag =
     (if tag = 0x61000011 then module_attributes
      else if tag = 0x61000017 then export_library_attributes
      else if tag = 0x61000019 then import_library_attributes
      else if tag = 0x6100003d then hash_table_size
      else if tag = 0x6100003f then symbol_table_size
      else if tag = 0x61000041 then original_filename
      else if tag = 0x61000043 then module_information
      else if tag = 0x61000045 then needed_module
      else if tag = 0x61000047 then export_library
      else if tag = 0x61000049 then import_library
      else unknown)"

fun sce_singleton_slot :: "SceDynamicTagKind \<Rightarrow> nat option" where
  "sce_singleton_slot module_attributes = Some 0"
| "sce_singleton_slot hash_table_size = Some 1"
| "sce_singleton_slot symbol_table_size = Some 2"
| "sce_singleton_slot original_filename = Some 3"
| "sce_singleton_slot module_information = Some 4"
| "sce_singleton_slot export_library_attributes = None"
| "sce_singleton_slot import_library_attributes = None"
| "sce_singleton_slot needed_module = None"
| "sce_singleton_slot export_library = None"
| "sce_singleton_slot import_library = None"
| "sce_singleton_slot unknown = None"

definition sce_metadata_error ::
  "SceDynamicMetadataErrorCode \<Rightarrow> int \<Rightarrow> nat option \<Rightarrow> nat option \<Rightarrow> SceDynamicMetadataError" where
  "sce_metadata_error code tag source_entry_index conflicting_entry_index =
     \<lparr>sce_error_code = code, sce_error_tag = tag, sce_error_source_entry_index = source_entry_index,
      sce_error_conflicting_entry_index = conflicting_entry_index\<rparr>"

definition sce_record_of :: "DynamicEntry \<Rightarrow> SceDynamicRecord" where
  "sce_record_of entry =
     \<lparr>sce_kind = classify_sce_dynamic_tag (entry_tag entry), sce_raw_tag = entry_tag entry,
      sce_raw_value = entry_value entry, sce_source_entry_index = entry_index entry\<rparr>"

text \<open>The loop: the array of five optional singletons and the records built so far.\<close>

primrec collect_sce_records ::
  "DynamicEntry list \<Rightarrow> SingletonValue option list \<Rightarrow> SceDynamicRecord list \<Rightarrow>
     (SceDynamicRecord list, SceDynamicMetadataError) Result" where
  "collect_sce_records [] singleton_values records = Success records"
| "collect_sce_records (entry # rest) singleton_values records =
     (case sce_singleton_slot (classify_sce_dynamic_tag (entry_tag entry)) of
        None \<Rightarrow> collect_sce_records rest singleton_values (records @ [sce_record_of entry])
      | Some slot \<Rightarrow> (case singleton_values ! slot of
            None \<Rightarrow> collect_sce_records rest (singleton_values[slot := Some (singleton_of entry)])
                      (records @ [sce_record_of entry])
          | Some existing \<Rightarrow>
              if singleton_value existing \<noteq> entry_value entry
              then Failure (sce_metadata_error conflicting_singleton_tag (entry_tag entry)
                     (Some (entry_index entry)) (Some (singleton_source_entry_index existing)))
              else collect_sce_records rest singleton_values (records @ [sce_record_of entry])))"

text \<open>
  build_sce_dynamic_metadata: the only allocation is the reserve at its start, which may throw
  bad_alloc or length_error; both are caught and reported.
\<close>

definition build_sce_dynamic_metadata ::
  "host_allocator \<Rightarrow> DynamicTable \<Rightarrow> (SceDynamicRecord list, SceDynamicMetadataError) Result" where
  "build_sce_dynamic_metadata alloc table =
     (case alloc (length (table_entries table)) of
        No_exception \<Rightarrow> collect_sce_records (table_entries table) (replicate 5 None) []
      | Bad_alloc \<Rightarrow> Failure (sce_metadata_error host_allocation_failure 0 None None)
      | Length_error \<Rightarrow> Failure (sce_metadata_error host_allocation_failure 0 None None))"

text \<open>The array of singletons as slots keyed by tag.\<close>

abbreviation sce_singletons :: "int list" where
  "sce_singletons \<equiv> [0x61000011, 0x6100003d, 0x6100003f, 0x61000041, 0x61000043]"

definition sce_slots :: "SingletonValue option list \<Rightarrow> singleton_slots" where
  "sce_slots vs t =
     (case sce_singleton_slot (classify_sce_dynamic_tag t) of None \<Rightarrow> None | Some i \<Rightarrow> vs ! i)"

definition sce_merge ::
  "SingletonValue option \<Rightarrow> DynamicEntry \<Rightarrow> (SingletonValue, SceDynamicMetadataError) Result" where
  "sce_merge slot entry = (case slot of
       None \<Rightarrow> Success (singleton_of entry)
     | Some s \<Rightarrow>
         if singleton_value s \<noteq> entry_value entry
         then Failure (sce_metadata_error conflicting_singleton_tag (entry_tag entry) (Some (entry_index entry))
                (Some (singleton_source_entry_index s)))
         else Success s)"

interpretation sce_merge: singleton_merge sce_merge
  by unfold_locales (auto simp: sce_merge_def)

lemma sce_singleton_slot_Some:
  "sce_singleton_slot (classify_sce_dynamic_tag t) = Some i \<longleftrightarrow>
     i < 5 \<and> t = sce_singletons ! i"
proof
  assume "i < 5 \<and> t = sce_singletons ! i"
  moreover from this have "i = 0 \<or> i = 1 \<or> i = 2 \<or> i = 3 \<or> i = 4" by linarith
  ultimately show "sce_singleton_slot (classify_sce_dynamic_tag t) = Some i"
    by (elim conjE disjE) (simp_all add: classify_sce_dynamic_tag_def)
qed (auto simp: classify_sce_dynamic_tag_def split: if_splits)

lemma sce_singleton_slot_None:
  "sce_singleton_slot (classify_sce_dynamic_tag t) = None \<longleftrightarrow> t \<notin> set sce_singletons"
  by (auto simp: classify_sce_dynamic_tag_def)

lemma sce_slots_update:
  assumes "length vs = 5" and "sce_singleton_slot (classify_sce_dynamic_tag t) = Some i"
  shows "sce_slots (vs[i := Some s]) = (sce_slots vs)(t \<mapsto> s)"
proof
  fix u
  have "i < 5" "t = sce_singletons ! i" using assms(2) by (simp_all add: sce_singleton_slot_Some)
  show "sce_slots (vs[i := Some s]) u = ((sce_slots vs)(t \<mapsto> s)) u"
  proof (cases "sce_singleton_slot (classify_sce_dynamic_tag u)")
    case None
    with assms(2) have "u \<noteq> t" by auto
    with None show ?thesis by (simp add: sce_slots_def)
  next
    case (Some j)
    then have "u = t \<longleftrightarrow> j = i" using assms(2) by (metis option.inject sce_singleton_slot_Some)
    with Some \<open>i < 5\<close> assms show ?thesis by (auto simp: sce_slots_def)
  qed
qed

lemma collect_sce_records_merge:
  "length vs = 5 \<Longrightarrow> collect_sce_records es vs recs =
     map_value (\<lambda>_. recs @ map sce_record_of es) (merge_entries sce_merge sce_singletons es (sce_slots vs))"
proof (induction es arbitrary: vs recs)
  case (Cons e es)
  show ?case
  proof (cases "sce_singleton_slot (classify_sce_dynamic_tag (entry_tag e))")
    case None
    then have "entry_tag e \<notin> set sce_singletons" by (rule iffD1 [OF sce_singleton_slot_None])
    with None show ?thesis using Cons.IH [OF Cons.prems, of "recs @ [sce_record_of e]"] by simp
  next
    case (Some i)
    then have mem: "entry_tag e \<in> set sce_singletons"
      using sce_singleton_slot_None [of "entry_tag e"] by (metis option.distinct(1))
    have get: "sce_slots vs (entry_tag e) = vs ! i" using Some by (simp add: sce_slots_def)
    have upd: "(sce_slots vs)(entry_tag e \<mapsto> s) = sce_slots (vs[i := Some s])" for s
      by (rule sce_slots_update [OF Cons.prems Some, symmetric])
    have "i < length vs" using Some Cons.prems by (simp add: sce_singleton_slot_Some)
    then have same: "vs ! i = Some s \<Longrightarrow> vs[i := Some s] = vs" for s by (metis list_update_id)
    have "collect_sce_records (e # es) vs recs =
        with_value (sce_merge (vs ! i) e) (\<lambda>s. collect_sce_records es (vs[i := Some s]) (recs @ [sce_record_of e]))"
      using Some by (auto simp: sce_merge_def same split: option.split)
    also have "\<dots> = with_value (sce_merge (vs ! i) e) (\<lambda>s. map_value (\<lambda>_. recs @ map sce_record_of (e # es))
        (merge_entries sce_merge sce_singletons es (sce_slots (vs[i := Some s]))))"
      using Cons.IH Cons.prems by simp
    also have "\<dots> = map_value (\<lambda>_. recs @ map sce_record_of (e # es))
        (with_value (sce_merge (vs ! i) e) (\<lambda>s. merge_entries sce_merge sce_singletons es (sce_slots (vs[i := Some s]))))"
      by (cases "sce_merge (vs ! i) e") simp_all
    finally show ?thesis by (simp only: merge_entries.simps mem if_True get upd)
  qed
qed simp

lemma build_sce_dynamic_metadata_iff:
  "build_sce_dynamic_metadata alloc table = Success recs \<longleftrightarrow>
     alloc (length (table_entries table)) = No_exception \<and>
     tags_consistent (table_entries table) sce_singletons \<and>
     recs = map sce_record_of (table_entries table)"
proof -
  have "sce_slots (replicate 5 None) = Map.empty"
    by (auto simp: sce_slots_def sce_singleton_slot_Some split: option.split)
  then have "collect_sce_records (table_entries table) (replicate 5 None) [] = Success recs \<longleftrightarrow>
     tags_consistent (table_entries table) sce_singletons \<and> recs = map sce_record_of (table_entries table)"
    by (auto simp: collect_sce_records_merge map_value_Success sce_merge.merge_entries_start)
  then show ?thesis
    by (cases "alloc (length (table_entries table))") (simp_all add: build_sce_dynamic_metadata_def)
qed

section \<open>Properties\<close>

text \<open>
  The string metadata of a dynamic table is built exactly when no singleton tag (DT_STRTAB,
  DT_STRSZ, DT_SONAME) has two values, DT_STRTAB and DT_STRSZ appear together and appear at all when
  a DT_NEEDED or DT_SONAME refers to the table, and the table's range fits the address space. The
  metadata then names that range, every DT_NEEDED reference in order and the first DT_SONAME.
\<close>

theorem build_dynamic_string_metadata_correct:
  "build_dynamic_string_metadata table \<noteq> Undefined \<and>
   (build_dynamic_string_metadata table = Success md \<longleftrightarrow>
     string_reference_ok (table_entries table) \<and> md = string_metadata (table_entries table))"
  by (simp only: build_dynamic_string_metadata_iff build_dynamic_string_metadata_defined simp_thms)

text \<open>
  The SCE view of a table fails only on a host allocation failure or on two different values of
  one of the five singleton SCE tags; otherwise it has one record per entry, in order, that keeps the
  entry's raw tag, value and index.
\<close>

theorem build_sce_dynamic_metadata_correct:
  "build_sce_dynamic_metadata alloc table = Success recs \<longleftrightarrow>
     alloc (length (table_entries table)) = No_exception \<and>
     tags_consistent (table_entries table) sce_singletons \<and>
     recs = map sce_record_of (table_entries table)"
  by (rule build_sce_dynamic_metadata_iff)

end
