(* ===== verification/Dynamic_String.thy ===== *)
theory Dynamic_String
  imports Dynamic_Metadata
begin

text \<open>
  src/loader/dynamic_string.cpp: resolve_dynamic_string reads a zero-terminated string of the dynamic
  string table through the initialized image view, in two passes (find the terminator, then copy).
  \<open>max_size\<close> stands for std::string::max_size() and \<open>alloc\<close> for the outcome of std::string::resize,
  which throws length_error only above max_size().
\<close>

datatype DynamicStringErrorCode =
    offset_out_of_bounds
  | unterminated
  | image_read_failure
  | guest_address_overflow
  | host_size_unrepresentable
  | host_allocation_failure

record DynamicStringError =
  string_error_code :: DynamicStringErrorCode
  string_error_source_entry_index :: nat
  string_error_offset :: u64
  string_error_guest_address :: "GuestAddress option"
  string_error_image_error :: "InitializedImageError option"

definition string_error :: "DynamicStringErrorCode \<Rightarrow> DynamicStringRef \<Rightarrow> GuestAddress option \<Rightarrow>
    InitializedImageError option \<Rightarrow> DynamicStringError" where
  "string_error code reference guest_address image_error =
     \<lparr>string_error_code = code, string_error_source_entry_index = ref_source_entry_index reference,
      string_error_offset = ref_offset reference, string_error_guest_address = guest_address,
      string_error_image_error = image_error\<rparr>"

definition address_at :: "GuestAddress \<Rightarrow> u64 \<Rightarrow> DynamicStringRef \<Rightarrow> (GuestAddress, DynamicStringError) Result" where
  "address_at base offset reference =
     and_then (GuestAddress_checked_add base offset)
       (\<lambda>_. string_error guest_address_overflow reference (Some base) None)
       (\<lambda>address. Success address)"

definition string_byte_at ::
  "(GuestAddress \<Rightarrow> (u8, InitializedImageError) Result) \<Rightarrow> GuestAddress \<Rightarrow> DynamicStringRef \<Rightarrow> nat \<Rightarrow>
     (u8, DynamicStringError) Result" where
  "string_byte_at rd start reference i =
     with_value (address_at start (of_nat i) reference) (\<lambda>address.
     and_then (rd address)
       (\<lambda>e. string_error image_read_failure reference (Some address) (Some e))
       (\<lambda>byte. Success byte))"

text \<open>The first loop: the index of the terminator, None when the loop ends without one.\<close>

primrec find_terminator ::
  "(GuestAddress \<Rightarrow> (u8, InitializedImageError) Result) \<Rightarrow> GuestAddress \<Rightarrow> DynamicStringRef \<Rightarrow> nat list \<Rightarrow>
     (nat option, DynamicStringError) Result" where
  "find_terminator rd start reference [] = Success None"
| "find_terminator rd start reference (i # is) =
     with_value (string_byte_at rd start reference i) (\<lambda>byte.
       if byte = 0 then Success (Some i) else find_terminator rd start reference is)"

text \<open>The second loop: the characters, from a second read of the same addresses.\<close>

primrec copy_string ::
  "(GuestAddress \<Rightarrow> (u8, InitializedImageError) Result) \<Rightarrow> GuestAddress \<Rightarrow> DynamicStringRef \<Rightarrow> nat list \<Rightarrow>
     u8 list \<Rightarrow> (u8 list, DynamicStringError) Result" where
  "copy_string rd start reference [] value = Success value"
| "copy_string rd start reference (i # is) value =
     with_value (string_byte_at rd start reference i) (\<lambda>byte.
       copy_string rd start reference is (value @ [byte]))"

definition resolve_dynamic_string ::
  "nat \<Rightarrow> host_allocator \<Rightarrow> DynamicStringTableDescriptor \<Rightarrow> DynamicStringRef \<Rightarrow> InitializedImageView \<Rightarrow>
     (u8 list, DynamicStringError) Result" where
  "resolve_dynamic_string max_size alloc table reference image_view =
     (let table_size = range_size (string_table_range table);
          base = range_base (string_table_range table) in
      if ref_offset reference \<ge> table_size
      then Failure (string_error offset_out_of_bounds reference (Some base) None)
      else with_value (address_at base (ref_offset reference) reference) (\<lambda>start.
           with_value (find_terminator (read_byte image_view) start reference
               [0..<unat (table_size - ref_offset reference)]) (\<lambda>terminator.
             case terminator of
               None \<Rightarrow> Failure (string_error unterminated reference (Some start) None)
             | Some host_length \<Rightarrow>
                 if host_length > max_size
                 then Failure (string_error DynamicStringErrorCode.host_size_unrepresentable reference (Some start) None)
                 else (case alloc host_length of
                     Bad_alloc \<Rightarrow>
                       Failure (string_error DynamicStringErrorCode.host_allocation_failure reference (Some start) None)
                   | Length_error \<Rightarrow> Undefined
                   | No_exception \<Rightarrow> copy_string (read_byte image_view) start reference [0..<host_length] []))))"

section \<open>Reference semantics\<close>

text \<open>\<open>c_string_at rd a n s\<close>: s is the zero-terminated string at a, terminator within n bytes.\<close>

definition c_string_at ::
  "(GuestAddress \<Rightarrow> (u8, 'e) Result) \<Rightarrow> GuestAddress \<Rightarrow> nat \<Rightarrow> u8 list \<Rightarrow> bool" where
  "c_string_at rd a n s \<longleftrightarrow>
     length s < n \<and> (\<forall>i < length s. s ! i \<noteq> 0 \<and> rd (a + of_nat i) = Success (s ! i)) \<and>
     rd (a + of_nat (length s)) = Success 0"

lemma string_byte_at_Success:
  "i < 2 ^ 64 \<Longrightarrow> string_byte_at rd start reference i = Success b \<longleftrightarrow>
     unat start + i < 2 ^ 64 \<and> rd (start + of_nat i) = Success b"
  by (auto simp: string_byte_at_def address_at_def result_simps unat_of_nat)

lemma find_terminator_Success:
  assumes "unat start + n \<le> 2 ^ 64"
  shows "find_terminator rd start reference [m..<n] = Success (Some k) \<longleftrightarrow>
     m \<le> k \<and> k < n \<and> (\<forall>i. m \<le> i \<and> i < k \<longrightarrow> (\<exists>b. b \<noteq> 0 \<and> rd (start + of_nat i) = Success b)) \<and>
     rd (start + of_nat k) = Success 0"
proof (induction "n - m" arbitrary: m)
  case 0
  then show ?case by auto
next
  case (Suc d)
  then have "m < n" "d = n - Suc m" by linarith+
  then have m: "string_byte_at rd start reference m = Success b \<longleftrightarrow> rd (start + of_nat m) = Success b" for b
    using assms by (subst string_byte_at_Success) auto
  have "find_terminator rd start reference [m..<n] = Success (Some k) \<longleftrightarrow>
      (\<exists>b. rd (start + of_nat m) = Success b \<and>
        (if b = 0 then k = m else find_terminator rd start reference [Suc m..<n] = Success (Some k)))"
    using \<open>m < n\<close> m by (auto simp: upt_conv_Cons result_simps)
  also have "\<dots> \<longleftrightarrow> m \<le> k \<and> k < n \<and>
      (\<forall>i. m \<le> i \<and> i < k \<longrightarrow> (\<exists>b. b \<noteq> 0 \<and> rd (start + of_nat i) = Success b)) \<and>
      rd (start + of_nat k) = Success 0"
    unfolding Suc.hyps(1) [OF \<open>d = n - Suc m\<close>]
    using \<open>m < n\<close> by (cases "m < k") (auto simp: all_from_Suc Suc_le_eq)
  finally show ?case .
qed

lemma copy_string_Success:
  "copy_string rd start reference is out = Success bs \<longleftrightarrow>
     (\<exists>new. bs = out @ new \<and> list_all2 (\<lambda>i b. string_byte_at rd start reference i = Success b) is new)"
  by (induction "is" arbitrary: out) (fastforce simp: result_simps list_all2_Cons1)+

lemma copy_string_upto:
  assumes "unat start + n \<le> 2 ^ 64"
  shows "copy_string rd start reference [0..<n] [] = Success bs \<longleftrightarrow>
     length bs = n \<and> (\<forall>i < n. rd (start + of_nat i) = Success (bs ! i))"
  using assms
  by (auto simp: copy_string_Success list_all2_conv_all_nth string_byte_at_Success)

context byte_reader
begin

lemma string_byte_at_defined: "valid v \<Longrightarrow> string_byte_at (rd v) start reference i \<noteq> Undefined"
  by (auto simp: string_byte_at_def address_at_def result_simps rd_defined)

lemma find_terminator_defined: "valid v \<Longrightarrow> find_terminator (rd v) start reference is \<noteq> Undefined"
  by (induction "is") (auto simp: result_simps string_byte_at_defined)

lemma copy_string_defined: "valid v \<Longrightarrow> copy_string (rd v) start reference is out \<noteq> Undefined"
  by (induction "is" arbitrary: out) (auto simp: result_simps string_byte_at_defined)

end

lemma resolve_dynamic_string_iff:
  assumes "range_wf (string_table_range table)"
  shows "resolve_dynamic_string max_size alloc table reference view = Success s \<longleftrightarrow>
     ref_offset reference < range_size (string_table_range table) \<and>
     c_string_at (read_byte view) (range_base (string_table_range table) + ref_offset reference)
       (unat (range_size (string_table_range table)) - unat (ref_offset reference)) s \<and>
     length s \<le> max_size \<and> alloc (length s) = No_exception"
proof (cases "ref_offset reference < range_size (string_table_range table)")
  case True
  let ?b = "range_base (string_table_range table)" and ?o = "ref_offset reference"
  let ?n = "unat (range_size (string_table_range table)) - unat ?o"
  have lt: "unat ?o < unat (range_size (string_table_range table))" using True by (simp add: word_less_nat_alt)
  have fits: "unat ?b + unat ?o < 2 ^ 64" "unat (?b + ?o) + ?n \<le> 2 ^ 64"
    using assms lt by (auto simp: range_wf_def unat_add_no_wrap)
  have size: "unat (range_size (string_table_range table) - ?o) = ?n" using lt by (simp add: unat_sub_if')
  have upto: "copy_string (read_byte view) (?b + ?o) reference [0..<k] [] = Success s \<longleftrightarrow>
      length s = k \<and> (\<forall>i < k. read_byte view (?b + ?o + of_nat i) = Success (s ! i))" if "k < ?n" for k
    by (rule copy_string_upto) (use fits that in linarith)
  have start: "address_at ?b ?o reference = Success (?b + ?o)"
    using fits by (simp add: address_at_def and_then_Success GuestAddress_checked_add_Success)
  have "resolve_dynamic_string max_size alloc table reference view = Success s \<longleftrightarrow>
      (\<exists>k. find_terminator (read_byte view) (?b + ?o) reference [0..<?n] = Success (Some k) \<and>
        k \<le> max_size \<and> alloc k = No_exception \<and>
        copy_string (read_byte view) (?b + ?o) reference [0..<k] [] = Success s)"
    using True
    by (cases "find_terminator (read_byte view) (?b + ?o) reference [0..<?n]")
      (auto simp: resolve_dynamic_string_def size start Let_def not_less
        split: option.split host_event.split)
  also have "\<dots> \<longleftrightarrow> c_string_at (read_byte view) (?b + ?o) ?n s \<and> length s \<le> max_size \<and> alloc (length s) = No_exception"
    unfolding find_terminator_Success [OF fits(2)] c_string_at_def
    using upto by auto
  finally show ?thesis using True by simp
next
  case False
  then show ?thesis by (simp add: resolve_dynamic_string_def Let_def not_less)
qed

section \<open>Properties\<close>

lemma resolve_dynamic_string_defined:
  assumes "view_wf view" and "range_wf (string_table_range table)"
    and "\<And>n. n \<le> max_size \<Longrightarrow> alloc n \<noteq> Length_error"
  shows "resolve_dynamic_string max_size alloc table reference view \<noteq> Undefined"
  using assms by (auto simp: resolve_dynamic_string_def Let_def result_simps address_at_def
      view_bytes.find_terminator_defined view_bytes.copy_string_defined split: option.splits host_event.splits)

text \<open>
  Resolving a reference into a well-formed string table never indexes out of range and never
  lets an exception escape (resize throws length_error only above max_size), and it returns s exactly
  when the reference lies inside the table, s is the zero-terminated string there with its terminator
  still inside the table, and the host can hold it.
\<close>

theorem resolve_dynamic_string_correct:
  assumes "view_wf view" and "range_wf (string_table_range table)"
    and "\<And>n. n \<le> max_size \<Longrightarrow> alloc n \<noteq> Length_error"
  shows "resolve_dynamic_string max_size alloc table reference view \<noteq> Undefined \<and>
    (\<forall>s. resolve_dynamic_string max_size alloc table reference view = Success s \<longleftrightarrow>
     ref_offset reference < range_size (string_table_range table) \<and>
     c_string_at (read_byte view) (range_base (string_table_range table) + ref_offset reference)
       (unat (range_size (string_table_range table)) - unat (ref_offset reference)) s \<and>
     length s \<le> max_size \<and> alloc (length s) = No_exception)"
  using resolve_dynamic_string_defined [OF assms] by (simp add: resolve_dynamic_string_iff [OF assms(2)])

definition sample_string_table :: DynamicStringTableDescriptor where
  "sample_string_table = \<lparr>string_table_range = \<lparr>range_base = 0x1000, range_size = 5\<rparr>\<rparr>"

theorem resolve_dynamic_string_correct_witness:
  "resolve_dynamic_string (2 ^ 62) (\<lambda>_. No_exception) sample_string_table
     \<lparr>ref_offset = 1, ref_source_entry_index = 0\<rparr> sample_view = Success [13, 14]"
  using resolve_dynamic_string_correct [of sample_view sample_string_table "2 ^ 62" "\<lambda>_. No_exception"
      "\<lparr>ref_offset = 1, ref_source_entry_index = 0\<rparr>", OF sample_view_wf]
  by (simp add: sample_string_table_def range_wf_def c_string_at_def All_less_Suc read_byte_def sample_view_eval
      source_at_def GuestAddress_checked_add_def range_contains_def range_empty_def)

end
