(* ===== verification/Hash_Tables.thy ===== *)
theory Hash_Tables
  imports Dynamic_Metadata
begin

text \<open>
  src/loader/sysv_hash.cpp and src/loader/gnu_hash.cpp: the number of dynamic symbols, read from a
  DT_HASH or a DT_GNU_HASH table through the initialized image view.
\<close>

section \<open>DT_HASH\<close>

abbreviation kDtHash :: int where "kDtHash \<equiv> 4"

datatype SysvHashErrorCode =
    conflicting_dynamic_tag
  | hash_header_range_overflow
  | hash_header_unreadable
  | invalid_symbol_count

record SysvHashError =
  sysv_error_code :: SysvHashErrorCode
  sysv_error_source_entry_index :: "nat option"
  sysv_error_conflicting_entry_index :: "nat option"
  sysv_error_guest_address :: "GuestAddress option"
  sysv_error_image_error :: "InitializedImageError option"

record SysvHashCountEvidence =
  sysv_hash_address :: GuestAddress
  sysv_bucket_count :: u32
  sysv_symbol_count :: u32
  sysv_source_entry_index :: nat

text \<open>hash_error with its defaulted arguments; the others are set by record update.\<close>

definition hash_error :: "SysvHashErrorCode \<Rightarrow> SysvHashError" where
  "hash_error code = \<lparr>sysv_error_code = code, sysv_error_source_entry_index = None,
     sysv_error_conflicting_entry_index = None, sysv_error_guest_address = None, sysv_error_image_error = None\<rparr>"

text \<open>The scan of the entries; the HashLocation it keeps is a singleton value.\<close>

primrec find_sysv_hash ::
  "DynamicEntry list \<Rightarrow> SingletonValue option \<Rightarrow> (SingletonValue option, SysvHashError) Result" where
  "find_sysv_hash [] hash = Success hash"
| "find_sysv_hash (entry # rest) hash =
     (if entry_tag entry \<noteq> kDtHash then find_sysv_hash rest hash
      else case hash of
          None \<Rightarrow> find_sysv_hash rest (Some (singleton_of entry))
        | Some h \<Rightarrow>
            if singleton_value h \<noteq> entry_value entry
            then Failure ((hash_error SysvHashErrorCode.conflicting_dynamic_tag)
                   \<lparr>sysv_error_source_entry_index := Some (entry_index entry),
                    sysv_error_conflicting_entry_index := Some (singleton_source_entry_index h)\<rparr>)
            else find_sysv_hash rest hash)"

definition read_sysv_header ::
  "InitializedImageView \<Rightarrow> SingletonValue \<Rightarrow> (u8 list, SysvHashError) Result" where
  "read_sysv_header image_view hash =
     (let base = singleton_value hash; source = Some (singleton_source_entry_index hash) in
      and_then (GuestRange_create base 8)
        (\<lambda>_. (hash_error hash_header_range_overflow)
           \<lparr>sysv_error_source_entry_index := source, sysv_error_guest_address := Some base\<rparr>)
        (\<lambda>range.
      and_then (copy_bytes image_view range 8)
        (\<lambda>e. (hash_error hash_header_unreadable)
           \<lparr>sysv_error_source_entry_index := source,
            sysv_error_guest_address := Some (case image_error_guest_address e of None \<Rightarrow> base | Some a \<Rightarrow> a),
            sysv_error_image_error := Some e\<rparr>)
        (\<lambda>header. Success header)))"

definition build_sysv_hash_count_evidence ::
  "DynamicTable \<Rightarrow> InitializedImageView \<Rightarrow> (SysvHashCountEvidence option, SysvHashError) Result" where
  "build_sysv_hash_count_evidence table image_view =
     with_value (find_sysv_hash (table_entries table) None) (\<lambda>hash. case hash of
         None \<Rightarrow> Success None
       | Some h \<Rightarrow>
           with_value (read_sysv_header image_view h) (\<lambda>header.
           with_value (read_u32 header 0) (\<lambda>nbucket.
           with_value (read_u32 header 4) (\<lambda>nchain.
             if nchain = 0
             then Failure ((hash_error invalid_symbol_count)
                    \<lparr>sysv_error_source_entry_index := Some (singleton_source_entry_index h),
                     sysv_error_guest_address := Some (singleton_value h)\<rparr>)
             else Success (Some \<lparr>sysv_hash_address = singleton_value h, sysv_bucket_count = nbucket,
                    sysv_symbol_count = nchain, sysv_source_entry_index = singleton_source_entry_index h\<rparr>)))))"

section \<open>DT_GNU_HASH\<close>

abbreviation kDtGnuHash :: int where "kDtGnuHash \<equiv> 0x6ffffef5"
abbreviation kHeaderBytes :: u64 where "kHeaderBytes \<equiv> 16"
abbreviation kBloomWordBytes :: u64 where "kBloomWordBytes \<equiv> 8"
abbreviation kBucketBytes :: u64 where "kBucketBytes \<equiv> 4"
abbreviation kMaxBuckets :: u32 where "kMaxBuckets \<equiv> 65536"
abbreviation kMaxBloomWords :: u32 where "kMaxBloomWords \<equiv> 65536"
abbreviation kMaxSymbols :: "'a :: len word" where "kMaxSymbols \<equiv> 1000000"

datatype GnuHashErrorCode =
    conflicting_dynamic_tag
  | hash_range_overflow
  | hash_data_unreadable
  | invalid_hash_header
  | invalid_bucket
  | symbol_count_limit

record GnuHashError =
  gnu_error_code :: GnuHashErrorCode
  gnu_error_source_entry_index :: "nat option"
  gnu_error_conflicting_entry_index :: "nat option"
  gnu_error_guest_address :: "GuestAddress option"
  gnu_error_image_error :: "InitializedImageError option"

record GnuHashCountEvidence =
  gnu_hash_address :: GuestAddress
  gnu_bucket_count :: u32
  gnu_first_hashed_symbol :: u32
  gnu_symbol_count :: u64
  gnu_source_entry_index :: nat

definition gnu_error :: "GnuHashErrorCode \<Rightarrow> nat option \<Rightarrow> nat option \<Rightarrow> GuestAddress option \<Rightarrow>
    InitializedImageError option \<Rightarrow> GnuHashError" where
  "gnu_error code source conflict address image_err =
     \<lparr>gnu_error_code = code, gnu_error_source_entry_index = source, gnu_error_conflicting_entry_index = conflict,
      gnu_error_guest_address = address, gnu_error_image_error = image_err\<rparr>"

text \<open>The 32-bit accumulation loop at the end of read_word.\<close>

primrec word_loop :: "u8 list \<Rightarrow> nat list \<Rightarrow> u32 \<Rightarrow> (u32, GnuHashError) Result" where
  "word_loop bytes [] acc = Success acc"
| "word_loop bytes (i # is) acc =
     with_value (span_at bytes (of_nat i)) (\<lambda>byte.
       word_loop bytes is (acc OR push_bit (8 * i) (ucast byte)))"

definition read_word ::
  "InitializedImageView \<Rightarrow> SingletonValue \<Rightarrow> u64 \<Rightarrow> (u32, GnuHashError) Result" where
  "read_word view location offset =
     (let base = singleton_value location; source = Some (singleton_source_entry_index location) in
      and_then (GuestAddress_checked_add base offset)
        (\<lambda>_. gnu_error hash_range_overflow source None (Some base) None) (\<lambda>address.
      and_then (GuestRange_create address kBucketBytes)
        (\<lambda>_. gnu_error hash_range_overflow source None (Some address) None) (\<lambda>range.
      and_then (copy_bytes view range 4)
        (\<lambda>e. gnu_error hash_data_unreadable source None
           (Some (case image_error_guest_address e of None \<Rightarrow> address | Some a \<Rightarrow> a)) (Some e)) (\<lambda>bytes.
      word_loop bytes [0..<length bytes] 0))))"

definition power_of_two :: "u32 \<Rightarrow> bool" where
  "power_of_two v \<longleftrightarrow> v \<noteq> 0 \<and> v AND (v - 1) = 0"

primrec find_gnu_hash ::
  "DynamicEntry list \<Rightarrow> SingletonValue option \<Rightarrow> (SingletonValue option, GnuHashError) Result" where
  "find_gnu_hash [] location = Success location"
| "find_gnu_hash (entry # rest) location =
     (if entry_tag entry \<noteq> kDtGnuHash then find_gnu_hash rest location
      else case location of
          None \<Rightarrow> find_gnu_hash rest (Some (singleton_of entry))
        | Some l \<Rightarrow>
            if singleton_value l \<noteq> entry_value entry
            then Failure (gnu_error GnuHashErrorCode.conflicting_dynamic_tag (Some (entry_index entry))
                   (Some (singleton_source_entry_index l)) None None)
            else find_gnu_hash rest location)"

text \<open>The bucket loop: every bucket is read and checked, and the highest one kept.\<close>

primrec bucket_loop ::
  "(u64 \<Rightarrow> (u32, GnuHashError) Result) \<Rightarrow> SingletonValue \<Rightarrow> u64 \<Rightarrow> u32 \<Rightarrow> nat list \<Rightarrow> u32 \<Rightarrow>
     (u32, GnuHashError) Result" where
  "bucket_loop word location buckets_offset symoffset [] highest_bucket = Success highest_bucket"
| "bucket_loop word location buckets_offset symoffset (i # is) highest_bucket =
     with_value (word (buckets_offset + kBucketBytes * of_nat i)) (\<lambda>bucket.
       if bucket \<noteq> 0 \<and> (bucket < symoffset \<or> bucket \<ge> kMaxSymbols)
       then Failure (gnu_error invalid_bucket (Some (singleton_source_entry_index location)) None
              (Some (singleton_value location)) None)
       else bucket_loop word location buckets_offset symoffset is (max highest_bucket bucket))"

text \<open>The chain loop: it ends at the first odd chain word or at the symbol limit.\<close>

function chain_loop ::
  "(u64 \<Rightarrow> (u32, GnuHashError) Result) \<Rightarrow> SingletonValue \<Rightarrow> u64 \<Rightarrow> u32 \<Rightarrow> u64 \<Rightarrow> (u64, GnuHashError) Result" where
  "chain_loop word location chains_offset symoffset index =
     (if index \<ge> kMaxSymbols
      then Failure (gnu_error symbol_count_limit (Some (singleton_source_entry_index location)) None
             (Some (singleton_value location)) None)
      else with_value (word (chains_offset + kBucketBytes * (index - ucast symoffset))) (\<lambda>chain.
        if chain AND 1 \<noteq> 0 then Success (index + 1)
        else chain_loop word location chains_offset symoffset (index + 1)))"
  by pat_completeness auto
termination
proof (relation "measure (\<lambda>(_, _, _, _, index). 1000000 - unat index)")
  fix location chains_offset symoffset and index :: u64
  assume "\<not> kMaxSymbols \<le> index"
  then have "unat index < 1000000" by (simp add: word_le_nat_alt not_le)
  then show "((word, location, chains_offset, symoffset, index + 1), word, location, chains_offset, symoffset, index)
      \<in> measure (\<lambda>(_, _, _, _, index). 1000000 - unat index)" for word
    by (simp add: unat_add_no_wrap)
qed simp

declare chain_loop.simps [simp del]

definition gnu_symbol_bound ::
  "InitializedImageView \<Rightarrow> SingletonValue \<Rightarrow> u32 \<Rightarrow> u32 \<Rightarrow> u32 \<Rightarrow> (u64, GnuHashError) Result" where
  "gnu_symbol_bound view location nbuckets symoffset bloom_words =
     (let buckets_offset = kHeaderBytes + kBloomWordBytes * ucast bloom_words;
          chains_offset = buckets_offset + kBucketBytes * ucast nbuckets in
      with_value (bucket_loop (read_word view location) location buckets_offset symoffset [0..<unat nbuckets] 0)
        (\<lambda>highest_bucket.
          if highest_bucket \<noteq> 0
          then chain_loop (read_word view location) location chains_offset symoffset (ucast highest_bucket)
          else Success (ucast symoffset)))"

text \<open>
  The four header words are read before the first failure is reported; the reads have no effects, so
  reporting the first failing one is the same.
\<close>

definition build_gnu_hash_count_evidence ::
  "DynamicTable \<Rightarrow> InitializedImageView \<Rightarrow> (GnuHashCountEvidence option, GnuHashError) Result" where
  "build_gnu_hash_count_evidence table view =
     with_value (find_gnu_hash (table_entries table) None) (\<lambda>location. case location of
         None \<Rightarrow> Success None
       | Some l \<Rightarrow>
           with_value (read_word view l 0) (\<lambda>nbuckets.
           with_value (read_word view l 4) (\<lambda>symoffset.
           with_value (read_word view l 8) (\<lambda>bloom_words.
           with_value (read_word view l 12) (\<lambda>bloom_shift.
             if nbuckets = 0 \<or> nbuckets > kMaxBuckets \<or> \<not> power_of_two bloom_words \<or>
                bloom_words > kMaxBloomWords \<or> symoffset = 0 \<or> symoffset > kMaxSymbols
             then Failure (gnu_error invalid_hash_header (Some (singleton_source_entry_index l)) None
                    (Some (singleton_value l)) None)
             else with_value (gnu_symbol_bound view l nbuckets symoffset bloom_words) (\<lambda>count.
               Success (Some \<lparr>gnu_hash_address = singleton_value l, gnu_bucket_count = nbuckets,
                 gnu_first_hashed_symbol = symoffset, gnu_symbol_count = count,
                 gnu_source_entry_index = singleton_source_entry_index l\<rparr>)))))))"

section \<open>The scans\<close>

definition sysv_merge :: "SingletonValue option \<Rightarrow> DynamicEntry \<Rightarrow> (SingletonValue, SysvHashError) Result" where
  "sysv_merge hash entry = (case hash of None \<Rightarrow> Success (singleton_of entry)
     | Some h \<Rightarrow> if singleton_value h \<noteq> entry_value entry
         then Failure ((hash_error SysvHashErrorCode.conflicting_dynamic_tag)
                \<lparr>sysv_error_source_entry_index := Some (entry_index entry),
                 sysv_error_conflicting_entry_index := Some (singleton_source_entry_index h)\<rparr>)
         else Success h)"

definition gnu_merge :: "SingletonValue option \<Rightarrow> DynamicEntry \<Rightarrow> (SingletonValue, GnuHashError) Result" where
  "gnu_merge location entry = (case location of None \<Rightarrow> Success (singleton_of entry)
     | Some l \<Rightarrow> if singleton_value l \<noteq> entry_value entry
         then Failure (gnu_error GnuHashErrorCode.conflicting_dynamic_tag (Some (entry_index entry))
                (Some (singleton_source_entry_index l)) None None)
         else Success l)"

interpretation sysv_merge: singleton_merge sysv_merge
  by unfold_locales (auto simp: sysv_merge_def)

interpretation gnu_merge: singleton_merge gnu_merge
  by unfold_locales (auto simp: gnu_merge_def)

lemma find_sysv_hash_step:
  "find_sysv_hash (e # es) h =
     (if entry_tag e \<noteq> kDtHash then find_sysv_hash es h
      else with_value (sysv_merge h e) (\<lambda>s. find_sysv_hash es (Some s)))"
  by (simp add: sysv_merge_def split: option.split)

lemma find_gnu_hash_step:
  "find_gnu_hash (e # es) h =
     (if entry_tag e \<noteq> kDtGnuHash then find_gnu_hash es h
      else with_value (gnu_merge h e) (\<lambda>s. find_gnu_hash es (Some s)))"
  by (simp add: gnu_merge_def split: option.split)

lemmas find_sysv_hash_Success =
  sysv_merge.single_tag_scan_Success [of find_sysv_hash, OF find_sysv_hash.simps(1) find_sysv_hash_step]
lemmas find_sysv_hash_defined =
  sysv_merge.single_tag_scan_defined [of find_sysv_hash, OF find_sysv_hash.simps(1) find_sysv_hash_step]
lemmas find_gnu_hash_Success =
  gnu_merge.single_tag_scan_Success [of find_gnu_hash, OF find_gnu_hash.simps(1) find_gnu_hash_step]
lemmas find_gnu_hash_defined =
  gnu_merge.single_tag_scan_defined [of find_gnu_hash, OF find_gnu_hash.simps(1) find_gnu_hash_step]

section \<open>Symbol count of a DT_HASH table\<close>

lemma read_sysv_header_Success:
  "view_wf view \<Longrightarrow> read_sysv_header view h = Success bs \<longleftrightarrow> guest_bytes (read_byte view) (singleton_value h) 8 bs"
  by (simp add: read_sysv_header_def Let_def view_ranges.create_copy_Success)

lemma read_sysv_header_defined: "view_wf view \<Longrightarrow> read_sysv_header view h \<noteq> Undefined"
  by (simp add: read_sysv_header_def Let_def view_ranges.create_copy_Undefined)

definition sysv_evidence :: "SingletonValue \<Rightarrow> u8 list \<Rightarrow> SysvHashCountEvidence" where
  "sysv_evidence h header =
     \<lparr>sysv_hash_address = singleton_value h, sysv_bucket_count = of_nat (field_nat header 0 4),
      sysv_symbol_count = of_nat (field_nat header 4 4), sysv_source_entry_index = singleton_source_entry_index h\<rparr>"

lemma sysv_words:
  assumes "guest_bytes rd a 8 header"
  shows "read_u32 header 0 = Success (of_nat (field_nat header 0 4))"
    and "read_u32 header 4 = Success (of_nat (field_nat header 4 4))"
  using guest_bytes_length [OF assms] by (simp_all add: read_u32_ok)

lemma build_sysv_hash_iff:
  assumes "view_wf view"
  shows "build_sysv_hash_count_evidence table view = Success ev \<longleftrightarrow>
     tags_consistent (table_entries table) [kDtHash] \<and>
     (case slot_of (table_entries table) kDtHash of None \<Rightarrow> ev = None
      | Some h \<Rightarrow> (\<exists>header. guest_bytes (read_byte view) (singleton_value h) 8 header \<and>
          sysv_symbol_count (sysv_evidence h header) \<noteq> 0 \<and> ev = Some (sysv_evidence h header)))"
  using assms
  by (auto simp: build_sysv_hash_count_evidence_def and_then_Success find_sysv_hash_Success
      read_sysv_header_Success sysv_evidence_def sysv_words split: option.split cong: conj_cong)

lemma build_sysv_hash_defined:
  assumes "view_wf view"
  shows "build_sysv_hash_count_evidence table view \<noteq> Undefined"
  using assms
  by (auto simp: build_sysv_hash_count_evidence_def and_then_Undefined find_sysv_hash_defined
      read_sysv_header_defined read_sysv_header_Success sysv_words split: option.splits)

section \<open>Symbol count of a DT_GNU_HASH table\<close>

lemma word_loop_ok:
  assumes "length bs = n" and "n < 2 ^ 64" and "m \<le> n"
  shows "word_loop bs [m..<n] (of_nat (le_nat (take m bs))) = Success (of_nat (le_nat bs))"
  using assms(3)
proof (induction "n - m" arbitrary: m)
  case 0
  then show ?case using assms(1) by simp
next
  case (Suc d)
  then have "m < n" "d = n - Suc m" by linarith+
  have "length (take m bs) = m" using \<open>m < n\<close> assms(1) by simp
  then have "(of_nat (le_nat (take m bs)) :: u32) OR push_bit (8 * m) (ucast (bs ! m))
      = of_nat (le_nat (take (Suc m) bs))"
    using read_le_loop_step [of "take m bs" m "bs ! m", where ?'a = 32] \<open>m < n\<close> assms(1)
    by (simp add: take_Suc_conv_app_nth mult.commute)
  moreover have "unat (of_nat m :: u64) = m" using \<open>m < n\<close> assms(2) by (simp add: unat_of_nat)
  ultimately show ?case
    using \<open>m < n\<close> assms(1) Suc.hyps(1) [of "Suc m"] \<open>d = n - Suc m\<close> by (simp add: upt_conv_Cons)
qed

lemma word_bytes: "guest_bytes rd a 4 bs \<Longrightarrow> word_loop bs [0..<length bs] 0 = Success (of_nat (le_nat bs))"
  using word_loop_ok [of bs 4 0] by (simp add: guest_bytes_def)

lemma read_word_Success:
  assumes "view_wf view"
  shows "read_word view l off = Success w \<longleftrightarrow>
     unat (singleton_value l) + unat off < 2 ^ 64 \<and>
     (\<exists>bs. guest_bytes (read_byte view) (singleton_value l + off) 4 bs \<and> w = of_nat (le_nat bs))"
  using assms
  by (auto simp: read_word_def Let_def and_then_Success [of "GuestAddress_checked_add _ _"]
      GuestAddress_checked_add_Success view_ranges.create_copy_Success [of view 4 4] word_bytes
      cong: conj_cong)

lemma read_word_defined: "view_wf view \<Longrightarrow> read_word view l off \<noteq> Undefined"
  by (auto simp: read_word_def Let_def and_then_Undefined [of "GuestAddress_checked_add _ _"]
      view_ranges.create_copy_Undefined [of view 4 4] dest!: word_bytes)

definition bucket_ok :: "u32 \<Rightarrow> u32 \<Rightarrow> bool" where
  "bucket_ok symoffset bucket \<longleftrightarrow> bucket = 0 \<or> symoffset \<le> bucket \<and> bucket < kMaxSymbols"

lemma bucket_ok_iff: "\<not> (b \<noteq> 0 \<and> (b < symoffset \<or> kMaxSymbols \<le> b)) \<longleftrightarrow> bucket_ok symoffset b"
  by (metis bucket_ok_def not_le)

lemma bucket_loop_Success:
  "bucket_loop word l off symoffset is h = Success r \<longleftrightarrow>
     (\<exists>bs. list_all2 (\<lambda>i b. word (off + 4 * of_nat i) = Success b \<and> bucket_ok symoffset b) is bs \<and>
        r = fold max bs h)"
proof (induction "is" arbitrary: h)
  case (Cons i "is")
  have step: "bucket_loop word l off symoffset (i # is) h = Success r \<longleftrightarrow>
      (\<exists>b. word (off + 4 * of_nat i) = Success b \<and> bucket_ok symoffset b \<and>
         bucket_loop word l off symoffset is (max h b) = Success r)"
    unfolding bucket_loop.simps and_then_Success if_Failure_Success bucket_ok_iff by (rule refl)
  have cons: "(\<exists>bs. list_all2 P (i # is) bs \<and> r = fold max bs h) \<longleftrightarrow>
      (\<exists>b bs. P i b \<and> list_all2 P is bs \<and> r = fold max bs (max h b))" for P
    unfolding list_all2_Cons1 by (force simp: max.commute)
  show ?case unfolding step Cons.IH cons by blast
qed auto

lemma bucket_loop_defined:
  "(\<And>off. word off \<noteq> Undefined) \<Longrightarrow> bucket_loop word l off symoffset is h \<noteq> Undefined"
  by (induction "is" arbitrary: h) (auto simp: result_simps)

text \<open>\<open>chain_end\<close>: the chain that starts at symbol m ends at symbol k, below the limit.\<close>

definition chain_end :: "(u64 \<Rightarrow> (u32, 'e) Result) \<Rightarrow> u64 \<Rightarrow> u32 \<Rightarrow> nat \<Rightarrow> nat \<Rightarrow> bool" where
  "chain_end word off symoffset m k \<longleftrightarrow>
     m \<le> k \<and> k < 1000000 \<and>
     (\<forall>j. m \<le> j \<and> j < k \<longrightarrow> (\<exists>c. word (off + 4 * (of_nat j - ucast symoffset)) = Success c \<and> even (unat c))) \<and>
     (\<exists>c. word (off + 4 * (of_nat k - ucast symoffset)) = Success c \<and> odd (unat c))"

lemma and_one_iff: "(c :: u32) AND 1 \<noteq> 0 \<longleftrightarrow> odd (unat c)"
proof -
  have "odd (unat c) \<longleftrightarrow> bit c 0" by (simp only: bit_0 [symmetric] bit_unsigned_iff) simp
  then show ?thesis by (simp add: and_one_eq bit_0 odd_iff_mod_2_eq_one)
qed

lemma chain_loop_Success:
  assumes "m \<le> 1000000"
  shows "chain_loop word l off symoffset (of_nat m) = Success r \<longleftrightarrow>
     (\<exists>k. chain_end word off symoffset m k \<and> r = of_nat (Suc k))"
  using assms
proof (induction "1000000 - m" arbitrary: m)
  case 0
  then have "m = 1000000" by simp
  then show ?case by (subst chain_loop.simps) (simp add: chain_end_def)
next
  case (Suc d)
  then have m: "m < 1000000" "d = 1000000 - Suc m" by linarith+
  then have "unat (of_nat m :: u64) = m" by (simp add: unat_of_nat)
  with m have lt: "\<not> kMaxSymbols \<le> (of_nat m :: u64)" by (simp add: word_le_nat_alt)
  let ?w = "\<lambda>j. word (off + 4 * (of_nat j - ucast symoffset))"
  have "chain_loop word l off symoffset (of_nat m) = Success r \<longleftrightarrow>
      (\<exists>c. ?w m = Success c \<and> (if odd (unat c) then r = of_nat (Suc m)
         else chain_loop word l off symoffset (of_nat (Suc m)) = Success r))"
    by (subst chain_loop.simps) (use lt in \<open>auto simp: result_simps and_one_iff add.commute\<close>)
  also have "\<dots> \<longleftrightarrow> (\<exists>k. chain_end word off symoffset m k \<and> r = of_nat (Suc k))"
  proof (cases "?w m")
    case (Success c)
    have split: "chain_end word off symoffset m k \<longleftrightarrow>
        (if odd (unat c) then k = m else chain_end word off symoffset (Suc m) k)" for k
      using m(1) Success by (cases "m < k") (auto simp: chain_end_def all_from_Suc Suc_le_eq)
    show ?thesis using Success Suc.hyps(1) [OF m(2)] m(1) by (auto simp: split)
  qed (auto simp: chain_end_def le_less)
  finally show ?case .
qed

text \<open>The symbol bound of a table, over its words.\<close>

definition gnu_bound_spec :: "(u64 \<Rightarrow> (u32, 'e) Result) \<Rightarrow> u32 \<Rightarrow> u32 \<Rightarrow> u32 \<Rightarrow> u64 \<Rightarrow> bool" where
  "gnu_bound_spec word nbuckets symoffset bloom_words bound \<longleftrightarrow>
     (let buckets = 16 + 8 * ucast bloom_words; chains = buckets + 4 * ucast nbuckets in
      \<exists>bs. list_all2 (\<lambda>i b. word (buckets + 4 * of_nat i) = Success b \<and> bucket_ok symoffset b) [0..<unat nbuckets] bs \<and>
        (if Max (insert 0 (set bs)) = 0 then bound = ucast symoffset
         else \<exists>k. chain_end word chains symoffset (unat (Max (insert 0 (set bs)))) k \<and> bound = of_nat (Suc k)))"

lemma fold_max_Max: "fold max bs (0 :: u32) = Max (insert 0 (set bs))"
  using Max.set_eq_fold [of 0 bs] by simp

lemma max_bucket_ok:
  assumes "\<forall>b \<in> set bs. bucket_ok symoffset b"
  shows "bucket_ok symoffset (Max (insert 0 (set bs)))"
proof -
  have "Max (insert 0 (set bs)) \<in> insert 0 (set bs)" by (rule Max_in) auto
  with assms show ?thesis by (auto simp: bucket_ok_def)
qed

lemma gnu_symbol_bound_Success:
  "gnu_symbol_bound view l nbuckets symoffset bloom_words = Success bound \<longleftrightarrow>
     gnu_bound_spec (read_word view l) nbuckets symoffset bloom_words bound"
proof -
  let ?W = "read_word view l" and ?B = "16 + 8 * ucast bloom_words :: u64"
  let ?C = "?B + 4 * ucast nbuckets"
  let ?L = "list_all2 (\<lambda>i b. ?W (?B + 4 * of_nat i) = Success b \<and> bucket_ok symoffset b) [0..<unat nbuckets]"
  let ?M = "\<lambda>bs. Max (insert 0 (set bs))"
  have chain: "chain_loop ?W l ?C symoffset (ucast (?M bs)) = Success bound \<longleftrightarrow>
      (\<exists>k. chain_end ?W ?C symoffset (unat (?M bs)) k \<and> bound = of_nat (Suc k))" if "?L bs" for bs
  proof -
    have "\<forall>b \<in> set bs. bucket_ok symoffset b"
      using that by (auto simp: list_all2_conv_all_nth in_set_conv_nth)
    then have "unat (?M bs) \<le> 1000000"
      using max_bucket_ok [of bs symoffset] by (auto simp: bucket_ok_def word_less_nat_alt)
    then show ?thesis using chain_loop_Success [of "unat (?M bs)"] by simp
  qed
  have "gnu_symbol_bound view l nbuckets symoffset bloom_words = Success bound \<longleftrightarrow>
      (\<exists>bs. ?L bs \<and> (if ?M bs = 0 then bound = ucast symoffset
         else chain_loop ?W l ?C symoffset (ucast (?M bs)) = Success bound))"
    unfolding gnu_symbol_bound_def Let_def and_then_Success bucket_loop_Success fold_max_Max [symmetric]
    by auto
  also have "\<dots> \<longleftrightarrow> gnu_bound_spec ?W nbuckets symoffset bloom_words bound"
    unfolding gnu_bound_spec_def Let_def
    by (rule arg_cong [of _ _ Ex], rule ext) (use chain in meson)
  finally show ?thesis .
qed

lemma chain_loop_defined:
  "(\<And>off. word off \<noteq> Undefined) \<Longrightarrow> chain_loop word l off symoffset index \<noteq> Undefined"
  by (induction word l off symoffset index rule: chain_loop.induct)
    (subst chain_loop.simps, auto simp: and_then_Undefined)

lemma gnu_symbol_bound_defined:
  "view_wf view \<Longrightarrow> gnu_symbol_bound view l nbuckets symoffset bloom_words \<noteq> Undefined"
  by (simp add: gnu_symbol_bound_def Let_def and_then_Undefined bucket_loop_defined chain_loop_defined
      read_word_defined)

text \<open>The bound of a table is positive, at most a million and above every bucket.\<close>

lemma gnu_bound_spec_bounds:
  assumes "gnu_bound_spec word nbuckets symoffset bloom_words bound" and "symoffset \<noteq> 0" and "symoffset \<le> kMaxSymbols"
  shows "unat symoffset \<le> unat bound \<and> unat bound \<le> 1000000 \<and> bound \<noteq> 0"
proof -
  let ?B = "16 + 8 * ucast bloom_words :: u64"
  obtain bs where all: "list_all2 (\<lambda>i b. word (?B + 4 * of_nat i) = Success b \<and> bucket_ok symoffset b)
      [0..<unat nbuckets] bs"
    and bound: "if Max (insert 0 (set bs)) = 0 then bound = ucast symoffset
      else \<exists>k. chain_end word (?B + 4 * ucast nbuckets) symoffset (unat (Max (insert 0 (set bs)))) k \<and>
        bound = of_nat (Suc k)"
    using assms(1) unfolding gnu_bound_spec_def Let_def by blast
  then have bs: "\<forall>b \<in> set bs. bucket_ok symoffset b"
    by (auto simp: list_all2_conv_all_nth in_set_conv_nth)
  show ?thesis
  proof (cases "Max (insert 0 (set bs)) = 0")
    case True
    then have "unat bound = unat symoffset" using bound by (simp add: unat_ucast_up)
    with assms(2,3) show ?thesis by (auto simp: word_le_nat_alt unat_eq_0)
  next
    case False
    then obtain k where k: "unat (Max (insert 0 (set bs))) \<le> k" "k < 1000000" "bound = of_nat (Suc k)"
      using bound by (auto simp: chain_end_def)
    moreover have "unat symoffset \<le> unat (Max (insert 0 (set bs)))"
      using False max_bucket_ok [OF bs] by (simp add: bucket_ok_def word_le_nat_alt)
    ultimately have "unat bound = Suc k" "unat symoffset \<le> k"
      by (simp_all add: unat_of_nat del: of_nat_Suc)
    with k show ?thesis by auto
  qed
qed

definition gnu_header_ok :: "u32 \<Rightarrow> u32 \<Rightarrow> u32 \<Rightarrow> bool" where
  "gnu_header_ok nbuckets symoffset bloom_words \<longleftrightarrow>
     nbuckets \<noteq> 0 \<and> nbuckets \<le> kMaxBuckets \<and> (\<exists>k. unat bloom_words = 2 ^ k) \<and> bloom_words \<le> kMaxBloomWords \<and>
     symoffset \<noteq> 0 \<and> symoffset \<le> kMaxSymbols"

lemma power_of_two_iff: "power_of_two v \<longleftrightarrow> (\<exists>k. unat v = 2 ^ k)"
proof -
  have "is_power_of_two (ucast v) \<longleftrightarrow> power_of_two v"
  proof (cases "v = 0")
    case False
    then have "0 < unat v" by (simp add: unat_gt_0)
    moreover from this have "unat (v AND (v - 1)) = (unat v AND (unat v - 1))"
      "unat (ucast v AND (ucast v - 1) :: u64) = (unat v AND (unat v - 1))"
      by (simp_all add: unsigned_and_eq unat_minus_one unat_ucast_up word_unat_eq_iff)
    ultimately show ?thesis
      by (simp only: is_power_of_two_def power_of_two_def word_unat_eq_iff) (simp add: unat_ucast_up)
  qed (simp add: is_power_of_two_def power_of_two_def)
  then show ?thesis using is_power_of_two_iff [of "ucast v"] by (simp add: unat_ucast_up)
qed

text \<open>What the evidence of a table with a DT_GNU_HASH tag at l says.\<close>

definition gnu_evidence_spec :: "InitializedImageView \<Rightarrow> SingletonValue \<Rightarrow> GnuHashCountEvidence \<Rightarrow> bool" where
  "gnu_evidence_spec view l ev \<longleftrightarrow>
     gnu_hash_address ev = singleton_value l \<and> gnu_source_entry_index ev = singleton_source_entry_index l \<and>
     read_word view l 0 = Success (gnu_bucket_count ev) \<and>
     read_word view l 4 = Success (gnu_first_hashed_symbol ev) \<and>
     has_value (read_word view l 12) \<and>
     (\<exists>bloom_words. read_word view l 8 = Success bloom_words \<and>
        gnu_header_ok (gnu_bucket_count ev) (gnu_first_hashed_symbol ev) bloom_words \<and>
        gnu_bound_spec (read_word view l) (gnu_bucket_count ev) (gnu_first_hashed_symbol ev) bloom_words
          (gnu_symbol_count ev))"

lemma gnu_header_guard:
  "nb = 0 \<or> nb > kMaxBuckets \<or> \<not> power_of_two bw \<or> bw > kMaxBloomWords \<or> so = 0 \<or> so > kMaxSymbols \<longleftrightarrow>
     \<not> gnu_header_ok nb so bw"
  unfolding gnu_header_ok_def power_of_two_iff [symmetric] by (meson not_le)

lemma build_gnu_hash_iff:
  "build_gnu_hash_count_evidence table view = Success evo \<longleftrightarrow>
     tags_consistent (table_entries table) [kDtGnuHash] \<and>
     (case slot_of (table_entries table) kDtGnuHash of None \<Rightarrow> evo = None
      | Some l \<Rightarrow> (\<exists>ev. evo = Some ev \<and> gnu_evidence_spec view l ev))"
proof (cases "slot_of (table_entries table) kDtGnuHash")
  case None
  then show ?thesis
    by (auto simp: build_gnu_hash_count_evidence_def and_then_Success find_gnu_hash_Success)
next
  case (Some l)
  have "build_gnu_hash_count_evidence table view = Success evo \<longleftrightarrow>
      tags_consistent (table_entries table) [kDtGnuHash] \<and>
      (\<exists>nb so bw bs bound. read_word view l 0 = Success nb \<and> read_word view l 4 = Success so \<and>
        read_word view l 8 = Success bw \<and> read_word view l 12 = Success bs \<and> gnu_header_ok nb so bw \<and>
        gnu_bound_spec (read_word view l) nb so bw bound \<and>
        evo = Some \<lparr>gnu_hash_address = singleton_value l, gnu_bucket_count = nb, gnu_first_hashed_symbol = so,
           gnu_symbol_count = bound, gnu_source_entry_index = singleton_source_entry_index l\<rparr>)"
    unfolding build_gnu_hash_count_evidence_def gnu_header_guard
    using Some by (auto simp: and_then_Success find_gnu_hash_Success gnu_symbol_bound_Success)
  also have "\<dots> \<longleftrightarrow> tags_consistent (table_entries table) [kDtGnuHash] \<and>
      (\<exists>ev. evo = Some ev \<and> gnu_evidence_spec view l ev)"
    unfolding gnu_evidence_spec_def has_value_iff
    by (rule arg_cong2 [of _ _ _ _ "(\<and>)"], rule refl, rule iffI)
      (force, clarsimp, metis GnuHashCountEvidence.surjective old.unit.exhaust)
  finally show ?thesis using Some by simp
qed

lemma build_gnu_hash_defined:
  "view_wf view \<Longrightarrow> build_gnu_hash_count_evidence table view \<noteq> Undefined"
  unfolding build_gnu_hash_count_evidence_def gnu_header_guard
  by (auto simp: and_then_Undefined find_gnu_hash_defined read_word_defined gnu_symbol_bound_defined
      split: option.splits if_splits)

lemma gnu_evidence_bounds:
  "gnu_evidence_spec view l ev \<Longrightarrow>
     unat (gnu_first_hashed_symbol ev) \<le> unat (gnu_symbol_count ev) \<and> unat (gnu_symbol_count ev) \<le> 1000000 \<and>
     gnu_symbol_count ev \<noteq> 0"
  by (auto simp: gnu_evidence_spec_def gnu_header_ok_def dest!: gnu_bound_spec_bounds)

section \<open>Properties\<close>

text \<open>
  The DT_HASH evidence: absent exactly when no entry has the tag; otherwise it needs all DT_HASH
  entries to agree, the eight header bytes to be readable and a non-zero chain count, which it reports
  as the symbol count.
\<close>

theorem build_sysv_hash_count_evidence_correct:
  assumes "view_wf view"
  shows "build_sysv_hash_count_evidence table view \<noteq> Undefined \<and>
    (build_sysv_hash_count_evidence table view = Success ev \<longleftrightarrow>
     tags_consistent (table_entries table) [kDtHash] \<and>
     (case slot_of (table_entries table) kDtHash of None \<Rightarrow> ev = None
      | Some h \<Rightarrow> (\<exists>header. guest_bytes (read_byte view) (singleton_value h) 8 header \<and>
          sysv_symbol_count (sysv_evidence h header) \<noteq> 0 \<and> ev = Some (sysv_evidence h header))))"
  by (simp only: build_sysv_hash_iff [OF assms] build_sysv_hash_defined [OF assms] simp_thms)

definition sample_hash_view :: InitializedImageView where
  "sample_hash_view = \<lparr>view_image_bytes = [1, 0, 0, 0, 7, 0, 0, 0],
     view_intents = load_intents \<lparr>ph_type = 1, ph_flags = 4, ph_offset = 0, ph_virtual_address = 0x2000,
       ph_physical_address = 0, ph_file_size = 8, ph_memory_size = 8, ph_alignment = 0, ph_index = 0\<rparr>\<rparr>"

definition sample_hash_table :: DynamicTable where
  "sample_hash_table = \<lparr>table_entries = [\<lparr>entry_tag = 4, entry_value = 0x2000, entry_index = 0\<rparr>,
     \<lparr>entry_tag = 0, entry_value = 0, entry_index = 1\<rparr>]\<rparr>"

lemma sample_hash_view_wf: "view_wf sample_hash_view"
  by (simp add: view_wf_def sample_hash_view_def load_intents_def file_intent_def zero_intent_def host_object_def
      intent_valid_def)

theorem build_sysv_hash_count_evidence_correct_witness:
  "build_sysv_hash_count_evidence sample_hash_table sample_hash_view =
     Success (Some \<lparr>sysv_hash_address = 0x2000, sysv_bucket_count = 1, sysv_symbol_count = 7,
       sysv_source_entry_index = 0\<rparr>)"
proof -
  let ?h = "\<lparr>singleton_value = 0x2000, singleton_source_entry_index = 0\<rparr>"
  have "guest_bytes (read_byte sample_hash_view) 0x2000 8 [1, 0, 0, 0, 7, 0, 0, 0]"
    by (simp add: guest_bytes_eval upt_rec read_byte_def sample_hash_view_def load_intents_def
        file_intent_def source_at_def GuestAddress_checked_add_def range_contains_def range_empty_def)
  then show ?thesis
    using build_sysv_hash_count_evidence_correct [OF sample_hash_view_wf, of sample_hash_table
        "Some (sysv_evidence ?h [1, 0, 0, 0, 7, 0, 0, 0])"]
    by (auto simp: sample_hash_table_def tags_consistent_def singleton_of_def sysv_evidence_def field_nat_def)
qed

text \<open>
  C5. The DT_GNU_HASH evidence: absent exactly when no entry has the tag; otherwise all such entries
  agree, the header is within its limits, every bucket is empty or a symbol from the first hashed one
  on, and the symbol count is the first hashed symbol when all buckets are empty and otherwise one
  past the first odd chain word at or after the highest bucket. The walk always ends, and the count
  it reports is positive, not below the first hashed symbol and at most one million.
\<close>

theorem build_gnu_hash_count_evidence_correct:
  assumes "view_wf view"
  shows "build_gnu_hash_count_evidence table view \<noteq> Undefined \<and>
    (build_gnu_hash_count_evidence table view = Success evo \<longleftrightarrow>
     tags_consistent (table_entries table) [kDtGnuHash] \<and>
     (case slot_of (table_entries table) kDtGnuHash of None \<Rightarrow> evo = None
      | Some l \<Rightarrow> (\<exists>ev. evo = Some ev \<and> gnu_evidence_spec view l ev))) \<and>
    (\<forall>ev. build_gnu_hash_count_evidence table view = Success (Some ev) \<longrightarrow>
       unat (gnu_first_hashed_symbol ev) \<le> unat (gnu_symbol_count ev) \<and>
       unat (gnu_symbol_count ev) \<le> 1000000 \<and> gnu_symbol_count ev \<noteq> 0)"
  using gnu_evidence_bounds
  by (auto simp: build_gnu_hash_iff build_gnu_hash_defined [OF assms] split: option.splits)

definition sample_gnu_view :: InitializedImageView where
  "sample_gnu_view = \<lparr>view_image_bytes =
      [1, 0, 0, 0, 1, 0, 0, 0, 1, 0, 0, 0, 0, 0, 0, 0, 0, 0, 0, 0, 0, 0, 0, 0, 1, 0, 0, 0, 2, 0, 0, 0, 3, 0, 0, 0],
     view_intents = load_intents \<lparr>ph_type = 1, ph_flags = 4, ph_offset = 0, ph_virtual_address = 0x2000,
       ph_physical_address = 0, ph_file_size = 36, ph_memory_size = 108, ph_alignment = 0, ph_index = 0\<rparr>\<rparr>"

definition sample_gnu_table :: DynamicTable where
  "sample_gnu_table = \<lparr>table_entries = [\<lparr>entry_tag = 0x6ffffef5, entry_value = 0x2000, entry_index = 0\<rparr>]\<rparr>"

lemma sample_gnu_view_wf: "view_wf sample_gnu_view"
  by (simp add: view_wf_def sample_gnu_view_def load_intents_def file_intent_def zero_intent_def host_object_def
      intent_valid_def)

lemma sample_gnu_word:
  "read_word sample_gnu_view \<lparr>singleton_value = 0x2000, singleton_source_entry_index = 0\<rparr> off =
     (if off = 0 \<or> off = 4 \<or> off = 8 then Success 1 else if off = 12 then Success 0
      else if off = 24 then Success 1 else if off = 28 then Success 2 else Success 3)"
  if "off \<in> {0, 4, 8, 12, 24, 28, 32}"
  using that unfolding insert_iff empty_iff
  by (elim disjE; simp add: read_word_def copy_bytes_def read_byte_def sample_gnu_view_def load_intents_def
      file_intent_def zero_intent_def source_at_def GuestAddress_checked_add_def GuestRange_create_def range_contains_def
      range_empty_def upt_rec)

theorem build_gnu_hash_count_evidence_correct_witness:
  "build_gnu_hash_count_evidence sample_gnu_table sample_gnu_view =
     Success (Some \<lparr>gnu_hash_address = 0x2000, gnu_bucket_count = 1, gnu_first_hashed_symbol = 1,
       gnu_symbol_count = 3, gnu_source_entry_index = 0\<rparr>) \<and>
   unat (3 :: u64) \<le> 1000000"
proof -
  have "build_gnu_hash_count_evidence sample_gnu_table sample_gnu_view =
     Success (Some \<lparr>gnu_hash_address = 0x2000, gnu_bucket_count = 1, gnu_first_hashed_symbol = 1,
       gnu_symbol_count = 3, gnu_source_entry_index = 0\<rparr>)"
    by (simp add: build_gnu_hash_count_evidence_def sample_gnu_table_def singleton_of_def sample_gnu_word
        power_of_two_def gnu_symbol_bound_def chain_loop.simps upt_rec word_le_nat_alt)
  then show ?thesis
    using build_gnu_hash_count_evidence_correct [OF sample_gnu_view_wf, of sample_gnu_table] by fastforce
qed

end
