(* ===== verification/Dynamic_Symbols.thy ===== *)
theory Dynamic_Symbols
  imports Hash_Tables
begin

text \<open>
  src/loader/dynamic_symbols.cpp: the dynamic symbol table descriptor, assembled from the dynamic
  tags and up to three sources of the symbol count (DT_SYMTABSZ, DT_HASH, DT_GNU_HASH) that must agree,
  and the reader of one symbol.
\<close>

section \<open>Data\<close>

abbreviation kDtSymtab :: int where "kDtSymtab \<equiv> 6"
abbreviation kDtSyment :: int where "kDtSyment \<equiv> 11"
abbreviation kDtSymtabsz :: int where "kDtSymtabsz \<equiv> 39"
abbreviation kElf64SymbolSize :: u64 where "kElf64SymbolSize \<equiv> 24"

datatype DynamicSymbolErrorCode =
    conflicting_dynamic_tag
  | missing_required_companion_tag
  | invalid_symbol_entry_size
  | invalid_symbol_table_size
  | symbol_count_unavailable
  | conflicting_symbol_count
  | symbol_table_size_overflow
  | symbol_table_range_overflow
  | sysv_hash_failure
  | symbol_index_out_of_bounds
  | symbol_entry_unreadable
  | invalid_undefined_symbol
  | gnu_hash_failure

record DynamicSymbolError =
  symbol_error_code :: DynamicSymbolErrorCode
  symbol_error_tag :: "int option"
  symbol_error_source_entry_index :: "nat option"
  symbol_error_conflicting_entry_index :: "nat option"
  symbol_error_symbol_index :: "u64 option"
  symbol_error_guest_address :: "GuestAddress option"
  symbol_error_sysv_hash_error :: "SysvHashError option"
  symbol_error_image_error :: "InitializedImageError option"
  symbol_error_gnu_hash_error :: "GnuHashError option"

record DynamicSymbolTableDescriptor =
  symbols_range :: GuestRange
  symbols_entry_size :: GuestSize
  symbols_count :: u64
  symbols_count_from_symtabsz :: bool
  symbols_count_from_sysv_hash :: bool
  symbols_symtab_source_entry_index :: nat
  symbols_syment_source_entry_index :: nat
  symbols_symtabsz_source_entry_index :: "nat option"
  symbols_hash_source_entry_index :: "nat option"
  symbols_count_from_gnu_hash :: bool
  symbols_gnu_hash_source_entry_index :: "nat option"

record DynamicSymbol =
  symbol_index :: u64
  symbol_name_offset :: u32
  symbol_info :: u8
  symbol_other :: u8
  symbol_section_index_raw :: u16
  symbol_value :: u64
  symbol_size :: u64

definition symbol_binding :: "DynamicSymbol \<Rightarrow> u8" where
  "symbol_binding s = drop_bit 4 (symbol_info s)"

definition symbol_type :: "DynamicSymbol \<Rightarrow> u8" where
  "symbol_type s = symbol_info s AND 0x0f"

definition symbol_visibility :: "DynamicSymbol \<Rightarrow> u8" where
  "symbol_visibility s = symbol_other s AND 0x07"

definition is_extended_section_index :: "DynamicSymbol \<Rightarrow> bool" where
  "is_extended_section_index s \<longleftrightarrow> symbol_section_index_raw s = 0xffff"

text \<open>symbol_error with its defaulted arguments; the others are set by record update.\<close>

definition symbol_error :: "DynamicSymbolErrorCode \<Rightarrow> DynamicSymbolError" where
  "symbol_error code =
     \<lparr>symbol_error_code = code, symbol_error_tag = None, symbol_error_source_entry_index = None,
      symbol_error_conflicting_entry_index = None, symbol_error_symbol_index = None,
      symbol_error_guest_address = None, symbol_error_sysv_hash_error = None,
      symbol_error_image_error = None, symbol_error_gnu_hash_error = None\<rparr>"

definition symbol_merge_singleton ::
  "SingletonValue option \<Rightarrow> DynamicEntry \<Rightarrow> (SingletonValue, DynamicSymbolError) Result" where
  "symbol_merge_singleton slot entry = (case slot of
       None \<Rightarrow> Success (singleton_of entry)
     | Some s \<Rightarrow>
         if singleton_value s \<noteq> entry_value entry
         then Failure ((symbol_error DynamicSymbolErrorCode.conflicting_dynamic_tag)
                \<lparr>symbol_error_tag := Some (entry_tag entry),
                 symbol_error_source_entry_index := Some (entry_index entry),
                 symbol_error_conflicting_entry_index := Some (singleton_source_entry_index s)\<rparr>)
         else Success s)"

interpretation symbol_merge: singleton_merge symbol_merge_singleton
  by unfold_locales (auto simp: symbol_merge_singleton_def)

section \<open>One symbol\<close>

definition symbol_fields :: "u64 \<Rightarrow> u8 list \<Rightarrow> (DynamicSymbol, DynamicSymbolError) Result" where
  "symbol_fields index bytes =
     with_value (read_u32 bytes 0) (\<lambda>name_offset.
     with_value (span_at bytes 4) (\<lambda>info.
     with_value (span_at bytes 5) (\<lambda>other.
     with_value (read_u16 bytes 6) (\<lambda>section_index_raw.
     with_value (read_u64 bytes 8) (\<lambda>value.
     with_value (read_u64 bytes 16) (\<lambda>sz.
       Success \<lparr>symbol_index = index, symbol_name_offset = name_offset, symbol_info = info, symbol_other = other,
         symbol_section_index_raw = section_index_raw, symbol_value = value, symbol_size = sz\<rparr>))))))"

definition read_symbol ::
  "DynamicSymbolTableDescriptor \<Rightarrow> u64 \<Rightarrow> InitializedImageView \<Rightarrow> bool \<Rightarrow>
     (DynamicSymbol, DynamicSymbolError) Result" where
  "read_symbol descriptor index image_view enforce_bounds =
     (let failed = (\<lambda>code. (symbol_error code)
            \<lparr>symbol_error_source_entry_index := Some (symbols_symtab_source_entry_index descriptor),
             symbol_error_symbol_index := Some index\<rparr>);
          base = range_base (symbols_range descriptor) in
      if enforce_bounds \<and> index \<ge> symbols_count descriptor
      then Failure (failed symbol_index_out_of_bounds)
      else if index > u64_max div kElf64SymbolSize
      then Failure (failed symbol_table_size_overflow)
      else and_then (GuestAddress_checked_add base (index * kElf64SymbolSize))
        (\<lambda>_. (failed symbol_table_range_overflow)\<lparr>symbol_error_guest_address := Some base\<rparr>) (\<lambda>address.
      and_then (GuestRange_create address kElf64SymbolSize)
        (\<lambda>_. (failed symbol_table_range_overflow)\<lparr>symbol_error_guest_address := Some address\<rparr>) (\<lambda>range.
      and_then (copy_bytes image_view range 24)
        (\<lambda>e. (failed symbol_entry_unreadable)
           \<lparr>symbol_error_guest_address := Some (case image_error_guest_address e of None \<Rightarrow> address | Some a \<Rightarrow> a),
            symbol_error_image_error := Some e\<rparr>) (\<lambda>bytes.
      symbol_fields index bytes))))"

definition is_reserved_undefined_symbol :: "DynamicSymbol \<Rightarrow> bool" where
  "is_reserved_undefined_symbol s \<longleftrightarrow>
     symbol_index s = 0 \<and> symbol_name_offset s = 0 \<and> symbol_info s = 0 \<and> symbol_other s = 0 \<and>
     symbol_section_index_raw s = 0 \<and> symbol_value s = 0 \<and> symbol_size s = 0"

definition parse_dynamic_symbol ::
  "DynamicSymbolTableDescriptor \<Rightarrow> u64 \<Rightarrow> InitializedImageView \<Rightarrow> (DynamicSymbol, DynamicSymbolError) Result" where
  "parse_dynamic_symbol descriptor index image_view = read_symbol descriptor index image_view True"

section \<open>The descriptor\<close>

record SymbolTags =
  tags_symtab :: "SingletonValue option"
  tags_syment :: "SingletonValue option"
  tags_symtabsz :: "SingletonValue option"
  tags_has_hash :: bool
  tags_has_gnu_hash :: bool

primrec collect_symbol_tags :: "DynamicEntry list \<Rightarrow> SymbolTags \<Rightarrow> (SymbolTags, DynamicSymbolError) Result" where
  "collect_symbol_tags [] st = Success st"
| "collect_symbol_tags (entry # rest) st =
     (if entry_tag entry = kDtSymtab
      then with_value (symbol_merge_singleton (tags_symtab st) entry) (\<lambda>s.
             collect_symbol_tags rest (st\<lparr>tags_symtab := Some s\<rparr>))
      else if entry_tag entry = kDtSyment
      then with_value (symbol_merge_singleton (tags_syment st) entry) (\<lambda>s.
             collect_symbol_tags rest (st\<lparr>tags_syment := Some s\<rparr>))
      else if entry_tag entry = kDtSymtabsz
      then with_value (symbol_merge_singleton (tags_symtabsz st) entry) (\<lambda>s.
             collect_symbol_tags rest (st\<lparr>tags_symtabsz := Some s\<rparr>))
      else if entry_tag entry = kDtHash then collect_symbol_tags rest (st\<lparr>tags_has_hash := True\<rparr>)
      else if entry_tag entry = kDtGnuHash then collect_symbol_tags rest (st\<lparr>tags_has_gnu_hash := True\<rparr>)
      else collect_symbol_tags rest st)"

definition any_symbol_metadata :: "SymbolTags \<Rightarrow> bool" where
  "any_symbol_metadata st \<longleftrightarrow> tags_symtab st \<noteq> None \<or> tags_syment st \<noteq> None \<or> tags_symtabsz st \<noteq> None \<or>
     tags_has_hash st \<or> tags_has_gnu_hash st"

definition required_symbol_tags ::
  "SymbolTags \<Rightarrow> (SingletonValue \<times> SingletonValue, DynamicSymbolError) Result" where
  "required_symbol_tags st = (case tags_symtab st of
       None \<Rightarrow> Failure ((symbol_error DynamicSymbolErrorCode.missing_required_companion_tag)
                 \<lparr>symbol_error_tag := Some kDtSymtab\<rparr>)
     | Some symtab \<Rightarrow> (case tags_syment st of
           None \<Rightarrow> Failure ((symbol_error DynamicSymbolErrorCode.missing_required_companion_tag)
                     \<lparr>symbol_error_tag := Some kDtSyment,
                      symbol_error_source_entry_index := Some (singleton_source_entry_index symtab)\<rparr>)
         | Some syment \<Rightarrow>
             if singleton_value syment \<noteq> kElf64SymbolSize
             then Failure ((symbol_error invalid_symbol_entry_size)
                    \<lparr>symbol_error_tag := Some kDtSyment,
                     symbol_error_source_entry_index := Some (singleton_source_entry_index syment)\<rparr>)
             else Success (symtab, syment)))"

definition symtabsz_count_of :: "SingletonValue option \<Rightarrow> (u64 option, DynamicSymbolError) Result" where
  "symtabsz_count_of symtabsz = (case symtabsz of
       None \<Rightarrow> Success None
     | Some z \<Rightarrow>
         (let invalid = (symbol_error invalid_symbol_table_size)
                \<lparr>symbol_error_tag := Some kDtSymtabsz,
                 symbol_error_source_entry_index := Some (singleton_source_entry_index z)\<rparr> in
          if singleton_value z = 0 \<or> singleton_value z mod kElf64SymbolSize \<noteq> 0 then Failure invalid
          else if singleton_value z div kElf64SymbolSize = 0 then Failure invalid
          else Success (Some (singleton_value z div kElf64SymbolSize))))"

definition sysv_count ::
  "DynamicTable \<Rightarrow> InitializedImageView \<Rightarrow> (SysvHashCountEvidence option, DynamicSymbolError) Result" where
  "sysv_count table image_view =
     and_then (build_sysv_hash_count_evidence table image_view)
       (\<lambda>e. (symbol_error sysv_hash_failure)
          \<lparr>symbol_error_tag := Some kDtHash,
           symbol_error_source_entry_index := sysv_error_source_entry_index e,
           symbol_error_conflicting_entry_index := sysv_error_conflicting_entry_index e,
           symbol_error_guest_address := sysv_error_guest_address e,
           symbol_error_sysv_hash_error := Some e\<rparr>)
       (\<lambda>sysv. Success sysv)"

definition gnu_count ::
  "DynamicTable \<Rightarrow> InitializedImageView \<Rightarrow> (GnuHashCountEvidence option, DynamicSymbolError) Result" where
  "gnu_count table image_view =
     and_then (build_gnu_hash_count_evidence table image_view)
       (\<lambda>e. (symbol_error gnu_hash_failure)
          \<lparr>symbol_error_tag := Some kDtGnuHash,
           symbol_error_source_entry_index := gnu_error_source_entry_index e,
           symbol_error_conflicting_entry_index := gnu_error_conflicting_entry_index e,
           symbol_error_guest_address := gnu_error_guest_address e,
           symbol_error_gnu_hash_error := Some e\<rparr>)
       (\<lambda>gnu. Success gnu)"

text \<open>The checks that the available counts agree, and the count they agree on.\<close>

definition agreed_symbol_count ::
  "SingletonValue \<Rightarrow> SingletonValue option \<Rightarrow> u64 option \<Rightarrow> SysvHashCountEvidence option \<Rightarrow>
     GnuHashCountEvidence option \<Rightarrow> (u64, DynamicSymbolError) Result" where
  "agreed_symbol_count symtab symtabsz symtabsz_count sysv gnu =
     (let hash_count = map_option (\<lambda>e. ucast (sysv_symbol_count e) :: u64) sysv;
          hash_source_index = map_option sysv_source_entry_index sysv;
          gnu_count = map_option gnu_symbol_count gnu;
          gnu_source = map_option gnu_source_entry_index gnu;
          symtabsz_index = map_option singleton_source_entry_index symtabsz in
      if symtabsz_count = None \<and> hash_count = None \<and> gnu_count = None
      then Failure ((symbol_error symbol_count_unavailable)
             \<lparr>symbol_error_source_entry_index := Some (singleton_source_entry_index symtab)\<rparr>)
      else if symtabsz_count \<noteq> None \<and> hash_count \<noteq> None \<and> symtabsz_count \<noteq> hash_count
      then Failure ((symbol_error conflicting_symbol_count)
             \<lparr>symbol_error_source_entry_index := symtabsz_index,
              symbol_error_conflicting_entry_index := hash_source_index\<rparr>)
      else if gnu_count \<noteq> None \<and> (symtabsz_count \<noteq> None \<and> gnu_count \<noteq> symtabsz_count \<or>
                hash_count \<noteq> None \<and> gnu_count \<noteq> hash_count)
      then Failure ((symbol_error conflicting_symbol_count)
             \<lparr>symbol_error_source_entry_index := gnu_source,
              symbol_error_conflicting_entry_index :=
                (if symtabsz_count \<noteq> None then symtabsz_index else hash_source_index)\<rparr>)
      else (let sz = (case symtabsz_count of Some c \<Rightarrow> c
              | None \<Rightarrow> (case hash_count of Some c \<Rightarrow> c | None \<Rightarrow> the gnu_count)) in
        if sz = 0
        then Failure ((symbol_error invalid_symbol_table_size)
               \<lparr>symbol_error_source_entry_index := Some (singleton_source_entry_index symtab)\<rparr>)
        else if sz > u64_max div kElf64SymbolSize
        then Failure ((symbol_error symbol_table_size_overflow)
               \<lparr>symbol_error_source_entry_index := Some (singleton_source_entry_index symtab)\<rparr>)
        else Success sz))"

definition symbol_descriptor ::
  "SingletonValue \<Rightarrow> SingletonValue \<Rightarrow> SingletonValue option \<Rightarrow> SysvHashCountEvidence option \<Rightarrow>
     GnuHashCountEvidence option \<Rightarrow> u64 \<Rightarrow> GuestRange \<Rightarrow> DynamicSymbolTableDescriptor" where
  "symbol_descriptor symtab syment symtabsz sysv gnu sz table_range =
     \<lparr>symbols_range = table_range, symbols_entry_size = kElf64SymbolSize, symbols_count = sz,
      symbols_count_from_symtabsz = (symtabsz \<noteq> None), symbols_count_from_sysv_hash = (sysv \<noteq> None),
      symbols_symtab_source_entry_index = singleton_source_entry_index symtab,
      symbols_syment_source_entry_index = singleton_source_entry_index syment,
      symbols_symtabsz_source_entry_index = map_option singleton_source_entry_index symtabsz,
      symbols_hash_source_entry_index = map_option sysv_source_entry_index sysv,
      symbols_count_from_gnu_hash = (gnu \<noteq> None),
      symbols_gnu_hash_source_entry_index = map_option gnu_source_entry_index gnu\<rparr>"

definition check_undefined_symbol ::
  "SingletonValue \<Rightarrow> DynamicSymbolTableDescriptor \<Rightarrow> InitializedImageView \<Rightarrow> (unit, DynamicSymbolError) Result" where
  "check_undefined_symbol symtab descriptor image_view =
     with_value (read_symbol descriptor 0 image_view False) (\<lambda>zero.
       if \<not> is_reserved_undefined_symbol zero
       then Failure ((symbol_error invalid_undefined_symbol)
              \<lparr>symbol_error_source_entry_index := Some (singleton_source_entry_index symtab),
               symbol_error_symbol_index := Some 0,
               symbol_error_guest_address := Some (range_base (symbols_range descriptor))\<rparr>)
       else Success ())"

text \<open>
  The chunked read of the whole table when its size comes from a GNU hash: the loop reads up to 4096
  bytes at a time into a buffer it does not use otherwise.
\<close>

definition read_chunk ::
  "InitializedImageView \<Rightarrow> SingletonValue \<Rightarrow> GuestAddress \<Rightarrow> u64 \<Rightarrow> u64 \<Rightarrow> (u8 list, DynamicSymbolError) Result" where
  "read_chunk image_view symtab base chunk_size offset =
     (let failed = (\<lambda>code index. (symbol_error code)
            \<lparr>symbol_error_tag := Some kDtSymtab,
             symbol_error_source_entry_index := Some (singleton_source_entry_index symtab),
             symbol_error_symbol_index := Some index\<rparr>) in
      and_then (GuestAddress_checked_add base offset)
        (\<lambda>_. (failed symbol_table_range_overflow offset)\<lparr>symbol_error_guest_address := Some base\<rparr>) (\<lambda>address.
      and_then (GuestRange_create address chunk_size)
        (\<lambda>_. (failed symbol_table_range_overflow offset)\<lparr>symbol_error_guest_address := Some address\<rparr>) (\<lambda>range.
      and_then (copy_bytes image_view range (unat chunk_size))
        (\<lambda>e. (failed symbol_entry_unreadable (offset div kElf64SymbolSize))
           \<lparr>symbol_error_guest_address := Some (case image_error_guest_address e of None \<Rightarrow> address | Some a \<Rightarrow> a),
            symbol_error_image_error := Some e\<rparr>) Success)))"

lemma chunk_step:
  "(offset :: u64) < byte_size \<Longrightarrow>
     unat (min (byte_size - offset) 4096) = min (unat byte_size - unat offset) 4096 \<and>
     unat (offset + min (byte_size - offset) 4096) = unat offset + min (unat byte_size - unat offset) 4096"
  by (auto simp: min_def word_le_nat_alt word_less_nat_alt unat_sub_if' unat_plus_if')
    (use unat_lt_2p64 [of byte_size] in linarith)+

function verify_chunks ::
  "InitializedImageView \<Rightarrow> SingletonValue \<Rightarrow> GuestAddress \<Rightarrow> u64 \<Rightarrow> u64 \<Rightarrow> (unit, DynamicSymbolError) Result" where
  "verify_chunks image_view symtab base byte_size offset =
     (if offset < byte_size
      then let chunk_size = min (byte_size - offset) 4096 in
        with_value (read_chunk image_view symtab base chunk_size offset) (\<lambda>_.
          verify_chunks image_view symtab base byte_size (offset + chunk_size))
      else Success ())"
  by pat_completeness auto
termination
  by (relation "measure (\<lambda>(_, _, _, byte_size, offset). unat byte_size - unat offset)")
    (auto simp: chunk_step word_less_nat_alt)

declare verify_chunks.simps [simp del]

definition verified_descriptor ::
  "InitializedImageView \<Rightarrow> SingletonValue \<Rightarrow> DynamicSymbolTableDescriptor \<Rightarrow>
     (DynamicSymbolTableDescriptor option, DynamicSymbolError) Result" where
  "verified_descriptor image_view symtab descriptor =
     with_value (check_undefined_symbol symtab descriptor image_view) (\<lambda>_.
     with_value (if symbols_count_from_gnu_hash descriptor
         then verify_chunks image_view symtab (range_base (symbols_range descriptor))
                (symbols_count descriptor * kElf64SymbolSize) 0
         else Success ()) (\<lambda>_.
       Success (Some descriptor)))"

definition build_dynamic_symbol_table_descriptor ::
  "DynamicTable \<Rightarrow> InitializedImageView \<Rightarrow> (DynamicSymbolTableDescriptor option, DynamicSymbolError) Result" where
  "build_dynamic_symbol_table_descriptor table image_view =
     with_value (collect_symbol_tags (table_entries table)
       \<lparr>tags_symtab = None, tags_syment = None, tags_symtabsz = None, tags_has_hash = False,
        tags_has_gnu_hash = False\<rparr>) (\<lambda>st.
     if \<not> any_symbol_metadata st then Success None
     else with_value (required_symbol_tags st) (\<lambda>(symtab, syment).
     with_value (symtabsz_count_of (tags_symtabsz st)) (\<lambda>symtabsz_count.
     with_value (sysv_count table image_view) (\<lambda>sysv.
     with_value (gnu_count table image_view) (\<lambda>gnu.
     with_value (agreed_symbol_count symtab (tags_symtabsz st) symtabsz_count sysv gnu) (\<lambda>sz.
     and_then (GuestRange_create (singleton_value symtab) (sz * kElf64SymbolSize))
       (\<lambda>_. (symbol_error symbol_table_range_overflow)
          \<lparr>symbol_error_tag := Some kDtSymtab,
           symbol_error_source_entry_index := Some (singleton_source_entry_index symtab),
           symbol_error_guest_address := Some (singleton_value symtab)\<rparr>) (\<lambda>table_range.
     verified_descriptor image_view symtab
       (symbol_descriptor symtab syment (tags_symtabsz st) sysv gnu sz table_range))))))))"

section \<open>Reading symbols\<close>

definition decode_symbol :: "u64 \<Rightarrow> u8 list \<Rightarrow> DynamicSymbol" where
  "decode_symbol i bytes =
     \<lparr>symbol_index = i, symbol_name_offset = of_nat (field_nat bytes 0 4), symbol_info = bytes ! 4,
      symbol_other = bytes ! 5, symbol_section_index_raw = of_nat (field_nat bytes 6 2),
      symbol_value = of_nat (field_nat bytes 8 8), symbol_size = of_nat (field_nat bytes 16 8)\<rparr>"

lemma symbol_fields_ok: "guest_bytes rd a 24 bs \<Longrightarrow> symbol_fields i bs = Success (decode_symbol i bs)"
  by (simp add: guest_bytes_def symbol_fields_def read_word_ok decode_symbol_def)

lemma gt_max_div_24: "(i :: u64) > u64_max div kElf64SymbolSize \<longleftrightarrow> 2 ^ 64 \<le> unat i * 24"
  by (simp add: word_less_nat_alt unat_div) linarith

lemma unat_times_24: "unat (i :: u64) * 24 < 2 ^ 64 \<Longrightarrow> unat (i * 24) = unat i * 24"
  using unat_mult_no_wrap [of i 24] by simp

text \<open>The record of symbol i lies inside the address space.\<close>

definition symbol_in_space :: "DynamicSymbolTableDescriptor \<Rightarrow> u64 \<Rightarrow> bool" where
  "symbol_in_space d i \<longleftrightarrow> unat (range_base (symbols_range d)) + unat i * 24 < 2 ^ 64"

lemma read_symbol_Success:
  assumes "view_wf view"
  shows "read_symbol d i view eb = Success s \<longleftrightarrow>
     (eb \<longrightarrow> i < symbols_count d) \<and> symbol_in_space d i \<and>
     (\<exists>bs. guest_bytes (read_byte view) (range_base (symbols_range d) + i * 24) 24 bs \<and> s = decode_symbol i bs)"
proof -
  have space: "unat i * 24 < 2 ^ 64 \<and> unat (range_base (symbols_range d)) + unat (i * 24) < 2 ^ 64 \<longleftrightarrow>
      symbol_in_space d i"
    using unat_times_24 [of i] by (auto simp: symbol_in_space_def)
  have "read_symbol d i view eb = Success s \<longleftrightarrow>
      (eb \<longrightarrow> i < symbols_count d) \<and>
      (unat i * 24 < 2 ^ 64 \<and> unat (range_base (symbols_range d)) + unat (i * 24) < 2 ^ 64) \<and>
      (\<exists>bs. guest_bytes (read_byte view) (range_base (symbols_range d) + i * 24) 24 bs \<and>
        symbol_fields i bs = Success s)"
    unfolding read_symbol_def Let_def if_Failure_Success gt_max_div_24
      and_then_Success [of "GuestAddress_checked_add _ _"] GuestAddress_checked_add_Success
      view_ranges.create_copy_Success [OF assms, of 24 24, simplified]
    by (auto simp: not_le)
  also have "\<dots> \<longleftrightarrow> (eb \<longrightarrow> i < symbols_count d) \<and> symbol_in_space d i \<and>
     (\<exists>bs. guest_bytes (read_byte view) (range_base (symbols_range d) + i * 24) 24 bs \<and> s = decode_symbol i bs)"
    unfolding space using symbol_fields_ok by fastforce
  finally show ?thesis .
qed

lemma read_symbol_defined:
  assumes "view_wf view"
  shows "read_symbol d i view eb \<noteq> Undefined"
  using symbol_fields_ok [of "read_byte view" _ _ i]
  by (auto simp: read_symbol_def Let_def and_then_Undefined [of "GuestAddress_checked_add _ _"]
      view_ranges.create_copy_Undefined [OF assms, of 24 24, simplified] dest!: symbol_fields_ok)

section \<open>The chunked verification\<close>

lemma read_chunk_Success:
  assumes "view_wf view"
  shows "read_chunk view symtab base chunk offset = Success bs \<longleftrightarrow>
     unat base + unat offset < 2 ^ 64 \<and> guest_bytes (read_byte view) (base + offset) (unat chunk) bs"
  by (auto simp: read_chunk_def Let_def and_then_Success [of "GuestAddress_checked_add _ _"]
      GuestAddress_checked_add_Success view_ranges.create_copy_Success [OF assms refl])

lemma read_chunk_defined: "view_wf view \<Longrightarrow> read_chunk view symtab base chunk offset \<noteq> Undefined"
  by (auto simp: read_chunk_def Let_def and_then_Undefined [of "GuestAddress_checked_add _ _"]
      view_ranges.create_copy_Undefined)

text \<open>All bytes from \<open>from\<close> up to \<open>to\<close> behind a base can be read.\<close>

definition readable_from :: "(GuestAddress \<Rightarrow> (u8, 'e) Result) \<Rightarrow> GuestAddress \<Rightarrow> nat \<Rightarrow> nat \<Rightarrow> bool" where
  "readable_from rd base m n \<longleftrightarrow> (\<forall>i. m \<le> i \<and> i < n \<longrightarrow> (\<exists>b. rd (base + of_nat i) = Success b))"

lemma readable_from_split:
  "m \<le> k \<Longrightarrow> k \<le> n \<Longrightarrow> readable_from rd base m n \<longleftrightarrow> readable_from rd base m k \<and> readable_from rd base k n"
  unfolding readable_from_def by (meson le_less_trans less_le_trans not_le order_trans)

lemma guest_bytes_readable:
  "(\<exists>bs. guest_bytes rd a n bs) \<longleftrightarrow> unat a + n \<le> 2 ^ 64 \<and> readable_from rd a 0 n"
proof
  assume "unat a + n \<le> 2 ^ 64 \<and> readable_from rd a 0 n"
  moreover from this obtain f where "\<forall>i < n. rd (a + of_nat i) = Success (f i)"
    unfolding readable_from_def by (metis le0)
  ultimately have "guest_bytes rd a n (map f [0..<n])" by (simp add: guest_bytes_def)
  then show "\<exists>bs. guest_bytes rd a n bs" ..
qed (auto simp: guest_bytes_def readable_from_def)

lemma readable_from_shift:
  "readable_from rd (base + of_nat m) 0 n \<longleftrightarrow> readable_from rd base m (m + n)"
proof -
  have "(\<forall>i. 0 \<le> i \<and> i < n \<longrightarrow> P (m + i)) \<longleftrightarrow> (\<forall>i. m \<le> i \<and> i < m + n \<longrightarrow> P i)" for P
    by (metis add_less_cancel_left le0 le_add1 le_add_diff_inverse)
  from this [of "\<lambda>i. \<exists>b. rd (base + of_nat i) = Success b"] show ?thesis
    by (simp add: readable_from_def add.assoc)
qed

lemma verify_chunks_iff:
  assumes "view_wf view" and "unat base + unat byte_size \<le> 2 ^ 64"
  shows "verify_chunks view symtab base byte_size offset = Success u \<longleftrightarrow>
     readable_from (read_byte view) base (unat offset) (unat byte_size)"
  using assms
proof (induction view symtab base byte_size offset rule: verify_chunks.induct)
  case (1 view symtab base byte_size offset)
  show ?case
  proof (cases "offset < byte_size")
    case True
    let ?c = "min (byte_size - offset) 4096"
    let ?m = "min (unat byte_size - unat offset) 4096"
    have lt: "unat offset < unat byte_size" using True by (simp add: word_less_nat_alt)
    have c: "unat ?c = ?m" "unat (offset + ?c) = unat offset + ?m" using chunk_step [OF True] by auto
    have ov: "unat base + unat offset < 2 ^ 64" using lt 1(3) by linarith
    have fits: "unat (base + offset) + ?m \<le> 2 ^ 64"
      using ov 1(3) lt by (simp add: unat_add_no_wrap)
    have "(\<exists>bs. read_chunk view symtab base ?c offset = Success bs) \<longleftrightarrow>
        readable_from (read_byte view) base (unat offset) (unat offset + ?m)"
      using read_chunk_Success [OF 1(2), of symtab base ?c offset] ov fits c(1)
        guest_bytes_readable [of "read_byte view" "base + offset" ?m]
        readable_from_shift [of "read_byte view" base "unat offset" ?m]
      by simp
    moreover have "verify_chunks view symtab base byte_size (offset + ?c) = Success u \<longleftrightarrow>
        readable_from (read_byte view) base (unat offset + ?m) (unat byte_size)"
      using 1(1) [OF True refl 1(2,3)] c(2) by simp
    ultimately show ?thesis
      using True readable_from_split [of "unat offset" "unat offset + ?m" "unat byte_size" "read_byte view" base] lt
      by (subst verify_chunks.simps) (auto simp: Let_def and_then_Success)
  next
    case False
    then have "\<not> unat offset < unat byte_size" by (simp add: word_less_nat_alt)
    then have "readable_from (read_byte view) base (unat offset) (unat byte_size)"
      by (auto simp: readable_from_def)
    with False show ?thesis by (subst verify_chunks.simps) simp
  qed
qed

lemma verify_chunks_defined:
  "view_wf view \<Longrightarrow> verify_chunks view symtab base byte_size offset \<noteq> Undefined"
proof (induction view symtab base byte_size offset rule: verify_chunks.induct)
  case (1 view symtab base byte_size offset)
  then show ?case
    by (subst verify_chunks.simps) (auto simp: Let_def and_then_Undefined read_chunk_defined)
qed

section \<open>The descriptor of a table\<close>

definition symbol_slots :: "SymbolTags \<Rightarrow> singleton_slots" where
  "symbol_slots st = (\<lambda>t. if t = kDtSymtab then tags_symtab st else if t = kDtSyment then tags_syment st
     else if t = kDtSymtabsz then tags_symtabsz st else None)"

abbreviation symbol_singletons :: "int list" where
  "symbol_singletons \<equiv> [kDtSymtab, kDtSyment, kDtSymtabsz]"

definition has_tag :: "DynamicEntry list \<Rightarrow> int \<Rightarrow> bool" where
  "has_tag es t \<longleftrightarrow> t \<in> set (map entry_tag es)"

lemma collect_symbol_tags_merge:
  "collect_symbol_tags es st =
     map_value (\<lambda>m. \<lparr>tags_symtab = m kDtSymtab, tags_syment = m kDtSyment, tags_symtabsz = m kDtSymtabsz,
        tags_has_hash = (tags_has_hash st \<or> has_tag es kDtHash),
        tags_has_gnu_hash = (tags_has_gnu_hash st \<or> has_tag es kDtGnuHash)\<rparr>)
       (merge_entries symbol_merge_singleton symbol_singletons es (symbol_slots st))"
proof (induction es arbitrary: st)
  case Nil
  then show ?case by (simp add: symbol_slots_def has_tag_def)
next
  case (Cons e es)
  have upd: "(symbol_slots st)(6 \<mapsto> s) = symbol_slots (st\<lparr>tags_symtab := Some s\<rparr>)"
    "(symbol_slots st)(11 \<mapsto> s) = symbol_slots (st\<lparr>tags_syment := Some s\<rparr>)"
    "(symbol_slots st)(39 \<mapsto> s) = symbol_slots (st\<lparr>tags_symtabsz := Some s\<rparr>)"
    "symbol_slots (st\<lparr>tags_has_hash := b\<rparr>) = symbol_slots st"
    "symbol_slots (st\<lparr>tags_has_gnu_hash := b\<rparr>) = symbol_slots st" for s b
    by (auto simp: symbol_slots_def fun_eq_iff)
  have get: "symbol_slots st 6 = tags_symtab st" "symbol_slots st 11 = tags_syment st"
    "symbol_slots st 39 = tags_symtabsz st" by (simp_all add: symbol_slots_def)
  consider "entry_tag e = 6" | "entry_tag e = 11" | "entry_tag e = 39" | "entry_tag e = 4" | "entry_tag e = 0x6ffffef5"
    | "entry_tag e \<notin> {6, 11, 39, 4, 0x6ffffef5}" by blast
  then show ?case
    by cases (auto simp: Cons.IH upd get has_tag_def and_then_def split: Result.split)
qed

definition symbol_tags :: "DynamicEntry list \<Rightarrow> SymbolTags" where
  "symbol_tags es = \<lparr>tags_symtab = slot_of es kDtSymtab, tags_syment = slot_of es kDtSyment,
     tags_symtabsz = slot_of es kDtSymtabsz, tags_has_hash = has_tag es kDtHash, tags_has_gnu_hash = has_tag es kDtGnuHash\<rparr>"

lemma collect_symbol_tags_start:
  "collect_symbol_tags es \<lparr>tags_symtab = None, tags_syment = None, tags_symtabsz = None, tags_has_hash = False,
     tags_has_gnu_hash = False\<rparr> = Success st
   \<longleftrightarrow> tags_consistent es symbol_singletons \<and> st = symbol_tags es"
proof -
  have "symbol_slots \<lparr>tags_symtab = None, tags_syment = None, tags_symtabsz = None, tags_has_hash = False,
     tags_has_gnu_hash = False\<rparr> = Map.empty"
    by (auto simp: symbol_slots_def)
  then show ?thesis
    by (auto simp: collect_symbol_tags_merge map_value_Success symbol_merge.merge_entries_start symbol_tags_def)
qed

text \<open>The counts the evidence gives, as a set: a descriptor needs exactly one.\<close>

definition evidence_counts ::
  "SingletonValue option \<Rightarrow> SysvHashCountEvidence option \<Rightarrow> GnuHashCountEvidence option \<Rightarrow> u64 set" where
  "evidence_counts symtabsz sysv gnu =
     (\<lambda>z. singleton_value z div 24) ` set_option symtabsz \<union>
     (\<lambda>e. ucast (sysv_symbol_count e)) ` set_option sysv \<union> gnu_symbol_count ` set_option gnu"

definition symtabsz_ok :: "SingletonValue option \<Rightarrow> bool" where
  "symtabsz_ok symtabsz \<longleftrightarrow>
     (\<forall>z \<in> set_option symtabsz. singleton_value z \<noteq> 0 \<and> unat (singleton_value z) mod 24 = 0)"

lemma symtabsz_count_of_Success:
  "symtabsz_count_of symtabsz = Success c \<longleftrightarrow>
     symtabsz_ok symtabsz \<and> c = map_option (\<lambda>z. singleton_value z div 24) symtabsz"
proof (cases symtabsz)
  case (Some z)
  have "singleton_value z div 24 \<noteq> 0" if "singleton_value z \<noteq> 0" "singleton_value z mod 24 = 0"
    using that by (metis add.right_neutral div_mult_mod_eq mult_zero_left)
  moreover have "singleton_value z mod 24 = 0 \<longleftrightarrow> unat (singleton_value z) mod 24 = 0"
    by (simp add: word_unat_eq_iff unat_mod)
  ultimately show ?thesis using Some by (auto simp: symtabsz_count_of_def symtabsz_ok_def Let_def)
qed (auto simp: symtabsz_count_of_def symtabsz_ok_def)

lemma agreed_symbol_count_Success:
  "agreed_symbol_count symtab symtabsz (map_option (\<lambda>z. singleton_value z div 24) symtabsz) sysv gnu = Success c \<longleftrightarrow>
     evidence_counts symtabsz sysv gnu = {c} \<and> c \<noteq> 0 \<and> unat c * 24 < 2 ^ 64"
  unfolding agreed_symbol_count_def Let_def if_Failure_Success gt_max_div_24
  by (cases symtabsz; cases sysv; cases gnu) (auto simp: evidence_counts_def not_le)

lemma le_nat_eq_0: "le_nat bs = 0 \<longleftrightarrow> bs = replicate (length bs) 0"
  by (induction bs) (auto simp: unat_eq_0)

lemma field_zero:
  assumes "n \<le> length bs - off" and "256 ^ n = (2 :: nat) ^ LENGTH('a :: len)"
  shows "(of_nat (field_nat bs off n) :: 'a word) = 0 \<longleftrightarrow> take n (drop off bs) = replicate n 0"
proof -
  have len: "length (take n (drop off bs)) = n" using assms(1) by simp
  then have "field_nat bs off n < 2 ^ LENGTH('a)"
    using le_nat_bound [of "take n (drop off bs)"] assms(2) by (simp add: field_nat_def)
  then have "(of_nat (field_nat bs off n) :: 'a word) = 0 \<longleftrightarrow> field_nat bs off n = 0"
    by (simp add: word_unat_eq_iff unat_of_nat)
  then show ?thesis using len by (simp add: field_nat_def le_nat_eq_0)
qed

lemma reserved_symbol_bytes:
  assumes "length bs = 24"
  shows "is_reserved_undefined_symbol (decode_symbol i bs) \<longleftrightarrow> i = 0 \<and> bs = replicate 24 0"
proof -
  have bs: "bs = take 4 bs @ [bs ! 4, bs ! 5] @ take 2 (drop 6 bs) @ take 8 (drop 8 bs) @ take 8 (drop 16 bs)"
    using assms by (intro nth_equalityI) (auto simp: nth_append nth_Cons' intro!: arg_cong [where f = "(!) bs"])
  have "is_reserved_undefined_symbol (decode_symbol i bs) \<longleftrightarrow>
      i = 0 \<and> take 4 bs = replicate 4 0 \<and> bs ! 4 = 0 \<and> bs ! 5 = 0 \<and> take 2 (drop 6 bs) = replicate 2 0 \<and>
      take 8 (drop 8 bs) = replicate 8 0 \<and> take 8 (drop 16 bs) = replicate 8 0"
    using assms field_zero [of 4 bs 0, where ?'a = 32] field_zero [of 2 bs 6, where ?'a = 16]
      field_zero [of 8 bs 8, where ?'a = 64] field_zero [of 8 bs 16, where ?'a = 64]
    by (simp add: is_reserved_undefined_symbol_def decode_symbol_def)
  also have "\<dots> \<longleftrightarrow> i = 0 \<and> bs = replicate 24 0"
  proof (safe del: conjI)
    assume z: "take 4 bs = replicate 4 0" "bs ! 4 = 0" "bs ! 5 = 0" "take 2 (drop 6 bs) = replicate 2 0"
      "take 8 (drop 8 bs) = replicate 8 0" "take 8 (drop 16 bs) = replicate 8 0"
    show "0 = (0 :: u64) \<and> bs = replicate 24 0"
      by (subst bs, simp only: z) (simp add: numeral_eq_Suc)
  qed (simp add: take_replicate drop_replicate)
  finally show ?thesis .
qed

text \<open>
  The descriptor of a table whose tags give it c symbols: the first DT_SYMTAB and DT_SYMENT, entries of
  24 bytes, all available counts equal to c, a table inside the address space whose symbol 0 is all
  zero bytes, and readable to its end when a GNU hash table is one of the sources.
\<close>

definition symbol_table_spec ::
  "DynamicTable \<Rightarrow> InitializedImageView \<Rightarrow> DynamicSymbolTableDescriptor \<Rightarrow> bool" where
  "symbol_table_spec table view d \<longleftrightarrow>
     (\<exists>symtab syment sysv gnu c.
        slot_of (table_entries table) kDtSymtab = Some symtab \<and>
        slot_of (table_entries table) kDtSyment = Some syment \<and> singleton_value syment = 24 \<and>
        symtabsz_ok (slot_of (table_entries table) kDtSymtabsz) \<and>
        build_sysv_hash_count_evidence table view = Success sysv \<and>
        build_gnu_hash_count_evidence table view = Success gnu \<and>
        evidence_counts (slot_of (table_entries table) kDtSymtabsz) sysv gnu = {c} \<and>
        c \<noteq> 0 \<and> unat c * 24 < 2 ^ 64 \<and> unat (singleton_value symtab) + unat c * 24 \<le> 2 ^ 64 \<and>
        d = symbol_descriptor symtab syment (slot_of (table_entries table) kDtSymtabsz) sysv gnu c
              \<lparr>range_base = singleton_value symtab, range_size = c * 24\<rparr> \<and>
        guest_bytes (read_byte view) (singleton_value symtab) 24 (replicate 24 0) \<and>
        (gnu \<noteq> None \<longrightarrow> readable_from (read_byte view) (singleton_value symtab) 0 (unat c * 24)))"

lemma check_undefined_symbol_Success:
  assumes "view_wf view"
  shows "check_undefined_symbol symtab d view = Success u \<longleftrightarrow>
     guest_bytes (read_byte view) (range_base (symbols_range d)) 24 (replicate 24 0)"
proof -
  have "symbol_in_space d 0" by (simp add: symbol_in_space_def)
  then have "check_undefined_symbol symtab d view = Success u \<longleftrightarrow>
      (\<exists>bs. guest_bytes (read_byte view) (range_base (symbols_range d)) 24 bs \<and>
        is_reserved_undefined_symbol (decode_symbol 0 bs))"
    unfolding check_undefined_symbol_def and_then_Success if_Failure_Success read_symbol_Success [OF assms]
    by auto
  then show ?thesis using reserved_symbol_bytes [of _ 0] guest_bytes_length by metis
qed

lemma required_symbol_tags_Success:
  "required_symbol_tags st = Success (symtab, syment) \<longleftrightarrow>
     tags_symtab st = Some symtab \<and> tags_syment st = Some syment \<and> singleton_value syment = 24"
  by (auto simp: required_symbol_tags_def split: option.splits)

lemma verified_descriptor_Success:
  assumes "view_wf view" and "unat (range_base (symbols_range d)) + unat (symbols_count d) * 24 \<le> 2 ^ 64"
    and "unat (symbols_count d) * 24 < 2 ^ 64"
  shows "verified_descriptor view symtab d = Success dd \<longleftrightarrow>
     dd = Some d \<and> guest_bytes (read_byte view) (range_base (symbols_range d)) 24 (replicate 24 0) \<and>
     (symbols_count_from_gnu_hash d \<longrightarrow>
        readable_from (read_byte view) (range_base (symbols_range d)) 0 (unat (symbols_count d) * 24))"
proof -
  have "unat (symbols_count d * 24) = unat (symbols_count d) * 24" by (rule unat_times_24 [OF assms(3)])
  with assms(2) have "verify_chunks view symtab (range_base (symbols_range d)) (symbols_count d * 24) 0 = Success u \<longleftrightarrow>
      readable_from (read_byte view) (range_base (symbols_range d)) 0 (unat (symbols_count d) * 24)" for u
    by (simp add: verify_chunks_iff [OF assms(1)])
  then show ?thesis
    by (auto simp: verified_descriptor_def and_then_Success check_undefined_symbol_Success [OF assms(1)])
qed

lemma sysv_count_Success: "sysv_count table view = Success e \<longleftrightarrow> build_sysv_hash_count_evidence table view = Success e"
  by (auto simp: sysv_count_def and_then_Success)

lemma gnu_count_Success: "gnu_count table view = Success e \<longleftrightarrow> build_gnu_hash_count_evidence table view = Success e"
  by (auto simp: gnu_count_def and_then_Success)

lemma any_symbol_metadata_iff:
  "any_symbol_metadata (symbol_tags es) \<longleftrightarrow>
     (\<exists>t \<in> {kDtSymtab, kDtSyment, kDtSymtabsz, kDtHash, kDtGnuHash}. has_tag es t)"
proof -
  have "slot_of es t \<noteq> None \<longleftrightarrow> has_tag es t" for t by (auto simp: slot_of_None has_tag_def)
  then show ?thesis by (simp add: any_symbol_metadata_def symbol_tags_def)
qed

lemma build_descriptor_iff:
  assumes "view_wf view"
  shows "build_dynamic_symbol_table_descriptor table view = Success dd \<longleftrightarrow>
     tags_consistent (table_entries table) symbol_singletons \<and>
     (if any_symbol_metadata (symbol_tags (table_entries table))
      then \<exists>d. dd = Some d \<and> symbol_table_spec table view d else dd = None)"
proof (cases "any_symbol_metadata (symbol_tags (table_entries table))")
  case False
  then show ?thesis
    by (auto simp: build_dynamic_symbol_table_descriptor_def and_then_Success collect_symbol_tags_start)
next
  case True
  let ?es = "table_entries table"
  let ?z = "slot_of ?es kDtSymtabsz"
  let ?d = "\<lambda>symtab syment sysv gnu c. symbol_descriptor symtab syment ?z sysv gnu c
      \<lparr>range_base = singleton_value symtab, range_size = c * 24\<rparr>"
  have verified: "verified_descriptor view symtab (?d symtab syment sysv gnu c) = Success dd \<longleftrightarrow>
      dd = Some (?d symtab syment sysv gnu c) \<and>
      guest_bytes (read_byte view) (singleton_value symtab) 24 (replicate 24 0) \<and>
      (gnu \<noteq> None \<longrightarrow> readable_from (read_byte view) (singleton_value symtab) 0 (unat c * 24))"
    if "unat (singleton_value symtab) + unat c * 24 \<le> 2 ^ 64" "unat c * 24 < 2 ^ 64" for symtab syment sysv gnu c
    using verified_descriptor_Success [OF assms, of "?d symtab syment sysv gnu c"] that
    by (simp add: symbol_descriptor_def)
  have "build_dynamic_symbol_table_descriptor table view = Success dd \<longleftrightarrow>
      tags_consistent ?es symbol_singletons \<and>
      (\<exists>symtab syment sysv gnu c. slot_of ?es kDtSymtab = Some symtab \<and> slot_of ?es kDtSyment = Some syment \<and>
        singleton_value syment = 24 \<and> symtabsz_ok ?z \<and>
        build_sysv_hash_count_evidence table view = Success sysv \<and>
        build_gnu_hash_count_evidence table view = Success gnu \<and>
        evidence_counts ?z sysv gnu = {c} \<and> c \<noteq> 0 \<and> unat c * 24 < 2 ^ 64 \<and>
        unat (singleton_value symtab) + unat c * 24 \<le> 2 ^ 64 \<and>
        verified_descriptor view symtab (?d symtab syment sysv gnu c) = Success dd)"
    unfolding build_dynamic_symbol_table_descriptor_def and_then_Success collect_symbol_tags_start
    using True
    by (auto simp: and_then_Success required_symbol_tags_Success symtabsz_count_of_Success sysv_count_Success
        gnu_count_Success agreed_symbol_count_Success GuestRange_create_Success symbol_tags_def unat_times_24
        cong: conj_cong)
  also have "\<dots> \<longleftrightarrow> tags_consistent ?es symbol_singletons \<and> (\<exists>d. dd = Some d \<and> symbol_table_spec table view d)"
    unfolding symbol_table_spec_def using verified by (auto cong: conj_cong)
  finally show ?thesis using True by simp
qed

lemma check_undefined_symbol_defined: "view_wf view \<Longrightarrow> check_undefined_symbol symtab d view \<noteq> Undefined"
  by (auto simp: check_undefined_symbol_def and_then_Undefined read_symbol_defined)

lemma build_descriptor_defined:
  assumes "view_wf view"
  shows "build_dynamic_symbol_table_descriptor table view \<noteq> Undefined"
proof -
  have "collect_symbol_tags es st \<noteq> Undefined" for es st
    by (simp add: collect_symbol_tags_merge map_value_Undefined symbol_merge.merge_entries_defined)
  moreover have "required_symbol_tags st \<noteq> Undefined" for st
    by (simp add: required_symbol_tags_def split: option.split)
  moreover have "symtabsz_count_of z \<noteq> Undefined" for z
    by (simp add: symtabsz_count_of_def Let_def split: option.split)
  moreover have "agreed_symbol_count a z c sysv gnu \<noteq> Undefined" for a z c sysv gnu
    by (simp add: agreed_symbol_count_def Let_def)
  moreover have "verified_descriptor view a d \<noteq> Undefined" for a d
    using assms by (simp add: verified_descriptor_def and_then_Undefined check_undefined_symbol_defined verify_chunks_defined)
  ultimately show ?thesis
    using build_sysv_hash_defined [OF assms] build_gnu_hash_defined [OF assms]
    by (simp add: build_dynamic_symbol_table_descriptor_def and_then_Undefined sysv_count_def gnu_count_def
        case_prod_beta)
qed

lemma descriptor_symbol_readable:
  assumes "view_wf view" and "symbol_table_spec table view d" and "symbols_count_from_gnu_hash d"
    and "i < symbols_count d"
  obtains s where "parse_dynamic_symbol d i view = Success s"
proof -
  let ?b = "range_base (symbols_range d)"
  have i: "unat i < unat (symbols_count d)" using assms(4) by (simp add: word_less_nat_alt)
  have fits: "unat ?b + unat (symbols_count d) * 24 \<le> 2 ^ 64"
    and all: "readable_from (read_byte view) ?b 0 (unat (symbols_count d) * 24)"
    using assms(2,3) by (auto simp: symbol_table_spec_def symbol_descriptor_def)
  have space: "unat ?b + unat i * 24 + 24 \<le> 2 ^ 64" using fits i by linarith
  then have off: "unat i * 24 < 2 ^ 64" by linarith
  have mult: "(of_nat (unat i * 24) :: u64) = i * 24"
    by simp
  have "readable_from (read_byte view) ?b (unat i * 24) (unat i * 24 + 24)"
    using all i by (auto simp: readable_from_def)
  then have "readable_from (read_byte view) (?b + i * 24) 0 24"
    using readable_from_shift [of "read_byte view" ?b "unat i * 24" 24] by (simp add: mult)
  moreover have "unat (?b + i * 24) + 24 \<le> 2 ^ 64"
    using space off by (simp add: unat_add_no_wrap unat_times_24)
  ultimately obtain bs where "guest_bytes (read_byte view) (?b + i * 24) 24 bs"
    using guest_bytes_readable by blast
  then have "read_symbol d i view True = Success (decode_symbol i bs)"
    using assms(4) space by (auto simp: read_symbol_Success [OF assms(1)] symbol_in_space_def)
  then show ?thesis using that by (simp add: parse_dynamic_symbol_def)
qed

section \<open>Properties\<close>

text \<open>
  Reading symbol i never indexes out of range, and returns a symbol exactly when i is below the
  symbol count, its record lies inside the address space and all of its 24 bytes can be read; the
  symbol is then decoded from those bytes.
\<close>

theorem parse_dynamic_symbol_correct:
  assumes "view_wf view"
  shows "parse_dynamic_symbol d i view \<noteq> Undefined \<and>
    (\<forall>s. parse_dynamic_symbol d i view = Success s \<longleftrightarrow>
      i < symbols_count d \<and> unat (range_base (symbols_range d)) + unat i * 24 < 2 ^ 64 \<and>
      (\<exists>bs. guest_bytes (read_byte view) (range_base (symbols_range d) + i * 24) 24 bs \<and> s = decode_symbol i bs))"
  by (simp add: parse_dynamic_symbol_def read_symbol_Success [OF assms] read_symbol_defined [OF assms]
      symbol_in_space_def)

definition sample_symbols :: DynamicSymbolTableDescriptor where
  "sample_symbols = symbol_descriptor \<lparr>singleton_value = 0x2024, singleton_source_entry_index = 1\<rparr>
     \<lparr>singleton_value = 24, singleton_source_entry_index = 2\<rparr> None None
     (Some \<lparr>gnu_hash_address = 0x2000, gnu_bucket_count = 1, gnu_first_hashed_symbol = 1, gnu_symbol_count = 3,
       gnu_source_entry_index = 0\<rparr>) 3 \<lparr>range_base = 0x2024, range_size = 72\<rparr>"

lemma sample_zero_byte:
  "0x2024 \<le> unat a \<Longrightarrow> unat a < 0x206c \<Longrightarrow> read_byte sample_gnu_view a = Success 0"
  by (subst read_byte_Success [OF sample_gnu_view_wf])
    (simp add: view_sources_def sample_gnu_view_def load_intents_def file_intent_def zero_intent_def
      intent_sources_Cons range_contains_iff source_of_def)

lemma sample_symbol_bytes:
  assumes "0x2024 \<le> unat a" and "unat a + 24 \<le> 0x206c"
  shows "guest_bytes (read_byte sample_gnu_view) a 24 (replicate 24 0)"
proof -
  have "read_byte sample_gnu_view (a + of_nat i) = Success 0" if "i < 24" for i
    using assms that by (intro sample_zero_byte) (simp_all add: unat_plus_if' unat_of_nat)
  then show ?thesis using assms by (simp add: guest_bytes_def)
qed

theorem parse_dynamic_symbol_correct_witness:
  "parse_dynamic_symbol sample_symbols 1 sample_gnu_view = Success (decode_symbol 1 (replicate 24 0))"
  using parse_dynamic_symbol_correct [OF sample_gnu_view_wf, of sample_symbols 1] sample_symbol_bytes [of "0x203c"]
  by (auto simp: sample_symbols_def symbol_descriptor_def)

text \<open>
  C6. The symbol table descriptor never evaluates an index out of range; it is absent exactly when no
  symbol tag is present, and otherwise built exactly when the singleton tags are consistent and the
  table satisfies \<open>symbol_table_spec\<close>: all sources of the symbol count agree, the table fits the address
  space, symbol 0 is the reserved one, and with a GNU hash table every byte of the table is readable.
\<close>

theorem build_dynamic_symbol_table_descriptor_correct:
  assumes "view_wf view"
  shows "build_dynamic_symbol_table_descriptor table view \<noteq> Undefined \<and>
    (\<forall>dd. build_dynamic_symbol_table_descriptor table view = Success dd \<longleftrightarrow>
       tags_consistent (table_entries table) symbol_singletons \<and>
       (if \<exists>t \<in> {kDtSymtab, kDtSyment, kDtSymtabsz, kDtHash, kDtGnuHash}. has_tag (table_entries table) t
        then \<exists>d. dd = Some d \<and> symbol_table_spec table view d else dd = None))"
  using build_descriptor_iff [OF assms, of table] build_descriptor_defined [OF assms, of table]
  unfolding any_symbol_metadata_iff by blast

definition sample_symbol_entries :: DynamicTable where
  "sample_symbol_entries = \<lparr>table_entries =
     [\<lparr>entry_tag = 0x6ffffef5, entry_value = 0x2000, entry_index = 0\<rparr>,
      \<lparr>entry_tag = 6, entry_value = 0x2024, entry_index = 1\<rparr>,
      \<lparr>entry_tag = 11, entry_value = 24, entry_index = 2\<rparr>]\<rparr>"

lemma sample_symbol_table_spec: "symbol_table_spec sample_symbol_entries sample_gnu_view sample_symbols"
proof -
  let ?ev = "\<lparr>gnu_hash_address = 0x2000, gnu_bucket_count = 1, gnu_first_hashed_symbol = 1, gnu_symbol_count = 3,
       gnu_source_entry_index = 0\<rparr> :: GnuHashCountEvidence"
  have "build_gnu_hash_count_evidence sample_symbol_entries sample_gnu_view = Success (Some ?ev)"
    by (simp add: build_gnu_hash_count_evidence_def sample_symbol_entries_def singleton_of_def sample_gnu_word
        power_of_two_def gnu_symbol_bound_def chain_loop.simps upt_rec word_le_nat_alt)
  moreover have "build_sysv_hash_count_evidence sample_symbol_entries sample_gnu_view = Success None"
    by (simp add: build_sysv_hash_count_evidence_def sample_symbol_entries_def)
  moreover have "readable_from (read_byte sample_gnu_view) 0x2024 0 72"
    unfolding readable_from_def
    by (intro allI impI exI [of _ 0] sample_zero_byte) (auto simp: unat_plus_if' unat_of_nat)
  ultimately show ?thesis
    using sample_symbol_bytes [of "0x2024"]
    by (auto simp: symbol_table_spec_def sample_symbol_entries_def singleton_of_def symtabsz_ok_def
        evidence_counts_def sample_symbols_def)
qed

theorem build_dynamic_symbol_table_descriptor_correct_witness:
  "build_dynamic_symbol_table_descriptor sample_symbol_entries sample_gnu_view = Success (Some sample_symbols)"
proof -
  have "tags_consistent (table_entries sample_symbol_entries) symbol_singletons"
    "has_tag (table_entries sample_symbol_entries) kDtSymtab"
    by (simp_all add: sample_symbol_entries_def tags_consistent_def has_tag_def)
  then show ?thesis
    using build_dynamic_symbol_table_descriptor_correct [OF sample_gnu_view_wf, of sample_symbol_entries]
      sample_symbol_table_spec by auto
qed

text \<open>
  A descriptor whose symbol count rests on a GNU hash table is fully backed: every symbol below the
  count can be read.
\<close>

theorem gnu_counted_symbols_readable:
  assumes "view_wf view" and "build_dynamic_symbol_table_descriptor table view = Success (Some d)"
    and "symbols_count_from_gnu_hash d" and "i < symbols_count d"
  shows "\<exists>s. parse_dynamic_symbol d i view = Success s \<and> symbol_index s = i"
proof -
  have "symbol_table_spec table view d"
    using assms(2) by (auto simp: build_descriptor_iff [OF assms(1)] split: if_splits)
  with assms obtain s where "parse_dynamic_symbol d i view = Success s"
    using descriptor_symbol_readable by blast
  then show ?thesis
    by (auto simp: parse_dynamic_symbol_def read_symbol_Success [OF assms(1)] decode_symbol_def)
qed

theorem gnu_counted_symbols_readable_witness:
  "\<exists>s. parse_dynamic_symbol sample_symbols 2 sample_gnu_view = Success s \<and> symbol_index s = 2"
proof (rule gnu_counted_symbols_readable [OF sample_gnu_view_wf, of sample_symbol_entries])
  show "build_dynamic_symbol_table_descriptor sample_symbol_entries sample_gnu_view = Success (Some sample_symbols)"
    using sample_symbol_table_spec
    by (subst build_descriptor_iff [OF sample_gnu_view_wf])
      (auto simp: any_symbol_metadata_iff has_tag_def sample_symbol_entries_def tags_consistent_def)
qed (simp_all add: sample_symbols_def symbol_descriptor_def)

end
