(* ===== verification/Dynamic_Relocations.thy ===== *)
theory Dynamic_Relocations
  imports Dynamic_Symbols
begin

text \<open>
  src/loader/dynamic_relocations.cpp: descriptors of the DT_REL, DT_RELA and DT_JMPREL tables from the
  dynamic tags, and the reader of one relocation record.
\<close>

section \<open>Data\<close>

abbreviation kDtPltrelsz :: int where "kDtPltrelsz \<equiv> 2"
abbreviation kDtRela :: int where "kDtRela \<equiv> 7"
abbreviation kDtRelasz :: int where "kDtRelasz \<equiv> 8"
abbreviation kDtRelaent :: int where "kDtRelaent \<equiv> 9"
abbreviation kDtRel :: int where "kDtRel \<equiv> 17"
abbreviation kDtRelsz :: int where "kDtRelsz \<equiv> 18"
abbreviation kDtRelent :: int where "kDtRelent \<equiv> 19"
abbreviation kDtPltrel :: int where "kDtPltrel \<equiv> 20"
abbreviation kDtJmprel :: int where "kDtJmprel \<equiv> 23"
abbreviation kElf64RelSize :: u64 where "kElf64RelSize \<equiv> 16"
abbreviation kElf64RelaSize :: u64 where "kElf64RelaSize \<equiv> 24"

datatype RelocationTableKind = rel | rela | plt_rel | plt_rela

datatype DynamicRelocationErrorCode =
    conflicting_dynamic_tag
  | missing_required_companion_tag
  | invalid_relocation_entry_size
  | invalid_relocation_table_size
  | relocation_table_range_overflow
  | missing_symbol_table
  | relocation_index_out_of_bounds
  | relocation_entry_unreadable
  | relocation_symbol_index_out_of_bounds
  | invalid_plt_relocation_encoding

record DynamicRelocationError =
  relocation_error_code :: DynamicRelocationErrorCode
  relocation_error_tag :: "int option"
  relocation_error_source_entry_index :: "nat option"
  relocation_error_conflicting_entry_index :: "nat option"
  relocation_error_table_kind :: "RelocationTableKind option"
  relocation_error_table_index :: "u64 option"
  relocation_error_guest_address :: "GuestAddress option"
  relocation_error_symbol_index :: "u32 option"
  relocation_error_image_error :: "InitializedImageError option"

record DynamicRelocationTableDescriptor =
  relocs_kind :: RelocationTableKind
  relocs_range :: GuestRange
  relocs_entry_size :: GuestSize
  relocs_count :: u64
  relocs_address_source_entry_index :: nat
  relocs_size_source_entry_index :: nat
  relocs_encoding_source_entry_index :: nat

record GeneralDynamicRelocationMetadata =
  general_rel :: "DynamicRelocationTableDescriptor option"
  general_rela :: "DynamicRelocationTableDescriptor option"

record DynamicRelocation =
  reloc_table_kind :: RelocationTableKind
  reloc_table_index :: u64
  reloc_target :: GuestAddress
  reloc_raw_info :: u64
  reloc_symbol_index :: u32
  reloc_relocation_type :: u32
  reloc_addend :: "int option"

record GroupValues =
  group_address :: "SingletonValue option"
  group_size :: "SingletonValue option"
  group_entry_size :: "SingletonValue option"

text \<open>relocation_error with its defaulted arguments; the others are set by record update.\<close>

definition relocation_error :: "DynamicRelocationErrorCode \<Rightarrow> DynamicRelocationError" where
  "relocation_error code =
     \<lparr>relocation_error_code = code, relocation_error_tag = None, relocation_error_source_entry_index = None,
      relocation_error_conflicting_entry_index = None, relocation_error_table_kind = None,
      relocation_error_table_index = None, relocation_error_guest_address = None,
      relocation_error_symbol_index = None, relocation_error_image_error = None\<rparr>"

definition relocation_merge_singleton ::
  "SingletonValue option \<Rightarrow> DynamicEntry \<Rightarrow> (SingletonValue, DynamicRelocationError) Result" where
  "relocation_merge_singleton slot entry = (case slot of
       None \<Rightarrow> Success (singleton_of entry)
     | Some s \<Rightarrow>
         if singleton_value s \<noteq> entry_value entry
         then Failure ((relocation_error DynamicRelocationErrorCode.conflicting_dynamic_tag)
                \<lparr>relocation_error_tag := Some (entry_tag entry),
                 relocation_error_source_entry_index := Some (entry_index entry),
                 relocation_error_conflicting_entry_index := Some (singleton_source_entry_index s)\<rparr>)
         else Success s)"

interpretation relocation_merge: singleton_merge relocation_merge_singleton
  by unfold_locales (auto simp: relocation_merge_singleton_def)

section \<open>Table descriptors\<close>

definition group_active :: "GroupValues \<Rightarrow> bool" where
  "group_active grp \<longleftrightarrow> group_address grp \<noteq> None \<or> group_size grp \<noteq> None \<or> group_entry_size grp \<noteq> None"

definition missing_companion ::
  "int \<Rightarrow> nat option \<Rightarrow> RelocationTableKind option \<Rightarrow> DynamicRelocationError" where
  "missing_companion tag source kind =
     (relocation_error DynamicRelocationErrorCode.missing_required_companion_tag)
       \<lparr>relocation_error_tag := Some tag, relocation_error_source_entry_index := source,
        relocation_error_table_kind := kind\<rparr>"

text \<open>The checks both builders end with: whole records, and a range inside the address space.\<close>

definition relocation_table ::
  "SingletonValue \<Rightarrow> SingletonValue \<Rightarrow> SingletonValue \<Rightarrow> RelocationTableKind \<Rightarrow> int \<Rightarrow> int \<Rightarrow> u64 \<Rightarrow>
     (DynamicRelocationTableDescriptor option, DynamicRelocationError) Result" where
  "relocation_table address sz encoding kind address_tag size_tag required_entry_size =
     (if singleton_value sz mod required_entry_size \<noteq> 0
      then Failure ((relocation_error invalid_relocation_table_size)
             \<lparr>relocation_error_tag := Some size_tag,
              relocation_error_source_entry_index := Some (singleton_source_entry_index sz),
              relocation_error_table_kind := Some kind\<rparr>)
      else and_then (GuestRange_create (singleton_value address) (singleton_value sz))
        (\<lambda>_. (relocation_error relocation_table_range_overflow)
           \<lparr>relocation_error_tag := Some address_tag,
            relocation_error_source_entry_index := Some (singleton_source_entry_index address),
            relocation_error_table_kind := Some kind,
            relocation_error_guest_address := Some (singleton_value address)\<rparr>)
        (\<lambda>table_range. Success (Some
           \<lparr>relocs_kind = kind, relocs_range = table_range, relocs_entry_size = required_entry_size,
            relocs_count = singleton_value sz div required_entry_size,
            relocs_address_source_entry_index = singleton_source_entry_index address,
            relocs_size_source_entry_index = singleton_source_entry_index sz,
            relocs_encoding_source_entry_index = singleton_source_entry_index encoding\<rparr>)))"

definition build_group ::
  "GroupValues \<Rightarrow> RelocationTableKind \<Rightarrow> int \<Rightarrow> int \<Rightarrow> int \<Rightarrow> u64 \<Rightarrow>
     (DynamicRelocationTableDescriptor option, DynamicRelocationError) Result" where
  "build_group grp kind address_tag size_tag ent_tag required_entry_size =
     (if \<not> group_active grp then Success None
      else case group_address grp of
        None \<Rightarrow> Failure (missing_companion address_tag None (Some kind))
      | Some address \<Rightarrow> (case group_size grp of
          None \<Rightarrow> Failure (missing_companion size_tag (Some (singleton_source_entry_index address)) (Some kind))
        | Some sz \<Rightarrow> (case group_entry_size grp of
            None \<Rightarrow> Failure (missing_companion ent_tag (Some (singleton_source_entry_index address)) (Some kind))
          | Some entry_size \<Rightarrow>
              if singleton_value entry_size \<noteq> required_entry_size
              then Failure ((relocation_error invalid_relocation_entry_size)
                     \<lparr>relocation_error_tag := Some ent_tag,
                      relocation_error_source_entry_index := Some (singleton_source_entry_index entry_size),
                      relocation_error_table_kind := Some kind\<rparr>)
              else relocation_table address sz entry_size kind address_tag size_tag required_entry_size)))"

text \<open>
  The loops of the two builders select a slot by the entry's tag and merge the entry into it; the
  slots are keyed by the tag.
\<close>

definition build_general_dynamic_relocation_metadata ::
  "DynamicTable \<Rightarrow> (GeneralDynamicRelocationMetadata, DynamicRelocationError) Result" where
  "build_general_dynamic_relocation_metadata table =
     with_value (merge_entries relocation_merge_singleton
         [kDtRela, kDtRelasz, kDtRelaent, kDtRel, kDtRelsz, kDtRelent] (table_entries table) Map.empty) (\<lambda>slots.
     with_value (build_group \<lparr>group_address = slots kDtRel, group_size = slots kDtRelsz, group_entry_size = slots kDtRelent\<rparr>
         rel kDtRel kDtRelsz kDtRelent kElf64RelSize) (\<lambda>rel_descriptor.
     with_value (build_group \<lparr>group_address = slots kDtRela, group_size = slots kDtRelasz, group_entry_size = slots kDtRelaent\<rparr>
         rela kDtRela kDtRelasz kDtRelaent kElf64RelaSize) (\<lambda>rela_descriptor.
       Success \<lparr>general_rel = rel_descriptor, general_rela = rela_descriptor\<rparr>)))"

definition plt_encoding ::
  "SingletonValue \<Rightarrow> (RelocationTableKind \<times> u64, DynamicRelocationError) Result" where
  "plt_encoding encoding =
     (if singleton_value encoding = word_of_int kDtRel then Success (plt_rel, kElf64RelSize)
      else if singleton_value encoding = word_of_int kDtRela then Success (plt_rela, kElf64RelaSize)
      else Failure ((relocation_error invalid_plt_relocation_encoding)
             \<lparr>relocation_error_tag := Some kDtPltrel,
              relocation_error_source_entry_index := Some (singleton_source_entry_index encoding)\<rparr>))"

definition build_plt_dynamic_relocation_metadata ::
  "DynamicTable \<Rightarrow> (DynamicRelocationTableDescriptor option, DynamicRelocationError) Result" where
  "build_plt_dynamic_relocation_metadata table =
     with_value (merge_entries relocation_merge_singleton
         [kDtJmprel, kDtPltrelsz, kDtPltrel] (table_entries table) Map.empty) (\<lambda>slots.
     if slots kDtJmprel = None \<and> slots kDtPltrelsz = None \<and> slots kDtPltrel = None then Success None
     else case slots kDtJmprel of
         None \<Rightarrow> Failure (missing_companion kDtJmprel None None)
       | Some address \<Rightarrow> (case slots kDtPltrelsz of
           None \<Rightarrow> Failure (missing_companion kDtPltrelsz (Some (singleton_source_entry_index address)) None)
         | Some sz \<Rightarrow> (case slots kDtPltrel of
             None \<Rightarrow> Failure (missing_companion kDtPltrel (Some (singleton_source_entry_index address)) None)
           | Some encoding \<Rightarrow>
               with_value (plt_encoding encoding) (\<lambda>(kind, entry_size).
                 relocation_table address sz encoding kind kDtJmprel kDtPltrelsz entry_size))))"

section \<open>One relocation\<close>

fun expected_entry_size :: "RelocationTableKind \<Rightarrow> u64 option" where
  "expected_entry_size rel = Some kElf64RelSize"
| "expected_entry_size plt_rel = Some kElf64RelSize"
| "expected_entry_size rela = Some kElf64RelaSize"
| "expected_entry_size plt_rela = Some kElf64RelaSize"

text \<open>The decoding of a record: the buffer has 24 bytes, zero beyond the record.\<close>

definition relocation_fields ::
  "DynamicRelocationTableDescriptor \<Rightarrow> u64 \<Rightarrow> DynamicSymbolTableDescriptor \<Rightarrow> u8 list \<Rightarrow>
     (DynamicRelocation, DynamicRelocationError) Result" where
  "relocation_fields descriptor index symbols bytes =
     with_value (read_u64 bytes 0) (\<lambda>target_raw.
     with_value (read_u64 bytes 8) (\<lambda>raw_info.
       let sym_index = ucast (drop_bit 32 raw_info) :: u32;
           relocation_type = ucast (raw_info AND 0xffffffff) :: u32 in
       if ucast sym_index \<ge> symbols_count symbols
       then Failure ((relocation_error relocation_symbol_index_out_of_bounds)
              \<lparr>relocation_error_source_entry_index := Some (relocs_address_source_entry_index descriptor),
               relocation_error_table_kind := Some (relocs_kind descriptor),
               relocation_error_table_index := Some index,
               relocation_error_guest_address := Some target_raw,
               relocation_error_symbol_index := Some sym_index\<rparr>)
       else with_value (if relocs_kind descriptor = rela \<or> relocs_kind descriptor = plt_rela
           then map_value (\<lambda>raw_addend. Some (sint raw_addend)) (read_u64 bytes 16)
           else Success None) (\<lambda>addend.
         Success \<lparr>reloc_table_kind = relocs_kind descriptor, reloc_table_index = index, reloc_target = target_raw,
           reloc_raw_info = raw_info, reloc_symbol_index = sym_index, reloc_relocation_type = relocation_type,
           reloc_addend = addend\<rparr>)))"

definition parse_dynamic_relocation ::
  "DynamicRelocationTableDescriptor \<Rightarrow> u64 \<Rightarrow> DynamicSymbolTableDescriptor \<Rightarrow> InitializedImageView \<Rightarrow>
     (DynamicRelocation, DynamicRelocationError) Result" where
  "parse_dynamic_relocation descriptor index symbols image_view =
     (let failed = (\<lambda>code source. (relocation_error code)
            \<lparr>relocation_error_source_entry_index := Some source,
             relocation_error_table_kind := Some (relocs_kind descriptor),
             relocation_error_table_index := Some index\<rparr>);
          source = relocs_address_source_entry_index descriptor;
          base = range_base (relocs_range descriptor) in
      case expected_entry_size (relocs_kind descriptor) of
        None \<Rightarrow> Failure (failed invalid_relocation_entry_size (relocs_encoding_source_entry_index descriptor))
      | Some required_size \<Rightarrow>
          if relocs_entry_size descriptor \<noteq> required_size
          then Failure (failed invalid_relocation_entry_size (relocs_encoding_source_entry_index descriptor))
          else if index \<ge> relocs_count descriptor
          then Failure (failed relocation_index_out_of_bounds source)
          else if index > u64_max div required_size
          then Failure ((failed relocation_table_range_overflow source)\<lparr>relocation_error_guest_address := Some base\<rparr>)
          else and_then (GuestAddress_checked_add base (index * required_size))
            (\<lambda>_. (failed relocation_table_range_overflow source)\<lparr>relocation_error_guest_address := Some base\<rparr>)
            (\<lambda>address.
          and_then (GuestRange_create address required_size)
            (\<lambda>_. (failed relocation_table_range_overflow source)\<lparr>relocation_error_guest_address := Some address\<rparr>)
            (\<lambda>record_range.
          and_then (copy_bytes image_view record_range (unat required_size))
            (\<lambda>e. (failed relocation_entry_unreadable source)
               \<lparr>relocation_error_guest_address := Some (case image_error_guest_address e of None \<Rightarrow> address | Some a \<Rightarrow> a),
                relocation_error_image_error := Some e\<rparr>)
            (\<lambda>output. relocation_fields descriptor index symbols (output @ replicate (24 - length output) 0)))))"

section \<open>Reference semantics\<close>

definition is_rela :: "RelocationTableKind \<Rightarrow> bool" where
  "is_rela kind \<longleftrightarrow> kind = rela \<or> kind = plt_rela"

definition record_size :: "RelocationTableKind \<Rightarrow> nat" where
  "record_size kind = (if is_rela kind then 24 else 16)"

definition decode_relocation :: "RelocationTableKind \<Rightarrow> u64 \<Rightarrow> u8 list \<Rightarrow> DynamicRelocation" where
  "decode_relocation kind index bytes =
     \<lparr>reloc_table_kind = kind, reloc_table_index = index, reloc_target = of_nat (field_nat bytes 0 8),
      reloc_raw_info = of_nat (field_nat bytes 8 8),
      reloc_symbol_index = of_nat (field_nat bytes 12 4), reloc_relocation_type = of_nat (field_nat bytes 8 4),
      reloc_addend = (if is_rela kind then Some (sint (of_nat (field_nat bytes 16 8) :: u64)) else None)\<rparr>"

text \<open>The descriptor of one table from its three slots.\<close>

definition table_of ::
  "RelocationTableKind \<Rightarrow> SingletonValue \<Rightarrow> SingletonValue \<Rightarrow> SingletonValue \<Rightarrow> DynamicRelocationTableDescriptor" where
  "table_of kind address sz encoding =
     \<lparr>relocs_kind = kind, relocs_range = \<lparr>range_base = singleton_value address, range_size = singleton_value sz\<rparr>,
      relocs_entry_size = of_nat (record_size kind), relocs_count = singleton_value sz div of_nat (record_size kind),
      relocs_address_source_entry_index = singleton_source_entry_index address,
      relocs_size_source_entry_index = singleton_source_entry_index sz,
      relocs_encoding_source_entry_index = singleton_source_entry_index encoding\<rparr>"

definition table_fits :: "RelocationTableKind \<Rightarrow> SingletonValue \<Rightarrow> SingletonValue \<Rightarrow> bool" where
  "table_fits kind address sz \<longleftrightarrow>
     unat (singleton_value sz) mod record_size kind = 0 \<and>
     unat (singleton_value address) + unat (singleton_value sz) \<le> 2 ^ 64"

lemma expected_entry_size_eq: "expected_entry_size kind = Some (of_nat (record_size kind))"
  by (cases kind) (simp_all add: record_size_def is_rela_def)

lemma unat_record_size: "unat (of_nat (record_size kind) :: u64) = record_size kind"
  by (simp add: record_size_def)

lemma relocation_table_Success:
  "relocation_table address sz encoding kind at st (of_nat (record_size kind)) = Success dd \<longleftrightarrow>
     table_fits kind address sz \<and> dd = Some (table_of kind address sz encoding)"
proof -
  have "singleton_value sz mod of_nat (record_size kind) = 0 \<longleftrightarrow> unat (singleton_value sz) mod record_size kind = 0"
    by (simp only: word_unat_eq_iff unat_mod unat_record_size unat_0)
  then show ?thesis
    by (auto simp: relocation_table_def and_then_Success GuestRange_create_Success table_fits_def table_of_def)
qed

definition group_descriptor ::
  "RelocationTableKind \<Rightarrow> SingletonValue option \<Rightarrow> SingletonValue option \<Rightarrow> SingletonValue option \<Rightarrow>
     DynamicRelocationTableDescriptor option \<Rightarrow> bool" where
  "group_descriptor kind a s e dd \<longleftrightarrow>
     (a = None \<and> s = None \<and> e = None \<and> dd = None) \<or>
     (\<exists>address sz entry_size. a = Some address \<and> s = Some sz \<and> e = Some entry_size \<and>
        singleton_value entry_size = of_nat (record_size kind) \<and> table_fits kind address sz \<and>
        dd = Some (table_of kind address sz entry_size))"

lemma build_group_Success:
  "build_group \<lparr>group_address = a, group_size = s, group_entry_size = e\<rparr> kind at st et (of_nat (record_size kind)) = Success dd
   \<longleftrightarrow> group_descriptor kind a s e dd"
  by (auto simp: build_group_def group_active_def group_descriptor_def relocation_table_Success split: option.splits)

lemmas build_rel_group = build_group_Success [of _ _ _ rel, simplified record_size_def is_rela_def, simplified]
lemmas build_rela_group = build_group_Success [of _ _ _ rela, simplified record_size_def is_rela_def, simplified]

abbreviation general_tags :: "int list" where
  "general_tags \<equiv> [kDtRela, kDtRelasz, kDtRelaent, kDtRel, kDtRelsz, kDtRelent]"

abbreviation plt_tags :: "int list" where
  "plt_tags \<equiv> [kDtJmprel, kDtPltrelsz, kDtPltrel]"

lemma build_general_iff:
  "build_general_dynamic_relocation_metadata table = Success md \<longleftrightarrow>
     (let slot = slot_of (table_entries table) in
      tags_consistent (table_entries table) general_tags \<and>
      group_descriptor rel (slot kDtRel) (slot kDtRelsz) (slot kDtRelent) (general_rel md) \<and>
      group_descriptor rela (slot kDtRela) (slot kDtRelasz) (slot kDtRelaent) (general_rela md))"
  by (cases md) (auto simp: build_general_dynamic_relocation_metadata_def and_then_Success Let_def
      relocation_merge.merge_entries_start build_rel_group build_rela_group)

text \<open>The kind of a PLT table is what DT_PLTREL names.\<close>

definition plt_kind :: "u64 \<Rightarrow> RelocationTableKind option" where
  "plt_kind encoding = (if encoding = 17 then Some plt_rel else if encoding = 7 then Some plt_rela else None)"

definition plt_descriptor ::
  "SingletonValue option \<Rightarrow> SingletonValue option \<Rightarrow> SingletonValue option \<Rightarrow>
     DynamicRelocationTableDescriptor option \<Rightarrow> bool" where
  "plt_descriptor a s e dd \<longleftrightarrow>
     (a = None \<and> s = None \<and> e = None \<and> dd = None) \<or>
     (\<exists>address sz encoding kind. a = Some address \<and> s = Some sz \<and> e = Some encoding \<and>
        plt_kind (singleton_value encoding) = Some kind \<and> table_fits kind address sz \<and>
        dd = Some (table_of kind address sz encoding))"

lemma plt_encoding_Success:
  "plt_encoding encoding = Success (kind, sz) \<longleftrightarrow>
     plt_kind (singleton_value encoding) = Some kind \<and> sz = of_nat (record_size kind)"
  by (auto simp: plt_encoding_def plt_kind_def record_size_def is_rela_def)

lemma build_plt_iff:
  "build_plt_dynamic_relocation_metadata table = Success dd \<longleftrightarrow>
     (let slot = slot_of (table_entries table) in
      tags_consistent (table_entries table) plt_tags \<and>
      plt_descriptor (slot kDtJmprel) (slot kDtPltrelsz) (slot kDtPltrel) dd)"
  unfolding build_plt_dynamic_relocation_metadata_def and_then_Success relocation_merge.merge_entries_start
    plt_descriptor_def Let_def
  by (auto simp: and_then_Success plt_encoding_Success relocation_table_Success split: option.splits)

lemma build_relocation_metadata_defined:
  "build_general_dynamic_relocation_metadata table \<noteq> Undefined"
  "build_plt_dynamic_relocation_metadata table \<noteq> Undefined"
proof -
  have table: "relocation_table address sz encoding kind at st n \<noteq> Undefined" for address sz encoding kind at st n
    by (auto simp: relocation_table_def and_then_Undefined)
  then have "build_group g kind at st et n \<noteq> Undefined" for g kind at st et n
    by (auto simp: build_group_def split: option.splits)
  then show "build_general_dynamic_relocation_metadata table \<noteq> Undefined"
    by (simp add: build_general_dynamic_relocation_metadata_def and_then_Undefined relocation_merge.merge_entries_defined)
  have "plt_encoding e \<noteq> Undefined" for e by (simp add: plt_encoding_def)
  with table show "build_plt_dynamic_relocation_metadata table \<noteq> Undefined"
    by (auto simp: build_plt_dynamic_relocation_metadata_def and_then_Undefined
        relocation_merge.merge_entries_defined split: option.splits)
qed

section \<open>Reading relocations\<close>

lemma field_nat_append: "off + n \<le> length xs \<Longrightarrow> field_nat (xs @ ys) off n = field_nat xs off n"
  by (simp add: field_nat_def)

lemma field_nat_split: "off + m \<le> length bs \<Longrightarrow> field_nat bs off (m + n) = field_nat bs off m + 256 ^ m * field_nat bs (off + m) n"
  by (simp add: field_nat_def take_add le_nat_append add.commute)

lemma field_nat_bound: "field_nat bs off n < 256 ^ n"
proof -
  have "field_nat bs off n < 256 ^ length (take n (drop off bs))"
    unfolding field_nat_def by (rule le_nat_bound)
  also have "\<dots> \<le> 256 ^ n" by (rule power_increasing) auto
  finally show ?thesis .
qed

text \<open>The two halves of r_info.\<close>

lemma info_halves:
  assumes "16 \<le> length bs"
  defines "w \<equiv> of_nat (field_nat bs 8 8) :: u64"
  shows "(ucast (drop_bit 32 w) :: u32) = of_nat (field_nat bs 12 4)"
    and "(ucast (w AND 0xffffffff) :: u32) = of_nat (field_nat bs 8 4)"
proof -
  have "field_nat bs 8 (4 + 4) = field_nat bs 8 4 + 256 ^ 4 * field_nat bs (8 + 4) 4"
    by (rule field_nat_split) (use assms(1) in simp)
  then have n: "field_nat bs 8 8 = field_nat bs 8 4 + 2 ^ 32 * field_nat bs 12 4" by simp
  have lo: "field_nat bs 8 4 < 2 ^ 32" and hi: "field_nat bs 12 4 < 2 ^ 32" and all: "field_nat bs 8 8 < 2 ^ 64"
    using field_nat_bound [of bs 8 4] field_nat_bound [of bs 12 4] field_nat_bound [of bs 8 8] by simp_all
  have w: "unat w = field_nat bs 8 8" using all by (simp add: w_def unat_of_nat)
  have "unat (ucast (drop_bit 32 w) :: u32) = field_nat bs 12 4"
    using lo hi n w by (simp add: unsigned_ucast_eq unsigned_drop_bit_eq drop_bit_eq_div take_bit_eq_mod unat_div)
  then show "(ucast (drop_bit 32 w) :: u32) = of_nat (field_nat bs 12 4)"
    using hi by (simp add: word_unat_eq_iff unat_of_nat)
  have "(0xffffffff :: u64) = mask 32" by (simp add: mask_eq_exp_minus_1)
  then have "unat (ucast (w AND 0xffffffff) :: u32) = field_nat bs 8 8 mod 2 ^ 32"
    using w by (simp only: take_bit_eq_mask [symmetric] unsigned_ucast_eq unsigned_take_bit_eq)
      (simp add: take_bit_eq_mod)
  then show "(ucast (w AND 0xffffffff) :: u32) = of_nat (field_nat bs 8 4)"
    using lo n by (simp add: word_unat_eq_iff unat_of_nat)
qed

lemma relocation_fields_Success:
  assumes "guest_bytes rd a (record_size (relocs_kind d)) out"
  shows "relocation_fields d i symbols (out @ replicate (24 - length out) 0) = Success r \<longleftrightarrow>
     field_nat out 12 4 < unat (symbols_count symbols) \<and> r = decode_relocation (relocs_kind d) i out"
proof -
  let ?k = "relocs_kind d" and ?bs = "out @ replicate (24 - length out) 0"
  have len: "length out = record_size ?k" using assms by (rule guest_bytes_length)
  then have len24: "16 \<le> length out" "length out \<le> 24" "is_rela ?k \<Longrightarrow> length out = 24"
    by (auto simp: record_size_def)
  have f: "field_nat ?bs 0 8 = field_nat out 0 8" "field_nat ?bs 8 8 = field_nat out 8 8"
    using len24 by (simp_all add: field_nat_append)
  have sym: "unat (of_nat (field_nat out 12 4) :: u32) = field_nat out 12 4"
    using field_nat_bound [of out 12 4] by (simp add: unat_of_nat)
  have "ucast (of_nat (field_nat out 12 4) :: u32) \<ge> symbols_count symbols \<longleftrightarrow>
      \<not> field_nat out 12 4 < unat (symbols_count symbols)"
    by (simp add: word_le_nat_alt unat_ucast_up sym not_less)
  with len24 show ?thesis
    by (cases "is_rela ?k")
      (auto simp: relocation_fields_def read_u64_ok f info_halves Let_def decode_relocation_def is_rela_def)
qed

lemma relocation_fields_defined:
  assumes "guest_bytes rd a (record_size (relocs_kind d)) out"
  shows "relocation_fields d i symbols (out @ replicate (24 - length out) 0) \<noteq> Undefined"
proof -
  have "16 \<le> length out" "length out \<le> 24"
    using guest_bytes_length [OF assms] by (auto simp: record_size_def)
  then show ?thesis
    by (auto simp: relocation_fields_def read_u64_ok Let_def and_then_Undefined)
qed

lemma gt_max_div_record:
  "(i :: u64) > u64_max div of_nat (record_size kind) \<longleftrightarrow> 2 ^ 64 \<le> unat i * record_size kind"
proof (cases "is_rela kind")
  case True
  then show ?thesis using gt_max_div_24 [of i] by (simp add: record_size_def)
next
  case False
  then show ?thesis by (simp add: record_size_def word_less_nat_alt unat_div) linarith
qed

lemma parse_dynamic_relocation_iff:
  assumes "view_wf view"
  shows "parse_dynamic_relocation d i symbols view = Success r \<longleftrightarrow>
     (let n = record_size (relocs_kind d); a = unat (range_base (relocs_range d)) + unat i * n in
      unat (relocs_entry_size d) = n \<and> i < relocs_count d \<and> a < 2 ^ 64 \<and>
      (\<exists>bs. guest_bytes (read_byte view) (of_nat a) n bs \<and>
        field_nat bs 12 4 < unat (symbols_count symbols) \<and> r = decode_relocation (relocs_kind d) i bs))"
proof -
  let ?n = "record_size (relocs_kind d)" and ?b = "range_base (relocs_range d)"
  let ?w = "of_nat ?n :: u64"
  have size: "relocs_entry_size d = ?w \<longleftrightarrow> unat (relocs_entry_size d) = ?n"
    by (simp add: word_unat_eq_iff unat_record_size)
  have addr: "(of_nat (unat ?b + unat i * ?n) :: u64) = ?b + i * ?w" by simp
  have space: "unat i * ?n < 2 ^ 64 \<and> unat ?b + unat (i * ?w) < 2 ^ 64 \<longleftrightarrow> unat ?b + unat i * ?n < 2 ^ 64"
    using unat_mult_no_wrap [of i ?w] by (auto simp: unat_record_size)
  have "parse_dynamic_relocation d i symbols view = Success r \<longleftrightarrow>
      unat (relocs_entry_size d) = ?n \<and> i < relocs_count d \<and>
      (unat i * ?n < 2 ^ 64 \<and> unat ?b + unat (i * ?w) < 2 ^ 64) \<and>
      (\<exists>bs. guest_bytes (read_byte view) (?b + i * ?w) ?n bs \<and>
        relocation_fields d i symbols (bs @ replicate (24 - length bs) 0) = Success r)"
    unfolding parse_dynamic_relocation_def Let_def expected_entry_size_eq option.case if_Failure_Success
      gt_max_div_record and_then_Success [of "GuestAddress_checked_add _ _"] GuestAddress_checked_add_Success
      view_ranges.create_copy_Success [OF assms unat_record_size] unat_record_size size [symmetric]
    by (auto simp: not_le)
  moreover have "(\<exists>bs. guest_bytes (read_byte view) (?b + i * ?w) ?n bs \<and>
        relocation_fields d i symbols (bs @ replicate (24 - length bs) 0) = Success r) \<longleftrightarrow>
      (\<exists>bs. guest_bytes (read_byte view) (?b + i * ?w) ?n bs \<and>
        field_nat bs 12 4 < unat (symbols_count symbols) \<and> r = decode_relocation (relocs_kind d) i bs)"
    using relocation_fields_Success [of "read_byte view" "?b + i * ?w" d _ i symbols r] by blast
  ultimately show ?thesis unfolding space Let_def addr by blast
qed

lemma parse_dynamic_relocation_defined:
  assumes "view_wf view"
  shows "parse_dynamic_relocation d i symbols view \<noteq> Undefined"
  unfolding parse_dynamic_relocation_def Let_def expected_entry_size_eq option.case unat_record_size
  by (auto simp: and_then_Undefined [of "GuestAddress_checked_add _ _"] relocation_fields_defined
      view_ranges.create_copy_Undefined [OF assms unat_record_size])

section \<open>Properties\<close>

text \<open>
  The DT_REL and DT_RELA tables: a group with no tag is absent, and a group is accepted exactly when
  its three tags are present with one value each, its entry size is that of its kind, its size is a
  whole number of entries and its range fits the address space.
\<close>

theorem build_general_dynamic_relocation_metadata_correct:
  "build_general_dynamic_relocation_metadata table \<noteq> Undefined \<and>
   (build_general_dynamic_relocation_metadata table = Success md \<longleftrightarrow>
     (let slot = slot_of (table_entries table) in
      tags_consistent (table_entries table) general_tags \<and>
      group_descriptor rel (slot kDtRel) (slot kDtRelsz) (slot kDtRelent) (general_rel md) \<and>
      group_descriptor rela (slot kDtRela) (slot kDtRelasz) (slot kDtRelaent) (general_rela md)))"
  by (simp only: build_general_iff build_relocation_metadata_defined simp_thms)

text \<open>
  The DT_JMPREL table: absent when none of its tags is present, and otherwise accepted exactly when
  the three tags are present with one value each, DT_PLTREL names DT_REL or DT_RELA, the size is a whole
  number of entries of that kind and the range fits the address space.
\<close>

theorem build_plt_dynamic_relocation_metadata_correct:
  "build_plt_dynamic_relocation_metadata table \<noteq> Undefined \<and>
   (build_plt_dynamic_relocation_metadata table = Success dd \<longleftrightarrow>
     (let slot = slot_of (table_entries table) in
      tags_consistent (table_entries table) plt_tags \<and>
      plt_descriptor (slot kDtJmprel) (slot kDtPltrelsz) (slot kDtPltrel) dd))"
  by (simp only: build_plt_iff build_relocation_metadata_defined simp_thms)

text \<open>
  Reading relocation i never indexes out of range, and returns a relocation exactly when the entry
  size is that of the table's kind, i is below the count, the record lies inside the address space and
  is readable, and its symbol index is below the symbol count; the target, type, symbol index and (for
  DT_RELA encodings) signed addend are decoded from the record's bytes.
\<close>

theorem parse_dynamic_relocation_correct:
  assumes "view_wf view"
  shows "parse_dynamic_relocation d i symbols view \<noteq> Undefined \<and>
    (\<forall>r. parse_dynamic_relocation d i symbols view = Success r \<longleftrightarrow>
     (let n = record_size (relocs_kind d); a = unat (range_base (relocs_range d)) + unat i * n in
      unat (relocs_entry_size d) = n \<and> i < relocs_count d \<and> a < 2 ^ 64 \<and>
      (\<exists>bs. guest_bytes (read_byte view) (of_nat a) n bs \<and>
        field_nat bs 12 4 < unat (symbols_count symbols) \<and> r = decode_relocation (relocs_kind d) i bs)))"
  by (simp only: parse_dynamic_relocation_iff [OF assms] parse_dynamic_relocation_defined [OF assms] simp_thms)

definition sample_relocs :: DynamicRelocationTableDescriptor where
  "sample_relocs = table_of rela \<lparr>singleton_value = 0x2024, singleton_source_entry_index = 3\<rparr>
     \<lparr>singleton_value = 72, singleton_source_entry_index = 4\<rparr> \<lparr>singleton_value = 24, singleton_source_entry_index = 5\<rparr>"

theorem parse_dynamic_relocation_correct_witness:
  "parse_dynamic_relocation sample_relocs 1 sample_symbols sample_gnu_view =
     Success (decode_relocation rela 1 (replicate 24 0))"
proof -
  have "field_nat (replicate 24 0) 12 4 = 0" by (simp add: field_nat_def le_nat_eq_0)
  then show ?thesis
    using parse_dynamic_relocation_correct [OF sample_gnu_view_wf, of sample_relocs 1 sample_symbols]
      sample_symbol_bytes [of "0x203c"]
    by (auto simp: sample_relocs_def table_of_def record_size_def is_rela_def sample_symbols_def
        symbol_descriptor_def Let_def)
qed

end
