(* ===== verification/Tls_Template.thy ===== *)
theory Tls_Template
  imports Elf64
begin

text \<open>
  src/loader/tls_template.cpp: the PT_TLS descriptor of a program, and its materialization into a
  buffer. \<open>max_size\<close> stands for std::vector<std::byte>::max_size() and \<open>alloc\<close> for the outcome of
  std::vector::assign.
\<close>

datatype TlsTemplateErrorCode =
    duplicate_tls_segment
  | tls_initialized_size_exceeds_total
  | tls_file_range_overflow
  | tls_file_range_out_of_bounds
  | invalid_tls_flags
  | invalid_tls_alignment
  | invalid_tls_alignment_congruence
  | host_size_unrepresentable
  | host_allocation_failure

record TlsTemplateError =
  tls_error_code :: TlsTemplateErrorCode
  tls_error_source_program_header_index :: "nat option"
  tls_error_conflicting_program_header_index :: "nat option"
  tls_error_file_offset :: "u64 option"

record TlsTemplateDescriptor =
  tls_source_program_header_index :: nat
  tls_file_offset :: u64
  tls_initialization_address :: u64
  tls_initialized_size :: u64
  tls_total_size :: u64
  tls_alignment :: u64

abbreviation kPtTls :: u32 where "kPtTls \<equiv> 7"
abbreviation kPfRead :: u32 where "kPfRead \<equiv> 4"

definition tls_error ::
  "TlsTemplateErrorCode \<Rightarrow> nat option \<Rightarrow> nat option \<Rightarrow> u64 option \<Rightarrow> TlsTemplateError" where
  "tls_error code source_index conflicting_index file_offset =
     \<lparr>tls_error_code = code, tls_error_source_program_header_index = source_index,
      tls_error_conflicting_program_header_index = conflicting_index, tls_error_file_offset = file_offset\<rparr>"

text \<open>file_range_is_valid: the result and the overflow flag.\<close>

definition tls_file_range_is_valid :: "u64 \<Rightarrow> u64 \<Rightarrow> u8 list \<Rightarrow> bool \<times> bool" where
  "tls_file_range_is_valid offset sz image_bytes =
     (if sz = 0 then (True, False)
      else if offset > u64_max - sz then (False, True)
      else (let finish = offset + sz; image_size = of_nat (length image_bytes) in
        (offset \<le> image_size \<and> finish \<le> image_size, False)))"

primrec find_tls :: "ProgramHeader list \<Rightarrow> ProgramHeader option \<Rightarrow> (ProgramHeader option, TlsTemplateError) Result" where
  "find_tls [] tls = Success tls"
| "find_tls (header # rest) tls =
     (if ph_type header \<noteq> kPtTls then find_tls rest tls
      else case tls of
          Some t \<Rightarrow> Failure (tls_error duplicate_tls_segment (Some (ph_index header)) (Some (ph_index t)) None)
        | None \<Rightarrow> find_tls rest (Some header))"

definition check_tls_alignment :: "ProgramHeader \<Rightarrow> (unit, TlsTemplateError) Result" where
  "check_tls_alignment tls =
     (if ph_alignment tls > 1
      then if \<not> is_power_of_two (ph_alignment tls)
           then Failure (tls_error invalid_tls_alignment (Some (ph_index tls)) None None)
           else if ph_virtual_address tls mod ph_alignment tls \<noteq> ph_offset tls mod ph_alignment tls
           then Failure (tls_error invalid_tls_alignment_congruence (Some (ph_index tls)) None None)
           else Success ()
      else Success ())"

definition check_tls_file_range :: "u64 \<Rightarrow> u64 \<Rightarrow> nat \<Rightarrow> u8 list \<Rightarrow> (unit, TlsTemplateError) Result" where
  "check_tls_file_range offset sz source_index image_bytes =
     (case tls_file_range_is_valid offset sz image_bytes of
        (True, _) \<Rightarrow> Success ()
      | (False, overflow) \<Rightarrow>
          Failure (tls_error (if overflow then tls_file_range_overflow else tls_file_range_out_of_bounds)
            (Some source_index) None (Some offset)))"

definition build_tls_template_descriptor ::
  "ProgramHeader list \<Rightarrow> u8 list \<Rightarrow> (TlsTemplateDescriptor option, TlsTemplateError) Result" where
  "build_tls_template_descriptor program_headers image_bytes =
     with_value (find_tls program_headers None) (\<lambda>found. case found of
       None \<Rightarrow> Success None
     | Some tls \<Rightarrow>
         if ph_flags tls \<noteq> kPfRead
         then Failure (tls_error invalid_tls_flags (Some (ph_index tls)) None None)
         else if ph_file_size tls > ph_memory_size tls
         then Failure (tls_error tls_initialized_size_exceeds_total (Some (ph_index tls)) None (Some (ph_offset tls)))
         else with_value (check_tls_alignment tls) (\<lambda>_.
              with_value (check_tls_file_range (ph_offset tls) (ph_file_size tls) (ph_index tls) image_bytes) (\<lambda>_.
                Success (Some \<lparr>tls_source_program_header_index = ph_index tls, tls_file_offset = ph_offset tls,
                  tls_initialization_address = ph_virtual_address tls, tls_initialized_size = ph_file_size tls,
                  tls_total_size = ph_memory_size tls, tls_alignment = ph_alignment tls\<rparr>))))"

text \<open>The copy loop over the initialized bytes.\<close>

primrec copy_template :: "u8 list \<Rightarrow> u64 \<Rightarrow> nat list \<Rightarrow> u8 list \<Rightarrow> (u8 list, TlsTemplateError) Result" where
  "copy_template image_bytes source_offset [] result = Success result"
| "copy_template image_bytes source_offset (i # is) result =
     with_value (span_at image_bytes (source_offset + of_nat i)) (\<lambda>byte.
       if i < length result then copy_template image_bytes source_offset is (result[i := byte]) else Undefined)"

definition materialize_tls_template ::
  "nat \<Rightarrow> host_allocator \<Rightarrow> TlsTemplateDescriptor \<Rightarrow> u8 list \<Rightarrow> (u8 list, TlsTemplateError) Result" where
  "materialize_tls_template max_size alloc descriptor image_bytes =
     (let total_size = tls_total_size descriptor; initialized_size = tls_initialized_size descriptor;
          source_index = tls_source_program_header_index descriptor; file_offset = tls_file_offset descriptor;
          failed = (\<lambda>code. tls_error code (Some source_index) None (Some file_offset)) in
      if initialized_size > total_size
      then Failure (failed tls_initialized_size_exceeds_total)
      else with_value (check_tls_file_range file_offset initialized_size source_index image_bytes) (\<lambda>_.
        if unat total_size > max_size
        then Failure (failed TlsTemplateErrorCode.host_size_unrepresentable)
        else case alloc (unat total_size) of
            Bad_alloc \<Rightarrow> Failure (failed TlsTemplateErrorCode.host_allocation_failure)
          | Length_error \<Rightarrow> Failure (failed TlsTemplateErrorCode.host_size_unrepresentable)
          | No_exception \<Rightarrow>
              if initialized_size > 0
              then copy_template image_bytes file_offset [0..<unat initialized_size]
                     (replicate (unat total_size) 0)
              else Success (replicate (unat total_size) 0)))"

section \<open>Reference semantics\<close>

definition tls_segments :: "ProgramHeader list \<Rightarrow> ProgramHeader list" where
  "tls_segments hs = filter (\<lambda>h. ph_type h = kPtTls) hs"

definition tls_file_ok :: "u64 \<Rightarrow> u64 \<Rightarrow> nat \<Rightarrow> bool" where
  "tls_file_ok offset sz n \<longleftrightarrow> sz = 0 \<or> unat offset + unat sz \<le> n"

definition tls_segment_ok :: "nat \<Rightarrow> ProgramHeader \<Rightarrow> bool" where
  "tls_segment_ok n h \<longleftrightarrow>
     ph_flags h = kPfRead \<and> unat (ph_file_size h) \<le> unat (ph_memory_size h) \<and>
     (unat (ph_alignment h) > 1 \<longrightarrow> (\<exists>k. unat (ph_alignment h) = 2 ^ k) \<and>
        unat (ph_virtual_address h) mod unat (ph_alignment h) = unat (ph_offset h) mod unat (ph_alignment h)) \<and>
     tls_file_ok (ph_offset h) (ph_file_size h) n"

definition tls_descriptor_of :: "ProgramHeader \<Rightarrow> TlsTemplateDescriptor" where
  "tls_descriptor_of h =
     \<lparr>tls_source_program_header_index = ph_index h, tls_file_offset = ph_offset h,
      tls_initialization_address = ph_virtual_address h, tls_initialized_size = ph_file_size h,
      tls_total_size = ph_memory_size h, tls_alignment = ph_alignment h\<rparr>"

text \<open>The template: the initialized bytes of the file, zeros up to the total size.\<close>

definition tls_image :: "TlsTemplateDescriptor \<Rightarrow> u8 list \<Rightarrow> u8 list" where
  "tls_image d bytes =
     take (unat (tls_initialized_size d)) (drop (unat (tls_file_offset d)) bytes) @
     replicate (unat (tls_total_size d) - unat (tls_initialized_size d)) 0"

lemma find_tls_Success:
  "find_tls hs tls = Success r \<longleftrightarrow>
     (case tls of None \<Rightarrow> (case tls_segments hs of [] \<Rightarrow> r = None | [h] \<Rightarrow> r = Some h | _ \<Rightarrow> False)
      | Some t \<Rightarrow> tls_segments hs = [] \<and> r = Some t)"
  by (induction hs arbitrary: tls) (auto simp: tls_segments_def split: option.splits list.splits)

lemma find_tls_defined: "find_tls hs tls \<noteq> Undefined"
  by (induction hs arbitrary: tls) (auto split: option.splits)

lemma check_tls_file_range_Success:
  assumes "host_object bytes"
  shows "check_tls_file_range offset sz i bytes = Success u \<longleftrightarrow> tls_file_ok offset sz (length bytes)"
proof -
  have n: "unat (of_nat (length bytes) :: u64) = length bytes" using assms by (rule host_object_unat)
  show ?thesis
    using host_object_length [OF assms] unfolding check_tls_file_range_def tls_file_range_is_valid_def Let_def gt_max_minus_iff
    by (auto simp: tls_file_ok_def word_le_nat_alt n unat_add_no_wrap split: bool.splits if_splits)
qed

lemma check_tls_file_range_defined: "check_tls_file_range offset sz i bytes \<noteq> Undefined"
  by (simp add: check_tls_file_range_def split: prod.split bool.split)

lemma check_tls_alignment_Success:
  "check_tls_alignment h = Success u \<longleftrightarrow>
     (unat (ph_alignment h) > 1 \<longrightarrow> (\<exists>k. unat (ph_alignment h) = 2 ^ k) \<and>
        unat (ph_virtual_address h) mod unat (ph_alignment h) = unat (ph_offset h) mod unat (ph_alignment h))"
  by (auto simp: check_tls_alignment_def is_power_of_two_iff mod_unat_iff word_less_nat_alt)

lemma check_tls_alignment_defined: "check_tls_alignment h \<noteq> Undefined"
  by (simp add: check_tls_alignment_def)

lemma build_tls_iff:
  assumes "host_object bytes"
  shows "build_tls_template_descriptor hs bytes = Success dd \<longleftrightarrow>
     (case tls_segments hs of [] \<Rightarrow> dd = None
      | [h] \<Rightarrow> tls_segment_ok (length bytes) h \<and> dd = Some (tls_descriptor_of h)
      | _ \<Rightarrow> False)"
  by (auto simp: build_tls_template_descriptor_def and_then_Success find_tls_Success check_tls_alignment_Success
      check_tls_file_range_Success [OF assms] tls_segment_ok_def tls_descriptor_of_def word_less_nat_alt
      split: list.splits option.splits)

lemma build_tls_defined: "build_tls_template_descriptor hs bytes \<noteq> Undefined"
  by (auto simp: build_tls_template_descriptor_def and_then_Undefined find_tls_defined check_tls_alignment_defined
      check_tls_file_range_defined split: option.splits)

lemma copy_template_ok:
  assumes "unat off + n \<le> length bytes" and "length bytes < 2 ^ 64" and "n \<le> length res" and "m \<le> n"
    and "take m res = take m (drop (unat off) bytes)"
  shows "copy_template bytes off [m..<n] res = Success (take n (drop (unat off) bytes) @ drop n res)"
  using assms(3-5)
proof (induction "n - m" arbitrary: m res)
  case 0
  then show ?case by (metis append_take_drop_id copy_template.simps(1) diff_is_0_eq le_antisym upt_conv_Nil)
next
  case (Suc d)
  then have m: "m < n" "d = n - Suc m" by linarith+
  have "unat (of_nat m :: u64) = m" using m assms(1,2) by (simp add: unat_of_nat)
  then have idx: "unat (off + of_nat m) = unat off + m" using m assms(1,2) by (simp add: unat_add_no_wrap)
  have "take (Suc m) (res[m := bytes ! (unat off + m)]) = take (Suc m) (drop (unat off) bytes)"
    using Suc.prems m assms(1) by (simp add: take_Suc_conv_app_nth)
  then show ?case
    using Suc.hyps(1) [of "Suc m" "res[m := bytes ! (unat off + m)]"] Suc.prems m idx assms(1)
    by (simp add: upt_conv_Cons)
qed

section \<open>Properties\<close>

text \<open>
  The TLS descriptor is absent when there is no PT_TLS segment, and otherwise built exactly when
  there is one such segment, readable only, with an initialized part no larger than the whole, a
  power-of-two alignment to which address and file offset are congruent, and its file range inside the
  file.
\<close>

theorem build_tls_template_descriptor_correct:
  assumes "host_object bytes"
  shows "build_tls_template_descriptor hs bytes \<noteq> Undefined \<and>
    (\<forall>dd. build_tls_template_descriptor hs bytes = Success dd \<longleftrightarrow>
     (case tls_segments hs of [] \<Rightarrow> dd = None
      | [h] \<Rightarrow> tls_segment_ok (length bytes) h \<and> dd = Some (tls_descriptor_of h)
      | _ \<Rightarrow> False))"
  by (simp add: build_tls_iff [OF assms] build_tls_defined)

definition sample_tls :: ProgramHeader where
  "sample_tls = \<lparr>ph_type = 7, ph_flags = 4, ph_offset = 2, ph_virtual_address = 0x1002,
     ph_physical_address = 0, ph_file_size = 2, ph_memory_size = 5, ph_alignment = 4, ph_index = 0\<rparr>"

theorem build_tls_template_descriptor_correct_witness:
  "build_tls_template_descriptor [sample_tls] [9, 8, 7, 6] = Success (Some (tls_descriptor_of sample_tls))"
proof -
  have "\<exists>k. (4 :: nat) = 2 ^ k" by (rule exI [of _ 2]) simp
  then show ?thesis
    using build_tls_template_descriptor_correct [of "[9, 8, 7, 6]" "[sample_tls]"]
    by (simp add: host_object_def tls_segments_def sample_tls_def tls_segment_ok_def tls_file_ok_def)
qed

text \<open>
  C7. Materializing a descriptor never indexes out of range; when it succeeds the result is the
  initialized bytes of the file followed by zeros up to the total size, and it succeeds whenever the
  sizes are ordered, the file range is inside the file and the host can allocate the buffer.
\<close>

theorem materialize_tls_template_correct:
  assumes "host_object bytes"
  shows "materialize_tls_template max_size alloc d bytes \<noteq> Undefined \<and>
    (\<forall>out. materialize_tls_template max_size alloc d bytes = Success out \<longleftrightarrow>
      tls_initialized_size d \<le> tls_total_size d \<and>
      tls_file_ok (tls_file_offset d) (tls_initialized_size d) (length bytes) \<and>
      unat (tls_total_size d) \<le> max_size \<and> alloc (unat (tls_total_size d)) = No_exception \<and>
      out = tls_image d bytes)"
proof (cases "tls_initialized_size d \<le> tls_total_size d \<and>
      tls_file_ok (tls_file_offset d) (tls_initialized_size d) (length bytes)")
  case True
  let ?i = "unat (tls_initialized_size d)" and ?t = "unat (tls_total_size d)"
  have "?i \<le> ?t" using True by (simp add: word_le_nat_alt)
  have "copy_template bytes (tls_file_offset d) [0..<?i] (replicate ?t 0) = Success (tls_image d bytes)"
    if "tls_initialized_size d \<noteq> 0"
    using copy_template_ok [of "tls_file_offset d" ?i bytes "replicate ?t 0" 0] that True \<open>?i \<le> ?t\<close>
      host_object_length [OF assms] by (simp add: tls_file_ok_def tls_image_def drop_replicate)
  moreover have "tls_image d bytes = replicate ?t 0" if "tls_initialized_size d = 0"
    using that by (simp add: tls_image_def)
  moreover have "check_tls_file_range (tls_file_offset d) (tls_initialized_size d) i bytes = Success ()" for i
    using True by (simp add: check_tls_file_range_Success [OF assms])
  ultimately show ?thesis
    using True
    by (cases "tls_initialized_size d = 0")
      (auto simp: materialize_tls_template_def Let_def word_neq_0_conv split: host_event.split)
next
  case False
  then show ?thesis
    by (auto simp: materialize_tls_template_def Let_def and_then_Undefined and_then_Success
        check_tls_file_range_Success [OF assms] check_tls_file_range_defined not_le split: if_splits)
qed

theorem materialize_tls_template_correct_witness:
  "materialize_tls_template 1000 (\<lambda>_. No_exception) (tls_descriptor_of sample_tls) [9, 8, 7, 6] =
     Success [7, 6, 0, 0, 0]"
  using materialize_tls_template_correct [of "[9, 8, 7, 6]" 1000 "\<lambda>_. No_exception" "tls_descriptor_of sample_tls"]
  by (simp add: host_object_def tls_descriptor_of_def sample_tls_def tls_file_ok_def tls_image_def numeral_3_eq_3)

end
