(* ===== verification/Initial_Stack.thy ===== *)
theory Initial_Stack
  imports Guest_Address
begin

text \<open>
  src/loader/initial_stack.cpp: build_initial_stack lays out the System V process stack (argc, argv,
  envp, auxv, string data) at the top of a storage range. \<open>max_size\<close> stands for
  std::vector<std::byte>::max_size(), \<open>alloc_bytes\<close> for the outcome of assign on the byte vector and
  \<open>alloc_addresses\<close> for the outcome of reserve on the address vectors.
\<close>

section \<open>Data\<close>

record AuxiliaryVectorEntry =
  aux_type :: u64
  aux_value :: u64

record InitialStackRequest =
  request_storage :: GuestRange
  request_arguments :: "u8 list list"
  request_environment :: "u8 list list"
  request_auxiliary_vector :: "AuxiliaryVectorEntry list"

datatype InitialStackErrorCode =
    embedded_nul
  | auxv_contains_terminator
  | layout_size_overflow
  | stack_too_small
  | host_size_unrepresentable
  | guest_address_overflow
  | host_allocation_failure

datatype InitialStackInputKind = argument | environment | auxiliary_vector

record InitialStackError =
  stack_error_code :: InitialStackErrorCode
  stack_error_input_kind :: "InitialStackInputKind option"
  stack_error_input_index :: "nat option"

record InitialStackImage =
  stack_storage :: GuestRange
  stack_used_range :: GuestRange
  stack_rsp :: GuestAddress
  stack_bytes :: "u8 list"

abbreviation kWordSize :: u64 where "kWordSize \<equiv> 8"
abbreviation kAuxEntrySize :: u64 where "kAuxEntrySize \<equiv> 16"
abbreviation kStackAlignment :: u64 where "kStackAlignment \<equiv> 16"

definition stack_error :: "InitialStackErrorCode \<Rightarrow> InitialStackError" where
  "stack_error code = \<lparr>stack_error_code = code, stack_error_input_kind = None, stack_error_input_index = None\<rparr>"

definition contains_nul :: "u8 list \<Rightarrow> bool" where
  "contains_nul value = list_ex (\<lambda>c. c = 0) value"

section \<open>Input checks\<close>

primrec check_strings ::
  "InitialStackInputKind \<Rightarrow> nat \<Rightarrow> u8 list list \<Rightarrow> (unit, InitialStackError) Result" where
  "check_strings kind i [] = Success ()"
| "check_strings kind i (value # rest) =
     (if contains_nul value
      then Failure ((stack_error embedded_nul)
             \<lparr>stack_error_input_kind := Some kind, stack_error_input_index := Some i\<rparr>)
      else check_strings kind (Suc i) rest)"

primrec check_auxv :: "nat \<Rightarrow> AuxiliaryVectorEntry list \<Rightarrow> (unit, InitialStackError) Result" where
  "check_auxv i [] = Success ()"
| "check_auxv i (entry # rest) =
     (if aux_type entry = 0
      then Failure ((stack_error auxv_contains_terminator)
             \<lparr>stack_error_input_kind := Some auxiliary_vector, stack_error_input_index := Some i\<rparr>)
      else check_auxv (Suc i) rest)"

section \<open>Layout\<close>

definition add_string_size :: "u64 \<Rightarrow> u8 list \<Rightarrow> u64 option" where
  "add_string_size information_size value =
     (case checked_add_u64 (of_nat (length value)) 1 of
        None \<Rightarrow> None
      | Some terminated_size \<Rightarrow> checked_add_u64 information_size terminated_size)"

primrec add_string_sizes :: "u64 \<Rightarrow> u8 list list \<Rightarrow> (u64, InitialStackError) Result" where
  "add_string_sizes information_size [] = Success information_size"
| "add_string_sizes information_size (value # rest) = (case add_string_size information_size value of
       None \<Rightarrow> Failure (stack_error layout_size_overflow)
     | Some next_size \<Rightarrow> add_string_sizes next_size rest)"

primrec add_pieces :: "u64 \<Rightarrow> u64 list \<Rightarrow> (u64, InitialStackError) Result" where
  "add_pieces control_size [] = Success control_size"
| "add_pieces control_size (piece # rest) = (case checked_add_u64 control_size piece of
       None \<Rightarrow> Failure (stack_error layout_size_overflow)
     | Some next_size \<Rightarrow> add_pieces next_size rest)"

definition control_size_of :: "nat \<Rightarrow> nat \<Rightarrow> nat \<Rightarrow> (u64, InitialStackError) Result" where
  "control_size_of argument_count environment_count aux_count =
     (case (checked_mul_u64 (of_nat argument_count) kWordSize, checked_mul_u64 (of_nat environment_count) kWordSize,
            Option.bind (checked_add_u64 (of_nat aux_count) 1) (\<lambda>n. checked_mul_u64 n kAuxEntrySize)) of
        (Some argument_pointer_bytes, Some environment_pointer_bytes, Some aux_bytes) \<Rightarrow>
          add_pieces kWordSize [argument_pointer_bytes, kWordSize, environment_pointer_bytes, kWordSize, aux_bytes]
      | _ \<Rightarrow> Failure (stack_error layout_size_overflow))"

definition stack_address_at :: "GuestAddress \<Rightarrow> u64 \<Rightarrow> (GuestAddress, InitialStackError) Result" where
  "stack_address_at base offset =
     and_then (GuestAddress_checked_add base offset) (\<lambda>_. stack_error InitialStackErrorCode.guest_address_overflow) Success"

record StackLayout =
  layout_rsp :: u64
  layout_rsp_offset :: u64
  layout_information_start :: u64
  layout_used_size :: u64

definition place_stack :: "GuestRange \<Rightarrow> u64 \<Rightarrow> u64 \<Rightarrow> (StackLayout, InitialStackError) Result" where
  "place_stack storage information_size control_size =
     (let capacity = range_size storage in
      if information_size > capacity then Failure (stack_error stack_too_small)
      else let information_start = capacity - information_size in
      if control_size > information_start then Failure (stack_error stack_too_small)
      else let max_rsp_offset = information_start - control_size in
      with_value (stack_address_at (range_base storage) max_rsp_offset) (\<lambda>max_rsp.
        let aligned_rsp_value = max_rsp AND NOT (kStackAlignment - 1) in
        if aligned_rsp_value < range_base storage then Failure (stack_error stack_too_small)
        else let rsp_offset = aligned_rsp_value - range_base storage in
        if rsp_offset > max_rsp_offset then Failure (stack_error stack_too_small)
        else Success \<lparr>layout_rsp = aligned_rsp_value, layout_rsp_offset = rsp_offset,
               layout_information_start = information_start, layout_used_size = capacity - rsp_offset\<rparr>))"

section \<open>Writing\<close>

text \<open>A store into the byte vector; out of range it is undefined behaviour.\<close>

primrec store_bytes :: "u8 list \<Rightarrow> u64 \<Rightarrow> u8 list \<Rightarrow> (u8 list, 'e) Result" where
  "store_bytes bytes offset [] = Success bytes"
| "store_bytes bytes offset (v # vs) =
     (if unat offset < length bytes then store_bytes (bytes[unat offset := v]) (offset + 1) vs else Undefined)"

definition write_u64 :: "u8 list \<Rightarrow> u64 \<Rightarrow> u64 \<Rightarrow> (u8 list, InitialStackError) Result" where
  "write_u64 bytes offset value = store_bytes bytes offset (le_bytes 8 value)"

text \<open>Consecutive words: every write is followed by an advance of the cursor by a word.\<close>

primrec write_words :: "u8 list \<Rightarrow> u64 \<Rightarrow> u64 list \<Rightarrow> (u8 list, InitialStackError) Result" where
  "write_words bytes cursor [] = Success bytes"
| "write_words bytes cursor (w # ws) =
     with_value (write_u64 bytes cursor w) (\<lambda>bytes'. write_words bytes' (cursor + kWordSize) ws)"

text \<open>copy_string: the characters, then the terminator; the cursor moves past both.\<close>

definition copy_string ::
  "GuestAddress \<Rightarrow> u8 list \<Rightarrow> u64 \<Rightarrow> u8 list \<Rightarrow> (GuestAddress \<times> u8 list \<times> u64, InitialStackError) Result" where
  "copy_string base bytes information_cursor value =
     with_value (stack_address_at base information_cursor) (\<lambda>address.
     with_value (store_bytes bytes information_cursor value) (\<lambda>bytes1.
     with_value (store_bytes bytes1 (information_cursor + of_nat (length value)) [0]) (\<lambda>bytes2.
       Success (address, bytes2, information_cursor + (of_nat (length value) + 1)))))"

primrec copy_strings ::
  "GuestAddress \<Rightarrow> u8 list \<Rightarrow> u64 \<Rightarrow> u8 list list \<Rightarrow> GuestAddress list \<Rightarrow>
     (GuestAddress list \<times> u8 list \<times> u64, InitialStackError) Result" where
  "copy_strings base bytes cursor [] addresses = Success (addresses, bytes, cursor)"
| "copy_strings base bytes cursor (value # rest) addresses =
     with_value (copy_string base bytes cursor value) (\<lambda>(address, bytes', cursor').
       copy_strings base bytes' cursor' rest (addresses @ [address]))"

definition aux_words :: "AuxiliaryVectorEntry list \<Rightarrow> u64 list" where
  "aux_words auxv = concat (map (\<lambda>e. [aux_type e, aux_value e]) auxv)"

definition write_control ::
  "InitialStackRequest \<Rightarrow> GuestAddress list \<Rightarrow> GuestAddress list \<Rightarrow> u8 list \<Rightarrow> (u8 list, InitialStackError) Result" where
  "write_control request argument_addresses environment_addresses bytes =
     write_words bytes 0
       ([of_nat (length (request_arguments request))] @ argument_addresses @ [0] @ environment_addresses @ [0] @
        aux_words (request_auxiliary_vector request) @ [0, 0])"

definition caught :: "host_event \<Rightarrow> (unit, InitialStackError) Result" where
  "caught event = (case event of
       No_exception \<Rightarrow> Success ()
     | Bad_alloc \<Rightarrow> Failure (stack_error InitialStackErrorCode.host_allocation_failure)
     | Length_error \<Rightarrow> Failure (stack_error InitialStackErrorCode.host_size_unrepresentable))"

definition fill_stack ::
  "host_allocator \<Rightarrow> InitialStackRequest \<Rightarrow> StackLayout \<Rightarrow> (InitialStackImage, InitialStackError) Result" where
  "fill_stack alloc_addresses request layout =
     and_then (GuestRange_create (layout_rsp layout) (layout_used_size layout))
       (\<lambda>_. stack_error InitialStackErrorCode.guest_address_overflow) (\<lambda>used_range.
     with_value (caught (alloc_addresses (length (request_arguments request)))) (\<lambda>_.
     with_value (caught (alloc_addresses (length (request_environment request)))) (\<lambda>_.
     with_value (copy_strings (range_base used_range) (replicate (unat (layout_used_size layout)) 0)
         (layout_information_start layout - layout_rsp_offset layout) (request_arguments request) [])
       (\<lambda>(argument_addresses, bytes1, cursor1).
     with_value (copy_strings (range_base used_range) bytes1 cursor1 (request_environment request) [])
       (\<lambda>(environment_addresses, bytes2, cursor2).
     with_value (write_control request argument_addresses environment_addresses bytes2) (\<lambda>bytes3.
       Success \<lparr>stack_storage = request_storage request, stack_used_range = used_range,
         stack_rsp = layout_rsp layout, stack_bytes = bytes3\<rparr>))))))"

definition build_initial_stack ::
  "nat \<Rightarrow> host_allocator \<Rightarrow> host_allocator \<Rightarrow> InitialStackRequest \<Rightarrow> (InitialStackImage, InitialStackError) Result" where
  "build_initial_stack max_size alloc_bytes alloc_addresses request =
     with_value (check_strings argument 0 (request_arguments request)) (\<lambda>_.
     with_value (check_strings environment 0 (request_environment request)) (\<lambda>_.
     with_value (check_auxv 0 (request_auxiliary_vector request)) (\<lambda>_.
     with_value (add_string_sizes 0 (request_arguments request)) (\<lambda>argument_bytes.
     with_value (add_string_sizes argument_bytes (request_environment request)) (\<lambda>information_size.
     with_value (control_size_of (length (request_arguments request)) (length (request_environment request))
         (length (request_auxiliary_vector request))) (\<lambda>control_size.
     with_value (place_stack (request_storage request) information_size control_size) (\<lambda>layout.
     if unat (layout_used_size layout) > max_size
     then Failure (stack_error InitialStackErrorCode.host_size_unrepresentable)
     else with_value (caught (alloc_bytes (unat (layout_used_size layout)))) (\<lambda>_.
       fill_stack alloc_addresses request layout))))))))"

section \<open>Stores\<close>

lemma store_bytes_ok:
  assumes "length pre = unat off" and "length mid = length vs" and "length (pre @ mid @ post) < 2 ^ 64"
  shows "store_bytes (pre @ mid @ post) off vs = Success (pre @ vs @ post)"
  using assms
proof (induction vs arbitrary: pre mid off)
  case (Cons v vs)
  then obtain m mid' where mid: "mid = m # mid'" by (cases mid) auto
  have "unat (off + 1) = Suc (unat off)"
    using Cons.prems mid by (simp add: unat_plus_if')
  moreover have "(pre @ mid @ post)[unat off := v] = (pre @ [v]) @ mid' @ post"
    using Cons.prems mid by (simp add: list_update_append)
  ultimately show ?case
    using Cons.IH [of "pre @ [v]" "off + 1" mid'] Cons.prems mid by simp
qed simp

lemma write_words_ok:
  assumes "length pre = unat off" and "length mid = 8 * length ws" and "length (pre @ mid @ post) < 2 ^ 64"
  shows "write_words (pre @ mid @ post) off ws = Success (pre @ concat (map (le_bytes 8) ws) @ post)"
  using assms
proof (induction ws arbitrary: pre mid off)
  case (Cons w ws)
  let ?m = "take 8 mid" and ?r = "drop 8 mid"
  have len: "length ?m = 8" "length ?r = 8 * length ws" using Cons.prems by simp_all
  have "store_bytes (pre @ ?m @ (?r @ post)) off (le_bytes 8 w) = Success (pre @ le_bytes 8 w @ (?r @ post))"
    using Cons.prems len by (intro store_bytes_ok) auto
  then have "write_u64 (pre @ mid @ post) off w = Success ((pre @ le_bytes 8 w) @ ?r @ post)"
    by (simp add: write_u64_def append_assoc [symmetric] del: append_assoc)
  moreover have "unat (off + 8) = unat off + 8" using Cons.prems by (simp add: unat_plus_if')
  ultimately show ?case
    using Cons.IH [of "pre @ le_bytes 8 w" "off + 8" ?r] Cons.prems len by simp
qed simp

text \<open>The bytes of the strings, and the addresses they get from a base and a cursor on.\<close>

definition terminated :: "u8 list list \<Rightarrow> u8 list" where
  "terminated strings = concat (map (\<lambda>s. s @ [0]) strings)"

primrec string_addresses :: "u64 \<Rightarrow> u64 \<Rightarrow> u8 list list \<Rightarrow> u64 list" where
  "string_addresses base cursor [] = []"
| "string_addresses base cursor (s # ss) =
     (base + cursor) # string_addresses base (cursor + of_nat (Suc (length s))) ss"

lemma terminated_simps [simp]: "terminated [] = []" "terminated (s # ss) = s @ [0] @ terminated ss"
  "terminated (xs @ ys) = terminated xs @ terminated ys"
  by (simp_all add: terminated_def)

lemma length_string_addresses [simp]: "length (string_addresses base cursor ss) = length ss"
  by (induction ss arbitrary: cursor) simp_all

lemma copy_string_ok:
  assumes "length pre = unat cursor" and "length mid = length s + 1" and "length (pre @ mid @ post) < 2 ^ 64"
    and "unat base + length (pre @ mid @ post) \<le> 2 ^ 64"
  shows "copy_string base (pre @ mid @ post) cursor s =
     Success (base + cursor, pre @ (s @ [0]) @ post, cursor + of_nat (Suc (length s)))"
proof -
  let ?m = "take (length s) mid" and ?z = "drop (length s) mid"
  have len: "length ?m = length s" "length ?z = 1" using assms(2) by simp_all
  have "store_bytes (pre @ ?m @ (?z @ post)) cursor s = (Success (pre @ s @ (?z @ post)) :: (_, InitialStackError) Result)"
    using assms len by (intro store_bytes_ok) auto
  then have chars: "store_bytes (pre @ mid @ post) cursor s = (Success ((pre @ s) @ ?z @ post) :: (_, InitialStackError) Result)"
    by (simp add: append_assoc [symmetric] del: append_assoc)
  have "unat (cursor + of_nat (length s)) = unat cursor + length s"
    using assms by (simp add: unat_plus_if' unat_of_nat)
  then have "store_bytes ((pre @ s) @ ?z @ post) (cursor + of_nat (length s)) [0] =
      (Success ((pre @ s) @ [0] @ post) :: (_, InitialStackError) Result)"
    using assms len by (intro store_bytes_ok) auto
  moreover have "stack_address_at base cursor = Success (base + cursor)"
    using assms by (simp add: stack_address_at_def and_then_Success GuestAddress_checked_add_Success)
  ultimately show ?thesis using chars by (simp add: copy_string_def ac_simps)
qed

lemma copy_strings_ok:
  assumes "length pre = unat cursor" and "length mid = length (terminated ss)" and "length (pre @ mid @ post) < 2 ^ 64"
    and "unat base + length (pre @ mid @ post) \<le> 2 ^ 64"
  shows "copy_strings base (pre @ mid @ post) cursor ss acc =
     Success (acc @ string_addresses base cursor ss, pre @ terminated ss @ post,
       cursor + of_nat (length (terminated ss)))"
  using assms
proof (induction ss arbitrary: pre mid cursor acc)
  case (Cons s ss)
  let ?m = "take (Suc (length s)) mid" and ?r = "drop (Suc (length s)) mid"
  have len: "length ?m = length s + 1" "length ?r = length (terminated ss)" using Cons.prems by simp_all
  have "copy_string base (pre @ ?m @ (?r @ post)) cursor s =
      Success (base + cursor, pre @ (s @ [0]) @ (?r @ post), cursor + of_nat (Suc (length s)))"
    using Cons.prems len by (intro copy_string_ok) auto
  then have head: "copy_string base (pre @ mid @ post) cursor s =
      Success (base + cursor, (pre @ s @ [0]) @ ?r @ post, cursor + of_nat (Suc (length s)))"
    by (simp add: append_assoc [symmetric] del: append_assoc of_nat_Suc)
  have "unat (cursor + of_nat (Suc (length s))) = unat cursor + Suc (length s)"
    using Cons.prems by (simp add: unat_plus_if' unat_of_nat del: of_nat_Suc)
  then have "copy_strings base ((pre @ s @ [0]) @ ?r @ post) (cursor + of_nat (Suc (length s))) ss (acc @ [base + cursor]) =
     Success ((acc @ [base + cursor]) @ string_addresses base (cursor + of_nat (Suc (length s))) ss,
       (pre @ s @ [0]) @ terminated ss @ post, cursor + of_nat (Suc (length s)) + of_nat (length (terminated ss)))"
    using Cons.prems len by (intro Cons.IH) auto
  with head show ?case by (simp add: ac_simps)
qed simp

section \<open>Sizes and placement\<close>

definition information_bytes :: "InitialStackRequest \<Rightarrow> nat" where
  "information_bytes r = length (terminated (request_arguments r @ request_environment r))"

definition control_bytes :: "InitialStackRequest \<Rightarrow> nat" where
  "control_bytes r = 8 * (length (request_arguments r) + length (request_environment r) + 3) +
     16 * (length (request_auxiliary_vector r) + 1)"

text \<open>The vectors and strings of a request are host objects.\<close>

definition request_host :: "InitialStackRequest \<Rightarrow> bool" where
  "request_host r \<longleftrightarrow>
     host_object (request_arguments r) \<and> host_object (request_environment r) \<and>
     host_object (request_auxiliary_vector r) \<and>
     (\<forall>s \<in> set (request_arguments r @ request_environment r). host_object s)"

lemma add_string_size_Some:
  assumes "host_object s"
  shows "add_string_size acc s = Some r \<longleftrightarrow>
     unat acc + Suc (length s) < 2 ^ 64 \<and> r = acc + of_nat (Suc (length s))"
proof -
  have n: "unat (of_nat (length s) :: u64) = length s" "unat (of_nat (Suc (length s)) :: u64) = Suc (length s)"
    using assms by (simp_all add: host_object_def unat_of_nat del: of_nat_Suc)
  have t: "checked_add_u64 (of_nat (length s)) 1 = Some (of_nat (Suc (length s)))"
    using assms n(1) by (simp add: checked_add_u64_Some host_object_def add.commute)
  show ?thesis unfolding add_string_size_def t option.case checked_add_u64_Some n(2) by (rule refl)
qed

lemma add_string_sizes_Success:
  "\<forall>s \<in> set ss. host_object s \<Longrightarrow> add_string_sizes acc ss = Success r \<longleftrightarrow>
     unat acc + length (terminated ss) < 2 ^ 64 \<and> r = acc + of_nat (length (terminated ss))"
proof (induction ss arbitrary: acc)
  case Nil
  then show ?case by auto
next
  case (Cons s ss)
  have wrap: "unat (acc + of_nat (Suc (length s))) = unat acc + Suc (length s)" if "unat acc + Suc (length s) < 2 ^ 64"
    using that by (simp add: unat_plus_if' unat_of_nat del: of_nat_Suc)
  have "add_string_sizes acc (s # ss) = Success r \<longleftrightarrow>
      unat acc + Suc (length s) < 2 ^ 64 \<and> add_string_sizes (acc + of_nat (Suc (length s))) ss = Success r"
  proof (cases "unat acc + Suc (length s) < 2 ^ 64")
    case True
    then have "add_string_size acc s = Some (acc + of_nat (Suc (length s)))"
      using Cons.prems add_string_size_Some by simp
    with True show ?thesis by (simp del: of_nat_Suc)
  next
    case False
    then have "add_string_size acc s = None"
      using Cons.prems add_string_size_Some [of s acc] by (metis list.set_intros(1) option.exhaust)
    with False show ?thesis by simp
  qed
  also have "\<dots> \<longleftrightarrow> unat acc + length (terminated (s # ss)) < 2 ^ 64 \<and> r = acc + of_nat (length (terminated (s # ss)))"
    using Cons.IH [of "acc + of_nat (Suc (length s))"] Cons.prems wrap by (auto simp: ac_simps)
  finally show ?case .
qed

lemma add_string_sizes_defined: "add_string_sizes acc ss \<noteq> Undefined"
  by (induction ss arbitrary: acc) (auto split: option.split)

lemma add_pieces_Success:
  "add_pieces acc ps = Success r \<longleftrightarrow>
     unat acc + sum_list (map unat ps) < 2 ^ 64 \<and> r = acc + sum_list ps"
proof (induction ps arbitrary: acc)
  case Nil
  then show ?case by auto
next
  case (Cons p ps)
  have "add_pieces acc (p # ps) = Success r \<longleftrightarrow>
      unat acc + unat p < 2 ^ 64 \<and> add_pieces (acc + p) ps = Success r"
    by (auto simp: checked_add_u64_Some checked_add_u64_None split: option.split)
  also have "\<dots> \<longleftrightarrow> unat acc + sum_list (map unat (p # ps)) < 2 ^ 64 \<and> r = acc + sum_list (p # ps)"
    using Cons.IH [of "acc + p"] unat_add_no_wrap [of acc p] by (auto simp: ac_simps)
  finally show ?case .
qed

lemma control_size_of_Success:
  assumes "a < 2 ^ 63" and "e < 2 ^ 63" and "x < 2 ^ 63"
  shows "control_size_of a e x = Success c \<longleftrightarrow>
     8 * (a + e + 3) + 16 * (x + 1) < 2 ^ 64 \<and> c = of_nat (8 * (a + e + 3) + 16 * (x + 1))"
proof -
  have u: "unat (of_nat a :: u64) = a" "unat (of_nat e :: u64) = e" "unat (of_nat (Suc x) :: u64) = Suc x"
    "unat (of_nat x :: u64) = x"
    using assms by (simp_all add: unat_of_nat del: of_nat_Suc)
  have m: "unat (of_nat a * 8 :: u64) = a * 8" if "a * 8 < 2 ^ 64"
    using unat_mult_no_wrap [of "of_nat a" 8] that u by simp
  have n: "unat (of_nat e * 8 :: u64) = e * 8" if "e * 8 < 2 ^ 64"
    using unat_mult_no_wrap [of "of_nat e" 8] that u by simp
  have o: "unat (of_nat (Suc x) * 16 :: u64) = Suc x * 16" if "Suc x * 16 < 2 ^ 64"
    using unat_mult_no_wrap [of "of_nat (Suc x)" 16] that u by simp
  have add: "checked_add_u64 (of_nat x) 1 = Some (of_nat (Suc x))"
    using assms(3) u by (simp add: checked_add_u64_Some)
  show ?thesis
  proof (cases "a * 8 < 2 ^ 64 \<and> e * 8 < 2 ^ 64 \<and> Suc x * 16 < 2 ^ 64")
    case True
    then have "checked_mul_u64 (of_nat a) 8 = Some (of_nat a * 8)" "checked_mul_u64 (of_nat e) 8 = Some (of_nat e * 8)"
      "checked_mul_u64 (of_nat (Suc x)) 16 = Some (of_nat (Suc x) * 16)"
      using u by (simp_all add: checked_mul_u64_Some del: of_nat_Suc)
    then have eq: "control_size_of a e x = add_pieces 8 [of_nat a * 8, 8, of_nat e * 8, 8, of_nat (Suc x) * 16]"
      using add by (simp only: control_size_of_def Option.bind.simps prod.case option.case)
    have nats: "unat (8 :: u64) + sum_list (map unat [of_nat a * 8 :: u64, 8, of_nat e * 8, 8, of_nat (Suc x) * 16])
        = 8 * (a + e + 3) + 16 * (x + 1)"
      using True m n o by (simp del: of_nat_Suc)
    have words: "8 + sum_list [of_nat a * 8 :: u64, 8, of_nat e * 8, 8, of_nat (Suc x) * 16]
        = of_nat (8 * (a + e + 3) + 16 * (x + 1))"
      by (simp add: algebra_simps)
    show ?thesis unfolding eq add_pieces_Success nats words by (rule refl)
  next
    case False
    then have "checked_mul_u64 (of_nat a) 8 = None \<or> checked_mul_u64 (of_nat e) 8 = None \<or>
        checked_mul_u64 (of_nat (Suc x)) 16 = None"
      using u by (auto simp: checked_mul_u64_None simp del: of_nat_Suc)
    then have "control_size_of a e x = Failure (stack_error layout_size_overflow)"
      using add by (auto simp: control_size_of_def split: option.split)
    with False show ?thesis by auto
  qed
qed

lemma align_down_16: "unat (w AND NOT (16 - 1) :: u64) = unat w div 16 * 16"
proof -
  have m: "(16 - 1 :: u64) = mask 4" by (simp add: mask_eq_exp_minus_1)
  have "w AND NOT (16 - 1) = push_bit 4 (drop_bit 4 w)"
    unfolding m by (rule bit_word_eqI) (auto simp: bit_simps)
  then have "unat (w AND NOT (16 - 1)) = unat (push_bit 4 (drop_bit 4 w))" by simp
  also have "\<dots> = take_bit 64 (push_bit 4 (drop_bit 4 (unat w)))"
    by (simp only: unsigned_push_bit_eq unsigned_drop_bit_eq) (simp add: take_bit_nat_eq_self)
  also have "\<dots> = take_bit 64 (unat w div 16 * 16)" by (simp add: push_bit_eq_mult drop_bit_eq_div)
  also have "\<dots> = unat w div 16 * 16"
    using le_less_trans [OF div_times_less_eq_dividend unat_lt_2p64, of w 16] by (simp add: take_bit_nat_eq_self_iff)
  finally show ?thesis .
qed

text \<open>The stack pointer: the highest 16-byte boundary below the control block.\<close>

definition stack_top :: "GuestRange \<Rightarrow> nat" where
  "stack_top storage = unat (range_base storage) + unat (range_size storage)"

definition rsp_below :: "GuestRange \<Rightarrow> nat \<Rightarrow> nat \<Rightarrow> nat" where
  "rsp_below storage information control = (stack_top storage - information - control) div 16 * 16"

definition layout_at :: "GuestRange \<Rightarrow> nat \<Rightarrow> nat \<Rightarrow> StackLayout" where
  "layout_at storage information rsp =
     \<lparr>layout_rsp = of_nat rsp, layout_rsp_offset = of_nat (rsp - unat (range_base storage)),
      layout_information_start = of_nat (unat (range_size storage) - information),
      layout_used_size = of_nat (stack_top storage - rsp)\<rparr>"

lemma place_stack_Success:
  assumes "range_wf storage" and "unat control > 0"
  shows "place_stack storage information control = Success layout \<longleftrightarrow>
     (let rsp = rsp_below storage (unat information) (unat control) in
      unat information + unat control \<le> unat (range_size storage) \<and> unat (range_base storage) \<le> rsp \<and>
      layout = layout_at storage (unat information) rsp)"
proof (cases "unat information + unat control \<le> unat (range_size storage)")
  case True
  let ?B = "unat (range_base storage)" and ?K = "unat (range_size storage)"
  let ?I = "unat information" and ?C = "unat control"
  let ?start = "range_size storage - information"
  let ?off = "?start - control"
  let ?max = "range_base storage + ?off"
  let ?rsp = "rsp_below storage ?I ?C"
  have top: "?B + ?K \<le> 2 ^ 64" using assms(1) by (simp add: range_wf_def)
  have start: "unat ?start = ?K - ?I" and off: "unat ?off = ?K - ?I - ?C"
    using True by (simp_all add: unat_sub_if')
  then have fits: "?B + unat ?off < 2 ^ 64" using top True assms(2) by linarith
  then have max: "unat ?max = stack_top storage - ?I - ?C"
    using off True by (simp add: unat_add_no_wrap stack_top_def)
  have "unat (?max AND NOT (16 - 1)) = ?rsp" unfolding align_down_16 max rsp_below_def by (rule refl)
  then have word: "?max AND NOT (16 - 1) = of_nat ?rsp" by (metis of_nat_unat ucast_id)
  have "?rsp \<le> stack_top storage - ?I - ?C" by (simp add: rsp_below_def)
  then have le: "?rsp - ?B \<le> ?K - ?I - ?C" "?rsp \<le> stack_top storage" "?rsp < 2 ^ 64"
    using max unat_lt_2p64 [of ?max] by (simp_all add: stack_top_def)
  then have n: "unat (of_nat ?rsp :: u64) = ?rsp" by (simp add: unat_of_nat)
  have guards: "(information > range_size storage) = False" "(control > ?start) = False"
    using True start by (simp_all add: word_less_nat_alt not_less)
  have "stack_address_at (range_base storage) ?off = Success ?max"
    using fits by (simp add: stack_address_at_def and_then_Success GuestAddress_checked_add_Success)
  then have place: "place_stack storage information control =
      (if of_nat ?rsp < range_base storage then Failure (stack_error stack_too_small)
       else if of_nat ?rsp - range_base storage > ?off then Failure (stack_error stack_too_small)
       else Success \<lparr>layout_rsp = of_nat ?rsp, layout_rsp_offset = of_nat ?rsp - range_base storage,
         layout_information_start = ?start, layout_used_size = range_size storage - (of_nat ?rsp - range_base storage)\<rparr>)"
    by (simp only: place_stack_def Let_def guards if_False and_then_simps word)
  show ?thesis
  proof (cases "?B \<le> ?rsp")
    case up: True
    have d: "unat (of_nat ?rsp - range_base storage :: u64) = ?rsp - ?B" using up n by (simp add: unat_sub_if')
    have words: "of_nat ?rsp - range_base storage = of_nat (?rsp - ?B)" "?start = of_nat (?K - ?I)"
      "range_size storage - of_nat (?rsp - ?B) = of_nat (stack_top storage - ?rsp)"
      using up le True top by (simp_all add: of_nat_diff stack_top_def)
    have "(of_nat ?rsp < range_base storage) = False" "(of_nat ?rsp - range_base storage > ?off) = False"
      using up n d off le by (simp_all add: word_less_nat_alt not_less)
    then have "place_stack storage information control = Success (layout_at storage ?I ?rsp)"
      by (simp only: place if_False layout_at_def words)
    then show ?thesis using True up by (simp add: Let_def eq_commute)
  next
    case False
    then have "of_nat ?rsp < range_base storage" using n by (simp add: word_less_nat_alt)
    with False place show ?thesis by (auto simp: Let_def)
  qed
next
  case False
  then show ?thesis
    by (auto simp: place_stack_def Let_def word_less_nat_alt unat_sub_if' split: if_splits)
qed

section \<open>The image\<close>

definition request_rsp :: "InitialStackRequest \<Rightarrow> nat" where
  "request_rsp r = rsp_below (request_storage r) (information_bytes r) (control_bytes r)"

definition used_bytes :: "InitialStackRequest \<Rightarrow> nat" where
  "used_bytes r = stack_top (request_storage r) - request_rsp r"

text \<open>Offset of the string data in the image.\<close>

definition string_start :: "InitialStackRequest \<Rightarrow> nat" where
  "string_start r = used_bytes r - information_bytes r"

definition argument_pointers :: "InitialStackRequest \<Rightarrow> u64 list" where
  "argument_pointers r =
     string_addresses (of_nat (request_rsp r)) (of_nat (string_start r)) (request_arguments r)"

definition environment_pointers :: "InitialStackRequest \<Rightarrow> u64 list" where
  "environment_pointers r =
     string_addresses (of_nat (request_rsp r))
       (of_nat (string_start r + length (terminated (request_arguments r)))) (request_environment r)"

definition control_words :: "InitialStackRequest \<Rightarrow> u64 list" where
  "control_words r = [of_nat (length (request_arguments r))] @ argument_pointers r @ [0] @ environment_pointers r @ [0] @
     aux_words (request_auxiliary_vector r) @ [0, 0]"

definition stack_image :: "InitialStackRequest \<Rightarrow> InitialStackImage" where
  "stack_image r =
     \<lparr>stack_storage = request_storage r,
      stack_used_range = \<lparr>range_base = of_nat (request_rsp r), range_size = of_nat (used_bytes r)\<rparr>,
      stack_rsp = of_nat (request_rsp r),
      stack_bytes = concat (map (le_bytes 8) (control_words r)) @
        replicate (string_start r - control_bytes r) 0 @
        terminated (request_arguments r @ request_environment r)\<rparr>"

definition stack_fits :: "InitialStackRequest \<Rightarrow> bool" where
  "stack_fits r \<longleftrightarrow>
     information_bytes r + control_bytes r \<le> unat (range_size (request_storage r)) \<and>
     unat (range_base (request_storage r)) \<le> request_rsp r"

lemma length_aux_words [simp]: "length (aux_words xs) = 2 * length xs"
  by (induction xs) (simp_all add: aux_words_def)

lemma length_control_words: "8 * length (control_words r) = control_bytes r"
  by (simp add: control_words_def control_bytes_def argument_pointers_def environment_pointers_def)

lemma stack_sizes:
  assumes "range_wf (request_storage r)" and "stack_fits r"
  shows "control_bytes r \<le> string_start r"
    and "used_bytes r = string_start r + information_bytes r"
    and "request_rsp r + used_bytes r = stack_top (request_storage r)"
    and "stack_top (request_storage r) \<le> 2 ^ 64" and "used_bytes r < 2 ^ 64" and "request_rsp r < 2 ^ 64"
    and "used_bytes r > 0"
proof -
  let ?B = "unat (range_base (request_storage r))" and ?K = "unat (range_size (request_storage r))"
  have fits: "information_bytes r + control_bytes r \<le> ?K" "?B \<le> request_rsp r" and top: "?B + ?K \<le> 2 ^ 64"
    using assms by (simp_all add: stack_fits_def range_wf_def)
  have rsp: "request_rsp r \<le> ?B + ?K - information_bytes r - control_bytes r"
    by (simp add: request_rsp_def rsp_below_def stack_top_def)
  show "control_bytes r \<le> string_start r" "used_bytes r = string_start r + information_bytes r"
    "request_rsp r + used_bytes r = stack_top (request_storage r)" "stack_top (request_storage r) \<le> 2 ^ 64"
    using rsp fits top by (auto simp: string_start_def used_bytes_def stack_top_def)
  have "control_bytes r > 0" by (simp add: control_bytes_def)
  then show "used_bytes r > 0" "request_rsp r < 2 ^ 64"
    using rsp fits top by (auto simp: used_bytes_def stack_top_def)
  have "used_bytes r \<le> ?K" using fits by (simp add: used_bytes_def stack_top_def)
  from le_less_trans [OF this unat_lt_2p64] show "used_bytes r < 2 ^ 64" by simp
qed

abbreviation request_layout :: "InitialStackRequest \<Rightarrow> StackLayout" where
  "request_layout r \<equiv> layout_at (request_storage r) (information_bytes r) (request_rsp r)"

lemma layout_values:
  assumes "range_wf (request_storage r)" and "stack_fits r"
  shows "layout_rsp (request_layout r) = of_nat (request_rsp r)"
    and "unat (layout_used_size (request_layout r)) = used_bytes r"
    and "layout_information_start (request_layout r) - layout_rsp_offset (request_layout r) = of_nat (string_start r)"
    and "GuestRange_create (layout_rsp (request_layout r)) (layout_used_size (request_layout r)) =
      Success \<lparr>range_base = of_nat (request_rsp r), range_size = of_nat (used_bytes r)\<rparr>"
proof -
  note sizes = stack_sizes [OF assms]
  let ?B = "unat (range_base (request_storage r))" and ?K = "unat (range_size (request_storage r))"
  show rsp: "layout_rsp (request_layout r) = of_nat (request_rsp r)" by (simp add: layout_at_def)
  show used: "unat (layout_used_size (request_layout r)) = used_bytes r"
    using sizes(5) by (simp add: layout_at_def used_bytes_def [symmetric] unat_of_nat)
  have le: "request_rsp r - ?B \<le> ?K - information_bytes r"
    and S: "string_start r = ?K - information_bytes r - (request_rsp r - ?B)"
    using sizes assms(2) by (auto simp: stack_fits_def stack_top_def)
  show "layout_information_start (request_layout r) - layout_rsp_offset (request_layout r) = of_nat (string_start r)"
    unfolding S of_nat_diff [OF le] by (simp add: layout_at_def)
  have "unat (of_nat (request_rsp r) :: u64) = request_rsp r" using sizes(6) by (simp add: unat_of_nat)
  then show "GuestRange_create (layout_rsp (request_layout r)) (layout_used_size (request_layout r)) =
      Success \<lparr>range_base = of_nat (request_rsp r), range_size = of_nat (used_bytes r)\<rparr>"
    using sizes used by (simp add: GuestRange_create_Success rsp) (simp add: layout_at_def used_bytes_def)
qed

lemma copied_strings:
  assumes "range_wf (request_storage r)" and "stack_fits r"
  defines "a \<equiv> terminated (request_arguments r)" and "e \<equiv> terminated (request_environment r)"
    and "rsp \<equiv> of_nat (request_rsp r) :: u64" and "zeros \<equiv> replicate (string_start r) (0 :: u8)"
  shows "copy_strings rsp (replicate (used_bytes r) 0) (of_nat (string_start r)) (request_arguments r) [] =
      Success (argument_pointers r, zeros @ a @ replicate (length e) 0, of_nat (string_start r + length a))"
    and "copy_strings rsp (zeros @ a @ replicate (length e) 0) (of_nat (string_start r + length a)) (request_environment r) [] =
      Success (environment_pointers r, zeros @ a @ e, of_nat (string_start r + length a) + of_nat (length e))"
proof -
  note sizes = stack_sizes [OF assms(1,2)]
  have info: "information_bytes r = length a + length e" by (simp add: information_bytes_def a_def e_def)
  have u: "unat (of_nat (string_start r) :: u64) = string_start r"
    "unat (of_nat (string_start r + length a) :: u64) = string_start r + length a"
    using sizes(2,5) info by (simp_all add: unat_of_nat del: of_nat_add)
  have r: "unat rsp = request_rsp r" using sizes(6) by (simp add: unat_of_nat rsp_def)
  have "replicate (used_bytes r) (0 :: u8) = zeros @ replicate (length a) 0 @ replicate (length e) 0"
    using sizes(2) info by (simp add: replicate_add zeros_def)
  moreover have "copy_strings rsp (zeros @ replicate (length a) 0 @ replicate (length e) 0) (of_nat (string_start r))
        (request_arguments r) [] =
      Success ([] @ argument_pointers r, zeros @ a @ replicate (length e) 0, of_nat (string_start r) + of_nat (length a))"
    unfolding argument_pointers_def rsp_def [symmetric] a_def
    using sizes info u r by (intro copy_strings_ok) (auto simp: zeros_def a_def)
  ultimately show "copy_strings rsp (replicate (used_bytes r) 0) (of_nat (string_start r)) (request_arguments r) [] =
      Success (argument_pointers r, zeros @ a @ replicate (length e) 0, of_nat (string_start r + length a))" by simp
  have "copy_strings rsp ((zeros @ a) @ replicate (length e) 0 @ []) (of_nat (string_start r + length a))
        (request_environment r) [] =
      Success ([] @ environment_pointers r, (zeros @ a) @ e @ [], of_nat (string_start r + length a) + of_nat (length e))"
    unfolding environment_pointers_def rsp_def [symmetric] a_def [symmetric] e_def
    using sizes info u r by (intro copy_strings_ok) (auto simp: zeros_def e_def)
  then show "copy_strings rsp (zeros @ a @ replicate (length e) 0) (of_nat (string_start r + length a)) (request_environment r) [] =
      Success (environment_pointers r, zeros @ a @ e, of_nat (string_start r + length a) + of_nat (length e))" by simp
qed

lemma written_control:
  assumes "range_wf (request_storage r)" and "stack_fits r"
  shows "write_control r (argument_pointers r) (environment_pointers r)
      (replicate (string_start r) 0 @ terminated (request_arguments r) @ terminated (request_environment r))
    = Success (stack_bytes (stack_image r))"
proof -
  note sizes = stack_sizes [OF assms]
  let ?tail = "replicate (string_start r - control_bytes r) 0 @ terminated (request_arguments r @ request_environment r)"
  have "replicate (string_start r) (0 :: u8) =
      replicate (control_bytes r) 0 @ replicate (string_start r - control_bytes r) 0"
    using sizes(1) by (metis le_add_diff_inverse replicate_add)
  moreover have "write_words ([] @ replicate (control_bytes r) 0 @ ?tail) 0 (control_words r) =
      Success ([] @ concat (map (le_bytes 8) (control_words r)) @ ?tail)"
    using sizes by (intro write_words_ok) (auto simp: length_control_words information_bytes_def)
  ultimately show ?thesis
    by (simp add: write_control_def stack_image_def) (simp add: control_words_def)
qed

lemma fill_stack_ok:
  assumes "range_wf (request_storage r)" and "stack_fits r"
    and "alloc (length (request_arguments r)) = No_exception" "alloc (length (request_environment r)) = No_exception"
  shows "fill_stack alloc r (request_layout r) = Success (stack_image r)"
  using layout_values [OF assms(1,2)] copied_strings [OF assms(1,2)] written_control [OF assms(1,2)] assms(3,4)
  by (simp add: fill_stack_def caught_def stack_image_def)

lemma fill_stack_cases:
  assumes "range_wf (request_storage r)" and "stack_fits r"
  shows "fill_stack alloc r (request_layout r) \<noteq> Undefined"
    and "fill_stack alloc r (request_layout r) = Success img \<longleftrightarrow>
      alloc (length (request_arguments r)) = No_exception \<and> alloc (length (request_environment r)) = No_exception \<and>
      img = stack_image r"
proof -
  let ?ok = "alloc (length (request_arguments r)) = No_exception \<and> alloc (length (request_environment r)) = No_exception"
  have failed: "\<exists>e. fill_stack alloc r (request_layout r) = Failure e" if "\<not> ?ok"
    using that layout_values(4) [OF assms] by (auto simp: fill_stack_def caught_def split: host_event.split)
  then show "fill_stack alloc r (request_layout r) \<noteq> Undefined"
    using fill_stack_ok [OF assms, of alloc] by (cases ?ok) auto
  show "fill_stack alloc r (request_layout r) = Success img \<longleftrightarrow>
      alloc (length (request_arguments r)) = No_exception \<and> alloc (length (request_environment r)) = No_exception \<and>
      img = stack_image r"
    using failed fill_stack_ok [OF assms, of alloc] by (cases ?ok) auto
qed

definition stack_inputs_ok :: "InitialStackRequest \<Rightarrow> bool" where
  "stack_inputs_ok r \<longleftrightarrow>
     (\<forall>s \<in> set (request_arguments r @ request_environment r). 0 \<notin> set s) \<and>
     (\<forall>e \<in> set (request_auxiliary_vector r). aux_type e \<noteq> 0)"

lemma check_strings_Success: "check_strings kind i ss = Success u \<longleftrightarrow> (\<forall>s \<in> set ss. 0 \<notin> set s)"
  by (induction ss arbitrary: i) (auto simp: contains_nul_def list_ex_iff)

lemma check_auxv_Success: "check_auxv i es = Success u \<longleftrightarrow> (\<forall>e \<in> set es. aux_type e \<noteq> 0)"
  by (induction es arbitrary: i) auto

lemma check_inputs_defined: "check_strings kind i ss \<noteq> Undefined" "check_auxv i es \<noteq> Undefined"
  by (induction ss arbitrary: i) (simp_all, induction es arbitrary: i, simp_all)

lemma control_size_of_defined: "control_size_of a e x \<noteq> Undefined"
proof -
  have "add_pieces c ps \<noteq> Undefined" for c ps by (induction ps arbitrary: c) (auto split: option.split)
  then show ?thesis by (auto simp: control_size_of_def split: option.split)
qed

lemma place_stack_defined: "place_stack storage information control \<noteq> Undefined"
  by (auto simp: place_stack_def Let_def stack_address_at_def and_then_Undefined)

lemma sizes_Success:
  assumes "request_host r"
  shows "add_string_sizes 0 (request_arguments r) = Success a \<and> add_string_sizes a (request_environment r) = Success i \<longleftrightarrow>
      information_bytes r < 2 ^ 64 \<and> a = of_nat (length (terminated (request_arguments r))) \<and> i = of_nat (information_bytes r)"
    and "control_size_of (length (request_arguments r)) (length (request_environment r))
        (length (request_auxiliary_vector r)) = Success c \<longleftrightarrow>
      control_bytes r < 2 ^ 64 \<and> c = of_nat (control_bytes r)"
proof -
  have h: "\<forall>s \<in> set (request_arguments r). host_object s" "\<forall>s \<in> set (request_environment r). host_object s"
    using assms by (simp_all add: request_host_def)
  have "unat (of_nat (length (terminated (request_arguments r))) :: u64) = length (terminated (request_arguments r))"
    if "length (terminated (request_arguments r)) < 2 ^ 64" using that by (simp add: unat_of_nat)
  then show "add_string_sizes 0 (request_arguments r) = Success a \<and> add_string_sizes a (request_environment r) = Success i \<longleftrightarrow>
      information_bytes r < 2 ^ 64 \<and> a = of_nat (length (terminated (request_arguments r))) \<and> i = of_nat (information_bytes r)"
    by (auto simp: add_string_sizes_Success [OF h(1)] add_string_sizes_Success [OF h(2)] information_bytes_def)
  show "control_size_of (length (request_arguments r)) (length (request_environment r))
        (length (request_auxiliary_vector r)) = Success c \<longleftrightarrow>
      control_bytes r < 2 ^ 64 \<and> c = of_nat (control_bytes r)"
    unfolding control_bytes_def
    by (rule control_size_of_Success) (use assms in \<open>auto simp: request_host_def host_object_def\<close>)
qed

lemma place_request:
  assumes "range_wf (request_storage r)" and "information_bytes r < 2 ^ 64" and "control_bytes r < 2 ^ 64"
  shows "place_stack (request_storage r) (of_nat (information_bytes r)) (of_nat (control_bytes r)) = Success layout \<longleftrightarrow>
    stack_fits r \<and> layout = request_layout r"
proof -
  have u: "unat (of_nat (information_bytes r) :: u64) = information_bytes r"
    "unat (of_nat (control_bytes r) :: u64) = control_bytes r"
    using assms by (simp_all add: unat_of_nat)
  then have "unat (of_nat (control_bytes r) :: u64) > 0" by (simp add: control_bytes_def)
  from place_stack_Success [OF assms(1) this, of "of_nat (information_bytes r)" layout] show ?thesis
    unfolding u by (auto simp: Let_def stack_fits_def request_rsp_def)
qed

lemma build_initial_stack_iff:
  assumes "request_host r" and "range_wf (request_storage r)"
  shows "build_initial_stack max_size ab aa r = Success img \<longleftrightarrow>
     stack_inputs_ok r \<and> stack_fits r \<and> used_bytes r \<le> max_size \<and> ab (used_bytes r) = No_exception \<and>
     aa (length (request_arguments r)) = No_exception \<and> aa (length (request_environment r)) = No_exception \<and>
     img = stack_image r"
proof -
  have K: "unat (range_size (request_storage r)) < 2 ^ 64" by simp
  have small: "information_bytes r < 2 ^ 64" "control_bytes r < 2 ^ 64" if "stack_fits r"
    using that K unfolding stack_fits_def by linarith+
  have strings: "(\<exists>a. add_string_sizes 0 (request_arguments r) = Success a \<and>
      (\<exists>i. add_string_sizes a (request_environment r) = Success i \<and> P i)) \<longleftrightarrow>
      information_bytes r < 2 ^ 64 \<and> P (of_nat (information_bytes r))" (is "?L \<longleftrightarrow> _") for P
  proof -
    have "?L \<longleftrightarrow> (\<exists>a i. (add_string_sizes 0 (request_arguments r) = Success a \<and>
        add_string_sizes a (request_environment r) = Success i) \<and> P i)" by blast
    then show ?thesis unfolding sizes_Success(1) [OF assms(1)] by simp
  qed
  have alloc: "caught ev = Success u \<longleftrightarrow> ev = No_exception" for ev u by (cases ev) (auto simp: caught_def)
  have "build_initial_stack max_size ab aa r = Success img \<longleftrightarrow>
      stack_inputs_ok r \<and> information_bytes r < 2 ^ 64 \<and> control_bytes r < 2 ^ 64 \<and>
      (\<exists>layout. place_stack (request_storage r) (of_nat (information_bytes r)) (of_nat (control_bytes r)) = Success layout \<and>
        unat (layout_used_size layout) \<le> max_size \<and> ab (unat (layout_used_size layout)) = No_exception \<and>
        fill_stack aa r layout = Success img)"
    unfolding build_initial_stack_def and_then_Success check_strings_Success check_auxv_Success if_Failure_Success
      alloc strings sizes_Success(2) [OF assms(1)]
    by (auto simp: stack_inputs_ok_def not_less)
  also have "\<dots> \<longleftrightarrow> stack_inputs_ok r \<and> stack_fits r \<and>
      used_bytes r \<le> max_size \<and> ab (used_bytes r) = No_exception \<and> fill_stack aa r (request_layout r) = Success img"
    using small by (auto simp: place_request [OF assms(2)] layout_values(2) [OF assms(2)])
  finally show ?thesis using fill_stack_cases(2) [OF assms(2)] by blast
qed

lemma build_initial_stack_defined:
  assumes "request_host r" and "range_wf (request_storage r)"
  shows "build_initial_stack max_size ab aa r \<noteq> Undefined"
proof
  assume "build_initial_stack max_size ab aa r = Undefined"
  moreover have "caught ev \<noteq> Undefined" for ev by (cases ev) (auto simp: caught_def)
  ultimately obtain a i c layout where
    "add_string_sizes 0 (request_arguments r) = Success a \<and> add_string_sizes a (request_environment r) = Success i"
    "control_size_of (length (request_arguments r)) (length (request_environment r))
        (length (request_auxiliary_vector r)) = Success c"
    and place: "place_stack (request_storage r) i c = Success layout" and fill: "fill_stack aa r layout = Undefined"
    by (auto simp: build_initial_stack_def and_then_Undefined check_inputs_defined add_string_sizes_defined
        control_size_of_defined place_stack_defined split: if_splits)
  then have "information_bytes r < 2 ^ 64" "control_bytes r < 2 ^ 64" "i = of_nat (information_bytes r)"
    "c = of_nat (control_bytes r)"
    using sizes_Success [OF assms(1)] by simp_all
  with place have "stack_fits r" "layout = request_layout r" using place_request [OF assms(2), of layout] by blast+
  with fill show False using fill_stack_cases(1) [OF assms(2)] by simp
qed

section \<open>Reading the image back\<close>

lemma field_word:
  assumes "k < length ws"
  shows "field_nat (concat (map (le_bytes 8) ws) @ rest) (8 * k) 8 = unat (ws ! k)"
  using assms
proof (induction ws arbitrary: k)
  case (Cons w ws)
  show ?case
  proof (cases k)
    case 0
    then show ?thesis by (simp add: field_nat_def)
  next
    case (Suc j)
    then show ?thesis using Cons.IH [of j] Cons.prems by (simp add: field_nat_def)
  qed
qed simp

lemma string_addresses_nth:
  "i < length ss \<Longrightarrow> string_addresses base cursor ss ! i = base + cursor + of_nat (length (terminated (take i ss)))"
proof (induction ss arbitrary: i cursor)
  case (Cons s ss)
  then show ?case by (cases i) (simp_all add: ac_simps)
qed simp

lemma terminated_split:
  "i < length ss \<Longrightarrow> terminated ss = terminated (take i ss) @ (ss ! i @ [0]) @ terminated (drop (Suc i) ss)"
  using id_take_nth_drop [of i ss] by (metis append_Cons append_assoc terminated_simps(2,3))

lemma terminated_nth:
  "i < length ss \<Longrightarrow>
     take (Suc (length (ss ! i))) (drop (length (terminated (take i ss))) (terminated ss)) = ss ! i @ [0]"
  using terminated_split [of i ss] by simp

text \<open>A pointer into the image: the zero-terminated string it points to.\<close>

definition points_to :: "InitialStackImage \<Rightarrow> nat \<Rightarrow> u8 list \<Rightarrow> bool" where
  "points_to img p s \<longleftrightarrow>
     unat (stack_rsp img) \<le> p \<and>
     take (Suc (length s)) (drop (p - unat (stack_rsp img)) (stack_bytes img)) = s @ [0]"

lemma image_points_to:
  assumes "range_wf (request_storage r)" and "stack_fits r"
    and "i < length (request_arguments r @ request_environment r)"
  shows "points_to (stack_image r) (unat ((argument_pointers r @ environment_pointers r) ! i))
    ((request_arguments r @ request_environment r) ! i)"
proof -
  note sizes = stack_sizes [OF assms(1,2)]
  let ?ss = "request_arguments r @ request_environment r"
  let ?n = "length (terminated (take i ?ss))"
  have n: "?n < information_bytes r"
    using arg_cong [OF terminated_split [OF assms(3)], of length] by (simp add: information_bytes_def)
  have "string_addresses b c (xs @ ys) = string_addresses b c xs @ string_addresses b (c + of_nat (length (terminated xs))) ys"
    for b c xs ys by (induction xs arbitrary: c) (simp_all add: ac_simps)
  then have "argument_pointers r @ environment_pointers r
      = string_addresses (of_nat (request_rsp r)) (of_nat (string_start r)) ?ss"
    by (simp add: argument_pointers_def environment_pointers_def)
  then have "(argument_pointers r @ environment_pointers r) ! i = of_nat (request_rsp r + string_start r + ?n)"
    using string_addresses_nth [OF assms(3)] by simp
  moreover have "request_rsp r + string_start r + ?n < 2 ^ 64"
    using n sizes(2,3,4) by linarith
  ultimately have p: "unat ((argument_pointers r @ environment_pointers r) ! i) = request_rsp r + string_start r + ?n"
    by (simp add: unat_of_nat del: of_nat_add)
  have rsp: "unat (of_nat (request_rsp r) :: u64) = request_rsp r" using sizes(6) by (simp add: unat_of_nat)
  have pre: "length (concat (map (le_bytes 8) (control_words r)) @ replicate (string_start r - control_bytes r) (0 :: u8))
      = string_start r"
    using sizes(1) length_control_words [of r] by (simp add: length_concat comp_def sum_list_triv mult.commute)
  have "drop (string_start r + ?n) (stack_bytes (stack_image r)) = drop ?n (terminated ?ss)"
    unfolding stack_image_def using pre by (simp add: append_assoc [symmetric] del: append_assoc terminated_simps)
  then show ?thesis
    using terminated_nth [OF assms(3)] unfolding points_to_def p by (simp add: stack_image_def rsp add.assoc)
qed

section \<open>Properties\<close>

text \<open>
  C8. Building the initial stack never writes out of range. It succeeds exactly when no string has an
  embedded zero, the auxiliary vector has no terminator entry, the control block and the strings fit
  the storage below the 16-byte boundary chosen for the stack pointer, and the host can allocate the
  buffers. The image is then argc, the argument pointers, a null word, the environment pointers, a null
  word, the auxiliary vector and its terminator as little-endian words at the stack pointer, zero
  padding, and the zero-terminated strings up to the end of the storage.
\<close>

theorem build_initial_stack_correct:
  assumes "request_host r" and "range_wf (request_storage r)"
  shows "build_initial_stack max_size ab aa r \<noteq> Undefined \<and>
    (\<forall>img. build_initial_stack max_size ab aa r = Success img \<longleftrightarrow>
     stack_inputs_ok r \<and> stack_fits r \<and> used_bytes r \<le> max_size \<and> ab (used_bytes r) = No_exception \<and>
     aa (length (request_arguments r)) = No_exception \<and> aa (length (request_environment r)) = No_exception \<and>
     img = stack_image r)"
  by (simp only: build_initial_stack_iff [OF assms] build_initial_stack_defined [OF assms] simp_thms)

definition sample_stack :: InitialStackRequest where
  "sample_stack = \<lparr>request_storage = \<lparr>range_base = 0x7000, range_size = 0x100\<rparr>,
     request_arguments = [[0x61, 0x62]], request_environment = [[0x63]],
     request_auxiliary_vector = [\<lparr>aux_type = 6, aux_value = 4096\<rparr>]\<rparr>"

lemma sample_stack_request:
  "request_host sample_stack" "range_wf (request_storage sample_stack)" "stack_inputs_ok sample_stack"
  "stack_fits sample_stack" "request_rsp sample_stack = 0x70b0" "used_bytes sample_stack = 80"
  by (simp_all add: sample_stack_def request_host_def host_object_def range_wf_def stack_inputs_ok_def stack_fits_def
      request_rsp_def rsp_below_def stack_top_def information_bytes_def control_bytes_def used_bytes_def)

theorem build_initial_stack_correct_witness:
  "build_initial_stack (2 ^ 62) (\<lambda>_. No_exception) (\<lambda>_. No_exception) sample_stack = Success (stack_image sample_stack) \<and>
   stack_rsp (stack_image sample_stack) = 0x70b0"
  using build_initial_stack_correct [of sample_stack "2 ^ 62" "\<lambda>_. No_exception" "\<lambda>_. No_exception"]
    sample_stack_request
  by (simp add: stack_image_def)

text \<open>The auxiliary vector in the control words.\<close>

lemma aux_words_nth:
  "i < length es \<Longrightarrow> aux_words es ! (2 * i) = aux_type (es ! i) \<and> aux_words es ! Suc (2 * i) = aux_value (es ! i)"
proof (induction es arbitrary: i)
  case (Cons e es)
  then show ?case by (cases i) (simp_all add: aux_words_def)
qed simp

lemma control_words_length:
  "length (control_words r) = length (request_arguments r) + length (request_environment r) +
     2 * length (request_auxiliary_vector r) + 5"
  by (simp add: control_words_def argument_pointers_def environment_pointers_def)

lemma control_words_aux:
  fixes r :: InitialStackRequest
  defines "k \<equiv> length (request_arguments r) + length (request_environment r) + 3"
    and "es \<equiv> request_auxiliary_vector r"
  shows "i < length es \<Longrightarrow> control_words r ! (k + 2 * i) = aux_type (es ! i)"
    and "i < length es \<Longrightarrow> control_words r ! (k + 1 + 2 * i) = aux_value (es ! i)"
    and "control_words r ! (k + 2 * length es) = 0"
    and "control_words r ! (k + 1 + 2 * length es) = 0"
proof -
  let ?pre = "[of_nat (length (request_arguments r))] @ argument_pointers r @ [0] @ environment_pointers r @ [0]"
  have words: "control_words r = ?pre @ aux_words es @ [0, 0]" by (simp add: control_words_def es_def)
  have pre: "length ?pre = k" by (simp add: argument_pointers_def environment_pointers_def k_def)
  have nth: "control_words r ! (k + j) = (aux_words es @ [0, 0]) ! j" for j
    unfolding words pre [symmetric] by (rule nth_append_length_plus)
  show "i < length es \<Longrightarrow> control_words r ! (k + 2 * i) = aux_type (es ! i)"
    "i < length es \<Longrightarrow> control_words r ! (k + 1 + 2 * i) = aux_value (es ! i)"
    using nth [of "2 * i"] nth [of "Suc (2 * i)"] aux_words_nth [of i es] by (simp_all add: nth_append)
  show "control_words r ! (k + 2 * length es) = 0" "control_words r ! (k + 1 + 2 * length es) = 0"
    using nth [of "2 * length es"] nth [of "Suc (2 * length es)"] by (simp_all add: nth_append)
qed

text \<open>
  C9. The stack a program starts on: the stack pointer is 16-byte aligned, the image reaches exactly
  the end of the storage, the first word is argc, each argv and envp word is the address of the
  corresponding zero-terminated string in the image, both vectors end with a null word, and after envp
  the auxiliary vector follows, entry by entry its type and its value, ended by a pair of zero words.
\<close>

theorem initial_stack_abi:
  assumes "request_host r" and "range_wf (request_storage r)"
    and "build_initial_stack max_size ab aa r = Success img"
  defines "argc \<equiv> length (request_arguments r)" and "envc \<equiv> length (request_environment r)"
    and "auxc \<equiv> length (request_auxiliary_vector r)" and "word \<equiv> \<lambda>k. field_nat (stack_bytes img) (8 * k) 8"
  shows "unat (stack_rsp img) mod 16 = 0 \<and>
    unat (stack_rsp img) + length (stack_bytes img) = stack_top (request_storage r) \<and>
    word 0 = argc \<and> word (argc + 1) = 0 \<and> word (argc + envc + 2) = 0 \<and>
    (\<forall>i < argc. points_to img (word (i + 1)) (request_arguments r ! i)) \<and>
    (\<forall>i < envc. points_to img (word (argc + 2 + i)) (request_environment r ! i)) \<and>
    (\<forall>i < auxc. word (argc + envc + 3 + 2 * i) = unat (aux_type (request_auxiliary_vector r ! i)) \<and>
       word (argc + envc + 4 + 2 * i) = unat (aux_value (request_auxiliary_vector r ! i))) \<and>
    word (argc + envc + 3 + 2 * auxc) = 0 \<and> word (argc + envc + 4 + 2 * auxc) = 0"
proof -
  have img: "img = stack_image r" and fits: "stack_fits r"
    using assms(3) build_initial_stack_iff [OF assms(1,2)] by auto
  note sizes = stack_sizes [OF assms(2) fits]
  have rsp: "unat (stack_rsp img) = request_rsp r" using sizes(6) by (simp add: img stack_image_def unat_of_nat)
  have align: "request_rsp r mod 16 = 0" by (simp add: request_rsp_def rsp_below_def)
  have len: "length (stack_bytes img) = used_bytes r"
    using sizes(1,2) length_control_words [of r]
    by (simp add: img stack_image_def length_concat comp_def sum_list_triv mult.commute information_bytes_def)
  have word: "word k = unat (control_words r ! k)" if "k < length (control_words r)" for k
    unfolding word_def img stack_image_def using field_word [OF that] by simp
  have ptrs: "length (argument_pointers r) = argc" "length (environment_pointers r) = envc"
    by (simp_all add: argument_pointers_def environment_pointers_def argc_def envc_def)
  have host: "unat (of_nat argc :: u64) = argc"
    using assms(1) unfolding argc_def request_host_def by (intro host_object_unat) auto
  have w: "word 0 = argc" "word (argc + 1) = 0" "word (argc + envc + 2) = 0"
    "i < argc \<Longrightarrow> word (i + 1) = unat (argument_pointers r ! i)"
    "i < envc \<Longrightarrow> word (argc + 2 + i) = unat (environment_pointers r ! i)" for i
    using ptrs host by (simp_all add: word control_words_def nth_append nth_Cons' argc_def [symmetric] envc_def [symmetric])
  have "points_to img (word (i + 1)) (request_arguments r ! i)" if "i < argc" for i
    using image_points_to [OF assms(2) fits, of i] that ptrs w by (simp add: nth_append img argc_def envc_def)
  moreover have "points_to img (word (argc + 2 + i)) (request_environment r ! i)" if "i < envc" for i
    using image_points_to [OF assms(2) fits, of "argc + i"] that ptrs w by (simp add: nth_append img argc_def envc_def)
  moreover have "word (argc + envc + 3 + 2 * i) = unat (aux_type (request_auxiliary_vector r ! i)) \<and>
      word (argc + envc + 4 + 2 * i) = unat (aux_value (request_auxiliary_vector r ! i))" if "i < auxc" for i
    using control_words_aux(1,2) [of i r] that
    by (simp add: word control_words_length argc_def envc_def auxc_def add.commute [of 4] add.assoc)
  moreover have "word (argc + envc + 3 + 2 * auxc) = 0" "word (argc + envc + 4 + 2 * auxc) = 0"
    using control_words_aux(3,4) [of r] by (simp_all add: word control_words_length argc_def envc_def auxc_def add.commute [of 4] add.assoc)
  ultimately show ?thesis using rsp align len sizes(3) w by simp
qed

theorem initial_stack_abi_witness:
  "points_to (stack_image sample_stack) (field_nat (stack_bytes (stack_image sample_stack)) (8 * (0 + 1)) 8) [0x61, 0x62] \<and>
   field_nat (stack_bytes (stack_image sample_stack)) (8 * (1 + 1 + 3 + 2 * 0)) 8 = 6 \<and>
   field_nat (stack_bytes (stack_image sample_stack)) (8 * (1 + 1 + 4 + 2 * 0)) 8 = 4096"
proof -
  have "build_initial_stack (2 ^ 62) (\<lambda>_. No_exception) (\<lambda>_. No_exception) sample_stack = Success (stack_image sample_stack)"
    using sample_stack_request by (subst build_initial_stack_iff) simp_all
  from initial_stack_abi [OF sample_stack_request(1,2) this] show ?thesis
    by (simp add: sample_stack_def)
qed

end
