(* ===== verification/Guest_Image.thy ===== *)
theory Guest_Image
  imports Dynamic_String Dynamic_Relocations Tls_Template Initial_Stack
begin

text \<open>
  src/loader/guest_image.cpp: build_guest_image composes the loader components into one image. The
  record \<open>Host\<close> collects what the host decides: vector limits, the outcome of guarded allocations and
  \<open>host_thrown\<close>, the exception an unguarded allocation of build_guest_image_impl throws, if any.
\<close>

section \<open>Data\<close>

datatype GuestImageErrorCode =
    elf_parse_failure
  | mapping_failure
  | initialized_image_failure
  | duplicate_dynamic_segment
  | mapping_overlap_conflict
  | initial_stack_overlaps_load_mapping
  | dynamic_parse_failure
  | dynamic_metadata_failure
  | dynamic_symbol_failure
  | dynamic_relocation_failure
  | tls_failure
  | initial_stack_failure
  | host_allocation_failure
  | host_size_unrepresentable

datatype GuestImageErrorCause =
    no_cause
  | elf_cause ElfError
  | mapping_cause MappingError
  | image_view_cause InitializedImageError
  | dynamic_cause DynamicError
  | metadata_cause DynamicMetadataError
  | symbol_cause DynamicSymbolError
  | relocation_cause DynamicRelocationError
  | tls_cause TlsTemplateError
  | stack_cause InitialStackError

record GuestImageError =
  guest_error_code :: GuestImageErrorCode
  guest_error_cause :: GuestImageErrorCause
  guest_error_source_program_header_index :: "nat option"
  guest_error_conflicting_program_header_index :: "nat option"

record GuestImageRequest =
  request_image_bytes :: "u8 list"
  request_initial_stack :: InitialStackRequest
  request_elf_profile :: ElfParseProfile

record GuestImage =
  guest_image_bytes :: "u8 list"
  guest_elf :: ElfImage
  guest_mappings :: "MappingIntent list"
  guest_dynamic_table :: "DynamicTable option"
  guest_dynamic_strings :: "DynamicStringMetadata option"
  guest_dynamic_symbols :: "DynamicSymbolTableDescriptor option"
  guest_general_relocations :: GeneralDynamicRelocationMetadata
  guest_plt_relocations :: "DynamicRelocationTableDescriptor option"
  guest_tls :: "TlsTemplateDescriptor option"
  guest_initial_stack :: InitialStackImage

record Host =
  host_max_size :: nat
  host_alloc_bytes :: host_allocator
  host_alloc_addresses :: host_allocator
  host_thrown :: host_event

text \<open>image_error with its defaulted arguments; the others are set by record update.\<close>

definition image_error :: "GuestImageErrorCode \<Rightarrow> GuestImageErrorCause \<Rightarrow> GuestImageError" where
  "image_error code cause =
     \<lparr>guest_error_code = code, guest_error_cause = cause, guest_error_source_program_header_index = None,
      guest_error_conflicting_program_header_index = None\<rparr>"

section \<open>Overlap checks\<close>

definition initialized_overlap_conflicts :: "MappingIntent \<Rightarrow> MappingIntent \<Rightarrow> bool" where
  "initialized_overlap_conflicts lhs rhs =
     (if \<not> range_overlaps (intent_range lhs) (intent_range rhs) then False
      else if backing_kind (intent_backing lhs) = anonymous \<or> backing_kind (intent_backing rhs) = anonymous then True
      else if backing_kind (intent_backing lhs) \<noteq> backing_kind (intent_backing rhs) then True
      else if backing_kind (intent_backing lhs) = zero_fill then False
      else (let overlap_base = max (range_base (intent_range lhs)) (range_base (intent_range rhs));
                lhs_delta = overlap_base - range_base (intent_range lhs);
                rhs_delta = overlap_base - range_base (intent_range rhs) in
        case (checked_add_u64 (backing_file_offset (intent_backing lhs)) lhs_delta,
              checked_add_u64 (backing_file_offset (intent_backing rhs)) rhs_delta) of
          (Some lhs_source, Some rhs_source) \<Rightarrow> lhs_source \<noteq> rhs_source
        | _ \<Rightarrow> True))"

text \<open>The inner loop of first_mapping_conflict: it stops at the first mapping that starts past m.\<close>

primrec conflict_with :: "MappingIntent \<Rightarrow> MappingIntent list \<Rightarrow> (nat \<times> nat) option" where
  "conflict_with m [] = None"
| "conflict_with m (n # ns) =
     (if \<not> range_contains (intent_range m) (range_base (intent_range n)) then None
      else if initialized_overlap_conflicts m n then Some (intent_source_index m, intent_source_index n)
      else conflict_with m ns)"

primrec first_mapping_conflict :: "MappingIntent list \<Rightarrow> (nat \<times> nat) option" where
  "first_mapping_conflict [] = None"
| "first_mapping_conflict (m # ms) = (case conflict_with m ms of
       Some c \<Rightarrow> Some c
     | None \<Rightarrow> first_mapping_conflict ms)"

primrec first_stack_overlap :: "GuestRange \<Rightarrow> MappingIntent list \<Rightarrow> nat option" where
  "first_stack_overlap storage [] = None"
| "first_stack_overlap storage (mapping # rest) =
     (if range_overlaps storage (intent_range mapping) then Some (intent_source_index mapping)
      else first_stack_overlap storage rest)"

section \<open>Building the image\<close>

primrec collect_mappings ::
  "ProgramHeader list \<Rightarrow> MappingIntent list \<Rightarrow> (MappingIntent list, GuestImageError) Result" where
  "collect_mappings [] mappings = Success mappings"
| "collect_mappings (header # rest) mappings =
     (if ph_type header \<noteq> kPtLoad then collect_mappings rest mappings
      else and_then (mapping_intents_from_load header)
        (\<lambda>e. (image_error mapping_failure (mapping_cause e))
           \<lparr>guest_error_source_program_header_index := Some (mapping_error_first_source_index e),
            guest_error_conflicting_program_header_index := Some (mapping_error_second_source_index e)\<rparr>)
        (\<lambda>intents. collect_mappings rest (mappings @ intents)))"

definition check_mappings :: "GuestRange \<Rightarrow> MappingIntent list \<Rightarrow> (unit, GuestImageError) Result" where
  "check_mappings storage mappings = (case first_mapping_conflict mappings of
       Some (first, second) \<Rightarrow> Failure ((image_error GuestImageErrorCode.mapping_overlap_conflict no_cause)
         \<lparr>guest_error_source_program_header_index := Some first,
          guest_error_conflicting_program_header_index := Some second\<rparr>)
     | None \<Rightarrow> (case first_stack_overlap storage mappings of
         Some index \<Rightarrow> Failure ((image_error initial_stack_overlaps_load_mapping no_cause)
           \<lparr>guest_error_source_program_header_index := Some index\<rparr>)
       | None \<Rightarrow> Success ()))"

primrec find_dynamic_segment ::
  "ProgramHeader list \<Rightarrow> ProgramHeader option \<Rightarrow> (ProgramHeader option, GuestImageError) Result" where
  "find_dynamic_segment [] dynamic_segment = Success dynamic_segment"
| "find_dynamic_segment (header # rest) dynamic_segment =
     (if ph_type header \<noteq> kPtDynamic then find_dynamic_segment rest dynamic_segment
      else case dynamic_segment of
          Some d \<Rightarrow> Failure ((image_error duplicate_dynamic_segment no_cause)
            \<lparr>guest_error_source_program_header_index := Some (ph_index header),
             guest_error_conflicting_program_header_index := Some (ph_index d)\<rparr>)
        | None \<Rightarrow> find_dynamic_segment rest (Some header))"

record DynamicParts =
  parts_table :: "DynamicTable option"
  parts_strings :: "DynamicStringMetadata option"
  parts_symbols :: "DynamicSymbolTableDescriptor option"
  parts_general :: GeneralDynamicRelocationMetadata
  parts_plt :: "DynamicRelocationTableDescriptor option"

definition first_nonempty_relocation ::
  "GeneralDynamicRelocationMetadata \<Rightarrow> DynamicRelocationTableDescriptor option \<Rightarrow> DynamicRelocationTableDescriptor option" where
  "first_nonempty_relocation general plt =
     (let nonempty = (\<lambda>d. case d of None \<Rightarrow> False | Some t \<Rightarrow> relocs_count t > 0) in
      if nonempty (general_rel general) then general_rel general
      else if nonempty (general_rela general) then general_rela general
      else if nonempty plt then plt
      else None)"

definition missing_symbol_table_error :: "DynamicRelocationTableDescriptor \<Rightarrow> DynamicRelocationError" where
  "missing_symbol_table_error t = (relocation_error missing_symbol_table)
     \<lparr>relocation_error_source_entry_index := Some (relocs_address_source_entry_index t),
      relocation_error_table_kind := Some (relocs_kind t),
      relocation_error_guest_address := Some (range_base (relocs_range t))\<rparr>"

definition build_dynamic_parts ::
  "u8 list \<Rightarrow> InitializedImageView \<Rightarrow> ProgramHeader \<Rightarrow> (DynamicParts, GuestImageError) Result" where
  "build_dynamic_parts image_bytes view segment =
     (let failed = (\<lambda>code cause. (image_error code cause)
            \<lparr>guest_error_source_program_header_index := Some (ph_index segment)\<rparr>) in
      and_then (parse_dynamic_table image_bytes segment) (\<lambda>e. failed dynamic_parse_failure (dynamic_cause e)) (\<lambda>table.
      and_then (build_dynamic_string_metadata table) (\<lambda>e. failed dynamic_metadata_failure (metadata_cause e)) (\<lambda>strings.
      and_then (build_dynamic_symbol_table_descriptor table view)
        (\<lambda>e. failed dynamic_symbol_failure (symbol_cause e)) (\<lambda>symbols.
      and_then (build_general_dynamic_relocation_metadata table)
        (\<lambda>e. failed dynamic_relocation_failure (relocation_cause e)) (\<lambda>general.
      and_then (build_plt_dynamic_relocation_metadata table)
        (\<lambda>e. failed dynamic_relocation_failure (relocation_cause e)) (\<lambda>plt.
      case (first_nonempty_relocation general plt, symbols) of
        (Some t, None) \<Rightarrow>
          Failure (failed dynamic_relocation_failure (relocation_cause (missing_symbol_table_error t)))
      | _ \<Rightarrow> Success \<lparr>parts_table = Some table, parts_strings = Some strings, parts_symbols = symbols,
               parts_general = general, parts_plt = plt\<rparr>))))))"

definition no_dynamic_parts :: DynamicParts where
  "no_dynamic_parts = \<lparr>parts_table = None, parts_strings = None, parts_symbols = None,
     parts_general = \<lparr>general_rel = None, general_rela = None\<rparr>, parts_plt = None\<rparr>"

definition build_guest_image_impl :: "Host \<Rightarrow> GuestImageRequest \<Rightarrow> (GuestImage, GuestImageError) Result" where
  "build_guest_image_impl host request =
     (let image_bytes = request_image_bytes request; stack_request = request_initial_stack request in
      and_then (parse_elf64 image_bytes (request_elf_profile request))
        (\<lambda>e. image_error elf_parse_failure (elf_cause e)) (\<lambda>elf.
      with_value (collect_mappings (image_program_headers elf) []) (\<lambda>unsorted.
      let mappings = std_sort mapping_intent_less unsorted in
      with_value (check_mappings (request_storage stack_request) mappings) (\<lambda>_.
      and_then (view_create image_bytes mappings)
        (\<lambda>e. image_error initialized_image_failure (image_view_cause e)) (\<lambda>view.
      with_value (find_dynamic_segment (image_program_headers elf) None) (\<lambda>dynamic_segment.
      with_value (case dynamic_segment of None \<Rightarrow> Success no_dynamic_parts
          | Some segment \<Rightarrow> build_dynamic_parts image_bytes view segment) (\<lambda>parts.
      and_then (build_tls_template_descriptor (image_program_headers elf) image_bytes)
        (\<lambda>e. (image_error tls_failure (tls_cause e))
           \<lparr>guest_error_source_program_header_index := tls_error_source_program_header_index e,
            guest_error_conflicting_program_header_index := tls_error_conflicting_program_header_index e\<rparr>) (\<lambda>tls.
      and_then (build_initial_stack (host_max_size host) (host_alloc_bytes host) (host_alloc_addresses host) stack_request)
        (\<lambda>e. image_error initial_stack_failure (stack_cause e)) (\<lambda>stack.
      Success \<lparr>guest_image_bytes = image_bytes, guest_elf = elf, guest_mappings = mappings,
        guest_dynamic_table = parts_table parts, guest_dynamic_strings = parts_strings parts,
        guest_dynamic_symbols = parts_symbols parts, guest_general_relocations = parts_general parts,
        guest_plt_relocations = parts_plt parts, guest_tls = tls, guest_initial_stack = stack\<rparr>)))))))))"

definition build_guest_image :: "Host \<Rightarrow> GuestImageRequest \<Rightarrow> (GuestImage, GuestImageError) Result" where
  "build_guest_image host request = (case host_thrown host of
       No_exception \<Rightarrow> build_guest_image_impl host request
     | Bad_alloc \<Rightarrow> Failure (image_error GuestImageErrorCode.host_allocation_failure no_cause)
     | Length_error \<Rightarrow> Failure (image_error GuestImageErrorCode.host_size_unrepresentable no_cause))"

section \<open>Operations of an image\<close>

definition initialized_image_view :: "GuestImage \<Rightarrow> (InitializedImageView, InitializedImageError) Result" where
  "initialized_image_view guest = view_create (guest_image_bytes guest) (guest_mappings guest)"

definition materialize_tls :: "Host \<Rightarrow> GuestImage \<Rightarrow> (u8 list option, TlsTemplateError) Result" where
  "materialize_tls host guest = (case guest_tls guest of
       None \<Rightarrow> Success None
     | Some tls \<Rightarrow> with_value (materialize_tls_template (host_max_size host) (host_alloc_bytes host) tls (guest_image_bytes guest))
         (\<lambda>bytes. Success (Some bytes)))"

section \<open>Overlaps and sources\<close>

text \<open>Two intents name the same source for every address they share.\<close>

definition sources_agree :: "MappingIntent \<Rightarrow> MappingIntent \<Rightarrow> bool" where
  "sources_agree l r \<longleftrightarrow>
     (\<forall>a. range_contains (intent_range l) a \<longrightarrow> range_contains (intent_range r) a \<longrightarrow> source_of l a = source_of r a)"

lemma sources_agree_sym: "sources_agree l r \<Longrightarrow> sources_agree r l"
  by (auto simp: sources_agree_def)

lemma sources_agree_refl [simp]: "sources_agree m m"
  by (simp add: sources_agree_def)

lemma overlap_base_common:
  assumes "range_overlaps r s"
  shows "range_contains r (max (range_base r) (range_base s))" and "range_contains s (max (range_base r) (range_base s))"
  using assms by (auto simp: range_overlaps_iff range_contains_iff max_def word_le_nat_alt)

lemma file_source_at:
  assumes "intent_valid n m" and "n < 2 ^ 64" and "backing_kind (intent_backing m) = file_backing"
    and "range_contains (intent_range m) a"
  shows "checked_add_u64 (backing_file_offset (intent_backing m)) (a - range_base (intent_range m)) =
      Some (backing_file_offset (intent_backing m) + (a - range_base (intent_range m)))"
    and "source_of m a = File_byte (unat (backing_file_offset (intent_backing m) + (a - range_base (intent_range m))))"
proof -
  have d: "unat (a - range_base (intent_range m)) = unat a - unat (range_base (intent_range m))"
    "unat a - unat (range_base (intent_range m)) < unat (range_size (intent_range m))"
    using assms(4) by (auto simp: range_contains_iff unat_sub_if')
  have "unat (backing_file_offset (intent_backing m)) + unat (range_size (intent_range m)) \<le> n"
    using assms(1,3) by (simp add: intent_valid_def)
  then have fits: "unat (backing_file_offset (intent_backing m)) + unat (a - range_base (intent_range m)) < 2 ^ 64"
    using d assms(2) by linarith
  then show "checked_add_u64 (backing_file_offset (intent_backing m)) (a - range_base (intent_range m)) =
      Some (backing_file_offset (intent_backing m) + (a - range_base (intent_range m)))"
    by (simp add: checked_add_u64_Some)
  show "source_of m a = File_byte (unat (backing_file_offset (intent_backing m) + (a - range_base (intent_range m))))"
    using fits d assms(3) by (simp add: source_of_def unat_add_no_wrap)
qed

text \<open>Two file-backed sources that agree at one shared address agree at all of them.\<close>

lemma file_sources_agree:
  assumes "backing_kind (intent_backing l) = file_backing" and "backing_kind (intent_backing r) = file_backing"
    and "range_contains (intent_range l) a" and "range_contains (intent_range r) a"
  shows "sources_agree l r \<longleftrightarrow> source_of l a = source_of r a"
  using assms by (auto simp: sources_agree_def source_of_def range_contains_iff)

lemma initialized_overlap_conflicts_iff:
  assumes "intent_valid n l" and "intent_valid n r" and "n < 2 ^ 64"
  shows "initialized_overlap_conflicts l r \<longleftrightarrow> \<not> sources_agree l r"
proof (cases "range_overlaps (intent_range l) (intent_range r)")
  case False
  then show ?thesis
    by (auto simp: initialized_overlap_conflicts_def sources_agree_def range_overlaps_common_address)
next
  case True
  let ?a = "max (range_base (intent_range l)) (range_base (intent_range r))"
  note common = overlap_base_common [OF True]
  have kinds: "backing_kind (intent_backing l) \<noteq> anonymous" "backing_kind (intent_backing r) \<noteq> anonymous"
    using assms by (simp_all add: intent_valid_def)
  show ?thesis
  proof (cases "backing_kind (intent_backing l) = file_backing \<and> backing_kind (intent_backing r) = file_backing")
    case files: True
    let ?l = "backing_file_offset (intent_backing l) + (?a - range_base (intent_range l))"
    let ?r = "backing_file_offset (intent_backing r) + (?a - range_base (intent_range r))"
    have "initialized_overlap_conflicts l r \<longleftrightarrow> ?l \<noteq> ?r"
      using True files file_source_at(1) [OF assms(1,3) _ common(1)] file_source_at(1) [OF assms(2,3) _ common(2)]
      by (simp add: initialized_overlap_conflicts_def Let_def)
    moreover have "source_of l ?a = source_of r ?a \<longleftrightarrow> ?l = ?r"
      using files file_source_at(2) [OF assms(1,3) _ common(1)] file_source_at(2) [OF assms(2,3) _ common(2)]
      by (simp only: byte_source.inject word_unat_eq_iff)
    ultimately show ?thesis using file_sources_agree [OF _ _ common] files by simp
  next
    case False
    then show ?thesis
      using kinds True common
      by (cases "backing_kind (intent_backing l)"; cases "backing_kind (intent_backing r)")
        (auto simp: initialized_overlap_conflicts_def sources_agree_def source_of_def)
  qed
qed

lemma conflict_with_None:
  assumes "sorted (map (\<lambda>m. range_base (intent_range m)) (m # ns))" and "range_size (intent_range m) \<noteq> 0"
  shows "conflict_with m ns = None \<longleftrightarrow> (\<forall>n \<in> set ns. \<not> initialized_overlap_conflicts m n)"
  using assms
proof (induction ns)
  case (Cons n ns)
  show ?case
  proof (cases "range_contains (intent_range m) (range_base (intent_range n))")
    case True
    then show ?thesis using Cons by simp
  next
    case False
    have "\<not> range_overlaps (intent_range m) (intent_range k)" if "k \<in> set (n # ns)" for k
    proof -
      have le: "range_base (intent_range m) \<le> range_base (intent_range n)"
        "range_base (intent_range n) \<le> range_base (intent_range k)" using Cons.prems that by auto
      then show ?thesis using False by (auto simp: range_contains_iff range_overlaps_iff word_le_nat_alt)
    qed
    with False show ?thesis by (simp add: initialized_overlap_conflicts_def)
  qed
qed simp

lemma first_mapping_conflict_None:
  assumes "sorted (map (\<lambda>m. range_base (intent_range m)) ms)" and "\<forall>m \<in> set ms. range_size (intent_range m) \<noteq> 0"
  shows "first_mapping_conflict ms = None \<longleftrightarrow> sorted_wrt (\<lambda>m n. \<not> initialized_overlap_conflicts m n) ms"
  using assms
proof (induction ms)
  case (Cons m ms)
  then show ?case using conflict_with_None [of m ms] by (auto split: option.split)
qed simp

lemma sorted_wrt_sym_all:
  "(\<And>x y. R x y \<Longrightarrow> R y x) \<Longrightarrow> (\<And>x. R x x) \<Longrightarrow> sorted_wrt R xs \<longleftrightarrow> (\<forall>x \<in> set xs. \<forall>y \<in> set xs. R x y)"
  by (induction xs) auto

lemma first_mapping_conflict_agree:
  assumes "sorted (map (\<lambda>m. range_base (intent_range m)) ms)"
    and "\<forall>m \<in> set ms. intent_valid n m \<and> range_size (intent_range m) \<noteq> 0" and "n < 2 ^ 64"
  shows "first_mapping_conflict ms = None \<longleftrightarrow> (\<forall>l \<in> set ms. \<forall>r \<in> set ms. sources_agree l r)"
proof -
  have "first_mapping_conflict ms = None \<longleftrightarrow> sorted_wrt (\<lambda>m n. \<not> initialized_overlap_conflicts m n) ms"
    using assms(1,2) by (intro first_mapping_conflict_None) auto
  also have "\<dots> \<longleftrightarrow> sorted_wrt sources_agree ms"
  proof (intro iffI; erule sorted_wrt_mono_rel [rotated])
    fix l r assume "l \<in> set ms" "r \<in> set ms"
    then have "initialized_overlap_conflicts l r \<longleftrightarrow> \<not> sources_agree l r"
      using assms(2) by (intro initialized_overlap_conflicts_iff [OF _ _ assms(3)]) blast+
    then show "\<not> initialized_overlap_conflicts l r \<Longrightarrow> sources_agree l r"
      "sources_agree l r \<Longrightarrow> \<not> initialized_overlap_conflicts l r" by blast+
  qed
  also have "\<dots> \<longleftrightarrow> (\<forall>l \<in> set ms. \<forall>r \<in> set ms. sources_agree l r)"
    by (rule sorted_wrt_sym_all) (erule sources_agree_sym, rule sources_agree_refl)
  finally show ?thesis .
qed

section \<open>The mappings of an accepted file\<close>

definition image_mappings :: "u8 list \<Rightarrow> MappingIntent list" where
  "image_mappings bytes =
     concat (map load_intents (load_headers (image_program_headers (decode_image bytes))))"

lemma collect_mappings_Success:
  "collect_mappings hs acc = Success ms \<longleftrightarrow>
     (\<forall>h \<in> set (load_headers hs). load_fits h) \<and> ms = acc @ concat (map load_intents (load_headers hs))"
  by (induction hs arbitrary: acc) (auto simp: and_then_Success mapping_intents_from_load_iff load_headers_def)

lemma accepted_segments:
  assumes "elf64_accepts bytes profile" and "h \<in> set (load_headers (image_program_headers (decode_image bytes)))"
  shows "load_segment_ok (length bytes) h"
proof (cases "elf_program_header_count (decode_header bytes) = 0")
  case True
  then show ?thesis using assms(2) by (simp add: decode_image_table load_headers_def)
next
  case False
  then show ?thesis using assms by (simp add: elf64_accepts_def elf64_segments_ok_def list_all_iff)
qed

lemma load_intents_valid:
  assumes "load_segment_ok n h" and "m \<in> set (load_intents h)"
  shows "intent_valid n m" and "range_size (intent_range m) \<noteq> 0"
proof -
  have fits: "load_fits h" using assms(1) by (rule load_segment_fits)
  show "range_size (intent_range m) \<noteq> 0" by (rule load_intents_wf(2) [OF fits assms(2)])
  show "intent_valid n m"
    using load_intents_wf(3,4) [OF fits assms(2)] assms
    by (auto simp: intent_valid_def load_intents_def file_intent_def zero_intent_def load_segment_ok_def unat_eq_0
        split: if_splits)
qed

lemma accepted_mappings_valid:
  assumes "elf64_accepts bytes profile" and "m \<in> set (image_mappings bytes)"
  shows "intent_valid (length bytes) m \<and> range_size (intent_range m) \<noteq> 0"
  using assms accepted_segments [OF assms(1)] load_intents_valid by (fastforce simp: image_mappings_def)

text \<open>
  What an image holds at an address: the file byte or the zero of a PT_LOAD segment whose memory range
  contains the address.
\<close>

definition segment_byte :: "u8 list \<Rightarrow> ProgramHeader \<Rightarrow> nat \<Rightarrow> u8" where
  "segment_byte bytes h i = (if i < unat (ph_file_size h) then bytes ! (unat (ph_offset h) + i) else 0)"

lemma load_intents_source:
  assumes "load_fits h" and "i < unat (ph_memory_size h)"
  defines "a \<equiv> ph_virtual_address h + of_nat i"
  shows "\<exists>m \<in> set (load_intents h). range_contains (intent_range m) a \<and>
    source_byte bytes (source_of m a) = segment_byte bytes h i"
proof -
  have a: "unat a = unat (ph_virtual_address h) + i"
    using range_offset(3) [of "\<lparr>range_base = ph_virtual_address h, range_size = ph_memory_size h\<rparr>" i] assms
    by (simp add: a_def load_fits_def range_wf_def)
  show ?thesis
  proof (cases "i < unat (ph_file_size h)")
    case True
    then have "ph_file_size h \<noteq> 0" by auto
    with True a show ?thesis
      by (auto simp: load_intents_def file_intent_def range_contains_iff source_of_def segment_byte_def)
  next
    case False
    then have ne: "ph_memory_size h \<noteq> ph_file_size h" using assms(2) by auto
    have "unat (ph_memory_size h - ph_file_size h) = unat (ph_memory_size h) - unat (ph_file_size h)"
      using assms(1) by (simp add: load_fits_def unat_sub_if')
    with False ne a assms(2) load_fits_zero_base [OF assms(1) ne] show ?thesis
      by (auto simp: load_intents_def zero_intent_def range_contains_iff source_of_def segment_byte_def)
  qed
qed

lemma load_intents_cover:
  assumes "load_fits h" and "m \<in> set (load_intents h)" and "range_contains (intent_range m) a"
  shows "\<exists>i < unat (ph_memory_size h). a = ph_virtual_address h + of_nat i"
proof -
  let ?i = "unat a - unat (ph_virtual_address h)"
  have "unat (ph_virtual_address h) \<le> unat a \<and> unat a < unat (ph_virtual_address h) + unat (ph_memory_size h)"
    using assms load_fits_zero_base [OF assms(1)]
    by (auto simp: load_intents_def file_intent_def zero_intent_def range_contains_iff load_fits_def unat_sub_if'
        split: if_splits)
  moreover from this have "a = ph_virtual_address h + of_nat ?i" by (simp add: of_nat_diff)
  ultimately show ?thesis by (intro exI [of _ ?i]) auto
qed

section \<open>Acceptance of a request\<close>

lemma first_stack_overlap_None:
  "first_stack_overlap storage ms = None \<longleftrightarrow> (\<forall>m \<in> set ms. \<not> range_overlaps storage (intent_range m))"
  by (induction ms) auto

lemma find_dynamic_segment_Success:
  "find_dynamic_segment hs d = Success r \<longleftrightarrow>
     (case d of None \<Rightarrow> (case filter (\<lambda>h. ph_type h = kPtDynamic) hs of [] \<Rightarrow> r = None | [h] \<Rightarrow> r = Some h | _ \<Rightarrow> False)
      | Some t \<Rightarrow> filter (\<lambda>h. ph_type h = kPtDynamic) hs = [] \<and> r = Some t)"
  by (induction hs arbitrary: d) (auto split: option.splits list.splits)

lemma find_dynamic_segment_defined: "find_dynamic_segment hs d \<noteq> Undefined"
  by (induction hs arbitrary: d) (auto split: option.splits)

definition sorted_mappings :: "u8 list \<Rightarrow> MappingIntent list" where
  "sorted_mappings bytes = std_sort mapping_intent_less (image_mappings bytes)"

text \<open>The view of an accepted file.\<close>

definition image_view :: "u8 list \<Rightarrow> InitializedImageView" where
  "image_view bytes = \<lparr>view_image_bytes = bytes, view_intents = std_sort mapping_intent_less (sorted_mappings bytes)\<rparr>"

lemma accepted_view:
  assumes "host_object bytes" and "elf64_accepts bytes profile"
  shows "view_create bytes (sorted_mappings bytes) = Success (image_view bytes)"
  using accepted_mappings_valid [OF assms(2)]
  by (auto simp: view_create_Success [OF assms(1)] list_all_iff sorted_mappings_def image_view_def)

lemma accepted_view_wf:
  "host_object bytes \<Longrightarrow> elf64_accepts bytes profile \<Longrightarrow> view_wf (image_view bytes)"
  by (rule view_create_wf [OF _ accepted_view])

definition mappings_agree :: "u8 list \<Rightarrow> bool" where
  "mappings_agree bytes \<longleftrightarrow> (\<forall>l \<in> set (image_mappings bytes). \<forall>r \<in> set (image_mappings bytes). sources_agree l r)"

definition storage_free :: "GuestRange \<Rightarrow> u8 list \<Rightarrow> bool" where
  "storage_free storage bytes \<longleftrightarrow> (\<forall>m \<in> set (image_mappings bytes). \<not> range_overlaps storage (intent_range m))"

lemma check_mappings_Success:
  assumes "host_object bytes" and "elf64_accepts bytes profile"
  shows "check_mappings storage (sorted_mappings bytes) = Success u \<longleftrightarrow>
    mappings_agree bytes \<and> storage_free storage bytes"
proof -
  have "first_mapping_conflict (sorted_mappings bytes) = None \<longleftrightarrow> mappings_agree bytes"
    unfolding mappings_agree_def sorted_mappings_def
    using accepted_mappings_valid [OF assms(2)] sorted_bases [OF mapping_order.sorted_std_sort] host_object_length [OF assms(1)]
    by (subst first_mapping_conflict_agree [where n = "length bytes"]) auto
  moreover have "first_stack_overlap storage (sorted_mappings bytes) = None \<longleftrightarrow> storage_free storage bytes"
    by (simp add: first_stack_overlap_None storage_free_def sorted_mappings_def)
  ultimately show ?thesis by (auto simp: check_mappings_def split: option.splits)
qed

definition dynamic_parts_ok :: "u8 list \<Rightarrow> DynamicParts \<Rightarrow> bool" where
  "dynamic_parts_ok bytes parts \<longleftrightarrow>
     (case filter (\<lambda>h. ph_type h = kPtDynamic) (image_program_headers (decode_image bytes)) of
        [] \<Rightarrow> parts = no_dynamic_parts
      | [segment] \<Rightarrow> build_dynamic_parts bytes (image_view bytes) segment = Success parts
      | _ \<Rightarrow> False)"

definition image_of ::
  "u8 list \<Rightarrow> DynamicParts \<Rightarrow> TlsTemplateDescriptor option \<Rightarrow> InitialStackImage \<Rightarrow> GuestImage" where
  "image_of bytes parts tls stack =
     \<lparr>guest_image_bytes = bytes, guest_elf = decode_image bytes, guest_mappings = sorted_mappings bytes,
      guest_dynamic_table = parts_table parts, guest_dynamic_strings = parts_strings parts,
      guest_dynamic_symbols = parts_symbols parts, guest_general_relocations = parts_general parts,
      guest_plt_relocations = parts_plt parts, guest_tls = tls, guest_initial_stack = stack\<rparr>"

definition guest_image_accepts :: "Host \<Rightarrow> GuestImageRequest \<Rightarrow> GuestImage \<Rightarrow> bool" where
  "guest_image_accepts host request gi \<longleftrightarrow>
     (let bytes = request_image_bytes request; stack_request = request_initial_stack request in
      elf64_accepts bytes (request_elf_profile request) \<and> mappings_agree bytes \<and>
      storage_free (request_storage stack_request) bytes \<and>
      (\<exists>parts tls stack. dynamic_parts_ok bytes parts \<and>
        build_tls_template_descriptor (image_program_headers (decode_image bytes)) bytes = Success tls \<and>
        build_initial_stack (host_max_size host) (host_alloc_bytes host) (host_alloc_addresses host) stack_request = Success stack \<and>
        gi = image_of bytes parts tls stack))"

lemma accepted_load_fits:
  "elf64_accepts bytes profile \<Longrightarrow> \<forall>h \<in> set (load_headers (image_program_headers (decode_image bytes))). load_fits h"
  using accepted_segments load_segment_fits by blast

lemma build_guest_image_impl_iff:
  assumes "host_object (request_image_bytes request)"
  shows "build_guest_image_impl host request = Success gi \<longleftrightarrow> guest_image_accepts host request gi"
proof (cases "elf64_accepts (request_image_bytes request) (request_elf_profile request)")
  case False
  then show ?thesis
    by (auto simp: build_guest_image_impl_def guest_image_accepts_def Let_def and_then_Success parse_elf64_iff [OF assms])
next
  case True
  let ?b = "request_image_bytes request"
  have parse: "parse_elf64 ?b (request_elf_profile request) = Success (decode_image ?b)"
    using True by (simp add: parse_elf64_iff [OF assms])
  have collect: "collect_mappings (image_program_headers (decode_image ?b)) [] = Success (image_mappings ?b)"
    using accepted_load_fits [OF True] by (simp add: collect_mappings_Success image_mappings_def)
  have parts: "(\<exists>d. find_dynamic_segment (image_program_headers (decode_image ?b)) None = Success d \<and>
      (\<exists>p. (case d of None \<Rightarrow> Success no_dynamic_parts
        | Some segment \<Rightarrow> build_dynamic_parts ?b (image_view ?b) segment) = Success p \<and> P p)) \<longleftrightarrow>
      (\<exists>p. dynamic_parts_ok ?b p \<and> P p)" for P
  proof (cases "filter (\<lambda>h. ph_type h = kPtDynamic) (image_program_headers (decode_image ?b))")
    case Nil
    then show ?thesis by (auto simp: find_dynamic_segment_Success dynamic_parts_ok_def)
  next
    case (Cons h t)
    then show ?thesis by (cases t) (auto simp: find_dynamic_segment_Success dynamic_parts_ok_def)
  qed
  show ?thesis
    unfolding build_guest_image_impl_def Let_def parse collect and_then_simps sorted_mappings_def [symmetric]
      and_then_Success accepted_view [OF assms True] check_mappings_Success [OF assms True]
      guest_image_accepts_def Result.inject parts
    using True by (auto simp: parts image_of_def)
qed

lemma collect_mappings_defined: "collect_mappings hs acc \<noteq> Undefined"
proof (induction hs arbitrary: acc)
  case (Cons h hs)
  have "mapping_intents_from_load h \<noteq> Undefined"
    by (auto simp: mapping_intents_from_load_def push_file_intent_def push_zero_intent_def and_then_Undefined)
  with Cons show ?case by (auto simp: and_then_Undefined)
qed simp

lemma check_mappings_defined: "check_mappings storage ms \<noteq> Undefined"
  by (simp add: check_mappings_def split: option.split prod.split)

lemma build_dynamic_parts_defined:
  assumes "host_object bytes" and "view_wf view"
  shows "build_dynamic_parts bytes view segment \<noteq> Undefined"
  using parse_dynamic_table_spec [OF assms(1)] build_dynamic_string_metadata_defined
    build_descriptor_defined [OF assms(2)] build_relocation_metadata_defined
  by (auto simp: build_dynamic_parts_def Let_def and_then_Undefined split: option.splits)

lemma build_guest_image_impl_defined:
  assumes "host_object (request_image_bytes request)" and "request_host (request_initial_stack request)"
    and "range_wf (request_storage (request_initial_stack request))"
  shows "build_guest_image_impl host request \<noteq> Undefined"
  using assms parse_elf64_defined [OF assms(1)] build_initial_stack_defined [OF assms(2,3)]
    view_create_wf [OF assms(1)] build_dynamic_parts_defined [OF assms(1)]
  by (auto simp: build_guest_image_impl_def Let_def and_then_Undefined collect_mappings_defined
      check_mappings_defined view_create_defined find_dynamic_segment_defined build_tls_defined split: option.splits)

lemma first_nonempty_relocation_None:
  assumes "first_nonempty_relocation general plt = None"
    and "general_rel general = Some t \<or> general_rela general = Some t \<or> plt = Some t"
  shows "relocs_count t = 0"
proof -
  have "\<not> relocs_count t > 0"
    using assms by (auto simp: first_nonempty_relocation_def Let_def split: if_splits option.splits)
  then show ?thesis by (metis word_neq_0_conv)
qed

lemma build_dynamic_parts_symbols:
  assumes "build_dynamic_parts bytes view segment = Success parts"
  shows "first_nonempty_relocation (parts_general parts) (parts_plt parts) = None \<or> parts_symbols parts \<noteq> None"
proof -
  obtain table strings symbols general plt where
    "(case (first_nonempty_relocation general plt, symbols) of
        (Some t, None) \<Rightarrow> Failure ((image_error dynamic_relocation_failure (relocation_cause (missing_symbol_table_error t)))
            \<lparr>guest_error_source_program_header_index := Some (ph_index segment)\<rparr>)
      | _ \<Rightarrow> Success \<lparr>parts_table = Some table, parts_strings = Some strings, parts_symbols = symbols,
               parts_general = general, parts_plt = plt\<rparr>) = Success parts"
    using assms unfolding build_dynamic_parts_def Let_def and_then_Success by blast
  then show ?thesis by (auto split: option.splits)
qed

lemma dynamic_parts_symbols:
  "dynamic_parts_ok bytes parts \<Longrightarrow>
     first_nonempty_relocation (parts_general parts) (parts_plt parts) = None \<or> parts_symbols parts \<noteq> None"
  using build_dynamic_parts_symbols
  by (auto simp: dynamic_parts_ok_def no_dynamic_parts_def first_nonempty_relocation_def split: list.splits)

section \<open>Memory contents\<close>

lemma image_sources:
  assumes "mappings_agree bytes" and "m \<in> set (image_mappings bytes)" and "range_contains (intent_range m) a"
  shows "intent_sources (sorted_mappings bytes) a = {source_of m a}"
proof -
  have "source_of n a = source_of m a" if "n \<in> set (image_mappings bytes)" "range_contains (intent_range n) a" for n
    using assms that unfolding mappings_agree_def sources_agree_def by metis
  with assms(2,3) show ?thesis unfolding intent_sources_def sorted_mappings_def set_std_sort by blast
qed

lemma image_sources_empty:
  assumes "elf64_accepts bytes profile"
    and "\<forall>h \<in> set (load_headers (image_program_headers (decode_image bytes))).
      \<forall>i < unat (ph_memory_size h). a \<noteq> ph_virtual_address h + of_nat i"
  shows "intent_sources (sorted_mappings bytes) a = {}"
proof -
  have "\<not> range_contains (intent_range m) a" if "m \<in> set (image_mappings bytes)" for m
  proof
    assume "range_contains (intent_range m) a"
    moreover obtain h where h: "h \<in> set (load_headers (image_program_headers (decode_image bytes)))"
      "m \<in> set (load_intents h)" using \<open>m \<in> set (image_mappings bytes)\<close> by (auto simp: image_mappings_def)
    ultimately have "\<exists>i < unat (ph_memory_size h). a = ph_virtual_address h + of_nat i"
      using load_intents_cover accepted_load_fits [OF assms(1)] by blast
    with assms(2) h(1) show False by blast
  qed
  then show ?thesis by (auto simp: intent_sources_def sorted_mappings_def)
qed

lemma image_view_read:
  assumes "host_object bytes" and "elf64_accepts bytes profile" and "mappings_agree bytes"
    and "h \<in> set (load_headers (image_program_headers (decode_image bytes)))" and "i < unat (ph_memory_size h)"
  shows "read_byte (image_view bytes) (ph_virtual_address h + of_nat i) = Success (segment_byte bytes h i)"
proof -
  let ?a = "ph_virtual_address h + of_nat i"
  obtain m where m: "m \<in> set (load_intents h)" "range_contains (intent_range m) ?a"
    "source_byte bytes (source_of m ?a) = segment_byte bytes h i"
    using load_intents_source [OF _ assms(5)] accepted_load_fits [OF assms(2)] assms(4) by blast
  have "m \<in> set (image_mappings bytes)" using m(1) assms(4) by (auto simp: image_mappings_def)
  then have "view_sources (image_view bytes) ?a = {source_of m ?a}"
    using image_sources [OF assms(3) _ m(2)] by (simp add: view_sources_def image_view_def intent_sources_def)
  moreover have "view_image_bytes (image_view bytes) = bytes" by (simp add: image_view_def)
  ultimately show ?thesis
    using m(3) by (simp add: read_byte_Success [OF accepted_view_wf [OF assms(1,2)]])
qed

lemma image_view_unmapped:
  assumes "host_object bytes" and "elf64_accepts bytes profile"
    and "\<forall>h \<in> set (load_headers (image_program_headers (decode_image bytes))).
      \<forall>i < unat (ph_memory_size h). a \<noteq> ph_virtual_address h + of_nat i"
  shows "\<exists>e. read_byte (image_view bytes) a = Failure e \<and> image_error_code e = unmapped_guest_address"
  using image_sources_empty [OF assms(2,3)]
  by (subst read_byte_unmapped [OF accepted_view_wf [OF assms(1,2)]])
    (simp add: view_sources_def image_view_def intent_sources_def)

section \<open>Properties\<close>

text \<open>
  C10. A guest image is built exactly when no allocation fails, the file is an acceptable ELF64 file, no
  two PT_LOAD segments disagree about a byte they share, the stack storage is disjoint from all of
  them, and the dynamic section, the TLS segment and the initial stack are accepted; the image holds the
  decoded headers, the sorted mappings and those parts. No expression with undefined behaviour is
  evaluated, for any bytes, any ELF profile and any stack request, whatever the host's allocator does.
\<close>

theorem build_guest_image_correct:
  assumes "host_object (request_image_bytes request)" and "request_host (request_initial_stack request)"
    and "range_wf (request_storage (request_initial_stack request))"
  shows "build_guest_image host request \<noteq> Undefined
    \<and> (build_guest_image host request = Success gi \<longleftrightarrow>
         host_thrown host = No_exception \<and> guest_image_accepts host request gi)"
  using build_guest_image_impl_iff [OF assms(1)] build_guest_image_impl_defined [OF assms]
  by (cases "host_thrown host") (simp_all add: build_guest_image_def)

text \<open>
  C11. The memory of a built image is what the ELF file says: its view exists, every byte of every
  PT_LOAD segment reads as the corresponding file byte or, past the file size, as zero, reads never
  conflict, and every address outside the segments is unmapped.
\<close>

theorem guest_image_memory:
  assumes "host_object (request_image_bytes request)" and "build_guest_image host request = Success gi"
  shows "\<exists>v. initialized_image_view gi = Success v \<and>
    (\<forall>h \<in> set (load_headers (image_program_headers (guest_elf gi))). \<forall>i < unat (ph_memory_size h).
       read_byte v (ph_virtual_address h + of_nat i) = Success (segment_byte (request_image_bytes request) h i)) \<and>
    (\<forall>a. (\<forall>h \<in> set (load_headers (image_program_headers (guest_elf gi))). \<forall>i < unat (ph_memory_size h).
         a \<noteq> ph_virtual_address h + of_nat i) \<longrightarrow>
       (\<exists>e. read_byte v a = Failure e \<and> image_error_code e = unmapped_guest_address))"
proof -
  let ?b = "request_image_bytes request"
  have "guest_image_accepts host request gi"
    using assms(2) build_guest_image_impl_iff [OF assms(1)]
    by (cases "host_thrown host") (simp_all add: build_guest_image_def)
  then have acc: "elf64_accepts ?b (request_elf_profile request)" "mappings_agree ?b"
    and gi: "guest_image_bytes gi = ?b" "guest_elf gi = decode_image ?b" "guest_mappings gi = sorted_mappings ?b"
    by (auto simp: guest_image_accepts_def Let_def image_of_def)
  have "initialized_image_view gi = Success (image_view ?b)"
    using accepted_view [OF assms(1) acc(1)] gi by (simp add: initialized_image_view_def)
  then show ?thesis
    using image_view_read [OF assms(1) acc] image_view_unmapped [OF assms(1) acc(1)] gi(2) by auto
qed

text \<open>
  C12. The dynamic parts of a built image are consistent: a relocation table with entries implies a
  symbol table, and the stack storage shares no address with a mapping.
\<close>

theorem guest_image_consistent:
  assumes "host_object (request_image_bytes request)" and "build_guest_image host request = Success gi"
  shows "(\<forall>t. (general_rel (guest_general_relocations gi) = Some t \<or> general_rela (guest_general_relocations gi) = Some t \<or>
        guest_plt_relocations gi = Some t) \<longrightarrow> relocs_count t \<noteq> 0 \<longrightarrow> guest_dynamic_symbols gi \<noteq> None) \<and>
    (\<forall>m \<in> set (guest_mappings gi). \<forall>a. \<not> (range_contains (intent_range m) a \<and>
        range_contains (request_storage (request_initial_stack request)) a))"
proof -
  let ?b = "request_image_bytes request"
  have "guest_image_accepts host request gi"
    using assms(2) build_guest_image_impl_iff [OF assms(1)]
    by (cases "host_thrown host") (simp_all add: build_guest_image_def)
  then obtain parts where parts: "dynamic_parts_ok ?b parts" "guest_dynamic_symbols gi = parts_symbols parts"
      "guest_general_relocations gi = parts_general parts" "guest_plt_relocations gi = parts_plt parts"
    and free: "storage_free (request_storage (request_initial_stack request)) ?b"
    and maps: "guest_mappings gi = sorted_mappings ?b"
    by (auto simp: guest_image_accepts_def Let_def image_of_def)
  have "parts_symbols parts \<noteq> None"
    if "general_rel (parts_general parts) = Some t \<or> general_rela (parts_general parts) = Some t \<or> parts_plt parts = Some t"
      "relocs_count t \<noteq> 0" for t
    using dynamic_parts_symbols [OF parts(1)] first_nonempty_relocation_None that by blast
  moreover have "\<not> (range_contains (intent_range m) a \<and> range_contains (request_storage (request_initial_stack request)) a)"
    if "m \<in> set (sorted_mappings ?b)" for m a
    using free that by (auto simp: storage_free_def sorted_mappings_def range_overlaps_common_address)
  ultimately show ?thesis using parts maps by simp
qed

section \<open>A concrete request\<close>

definition sample_segment :: ProgramHeader where
  "sample_segment = \<lparr>ph_type = 1, ph_flags = 5, ph_offset = 0, ph_virtual_address = 0x400000,
     ph_physical_address = 0, ph_file_size = 120, ph_memory_size = 0x1000, ph_alignment = 0x1000, ph_index = 0\<rparr>"

definition sample_host :: Host where
  "sample_host = \<lparr>host_max_size = 2 ^ 62, host_alloc_bytes = (\<lambda>_. No_exception),
     host_alloc_addresses = (\<lambda>_. No_exception), host_thrown = No_exception\<rparr>"

definition sample_request :: GuestImageRequest where
  "sample_request = \<lparr>request_image_bytes = sample_elf, request_initial_stack = sample_stack,
     request_elf_profile = generic\<rparr>"

definition sample_image :: GuestImage where
  "sample_image = image_of sample_elf no_dynamic_parts None (stack_image sample_stack)"

lemma sample_request_fields [simp]:
  "request_image_bytes sample_request = sample_elf" "request_initial_stack sample_request = sample_stack"
  "request_elf_profile sample_request = generic"
  by (simp_all add: sample_request_def)

lemma sample_headers: "image_program_headers (decode_image sample_elf) = [sample_segment]"
  by (simp add: elf64_eval sample_elf_def sample_segment_def Let_def)

lemma sample_mappings:
  "image_mappings sample_elf = [file_intent sample_segment \<lparr>range_base = 0x400000, range_size = 120\<rparr>,
     zero_intent sample_segment \<lparr>range_base = 0x400078, range_size = 0xf88\<rparr>]"
  by (simp add: image_mappings_def load_headers_def sample_headers load_intents_def, simp add: sample_segment_def)

lemma sample_agree: "mappings_agree sample_elf"
  by (auto simp: mappings_agree_def sample_mappings sources_agree_def range_contains_iff
      file_intent_def zero_intent_def sample_segment_def)

lemma sample_storage_free: "storage_free (request_storage sample_stack) sample_elf"
  by (simp add: storage_free_def sample_mappings range_overlaps_iff file_intent_def zero_intent_def
      sample_segment_def sample_stack_def)

lemma sample_accepts: "guest_image_accepts sample_host sample_request sample_image"
proof -
  have "dynamic_parts_ok sample_elf no_dynamic_parts"
    by (simp add: dynamic_parts_ok_def sample_headers, simp add: sample_segment_def)
  moreover have "build_tls_template_descriptor (image_program_headers (decode_image sample_elf)) sample_elf = Success None"
    by (simp add: build_tls_iff [OF sample_elf_host] tls_segments_def sample_headers, simp add: sample_segment_def)
  moreover have "build_initial_stack (host_max_size sample_host) (host_alloc_bytes sample_host)
      (host_alloc_addresses sample_host) sample_stack = Success (stack_image sample_stack)"
    using sample_stack_request by (subst build_initial_stack_iff) (simp_all add: sample_host_def)
  ultimately show ?thesis
    using sample_elf_accepted sample_agree sample_storage_free
    unfolding guest_image_accepts_def Let_def sample_request_fields sample_image_def by blast
qed

lemma sample_image_built: "build_guest_image sample_host sample_request = Success sample_image"
  using sample_accepts build_guest_image_impl_iff [of sample_request] sample_elf_host
  by (simp add: build_guest_image_def sample_host_def)

theorem build_guest_image_correct_witness:
  "build_guest_image sample_host sample_request = Success sample_image"
  using build_guest_image_correct [of sample_request sample_host sample_image] sample_elf_host sample_accepts
  by (simp add: sample_host_def sample_stack_request)

theorem guest_image_memory_witness:
  "\<exists>v. initialized_image_view sample_image = Success v \<and> read_byte v 0x400001 = Success 69 \<and>
     read_byte v 0x400fff = Success 0"
proof -
  have elf: "image_program_headers (guest_elf sample_image) = [sample_segment]"
    by (simp add: sample_image_def image_of_def sample_headers)
  have loads: "load_headers [sample_segment] = [sample_segment]"
    by (simp add: load_headers_def sample_segment_def)
  obtain v where v: "initialized_image_view sample_image = Success v"
    and reads: "\<And>i. i < unat (ph_memory_size sample_segment) \<Longrightarrow>
      read_byte v (ph_virtual_address sample_segment + of_nat i) = Success (segment_byte sample_elf sample_segment i)"
    using guest_image_memory [OF _ sample_image_built] sample_elf_host by (auto simp: elf loads)
  from reads [of 1] reads [of 4095] show ?thesis
    using v by (simp add: sample_segment_def segment_byte_def sample_elf_def)
qed

theorem guest_image_consistent_witness:
  "\<not> (range_contains (intent_range (file_intent sample_segment \<lparr>range_base = 0x400000, range_size = 120\<rparr>)) 0x7010 \<and>
      range_contains (request_storage sample_stack) 0x7010)"
proof -
  have "file_intent sample_segment \<lparr>range_base = 0x400000, range_size = 120\<rparr> \<in> set (guest_mappings sample_image)"
    by (simp add: sample_image_def image_of_def sorted_mappings_def sample_mappings)
  then show ?thesis
    using guest_image_consistent [OF _ sample_image_built] sample_elf_host by auto
qed

end
