(* ===== verification/Memory_Plan.thy ===== *)
theory Memory_Plan
  imports Mapping_Intents
begin

text \<open>
  src/execution/memory_plan.cpp: the page-granular plan that the host backends realise for the guest's
  mappings and stack, the check that a write is owned by exact guest memory, and the process-wide
  allocation of mapping epochs. Page numbers are 64-bit words; \<open>page_touches\<close> reads them as sets of
  addresses.
\<close>

section \<open>Data\<close>

datatype ExecutionMemorySourceKind = mapping_kind | initial_stack_kind

fun source_kind_rank :: "ExecutionMemorySourceKind \<Rightarrow> nat" where
  "source_kind_rank mapping_kind = 0"
| "source_kind_rank initial_stack_kind = 1"

record ExecutionMemorySource =
  source_kind :: ExecutionMemorySourceKind
  source_index :: nat

record ExecutionMemoryRegion =
  region_range :: GuestRange
  region_permissions :: GuestPermissions
  region_sources :: "ExecutionMemorySource list"

record ExecutionMemoryPlan =
  plan_host_page_size :: u64
  plan_regions :: "ExecutionMemoryRegion list"

record ExecutionMemoryPlanRequest =
  plan_mappings :: "MappingIntent list"
  plan_stack_storage :: GuestRange
  plan_entry_point :: GuestAddress
  plan_stack_pointer :: GuestAddress
  plan_page_size :: u64

datatype ExecutionPlanErrorCode =
    invalid_host_page_size
  | host_page_arithmetic_overflow
  | mixed_write_execute_page
  | entry_point_unmapped
  | entry_point_not_executable
  | stack_pointer_unmapped
  | permission_construction_failure
  | plan_host_allocation_failure

record ExecutionPlanError =
  plan_error_code :: ExecutionPlanErrorCode
  plan_error_guest_address :: "GuestAddress option"

record PageSpan =
  span_first_page :: u64
  span_last_page :: u64
  span_permission_bits :: u8
  span_source :: ExecutionMemorySource

definition plan_error :: "ExecutionPlanErrorCode \<Rightarrow> GuestAddress option \<Rightarrow> ExecutionPlanError" where
  "plan_error code address = \<lparr>plan_error_code = code, plan_error_guest_address = address\<rparr>"

section \<open>Page spans\<close>

definition to_page_span ::
  "GuestRange \<Rightarrow> u8 \<Rightarrow> ExecutionMemorySource \<Rightarrow> u64 \<Rightarrow> (PageSpan, ExecutionPlanError) Result" where
  "to_page_span r permission_bits source page_size =
     (if range_empty r then Failure (plan_error host_page_arithmetic_overflow (Some (range_base r)))
      else let base = range_base r; last = base + (range_size r - 1) in
        Success \<lparr>span_first_page = base div page_size, span_last_page = last div page_size,
          span_permission_bits = permission_bits, span_source = source\<rparr>)"

definition span_covers :: "PageSpan \<Rightarrow> u64 \<Rightarrow> bool" where
  "span_covers span page_index \<longleftrightarrow> span_first_page span \<le> page_index \<and> page_index \<le> span_last_page span"

definition source_less :: "ExecutionMemorySource \<Rightarrow> ExecutionMemorySource \<Rightarrow> bool" where
  "source_less lhs rhs =
     (if source_kind lhs \<noteq> source_kind rhs then source_kind_rank (source_kind lhs) < source_kind_rank (source_kind rhs)
      else source_index lhs < source_index rhs)"

primrec mapping_spans ::
  "u64 \<Rightarrow> MappingIntent list \<Rightarrow> PageSpan list \<Rightarrow> (PageSpan list, ExecutionPlanError) Result" where
  "mapping_spans page_size [] spans = Success spans"
| "mapping_spans page_size (mapping # rest) spans =
     (if range_empty (intent_range mapping) then mapping_spans page_size rest spans
      else with_value (to_page_span (intent_range mapping) (intent_permissions mapping)
             \<lparr>source_kind = mapping_kind, source_index = intent_source_index mapping\<rparr> page_size)
        (\<lambda>span. mapping_spans page_size rest (spans @ [span])))"

definition stack_span :: "u64 \<Rightarrow> GuestRange \<Rightarrow> PageSpan list \<Rightarrow> (PageSpan list, ExecutionPlanError) Result" where
  "stack_span page_size storage spans =
     (if range_empty storage then Success spans
      else and_then (checked_from_bits (permission_bit read_permission OR permission_bit write_permission))
        (\<lambda>_. plan_error permission_construction_failure None) (\<lambda>stack_permissions.
        with_value (to_page_span storage stack_permissions \<lparr>source_kind = initial_stack_kind, source_index = 0\<rparr> page_size)
          (\<lambda>span. Success (spans @ [span]))))"

primrec span_boundaries :: "u64 \<Rightarrow> PageSpan list \<Rightarrow> u64 list" where
  "span_boundaries max_page_index [] = []"
| "span_boundaries max_page_index (span # rest) =
     span_first_page span #
     (if span_last_page span < max_page_index then [span_last_page span + 1] else []) @
     span_boundaries max_page_index rest"

section \<open>Regions\<close>

text \<open>The permission bits and the sources of the spans that cover a page.\<close>

primrec collect_sources ::
  "PageSpan list \<Rightarrow> u64 \<Rightarrow> u8 \<Rightarrow> ExecutionMemorySource list \<Rightarrow> u8 \<times> ExecutionMemorySource list" where
  "collect_sources [] page permission_bits sources = (permission_bits, sources)"
| "collect_sources (span # rest) page permission_bits sources =
     (if \<not> span_covers span page then collect_sources rest page permission_bits sources
      else collect_sources rest page (permission_bits OR span_permission_bits span) (sources @ [span_source span]))"

text \<open>One iteration of the region loop; \<open>None\<close> is its continue statement.\<close>

definition build_region ::
  "u64 \<Rightarrow> PageSpan list \<Rightarrow> u64 \<Rightarrow> u64 \<Rightarrow> (ExecutionMemoryRegion option, ExecutionPlanError) Result" where
  "build_region page_size spans first_page last_page =
     (case collect_sources spans first_page 0 [] of (permission_bits, sources) \<Rightarrow>
      if sources = [] then Success None
      else if permission_bits AND permission_bit write_permission \<noteq> 0 \<and>
              permission_bits AND permission_bit execute_permission \<noteq> 0
      then Failure (plan_error mixed_write_execute_page (Some (first_page * page_size)))
      else let page_count = last_page - first_page + 1 in
      if page_count > u64_max div page_size
      then Failure (plan_error host_page_arithmetic_overflow (Some (first_page * page_size)))
      else let byte_size = page_count * page_size; base = first_page * page_size in
      and_then (GuestRange_create base byte_size)
        (\<lambda>_. plan_error host_page_arithmetic_overflow (Some base)) (\<lambda>range.
      and_then (checked_from_bits permission_bits)
        (\<lambda>_. plan_error permission_construction_failure (Some base)) (\<lambda>permissions.
      Success (Some \<lparr>region_range = range, region_permissions = permissions,
        region_sources = remdups_adj (std_sort source_less sources)\<rparr>))))"

fun build_regions ::
  "u64 \<Rightarrow> u64 \<Rightarrow> PageSpan list \<Rightarrow> u64 list \<Rightarrow> ExecutionMemoryRegion list \<Rightarrow>
     (ExecutionMemoryRegion list, ExecutionPlanError) Result" where
  "build_regions page_size max_page_index spans [] regions = Success regions"
| "build_regions page_size max_page_index spans (first_page # boundaries) regions =
     with_value (build_region page_size spans first_page
         (case boundaries of next # _ \<Rightarrow> next - 1 | [] \<Rightarrow> max_page_index))
       (\<lambda>region. build_regions page_size max_page_index spans boundaries
          (case region of None \<Rightarrow> regions | Some r \<Rightarrow> regions @ [r]))"

section \<open>Entry point and plan\<close>

primrec scan_entry :: "GuestAddress \<Rightarrow> MappingIntent list \<Rightarrow> bool \<Rightarrow> bool \<Rightarrow> bool \<times> bool" where
  "scan_entry entry [] entry_mapped entry_executable = (entry_mapped, entry_executable)"
| "scan_entry entry (mapping # rest) entry_mapped entry_executable =
     (if \<not> range_contains (intent_range mapping) entry then scan_entry entry rest entry_mapped entry_executable
      else scan_entry entry rest True
        (if permissions_has (intent_permissions mapping) execute_permission then True else entry_executable))"

definition check_entry_and_stack :: "ExecutionMemoryPlanRequest \<Rightarrow> (unit, ExecutionPlanError) Result" where
  "check_entry_and_stack request =
     (case scan_entry (plan_entry_point request) (plan_mappings request) False False of
        (entry_mapped, entry_executable) \<Rightarrow>
      if \<not> entry_mapped then Failure (plan_error entry_point_unmapped (Some (plan_entry_point request)))
      else if \<not> entry_executable
      then Failure (plan_error entry_point_not_executable (Some (plan_entry_point request)))
      else if \<not> range_contains (plan_stack_storage request) (plan_stack_pointer request)
      then Failure (plan_error stack_pointer_unmapped (Some (plan_stack_pointer request)))
      else Success ())"

definition build_plan_body :: "ExecutionMemoryPlanRequest \<Rightarrow> (ExecutionMemoryPlan, ExecutionPlanError) Result" where
  "build_plan_body request =
     (let page_size = plan_page_size request in
      if \<not> is_power_of_two page_size then Failure (plan_error invalid_host_page_size None)
      else
      with_value (mapping_spans page_size (plan_mappings request) []) (\<lambda>mapped.
      with_value (stack_span page_size (plan_stack_storage request) mapped) (\<lambda>spans.
      if length spans > unat u64_max div 2 then Failure (plan_error plan_host_allocation_failure None)
      else
      let max_page_index = u64_max div page_size;
          boundaries = remdups_adj (std_sort (<) (span_boundaries max_page_index spans)) in
      with_value (build_regions page_size max_page_index spans boundaries []) (\<lambda>regions.
      with_value (check_entry_and_stack request) (\<lambda>_.
      Success \<lparr>plan_host_page_size = page_size, plan_regions = regions\<rparr>)))))"

text \<open>\<open>thrown\<close> is the exception that an allocation of the try block throws, if any.\<close>

definition build_execution_memory_plan ::
  "host_event \<Rightarrow> ExecutionMemoryPlanRequest \<Rightarrow> (ExecutionMemoryPlan, ExecutionPlanError) Result" where
  "build_execution_memory_plan thrown request = (case thrown of
       No_exception \<Rightarrow> build_plan_body request
     | Bad_alloc \<Rightarrow> Failure (plan_error plan_host_allocation_failure None)
     | Length_error \<Rightarrow> Failure (plan_error plan_host_allocation_failure None))"

section \<open>Ownership of a guest write\<close>

definition fully_within :: "u64 \<Rightarrow> u64 \<Rightarrow> GuestRange \<Rightarrow> bool" where
  "fully_within address byte_count r =
     (let start = range_base r; size = range_size r in
      address \<ge> start \<and> address - start \<le> size \<and> byte_count \<le> size - (address - start))"

definition write_intersects :: "u64 \<Rightarrow> u64 \<Rightarrow> GuestRange \<Rightarrow> bool" where
  "write_intersects address end_address r =
     (if range_empty r then False
      else let start = range_base r; size = range_size r in
        if address \<ge> start then address - start < size else start < end_address)"

text \<open>The mapping loop: \<open>None\<close> is its early return of false.\<close>

primrec mappings_own :: "u64 \<Rightarrow> u64 \<Rightarrow> u64 \<Rightarrow> MappingIntent list \<Rightarrow> bool \<Rightarrow> bool option" where
  "mappings_own address byte_count end_address [] owned = Some owned"
| "mappings_own address byte_count end_address (mapping # rest) owned =
     (let writable = permissions_has (intent_permissions mapping) write_permission;
          owned' = (if fully_within address byte_count (intent_range mapping) \<and> writable then True else owned) in
      if write_intersects address end_address (intent_range mapping) \<and> \<not> writable then None
      else mappings_own address byte_count end_address rest owned')"

primrec regions_own :: "u64 \<Rightarrow> u64 \<Rightarrow> ExecutionMemoryRegion list \<Rightarrow> bool" where
  "regions_own address byte_count [] = False"
| "regions_own address byte_count (region # rest) =
     (if \<not> fully_within address byte_count (region_range region) then regions_own address byte_count rest
      else permissions_has (region_permissions region) write_permission \<and>
           \<not> permissions_has (region_permissions region) execute_permission)"

definition guest_write_owned_by_plan ::
  "ExecutionMemoryPlan \<Rightarrow> MappingIntent list \<Rightarrow> GuestRange \<Rightarrow> GuestAddress \<Rightarrow> u64 \<Rightarrow> bool" where
  "guest_write_owned_by_plan plan guest_mappings guest_stack target byte_count =
     (if byte_count = 0 \<or> plan_host_page_size plan = 0 then False
      else if byte_count > u64_max - target then False
      else let end_address = target + byte_count in
        case mappings_own target byte_count end_address guest_mappings (fully_within target byte_count guest_stack) of
          None \<Rightarrow> False
        | Some owned \<Rightarrow> if \<not> owned then False else regions_own target byte_count (plan_regions plan))"

section \<open>Mapping epochs\<close>

text \<open>
  Calls of next_prepared_mapping_epoch on several threads. \<open>epoch_order\<close> is the modification order of
  g_next_prepared_mapping_epoch. Its operations are relaxed: a load, and a compare_exchange_weak that
  fails, possibly spuriously, may return any value of that order, while one that succeeds replaces its
  last value.
\<close>

datatype epoch_call = Not_started | Holding u64 | Returned u64

record epoch_state =
  epoch_order :: "u64 list"
  epoch_calls :: "nat \<Rightarrow> epoch_call"

definition epoch_initial :: epoch_state where
  "epoch_initial = \<lparr>epoch_order = [1], epoch_calls = (\<lambda>_. Not_started)\<rparr>"

definition epoch_exhausted :: "u64 \<Rightarrow> bool" where
  "epoch_exhausted current \<longleftrightarrow> current = 0 \<or> current = u64_max"

inductive epoch_step :: "epoch_state \<Rightarrow> epoch_state \<Rightarrow> bool" where
  load: "epoch_calls s t = Not_started \<Longrightarrow> v \<in> set (epoch_order s) \<Longrightarrow>
    epoch_step s (s\<lparr>epoch_calls := (epoch_calls s)(t := Holding v)\<rparr>)"
| refuse: "epoch_calls s t = Holding current \<Longrightarrow> epoch_exhausted current \<Longrightarrow>
    epoch_step s (s\<lparr>epoch_calls := (epoch_calls s)(t := Returned 0)\<rparr>)"
| exchange: "epoch_calls s t = Holding current \<Longrightarrow> \<not> epoch_exhausted current \<Longrightarrow> last (epoch_order s) = current \<Longrightarrow>
    epoch_step s (s\<lparr>epoch_order := epoch_order s @ [current + 1],
      epoch_calls := (epoch_calls s)(t := Returned current)\<rparr>)"
| retry: "epoch_calls s t = Holding current \<Longrightarrow> \<not> epoch_exhausted current \<Longrightarrow> v \<in> set (epoch_order s) \<Longrightarrow>
    epoch_step s (s\<lparr>epoch_calls := (epoch_calls s)(t := Holding v)\<rparr>)"

inductive epoch_reachable :: "epoch_state \<Rightarrow> bool" where
  start: "epoch_reachable epoch_initial"
| step: "epoch_reachable s \<Longrightarrow> epoch_step s s' \<Longrightarrow> epoch_reachable s'"

text \<open>One call that no other thread interferes with: its result and the new counter.\<close>

definition next_prepared_mapping_epoch :: "u64 \<Rightarrow> u64 \<times> u64" where
  "next_prepared_mapping_epoch counter =
     (if epoch_exhausted counter then (0, counter) else (counter, counter + 1))"

section \<open>Pages and the addresses they hold\<close>

text \<open>A page is touched by a range when one of the range's addresses lies in it.\<close>

definition page_touches :: "u64 \<Rightarrow> GuestRange \<Rightarrow> u64 \<Rightarrow> bool" where
  "page_touches ps r page \<longleftrightarrow> (\<exists>a. range_contains r a \<and> a div ps = page)"

definition span_of :: "u64 \<Rightarrow> GuestRange \<times> u8 \<times> ExecutionMemorySource \<Rightarrow> PageSpan" where
  "span_of ps part = (case part of (r, bits, src) \<Rightarrow>
     \<lparr>span_first_page = range_base r div ps, span_last_page = (range_base r + (range_size r - 1)) div ps,
      span_permission_bits = bits, span_source = src\<rparr>)"

lemma span_of_simps [simp]:
  "span_first_page (span_of ps (r, b, s)) = range_base r div ps"
  "span_last_page (span_of ps (r, b, s)) = (range_base r + (range_size r - 1)) div ps"
  "span_permission_bits (span_of ps (r, b, s)) = b" "span_source (span_of ps (r, b, s)) = s"
  by (simp_all add: span_of_def)

lemma unat_last_address:
  assumes "range_wf r" and "\<not> range_empty r"
  shows "unat (range_base r + (range_size r - 1)) = unat (range_base r) + unat (range_size r) - 1"
proof -
  have "unat (range_size r - 1) = unat (range_size r) - 1"
    using assms(2) by (simp add: unat_minus_one range_empty_def)
  moreover have "0 < unat (range_size r)" using assms(2) by (simp add: range_empty_iff)
  ultimately show ?thesis using assms(1) by (subst unat_add_no_wrap) (auto simp: range_wf_def)
qed

lemma div_between:
  fixes b l q p :: nat
  assumes "0 < p" and "b \<le> l"
  shows "(b div p \<le> q \<and> q \<le> l div p) \<longleftrightarrow> (\<exists>a. b \<le> a \<and> a \<le> l \<and> a div p = q)"
proof
  assume asm: "b div p \<le> q \<and> q \<le> l div p"
  then have "q * p \<le> l" using assms(1) by (simp add: less_eq_div_iff_mult_less_eq)
  have "max b (q * p) div p = q"
  proof (cases "b \<le> q * p")
    case True
    then show ?thesis using assms(1) by simp
  next
    case False
    then have "q \<le> b div p" using assms(1) by (simp add: less_eq_div_iff_mult_less_eq)
    with False asm show ?thesis by simp
  qed
  then show "\<exists>a. b \<le> a \<and> a \<le> l \<and> a div p = q"
    using assms(2) \<open>q * p \<le> l\<close> by (intro exI [of _ "max b (q * p)"]) simp
qed (auto intro: div_le_mono)

lemma span_covers_touches:
  assumes "range_wf r" and "\<not> range_empty r" and "ps \<noteq> 0"
  shows "span_covers (span_of ps (r, b, s)) q \<longleftrightarrow> page_touches ps r q"
proof -
  let ?b = "unat (range_base r)" and ?l = "unat (range_base r) + unat (range_size r) - 1"
  have pos: "0 < unat (range_size r)" "0 < unat ps" using assms by (simp_all add: range_empty_iff unat_gt_0)
  have "span_covers (span_of ps (r, b, s)) q \<longleftrightarrow> ?b div unat ps \<le> unat q \<and> unat q \<le> ?l div unat ps"
    by (simp add: span_covers_def word_le_nat_alt unat_div unat_last_address [OF assms(1,2)])
  also have "\<dots> \<longleftrightarrow> (\<exists>a. ?b \<le> a \<and> a \<le> ?l \<and> a div unat ps = unat q)"
    using pos by (intro div_between) auto
  also have "\<dots> \<longleftrightarrow> page_touches ps r q"
  proof
    assume "\<exists>a. ?b \<le> a \<and> a \<le> ?l \<and> a div unat ps = unat q"
    then obtain a where a: "?b \<le> a" "a \<le> ?l" "a div unat ps = unat q" by blast
    have "a < 2 ^ 64" using a(2) assms(1) pos by (simp add: range_wf_def)
    then have "unat (of_nat a :: u64) = a" by (simp add: unat_of_nat)
    with a pos have "range_contains r (of_nat a) \<and> (of_nat a :: u64) div ps = q"
      by (simp add: range_contains_iff word_unat_eq_iff unat_div)
    then show "page_touches ps r q" unfolding page_touches_def by blast
  next
    assume "page_touches ps r q"
    then obtain a where "range_contains r a" "a div ps = q" unfolding page_touches_def by blast
    then show "\<exists>a. ?b \<le> a \<and> a \<le> ?l \<and> a div unat ps = unat q"
      using pos by (intro exI [of _ "unat a"]) (auto simp: range_contains_iff unat_div)
  qed
  finally show ?thesis .
qed

section \<open>Segments between boundaries\<close>

text \<open>The first and last page of each iteration of the region loop.\<close>

fun segments :: "u64 \<Rightarrow> u64 list \<Rightarrow> (u64 \<times> u64) list" where
  "segments m [] = []"
| "segments m (b # bs) = (b, case bs of next # _ \<Rightarrow> next - 1 | [] \<Rightarrow> m) # segments m bs"

lemma unat_pred: "(a :: u64) < b \<Longrightarrow> unat (b - 1) = unat b - 1"
  by (rule unat_minus_one) auto

lemma unat_Suc: "(a :: u64) < b \<Longrightarrow> unat (a + 1) = unat a + 1"
  by (subst unat_add_no_wrap) (simp_all add: word_less_nat_alt, use unat_lt_2p64 [of b] in linarith)

lemma segments_props:
  assumes "sorted_wrt (<) bs" and "\<forall>b \<in> set bs. b \<le> m" and "(f, l) \<in> set (segments m bs)"
  shows "f \<in> set bs" and "f \<le> l" and "l \<le> m" and "\<forall>b \<in> set bs. b \<le> l \<longrightarrow> b \<le> f"
proof -
  have "f \<in> set bs \<and> f \<le> l \<and> l \<le> m \<and> (\<forall>b \<in> set bs. b \<le> l \<longrightarrow> b \<le> f)"
    using assms
  proof (induction bs)
    case (Cons b bs)
    show ?case
    proof (cases "(f, l) \<in> set (segments m bs)")
      case True
      then have "f \<in> set bs \<and> f \<le> l \<and> l \<le> m \<and> (\<forall>b \<in> set bs. b \<le> l \<longrightarrow> b \<le> f)"
        using Cons by simp
      moreover have "b < f" using Cons.prems(1) calculation by auto
      ultimately show ?thesis by auto
    next
      case False
      show ?thesis
      proof (cases bs)
        case Nil
        with Cons.prems False show ?thesis by auto
      next
        case (Cons c cs)
        with Cons.prems False have fl: "f = b" "l = c - 1" "b < c" "c \<le> m" by auto
        have "c \<le> d" if "d \<in> set bs" for d using Cons.prems(1) Cons that by auto
        then have "\<not> d \<le> l" if "d \<in> set bs" for d
          using unat_pred [OF fl(3)] that fl(2,3) unfolding word_le_nat_alt word_less_nat_alt by fastforce
        moreover have "b \<le> l \<and> l \<le> m"
          using fl unat_pred [OF fl(3)] unfolding word_le_nat_alt word_less_nat_alt by auto
        ultimately show ?thesis using fl Cons by auto
      qed
    qed
  qed simp
  then show "f \<in> set bs" "f \<le> l" "l \<le> m" "\<forall>b \<in> set bs. b \<le> l \<longrightarrow> b \<le> f" by simp_all
qed

lemma segments_cover:
  assumes "sorted_wrt (<) bs" and "b \<in> set bs" and "b \<le> q" and "q \<le> m"
  shows "\<exists>(f, l) \<in> set (segments m bs). f \<le> q \<and> q \<le> l"
  using assms
proof (induction bs arbitrary: b)
  case (Cons c bs)
  show ?case
  proof (cases "\<exists>d \<in> set bs. d \<le> q")
    case True
    then show ?thesis using Cons.IH Cons.prems by auto
  next
    case False
    then have "b = c" using Cons.prems by auto
    have "q \<le> (case bs of next # _ \<Rightarrow> next - 1 | [] \<Rightarrow> m)"
    proof (cases bs)
      case Nil
      then show ?thesis using Cons.prems by simp
    next
      case (Cons d ds)
      then have "q < d" using False by auto
      then show ?thesis using Cons unat_pred [of q d] by (simp add: word_le_nat_alt word_less_nat_alt)
    qed
    then show ?thesis using Cons.prems \<open>b = c\<close> by auto
  qed
qed simp

lemma segments_sorted:
  assumes "sorted_wrt (<) bs"
  shows "sorted_wrt (\<lambda>(f, l) (f', l'). l < f') (segments m bs)"
  using assms
proof (induction bs)
  case (Cons b bs)
  have "(case bs of next # _ \<Rightarrow> next - 1 | [] \<Rightarrow> m) < f'" if "(f', l') \<in> set (segments m bs)" for f' l'
  proof -
    have mem: "f' \<in> set bs" using that by (induction bs) auto
    then obtain c cs where bs: "bs = c # cs" by (cases bs) auto
    have "b < c" "c \<le> f'" using Cons.prems mem bs by auto
    then show ?thesis using bs unat_pred [of b c] by (simp add: word_le_nat_alt word_less_nat_alt)
  qed
  then show ?case using Cons by auto
qed simp

lemma sorted_boundaries:
  "sorted_wrt (<) (remdups_adj (std_sort (<) (bs :: u64 list)))" "set (remdups_adj (std_sort (<) bs)) = set bs"
  by (rule u64_order.strict_remdups_adj [OF _ u64_order.sorted_std_sort]) auto

section \<open>Spans of a request\<close>

text \<open>The non-empty ranges of a request with their permission bits and sources.\<close>

definition mapping_part :: "MappingIntent \<Rightarrow> GuestRange \<times> u8 \<times> ExecutionMemorySource" where
  "mapping_part m = (intent_range m, intent_permissions m,
     \<lparr>source_kind = mapping_kind, source_index = intent_source_index m\<rparr>)"

definition plan_parts :: "ExecutionMemoryPlanRequest \<Rightarrow> (GuestRange \<times> u8 \<times> ExecutionMemorySource) list" where
  "plan_parts request =
     map mapping_part (filter (\<lambda>m. \<not> range_empty (intent_range m)) (plan_mappings request)) @
     (if range_empty (plan_stack_storage request) then []
      else [(plan_stack_storage request, permission_bit read_permission OR permission_bit write_permission,
             \<lparr>source_kind = initial_stack_kind, source_index = 0\<rparr>)])"

text \<open>
  What the types of a request guarantee: GuestRange and GuestPermissions keep their invariants, and a
  vector of 48-byte mapping intents has fewer than 2^62 elements.
\<close>

definition known_permissions :: "u8 \<Rightarrow> bool" where
  "known_permissions bits \<longleftrightarrow> bits AND NOT kKnownMask = 0"

definition plan_request_wf :: "ExecutionMemoryPlanRequest \<Rightarrow> bool" where
  "plan_request_wf request \<longleftrightarrow>
     (\<forall>m \<in> set (plan_mappings request). range_wf (intent_range m) \<and> known_permissions (intent_permissions m)) \<and>
     range_wf (plan_stack_storage request) \<and> length (plan_mappings request) < 2 ^ 62"

definition parts_wf :: "(GuestRange \<times> u8 \<times> ExecutionMemorySource) list \<Rightarrow> bool" where
  "parts_wf parts \<longleftrightarrow> (\<forall>(r, b, s) \<in> set parts. range_wf r \<and> \<not> range_empty r \<and> known_permissions b)"

lemma plan_parts_wf: "plan_request_wf request \<Longrightarrow> parts_wf (plan_parts request)"
  by (auto simp: parts_wf_def plan_parts_def plan_request_wf_def mapping_part_def known_permissions_def kKnownMask_def)

lemma to_page_span_eq: "\<not> range_empty r \<Longrightarrow> to_page_span r b s ps = Success (span_of ps (r, b, s))"
  by (simp add: to_page_span_def span_of_def Let_def)

lemma mapping_spans_eq:
  "mapping_spans ps ms acc =
     Success (acc @ map (span_of ps) (map mapping_part (filter (\<lambda>m. \<not> range_empty (intent_range m)) ms)))"
  by (induction ms arbitrary: acc) (simp_all add: to_page_span_eq mapping_part_def)

lemma spans_of_request:
  "with_value (mapping_spans ps (plan_mappings request) []) (\<lambda>mapped.
     with_value (stack_span ps (plan_stack_storage request) mapped) k) = k (map (span_of ps) (plan_parts request))"
  by (simp add: mapping_spans_eq stack_span_def plan_parts_def checked_from_bits_def kKnownMask_def to_page_span_eq)

lemma plan_parts_length: "plan_request_wf request \<Longrightarrow> \<not> length (plan_parts request) > unat u64_max div 2"
proof -
  assume wf: "plan_request_wf request"
  have "length (plan_parts request) \<le> length (plan_mappings request) + 1" by (simp add: plan_parts_def le_SucI)
  with wf show ?thesis by (simp add: plan_request_wf_def)
qed

section \<open>Permissions and sources of a page\<close>

definition page_parts ::
  "u64 \<Rightarrow> (GuestRange \<times> u8 \<times> ExecutionMemorySource) list \<Rightarrow> u64 \<Rightarrow> (GuestRange \<times> u8 \<times> ExecutionMemorySource) list" where
  "page_parts ps parts page = filter (\<lambda>(r, b, s). page_touches ps r page) parts"

definition page_bits :: "u64 \<Rightarrow> (GuestRange \<times> u8 \<times> ExecutionMemorySource) list \<Rightarrow> u64 \<Rightarrow> u8" where
  "page_bits ps parts page = foldl (OR) 0 (map (fst \<circ> snd) (page_parts ps parts page))"

definition page_sources :: "u64 \<Rightarrow> (GuestRange \<times> u8 \<times> ExecutionMemorySource) list \<Rightarrow> u64 \<Rightarrow> ExecutionMemorySource list" where
  "page_sources ps parts page = remdups_adj (std_sort source_less (map (snd \<circ> snd) (page_parts ps parts page)))"

lemma collect_sources_eq:
  assumes "ps \<noteq> 0" and "parts_wf parts"
  shows "collect_sources (map (span_of ps) parts) page bits srcs =
    (foldl (OR) bits (map (fst \<circ> snd) (page_parts ps parts page)), srcs @ map (snd \<circ> snd) (page_parts ps parts page))"
  using assms(2)
proof (induction parts arbitrary: bits srcs)
  case (Cons part parts)
  obtain r b s where part: "part = (r, b, s)" by (cases part) auto
  have "span_covers (span_of ps part) page \<longleftrightarrow> page_touches ps r page"
    using span_covers_touches [OF _ _ assms(1)] Cons.prems by (simp add: part parts_wf_def)
  with Cons part show ?case by (simp add: page_parts_def parts_wf_def)
qed (simp add: page_parts_def)

lemma foldl_or_and_zero:
  "foldl (OR) b bs AND (m :: u8) = 0 \<longleftrightarrow> b AND m = 0 \<and> (\<forall>c \<in> set bs. c AND m = 0)"
proof (induction bs arbitrary: b)
  case (Cons c bs)
  have "(b OR c) AND m = 0 \<longleftrightarrow> b AND m = 0 \<and> c AND m = 0"
    by (simp add: bit.conj_disj_distrib2 or_eq_0_iff)
  with Cons show ?case by auto
qed simp

lemma page_bits_has:
  "permissions_has (page_bits ps parts page) p \<longleftrightarrow>
     (\<exists>(r, b, s) \<in> set parts. page_touches ps r page \<and> permissions_has b p)"
  by (auto simp: permissions_has_def page_bits_def foldl_or_and_zero page_parts_def)

lemma page_bits_known: "parts_wf parts \<Longrightarrow> checked_from_bits (page_bits ps parts page) = Success (page_bits ps parts page)"
  by (auto simp: checked_from_bits_def page_bits_def foldl_or_and_zero page_parts_def parts_wf_def known_permissions_def)

lemma source_order: "comparator source_less"
proof -
  have eq: "source_less x y \<longleftrightarrow> (source_kind_rank (source_kind x), source_index x) < (source_kind_rank (source_kind y), source_index y)" for x y
    by (cases "source_kind x"; cases "source_kind y") (auto simp: source_less_def less_prod_def)
  have "source_less = (\<lambda>x y. (source_kind_rank (source_kind x), source_index x) < (source_kind_rank (source_kind y), source_index y))"
    by (simp add: fun_eq_iff eq)
  then show ?thesis
    using comparator_by_key [of "\<lambda>x :: ExecutionMemorySource. (source_kind_rank (source_kind x), source_index x)"] by (simp only:)
qed

interpretation source_order: comparator source_less
  by (rule source_order)

lemma source_less_total: "x \<noteq> y \<Longrightarrow> source_less x y \<or> source_less y x"
  by (cases "source_kind x"; cases "source_kind y") (auto simp: source_less_def intro: ExecutionMemorySource.equality)

lemma page_sources_sorted: "sorted_wrt source_less (page_sources ps parts page)"
  unfolding page_sources_def
  by (rule source_order.strict_remdups_adj [OF _ source_order.sorted_std_sort]) (rule source_less_total)

lemma set_page_sources: "set (page_sources ps parts page) = {s. \<exists>r b. (r, b, s) \<in> set parts \<and> page_touches ps r page}"
  by (force simp: page_sources_def page_parts_def)

section \<open>Page arithmetic\<close>

lemma div_pred_multiple:
  fixes P Q :: nat
  assumes "0 < P" and "0 < Q"
  shows "(P * Q - 1) div P = Q - 1"
proof (rule div_nat_eqI)
  show "P * (Q - 1) \<le> P * Q - 1" using assms by (simp add: diff_mult_distrib2 diff_le_mono2)
  show "P * Q - 1 < P * Suc (Q - 1)" using assms by simp
qed

lemma page_count_of:
  assumes "is_power_of_two ps"
  obtains M where "0 < M" and "M * unat ps = 2 ^ 64" and "unat (u64_max div ps) = M - 1"
proof -
  obtain k where k: "k < 64" "unat ps = 2 ^ k" using is_power_of_two_unat [OF assms] .
  have M: "unat ps * 2 ^ (64 - k) = (2 :: nat) ^ 64" using k by (simp flip: power_add)
  have "(unat ps * 2 ^ (64 - k) - 1) div unat ps = 2 ^ (64 - k) - 1"
    by (rule div_pred_multiple) (simp_all add: k)
  then have "unat (u64_max div ps) = 2 ^ (64 - k) - 1" unfolding M by (simp add: unat_div)
  then show ?thesis using M that [of "2 ^ (64 - k)"] by (simp add: mult.commute)
qed

text \<open>The range of pages f to l.\<close>

definition pages_range :: "u64 \<Rightarrow> u64 \<Rightarrow> u64 \<Rightarrow> GuestRange" where
  "pages_range ps f l = \<lparr>range_base = f * ps, range_size = (l - f + 1) * ps\<rparr>"

lemma pages_arithmetic:
  assumes "is_power_of_two ps" and "f \<le> l" and "l \<le> u64_max div ps"
    and "\<not> (ps = 1 \<and> f = 0 \<and> l = u64_max div ps)"
  shows "l - f + 1 > u64_max div ps \<longleftrightarrow> f = 0 \<and> l = u64_max div ps"
    and "\<not> (f = 0 \<and> l = u64_max div ps) \<Longrightarrow>
      unat (f * ps) = unat f * unat ps \<and> unat ((l - f + 1) * ps) = (unat l - unat f + 1) * unat ps \<and>
      (unat l + 1) * unat ps \<le> 2 ^ 64"
proof -
  obtain M where M: "0 < M" "M * unat ps = 2 ^ 64" "unat (u64_max div ps) = M - 1"
    using page_count_of [OF assms(1)] .
  have fl: "unat f \<le> unat l" "unat l \<le> M - 1" using assms(2,3) M(3) unfolding word_le_nat_alt by simp_all
  have P: "0 < unat ps" using M(2) by (cases "unat ps = 0") simp_all
  have f0: "f = 0 \<and> l = u64_max div ps \<longleftrightarrow> unat f = 0 \<and> unat l = M - 1"
    using M(3) by (metis unat_eq_0 word_unat_eq_iff)
  have cnt: "unat (l - f + 1) = unat l - unat f + 1"
  proof -
    have "unat l - unat f + 1 < 2 ^ 64"
    proof (rule ccontr)
      assume big: "\<not> ?thesis"
      then have "unat f = 0" "2 ^ 64 \<le> M" using fl M(1) by simp_all (use unat_lt_2p64 [of l] in linarith)+
      have "unat ps = 1"
      proof (rule ccontr)
        assume "unat ps \<noteq> 1"
        then have "2 \<le> unat ps" using P by linarith
        then have "M * 2 \<le> M * unat ps" by (rule mult_le_mono2)
        with \<open>2 ^ 64 \<le> M\<close> M(2) show False by simp
      qed
      then have "ps = 1" by (metis unat_1 word_unat_eq_iff)
      moreover have "M = 2 ^ 64" using M(2) \<open>unat ps = 1\<close> by simp
      then have "unat l = M - 1" using big \<open>unat f = 0\<close> by simp (use unat_lt_2p64 [of l] in linarith)
      ultimately show False using assms(4) f0 \<open>unat f = 0\<close> by simp
    qed
    then show ?thesis using fl by (simp add: unat_plus_if' unat_sub_if' word_le_nat_alt)
  qed
  show "l - f + 1 > u64_max div ps \<longleftrightarrow> f = 0 \<and> l = u64_max div ps"
    unfolding f0 word_less_nat_alt cnt M(3) using fl M(1) by auto
  assume nf: "\<not> (f = 0 \<and> l = u64_max div ps)"
  have "unat l - unat f + 1 \<le> M - 1" using nf fl M(1) unfolding f0 by auto
  then have "unat l - unat f + 1 < M" using M(1) by linarith
  then have "(unat l - unat f + 1) * unat ps < M * unat ps" using P by (rule mult_less_mono1)
  moreover have "unat f * unat ps < M * unat ps" using fl M(1) P by (intro mult_less_mono1) auto
  moreover have "(unat l + 1) * unat ps \<le> M * unat ps" using fl M(1) by (intro mult_le_mono1) auto
  ultimately show "unat (f * ps) = unat f * unat ps \<and> unat ((l - f + 1) * ps) = (unat l - unat f + 1) * unat ps \<and>
      (unat l + 1) * unat ps \<le> 2 ^ 64"
    unfolding M(2) using cnt by (simp add: unat_mult_no_wrap)
qed

lemma pages_range_props:
  assumes "is_power_of_two ps" and "f \<le> l" and "l \<le> u64_max div ps" and "\<not> (f = 0 \<and> l = u64_max div ps)"
  shows "range_wf (pages_range ps f l)" and "range_contains (pages_range ps f l) a \<longleftrightarrow> f \<le> a div ps \<and> a div ps \<le> l"
    and "unat (range_base (pages_range ps f l)) + unat (range_size (pages_range ps f l)) = (unat l + 1) * unat ps"
proof -
  have ar: "unat (f * ps) = unat f * unat ps" "unat ((l - f + 1) * ps) = (unat l - unat f + 1) * unat ps"
    "(unat l + 1) * unat ps \<le> 2 ^ 64"
    using pages_arithmetic(2) [OF assms(1,2,3)] assms(4) by blast+
  have le: "unat f \<le> unat l" using assms(2) by (simp add: word_le_nat_alt)
  have "unat f * unat ps + (unat l - unat f + 1) * unat ps = (unat l + 1) * unat ps"
    using le by (simp flip: add_mult_distrib)
  then show total: "unat (range_base (pages_range ps f l)) + unat (range_size (pages_range ps f l)) = (unat l + 1) * unat ps"
    using ar by (simp add: pages_range_def)
  then show "range_wf (pages_range ps f l)" unfolding range_wf_def using ar(3) by simp
  have P: "0 < unat ps" using assms(1) by (simp add: is_power_of_two_def unat_gt_0)
  have "range_contains (pages_range ps f l) a \<longleftrightarrow> unat f * unat ps \<le> unat a \<and> unat a < (unat l + 1) * unat ps"
    unfolding range_contains_iff total using ar(1) by (simp add: pages_range_def)
  also have "\<dots> \<longleftrightarrow> f \<le> a div ps \<and> a div ps \<le> l"
    using P div_less_iff_less_mult [OF P, of "unat a" "unat l + 1"]
    by (simp add: word_le_nat_alt unat_div less_eq_div_iff_mult_less_eq less_Suc_eq_le)
  finally show "range_contains (pages_range ps f l) a \<longleftrightarrow> f \<le> a div ps \<and> a div ps \<le> l" .
qed

lemma a_div_le_max: "(a :: u64) div ps \<le> u64_max div ps"
proof -
  have "unat a \<le> unat u64_max" unfolding unat_u64_max using unat_lt_2p64 [of a] by linarith
  then show ?thesis by (simp add: word_le_nat_alt unat_div div_le_mono del: unat_u64_max)
qed

section \<open>One region\<close>

definition mixed_page :: "u64 \<Rightarrow> (GuestRange \<times> u8 \<times> ExecutionMemorySource) list \<Rightarrow> u64 \<Rightarrow> bool" where
  "mixed_page ps parts page \<longleftrightarrow> permissions_has (page_bits ps parts page) write_permission \<and>
     permissions_has (page_bits ps parts page) execute_permission"

definition region_of ::
  "u64 \<Rightarrow> (GuestRange \<times> u8 \<times> ExecutionMemorySource) list \<Rightarrow> u64 \<times> u64 \<Rightarrow> ExecutionMemoryRegion" where
  "region_of ps parts seg = (case seg of (f, l) \<Rightarrow>
     \<lparr>region_range = pages_range ps f l, region_permissions = page_bits ps parts f,
      region_sources = page_sources ps parts f\<rparr>)"

definition touched :: "u64 \<Rightarrow> (GuestRange \<times> u8 \<times> ExecutionMemorySource) list \<Rightarrow> u64 \<Rightarrow> bool" where
  "touched ps parts page \<longleftrightarrow> page_parts ps parts page \<noteq> []"

lemma touched_iff: "touched ps parts page \<longleftrightarrow> (\<exists>(r, b, s) \<in> set parts. page_touches ps r page)"
  by (auto simp: touched_def page_parts_def filter_empty_conv)

lemma build_region_Success:
  assumes "is_power_of_two ps" and "parts_wf parts" and "f \<le> l" and "l \<le> u64_max div ps"
    and "touched ps parts f \<Longrightarrow> \<not> (ps = 1 \<and> f = 0 \<and> l = u64_max div ps)"
  shows "build_region ps (map (span_of ps) parts) f l = Success region \<longleftrightarrow>
    (if touched ps parts f
     then \<not> mixed_page ps parts f \<and> \<not> (f = 0 \<and> l = u64_max div ps) \<and> region = Some (region_of ps parts (f, l))
     else region = None)"
proof -
  have ps: "ps \<noteq> 0" using assms(1) by (simp add: is_power_of_two_def)
  have col: "collect_sources (map (span_of ps) parts) f 0 [] =
      (page_bits ps parts f, map (snd \<circ> snd) (page_parts ps parts f))"
    by (simp add: collect_sources_eq [OF ps assms(2)] page_bits_def)
  show ?thesis
  proof (cases "touched ps parts f")
    case False
    then show ?thesis by (auto simp: build_region_def col touched_def)
  next
    case True
    let ?whole = "f = 0 \<and> l = u64_max div ps"
    have count: "l - f + 1 > u64_max div ps \<longleftrightarrow> ?whole"
      using pages_arithmetic(1) [OF assms(1,3,4) assms(5) [OF True]] .
    have "GuestRange_create (f * ps) ((l - f + 1) * ps) = Success (pages_range ps f l)" if "\<not> ?whole"
      using pages_range_props(1) [OF assms(1,3,4) that]
      by (simp add: GuestRange_create_Success pages_range_def range_wf_def)
    then show ?thesis
      using True unfolding build_region_def col Let_def prod.case count
      by (auto simp: touched_def mixed_page_def permissions_has_def page_bits_known [OF assms(2)] region_of_def page_sources_def)
  qed
qed

lemma build_region_defined: "build_region ps spans f l \<noteq> Undefined"
  by (auto simp: build_region_def Let_def and_then_Undefined checked_from_bits_def split: prod.split if_splits)

section \<open>All regions\<close>

abbreviation max_page :: "u64 \<Rightarrow> u64" where
  "max_page ps \<equiv> u64_max div ps"

definition plan_segments :: "u64 \<Rightarrow> (GuestRange \<times> u8 \<times> ExecutionMemorySource) list \<Rightarrow> (u64 \<times> u64) list" where
  "plan_segments ps parts =
     segments (max_page ps) (remdups_adj (std_sort (<) (span_boundaries (max_page ps) (map (span_of ps) parts))))"

lemma build_regions_Success:
  assumes "is_power_of_two ps" and "parts_wf parts" and "sorted_wrt (<) bs" and "\<forall>b \<in> set bs. b \<le> max_page ps"
    and "\<forall>(f, l) \<in> set (segments (max_page ps) bs). touched ps parts f \<longrightarrow> \<not> (ps = 1 \<and> f = 0 \<and> l = max_page ps)"
  shows "build_regions ps (max_page ps) (map (span_of ps) parts) bs acc = Success rs \<longleftrightarrow>
    (\<forall>(f, l) \<in> set (segments (max_page ps) bs). touched ps parts f \<longrightarrow>
       \<not> mixed_page ps parts f \<and> \<not> (f = 0 \<and> l = max_page ps)) \<and>
    rs = acc @ map (region_of ps parts) (filter (\<lambda>(f, l). touched ps parts f) (segments (max_page ps) bs))"
  using assms(3-)
proof (induction bs arbitrary: acc)
  case (Cons b bs)
  define l where "l = (case bs of next # _ \<Rightarrow> next - 1 | [] \<Rightarrow> max_page ps)"
  have seg: "(b, l) \<in> set (segments (max_page ps) (b # bs))" by (simp add: l_def)
  then have bl: "b \<le> l" "l \<le> max_page ps" using segments_props [OF Cons.prems(1,2) seg] by simp_all
  have head: "build_region ps (map (span_of ps) parts) b l = Success region \<longleftrightarrow>
    (if touched ps parts b
     then \<not> mixed_page ps parts b \<and> \<not> (b = 0 \<and> l = max_page ps) \<and> region = Some (region_of ps parts (b, l))
     else region = None)" for region
    using Cons.prems(3) seg by (intro build_region_Success [OF assms(1,2) bl]) blast
  have IH: "build_regions ps (max_page ps) (map (span_of ps) parts) bs acc' = Success rs \<longleftrightarrow>
    (\<forall>(f, l) \<in> set (segments (max_page ps) bs). touched ps parts f \<longrightarrow>
       \<not> mixed_page ps parts f \<and> \<not> (f = 0 \<and> l = max_page ps)) \<and>
    rs = acc' @ map (region_of ps parts) (filter (\<lambda>(f, l). touched ps parts f) (segments (max_page ps) bs))" for acc'
    using Cons.prems by (intro Cons.IH) auto
  show ?case
    by (cases "touched ps parts b") (auto simp: and_then_Success head IH l_def [symmetric])
qed auto

lemma span_boundaries_set:
  "set (span_boundaries m spans) =
     (\<Union>span \<in> set spans. insert (span_first_page span) (if span_last_page span < m then {span_last_page span + 1} else {}))"
  by (induction spans) auto

lemma boundaries_le: "b \<in> set (span_boundaries (max_page ps) (map (span_of ps) parts)) \<Longrightarrow> b \<le> max_page ps"
  by (auto simp: span_boundaries_set inc_le a_div_le_max split: if_splits) (metis a_div_le_max)

lemma plan_segment_props:
  assumes "(f, l) \<in> set (plan_segments ps parts)"
  shows "f \<le> l" and "l \<le> max_page ps"
    and "\<forall>b \<in> set (span_boundaries (max_page ps) (map (span_of ps) parts)). b \<le> l \<longrightarrow> b \<le> f"
    and "f \<in> set (span_boundaries (max_page ps) (map (span_of ps) parts))"
proof -
  let ?bs = "span_boundaries (max_page ps) (map (span_of ps) parts)"
  have le: "\<forall>b \<in> set (remdups_adj (std_sort (<) ?bs)). b \<le> max_page ps" using boundaries_le by simp
  note props = segments_props [OF sorted_boundaries(1) le assms [unfolded plan_segments_def]]
  from props show "f \<le> l" "l \<le> max_page ps" "\<forall>b \<in> set ?bs. b \<le> l \<longrightarrow> b \<le> f" "f \<in> set ?bs"
    unfolding sorted_boundaries(2) by simp_all
qed

lemma touches_first:
  assumes "parts_wf parts" and "(r, b, s) \<in> set parts" and "ps \<noteq> 0"
  shows "page_touches ps r q \<longleftrightarrow>
      span_first_page (span_of ps (r, b, s)) \<le> q \<and> q \<le> span_last_page (span_of ps (r, b, s))"
    and "page_touches ps r (range_base r div ps)"
    and "range_base r div ps \<in> set (span_boundaries (max_page ps) (map (span_of ps) parts))"
proof -
  have wf: "range_wf r" "\<not> range_empty r" using assms(1,2) by (auto simp: parts_wf_def)
  then show "page_touches ps r q \<longleftrightarrow>
      span_first_page (span_of ps (r, b, s)) \<le> q \<and> q \<le> span_last_page (span_of ps (r, b, s))"
    using span_covers_touches [OF wf assms(3)] by (simp add: span_covers_def)
  have "range_contains r (range_base r)" using wf(2) by (simp add: range_contains_iff range_empty_iff)
  then show "page_touches ps r (range_base r div ps)" unfolding page_touches_def by blast
  show "range_base r div ps \<in> set (span_boundaries (max_page ps) (map (span_of ps) parts))"
    using assms(2) by (force simp: span_boundaries_set)
qed

text \<open>Within a segment every page has the same touching ranges.\<close>

lemma segment_uniform:
  assumes "parts_wf parts" and "ps \<noteq> 0" and "(f, l) \<in> set (plan_segments ps parts)" and "f \<le> q" and "q \<le> l"
    and "(r, b, s) \<in> set parts"
  shows "page_touches ps r q \<longleftrightarrow> page_touches ps r f"
proof -
  let ?s = "span_of ps (r, b, s)"
  note seg = plan_segment_props [OF assms(3)]
  have "span_first_page ?s \<le> f" if "span_first_page ?s \<le> q"
    using that seg(3) touches_first(3) [OF assms(1,6,2)] assms(5) by simp
  moreover have "q \<le> span_last_page ?s" if "f \<le> span_last_page ?s"
  proof (rule ccontr)
    assume gt: "\<not> q \<le> span_last_page ?s"
    then have lt: "span_last_page ?s < max_page ps" using assms(5) seg(2) by simp
    then have "span_last_page ?s + 1 \<in> set (span_boundaries (max_page ps) (map (span_of ps) parts))"
      using assms(6) by (auto simp: span_boundaries_set intro!: bexI [of _ "(r, b, s)"])
    moreover have "span_last_page ?s + 1 \<le> q" using gt by (simp add: inc_le)
    ultimately have "span_last_page ?s + 1 \<le> f" using seg(3) assms(5) by auto
    then show False using that unat_Suc [OF lt] unfolding word_le_nat_alt by linarith
  qed
  ultimately show ?thesis
    using assms(4) by (auto simp: touches_first(1) [OF assms(1,6,2)])
qed

lemma segment_page_parts:
  assumes "parts_wf parts" and "ps \<noteq> 0" and "(f, l) \<in> set (plan_segments ps parts)" and "f \<le> q" and "q \<le> l"
  shows "page_parts ps parts q = page_parts ps parts f"
  unfolding page_parts_def by (rule filter_cong) (auto simp: segment_uniform [OF assms])

lemma touched_segment:
  assumes "parts_wf parts" and "ps \<noteq> 0" and "touched ps parts q"
  shows "\<exists>f l. (f, l) \<in> set (plan_segments ps parts) \<and> f \<le> q \<and> q \<le> l \<and> touched ps parts f"
proof -
  let ?bs = "span_boundaries (max_page ps) (map (span_of ps) parts)"
  obtain r b s where part: "(r, b, s) \<in> set parts" "page_touches ps r q" using assms(3) by (auto simp: touched_iff)
  have "range_base r div ps \<le> q" using touches_first(1) [OF assms(1) part(1) assms(2)] part(2) by simp
  moreover have "q \<le> max_page ps" using part(2) a_div_le_max by (auto simp: page_touches_def)
  ultimately obtain f l where "(f, l) \<in> set (plan_segments ps parts)" "f \<le> q" "q \<le> l"
    using segments_cover [OF sorted_boundaries(1), of "range_base r div ps" ?bs q "max_page ps"]
      touches_first(3) [OF assms(1) part(1) assms(2)] by (auto simp: plan_segments_def)
  then show ?thesis using segment_page_parts [OF assms(1,2)] assms(3) unfolding touched_def by metis
qed

text \<open>One segment spans every page exactly when every range reaches the first and the last page.\<close>

lemma whole_segment_iff:
  assumes "parts_wf parts" and "ps \<noteq> 0" and "parts \<noteq> []"
  shows "(0, max_page ps) \<in> set (plan_segments ps parts) \<longleftrightarrow>
    (\<forall>(r, b, s) \<in> set parts. page_touches ps r 0 \<and> page_touches ps r (max_page ps))"
proof
  assume seg: "(0, max_page ps) \<in> set (plan_segments ps parts)"
  have "page_touches ps r 0 \<and> page_touches ps r (max_page ps)" if part: "(r, b, s) \<in> set parts" for r b s
  proof -
    have "range_base r div ps = 0"
      using plan_segment_props(3) [OF seg] touches_first(3) [OF assms(1) part assms(2)] a_div_le_max by auto
    then have "page_touches ps r 0" using touches_first(2) [OF assms(1) part assms(2)] by simp
    then show ?thesis using segment_uniform [OF assms(1,2) seg _ _ part, of "max_page ps"] by simp
  qed
  then show "\<forall>(r, b, s) \<in> set parts. page_touches ps r 0 \<and> page_touches ps r (max_page ps)" by blast
next
  assume all: "\<forall>(r, b, s) \<in> set parts. page_touches ps r 0 \<and> page_touches ps r (max_page ps)"
  obtain r b s where part: "(r, b, s) \<in> set parts" using assms(3) by (cases parts) auto
  have "x = 0" if x: "x \<in> set (span_boundaries (max_page ps) (map (span_of ps) parts))" for x
  proof -
    obtain r b s where p: "(r, b, s) \<in> set parts" "x = range_base r div ps \<or>
        (span_last_page (span_of ps (r, b, s)) < max_page ps \<and> x = span_last_page (span_of ps (r, b, s)) + 1)"
      using x by (fastforce simp: span_boundaries_set split: if_splits)
    have "page_touches ps r 0" "page_touches ps r (max_page ps)" using all p(1) by auto
    then show ?thesis using p(2) touches_first(1) [OF assms(1) p(1) assms(2)] by auto
  qed
  moreover have "touched ps parts (max_page ps)" using all part unfolding touched_iff by fastforce
  ultimately obtain l where "(0, l) \<in> set (plan_segments ps parts)" "max_page ps \<le> l"
    using touched_segment [OF assms(1,2)] plan_segment_props(4) by metis
  then show "(0, max_page ps) \<in> set (plan_segments ps parts)"
    using plan_segment_props(2) by (metis order.antisym)
qed

lemma no_wrapping_segment:
  assumes "parts_wf parts" and "(f, l) \<in> set (plan_segments ps parts)" and "touched ps parts f"
  shows "\<not> (ps = 1 \<and> f = 0 \<and> l = max_page ps)"
proof
  assume eq: "ps = 1 \<and> f = 0 \<and> l = max_page ps"
  then have "(0, max_page ps) \<in> set (plan_segments ps parts)" "ps \<noteq> 0" using assms(2) by auto
  moreover obtain r b s where part: "(r, b, s) \<in> set parts" using assms(3) by (auto simp: touched_iff)
  ultimately have "page_touches 1 r 0" "page_touches 1 r u64_max"
    using whole_segment_iff [OF assms(1), of ps] eq by (cases parts, auto)+
  then have "range_contains r 0" "range_contains r u64_max" by (auto simp: page_touches_def)
  then have "2 ^ 64 \<le> unat (range_size r)" by (simp add: range_contains_iff)
  then show False using unat_lt_2p64 [of "range_size r"] by simp
qed

lemma plan_regions_Success:
  assumes "is_power_of_two ps" and "parts_wf parts"
  shows "build_regions ps (max_page ps) (map (span_of ps) parts)
      (remdups_adj (std_sort (<) (span_boundaries (max_page ps) (map (span_of ps) parts)))) [] = Success rs \<longleftrightarrow>
    (\<forall>page. \<not> mixed_page ps parts page) \<and>
    (parts = [] \<or> \<not> (\<forall>(r, b, s) \<in> set parts. page_touches ps r 0 \<and> page_touches ps r (max_page ps))) \<and>
    rs = map (region_of ps parts) (filter (\<lambda>(f, l). touched ps parts f) (plan_segments ps parts))"
proof -
  let ?bs = "remdups_adj (std_sort (<) (span_boundaries (max_page ps) (map (span_of ps) parts)))"
  have ps: "ps \<noteq> 0" using assms(1) by (simp add: is_power_of_two_def)
  have le: "\<forall>b \<in> set ?bs. b \<le> max_page ps" using boundaries_le by simp
  have nw: "\<forall>(f, l) \<in> set (segments (max_page ps) ?bs). touched ps parts f \<longrightarrow> \<not> (ps = 1 \<and> f = 0 \<and> l = max_page ps)"
    using no_wrapping_segment [OF assms(2)] by (fastforce simp: plan_segments_def)
  have mixed: "(\<forall>(f, l) \<in> set (plan_segments ps parts). touched ps parts f \<longrightarrow> \<not> mixed_page ps parts f) \<longleftrightarrow>
      (\<forall>page. \<not> mixed_page ps parts page)"
  proof -
    have "\<exists>(f, l) \<in> set (plan_segments ps parts). touched ps parts f \<and> mixed_page ps parts f" if "mixed_page ps parts q" for q
    proof -
      have "touched ps parts q" using that by (auto simp: mixed_page_def page_bits_has touched_iff)
      then obtain f l where seg: "(f, l) \<in> set (plan_segments ps parts)" "f \<le> q" "q \<le> l" "touched ps parts f"
        using touched_segment [OF assms(2) ps] by blast
      then have "mixed_page ps parts f"
        using that segment_page_parts [OF assms(2) ps seg(1-3)] unfolding mixed_page_def page_bits_def by metis
      with seg show ?thesis by blast
    qed
    then show ?thesis by blast
  qed
  have whole: "(\<forall>(f, l) \<in> set (plan_segments ps parts). touched ps parts f \<longrightarrow> \<not> (f = 0 \<and> l = max_page ps)) \<longleftrightarrow>
      parts = [] \<or> \<not> (\<forall>(r, b, s) \<in> set parts. page_touches ps r 0 \<and> page_touches ps r (max_page ps))"
  proof (cases "parts = []")
    case True
    then show ?thesis by (simp add: touched_iff split: prod.splits)
  next
    case False
    have "touched ps parts 0" if "\<forall>(r, b, s) \<in> set parts. page_touches ps r 0 \<and> page_touches ps r (max_page ps)"
      using that False by (cases parts) (auto simp: touched_iff)
    with whole_segment_iff [OF assms(2) ps False] False show ?thesis by blast
  qed
  have split: "(\<forall>(f, l) \<in> S. touched ps parts f \<longrightarrow> \<not> mixed_page ps parts f \<and> \<not> (f = 0 \<and> l = max_page ps)) \<longleftrightarrow>
      (\<forall>(f, l) \<in> S. touched ps parts f \<longrightarrow> \<not> mixed_page ps parts f) \<and>
      (\<forall>(f, l) \<in> S. touched ps parts f \<longrightarrow> \<not> (f = 0 \<and> l = max_page ps))" for S
    by blast
  show ?thesis
    unfolding build_regions_Success [OF assms sorted_boundaries(1) le nw] plan_segments_def [symmetric] split mixed whole
    by simp
qed

section \<open>The plan\<close>

lemma scan_entry_eq:
  "scan_entry entry ms mapped exe =
     (mapped \<or> (\<exists>m \<in> set ms. range_contains (intent_range m) entry),
      exe \<or> (\<exists>m \<in> set ms. range_contains (intent_range m) entry \<and> permissions_has (intent_permissions m) execute_permission))"
  by (induction ms arbitrary: mapped exe) auto

definition entry_and_stack_ok :: "ExecutionMemoryPlanRequest \<Rightarrow> bool" where
  "entry_and_stack_ok request \<longleftrightarrow>
     (\<exists>m \<in> set (plan_mappings request). range_contains (intent_range m) (plan_entry_point request) \<and>
        permissions_has (intent_permissions m) execute_permission) \<and>
     range_contains (plan_stack_storage request) (plan_stack_pointer request)"

lemma check_entry_and_stack_Success: "check_entry_and_stack request = Success u \<longleftrightarrow> entry_and_stack_ok request"
  by (auto simp: check_entry_and_stack_def scan_entry_eq entry_and_stack_ok_def)

lemma check_entry_and_stack_defined: "check_entry_and_stack request \<noteq> Undefined"
  by (simp add: check_entry_and_stack_def scan_entry_eq)

definition regions_of :: "ExecutionMemoryPlanRequest \<Rightarrow> ExecutionMemoryRegion list" where
  "regions_of request = (let ps = plan_page_size request; parts = plan_parts request in
     map (region_of ps parts) (filter (\<lambda>(f, l). touched ps parts f) (plan_segments ps parts)))"

text \<open>Every range of the request reaches both the first and the last page of the address space.\<close>

definition spans_address_space :: "ExecutionMemoryPlanRequest \<Rightarrow> bool" where
  "spans_address_space request \<longleftrightarrow>
     (\<forall>(r, b, s) \<in> set (plan_parts request). page_touches (plan_page_size request) r 0 \<and>
        page_touches (plan_page_size request) r (max_page (plan_page_size request)))"

lemma stack_pointer_parts: "entry_and_stack_ok request \<Longrightarrow> plan_parts request \<noteq> []"
  by (auto simp: entry_and_stack_ok_def plan_parts_def range_contains_iff range_empty_iff)

lemma build_plan_body_iff:
  assumes "plan_request_wf request"
  shows "build_plan_body request = Success plan \<longleftrightarrow>
    is_power_of_two (plan_page_size request) \<and> entry_and_stack_ok request \<and>
    (\<forall>page. \<not> mixed_page (plan_page_size request) (plan_parts request) page) \<and> \<not> spans_address_space request \<and>
    plan = \<lparr>plan_host_page_size = plan_page_size request, plan_regions = regions_of request\<rparr>"
proof (cases "is_power_of_two (plan_page_size request)")
  case True
  note regs = plan_regions_Success [OF True plan_parts_wf [OF assms], folded spans_address_space_def
      regions_of_def [unfolded Let_def]]
  show ?thesis
    unfolding build_plan_body_def Let_def spans_of_request length_map if_Failure_Success and_then_Success regs check_entry_and_stack_Success
    using True plan_parts_length [OF assms] stack_pointer_parts [of request] by auto
qed (simp add: build_plan_body_def)

lemma build_regions_defined: "build_regions ps m spans bs acc \<noteq> Undefined"
  by (induction ps m spans bs acc rule: build_regions.induct) (auto simp: and_then_Undefined build_region_defined)

lemma build_plan_body_defined: "build_plan_body request \<noteq> Undefined"
  unfolding build_plan_body_def Let_def spans_of_request
  by (auto simp: and_then_Undefined build_regions_defined check_entry_and_stack_defined)

lemma build_plan_iff:
  "build_execution_memory_plan thrown request = Success plan \<longleftrightarrow> thrown = No_exception \<and> build_plan_body request = Success plan"
  by (cases thrown) (simp_all add: build_execution_memory_plan_def)

text \<open>A permission that some guest range gives to an address of the page.\<close>

definition page_allows :: "ExecutionMemoryPlanRequest \<Rightarrow> u64 \<Rightarrow> GuestPermission \<Rightarrow> bool" where
  "page_allows request page p \<longleftrightarrow>
     (\<exists>m \<in> set (plan_mappings request). page_touches (plan_page_size request) (intent_range m) page \<and>
        permissions_has (intent_permissions m) p) \<or>
     (page_touches (plan_page_size request) (plan_stack_storage request) page \<and> p \<noteq> execute_permission)"

definition page_mapped :: "ExecutionMemoryPlanRequest \<Rightarrow> u64 \<Rightarrow> bool" where
  "page_mapped request page \<longleftrightarrow>
     (\<exists>m \<in> set (plan_mappings request). page_touches (plan_page_size request) (intent_range m) page) \<or>
     page_touches (plan_page_size request) (plan_stack_storage request) page"

lemma page_touches_nonempty: "page_touches ps r page \<Longrightarrow> \<not> range_empty r"
  by (auto simp: page_touches_def range_contains_def)

lemma stack_bits_has: "permissions_has (permission_bit read_permission OR permission_bit write_permission) p \<longleftrightarrow> p \<noteq> execute_permission"
  by (cases p) (simp_all add: permissions_has_def)

lemma page_bits_allows:
  "permissions_has (page_bits (plan_page_size request) (plan_parts request) page) p \<longleftrightarrow> page_allows request page p"
  unfolding page_bits_has plan_parts_def mapping_part_def page_allows_def
  by (auto simp: stack_bits_has simp del: permission_bit.simps dest: page_touches_nonempty)

lemma touched_page_mapped: "touched (plan_page_size request) (plan_parts request) page \<longleftrightarrow> page_mapped request page"
  unfolding touched_iff plan_parts_def mapping_part_def page_mapped_def
  by (auto dest: page_touches_nonempty)

text \<open>The conditions under which regions are laid out.\<close>

definition plan_ready :: "ExecutionMemoryPlanRequest \<Rightarrow> bool" where
  "plan_ready request \<longleftrightarrow> plan_request_wf request \<and> is_power_of_two (plan_page_size request) \<and>
     \<not> spans_address_space request \<and> plan_parts request \<noteq> []"

lemma plan_readyD:
  assumes "plan_ready request"
  shows "plan_request_wf request" "is_power_of_two (plan_page_size request)" "\<not> spans_address_space request"
    "plan_parts request \<noteq> []"
  using assms by (simp_all add: plan_ready_def)

lemma built_plan:
  assumes "plan_request_wf request" and "build_execution_memory_plan thrown request = Success plan"
  shows "plan_ready request" and "plan_regions plan = regions_of request"
    and "plan_host_page_size plan = plan_page_size request"
    and "\<not> (page_allows request page write_permission \<and> page_allows request page execute_permission)"
  using assms(2) stack_pointer_parts [of request]
  unfolding build_plan_iff build_plan_body_iff [OF assms(1)] mixed_page_def page_bits_allows plan_ready_def
  by (auto simp: assms(1))

lemma regions_of_props:
  assumes "plan_ready request"
    and "region \<in> set (regions_of request)"
  obtains f l where "region = region_of (plan_page_size request) (plan_parts request) (f, l)"
    and "(f, l) \<in> set (plan_segments (plan_page_size request) (plan_parts request))"
    and "touched (plan_page_size request) (plan_parts request) f"
    and "f \<le> l" and "l \<le> max_page (plan_page_size request)" and "\<not> (f = 0 \<and> l = max_page (plan_page_size request))"
proof -
  note r = plan_readyD [OF assms(1)]
  have ps: "plan_page_size request \<noteq> 0" using r(2) by (simp add: is_power_of_two_def)
  obtain f l where fl: "region = region_of (plan_page_size request) (plan_parts request) (f, l)"
    "(f, l) \<in> set (plan_segments (plan_page_size request) (plan_parts request))"
    "touched (plan_page_size request) (plan_parts request) f"
    using assms(2) by (auto simp: regions_of_def Let_def)
  have "\<not> (f = 0 \<and> l = max_page (plan_page_size request))"
    using whole_segment_iff [OF plan_parts_wf [OF r(1)] ps r(4)] r(3) fl(2)
    unfolding spans_address_space_def by blast
  then show ?thesis using that [OF fl] plan_segment_props(1,2) [OF fl(2)] by blast
qed

section \<open>Properties of a plan\<close>

text \<open>
  C13. A memory plan is built exactly when no allocation fails, the host page size is a power of two, no
  page holds bytes of both a writable and an executable guest range, no single region would have to
  span the whole address space, the entry point lies in an executable mapping and the stack pointer in
  the stack.
\<close>

theorem build_execution_memory_plan_correct:
  assumes "plan_request_wf request"
  shows "build_execution_memory_plan thrown request \<noteq> Undefined \<and>
    ((\<exists>plan. build_execution_memory_plan thrown request = Success plan) \<longleftrightarrow>
      thrown = No_exception \<and> is_power_of_two (plan_page_size request) \<and>
      (\<forall>page. \<not> (page_allows request page write_permission \<and> page_allows request page execute_permission)) \<and>
      \<not> spans_address_space request \<and> entry_and_stack_ok request)"
proof -
  have "build_execution_memory_plan thrown request \<noteq> Undefined"
    by (cases thrown) (simp_all add: build_execution_memory_plan_def build_plan_body_defined)
  then show ?thesis
    unfolding build_plan_iff build_plan_body_iff [OF assms] mixed_page_def page_bits_allows by auto
qed

lemma regions_sorted:
  assumes "plan_ready request"
  shows "sorted_wrt (\<lambda>r s. unat (range_base (region_range r)) + unat (range_size (region_range r)) \<le>
    unat (range_base (region_range s))) (regions_of request)"
proof -
  note r = plan_readyD [OF assms(1)]
  let ?ps = "plan_page_size request" and ?parts = "plan_parts request"
  let ?segs = "filter (\<lambda>(f, l). touched ?ps ?parts f) (plan_segments ?ps ?parts)"
  have ps: "?ps \<noteq> 0" using r(2) by (simp add: is_power_of_two_def)
  have seg: "f \<le> l \<and> l \<le> max_page ?ps \<and> \<not> (f = 0 \<and> l = max_page ?ps)" if "(f, l) \<in> set ?segs" for f l
    using that plan_segment_props(1,2) whole_segment_iff [OF plan_parts_wf [OF r(1)] ps r(4)] r(3)
    unfolding spans_address_space_def by auto
  have order: "unat (range_base (pages_range ?ps f l)) + unat (range_size (pages_range ?ps f l)) \<le>
      unat (range_base (pages_range ?ps f' l'))"
    if "(f, l) \<in> set ?segs" "(f', l') \<in> set ?segs" "l < f'" for f l f' l'
  proof -
    have "unat l + 1 \<le> unat f'" using that(3) by (simp add: word_less_nat_alt)
    then have "(unat l + 1) * unat ?ps \<le> unat f' * unat ?ps" by (rule mult_le_mono1)
    also have "\<dots> = unat (range_base (pages_range ?ps f' l'))"
      using pages_arithmetic(2) [OF r(2), of f' l'] seg [OF that(2)] by (simp add: pages_range_def)
    finally show ?thesis using pages_range_props(3) [OF r(2), of f l] seg [OF that(1)] by simp
  qed
  have "sorted_wrt (\<lambda>(f, l) (f', l'). l < f') ?segs"
    unfolding plan_segments_def by (intro sorted_wrt_filter segments_sorted sorted_boundaries)
  then show ?thesis
    unfolding regions_of_def Let_def sorted_wrt_map
    by (rule sorted_wrt_mono_rel [rotated]) (use order in \<open>auto simp: region_of_def\<close>)
qed

lemma region_address:
  assumes "plan_ready request"
    and "region \<in> set (regions_of request)" and "range_contains (region_range region) a"
  shows "permissions_has (region_permissions region) p \<longleftrightarrow> page_allows request (a div plan_page_size request) p"
    and "region_sources region = page_sources (plan_page_size request) (plan_parts request) (a div plan_page_size request)"
    and "page_mapped request (a div plan_page_size request)"
proof -
  note r = plan_readyD [OF assms(1)]
  let ?ps = "plan_page_size request" and ?parts = "plan_parts request"
  have ps: "?ps \<noteq> 0" using r(2) by (simp add: is_power_of_two_def)
  obtain f l where fl: "region = region_of ?ps ?parts (f, l)" "(f, l) \<in> set (plan_segments ?ps ?parts)"
    "touched ?ps ?parts f" "f \<le> l" "l \<le> max_page ?ps" "\<not> (f = 0 \<and> l = max_page ?ps)"
    using regions_of_props [OF assms(1,2)] .
  have "f \<le> a div ?ps" "a div ?ps \<le> l"
    using assms(3) pages_range_props(2) [OF r(2) fl(4-6)] fl(1) by (simp_all add: region_of_def)
  from segment_page_parts [OF plan_parts_wf [OF r(1)] ps fl(2) this]
  have same: "page_parts ?ps ?parts (a div ?ps) = page_parts ?ps ?parts f" .
  have "permissions_has (page_bits ?ps ?parts f) p = permissions_has (page_bits ?ps ?parts (a div ?ps)) p"
    by (simp add: page_bits_def same)
  then show "permissions_has (region_permissions region) p \<longleftrightarrow> page_allows request (a div ?ps) p"
    unfolding page_bits_allows by (simp add: fl(1) region_of_def page_bits_allows)
  show "region_sources region = page_sources ?ps ?parts (a div ?ps)"
    by (simp add: fl(1) region_of_def page_sources_def same)
  show "page_mapped request (a div ?ps)"
    using fl(3) same unfolding touched_page_mapped [symmetric] touched_def by simp
qed

lemma mapped_page_region:
  assumes "plan_ready request"
    and "page_mapped request (a div plan_page_size request)"
  shows "\<exists>region \<in> set (regions_of request). range_contains (region_range region) a"
proof -
  note r = plan_readyD [OF assms(1)]
  let ?ps = "plan_page_size request" and ?parts = "plan_parts request"
  have ps: "?ps \<noteq> 0" using r(2) by (simp add: is_power_of_two_def)
  obtain f l where fl: "(f, l) \<in> set (plan_segments ?ps ?parts)" "f \<le> a div ?ps" "a div ?ps \<le> l" "touched ?ps ?parts f"
    using touched_segment [OF plan_parts_wf [OF r(1)] ps] assms(2) unfolding touched_page_mapped by blast
  then have mem: "region_of ?ps ?parts (f, l) \<in> set (regions_of request)"
    by (auto simp: regions_of_def Let_def)
  have "\<not> (f = 0 \<and> l = max_page ?ps)"
    using whole_segment_iff [OF plan_parts_wf [OF r(1)] ps r(4)] r(3) fl(1)
    unfolding spans_address_space_def by blast
  then have "range_contains (region_range (region_of ?ps ?parts (f, l))) a"
    using pages_range_props(2) [OF r(2) plan_segment_props(1,2) [OF fl(1)]] fl(2,3) by (simp add: region_of_def)
  with mem show ?thesis by blast
qed

lemma region_shape:
  assumes "plan_request_wf request" and "build_execution_memory_plan thrown request = Success plan"
    and mem: "r \<in> set (plan_regions plan)"
  shows "range_wf (region_range r)" and "range_size (region_range r) \<noteq> 0"
    and "unat (plan_page_size request) dvd unat (range_base (region_range r))"
    and "unat (plan_page_size request) dvd unat (range_size (region_range r))"
    and "\<not> (permissions_has (region_permissions r) write_permission \<and> permissions_has (region_permissions r) execute_permission)"
    and "known_permissions (region_permissions r)"
proof -
  note built = built_plan [OF assms(1,2)]
  note ready = plan_readyD [OF built(1)]
  obtain f l where fl: "r = region_of (plan_page_size request) (plan_parts request) (f, l)"
    "f \<le> l" "l \<le> max_page (plan_page_size request)" "\<not> (f = 0 \<and> l = max_page (plan_page_size request))"
    using regions_of_props [OF built(1)] mem unfolding built(2) by metis
  have size: "unat (f * plan_page_size request) = unat f * unat (plan_page_size request)"
    "unat ((l - f + 1) * plan_page_size request) = (unat l - unat f + 1) * unat (plan_page_size request)"
    using pages_arithmetic(2) [OF ready(2) fl(2,3)] fl(4) by blast+
  then have "unat (range_size (region_range r)) \<noteq> 0"
    using ready(2) unfolding fl(1) region_of_def pages_range_def by (simp add: is_power_of_two_def unat_gt_0)
  then show "range_size (region_range r) \<noteq> 0" by auto
  show "range_wf (region_range r)" "unat (plan_page_size request) dvd unat (range_base (region_range r))"
    "unat (plan_page_size request) dvd unat (range_size (region_range r))"
    "\<not> (permissions_has (region_permissions r) write_permission \<and> permissions_has (region_permissions r) execute_permission)"
    using size pages_range_props(1) [OF ready(2) fl(2-4)] built(4) [of f]
    unfolding fl(1) region_of_def by (simp_all add: page_bits_allows pages_range_def)
  show "known_permissions (region_permissions r)"
    using page_bits_known [OF plan_parts_wf [OF assms(1)], of "plan_page_size request" f] unfolding fl(1) region_of_def
    by (simp add: checked_from_bits_def known_permissions_def split: if_splits)
qed

text \<open>
  C14. The regions of a built plan are exactly the pages the guest uses: they are ascending, disjoint and
  page-aligned, they hold an address exactly when its page is touched by a mapping or the stack, each
  grants exactly the permissions that the ranges touching that page grant, lists exactly their
  sources, and none is both writable and executable.
\<close>

theorem plan_regions_exact:
  assumes "plan_request_wf request" and "build_execution_memory_plan thrown request = Success plan"
  shows "sorted_wrt (\<lambda>r s. unat (range_base (region_range r)) + unat (range_size (region_range r)) \<le>
      unat (range_base (region_range s))) (plan_regions plan) \<and>
    (\<forall>a. (\<exists>r \<in> set (plan_regions plan). range_contains (region_range r) a) \<longleftrightarrow>
      page_mapped request (a div plan_page_size request)) \<and>
    (\<forall>r \<in> set (plan_regions plan). range_wf (region_range r) \<and>
      unat (plan_page_size request) dvd unat (range_base (region_range r)) \<and>
      unat (plan_page_size request) dvd unat (range_size (region_range r)) \<and>
      \<not> (permissions_has (region_permissions r) write_permission \<and> permissions_has (region_permissions r) execute_permission) \<and>
      (\<forall>a. range_contains (region_range r) a \<longrightarrow>
        (\<forall>p. permissions_has (region_permissions r) p \<longleftrightarrow> page_allows request (a div plan_page_size request) p) \<and>
        set (region_sources r) = {s. \<exists>q b. (q, b, s) \<in> set (plan_parts request) \<and>
          page_touches (plan_page_size request) q (a div plan_page_size request)}))"
proof -
  note built = built_plan [OF assms]
  note ready = plan_readyD [OF built(1)]
  show ?thesis
    unfolding built(2)
    using regions_sorted [OF built(1)] region_shape [OF assms, unfolded built(2)] mapped_page_region [OF built(1)]
      region_address [OF built(1)] by (auto simp: set_page_sources)
qed

section \<open>Properties of write ownership\<close>

lemma byte_address:
  assumes "unat (target :: u64) + unat n < 2 ^ 64" and "i < unat n"
  shows "unat (target + of_nat i) = unat target + i"
proof -
  have "unat (of_nat i :: u64) = i" using assms by (simp add: unat_of_nat)
  then show ?thesis using assms by (subst unat_add_no_wrap) simp_all
qed

lemma fully_within_bytes:
  assumes "n \<noteq> 0" and "unat target + unat n < 2 ^ 64"
  shows "fully_within target n r \<longleftrightarrow> (\<forall>i < unat n. range_contains r (target + of_nat i))"
proof -
  have "0 < unat n" using assms(1) by (simp add: unat_gt_0)
  have "fully_within target n r \<longleftrightarrow>
      unat (range_base r) \<le> unat target \<and> unat target + unat n \<le> unat (range_base r) + unat (range_size r)"
    by (auto simp: fully_within_def Let_def word_le_nat_alt unat_sub_if')
  also have "\<dots> \<longleftrightarrow> (\<forall>i < unat n. range_contains r (target + of_nat i))"
  proof
    assume "\<forall>i < unat n. range_contains r (target + of_nat i)"
    then have "range_contains r (target + of_nat 0)" "range_contains r (target + of_nat (unat n - 1))"
      using \<open>0 < unat n\<close> by (metis, metis diff_less zero_less_one)
    then show "unat (range_base r) \<le> unat target \<and> unat target + unat n \<le> unat (range_base r) + unat (range_size r)"
      using byte_address [OF assms(2), of "unat n - 1"] \<open>0 < unat n\<close> by (auto simp: range_contains_iff)
  qed (auto simp: range_contains_iff byte_address [OF assms(2)])
  finally show ?thesis .
qed

lemma write_intersects_bytes:
  assumes "unat target + unat n < 2 ^ 64" and "n \<noteq> 0"
  shows "write_intersects target (target + n) r \<longleftrightarrow> (\<exists>i < unat n. range_contains r (target + of_nat i))"
proof -
  have n: "0 < unat n" using assms(2) by (simp add: unat_gt_0)
  have "write_intersects target (target + n) r \<longleftrightarrow> unat (range_size r) \<noteq> 0 \<and>
      (if unat (range_base r) \<le> unat target then unat target < unat (range_base r) + unat (range_size r)
       else unat (range_base r) < unat target + unat n)"
    using unat_add_no_wrap [OF assms(1)]
    by (auto simp: write_intersects_def Let_def range_empty_iff word_le_nat_alt word_less_nat_alt unat_sub_if')
  also have "\<dots> \<longleftrightarrow> (\<exists>i < unat n. range_contains r (target + of_nat i))"
  proof
    assume hit: "unat (range_size r) \<noteq> 0 \<and>
      (if unat (range_base r) \<le> unat target then unat target < unat (range_base r) + unat (range_size r)
       else unat (range_base r) < unat target + unat n)"
    let ?i = "unat (range_base r) - unat target"
    have "?i < unat n" using hit n by (auto split: if_splits)
    moreover have "range_contains r (target + of_nat ?i)"
      using hit by (auto simp: range_contains_iff byte_address [OF assms(1) \<open>?i < unat n\<close>] split: if_splits)
    ultimately show "\<exists>i < unat n. range_contains r (target + of_nat i)" by blast
  qed (auto simp: range_contains_iff byte_address [OF assms(1)] split: if_splits)
  finally show ?thesis .
qed

lemma mappings_own_eq:
  "mappings_own target n end_address ms owned =
     (if \<forall>m \<in> set ms. write_intersects target end_address (intent_range m) \<longrightarrow> permissions_has (intent_permissions m) write_permission
      then Some (owned \<or> (\<exists>m \<in> set ms. fully_within target n (intent_range m) \<and> permissions_has (intent_permissions m) write_permission))
      else None)"
  by (induction ms arbitrary: owned) (auto simp: Let_def)

lemma guest_write_owned_unfold:
  assumes "n \<noteq> 0" and "unat target + unat n < 2 ^ 64" and "plan_host_page_size plan \<noteq> 0"
  shows "guest_write_owned_by_plan plan ms stack target n \<longleftrightarrow>
    (\<forall>m \<in> set ms. write_intersects target (target + n) (intent_range m) \<longrightarrow> permissions_has (intent_permissions m) write_permission) \<and>
    (fully_within target n stack \<or>
      (\<exists>m \<in> set ms. fully_within target n (intent_range m) \<and> permissions_has (intent_permissions m) write_permission)) \<and>
    regions_own target n (plan_regions plan)"
proof -
  have "\<not> n > u64_max - target" using assms(2) unfolding gt_max_minus_iff by simp
  then show ?thesis
    using assms(1,3) unfolding guest_write_owned_by_plan_def Let_def mappings_own_eq by auto
qed

lemma regions_own_iff:
  assumes "\<forall>r \<in> set regions. \<not> (permissions_has (region_permissions r) write_permission \<and>
      permissions_has (region_permissions r) execute_permission)"
    and "\<forall>r \<in> set regions. fully_within target n (region_range r) \<longrightarrow> permissions_has (region_permissions r) write_permission"
  shows "regions_own target n regions \<longleftrightarrow> (\<exists>r \<in> set regions. fully_within target n (region_range r))"
  using assms by (induction regions) auto

text \<open>The bytes of a write: every one lies in the guest range.\<close>

definition write_in :: "GuestAddress \<Rightarrow> u64 \<Rightarrow> GuestRange \<Rightarrow> bool" where
  "write_in target n r \<longleftrightarrow> (\<forall>i < unat n. range_contains r (target + of_nat i))"

text \<open>
  C15. With the plan of the guest, a write is owned exactly when it is non-empty and does not reach the
  end of the address space, all its bytes lie in the stack or in one writable mapping, no
  non-writable mapping holds any of them, and one region of the plan holds them all. No owned byte
  lies in a page that anything maps executable.
\<close>

theorem guest_write_owned_correct:
  assumes "plan_request_wf request" and "build_execution_memory_plan thrown request = Success plan"
  shows "guest_write_owned_by_plan plan (plan_mappings request) (plan_stack_storage request) target n \<longleftrightarrow>
    n \<noteq> 0 \<and> unat target + unat n < 2 ^ 64 \<and>
    (write_in target n (plan_stack_storage request) \<or>
      (\<exists>m \<in> set (plan_mappings request). write_in target n (intent_range m) \<and> permissions_has (intent_permissions m) write_permission)) \<and>
    (\<forall>m \<in> set (plan_mappings request). (\<exists>i < unat n. range_contains (intent_range m) (target + of_nat i)) \<longrightarrow>
      permissions_has (intent_permissions m) write_permission) \<and>
    (\<exists>r \<in> set (plan_regions plan). write_in target n (region_range r)) \<and>
    (\<forall>i < unat n. \<not> page_allows request ((target + of_nat i) div plan_page_size request) execute_permission)"
    (is "?own \<longleftrightarrow> ?spec")
proof (cases "n \<noteq> 0 \<and> unat target + unat n < 2 ^ 64")
  case False
  then show ?thesis by (auto simp: guest_write_owned_by_plan_def gt_max_minus_iff add.commute)
next
  case True
  note built = built_plan [OF assms]
  note ready = plan_readyD [OF built(1)]
  note within = fully_within_bytes [of n target, folded write_in_def]
  have n: "0 < unat n" using True by (simp add: unat_gt_0)
  let ?owned = "write_in target n (plan_stack_storage request) \<or>
      (\<exists>m \<in> set (plan_mappings request). write_in target n (intent_range m) \<and> permissions_has (intent_permissions m) write_permission)"
  have page: "page_allows request ((target + of_nat i) div plan_page_size request) write_permission"
    if "?owned" "i < unat n" for i
    using that unfolding page_allows_def page_touches_def write_in_def by blast
  have noexec: "\<not> page_allows request ((target + of_nat i) div plan_page_size request) execute_permission"
    if "?owned" "i < unat n" for i using page [OF that] built(4) by blast
  have wx: "\<forall>r \<in> set (regions_of request). \<not> (permissions_has (region_permissions r) write_permission \<and>
      permissions_has (region_permissions r) execute_permission)"
  proof
    fix r assume "r \<in> set (regions_of request)"
    then obtain f l where "r = region_of (plan_page_size request) (plan_parts request) (f, l)"
      using regions_of_props [OF built(1)] by metis
    then show "\<not> (permissions_has (region_permissions r) write_permission \<and> permissions_has (region_permissions r) execute_permission)"
      using built(4) [of f] by (simp add: region_of_def page_bits_allows)
  qed
  have own: "regions_own target n (regions_of request) \<longleftrightarrow> (\<exists>r \<in> set (regions_of request). write_in target n (region_range r))"
    if "?owned"
  proof -
    have "permissions_has (region_permissions r) write_permission"
      if "r \<in> set (regions_of request)" "write_in target n (region_range r)" for r
    proof -
      have "range_contains (region_range r) (target + of_nat 0)" using that(2) n unfolding write_in_def by blast
      with region_address(1) [OF built(1) that(1)] page [OF \<open>?owned\<close> n] show ?thesis by blast
    qed
    then show ?thesis
      using regions_own_iff [OF wx, of target n] within True by simp
  qed
  have "?own \<longleftrightarrow> (\<forall>m \<in> set (plan_mappings request). write_intersects target (target + n) (intent_range m) \<longrightarrow>
      permissions_has (intent_permissions m) write_permission) \<and> ?owned \<and> regions_own target n (regions_of request)"
    using True ready(2) by (subst guest_write_owned_unfold) (simp_all add: built(2,3) is_power_of_two_def within)
  also have "\<dots> \<longleftrightarrow> ?spec"
    using True own noexec write_intersects_bytes [of target n] unfolding built(2) by blast
  finally show ?thesis .
qed

section \<open>Properties of epochs\<close>

lemmas epoch_intros = epoch_step.intros epoch_reachable.intros

text \<open>
  The modification order counts upwards from 1 without wrapping; calls hold values of it, return
  values below its end, and refuse only when it has reached the largest value.
\<close>

definition epoch_inv :: "epoch_state \<Rightarrow> bool" where
  "epoch_inv s \<longleftrightarrow> epoch_order s \<noteq> [] \<and> 0 \<notin> set (epoch_order s) \<and> sorted_wrt (<) (epoch_order s) \<and>
     (\<forall>t v. epoch_calls s t = Holding v \<longrightarrow> v \<in> set (epoch_order s)) \<and>
     (\<forall>t v. epoch_calls s t = Returned v \<longrightarrow>
        (if v = 0 then u64_max \<in> set (epoch_order s)
         else v < last (epoch_order s) \<and> (\<forall>t'. t' \<noteq> t \<longrightarrow> epoch_calls s t' \<noteq> Returned v)))"

lemma epoch_invI:
  assumes "epoch_order s \<noteq> []" and "0 \<notin> set (epoch_order s)" and "sorted_wrt (<) (epoch_order s)"
    and "\<And>t v. epoch_calls s t = Holding v \<Longrightarrow> v \<in> set (epoch_order s)"
    and "\<And>t. epoch_calls s t = Returned 0 \<Longrightarrow> u64_max \<in> set (epoch_order s)"
    and "\<And>t v. epoch_calls s t = Returned v \<Longrightarrow> v \<noteq> 0 \<Longrightarrow>
      v < last (epoch_order s) \<and> (\<forall>t'. t' \<noteq> t \<longrightarrow> epoch_calls s t' \<noteq> Returned v)"
  shows "epoch_inv s"
  using assms unfolding epoch_inv_def by (simp split: if_splits)

lemma epoch_inv_initial: "epoch_inv epoch_initial"
  by (simp add: epoch_inv_def epoch_initial_def)

lemma sorted_le_last: "sorted_wrt (<) (xs :: u64 list) \<Longrightarrow> v \<in> set xs \<Longrightarrow> v \<le> last xs"
  by (induction xs rule: rev_induct) (auto simp: sorted_wrt_append less_imp_le)

lemma not_exhausted_less:
  assumes "\<not> epoch_exhausted current"
  shows "current < u64_max" and "unat (current + 1) = unat current + 1"
proof -
  have "unat current \<noteq> unat u64_max" using assms by (simp only: epoch_exhausted_def word_unat_eq_iff simp_thms de_Morgan_disj)
  then show "current < u64_max"
    unfolding word_less_nat_alt using unat_lt_2p64 [of current] unat_u64_max by linarith
  then show "unat (current + 1) = unat current + 1" by (rule unat_Suc)
qed

lemma epoch_inv_step:
  assumes "epoch_step s s'" and "epoch_inv s"
  shows "epoch_inv s'"
  using assms
proof (cases rule: epoch_step.cases)
  case (refuse t current)
  have "current = u64_max" using refuse assms(2) by (auto simp: epoch_inv_def epoch_exhausted_def)
  then have "u64_max \<in> set (epoch_order s)" using refuse assms(2) by (auto simp: epoch_inv_def)
  then show ?thesis using assms(2) unfolding refuse(1) epoch_inv_def by (auto split: if_splits)
next
  case (exchange t current)
  have cur: "current \<noteq> 0" "current \<noteq> u64_max" using exchange(3) by (simp_all add: epoch_exhausted_def)
  have "current < u64_max" by (rule not_exhausted_less(1) [OF exchange(3)])
  from unat_Suc [OF this] have lt: "current < current + 1" by (simp add: word_less_nat_alt)
  have below: "v < current + 1" if "v \<in> set (epoch_order s)" for v
    using sorted_le_last that assms(2) exchange(4) lt unfolding epoch_inv_def by (metis le_less_trans)
  have returned: "if v = 0 then u64_max \<in> set (epoch_order s)
      else v < current \<and> (\<forall>t'. t' \<noteq> t1 \<longrightarrow> epoch_calls s t' \<noteq> Returned v)" if "epoch_calls s t1 = Returned v" for t1 v
    using assms(2) that unfolding epoch_inv_def exchange(4) [symmetric] by blast
  have fresh: "epoch_calls s t1 \<noteq> Returned current" for t1
    using returned [of t1 current] cur(1) by auto
  have "sorted_wrt (<) (epoch_order s @ [current + 1])" "0 \<notin> set (epoch_order s @ [current + 1])"
    using assms(2) below lt by (auto simp: epoch_inv_def sorted_wrt_append)
  moreover have "u64_max \<in> set (epoch_order s @ [current + 1])" if "((epoch_calls s)(t := Returned current)) t1 = Returned 0" for t1
    using returned [of t1 0] that cur(1) by (auto split: if_splits)
  moreover have "v < current + 1 \<and> (\<forall>t'. t' \<noteq> t1 \<longrightarrow> ((epoch_calls s)(t := Returned current)) t' \<noteq> Returned v)"
    if "((epoch_calls s)(t := Returned current)) t1 = Returned v" "v \<noteq> 0" for t1 v
    using that returned [of t1 v] lt fresh by (auto split: if_splits)
  moreover have "v \<in> set (epoch_order s @ [current + 1])" if "((epoch_calls s)(t := Returned current)) t1 = Holding v" for t1 v
    using that assms(2) by (auto simp: epoch_inv_def split: if_splits)
  moreover have "epoch_order s' = epoch_order s @ [current + 1]" "epoch_calls s' = (epoch_calls s)(t := Returned current)"
    by (simp_all add: exchange(1))
  ultimately show ?thesis by (intro epoch_invI) (simp_all only: last_snoc, blast+)
qed (auto simp: epoch_inv_def split: if_splits)

lemma epoch_reachable_inv: "epoch_reachable s \<Longrightarrow> epoch_inv s"
  by (induction rule: epoch_reachable.induct) (auto simp: epoch_inv_initial epoch_inv_step)

text \<open>A call without interference performs a load and, unless exhausted, one exchange.\<close>

lemma next_epoch_steps:
  assumes "epoch_calls s t = Not_started" and "epoch_order s \<noteq> []"
  shows "\<exists>s'. epoch_step\<^sup>*\<^sup>* s s' \<and> epoch_calls s' t = Returned (fst (next_prepared_mapping_epoch (last (epoch_order s)))) \<and>
    last (epoch_order s') = snd (next_prepared_mapping_epoch (last (epoch_order s)))"
proof -
  let ?c = "last (epoch_order s)" and ?s1 = "s\<lparr>epoch_calls := (epoch_calls s)(t := Holding (last (epoch_order s)))\<rparr>"
  have one: "epoch_step s ?s1" using assms by (intro epoch_step.load) simp_all
  show ?thesis
  proof (cases "epoch_exhausted ?c")
    case True
    then have "epoch_step ?s1 (?s1\<lparr>epoch_calls := (epoch_calls ?s1)(t := Returned 0)\<rparr>)"
      by (intro epoch_step.refuse) simp_all
    with one True show ?thesis
      by (intro exI [of _ "?s1\<lparr>epoch_calls := (epoch_calls ?s1)(t := Returned 0)\<rparr>"])
        (auto simp: next_prepared_mapping_epoch_def)
  next
    case False
    let ?s2 = "?s1\<lparr>epoch_order := epoch_order ?s1 @ [?c + 1], epoch_calls := (epoch_calls ?s1)(t := Returned ?c)\<rparr>"
    have "epoch_step ?s1 ?s2" using False by (intro epoch_step.exchange) simp_all
    with one False show ?thesis
      by (intro exI [of _ ?s2]) (auto simp: next_prepared_mapping_epoch_def)
  qed
qed

text \<open>
  C16. However the calls of next_prepared_mapping_epoch interleave, whatever stale values relaxed loads
  return and however often the exchange fails, the counter never wraps or becomes zero, two calls
  never return the same non-zero epoch, and a call refuses (returns zero) only after the counter has
  reached its largest value.
\<close>

theorem next_prepared_mapping_epoch_unique:
  assumes "epoch_reachable s"
  shows "sorted_wrt (<) (epoch_order s) \<and> 0 \<notin> set (epoch_order s) \<and>
    (\<forall>t t' v. epoch_calls s t = Returned v \<and> epoch_calls s t' = Returned v \<and> v \<noteq> 0 \<longrightarrow> t = t') \<and>
    (\<forall>t. epoch_calls s t = Returned 0 \<longrightarrow> u64_max \<in> set (epoch_order s))"
  using epoch_reachable_inv [OF assms] unfolding epoch_inv_def by (metis (full_types))

section \<open>A concrete plan\<close>

definition sample_text :: MappingIntent where
  "sample_text = \<lparr>intent_range = \<lparr>range_base = 0x400000, range_size = 0x1000\<rparr>, intent_permissions = 5,
     intent_backing = \<lparr>backing_kind = file_backing, backing_file_offset = 0, backing_byte_count = 0x1000\<rparr>,
     intent_source_index = 0\<rparr>"

definition sample_data :: MappingIntent where
  "sample_data = \<lparr>intent_range = \<lparr>range_base = 0x402010, range_size = 0x100\<rparr>, intent_permissions = 3,
     intent_backing = \<lparr>backing_kind = zero_fill, backing_file_offset = 0, backing_byte_count = 0x100\<rparr>,
     intent_source_index = 1\<rparr>"

definition sample_plan_request :: ExecutionMemoryPlanRequest where
  "sample_plan_request = \<lparr>plan_mappings = [sample_text, sample_data],
     plan_stack_storage = \<lparr>range_base = 0x7000, range_size = 0x100\<rparr>, plan_entry_point = 0x400010,
     plan_stack_pointer = 0x70b0, plan_page_size = 0x1000\<rparr>"

definition sample_data_region :: ExecutionMemoryRegion where
  "sample_data_region = \<lparr>region_range = \<lparr>range_base = 0x402000, range_size = 0x1000\<rparr>, region_permissions = 3,
     region_sources = [\<lparr>source_kind = mapping_kind, source_index = 1\<rparr>]\<rparr>"

definition sample_plan :: ExecutionMemoryPlan where
  "sample_plan = \<lparr>plan_host_page_size = 0x1000, plan_regions =
     [\<lparr>region_range = \<lparr>range_base = 0x7000, range_size = 0x1000\<rparr>, region_permissions = 3,
       region_sources = [\<lparr>source_kind = initial_stack_kind, source_index = 0\<rparr>]\<rparr>,
      \<lparr>region_range = \<lparr>range_base = 0x400000, range_size = 0x1000\<rparr>, region_permissions = 5,
       region_sources = [\<lparr>source_kind = mapping_kind, source_index = 0\<rparr>]\<rparr>,
      sample_data_region]\<rparr>"

lemma sample_plan_wf: "plan_request_wf sample_plan_request"
  by (simp add: plan_request_wf_def sample_plan_request_def sample_text_def sample_data_def range_wf_def
      known_permissions_def kKnownMask_def)

lemma sample_plan_built: "build_execution_memory_plan No_exception sample_plan_request = Success sample_plan"
  by (simp add: build_execution_memory_plan_def build_plan_body_def sample_plan_request_def sample_text_def sample_data_def
      is_power_of_two_def range_empty_def to_page_span_def stack_span_def checked_from_bits_def kKnownMask_def Let_def
      build_region_def span_covers_def GuestRange_create_def check_entry_and_stack_def range_contains_def permissions_has_def
      sample_plan_def sample_data_region_def)

theorem build_execution_memory_plan_correct_witness:
  "\<not> (page_allows sample_plan_request 0x402 write_permission \<and> page_allows sample_plan_request 0x402 execute_permission)"
  using build_execution_memory_plan_correct [OF sample_plan_wf, of No_exception] sample_plan_built by blast

theorem plan_regions_exact_witness: "page_mapped sample_plan_request (0x402fff div 0x1000)"
proof -
  have "range_contains (region_range sample_data_region) 0x402fff" "sample_data_region \<in> set (plan_regions sample_plan)"
    by (simp_all add: sample_data_region_def sample_plan_def range_contains_def range_empty_def)
  then have "page_mapped sample_plan_request (0x402fff div plan_page_size sample_plan_request)"
    using plan_regions_exact [OF sample_plan_wf sample_plan_built] by blast
  then show ?thesis by (simp add: sample_plan_request_def)
qed

theorem guest_write_owned_correct_witness:
  "write_in 0x402010 8 (intent_range sample_data) \<or> write_in 0x402010 8 (plan_stack_storage sample_plan_request) \<or>
     write_in 0x402010 8 (intent_range sample_text)"
proof -
  have "guest_write_owned_by_plan sample_plan (plan_mappings sample_plan_request)
      (plan_stack_storage sample_plan_request) 0x402010 8"
    by (simp add: guest_write_owned_by_plan_def sample_plan_request_def sample_text_def sample_data_def fully_within_def
        write_intersects_def range_empty_def permissions_has_def sample_plan_def sample_data_region_def Let_def)
  then show ?thesis
    using guest_write_owned_correct [OF sample_plan_wf sample_plan_built, of "0x402010" 8]
    by (auto simp: sample_plan_request_def)
qed

theorem next_prepared_mapping_epoch_unique_witness:
  "sorted_wrt (<) (epoch_order (epoch_initial\<lparr>epoch_order := [1, 2], epoch_calls := (\<lambda>_. Not_started)(3 := Returned 1)\<rparr>))"
proof -
  let ?s1 = "epoch_initial\<lparr>epoch_calls := (epoch_calls epoch_initial)(3 := Holding 1)\<rparr>"
  have "epoch_reachable ?s1"
    by (rule epoch_intros(6) [OF epoch_intros(5)], rule epoch_step.load) (simp_all add: epoch_initial_def)
  then have "epoch_reachable (?s1\<lparr>epoch_order := epoch_order ?s1 @ [1 + 1], epoch_calls := (epoch_calls ?s1)(3 := Returned 1)\<rparr>)"
    by (rule epoch_intros(6), intro epoch_step.exchange) (simp_all add: epoch_initial_def epoch_exhausted_def)
  from next_prepared_mapping_epoch_unique [OF this] show ?thesis by (simp add: epoch_initial_def)
qed

end
