(* ===== verification/Guest_Memory.thy ===== *)
theory Guest_Memory
  imports Guest_Image Memory_Plan
begin

text \<open>
  src/execution/guest_memory.cpp: GuestMemoryAccess, the checked access of host code to guest memory.
  Guest addresses are host addresses (the backends map regions at their guest address), so the
  memory of the process is a partial map from addresses to bytes with the protection of their page;
  a copy that touches an address without the protection it needs is \<open>Undefined\<close>. The pointers of a
  GuestMemoryAccess are options, and it sees the objects they point to as they are at the call.
\<close>

section \<open>Data\<close>

datatype GuestMemoryErrorCode =
    prepared_memory_unavailable
  | guest_memory_unmapped
  | guest_memory_permission_denied
  | guest_memory_range_overflow
  | memory_host_size_unrepresentable
  | unterminated_string
  | memory_host_allocation_failure

record GuestMemoryError =
  memory_error_code :: GuestMemoryErrorCode
  memory_error_has_guest_address :: bool
  memory_error_guest_address :: u64

datatype AccessKind = read_access | write_access

record GuestMemoryAccess =
  access_image :: "GuestImage option"
  access_plan :: "ExecutionMemoryPlan option"
  access_epoch :: "u64 option"
  access_available :: bool

type_synonym process_memory = "u64 \<rightharpoonup> (u8 \<times> GuestPermissions)"

definition memory_error :: "GuestMemoryErrorCode \<Rightarrow> bool \<Rightarrow> u64 \<Rightarrow> GuestMemoryError" where
  "memory_error code has_guest_address guest_address =
     \<lparr>memory_error_code = code, memory_error_has_guest_address = has_guest_address,
      memory_error_guest_address = guest_address\<rparr>"

section \<open>Validation\<close>

definition access_permission :: "AccessKind \<Rightarrow> GuestPermission" where
  "access_permission kind = (if kind = write_access then write_permission else read_permission)"

definition mapping_allows :: "MappingIntent \<Rightarrow> AccessKind \<Rightarrow> bool" where
  "mapping_allows mapping kind = permissions_has (intent_permissions mapping) (access_permission kind)"

text \<open>The loop over the mappings: the best coverage and whether a covering mapping lacks the permission.\<close>

primrec mappings_coverage :: "AccessKind \<Rightarrow> u64 \<Rightarrow> MappingIntent list \<Rightarrow> u64 \<Rightarrow> bool \<Rightarrow> u64 \<times> bool" where
  "mappings_coverage kind cursor [] best_coverage denied = (best_coverage, denied)"
| "mappings_coverage kind cursor (mapping # rest) best_coverage denied =
     (if \<not> range_contains (intent_range mapping) cursor then mappings_coverage kind cursor rest best_coverage denied
      else if \<not> mapping_allows mapping kind then mappings_coverage kind cursor rest best_coverage True
      else let offset = cursor - range_base (intent_range mapping);
               available = range_size (intent_range mapping) - offset in
        mappings_coverage kind cursor rest (max best_coverage available) denied)"

definition stack_coverage :: "GuestRange \<Rightarrow> u64 \<Rightarrow> u64 \<Rightarrow> u64" where
  "stack_coverage storage cursor best_coverage =
     (if range_contains storage cursor
      then max best_coverage (range_size storage - (cursor - range_base storage)) else best_coverage)"

primrec regions_coverage :: "AccessKind \<Rightarrow> u64 \<Rightarrow> ExecutionMemoryRegion list \<Rightarrow> u64 \<Rightarrow> bool \<Rightarrow> u64 \<times> bool" where
  "regions_coverage kind cursor [] prepared_coverage denied = (prepared_coverage, denied)"
| "regions_coverage kind cursor (region # rest) prepared_coverage denied =
     (if \<not> range_contains (region_range region) cursor then regions_coverage kind cursor rest prepared_coverage denied
      else if \<not> permissions_has (region_permissions region) (access_permission kind)
      then regions_coverage kind cursor rest prepared_coverage True
      else let offset = cursor - range_base (region_range region) in
        regions_coverage kind cursor rest (max prepared_coverage (range_size (region_range region) - offset)) denied)"

text \<open>One iteration of the validation loop up to the size of its chunk.\<close>

definition validate_chunk ::
  "GuestImage \<Rightarrow> ExecutionMemoryPlan \<Rightarrow> AccessKind \<Rightarrow> u64 \<Rightarrow> u64 \<Rightarrow> (u64, GuestMemoryError) Result" where
  "validate_chunk gi plan kind cursor remaining =
     (case mappings_coverage kind cursor (guest_mappings gi) 0 False of (mapped_coverage, denied) \<Rightarrow>
      let best_coverage = stack_coverage (stack_storage (guest_initial_stack gi)) cursor mapped_coverage in
      if best_coverage = 0
      then Failure (memory_error (if denied then guest_memory_permission_denied else guest_memory_unmapped) True cursor)
      else case regions_coverage kind cursor (plan_regions plan) 0 False of (prepared_coverage, prepared_denied) \<Rightarrow>
      if prepared_coverage = 0
      then Failure (memory_error (if prepared_denied then guest_memory_permission_denied else prepared_memory_unavailable)
             True cursor)
      else Success (min remaining (min best_coverage prepared_coverage)))"

lemma validate_chunk_bounds:
  "validate_chunk gi plan kind cursor remaining = Success chunk \<Longrightarrow> remaining \<noteq> 0 \<Longrightarrow> chunk \<noteq> 0 \<and> chunk \<le> remaining"
  by (auto simp: validate_chunk_def Let_def min_def split: prod.splits if_splits)

function validate_loop ::
  "GuestImage \<Rightarrow> ExecutionMemoryPlan \<Rightarrow> AccessKind \<Rightarrow> u64 \<Rightarrow> u64 \<Rightarrow> (unit, GuestMemoryError) Result" where
  "validate_loop gi plan kind cursor remaining =
     (if remaining = 0 then Success ()
      else case validate_chunk gi plan kind cursor remaining of
          Failure e \<Rightarrow> Failure e
        | Undefined \<Rightarrow> Undefined
        | Success chunk \<Rightarrow>
            (if remaining - chunk = 0 then Success ()
             else if cursor > u64_max - chunk then Failure (memory_error guest_memory_range_overflow True cursor)
             else validate_loop gi plan kind (cursor + chunk) (remaining - chunk)))"
  by pat_completeness auto
termination
  by (relation "measure (\<lambda>(gi, plan, kind, cursor, remaining). unat remaining)")
    (auto dest!: validate_chunk_bounds simp: word_le_nat_alt unat_sub_if' unat_gt_0)

declare validate_loop.simps [simp del]

text \<open>The two constexpr branches for hosts whose pointer or size type has another width are not compiled.\<close>

definition validate_access :: "GuestMemoryAccess \<Rightarrow> GuestAddress \<Rightarrow> u64 \<Rightarrow> AccessKind \<Rightarrow> (u64, GuestMemoryError) Result" where
  "validate_access access address byte_count kind =
     (case (access_image access, access_plan access) of
        (Some gi, Some plan) \<Rightarrow>
          if \<not> access_available access then Failure (memory_error prepared_memory_unavailable False 0)
          else if byte_count = 0 then Success 0
          else if address > u64_max - (byte_count - 1)
          then Failure (memory_error guest_memory_range_overflow True address)
          else with_value (validate_loop gi plan kind address byte_count) (\<lambda>_. Success byte_count)
      | _ \<Rightarrow> Failure (memory_error prepared_memory_unavailable False 0))"

section \<open>Copies\<close>

text \<open>std::memcpy from and to guest memory.\<close>

primrec copy_from :: "process_memory \<Rightarrow> u64 \<Rightarrow> nat \<Rightarrow> (u8 list, GuestMemoryError) Result" where
  "copy_from mem address 0 = Success []"
| "copy_from mem address (Suc n) = (case mem address of
       Some (byte, protection) \<Rightarrow>
         if permissions_has protection read_permission
         then map_value ((#) byte) (copy_from mem (address + 1) n) else Undefined
     | None \<Rightarrow> Undefined)"

primrec copy_to :: "process_memory \<Rightarrow> u64 \<Rightarrow> u8 list \<Rightarrow> (process_memory, 'e) Result" where
  "copy_to mem address [] = Success mem"
| "copy_to mem address (b # bs) = (case mem address of
       Some (old, protection) \<Rightarrow>
         if permissions_has protection write_permission
         then copy_to (mem(address \<mapsto> (b, protection))) (address + 1) bs else Undefined
     | None \<Rightarrow> Undefined)"

text \<open>
  read fills the span it is given; the model returns the bytes it writes there, none when it fails.
  write returns the memory it leaves.
\<close>

definition guest_read ::
  "GuestMemoryAccess \<Rightarrow> process_memory \<Rightarrow> GuestAddress \<Rightarrow> u64 \<Rightarrow> (u8 list, GuestMemoryError) Result" where
  "guest_read access mem address output_size =
     with_value (validate_access access address output_size read_access) (\<lambda>_.
     if output_size = 0 then Success [] else copy_from mem address (unat output_size))"

definition guest_write ::
  "GuestMemoryAccess \<Rightarrow> process_memory \<Rightarrow> GuestAddress \<Rightarrow> u8 list \<Rightarrow> (process_memory, GuestMemoryError) Result" where
  "guest_write access mem address input =
     with_value (validate_access access address (of_nat (length input)) write_access) (\<lambda>_.
     if input = [] then Success mem else copy_to mem address input)"

definition preflight_write :: "GuestMemoryAccess \<Rightarrow> GuestAddress \<Rightarrow> u64 \<Rightarrow> (u64, GuestMemoryError) Result" where
  "preflight_write access address byte_count = validate_access access address byte_count write_access"

text \<open>read_c_string: the loop over at most max_bytes bytes; \<open>start\<close> is the address the call was given.\<close>

primrec c_string_loop ::
  "GuestMemoryAccess \<Rightarrow> process_memory \<Rightarrow> u64 \<Rightarrow> u64 \<Rightarrow> nat \<Rightarrow> u8 list \<Rightarrow> (u8 list, GuestMemoryError) Result" where
  "c_string_loop access mem start cursor 0 acc = Failure (memory_error unterminated_string True start)"
| "c_string_loop access mem start cursor (Suc n) acc =
     with_value (guest_read access mem cursor 1) (\<lambda>bytes.
     case bytes of [] \<Rightarrow> Undefined
     | value # _ \<Rightarrow>
         if value = 0 then Success acc
         else and_then (GuestAddress_checked_add cursor 1)
           (\<lambda>_. memory_error guest_memory_range_overflow True cursor)
           (\<lambda>next. c_string_loop access mem start next n (acc @ [value])))"

text \<open>\<open>max_size\<close> and \<open>alloc\<close> are the limit and the outcome of the string's reserve.\<close>

definition read_c_string ::
  "nat \<Rightarrow> host_allocator \<Rightarrow> GuestMemoryAccess \<Rightarrow> process_memory \<Rightarrow> GuestAddress \<Rightarrow> u64 \<Rightarrow> (u8 list, GuestMemoryError) Result" where
  "read_c_string max_size alloc access mem address max_bytes =
     (if unat max_bytes > max_size then Failure (memory_error memory_host_size_unrepresentable True address)
      else case alloc (unat max_bytes) of
          Bad_alloc \<Rightarrow> Failure (memory_error memory_host_allocation_failure True address)
        | Length_error \<Rightarrow> Failure (memory_error memory_host_size_unrepresentable True address)
        | No_exception \<Rightarrow> c_string_loop access mem address address (unat max_bytes) [])"

section \<open>Instruction fetch and epochs\<close>

primrec mappings_execute :: "GuestAddress \<Rightarrow> MappingIntent list \<Rightarrow> bool" where
  "mappings_execute address [] = False"
| "mappings_execute address (mapping # rest) =
     (if permissions_has (intent_permissions mapping) execute_permission \<and> range_contains (intent_range mapping) address
      then True else mappings_execute address rest)"

primrec regions_execute :: "GuestAddress \<Rightarrow> ExecutionMemoryRegion list \<Rightarrow> bool" where
  "regions_execute address [] = False"
| "regions_execute address (region # rest) =
     (if permissions_has (region_permissions region) execute_permission \<and> range_contains (region_range region) address
      then True else regions_execute address rest)"

definition is_exact_executable_address :: "GuestMemoryAccess \<Rightarrow> GuestAddress \<Rightarrow> bool" where
  "is_exact_executable_address access address =
     (case (access_image access, access_plan access) of
        (Some gi, Some plan) \<Rightarrow>
          if \<not> access_available access then False
          else if \<not> mappings_execute address (guest_mappings gi) then False
          else regions_execute address (plan_regions plan)
      | _ \<Rightarrow> False)"

definition current_mapping_epoch :: "GuestMemoryAccess \<Rightarrow> u64" where
  "current_mapping_epoch access =
     (case (access_image access, access_plan access, access_epoch access) of
        (Some gi, Some plan, Some epoch) \<Rightarrow>
          if access_available access \<and> plan_regions plan \<noteq> [] then epoch else 0
      | _ \<Rightarrow> 0)"

section \<open>Coverage\<close>

text \<open>
  The two coverage loops scan a list of ranges with permissions: the result is the largest number of
  bytes from the cursor that one permitted range holds, and whether a range without the permission
  holds the cursor.
\<close>

locale coverage_scan =
  fixes rng :: "'a \<Rightarrow> GuestRange" and allows :: "'a \<Rightarrow> bool"
    and scan :: "u64 \<Rightarrow> 'a list \<Rightarrow> u64 \<Rightarrow> bool \<Rightarrow> u64 \<times> bool"
  assumes scan_Nil: "scan cursor [] best denied = (best, denied)"
    and scan_Cons: "scan cursor (x # xs) best denied =
      (if \<not> range_contains (rng x) cursor then scan cursor xs best denied
       else if \<not> allows x then scan cursor xs best True
       else scan cursor xs (max best (range_size (rng x) - (cursor - range_base (rng x)))) denied)"
begin

definition covered :: "'a list \<Rightarrow> u64 \<Rightarrow> bool" where
  "covered xs a \<longleftrightarrow> (\<exists>x \<in> set xs. range_contains (rng x) a \<and> allows x)"

definition forbidden :: "'a list \<Rightarrow> u64 \<Rightarrow> bool" where
  "forbidden xs a \<longleftrightarrow> (\<exists>x \<in> set xs. range_contains (rng x) a \<and> \<not> allows x)"

lemma unat_available:
  "range_contains r a \<Longrightarrow> unat (range_size r - (a - range_base r)) = unat (range_base r) + unat (range_size r) - unat a"
  by (auto simp: range_contains_iff unat_sub_if' word_le_nat_alt)

lemma snd_scan: "snd (scan cursor xs best denied) \<longleftrightarrow> denied \<or> forbidden xs cursor"
  by (induction xs arbitrary: best denied) (auto simp: scan_Nil scan_Cons forbidden_def)

lemma fst_scan_zero: "fst (scan cursor xs best denied) = 0 \<longleftrightarrow> best = 0 \<and> \<not> covered xs cursor"
proof (induction xs arbitrary: best denied)
  case (Cons x xs)
  have "range_size (rng x) - (cursor - range_base (rng x)) \<noteq> 0" if "range_contains (rng x) cursor"
    using unat_available [OF that] that by (auto simp: range_contains_iff)
  then show ?case using Cons by (auto simp: scan_Cons covered_def max_def)
qed (simp add: scan_Nil covered_def)

lemma fst_scan_cases:
  "fst (scan cursor xs best denied) = best \<or>
   (\<exists>x \<in> set xs. range_contains (rng x) cursor \<and> allows x \<and>
      fst (scan cursor xs best denied) = range_size (rng x) - (cursor - range_base (rng x)))"
proof (induction xs arbitrary: best denied)
  case (Cons x xs)
  show ?case
    using Cons.IH [of best denied] Cons.IH [of best True]
      Cons.IH [of "max best (range_size (rng x) - (cursor - range_base (rng x)))" denied]
    by (auto simp: scan_Cons max_def split: if_splits)
qed (simp add: scan_Nil)

text \<open>Every byte within the coverage is held by a permitted range.\<close>

lemma scan_covers:
  assumes "\<forall>x \<in> set xs. range_wf (rng x)" and "fst (scan cursor xs 0 denied) = best" and "i < unat best"
  shows "unat cursor + i < 2 ^ 64 \<and> covered xs (cursor + of_nat i)"
proof -
  have "best \<noteq> 0" using assms(3) by auto
  then obtain x where x: "x \<in> set xs" "range_contains (rng x) cursor" "allows x"
    "best = range_size (rng x) - (cursor - range_base (rng x))"
    using fst_scan_cases [of cursor xs 0 denied] assms(2) by auto
  have lim: "unat cursor + i < unat (range_base (rng x)) + unat (range_size (rng x))"
    using unat_available [OF x(2)] assms(3) x(4) by simp
  moreover have wf: "unat (range_base (rng x)) + unat (range_size (rng x)) \<le> 2 ^ 64"
    using assms(1) x(1) by (auto simp: range_wf_def)
  ultimately have bound: "unat cursor + i < 2 ^ 64" by linarith
  then have "unat (of_nat i :: u64) = i" by (simp add: unat_of_nat)
  then have "unat (cursor + of_nat i) = unat cursor + i" using bound by (subst unat_add_no_wrap) simp_all
  then have "range_contains (rng x) (cursor + of_nat i)"
    using x(2) lim by (simp add: range_contains_iff)
  with x(1,3) bound show ?thesis by (auto simp: covered_def)
qed

end

interpretation mapping_scan: coverage_scan intent_range "\<lambda>m. mapping_allows m kind" "mappings_coverage kind" for kind
  by unfold_locales (simp_all add: Let_def)

interpretation region_scan: coverage_scan region_range "\<lambda>r. permissions_has (region_permissions r) (access_permission kind)"
    "regions_coverage kind" for kind
  by unfold_locales (simp_all add: Let_def)

section \<open>Bytewise meaning of validation\<close>

definition guest_allows :: "GuestImage \<Rightarrow> AccessKind \<Rightarrow> u64 \<Rightarrow> bool" where
  "guest_allows gi kind a \<longleftrightarrow>
     (\<exists>m \<in> set (guest_mappings gi). range_contains (intent_range m) a \<and> permissions_has (intent_permissions m) (access_permission kind)) \<or>
     range_contains (stack_storage (guest_initial_stack gi)) a"

definition plan_allows :: "ExecutionMemoryPlan \<Rightarrow> AccessKind \<Rightarrow> u64 \<Rightarrow> bool" where
  "plan_allows plan kind a \<longleftrightarrow>
     (\<exists>r \<in> set (plan_regions plan). range_contains (region_range r) a \<and> permissions_has (region_permissions r) (access_permission kind))"

definition byte_allowed :: "GuestImage \<Rightarrow> ExecutionMemoryPlan \<Rightarrow> AccessKind \<Rightarrow> u64 \<Rightarrow> bool" where
  "byte_allowed gi plan kind a \<longleftrightarrow> guest_allows gi kind a \<and> plan_allows plan kind a"

text \<open>The error for a byte that is not allowed.\<close>

definition byte_error :: "GuestImage \<Rightarrow> ExecutionMemoryPlan \<Rightarrow> AccessKind \<Rightarrow> u64 \<Rightarrow> GuestMemoryError" where
  "byte_error gi plan kind a = memory_error
     (if \<not> guest_allows gi kind a
      then (if \<exists>m \<in> set (guest_mappings gi). range_contains (intent_range m) a
            then guest_memory_permission_denied else guest_memory_unmapped)
      else if \<exists>r \<in> set (plan_regions plan). range_contains (region_range r) a
      then guest_memory_permission_denied else prepared_memory_unavailable) True a"

definition ranges_wf :: "GuestImage \<Rightarrow> ExecutionMemoryPlan \<Rightarrow> bool" where
  "ranges_wf gi plan \<longleftrightarrow> (\<forall>m \<in> set (guest_mappings gi). range_wf (intent_range m)) \<and>
     range_wf (stack_storage (guest_initial_stack gi)) \<and> (\<forall>r \<in> set (plan_regions plan). range_wf (region_range r))"

lemma stack_coverage_zero: "stack_coverage storage c best = 0 \<longleftrightarrow> best = 0 \<and> \<not> range_contains storage c"
proof -
  have "range_size storage - (c - range_base storage) \<noteq> 0" if "range_contains storage c"
    using mapping_scan.unat_available [OF that] that by (auto simp: range_contains_iff)
  then show ?thesis by (auto simp: stack_coverage_def max_def)
qed

lemma mapping_covered: "mapping_scan.covered kind ms a \<longleftrightarrow>
    (\<exists>m \<in> set ms. range_contains (intent_range m) a \<and> permissions_has (intent_permissions m) (access_permission kind))"
  unfolding mapping_scan.covered_def by (simp add: mapping_allows_def)

lemma region_covered: "region_scan.covered kind (plan_regions plan) a \<longleftrightarrow> plan_allows plan kind a"
  by (simp add: region_scan.covered_def plan_allows_def)

lemma validate_chunk_eq:
  "validate_chunk gi plan kind c remaining =
     (if byte_allowed gi plan kind c
      then Success (min remaining (min
        (stack_coverage (stack_storage (guest_initial_stack gi)) c (fst (mappings_coverage kind c (guest_mappings gi) 0 False)))
        (fst (regions_coverage kind c (plan_regions plan) 0 False))))
      else Failure (byte_error gi plan kind c))"
proof -
  have best: "stack_coverage (stack_storage (guest_initial_stack gi)) c (fst (mappings_coverage kind c (guest_mappings gi) 0 False)) = 0
      \<longleftrightarrow> \<not> guest_allows gi kind c"
    by (auto simp: stack_coverage_zero mapping_scan.fst_scan_zero mapping_covered guest_allows_def)
  have prep: "fst (regions_coverage kind c (plan_regions plan) 0 False) = 0 \<longleftrightarrow> \<not> plan_allows plan kind c"
    by (simp add: region_scan.fst_scan_zero region_covered)
  have denied: "snd (mappings_coverage kind c (guest_mappings gi) 0 False) \<longleftrightarrow>
      (\<exists>m \<in> set (guest_mappings gi). range_contains (intent_range m) c)" if "\<not> guest_allows gi kind c"
    using that unfolding mapping_scan.snd_scan mapping_scan.forbidden_def
    by (auto simp: mapping_allows_def guest_allows_def)
  have denied': "snd (regions_coverage kind c (plan_regions plan) 0 False) \<longleftrightarrow>
      (\<exists>r \<in> set (plan_regions plan). range_contains (region_range r) c)" if "\<not> plan_allows plan kind c"
    using that by (auto simp: region_scan.snd_scan region_scan.forbidden_def plan_allows_def)
  show ?thesis
    using best prep denied denied'
    by (simp add: validate_chunk_def Let_def split_beta byte_allowed_def byte_error_def)
qed

lemma validate_chunk_covers:
  assumes "ranges_wf gi plan" and "validate_chunk gi plan kind c remaining = Success chunk" and "i < unat chunk"
  shows "unat c + i < 2 ^ 64 \<and> byte_allowed gi plan kind (c + of_nat i)"
proof -
  let ?m = "fst (mappings_coverage kind c (guest_mappings gi) 0 False)"
  let ?r = "fst (regions_coverage kind c (plan_regions plan) 0 False)"
  let ?st = "stack_storage (guest_initial_stack gi)"
  have "chunk = min remaining (min (stack_coverage ?st c ?m) ?r)"
    using assms(2) by (simp add: validate_chunk_eq split: if_splits)
  then have le: "chunk \<le> stack_coverage ?st c ?m" "chunk \<le> ?r" by (simp_all add: min_def split: if_splits)
  have "i < unat ?r" using le(2) assms(3) by (simp add: word_le_nat_alt)
  then have plan: "unat c + i < 2 ^ 64" "plan_allows plan kind (c + of_nat i)"
    using region_scan.scan_covers [OF _ refl, of "plan_regions plan" i kind c False] assms(1)
    unfolding ranges_wf_def region_covered by blast+
  have "i < unat (stack_coverage ?st c ?m)" using le(1) assms(3) by (simp add: word_le_nat_alt)
  then consider "i < unat ?m" | "range_contains ?st c" "i < unat (range_size ?st - (c - range_base ?st))"
    by (auto simp: stack_coverage_def max_def split: if_splits)
  then have "guest_allows gi kind (c + of_nat i)"
  proof cases
    case 1
    then show ?thesis
      using mapping_scan.scan_covers [OF _ refl 1] assms(1) unfolding ranges_wf_def mapping_covered guest_allows_def by blast
  next
    case 2
    have "unat (of_nat i :: u64) = i" using plan(1) by (simp add: unat_of_nat)
    then have "unat (c + of_nat i) = unat c + i" using plan(1) by (subst unat_add_no_wrap) simp_all
    then show ?thesis
      using 2 mapping_scan.unat_available [OF 2(1)] by (auto simp: guest_allows_def range_contains_iff)
  qed
  with plan show ?thesis by (simp add: byte_allowed_def)
qed

lemma u64_offset: "unat (c :: u64) + i < 2 ^ 64 \<Longrightarrow> unat (c + of_nat i) = unat c + i"
  by (subst unat_add_no_wrap) (simp_all add: unat_of_nat)

text \<open>The first of the n bytes from an address that the access may not touch.\<close>

definition first_refused :: "GuestImage \<Rightarrow> ExecutionMemoryPlan \<Rightarrow> AccessKind \<Rightarrow> u64 \<Rightarrow> nat \<Rightarrow> nat option" where
  "first_refused gi plan kind c n = List.find (\<lambda>i. \<not> byte_allowed gi plan kind (c + of_nat i)) [0..<n]"

lemma find_map_Suc: "List.find P (map Suc xs) = map_option Suc (List.find (\<lambda>i. P (Suc i)) xs)"
  by (induction xs) auto

lemma find_skip:
  "\<forall>i < k. \<not> P i \<Longrightarrow> List.find P [0..<k + m] = map_option ((+) k) (List.find (\<lambda>i. P (k + i)) [0..<m])"
proof (induction k arbitrary: P)
  case 0
  then show ?case by (simp add: option.map_ident)
next
  case (Suc k)
  have "[0..<Suc k + m] = 0 # map Suc [0..<k + m]" by (simp add: upt_conv_Cons map_Suc_upt del: upt_Suc)
  then have "List.find P [0..<Suc k + m] = map_option Suc (List.find (\<lambda>i. P (Suc i)) [0..<k + m])"
    using Suc.prems by (simp add: find_map_Suc)
  also have "\<dots> = map_option (\<lambda>x. Suc k + x) (List.find (\<lambda>i. P (Suc k + i)) [0..<m])"
    using Suc.IH [of "\<lambda>i. P (Suc i)"] Suc.prems by (simp add: option.map_comp comp_def)
  finally show ?case .
qed

lemma find_from_zero: "P 0 \<Longrightarrow> 0 < n \<Longrightarrow> List.find P [0..<n] = Some 0"
  by (simp add: upt_conv_Cons)

lemma first_refused_None: "first_refused gi plan kind c n = None \<longleftrightarrow> (\<forall>i < n. byte_allowed gi plan kind (c + of_nat i))"
  by (auto simp: first_refused_def find_None_iff)

lemma validate_loop_spec:
  assumes "ranges_wf gi plan" and "unat c + unat n \<le> 2 ^ 64"
  shows "validate_loop gi plan kind c n = (case first_refused gi plan kind c (unat n) of
      None \<Rightarrow> Success () | Some i \<Rightarrow> Failure (byte_error gi plan kind (c + of_nat i)))"
  using assms(2)
proof (induction "unat n" arbitrary: c n rule: less_induct)
  case less
  show ?case
  proof (cases "validate_chunk gi plan kind c n")
    case (Failure e)
    then have "\<not> byte_allowed gi plan kind c" "e = byte_error gi plan kind c"
      by (simp_all add: validate_chunk_eq split: if_splits)
    moreover from this(1) have "n \<noteq> 0 \<Longrightarrow> first_refused gi plan kind c (unat n) = Some 0"
      unfolding first_refused_def by (intro find_from_zero) (simp_all add: unat_gt_0)
    ultimately show ?thesis using Failure by (subst validate_loop.simps) (auto simp: first_refused_def)
  next
    case (Success chunk)
    then have ok: "\<forall>i < unat chunk. byte_allowed gi plan kind (c + of_nat i)"
      using validate_chunk_covers [OF assms(1)] by blast
    consider "n = 0" | "n \<noteq> 0" "n = chunk" | "n \<noteq> 0" "n \<noteq> chunk" by blast
    then show ?thesis
    proof cases
      case 3
      note bounds = validate_chunk_bounds [OF Success 3(1)]
      have "unat chunk \<noteq> unat n" using 3(2) word_unat_eq_iff by metis
      then have lt: "unat chunk < unat n" "0 < unat chunk" using bounds by (simp_all add: unat_gt_0 word_le_nat_alt)
      have rest: "unat (n - chunk) = unat n - unat chunk" using bounds by (simp add: unat_sub_if' word_le_nat_alt)
      have no: "\<not> c > u64_max - chunk" unfolding gt_max_minus_iff using less.prems lt by linarith
      have cc: "unat (c + chunk) = unat c + unat chunk" using less.prems lt by (intro unat_add_no_wrap) linarith
      have step: "validate_loop gi plan kind c n = validate_loop gi plan kind (c + chunk) (n - chunk)"
        using 3 Success no by (subst validate_loop.simps) simp
      have "first_refused gi plan kind c (unat n) =
          map_option ((+) (unat chunk)) (first_refused gi plan kind (c + chunk) (unat n - unat chunk))"
        using find_skip [of "unat chunk" "\<lambda>i. \<not> byte_allowed gi plan kind (c + of_nat i)" "unat n - unat chunk"] ok lt
        by (simp add: first_refused_def add.assoc)
      then show ?thesis
        using less.hyps [of "n - chunk" "c + chunk"] lt rest cc less.prems
        by (simp add: step add.assoc split: option.split)
    next
      case 2
      then have "first_refused gi plan kind c (unat n) = None" using ok by (simp add: first_refused_None)
      with 2 Success show ?thesis by (subst validate_loop.simps) simp
    qed (subst validate_loop.simps, simp add: first_refused_def)
  qed (simp add: validate_chunk_eq split: if_splits)
qed

lemma validate_access_spec:
  assumes "access_image access = Some gi" and "access_plan access = Some plan" and "access_available access"
    and "ranges_wf gi plan"
  shows "validate_access access a n kind =
    (if n = 0 then Success 0
     else if 2 ^ 64 < unat a + unat n then Failure (memory_error guest_memory_range_overflow True a)
     else case first_refused gi plan kind a (unat n) of
         None \<Rightarrow> Success n
       | Some i \<Rightarrow> Failure (byte_error gi plan kind (a + of_nat i)))"
proof (cases "n = 0")
  case False
  then have "0 < n" by (simp add: word_neq_0_conv)
  then have guard: "a > u64_max - (n - 1) \<longleftrightarrow> 2 ^ 64 < unat a + unat n" using create_guard_iff [of n a] by blast
  show ?thesis
    using False assms(1-3) validate_loop_spec [OF assms(4), of a n kind]
    unfolding validate_access_def guard by (auto split: option.split)
qed (use assms in \<open>simp add: validate_access_def\<close>)

lemma validate_access_defined: "ranges_wf gi plan \<Longrightarrow> access_image access = Some gi \<Longrightarrow> access_plan access = Some plan \<Longrightarrow>
    validate_access access a n kind \<noteq> Undefined"
  using validate_access_spec [of access gi plan a n kind]
  by (cases "access_available access") (auto simp: validate_access_def split: option.split)

section \<open>Copies of validated ranges\<close>

text \<open>The process memory realises a plan: each region is present with its permissions.\<close>

definition backs :: "process_memory \<Rightarrow> ExecutionMemoryPlan \<Rightarrow> bool" where
  "backs mem plan \<longleftrightarrow> (\<forall>r \<in> set (plan_regions plan). \<forall>a. range_contains (region_range r) a \<longrightarrow>
     (\<exists>b. mem a = Some (b, region_permissions r)))"

lemma backs_allowed:
  "backs mem plan \<Longrightarrow> plan_allows plan kind a \<Longrightarrow> \<exists>b p. mem a = Some (b, p) \<and> permissions_has p (access_permission kind)"
  unfolding backs_def plan_allows_def by blast

lemma copy_from_eq:
  "\<forall>i < n. \<exists>b p. mem (a + of_nat i) = Some (b, p) \<and> permissions_has p read_permission \<Longrightarrow>
     copy_from mem a n = Success (map (\<lambda>i. fst (the (mem (a + of_nat i)))) [0..<n])"
proof (induction n arbitrary: a)
  case (Suc n)
  obtain b p where a: "mem a = Some (b, p)" "permissions_has p read_permission" using Suc.prems by force
  have "\<exists>b p. mem (a + 1 + of_nat i) = Some (b, p) \<and> permissions_has p read_permission" if "i < n" for i
    using Suc.prems [rule_format, of "Suc i"] that by (simp add: add.assoc)
  then have "copy_from mem (a + 1) n = Success (map (\<lambda>i. fst (the (mem (a + 1 + of_nat i)))) [0..<n])"
    by (intro Suc.IH) blast
  with a show ?case
    by (simp add: upt_conv_Cons map_Suc_upt [symmetric] add.assoc comp_def del: upt_Suc)
qed simp

definition write_bytes :: "process_memory \<Rightarrow> u64 \<Rightarrow> u8 list \<Rightarrow> process_memory" where
  "write_bytes mem a bs = (\<lambda>x. if unat a \<le> unat x \<and> unat x < unat a + length bs
     then map_option (\<lambda>(_, p). (bs ! (unat x - unat a), p)) (mem x) else mem x)"

lemma write_bytes_Nil [simp]: "write_bytes mem a [] = mem"
  by (auto simp: write_bytes_def fun_eq_iff)

lemma copy_to_eq:
  "\<forall>i < length bs. \<exists>b p. mem (a + of_nat i) = Some (b, p) \<and> permissions_has p write_permission \<Longrightarrow>
     unat a + length bs \<le> 2 ^ 64 \<Longrightarrow> copy_to mem a bs = (Success (write_bytes mem a bs) :: (process_memory, 'e) Result)"
proof (induction bs arbitrary: mem a)
  case Nil
  then show ?case by simp
next
  case (Cons b bs)
  obtain old p where a: "mem a = Some (old, p)" "permissions_has p write_permission" using Cons.prems(1) by force
  let ?mem = "mem(a \<mapsto> (b, p))"
  have "copy_to ?mem (a + 1) bs = (Success (write_bytes ?mem (a + 1) bs) :: (process_memory, 'e) Result) \<and>
      write_bytes ?mem (a + 1) bs = write_bytes mem a (b # bs)"
  proof (cases "bs = []")
    case True
    then show ?thesis using a
      by (auto simp: write_bytes_def fun_eq_iff le_less_Suc_eq word_unat_eq_iff [symmetric])
  next
    case False
    then have a1: "unat (a + 1) = unat a + 1" using Cons.prems(2) by (subst unat_add_no_wrap) (auto simp: neq_Nil_conv)
    have "?mem (a + 1 + of_nat i) = mem (a + of_nat (Suc i))" if "i < length bs" for i
    proof -
      have "unat (a + of_nat (Suc i)) = unat a + Suc i" using that Cons.prems(2) by (intro u64_offset) simp
      then have "a + of_nat (Suc i) \<noteq> a" by (metis add_eq_self_zero nat.distinct(1))
      moreover have "a + 1 + of_nat i = a + of_nat (Suc i)" by simp
      ultimately show ?thesis by (simp only: fun_upd_other not_False_eq_True)
    qed
    then have "\<forall>i < length bs. \<exists>b p. ?mem (a + 1 + of_nat i) = Some (b, p) \<and> permissions_has p write_permission"
      using Cons.prems(1) by (metis Suc_less_eq length_Cons)
    then have "copy_to ?mem (a + 1) bs = (Success (write_bytes ?mem (a + 1) bs) :: (process_memory, 'e) Result)"
      using Cons.prems(2) a1 by (intro Cons.IH) (assumption, simp)
    moreover have "write_bytes ?mem (a + 1) bs x = write_bytes mem a (b # bs) x" for x
      using a word_unat_eq_iff [of x a] by (cases "x = a") (auto simp: write_bytes_def a1 nth_Cons')
    then have "write_bytes ?mem (a + 1) bs = write_bytes mem a (b # bs)" by (rule ext)
    ultimately show ?thesis by blast
  qed
  with a show ?case by simp
qed

lemma write_bytes_at:
  "i < length bs \<Longrightarrow> unat a + length bs \<le> 2 ^ 64 \<Longrightarrow> mem (a + of_nat i) = Some (b, p) \<Longrightarrow>
     write_bytes mem a bs (a + of_nat i) = Some (bs ! i, p)"
  using u64_offset [of a i] by (simp add: write_bytes_def)

lemma backs_write_bytes: "backs mem plan \<Longrightarrow> backs (write_bytes mem a bs) plan"
  unfolding backs_def write_bytes_def by (metis (mono_tags, lifting) case_prod_conv option.simps(9))

text \<open>An access object over an image, a plan and live prepared memory.\<close>

definition access_ready :: "GuestMemoryAccess \<Rightarrow> GuestImage \<Rightarrow> ExecutionMemoryPlan \<Rightarrow> bool" where
  "access_ready access gi plan \<longleftrightarrow> access_image access = Some gi \<and> access_plan access = Some plan \<and>
     access_available access \<and> ranges_wf gi plan"

lemma validate_ready:
  "access_ready access gi plan \<Longrightarrow> validate_access access a n kind =
    (if n = 0 then Success 0
     else if 2 ^ 64 < unat a + unat n then Failure (memory_error guest_memory_range_overflow True a)
     else case first_refused gi plan kind a (unat n) of
         None \<Rightarrow> Success n
       | Some i \<Rightarrow> Failure (byte_error gi plan kind (a + of_nat i)))"
  unfolding access_ready_def by (rule validate_access_spec) simp_all

lemma validate_ready_defined: "access_ready access gi plan \<Longrightarrow> validate_access access a n kind \<noteq> Undefined"
  by (simp add: validate_ready split: option.split)

lemma validate_Success:
  "access_ready access gi plan \<Longrightarrow> validate_access access a n kind = Success k \<longleftrightarrow> k = n \<and>
     (n = 0 \<or> unat a + unat n \<le> 2 ^ 64 \<and> (\<forall>i < unat n. byte_allowed gi plan kind (a + of_nat i)))"
  unfolding first_refused_None [symmetric] by (auto simp: validate_ready split: option.split)

lemma read_Success:
  assumes ready: "access_ready access gi plan" and mem: "backs mem plan" and "validate_access access a n read_access = Success n"
  shows "guest_read access mem a n = Success (map (\<lambda>i. fst (the (mem (a + of_nat i)))) [0..<unat n])"
proof -
  have "\<exists>b p. mem (a + of_nat i) = Some (b, p) \<and> permissions_has p read_permission" if "i < unat n" for i
    using assms(3) that backs_allowed [OF mem, of read_access "a + of_nat i"]
    by (auto simp: validate_Success [OF ready] byte_allowed_def access_permission_def)
  then show ?thesis using assms(3) copy_from_eq [of "unat n" mem a] by (auto simp: guest_read_def)
qed

lemma read_Success_iff:
  assumes ready: "access_ready access gi plan" and mem: "backs mem plan"
  shows "guest_read access mem a n = Success bs \<longleftrightarrow> validate_access access a n read_access = Success n \<and>
    bs = map (\<lambda>i. fst (the (mem (a + of_nat i)))) [0..<unat n]"
proof (cases "validate_access access a n read_access")
  case (Success k)
  then have "validate_access access a n read_access = Success n" by (simp add: validate_Success [OF ready])
  from read_Success [OF ready mem this] this show ?thesis by auto
qed (simp_all add: guest_read_def)

lemma read_defined:
  assumes ready: "access_ready access gi plan" and mem: "backs mem plan"
  shows "guest_read access mem a n \<noteq> Undefined"
proof (cases "validate_access access a n read_access")
  case (Success k)
  then have "validate_access access a n read_access = Success n" by (simp add: validate_Success [OF ready])
  from read_Success [OF ready mem this] show ?thesis by simp
qed (use validate_ready_defined [OF ready] in \<open>auto simp: guest_read_def\<close>)

lemma write_Success:
  assumes ready: "access_ready access gi plan" and mem: "backs mem plan" and "host_object bs"
    and "validate_access access a (of_nat (length bs)) write_access = Success (of_nat (length bs))"
  shows "guest_write access mem a bs = Success (write_bytes mem a bs)"
proof (cases "bs = []")
  case True
  then show ?thesis using assms(4) by (simp add: guest_write_def)
next
  case False
  have len: "unat (of_nat (length bs) :: u64) = length bs" using assms(3) by (rule host_object_unat)
  then have nz: "of_nat (length bs) \<noteq> (0 :: u64)" using False by (metis length_0_conv unat_0)
  have range: "unat a + length bs \<le> 2 ^ 64" "\<forall>i < length bs. byte_allowed gi plan write_access (a + of_nat i)"
    using assms(4) nz len by (auto simp: validate_Success [OF ready])
  have "\<forall>i < length bs. \<exists>b p. mem (a + of_nat i) = Some (b, p) \<and> permissions_has p write_permission"
    using backs_allowed [OF mem, of write_access] range(2) by (auto simp: byte_allowed_def access_permission_def)
  from copy_to_eq [OF this range(1)] show ?thesis using assms(4) False by (simp add: guest_write_def)
qed

lemma write_Success_iff:
  assumes ready: "access_ready access gi plan" and mem: "backs mem plan" and "host_object bs"
  shows "guest_write access mem a bs = Success mem' \<longleftrightarrow>
    validate_access access a (of_nat (length bs)) write_access = Success (of_nat (length bs)) \<and> mem' = write_bytes mem a bs"
proof (cases "validate_access access a (of_nat (length bs)) write_access")
  case (Success k)
  then have "validate_access access a (of_nat (length bs)) write_access = Success (of_nat (length bs))"
    by (simp add: validate_Success [OF ready])
  from write_Success [OF ready mem assms(3) this] this show ?thesis by auto
qed (simp_all add: guest_write_def)

lemma write_defined:
  assumes ready: "access_ready access gi plan" and mem: "backs mem plan" and "host_object bs"
  shows "guest_write access mem a bs \<noteq> Undefined"
proof (cases "validate_access access a (of_nat (length bs)) write_access")
  case (Success k)
  then have "validate_access access a (of_nat (length bs)) write_access = Success (of_nat (length bs))"
    by (simp add: validate_Success [OF ready])
  from write_Success [OF ready mem assms(3) this] show ?thesis by simp
qed (use validate_ready_defined [OF ready] in \<open>auto simp: guest_write_def\<close>)

lemma read_after_write:
  assumes "access_ready access gi plan" and "backs mem plan" and "host_object bs"
    and w: "validate_access access a (of_nat (length bs)) write_access = Success (of_nat (length bs))"
    and r: "guest_read access (write_bytes mem a bs) a (of_nat (length bs)) = Success read"
  shows "read = bs"
proof -
  have len: "unat (of_nat (length bs) :: u64) = length bs" using assms(3) by (rule host_object_unat)
  have fit: "bs = [] \<or> unat a + length bs \<le> 2 ^ 64 \<and> (\<forall>i < length bs. byte_allowed gi plan write_access (a + of_nat i))"
    using w len by (auto simp: validate_Success [OF assms(1)])
  have byte: "fst (the (write_bytes mem a bs (a + of_nat i))) = bs ! i" if i: "i < length bs" for i
  proof -
    obtain b p where "mem (a + of_nat i) = Some (b, p)"
      using fit i backs_allowed [OF assms(2), of write_access "a + of_nat i"] by (auto simp: byte_allowed_def)
    then show ?thesis using write_bytes_at [of i bs a mem b p] fit i by auto
  qed
  have "read = map (\<lambda>i. fst (the (write_bytes mem a bs (a + of_nat i)))) [0..<length bs]"
    using r unfolding read_Success_iff [OF assms(1) backs_write_bytes [OF assms(2)]] len by blast
  also have "\<dots> = map ((!) bs) [0..<length bs]" using byte by (intro map_cong) auto
  finally show ?thesis by (simp only: map_nth)
qed

section \<open>Strings\<close>

text \<open>The byte at an address as a read sees it.\<close>

definition guest_byte :: "GuestImage \<Rightarrow> ExecutionMemoryPlan \<Rightarrow> process_memory \<Rightarrow> u64 \<Rightarrow> u8 option" where
  "guest_byte gi plan mem a = (if byte_allowed gi plan read_access a then map_option fst (mem a) else None)"

lemma read_one:
  assumes ready: "access_ready access gi plan" and mem: "backs mem plan"
  shows "guest_read access mem a 1 = (case guest_byte gi plan mem a of
      Some b \<Rightarrow> Success [b] | None \<Rightarrow> Failure (byte_error gi plan read_access a))"
proof (cases "byte_allowed gi plan read_access a")
  case True
  then obtain b p where "mem a = Some (b, p)"
    using backs_allowed [OF mem, of read_access a] by (auto simp: byte_allowed_def)
  moreover have "validate_access access a 1 read_access = Success 1"
    using True by (simp add: validate_Success [OF ready]) (use unat_lt_2p64 [of a] in linarith)
  ultimately show ?thesis using read_Success [OF ready mem, of a 1] True by (simp add: guest_byte_def)
next
  case False
  have "first_refused gi plan read_access a 1 = Some 0"
    unfolding first_refused_def using False by (intro find_from_zero) simp_all
  moreover have "\<not> 2 ^ 64 < unat a + unat (1 :: u64)" by simp (use unat_lt_2p64 [of a] in linarith)
  ultimately show ?thesis using False
    by (simp add: guest_read_def validate_ready [OF ready] guest_byte_def del: unat_lt_2p64)
qed

text \<open>A NUL-terminated string at an address, whose bytes do not run past the end of the address space.\<close>

primrec nul_string_at :: "(u64 \<Rightarrow> u8 option) \<Rightarrow> u64 \<Rightarrow> u8 list \<Rightarrow> bool" where
  "nul_string_at rd c [] \<longleftrightarrow> rd c = Some 0"
| "nul_string_at rd c (v # t) \<longleftrightarrow> v \<noteq> 0 \<and> rd c = Some v \<and> unat c + 1 < 2 ^ 64 \<and> nul_string_at rd (c + 1) t"

lemma nul_string_at_bytes:
  "nul_string_at rd c t \<Longrightarrow> unat c + length t < 2 ^ 64 \<and> 0 \<notin> set t \<and> (\<forall>i < length t. rd (c + of_nat i) = Some (t ! i)) \<and>
     rd (c + of_nat (length t)) = Some 0"
proof (induction t arbitrary: c)
  case (Cons v t)
  have c1: "unat (c + 1) = unat c + 1" using Cons.prems unat_add_no_wrap [of c 1] by simp
  have IH: "unat (c + 1) + length t < 2 ^ 64 \<and> 0 \<notin> set t \<and> (\<forall>i < length t. rd (c + 1 + of_nat i) = Some (t ! i)) \<and>
     rd (c + 1 + of_nat (length t)) = Some 0" using Cons.IH [of "c + 1"] Cons.prems by simp
  have "rd (c + of_nat i) = Some ((v # t) ! i)" if "i < length (v # t)" for i
    using IH Cons.prems that by (cases i) (simp_all add: add.assoc)
  with IH c1 Cons.prems show ?case by (simp add: add.assoc)
qed simp

lemma c_string_loop_Success:
  assumes ready: "access_ready access gi plan" and mem: "backs mem plan"
  shows "c_string_loop access mem start c n acc = Success s \<longleftrightarrow>
    (\<exists>t. s = acc @ t \<and> length t < n \<and> nul_string_at (guest_byte gi plan mem) c t)"
proof (induction n arbitrary: c acc)
  case (Suc n)
  show ?case
  proof (cases "guest_byte gi plan mem c")
    case None
    have "\<not> nul_string_at (guest_byte gi plan mem) c t" for t using None by (cases t) simp_all
    then show ?thesis using None by (simp add: read_one [OF ready mem])
  next
    case (Some v)
    have "nul_string_at (guest_byte gi plan mem) c t \<longleftrightarrow>
        (if v = 0 then t = [] else \<exists>t'. t = v # t' \<and> unat c + 1 < 2 ^ 64 \<and> nul_string_at (guest_byte gi plan mem) (c + 1) t')" for t
      using Some by (cases t) auto
    then show ?thesis
      using Some Suc.IH
      by (auto simp: read_one [OF ready mem] and_then_Success GuestAddress_checked_add_Success)
  qed
qed simp

section \<open>Properties\<close>

text \<open>
  C17. Validation is exact and bytewise: it always returns, an empty access always succeeds, an access
  past the end of the address space is a range overflow, and otherwise it succeeds exactly when every
  byte lies in a guest mapping with the permission or in the stack and in a plan region with the
  permission; when it fails, the error names the first byte that does not and says whether it is
  unmapped, unprepared or lacks the permission.
\<close>

theorem validate_access_correct:
  assumes "access_ready access gi plan"
  shows "validate_access access a n kind =
    (if n = 0 then Success 0
     else if 2 ^ 64 < unat a + unat n then Failure (memory_error guest_memory_range_overflow True a)
     else if \<forall>i < unat n. byte_allowed gi plan kind (a + of_nat i) then Success n
     else Failure (byte_error gi plan kind (a + of_nat (LEAST i. \<not> byte_allowed gi plan kind (a + of_nat i)))))"
proof -
  have "i = (LEAST i. \<not> byte_allowed gi plan kind (a + of_nat i))" if "first_refused gi plan kind a (unat n) = Some i" for i
    using that unfolding first_refused_def find_Some_iff by (intro Least_equality [symmetric]) (auto simp: not_less [symmetric])
  then show ?thesis
    using first_refused_None [of gi plan kind a "unat n"] by (auto simp: validate_ready [OF assms] split: option.split)
qed

text \<open>
  C18. Over memory that realises the plan, reads and writes never touch an address without the
  protection they need; a successful write changes exactly the bytes it covers, keeps every
  protection, and is read back by any read of the same range that validates.
\<close>

theorem guest_write_read:
  assumes "access_ready access gi plan" and "backs mem plan" and "host_object bs"
  shows "guest_read access mem a n \<noteq> Undefined \<and> guest_write access mem a bs \<noteq> Undefined \<and>
    (\<forall>mem'. guest_write access mem a bs = Success mem' \<longrightarrow>
       backs mem' plan \<and>
       (\<forall>x. \<not> (unat a \<le> unat x \<and> unat x < unat a + length bs) \<longrightarrow> mem' x = mem x) \<and>
       (\<forall>read. guest_read access mem' a (of_nat (length bs)) = Success read \<longrightarrow> read = bs))"
  using read_defined [OF assms(1,2)] write_defined [OF assms] backs_write_bytes [OF assms(2)] read_after_write [OF assms]
  by (auto simp: write_Success_iff [OF assms] write_bytes_def)

text \<open>
  Reading a C string succeeds exactly when the string's storage can be reserved and a
  NUL-terminated string shorter than max_bytes stands at the address in readable guest memory; its
  bytes are the result.
\<close>

theorem read_c_string_correct:
  assumes "access_ready access gi plan" and "backs mem plan"
  shows "read_c_string max_size alloc access mem a max_bytes = Success s \<longleftrightarrow>
    unat max_bytes \<le> max_size \<and> alloc (unat max_bytes) = No_exception \<and> length s < unat max_bytes \<and>
    nul_string_at (guest_byte gi plan mem) a s"
  by (cases "alloc (unat max_bytes)") (auto simp: read_c_string_def c_string_loop_Success [OF assms])

lemma mappings_execute_iff:
  "mappings_execute a ms \<longleftrightarrow> (\<exists>m \<in> set ms. permissions_has (intent_permissions m) execute_permission \<and> range_contains (intent_range m) a)"
  by (induction ms) auto

lemma regions_execute_iff:
  "regions_execute a rs \<longleftrightarrow> (\<exists>r \<in> set rs. permissions_has (region_permissions r) execute_permission \<and> range_contains (region_range r) a)"
  by (induction rs) auto

section \<open>A concrete access\<close>

definition sample_guest :: GuestImage where
  "sample_guest = sample_image\<lparr>guest_mappings := [sample_text, sample_data]\<rparr>"

definition sample_access :: GuestMemoryAccess where
  "sample_access = \<lparr>access_image = Some sample_guest, access_plan = Some sample_plan, access_epoch = Some 1,
     access_available = True\<rparr>"

text \<open>Memory that realises the sample plan, with the letter A at the start of the data.\<close>

definition sample_memory :: process_memory where
  "sample_memory a = (case List.find (\<lambda>r. range_contains (region_range r) a) (plan_regions sample_plan) of
     None \<Rightarrow> None | Some r \<Rightarrow> Some (if a = 0x402010 then 65 else 0, region_permissions r))"

lemma sample_access_ready: "access_ready sample_access sample_guest sample_plan"
  by (simp add: access_ready_def sample_access_def ranges_wf_def sample_guest_def sample_text_def sample_data_def
      sample_plan_def sample_data_region_def range_wf_def sample_image_def image_of_def stack_image_def sample_stack_def)

lemma sample_memory_backs: "backs sample_memory sample_plan"
  by (auto simp: backs_def sample_memory_def sample_plan_def sample_data_region_def range_contains_iff)

lemma sample_byte_allowed:
  "byte_allowed sample_guest sample_plan kind 0x402010" "byte_allowed sample_guest sample_plan kind 0x402011"
  by (cases kind; simp add: byte_allowed_def guest_allows_def plan_allows_def sample_guest_def sample_data_def
      sample_plan_def sample_data_region_def range_contains_iff access_permission_def permissions_has_def)+

theorem validate_access_correct_witness: "validate_access sample_access 0x402010 1 write_access = Success 1"
  by (simp add: validate_access_correct [OF sample_access_ready] sample_byte_allowed)

theorem guest_write_read_witness: "guest_write sample_access sample_memory 0x402010 [7, 8] \<noteq> Undefined"
  using guest_write_read [OF sample_access_ready sample_memory_backs, of "[7, 8]"] by (simp add: host_object_def)

theorem read_c_string_correct_witness:
  "read_c_string 100 (\<lambda>_. No_exception) sample_access sample_memory 0x402010 16 = Success [65]"
proof -
  have "sample_memory 0x402010 = Some (65, 3)" "sample_memory 0x402011 = Some (0, 3)"
    by (simp_all add: sample_memory_def sample_plan_def sample_data_region_def range_contains_iff)
  then have "nul_string_at (guest_byte sample_guest sample_plan sample_memory) 0x402010 [65]"
    by (simp add: guest_byte_def sample_byte_allowed)
  then show ?thesis
    using read_c_string_correct [OF sample_access_ready sample_memory_backs, of 100 "\<lambda>_. No_exception" "0x402010" 16 "[65]"]
    by simp
qed

end
