(* ===== verification/Linux_Memory.thy ===== *)
theory Linux_Memory
  imports Guest_Memory
begin

text \<open>
  src/execution/linux_memory.cpp: LinuxPreparedMemory, the owner of the host mappings of a guest image,
  and prepare_linux_guest_memory, which maps the regions of the image's memory plan, copies the
  segments and the initial stack into them and sets their final protection. The operating system is
  the record \<open>Kernel\<close> of functions on the process memory, about which \<open>kernel_contract\<close> states what the
  Linux manual pages document; \<open>Prepare_events\<close> holds the exceptions that allocations throw.
\<close>

section \<open>Data\<close>

datatype NativeBackendErrorCode =
    backend_unavailable
  | unsupported_host_architecture
  | guest_address_unavailable
  | host_page_arithmetic_overflow
  | host_mapping_failure
  | host_protection_failure
  | instruction_cache_sync_failure
  | mixed_write_execute_page
  | stack_mapping_failure
  | entry_point_unmapped
  | entry_point_not_executable
  | stack_pointer_unmapped
  | tls_runtime_layout_unsupported
  | nested_execution_unsupported
  | recovery_setup_failure
  | invalid_guest_context
  | invalid_registered_syscall_trap
  | syscall_interception_setup_failure
  | syscall_interception_metadata_failure
  | internal_transition_failure

record NativeBackendError =
  backend_error_code :: NativeBackendErrorCode
  backend_error_has_guest_address :: bool
  backend_error_guest_address :: u64
  backend_error_has_host_code :: bool
  backend_error_host_code :: u64

text \<open>backend_error with its defaulted arguments; the others are set by record update.\<close>

definition backend_error :: "NativeBackendErrorCode \<Rightarrow> NativeBackendError" where
  "backend_error code =
     \<lparr>backend_error_code = code, backend_error_has_guest_address = False, backend_error_guest_address = 0,
      backend_error_has_host_code = False, backend_error_host_code = 0\<rparr>"

definition at_guest_address :: "u64 \<Rightarrow> NativeBackendError \<Rightarrow> NativeBackendError" where
  "at_guest_address a e = e\<lparr>backend_error_has_guest_address := True, backend_error_guest_address := a\<rparr>"

text \<open>static_cast<std::uint64_t>(errno) sign-extends the int.\<close>

definition with_errno :: "u32 \<Rightarrow> NativeBackendError \<Rightarrow> NativeBackendError" where
  "with_errno code e = e\<lparr>backend_error_has_host_code := True, backend_error_host_code := scast code\<rparr>"

record LinuxPreparedMemory =
  prepared_plan :: ExecutionMemoryPlan
  prepared_regions :: "GuestRange list"
  prepared_epoch :: u64

definition empty_plan :: ExecutionMemoryPlan where
  "empty_plan = \<lparr>plan_host_page_size = 0, plan_regions = []\<rparr>"

definition empty_prepared :: LinuxPreparedMemory where
  "empty_prepared = \<lparr>prepared_plan = empty_plan, prepared_regions = [], prepared_epoch = 0\<rparr>"

section \<open>The operating system\<close>

text \<open>
  What the source uses of the kernel: the long that sysconf returns for the page size and its errno, mmap of private
  anonymous read-write memory with MAP_FIXED_NOREPLACE, munmap, whose result the source ignores, and
  mprotect, which returns None for 0 and otherwise errno.
\<close>

datatype mmap_outcome = Map_failed u32 | Map_at u64

record Kernel =
  kernel_page_size :: u64
  kernel_sysconf_errno :: u32
  kernel_mmap :: "process_memory \<Rightarrow> u64 \<Rightarrow> u64 \<Rightarrow> mmap_outcome \<times> process_memory"
  kernel_munmap :: "process_memory \<Rightarrow> u64 \<Rightarrow> u64 \<Rightarrow> process_memory"
  kernel_mprotect :: "process_memory \<Rightarrow> u64 \<Rightarrow> u64 \<Rightarrow> u32 \<Rightarrow> u32 option \<times> process_memory"

record Prepare_events =
  event_plan :: host_event
  event_reserve :: host_event
  event_view :: host_event

definition PROT_NONE :: u32 where "PROT_NONE = 0"
definition PROT_READ :: u32 where "PROT_READ = 1"
definition PROT_WRITE :: u32 where "PROT_WRITE = 2"
definition PROT_EXEC :: u32 where "PROT_EXEC = 4"
definition EEXIST :: u32 where "EEXIST = 17"

section \<open>Helpers\<close>

text \<open>size_t has 64 bits: the constexpr branch that can fail is not compiled.\<close>

definition to_host_size :: "GuestSize \<Rightarrow> u64 option" where
  "to_host_size value = Some value"

definition guest_pointer :: "GuestAddress \<Rightarrow> u64" where
  "guest_pointer address = address"

definition final_protection :: "GuestPermissions \<Rightarrow> u32" where
  "final_protection permissions =
     (let p0 = PROT_NONE;
          p1 = (if permissions_has permissions read_permission then p0 OR PROT_READ else p0);
          p2 = (if permissions_has permissions write_permission then p1 OR PROT_WRITE else p1)
      in if permissions_has permissions execute_permission then p2 OR PROT_EXEC else p2)"

section \<open>Ownership\<close>

primrec unmap_loop :: "Kernel \<Rightarrow> GuestRange list \<Rightarrow> process_memory \<Rightarrow> process_memory" where
  "unmap_loop k [] mem = mem"
| "unmap_loop k (r # rs) mem = (case to_host_size (range_size r) of
       None \<Rightarrow> unmap_loop k rs mem
     | Some byte_size \<Rightarrow>
         if byte_size = 0 then unmap_loop k rs mem
         else unmap_loop k rs (kernel_munmap k mem (guest_pointer (range_base r)) byte_size))"

definition reset_prepared :: "Kernel \<Rightarrow> LinuxPreparedMemory \<Rightarrow> process_memory \<Rightarrow> LinuxPreparedMemory \<times> process_memory" where
  "reset_prepared k prepared mem =
     (prepared\<lparr>prepared_regions := [], prepared_epoch := 0, prepared_plan := empty_plan\<rparr>,
      unmap_loop k (rev (prepared_regions prepared)) mem)"

definition destroy_prepared :: "Kernel \<Rightarrow> LinuxPreparedMemory \<Rightarrow> process_memory \<Rightarrow> process_memory" where
  "destroy_prepared k prepared mem = snd (reset_prepared k prepared mem)"

text \<open>The move constructor returns the new owner and what it leaves of the other.\<close>

definition move_construct :: "LinuxPreparedMemory \<Rightarrow> LinuxPreparedMemory \<times> LinuxPreparedMemory" where
  "move_construct other =
     (\<lparr>prepared_plan = prepared_plan other, prepared_regions = prepared_regions other, prepared_epoch = prepared_epoch other\<rparr>,
      other\<lparr>prepared_epoch := 0, prepared_regions := [], prepared_plan := empty_plan\<rparr>)"

text \<open>
  Assignment of an object to another (\<open>Some other\<close>) or to itself (\<open>None\<close>): the target, what is left of
  the other and the memory.
\<close>

definition move_assign ::
  "Kernel \<Rightarrow> LinuxPreparedMemory \<Rightarrow> LinuxPreparedMemory option \<Rightarrow> process_memory \<Rightarrow>
     LinuxPreparedMemory \<times> LinuxPreparedMemory option \<times> process_memory" where
  "move_assign k this other mem = (case other of
       None \<Rightarrow> (this, None, mem)
     | Some o' \<Rightarrow>
         let (this', mem') = reset_prepared k this mem in
         (this'\<lparr>prepared_plan := prepared_plan o', prepared_regions := prepared_regions o',
            prepared_epoch := prepared_epoch o'\<rparr>,
          Some (o'\<lparr>prepared_epoch := 0, prepared_regions := [], prepared_plan := empty_plan\<rparr>), mem'))"

text \<open>The GuestMemoryAccess constructor over prepared memory.\<close>

definition prepared_access :: "GuestImage \<Rightarrow> LinuxPreparedMemory \<Rightarrow> GuestMemoryAccess" where
  "prepared_access gi prepared =
     \<lparr>access_image = Some gi, access_plan = Some (prepared_plan prepared),
      access_epoch = Some (prepared_epoch prepared), access_available = (prepared_regions prepared \<noteq> [])\<rparr>"

text \<open>
  An error carries the memory the call leaves. The argument of fail_with_cleanup takes the mappings
  over and is destroyed when it returns, after it the moved-from local.
\<close>

type_synonym 'a prepare_result = "('a, NativeBackendError \<times> process_memory) Result"

definition fail_with_cleanup :: "Kernel \<Rightarrow> LinuxPreparedMemory \<Rightarrow> process_memory \<Rightarrow> NativeBackendError \<Rightarrow> 'a prepare_result" where
  "fail_with_cleanup k prepared mem e =
     (let (argument, moved) = move_construct prepared in
      Failure (e, destroy_prepared k moved (destroy_prepared k argument mem)))"

section \<open>Preparation\<close>

fun translate_plan_error :: "ExecutionPlanErrorCode \<Rightarrow> NativeBackendErrorCode" where
  "translate_plan_error invalid_host_page_size = NativeBackendErrorCode.host_page_arithmetic_overflow"
| "translate_plan_error ExecutionPlanErrorCode.host_page_arithmetic_overflow = NativeBackendErrorCode.host_page_arithmetic_overflow"
| "translate_plan_error ExecutionPlanErrorCode.mixed_write_execute_page = NativeBackendErrorCode.mixed_write_execute_page"
| "translate_plan_error ExecutionPlanErrorCode.entry_point_unmapped = NativeBackendErrorCode.entry_point_unmapped"
| "translate_plan_error ExecutionPlanErrorCode.entry_point_not_executable = NativeBackendErrorCode.entry_point_not_executable"
| "translate_plan_error ExecutionPlanErrorCode.stack_pointer_unmapped = NativeBackendErrorCode.stack_pointer_unmapped"
| "translate_plan_error permission_construction_failure = internal_transition_failure"
| "translate_plan_error plan_host_allocation_failure = internal_transition_failure"

definition image_plan_request :: "GuestImage \<Rightarrow> u64 \<Rightarrow> ExecutionMemoryPlanRequest" where
  "image_plan_request gi page_size =
     \<lparr>plan_mappings = guest_mappings gi, plan_stack_storage = stack_storage (guest_initial_stack gi),
      plan_entry_point = elf_entry (image_header (guest_elf gi)),
      plan_stack_pointer = stack_rsp (guest_initial_stack gi), plan_page_size = page_size\<rparr>"

text \<open>An iteration of the loop that maps the regions of the plan.\<close>

definition map_region ::
  "Kernel \<Rightarrow> LinuxPreparedMemory \<Rightarrow> process_memory \<Rightarrow> ExecutionMemoryRegion \<Rightarrow>
     (LinuxPreparedMemory \<times> process_memory) prepare_result" where
  "map_region k prepared mem region =
     (let base = range_base (region_range region);
          arithmetic = at_guest_address base (backend_error NativeBackendErrorCode.host_page_arithmetic_overflow) in
      case to_host_size (range_size (region_range region)) of
        None \<Rightarrow> fail_with_cleanup k prepared mem arithmetic
      | Some byte_size \<Rightarrow>
          if byte_size = 0 then fail_with_cleanup k prepared mem arithmetic
          else let requested = guest_pointer base in
          case kernel_mmap k mem requested byte_size of
            (Map_failed host_error, mem1) \<Rightarrow>
              fail_with_cleanup k prepared mem1 (with_errno host_error (at_guest_address base
                (backend_error (if host_error = EEXIST then guest_address_unavailable else host_mapping_failure))))
          | (Map_at mapped, mem1) \<Rightarrow>
              if mapped \<noteq> requested
              then fail_with_cleanup k prepared (kernel_munmap k mem1 mapped byte_size)
                     (at_guest_address base (backend_error guest_address_unavailable))
              else Success (prepared\<lparr>prepared_regions := prepared_regions prepared @ [region_range region]\<rparr>, mem1))"

primrec map_regions ::
  "Kernel \<Rightarrow> LinuxPreparedMemory \<Rightarrow> process_memory \<Rightarrow> ExecutionMemoryRegion list \<Rightarrow>
     (LinuxPreparedMemory \<times> process_memory) prepare_result" where
  "map_regions k prepared mem [] = Success (prepared, mem)"
| "map_regions k prepared mem (region # rest) =
     with_value (map_region k prepared mem region) (\<lambda>(prepared', mem'). map_regions k prepared' mem' rest)"

text \<open>The bytes that a copy_bytes call writes before it fails.\<close>

primrec copied_prefix :: "(GuestAddress \<Rightarrow> (u8, InitializedImageError) Result) \<Rightarrow> GuestAddress \<Rightarrow> nat list \<Rightarrow> u8 list" where
  "copied_prefix rd base [] = []"
| "copied_prefix rd base (i # is) = (case GuestAddress_checked_add base (of_nat i) of
       Success address \<Rightarrow> (case rd address of Success byte \<Rightarrow> byte # copied_prefix rd base is | _ \<Rightarrow> [])
     | _ \<Rightarrow> [])"

definition copy_mapping ::
  "Kernel \<Rightarrow> LinuxPreparedMemory \<Rightarrow> InitializedImageView \<Rightarrow> process_memory \<Rightarrow> MappingIntent \<Rightarrow> process_memory prepare_result" where
  "copy_mapping k prepared view mem mapping =
     (let r = intent_range mapping in
      if range_empty r then Success mem
      else case to_host_size (range_size r) of
        None \<Rightarrow> fail_with_cleanup k prepared mem (at_guest_address (range_base r)
          (backend_error NativeBackendErrorCode.host_page_arithmetic_overflow))
      | Some byte_size \<Rightarrow>
          let destination = guest_pointer (range_base r) in
          case copy_bytes view r (unat byte_size) of
            Success bytes \<Rightarrow> copy_to mem destination bytes
          | Failure e \<Rightarrow>
              with_value (copy_to mem destination (copied_prefix (read_byte view) (range_base r) [0..<unat byte_size])) (\<lambda>mem'.
              fail_with_cleanup k prepared mem' (case image_error_guest_address e of
                 None \<Rightarrow> backend_error internal_transition_failure
               | Some a \<Rightarrow> at_guest_address a (backend_error internal_transition_failure)))
          | Undefined \<Rightarrow> Undefined)"

primrec copy_mappings ::
  "Kernel \<Rightarrow> LinuxPreparedMemory \<Rightarrow> InitializedImageView \<Rightarrow> process_memory \<Rightarrow> MappingIntent list \<Rightarrow> process_memory prepare_result" where
  "copy_mappings k prepared view mem [] = Success mem"
| "copy_mappings k prepared view mem (mapping # rest) =
     with_value (copy_mapping k prepared view mem mapping) (\<lambda>mem'. copy_mappings k prepared view mem' rest)"

definition copy_stack ::
  "Kernel \<Rightarrow> LinuxPreparedMemory \<Rightarrow> InitialStackImage \<Rightarrow> process_memory \<Rightarrow> process_memory prepare_result" where
  "copy_stack k prepared stack mem =
     (let stack_byte_count = of_nat (length (stack_bytes stack));
          used_base = range_base (stack_used_range stack);
          failed = fail_with_cleanup k prepared mem (at_guest_address used_base (backend_error stack_mapping_failure)) in
      if range_size (stack_used_range stack) \<noteq> stack_byte_count then failed
      else if stack_byte_count > 0
      then (case GuestAddress_checked_add used_base (stack_byte_count - 1) of
          Success used_last \<Rightarrow>
            if \<not> range_contains (stack_storage stack) used_base \<or> \<not> range_contains (stack_storage stack) used_last
            then failed
            else copy_to mem (guest_pointer used_base) (stack_bytes stack)
        | _ \<Rightarrow> failed)
      else Success mem)"

text \<open>An iteration of the loop that sets protections; clearing the instruction cache changes no modelled state.\<close>

definition protect_region ::
  "Kernel \<Rightarrow> LinuxPreparedMemory \<Rightarrow> process_memory \<Rightarrow> ExecutionMemoryRegion \<Rightarrow> process_memory prepare_result" where
  "protect_region k prepared mem region =
     (let base = range_base (region_range region);
          arithmetic = at_guest_address base (backend_error NativeBackendErrorCode.host_page_arithmetic_overflow) in
      case to_host_size (range_size (region_range region)) of
        None \<Rightarrow> fail_with_cleanup k prepared mem arithmetic
      | Some byte_size \<Rightarrow>
          if byte_size = 0 then fail_with_cleanup k prepared mem arithmetic
          else case kernel_mprotect k mem (guest_pointer base) byte_size (final_protection (region_permissions region)) of
            (Some host_error, mem1) \<Rightarrow> fail_with_cleanup k prepared mem1
               (with_errno host_error (at_guest_address base (backend_error host_protection_failure)))
          | (None, mem1) \<Rightarrow> Success mem1)"

primrec protect_regions ::
  "Kernel \<Rightarrow> LinuxPreparedMemory \<Rightarrow> process_memory \<Rightarrow> ExecutionMemoryRegion list \<Rightarrow> process_memory prepare_result" where
  "protect_regions k prepared mem [] = Success mem"
| "protect_regions k prepared mem (region # rest) =
     with_value (protect_region k prepared mem region) (\<lambda>mem'. protect_regions k prepared mem' rest)"

text \<open>The two catch clauses; unwinding destroys the prepared mappings first.\<close>

definition catch_event :: "host_event \<Rightarrow> process_memory \<Rightarrow> 'a prepare_result \<Rightarrow> 'a prepare_result" where
  "catch_event event unwound normal = (case event of
       No_exception \<Rightarrow> normal
     | Bad_alloc \<Rightarrow> Failure (backend_error host_mapping_failure, unwound)
     | Length_error \<Rightarrow> Failure (backend_error NativeBackendErrorCode.host_page_arithmetic_overflow, unwound))"

text \<open>The body after the plan; \<open>counter\<close> is the next epoch. The result holds the owner, the memory and the new counter.\<close>

definition prepare_with_plan ::
  "Kernel \<Rightarrow> Prepare_events \<Rightarrow> u64 \<Rightarrow> GuestImage \<Rightarrow> ExecutionMemoryPlan \<Rightarrow> process_memory \<Rightarrow>
     (LinuxPreparedMemory \<times> process_memory \<times> u64) prepare_result" where
  "prepare_with_plan k events counter gi plan mem =
     (let prepared0 = empty_prepared\<lparr>prepared_plan := plan\<rparr> in
      catch_event (event_reserve events) (destroy_prepared k prepared0 mem) (
      with_value (map_regions k prepared0 mem (plan_regions plan)) (\<lambda>(prepared, mem1).
      catch_event (event_view events) (destroy_prepared k prepared mem1) (
      case initialized_image_view gi of
        Undefined \<Rightarrow> Undefined
      | Failure _ \<Rightarrow> fail_with_cleanup k prepared mem1 (backend_error internal_transition_failure)
      | Success view \<Rightarrow>
          with_value (copy_mappings k prepared view mem1 (guest_mappings gi)) (\<lambda>mem2.
          with_value (copy_stack k prepared (guest_initial_stack gi) mem2) (\<lambda>mem3.
          with_value (protect_regions k prepared mem3 (plan_regions plan)) (\<lambda>mem4.
          let (epoch, counter') = next_prepared_mapping_epoch counter in
          if epoch = 0
          then fail_with_cleanup k (prepared\<lparr>prepared_epoch := epoch\<rparr>) mem4 (backend_error internal_transition_failure)
          else let (result, moved) = move_construct (prepared\<lparr>prepared_epoch := epoch\<rparr>) in
            Success (result, destroy_prepared k moved mem4, counter'))))))))"

definition prepare_linux_guest_memory ::
  "Kernel \<Rightarrow> Prepare_events \<Rightarrow> u64 \<Rightarrow> GuestImage \<Rightarrow> process_memory \<Rightarrow>
     (LinuxPreparedMemory \<times> process_memory \<times> u64) prepare_result" where
  "prepare_linux_guest_memory k events counter gi mem =
     (let raw_page_size = kernel_page_size k in
      if sint raw_page_size \<le> 0
      then Failure (with_errno (kernel_sysconf_errno k) (backend_error internal_transition_failure), mem)
      else case build_execution_memory_plan (event_plan events) (image_plan_request gi raw_page_size) of
          Failure e \<Rightarrow> Failure (case plan_error_guest_address e of
              None \<Rightarrow> backend_error (translate_plan_error (plan_error_code e))
            | Some a \<Rightarrow> at_guest_address a (backend_error (translate_plan_error (plan_error_code e))), mem)
        | Undefined \<Rightarrow> Undefined
        | Success plan \<Rightarrow> prepare_with_plan k events counter gi plan mem)"

section \<open>What the kernel promises\<close>

definition page_span_ok :: "u64 \<Rightarrow> GuestRange \<Rightarrow> bool" where
  "page_span_ok ps r \<longleftrightarrow> range_wf r \<and> range_size r \<noteq> 0 \<and>
     unat ps dvd unat (range_base r) \<and> unat ps dvd unat (range_size r)"

definition unmapped_range :: "GuestRange \<Rightarrow> process_memory \<Rightarrow> process_memory" where
  "unmapped_range r mem = (\<lambda>x. if range_contains r x then None else mem x)"

definition read_write :: GuestPermissions where
  "read_write = permission_bit read_permission OR permission_bit write_permission"

definition zeroed_range :: "GuestRange \<Rightarrow> process_memory \<Rightarrow> process_memory" where
  "zeroed_range r mem = (\<lambda>x. if range_contains r x then Some (0, read_write) else mem x)"

definition free_range :: "GuestRange \<Rightarrow> process_memory \<Rightarrow> bool" where
  "free_range r mem \<longleftrightarrow> (\<forall>x. range_contains r x \<longrightarrow> mem x = None)"

definition host_permissions :: "u32 \<Rightarrow> GuestPermissions" where
  "host_permissions protection =
     (if protection AND PROT_READ \<noteq> 0 then permission_bit read_permission else 0) OR
     (if protection AND PROT_WRITE \<noteq> 0 then permission_bit write_permission else 0) OR
     (if protection AND PROT_EXEC \<noteq> 0 then permission_bit execute_permission else 0)"

definition protected_range :: "GuestRange \<Rightarrow> GuestPermissions \<Rightarrow> process_memory \<Rightarrow> process_memory" where
  "protected_range r p mem = (\<lambda>x. if range_contains r x then map_option (\<lambda>(b, _). (b, p)) (mem x) else mem x)"

text \<open>
  mmap(2), munmap(2) and mprotect(2) on whole pages. A failed mmap changes nothing; a successful one
  provides zeroed pages that nothing used before, at the requested address or, on kernels that do not
  know MAP_FIXED_NOREPLACE, elsewhere. munmap removes the pages. A failed mprotect may have changed
  some of the pages it was called for.
\<close>

fun mmap_ok :: "u64 \<Rightarrow> process_memory \<Rightarrow> GuestRange \<Rightarrow> mmap_outcome \<times> process_memory \<Rightarrow> bool" where
  "mmap_ok ps mem r (Map_failed e, mem') \<longleftrightarrow> mem' = mem"
| "mmap_ok ps mem r (Map_at a, mem') \<longleftrightarrow> (let r' = \<lparr>range_base = a, range_size = range_size r\<rparr> in
     page_span_ok ps r' \<and> free_range r' mem \<and> mem' = zeroed_range r' mem)"

fun mprotect_ok :: "process_memory \<Rightarrow> GuestRange \<Rightarrow> u32 \<Rightarrow> u32 option \<times> process_memory \<Rightarrow> bool" where
  "mprotect_ok mem r p (None, mem') \<longleftrightarrow> mem' = protected_range r (host_permissions p) mem"
| "mprotect_ok mem r p (Some e, mem') \<longleftrightarrow> (\<forall>x. \<not> range_contains r x \<longrightarrow> mem' x = mem x)"

definition kernel_contract :: "Kernel \<Rightarrow> bool" where
  "kernel_contract k \<longleftrightarrow> (\<forall>mem r. page_span_ok (kernel_page_size k) r \<longrightarrow>
     kernel_munmap k mem (range_base r) (range_size r) = unmapped_range r mem \<and>
     mmap_ok (kernel_page_size k) mem r (kernel_mmap k mem (range_base r) (range_size r)) \<and>
     (\<forall>p. mprotect_ok mem r p (kernel_mprotect k mem (range_base r) (range_size r) p)))"

lemma kernel_contractD:
  assumes "kernel_contract k" and "page_span_ok (kernel_page_size k) r"
  shows "kernel_munmap k mem (range_base r) (range_size r) = unmapped_range r mem"
    and "mmap_ok (kernel_page_size k) mem r (kernel_mmap k mem (range_base r) (range_size r))"
    and "mprotect_ok mem r p (kernel_mprotect k mem (range_base r) (range_size r) p)"
  using assms unfolding kernel_contract_def by blast+

lemma and_not_zero: "x AND NOT m = 0 \<Longrightarrow> x = x AND m" for x m :: "'a::len word"
proof -
  assume "x AND NOT m = 0"
  moreover have "x = (x AND m) OR (x AND NOT m)" by (simp add: bit.conj_disj_distrib [symmetric])
  ultimately show ?thesis by simp
qed

lemma known_permissions_cases:
  assumes "known_permissions p"
  shows "p \<in> {0, 1, 2, 3, 4, 5, 6, 7}"
proof -
  have "p = p AND kKnownMask" using assms unfolding known_permissions_def by (rule and_not_zero)
  then have "p = take_bit 3 p" by (simp add: kKnownMask_def take_bit_eq_mask mask_eq_exp_minus_1)
  then have "p = p mod 8" by (simp add: take_bit_eq_mod)
  then have "unat p = unat p mod unat (8 :: u8)" by (metis unat_mod)
  then have "unat p < 8" by simp
  then have "unat p = 0 \<or> unat p = 1 \<or> unat p = 2 \<or> unat p = 3 \<or> unat p = 4 \<or> unat p = 5 \<or> unat p = 6 \<or> unat p = 7"
    by linarith
  then show ?thesis by (auto simp: word_unat_eq_iff)
qed

lemma host_permissions_final: "known_permissions p \<Longrightarrow> host_permissions (final_protection p) = p"
  using known_permissions_cases [of p]
  by (auto simp: host_permissions_def final_protection_def permissions_has_def Let_def
      PROT_NONE_def PROT_READ_def PROT_WRITE_def PROT_EXEC_def)

section \<open>Cleanup\<close>

text \<open>The memory differs from the one before only on owned ranges, which were free.\<close>

definition in_ranges :: "GuestRange list \<Rightarrow> u64 \<Rightarrow> bool" where
  "in_ranges rs x \<longleftrightarrow> (\<exists>r \<in> set rs. range_contains r x)"

lemma in_ranges_simps [simp]:
  "\<not> in_ranges [] x" "in_ranges (r # rs) x \<longleftrightarrow> range_contains r x \<or> in_ranges rs x"
  "in_ranges (rs @ ts) x \<longleftrightarrow> in_ranges rs x \<or> in_ranges ts x" "in_ranges (rev rs) x \<longleftrightarrow> in_ranges rs x"
  by (auto simp: in_ranges_def)

definition owns :: "process_memory \<Rightarrow> GuestRange list \<Rightarrow> process_memory \<Rightarrow> bool" where
  "owns mem0 rs mem \<longleftrightarrow> (\<forall>x. if in_ranges rs x then mem0 x = None else mem x = mem0 x)"

lemma owns_refl [simp]: "owns mem [] mem"
  by (simp add: owns_def)

lemma owns_change: "owns mem0 rs mem \<Longrightarrow> (\<And>x. \<not> in_ranges rs x \<Longrightarrow> mem' x = mem x) \<Longrightarrow> owns mem0 rs mem'"
  by (simp add: owns_def)

definition spans_ok :: "Kernel \<Rightarrow> GuestRange list \<Rightarrow> bool" where
  "spans_ok k rs \<longleftrightarrow> (\<forall>r \<in> set rs. page_span_ok (kernel_page_size k) r)"

lemma unmap_loop_eq:
  assumes "kernel_contract k"
  shows "spans_ok k rs \<Longrightarrow> unmap_loop k rs mem = (\<lambda>x. if in_ranges rs x then None else mem x)"
proof (induction rs arbitrary: mem)
  case (Cons r rs)
  have r: "page_span_ok (kernel_page_size k) r" using Cons.prems by (simp add: spans_ok_def)
  then have "unmap_loop k (r # rs) mem = unmap_loop k rs (unmapped_range r mem)"
    by (simp add: to_host_size_def guest_pointer_def kernel_contractD(1) [OF assms r]) (simp add: page_span_ok_def)
  also have "\<dots> = (\<lambda>x. if in_ranges rs x then None else unmapped_range r mem x)"
    using Cons by (simp add: spans_ok_def)
  finally show ?case by (simp add: unmapped_range_def fun_eq_iff)
qed simp

lemma destroy_restores:
  assumes "kernel_contract k" and "spans_ok k (prepared_regions p)" and "owns mem0 (prepared_regions p) mem"
  shows "destroy_prepared k p mem = mem0"
  using assms(2,3) unmap_loop_eq [OF assms(1), of "rev (prepared_regions p)" mem]
  by (simp add: destroy_prepared_def reset_prepared_def spans_ok_def owns_def fun_eq_iff)

lemma destroy_empty: "prepared_regions p = [] \<Longrightarrow> destroy_prepared k p mem = mem"
  by (simp add: destroy_prepared_def reset_prepared_def)

lemma fail_with_cleanup_fails [simp]:
  "fail_with_cleanup k p mem e \<noteq> Success v" "fail_with_cleanup k p mem e \<noteq> Undefined"
  by (simp_all add: fail_with_cleanup_def split: prod.split)

lemma fail_with_cleanup_restores:
  assumes "kernel_contract k" and "spans_ok k (prepared_regions p)" and "owns mem0 (prepared_regions p) mem"
  shows "fail_with_cleanup k p mem e = Failure (e, mem0)"
proof -
  have "destroy_prepared k (fst (move_construct p)) mem = mem0"
    using assms by (intro destroy_restores) (simp_all add: move_construct_def)
  then show ?thesis
    by (simp add: fail_with_cleanup_def move_construct_def destroy_empty)
qed

section \<open>The phases\<close>

text \<open>A phase that is defined and, when it fails, leaves the memory as it was at the start.\<close>

definition restores :: "process_memory \<Rightarrow> 'a prepare_result \<Rightarrow> bool" where
  "restores mem0 res \<longleftrightarrow> (case res of Success _ \<Rightarrow> True | Failure (e, mem) \<Rightarrow> mem = mem0 | Undefined \<Rightarrow> False)"

lemma restores_simps [simp]:
  "restores mem0 (Success v)" "\<not> restores mem0 Undefined" "restores mem0 (Failure (e, mem)) \<longleftrightarrow> mem = mem0"
  by (simp_all add: restores_def)

lemma restores_with_value:
  "restores mem0 res \<Longrightarrow> (\<And>v. res = Success v \<Longrightarrow> restores mem0 (f v)) \<Longrightarrow> restores mem0 (with_value res f)"
  by (cases res) (auto simp: restores_def split: prod.splits)

lemma range_fields [simp]: "\<lparr>range_base = range_base r, range_size = range_size r\<rparr> = (r :: GuestRange)"
  by simp

lemma unmapped_zeroed: "free_range r mem \<Longrightarrow> unmapped_range r (zeroed_range r mem) = mem"
  by (auto simp: unmapped_range_def zeroed_range_def free_range_def fun_eq_iff)

lemma owns_zeroed: "owns mem0 rs mem \<Longrightarrow> free_range r mem \<Longrightarrow> owns mem0 (rs @ [r]) (zeroed_range r mem)"
  unfolding owns_def zeroed_range_def free_range_def by (metis in_ranges_simps(1-3))

lemma map_region_spec:
  assumes k: "kernel_contract k" and r: "page_span_ok (kernel_page_size k) (region_range region)"
    and own: "spans_ok k (prepared_regions p)" "owns mem0 (prepared_regions p) mem"
  shows "restores mem0 (map_region k p mem region)"
    and "map_region k p mem region = Success (p', mem') \<Longrightarrow>
      p' = p\<lparr>prepared_regions := prepared_regions p @ [region_range region]\<rparr> \<and>
      free_range (region_range region) mem \<and> mem' = zeroed_range (region_range region) mem"
proof -
  let ?r = "region_range region"
  obtain outcome mem1 where m: "kernel_mmap k mem (range_base ?r) (range_size ?r) = (outcome, mem1)" by fastforce
  have ok: "mmap_ok (kernel_page_size k) mem ?r (outcome, mem1)" using kernel_contractD(2) [OF k r, of mem] m by simp
  have size: "range_size ?r \<noteq> 0" using r by (simp add: page_span_ok_def)
  note clean = fail_with_cleanup_restores [OF k own]
  have step: "map_region k p mem region = (case outcome of
      Map_failed e \<Rightarrow> fail_with_cleanup k p mem1 (with_errno e (at_guest_address (range_base ?r)
        (backend_error (if e = EEXIST then guest_address_unavailable else host_mapping_failure))))
    | Map_at a \<Rightarrow> if a \<noteq> range_base ?r
        then fail_with_cleanup k p (kernel_munmap k mem1 a (range_size ?r))
          (at_guest_address (range_base ?r) (backend_error guest_address_unavailable))
        else Success (p\<lparr>prepared_regions := prepared_regions p @ [?r]\<rparr>, mem1))"
    using size by (simp add: map_region_def to_host_size_def guest_pointer_def m Let_def split: mmap_outcome.split)
  have undone: "kernel_munmap k mem1 a (range_size ?r) = mem" if "outcome = Map_at a" for a
    using ok that kernel_contractD(1) [OF k, of "\<lparr>range_base = a, range_size = range_size ?r\<rparr>" mem1]
    by (simp add: Let_def unmapped_zeroed)
  show "restores mem0 (map_region k p mem region)"
    using ok by (cases outcome) (simp_all add: step clean undone)
  show "map_region k p mem region = Success (p', mem') \<Longrightarrow>
      p' = p\<lparr>prepared_regions := prepared_regions p @ [region_range region]\<rparr> \<and>
      free_range (region_range region) mem \<and> mem' = zeroed_range (region_range region) mem"
    using ok by (cases outcome) (auto simp: step clean undone Let_def split: if_splits)
qed

lemma map_regions_spec:
  assumes k: "kernel_contract k" and "spans_ok k (map region_range regions)"
    and own: "spans_ok k (prepared_regions p)" "owns mem0 (prepared_regions p) mem"
  shows "restores mem0 (map_regions k p mem regions) \<and>
    (\<forall>p' mem'. map_regions k p mem regions = Success (p', mem') \<longrightarrow>
       p' = p\<lparr>prepared_regions := prepared_regions p @ map region_range regions\<rparr> \<and>
       owns mem0 (prepared_regions p') mem' \<and>
       mem' = (\<lambda>x. if in_ranges (map region_range regions) x then Some (0, read_write) else mem x))"
  using assms(2) own
proof (induction regions arbitrary: p mem)
  case (Cons region regions)
  have r: "page_span_ok (kernel_page_size k) (region_range region)" and rs: "spans_ok k (map region_range regions)"
    using Cons.prems(1) by (simp_all add: spans_ok_def)
  note spec = map_region_spec [OF k r Cons.prems(2,3)]
  let ?p = "p\<lparr>prepared_regions := prepared_regions p @ [region_range region]\<rparr>"
  let ?mem = "zeroed_range (region_range region) mem"
  have IH: "restores mem0 (map_regions k ?p ?mem regions) \<and>
    (\<forall>p' mem'. map_regions k ?p ?mem regions = Success (p', mem') \<longrightarrow>
       p' = ?p\<lparr>prepared_regions := prepared_regions ?p @ map region_range regions\<rparr> \<and>
       owns mem0 (prepared_regions p') mem' \<and>
       mem' = (\<lambda>x. if in_ranges (map region_range regions) x then Some (0, read_write) else ?mem x))"
    if "free_range (region_range region) mem"
    using Cons.prems(2) r by (intro Cons.IH [OF rs] ) (simp_all add: spans_ok_def owns_zeroed [OF Cons.prems(3) that])
  show ?case
  proof (cases "map_region k p mem region")
    case (Success v)
    then obtain p1 m1 where v: "map_region k p mem region = Success (p1, m1)" by (cases v) simp
    have fr: "free_range (region_range region) mem" and eq: "map_regions k p mem (region # regions) = map_regions k ?p ?mem regions"
      using spec(2) [OF v] by (simp_all add: v)
    have "(\<lambda>x. if in_ranges (map region_range regions) x then Some (0, read_write) else ?mem x) =
        (\<lambda>x. if in_ranges (map region_range (region # regions)) x then Some (0, read_write) else mem x)"
      by (auto simp: zeroed_range_def)
    with IH [OF fr] show ?thesis unfolding eq by simp
  qed (use spec(1) in auto)
qed simp

definition view_byte :: "InitializedImageView \<Rightarrow> u64 \<Rightarrow> u8" where
  "view_byte view x = (case read_byte view x of Success b \<Rightarrow> b | _ \<Rightarrow> 0)"

definition loaded_ranges :: "InitializedImageView \<Rightarrow> GuestRange list \<Rightarrow> process_memory \<Rightarrow> process_memory" where
  "loaded_ranges view rs mem =
     (\<lambda>x. if in_ranges rs x then map_option (\<lambda>(_, p). (view_byte view x, p)) (mem x) else mem x)"

definition writable_ranges :: "GuestRange list \<Rightarrow> process_memory \<Rightarrow> bool" where
  "writable_ranges rs mem \<longleftrightarrow> (\<forall>x. in_ranges rs x \<longrightarrow> (\<exists>b. mem x = Some (b, read_write)))"

lemma writable_rangesD: "writable_ranges rs mem \<Longrightarrow> in_ranges rs x \<Longrightarrow>
    \<exists>b p. mem x = Some (b, p) \<and> permissions_has p write_permission"
  unfolding writable_ranges_def by (force simp: read_write_def permissions_has_def)

lemma writable_loaded: "writable_ranges rs mem \<Longrightarrow> writable_ranges rs (loaded_ranges view ts mem)"
  unfolding writable_ranges_def loaded_ranges_def by fastforce

lemma range_offset_contains:
  assumes "range_wf r" and "i < unat (range_size r)"
  shows "range_contains r (range_base r + of_nat i)" and "unat (range_base r + of_nat i) = unat (range_base r) + i"
  using assms u64_offset [of "range_base r" i] by (auto simp: range_contains_iff range_wf_def)

text \<open>Copying bytes to a range, given by index, as an update by address.\<close>

lemma copy_to_range:
  assumes "range_wf r" and "length bytes = unat (range_size r)" and "writable_ranges rs mem"
    and "\<And>x. range_contains r x \<Longrightarrow> in_ranges rs x"
  shows "copy_to mem (range_base r) bytes = Success (\<lambda>x. if range_contains r x
    then map_option (\<lambda>(_, p). (bytes ! (unat x - unat (range_base r)), p)) (mem x) else mem x)"
proof -
  have w: "\<forall>i < length bytes. \<exists>b p. mem (range_base r + of_nat i) = Some (b, p) \<and> permissions_has p write_permission"
    using range_offset_contains(1) [OF assms(1)] assms(2,4) writable_rangesD [OF assms(3)] by auto
  have fits: "unat (range_base r) + length bytes \<le> 2 ^ 64" using assms(1,2) by (simp add: range_wf_def)
  have "write_bytes mem (range_base r) bytes = (\<lambda>x. if range_contains r x
      then map_option (\<lambda>(_, p). (bytes ! (unat x - unat (range_base r)), p)) (mem x) else mem x)"
    using assms(2) by (simp add: write_bytes_def range_contains_iff fun_eq_iff)
  with copy_to_eq [OF w fits] show ?thesis by simp
qed

lemma copy_mapping_spec:
  assumes "range_wf (intent_range m)" and "writable_ranges rs mem" and "view_wf view"
    and inside: "\<And>x. range_contains (intent_range m) x \<Longrightarrow> in_ranges rs x"
    and readable: "\<And>x. range_contains (intent_range m) x \<Longrightarrow> \<exists>b. read_byte view x = Success b"
  shows "copy_mapping k p view mem m = Success (loaded_ranges view [intent_range m] mem)"
proof (cases "range_empty (intent_range m)")
  case True
  then show ?thesis by (auto simp: copy_mapping_def loaded_ranges_def range_contains_def)
next
  case False
  let ?r = "intent_range m"
  let ?bytes = "map (\<lambda>i. view_byte view (range_base ?r + of_nat i)) [0..<unat (range_size ?r)]"
  have byte: "read_byte view x = Success (view_byte view x)" if "range_contains ?r x" for x
    using readable [OF that] by (auto simp: view_byte_def)
  have bytes: "copy_bytes view ?r (unat (range_size ?r)) = Success ?bytes"
    using range_offset_contains(1) [OF assms(1)] byte by (simp add: copy_bytes_Success [OF assms(1)])
  have at: "?bytes ! (unat x - unat (range_base ?r)) = view_byte view x" if "range_contains ?r x" for x
  proof -
    have "unat x - unat (range_base ?r) < unat (range_size ?r)" "unat (range_base ?r) \<le> unat x"
      using that by (auto simp: range_contains_iff)
    moreover from this(2) have "range_base ?r + of_nat (unat x - unat (range_base ?r)) = x" by (simp add: of_nat_diff)
    ultimately show ?thesis by simp
  qed
  have "copy_to mem (range_base ?r) ?bytes = (Success (loaded_ranges view [?r] mem) :: process_memory prepare_result)"
    using copy_to_range [OF assms(1) _ assms(2) inside, of ?bytes] at
    by (auto simp: loaded_ranges_def fun_eq_iff cong: if_cong)
  then show ?thesis using False bytes by (simp add: copy_mapping_def to_host_size_def guest_pointer_def Let_def)
qed

lemma copy_mappings_spec:
  assumes "\<forall>m \<in> set ms. range_wf (intent_range m)" and "writable_ranges rs mem" and "view_wf view"
    and inside: "\<And>x. in_ranges (map intent_range ms) x \<Longrightarrow> in_ranges rs x"
    and readable: "\<And>x. in_ranges (map intent_range ms) x \<Longrightarrow> \<exists>b. read_byte view x = Success b"
  shows "copy_mappings k p view mem ms = Success (loaded_ranges view (map intent_range ms) mem)"
  using assms(1,2,4,5)
proof (induction ms arbitrary: mem)
  case (Cons m ms)
  have "copy_mapping k p view mem m = Success (loaded_ranges view [intent_range m] mem)"
    using Cons.prems by (intro copy_mapping_spec [OF _ _ assms(3), where rs = rs]) auto
  moreover have "copy_mappings k p view (loaded_ranges view [intent_range m] mem) ms =
      Success (loaded_ranges view (map intent_range ms) (loaded_ranges view [intent_range m] mem))"
    using Cons.prems writable_loaded by (intro Cons.IH) auto
  moreover have "loaded_ranges view (map intent_range ms) (loaded_ranges view [intent_range m] mem) =
      loaded_ranges view (map intent_range (m # ms)) mem"
    by (auto simp: loaded_ranges_def fun_eq_iff option.map_comp comp_def case_prod_unfold)
  ultimately show ?case by simp
qed (simp add: loaded_ranges_def)

definition stack_ok :: "InitialStackImage \<Rightarrow> bool" where
  "stack_ok st \<longleftrightarrow> range_wf (stack_used_range st) \<and> unat (range_size (stack_used_range st)) = length (stack_bytes st) \<and>
     stack_bytes st \<noteq> [] \<and>
     (\<forall>x. range_contains (stack_used_range st) x \<longrightarrow> range_contains (stack_storage st) x)"

definition stacked :: "InitialStackImage \<Rightarrow> process_memory \<Rightarrow> process_memory" where
  "stacked st mem = (\<lambda>x. if range_contains (stack_used_range st) x
     then map_option (\<lambda>(_, p). (stack_bytes st ! (unat x - unat (range_base (stack_used_range st))), p)) (mem x)
     else mem x)"

lemma copy_stack_spec:
  assumes "stack_ok st" and "writable_ranges rs mem" and inside: "\<And>x. range_contains (stack_storage st) x \<Longrightarrow> in_ranges rs x"
  shows "copy_stack k p st mem = Success (stacked st mem)"
proof -
  let ?u = "stack_used_range st" and ?n = "length (stack_bytes st)"
  note ok = assms(1) [unfolded stack_ok_def]
  have "of_nat (unat (range_size ?u)) = range_size ?u" by simp
  then have n: "of_nat ?n = range_size ?u" using ok by simp
  have pos: "0 < ?n" using ok by simp
  then have first: "range_contains (stack_storage st) (range_base ?u)"
    using ok range_offset_contains(1) [of ?u 0] by simp
  have size: "range_size ?u \<noteq> 0" "0 < range_size ?u" using pos ok by (auto simp: word_gt_0)
  then have last: "unat (range_size ?u - 1) = ?n - 1" using ok by (simp add: unat_minus_one)
  have "of_nat (unat (range_size ?u - 1)) = range_size ?u - 1" by (simp only: of_nat_unat ucast_id)
  then have "range_base ?u + (range_size ?u - 1) = range_base ?u + of_nat (?n - 1)" unfolding last by simp
  then have "range_contains (stack_storage st) (range_base ?u + (range_size ?u - 1))"
    using ok range_offset_contains(1) [of ?u "?n - 1"] pos by simp
  moreover have "unat (range_base ?u) + ?n \<le> 2 ^ 64" using ok by (simp add: range_wf_def)
  then have "unat (range_base ?u) + unat (range_size ?u - 1) < 2 ^ 64" using last pos by linarith
  then have "GuestAddress_checked_add (range_base ?u) (range_size ?u - 1) = Success (range_base ?u + (range_size ?u - 1))"
    by (simp add: GuestAddress_checked_add_Success)
  moreover have "copy_to mem (range_base ?u) (stack_bytes st) = (Success (stacked st mem) :: process_memory prepare_result)"
    using copy_to_range [OF _ _ assms(2), of ?u "stack_bytes st"] ok inside by (simp add: stacked_def)
  ultimately show ?thesis
    using first size n by (simp add: copy_stack_def Let_def guest_pointer_def)
qed

lemma protect_region_spec:
  assumes k: "kernel_contract k" and r: "page_span_ok (kernel_page_size k) (region_range region)"
    and known: "known_permissions (region_permissions region)"
    and own: "spans_ok k (prepared_regions p)" "owns mem0 (prepared_regions p) mem"
    and inside: "\<And>x. range_contains (region_range region) x \<Longrightarrow> in_ranges (prepared_regions p) x"
  shows "restores mem0 (protect_region k p mem region)"
    and "protect_region k p mem region = Success mem' \<Longrightarrow>
      mem' = protected_range (region_range region) (region_permissions region) mem \<and> owns mem0 (prepared_regions p) mem'"
proof -
  let ?r = "region_range region" and ?prot = "final_protection (region_permissions region)"
  obtain outcome mem1 where m: "kernel_mprotect k mem (range_base ?r) (range_size ?r) ?prot = (outcome, mem1)" by fastforce
  have ok: "mprotect_ok mem ?r ?prot (outcome, mem1)" using kernel_contractD(3) [OF k r, of mem ?prot] m by simp
  have own1: "owns mem0 (prepared_regions p) mem1"
    using ok inside by (intro owns_change [OF own(2)]) (cases outcome, auto simp: protected_range_def)
  have size: "range_size ?r \<noteq> 0" using r by (simp add: page_span_ok_def)
  have step: "protect_region k p mem region = (case outcome of
      Some e \<Rightarrow> fail_with_cleanup k p mem1 (with_errno e (at_guest_address (range_base ?r) (backend_error host_protection_failure)))
    | None \<Rightarrow> Success mem1)"
    using size by (simp add: protect_region_def to_host_size_def guest_pointer_def m Let_def split: option.split)
  show "restores mem0 (protect_region k p mem region)"
    by (cases outcome) (simp_all add: step fail_with_cleanup_restores [OF k own(1) own1])
  show "protect_region k p mem region = Success mem' \<Longrightarrow>
      mem' = protected_range (region_range region) (region_permissions region) mem \<and> owns mem0 (prepared_regions p) mem'"
    using ok own1 host_permissions_final [OF known] by (cases outcome) (auto simp: step)
qed

abbreviation disjoint_ranges :: "GuestRange \<Rightarrow> GuestRange \<Rightarrow> bool" where
  "disjoint_ranges r s \<equiv> \<forall>x. \<not> (range_contains r x \<and> range_contains s x)"

text \<open>Each address of a region gets the permissions of that region.\<close>

definition protected_regions :: "ExecutionMemoryRegion list \<Rightarrow> process_memory \<Rightarrow> process_memory \<Rightarrow> bool" where
  "protected_regions regions mem mem' \<longleftrightarrow>
     (\<forall>r \<in> set regions. \<forall>x. range_contains (region_range r) x \<longrightarrow>
        mem' x = map_option (\<lambda>(b, _). (b, region_permissions r)) (mem x)) \<and>
     (\<forall>x. \<not> in_ranges (map region_range regions) x \<longrightarrow> mem' x = mem x)"

lemma protect_regions_spec:
  assumes k: "kernel_contract k" and "spans_ok k (map region_range regions)"
    and "\<forall>r \<in> set regions. known_permissions (region_permissions r)"
    and "sorted_wrt (\<lambda>r s. disjoint_ranges (region_range r) (region_range s)) regions"
    and own: "spans_ok k (prepared_regions p)" and "owns mem0 (prepared_regions p) mem"
    and "\<forall>r \<in> set regions. \<forall>x. range_contains (region_range r) x \<longrightarrow> in_ranges (prepared_regions p) x"
  shows "restores mem0 (protect_regions k p mem regions) \<and>
    (\<forall>mem'. protect_regions k p mem regions = Success mem' \<longrightarrow>
       protected_regions regions mem mem' \<and> owns mem0 (prepared_regions p) mem')"
  using assms(2-4,6,7)
proof (induction regions arbitrary: mem)
  case (Cons region regions)
  have r: "page_span_ok (kernel_page_size k) (region_range region)" and rs: "spans_ok k (map region_range regions)"
    using Cons.prems(1) by (simp_all add: spans_ok_def)
  note spec = protect_region_spec [OF k r _ own Cons.prems(4)]
  show ?case
  proof (cases "protect_region k p mem region")
    case (Success m1)
    have m1: "m1 = protected_range (region_range region) (region_permissions region) mem" "owns mem0 (prepared_regions p) m1"
      using spec(2) [OF _ _ Success] Cons.prems by auto
    have IH: "restores mem0 (protect_regions k p m1 regions) \<and>
      (\<forall>mem'. protect_regions k p m1 regions = Success mem' \<longrightarrow>
         protected_regions regions m1 mem' \<and> owns mem0 (prepared_regions p) mem')"
      using Cons.prems m1(2) by (intro Cons.IH [OF rs]) auto
    have "protected_regions (region # regions) mem mem'" if "protected_regions regions m1 mem'" for mem'
      using that Cons.prems(3) unfolding protected_regions_def m1(1) protected_range_def in_ranges_def by fastforce
    with IH show ?thesis by (simp add: Success)
  qed (use spec(1) Cons.prems in auto)
qed (simp add: protected_regions_def)

section \<open>The whole preparation\<close>

text \<open>What preparation needs of an image; the loader guarantees it (\<open>built_image_loadable\<close> below).\<close>

definition loadable_image :: "GuestImage \<Rightarrow> InitializedImageView \<Rightarrow> bool" where
  "loadable_image gi view \<longleftrightarrow> initialized_image_view gi = Success view \<and> view_wf view \<and>
     (\<forall>ps. plan_request_wf (image_plan_request gi ps)) \<and> stack_ok (guest_initial_stack gi) \<and>
     (\<forall>x. in_ranges (map intent_range (guest_mappings gi)) x \<longrightarrow> (\<exists>b. read_byte view x = Success b))"

definition loaded_byte :: "GuestImage \<Rightarrow> InitializedImageView \<Rightarrow> u64 \<Rightarrow> u8" where
  "loaded_byte gi view x = (let st = guest_initial_stack gi in
     if range_contains (stack_used_range st) x then stack_bytes st ! (unat x - unat (range_base (stack_used_range st)))
     else if in_ranges (map intent_range (guest_mappings gi)) x then view_byte view x else 0)"

lemma image_plan_request_fields [simp]:
  "plan_mappings (image_plan_request gi ps) = guest_mappings gi"
  "plan_stack_storage (image_plan_request gi ps) = stack_storage (guest_initial_stack gi)"
  "plan_page_size (image_plan_request gi ps) = ps"
  by (simp_all add: image_plan_request_def)

lemma plan_covers_image:
  assumes "plan_request_wf (image_plan_request gi ps)"
    and "build_execution_memory_plan ev (image_plan_request gi ps) = Success plan"
    and "in_ranges (map intent_range (guest_mappings gi)) x \<or> range_contains (stack_storage (guest_initial_stack gi)) x"
  shows "in_ranges (map region_range (plan_regions plan)) x"
proof -
  note built = built_plan [OF assms(1,2)]
  have "page_mapped (image_plan_request gi ps) (x div ps)"
    using assms(3) by (auto simp: page_mapped_def page_touches_def in_ranges_def)
  then show ?thesis
    using mapped_page_region [OF built(1), of x] unfolding built(2) by (auto simp: in_ranges_def)
qed

lemma plan_regions_disjoint:
  assumes "plan_request_wf request" and "build_execution_memory_plan ev request = Success plan"
  shows "sorted_wrt (\<lambda>r s. disjoint_ranges (region_range r) (region_range s)) (plan_regions plan)"
  using regions_sorted [OF built_plan(1) [OF assms]] unfolding built_plan(2) [OF assms]
  by (rule sorted_wrt_mono_rel [rotated]) (auto simp: range_contains_iff)

lemma plan_spans_ok:
  assumes "plan_request_wf (image_plan_request gi (kernel_page_size k))"
    and "build_execution_memory_plan ev (image_plan_request gi (kernel_page_size k)) = Success plan"
  shows "spans_ok k (map region_range (plan_regions plan))"
  using region_shape [OF assms] by (auto simp: spans_ok_def page_span_ok_def)

text \<open>The memory a successful preparation leaves: exactly the regions, each byte initialized and protected.\<close>

definition prepared_memory ::
  "GuestImage \<Rightarrow> InitializedImageView \<Rightarrow> ExecutionMemoryPlan \<Rightarrow> process_memory \<Rightarrow> process_memory \<Rightarrow> bool" where
  "prepared_memory gi view plan mem mem' \<longleftrightarrow>
     (\<forall>r \<in> set (plan_regions plan). \<forall>x. range_contains (region_range r) x \<longrightarrow>
        mem x = None \<and> mem' x = Some (loaded_byte gi view x, region_permissions r)) \<and>
     (\<forall>x. \<not> in_ranges (map region_range (plan_regions plan)) x \<longrightarrow> mem' x = mem x)"

lemma prepare_copies:
  fixes mem :: process_memory
  assumes load: "loadable_image gi view" and plan: "build_execution_memory_plan ev (image_plan_request gi ps) = Success plan"
  defines "rs \<equiv> map region_range (plan_regions plan)"
    and "mem1 \<equiv> (\<lambda>x. if in_ranges (map region_range (plan_regions plan)) x then Some (0, read_write) else mem x)"
  obtains mem2 mem3 where "copy_mappings k p view mem1 (guest_mappings gi) = Success mem2"
    and "copy_stack k p (guest_initial_stack gi) mem2 = Success mem3"
    and "mem3 = (\<lambda>x. if in_ranges rs x then Some (loaded_byte gi view x, read_write) else mem x)"
proof
  let ?ms = "map intent_range (guest_mappings gi)" and ?st = "guest_initial_stack gi"
  note l = load [unfolded loadable_image_def]
  note covers = plan_covers_image [OF _ plan]
  have w1: "writable_ranges rs mem1" by (simp add: writable_ranges_def mem1_def rs_def)
  show "copy_mappings k p view mem1 (guest_mappings gi) = Success (loaded_ranges view ?ms mem1)"
  proof (rule copy_mappings_spec [OF _ w1])
    show "\<forall>m \<in> set (guest_mappings gi). range_wf (intent_range m)"
      using l by (simp add: plan_request_wf_def)
  qed (use l covers in \<open>auto simp: rs_def\<close>)
  show "copy_stack k p ?st (loaded_ranges view ?ms mem1) = Success (stacked ?st (loaded_ranges view ?ms mem1))"
    using l covers by (intro copy_stack_spec [OF _ writable_loaded [OF w1]]) (auto simp: rs_def)
  have used: "range_contains (stack_used_range ?st) x \<Longrightarrow> in_ranges rs x" for x
    using l covers by (auto simp: stack_ok_def rs_def)
  have "in_ranges ?ms x \<Longrightarrow> in_ranges rs x" for x using l covers by (auto simp: rs_def)
  with used show "stacked ?st (loaded_ranges view ?ms mem1) =
      (\<lambda>x. if in_ranges rs x then Some (loaded_byte gi view x, read_write) else mem x)"
    by (auto simp: stacked_def loaded_ranges_def mem1_def rs_def loaded_byte_def Let_def fun_eq_iff)
qed

definition ready_regions :: "ExecutionMemoryPlan \<Rightarrow> LinuxPreparedMemory" where
  "ready_regions plan = \<lparr>prepared_plan = plan, prepared_regions = map region_range (plan_regions plan), prepared_epoch = 0\<rparr>"

definition zeroed_regions :: "ExecutionMemoryPlan \<Rightarrow> process_memory \<Rightarrow> process_memory" where
  "zeroed_regions plan mem =
     (\<lambda>x. if in_ranges (map region_range (plan_regions plan)) x then Some (0, read_write) else mem x)"

text \<open>The memory before the final protections.\<close>

definition filled_regions :: "GuestImage \<Rightarrow> InitializedImageView \<Rightarrow> ExecutionMemoryPlan \<Rightarrow> process_memory \<Rightarrow> process_memory" where
  "filled_regions gi view plan mem =
     (\<lambda>x. if in_ranges (map region_range (plan_regions plan)) x then Some (loaded_byte gi view x, read_write) else mem x)"

text \<open>Everything after the regions are mapped, for a loadable image.\<close>

definition finish_prepare ::
  "Kernel \<Rightarrow> u64 \<Rightarrow> ExecutionMemoryPlan \<Rightarrow> process_memory \<Rightarrow> (LinuxPreparedMemory \<times> process_memory \<times> u64) prepare_result" where
  "finish_prepare k counter plan mem =
     with_value (protect_regions k (ready_regions plan) mem (plan_regions plan)) (\<lambda>mem4.
       if epoch_exhausted counter
       then fail_with_cleanup k (ready_regions plan) mem4 (backend_error internal_transition_failure)
       else Success ((ready_regions plan)\<lparr>prepared_epoch := counter\<rparr>, mem4, counter + 1))"

lemma prepare_with_plan_eq:
  assumes k: "kernel_contract k" and load: "loadable_image gi view"
    and plan: "build_execution_memory_plan ev (image_plan_request gi (kernel_page_size k)) = Success plan"
  shows "prepare_with_plan k events counter gi plan mem =
    catch_event (event_reserve events) mem (
    with_value (map_regions k (empty_prepared\<lparr>prepared_plan := plan\<rparr>) mem (plan_regions plan)) (\<lambda>_.
    catch_event (event_view events) mem (finish_prepare k counter plan (filled_regions gi view plan mem))))"
    (is "_ = catch_event _ mem (with_value ?map _)")
proof -
  note l = load [unfolded loadable_image_def]
  have spans: "spans_ok k (map region_range (plan_regions plan))" using l plan by (intro plan_spans_ok) auto
  have own: "spans_ok k (prepared_regions (empty_prepared\<lparr>prepared_plan := plan\<rparr>))"
    "owns mem (prepared_regions (empty_prepared\<lparr>prepared_plan := plan\<rparr>)) mem"
    by (simp_all add: empty_prepared_def spans_ok_def)
  note spec = map_regions_spec [OF k spans own]
  obtain mem2 mem3 where copies:
    "copy_mappings k (ready_regions plan) view (zeroed_regions plan mem) (guest_mappings gi) = Success mem2"
    "copy_stack k (ready_regions plan) (guest_initial_stack gi) mem2 = Success mem3"
    "mem3 = filled_regions gi view plan mem"
    by (rule prepare_copies [OF load plan, where mem = mem, folded zeroed_regions_def filled_regions_def])
  have nz: "\<not> epoch_exhausted counter \<Longrightarrow> counter \<noteq> 0" by (simp add: epoch_exhausted_def)
  show ?thesis
  proof (cases ?map)
    case (Success v)
    then obtain p' mem1 where v: "?map = Success (p', mem1)" by (cases v) simp
    have own': "owns mem (prepared_regions p') mem1" using spec v by blast
    have p': "p' = ready_regions plan" "mem1 = zeroed_regions plan mem"
      using spec v by (simp_all add: ready_regions_def zeroed_regions_def empty_prepared_def)
    have "destroy_prepared k p' mem1 = mem"
      using own' p' spans by (intro destroy_restores [OF k]) (simp_all add: ready_regions_def)
    then show ?thesis
      using v p' copies l nz
      by (simp add: prepare_with_plan_def destroy_empty empty_prepared_def finish_prepare_def
          next_prepared_mapping_epoch_def move_construct_def ready_regions_def fail_with_cleanup_def destroy_prepared_def
          reset_prepared_def Let_def)
  qed (simp_all add: prepare_with_plan_def destroy_empty empty_prepared_def Let_def)
qed

lemma finish_prepare_spec:
  assumes k: "kernel_contract k" and wf: "plan_request_wf (image_plan_request gi (kernel_page_size k))"
    and plan: "build_execution_memory_plan ev (image_plan_request gi (kernel_page_size k)) = Success plan"
    and free: "\<And>x. in_ranges (map region_range (plan_regions plan)) x \<Longrightarrow> mem x = None"
  shows "restores mem (finish_prepare k counter plan (filled_regions gi view plan mem))"
    and "finish_prepare k counter plan (filled_regions gi view plan mem) = Success (prepared, mem', counter') \<Longrightarrow>
      prepared = (ready_regions plan)\<lparr>prepared_epoch := counter\<rparr> \<and> \<not> epoch_exhausted counter \<and> counter' = counter + 1 \<and>
      prepared_memory gi view plan mem mem' \<and> destroy_prepared k prepared mem' = mem"
proof -
  let ?p = "ready_regions plan" and ?m3 = "filled_regions gi view plan mem"
  have spans: "spans_ok k (map region_range (plan_regions plan))" by (rule plan_spans_ok [OF wf plan])
  have p: "prepared_regions ?p = map region_range (plan_regions plan)" by (simp add: ready_regions_def)
  have own: "owns mem (prepared_regions ?p) ?m3" using free by (auto simp: p owns_def filled_regions_def)
  have spec: "restores mem (protect_regions k ?p ?m3 (plan_regions plan)) \<and>
    (\<forall>mem'. protect_regions k ?p ?m3 (plan_regions plan) = Success mem' \<longrightarrow>
       protected_regions (plan_regions plan) ?m3 mem' \<and> owns mem (prepared_regions ?p) mem')"
    using spans own region_shape(6) [OF wf plan]
    by (intro protect_regions_spec [OF k spans _ plan_regions_disjoint [OF wf plan]]) (auto simp: p in_ranges_def)
  show "restores mem (finish_prepare k counter plan ?m3)"
    unfolding finish_prepare_def using spec spans
    by (intro restores_with_value) (auto simp: fail_with_cleanup_restores [OF k] p)
  assume "finish_prepare k counter plan ?m3 = Success (prepared, mem', counter')"
  then have "protect_regions k ?p ?m3 (plan_regions plan) = Success mem'"
    and res: "prepared = ?p\<lparr>prepared_epoch := counter\<rparr>" "\<not> epoch_exhausted counter" "counter' = counter + 1"
    by (auto simp: finish_prepare_def and_then_Success split: if_splits)
  then have "protected_regions (plan_regions plan) ?m3 mem'" "owns mem (prepared_regions prepared) mem'"
    using spec by auto
  moreover from this(1) have "prepared_memory gi view plan mem mem'"
    using free unfolding prepared_memory_def protected_regions_def filled_regions_def in_ranges_def by auto
  moreover have "destroy_prepared k prepared mem' = mem"
    using calculation(2) spans res(1) p by (intro destroy_restores [OF k]) simp_all
  ultimately show "prepared = ?p\<lparr>prepared_epoch := counter\<rparr> \<and> \<not> epoch_exhausted counter \<and> counter' = counter + 1 \<and>
      prepared_memory gi view plan mem mem' \<and> destroy_prepared k prepared mem' = mem"
    using res by simp
qed

section \<open>Images the loader builds\<close>

lemma guest_image_parts:
  assumes "host_object (request_image_bytes request)" and "build_guest_image host request = Success gi"
  shows "guest_image_accepts host request gi"
  using assms(2) build_guest_image_impl_iff [OF assms(1)]
  by (cases "host_thrown host") (simp_all add: build_guest_image_def)

lemma from_elf_flags_known: "known_permissions (from_elf_flags flags)"
  by (auto simp: known_permissions_def from_elf_flags_def kKnownMask_def Let_def)

lemma length_image_mappings: "length (image_mappings bytes) < 2 ^ 62"
proof -
  have two: "length (load_intents h) \<le> 2" for h by (simp add: load_intents_def)
  have "length (concat (map load_intents hs)) \<le> 2 * length hs" for hs
  proof (induction hs)
    case (Cons h hs)
    then show ?case using two [of h] by simp
  qed simp
  then have "length (image_mappings bytes) \<le> 2 * length (load_headers (image_program_headers (decode_image bytes)))"
    by (simp add: image_mappings_def)
  moreover have "length (load_headers hs) \<le> length hs" for hs by (simp add: load_headers_def)
  moreover have "length (image_program_headers (decode_image bytes)) = unat (elf_program_header_count (decode_header bytes))"
    by (simp add: decode_image_table)
  ultimately have "length (image_mappings bytes) \<le> 2 * unat (elf_program_header_count (decode_header bytes))"
    by (metis le_trans mult_le_mono2)
  also have "\<dots> < 2 * 2 ^ 16" using unsigned_less [of "elf_program_header_count (decode_header bytes)"] by simp
  finally show ?thesis by simp
qed

lemma image_mapping_header:
  assumes "elf64_accepts bytes profile" and "m \<in> set (image_mappings bytes)"
  shows "range_wf (intent_range m)" and "known_permissions (intent_permissions m)"
  using assms accepted_load_fits [OF assms(1)] load_intents_wf(1,6) from_elf_flags_known
  unfolding image_mappings_def by fastforce+

lemma stack_image_ok:
  assumes "range_wf (request_storage r)" and "stack_fits r"
  shows "stack_ok (stack_image r)"
proof -
  note sizes = stack_sizes [OF assms]
  let ?img = "stack_image r"
  have used: "unat (range_base (stack_used_range ?img)) = request_rsp r" "unat (range_size (stack_used_range ?img)) = used_bytes r"
    "stack_storage ?img = request_storage r"
    using sizes(5,6) by (simp_all add: stack_image_def unat_of_nat)
  have len: "length (stack_bytes ?img) = used_bytes r"
    using sizes(1,2) length_control_words [of r]
    by (simp add: stack_image_def length_concat comp_def sum_list_triv mult.commute information_bytes_def)
  moreover from this sizes(7) have "stack_bytes ?img \<noteq> []" by (metis less_numeral_extra(3) list.size(3))
  moreover have "unat (range_base (request_storage r)) \<le> request_rsp r" using assms(2) by (simp add: stack_fits_def)
  ultimately show ?thesis
    using sizes(3,4) unfolding stack_ok_def range_wf_def range_contains_iff used stack_top_def by auto
qed

text \<open>
  The byte a program finds at an address of its initial memory, from the ELF file and the initial stack:
  the stack image in the used part of the stack, the file byte or zero of a PT_LOAD segment, zero in
  the rest of the pages.
\<close>

definition segment_holds :: "u64 \<Rightarrow> ProgramHeader \<Rightarrow> bool" where
  "segment_holds x h \<longleftrightarrow> unat (ph_virtual_address h) \<le> unat x \<and>
     unat x < unat (ph_virtual_address h) + unat (ph_memory_size h)"

definition initial_byte :: "GuestImage \<Rightarrow> u64 \<Rightarrow> u8" where
  "initial_byte gi x = (let st = guest_initial_stack gi in
     if range_contains (stack_used_range st) x then stack_bytes st ! (unat x - unat (range_base (stack_used_range st)))
     else case List.find (segment_holds x) (load_headers (image_program_headers (guest_elf gi))) of
         Some h \<Rightarrow> segment_byte (guest_image_bytes gi) h (unat x - unat (ph_virtual_address h))
       | None \<Rightarrow> 0)"

lemma segment_holds_offset:
  assumes "segment_holds x h"
  shows "unat x - unat (ph_virtual_address h) < unat (ph_memory_size h)"
    and "ph_virtual_address h + of_nat (unat x - unat (ph_virtual_address h)) = x"
  using assms by (auto simp: segment_holds_def of_nat_diff)

lemma load_intents_holds:
  assumes "load_fits h"
  shows "(\<exists>m \<in> set (load_intents h). range_contains (intent_range m) x) \<longleftrightarrow> segment_holds x h"
proof
  assume "\<exists>m \<in> set (load_intents h). range_contains (intent_range m) x"
  then obtain i where i: "i < unat (ph_memory_size h)" "x = ph_virtual_address h + of_nat i"
    using load_intents_cover [OF assms] by blast
  have "unat (ph_virtual_address h) + i < 2 ^ 64" using assms i(1) by (auto simp: load_fits_def)
  from u64_offset [OF this] i show "segment_holds x h" by (simp add: segment_holds_def)
next
  assume h: "segment_holds x h"
  then show "\<exists>m \<in> set (load_intents h). range_contains (intent_range m) x"
    using load_intents_source [OF assms segment_holds_offset(1) [OF h]] segment_holds_offset(2) [OF h] by auto
qed

lemma mapping_holds:
  assumes "elf64_accepts bytes profile"
  shows "in_ranges (map intent_range (image_mappings bytes)) x \<longleftrightarrow>
    (\<exists>h \<in> set (load_headers (image_program_headers (decode_image bytes))). segment_holds x h)"
  using accepted_load_fits [OF assms] load_intents_holds by (fastforce simp: in_ranges_def image_mappings_def)

lemma built_image_loadable:
  assumes "host_object (request_image_bytes request)" and "request_host (request_initial_stack request)"
    and "range_wf (request_storage (request_initial_stack request))" and "build_guest_image host request = Success gi"
  shows "loadable_image gi (image_view (request_image_bytes request))"
    and "loaded_byte gi (image_view (request_image_bytes request)) = initial_byte gi"
proof -
  let ?b = "request_image_bytes request" and ?v = "image_view (request_image_bytes request)"
  have "guest_image_accepts host request gi" by (rule guest_image_parts [OF assms(1,4)])
  then have acc: "elf64_accepts ?b (request_elf_profile request)" "mappings_agree ?b"
    and gi: "guest_image_bytes gi = ?b" "guest_elf gi = decode_image ?b" "guest_mappings gi = sorted_mappings ?b"
      "guest_initial_stack gi = stack_image (request_initial_stack request)" and fits: "stack_fits (request_initial_stack request)"
    by (auto simp: guest_image_accepts_def Let_def image_of_def build_initial_stack_iff [OF assms(2,3)])
  have ranges: "in_ranges (map intent_range (guest_mappings gi)) x = in_ranges (map intent_range (image_mappings ?b)) x" for x
    by (simp add: in_ranges_def gi sorted_mappings_def)
  have byte: "read_byte ?v x = Success (segment_byte ?b h (unat x - unat (ph_virtual_address h)))"
    if "h \<in> set (load_headers (image_program_headers (decode_image ?b)))" "segment_holds x h" for x h
    using image_view_read [OF assms(1) acc that(1) segment_holds_offset(1) [OF that(2)]] segment_holds_offset(2) [OF that(2)]
    by simp
  have "plan_request_wf (image_plan_request gi ps)" for ps
    using image_mapping_header [OF acc(1)] length_image_mappings [of ?b] assms(3)
    by (auto simp: plan_request_wf_def gi sorted_mappings_def length_std_sort stack_image_def)
  moreover have "initialized_image_view gi = Success ?v"
    using accepted_view [OF assms(1) acc(1)] gi by (simp add: initialized_image_view_def)
  ultimately show "loadable_image gi ?v"
    using byte mapping_holds [OF acc(1)] stack_image_ok [OF assms(3) fits] accepted_view_wf [OF assms(1) acc(1)]
    unfolding loadable_image_def ranges gi(4) by blast
  have "(if in_ranges (map intent_range (guest_mappings gi)) x then view_byte ?v x else 0) =
      (case List.find (segment_holds x) (load_headers (image_program_headers (decode_image ?b))) of
         Some h \<Rightarrow> segment_byte ?b h (unat x - unat (ph_virtual_address h)) | None \<Rightarrow> 0)" for x
  proof (cases "List.find (segment_holds x) (load_headers (image_program_headers (decode_image ?b)))")
    case None
    then have "\<not> in_ranges (map intent_range (guest_mappings gi)) x"
      unfolding ranges mapping_holds [OF acc(1)] by (simp add: find_None_iff)
    with None show ?thesis by simp
  next
    case (Some h)
    then have h: "h \<in> set (load_headers (image_program_headers (decode_image ?b)))" "segment_holds x h"
      by (auto simp: find_Some_iff)
    then have "in_ranges (map intent_range (guest_mappings gi)) x" unfolding ranges mapping_holds [OF acc(1)] by blast
    with Some byte [OF h] show ?thesis by (simp add: view_byte_def)
  qed
  then show "loaded_byte gi ?v = initial_byte gi"
    unfolding loaded_byte_def initial_byte_def Let_def gi(1,2) fun_eq_iff by simp
qed

section \<open>A kernel that grants the regions of a plan\<close>

text \<open>
  A kernel may refuse an mmap or an mprotect for reasons outside the process (the lowest mappable
  address, the size of the address space, memory and map limits). \<open>kernel_grants\<close> says that it has no
  such reason for the regions of one plan in one process: as long as the process has changed at most
  these regions, each of them is mapped where it is asked for if it is free, and takes the protection of
  the plan once it is mapped. Of other addresses and protections it says nothing.
\<close>

definition kernel_grants :: "Kernel \<Rightarrow> process_memory \<Rightarrow> ExecutionMemoryRegion list \<Rightarrow> bool" where
  "kernel_grants k mem0 regions \<longleftrightarrow> (\<forall>region \<in> set regions. \<forall>mem.
     (\<forall>x. \<not> in_ranges (map region_range regions) x \<longrightarrow> mem x = mem0 x) \<longrightarrow>
     (let r = region_range region in
      (free_range r mem \<longrightarrow> fst (kernel_mmap k mem (range_base r) (range_size r)) = Map_at (range_base r)) \<and>
      ((\<forall>x. range_contains r x \<longrightarrow> mem x \<noteq> None) \<longrightarrow>
         fst (kernel_mprotect k mem (range_base r) (range_size r) (final_protection (region_permissions region))) = None)))"

lemma kernel_grantsD:
  assumes "kernel_grants k mem0 all" and "region \<in> set all" and "\<forall>x. \<not> in_ranges (map region_range all) x \<longrightarrow> mem x = mem0 x"
  shows "free_range (region_range region) mem \<Longrightarrow>
      fst (kernel_mmap k mem (range_base (region_range region)) (range_size (region_range region))) =
        Map_at (range_base (region_range region))"
    and "\<forall>x. range_contains (region_range region) x \<longrightarrow> mem x \<noteq> None \<Longrightarrow>
      fst (kernel_mprotect k mem (range_base (region_range region)) (range_size (region_range region))
        (final_protection (region_permissions region))) = None"
  using assms unfolding kernel_grants_def Let_def by blast+

lemma map_regions_grants:
  assumes "kernel_contract k" and grants: "kernel_grants k mem0 all"
  shows "set regions \<subseteq> set all \<Longrightarrow> \<forall>x. \<not> in_ranges (map region_range all) x \<longrightarrow> mem x = mem0 x \<Longrightarrow>
    spans_ok k (map region_range regions) \<Longrightarrow>
    sorted_wrt (\<lambda>r s. disjoint_ranges (region_range r) (region_range s)) regions \<Longrightarrow>
    \<forall>r \<in> set regions. free_range (region_range r) mem \<Longrightarrow> \<exists>v. map_regions k p mem regions = Success v"
proof (induction regions arbitrary: p mem)
  case (Cons region regions)
  let ?r = "region_range region"
  have r: "page_span_ok (kernel_page_size k) ?r" and size: "range_size ?r \<noteq> 0"
    using Cons.prems(3) by (simp_all add: spans_ok_def page_span_ok_def)
  have "fst (kernel_mmap k mem (range_base ?r) (range_size ?r)) = Map_at (range_base ?r)"
    using Cons.prems(1,5) by (intro kernel_grantsD(1) [OF grants _ Cons.prems(2)]) simp_all
  then obtain mem1 where m: "kernel_mmap k mem (range_base ?r) (range_size ?r) = (Map_at (range_base ?r), mem1)"
    by (metis prod.collapse)
  then have mem1: "mem1 = zeroed_range ?r mem" using kernel_contractD(2) [OF assms(1) r, of mem] by (simp add: Let_def)
  then have "\<forall>s \<in> set regions. free_range (region_range s) mem1"
    using Cons.prems(4,5) by (auto simp: free_range_def zeroed_range_def)
  moreover have "\<forall>x. \<not> in_ranges (map region_range all) x \<longrightarrow> mem1 x = mem0 x"
    using Cons.prems(1,2) by (auto simp: mem1 zeroed_range_def in_ranges_def)
  ultimately have "\<exists>v. map_regions k (p\<lparr>prepared_regions := prepared_regions p @ [?r]\<rparr>) mem1 regions = Success v"
    using Cons.prems by (intro Cons.IH) (simp_all add: spans_ok_def)
  then show ?case using size by (simp add: map_region_def to_host_size_def guest_pointer_def m Let_def)
qed simp

lemma protect_regions_grants:
  assumes "kernel_contract k" and grants: "kernel_grants k mem0 all"
  shows "set regions \<subseteq> set all \<Longrightarrow> \<forall>x. \<not> in_ranges (map region_range all) x \<longrightarrow> mem x = mem0 x \<Longrightarrow>
    spans_ok k (map region_range regions) \<Longrightarrow>
    \<forall>x. in_ranges (map region_range regions) x \<longrightarrow> mem x \<noteq> None \<Longrightarrow> \<exists>v. protect_regions k p mem regions = Success v"
proof (induction regions arbitrary: mem)
  case (Cons region regions)
  let ?r = "region_range region" and ?prot = "final_protection (region_permissions region)"
  have r: "page_span_ok (kernel_page_size k) ?r" and size: "range_size ?r \<noteq> 0"
    using Cons.prems(3) by (simp_all add: spans_ok_def page_span_ok_def)
  have "fst (kernel_mprotect k mem (range_base ?r) (range_size ?r) ?prot) = None"
    using Cons.prems(1,4) by (intro kernel_grantsD(2) [OF grants _ Cons.prems(2)]) (simp_all add: in_ranges_def)
  then obtain mem1 where m: "kernel_mprotect k mem (range_base ?r) (range_size ?r) ?prot = (None, mem1)"
    by (metis prod.collapse)
  then have mem1: "mem1 = protected_range ?r (host_permissions ?prot) mem"
    using kernel_contractD(3) [OF assms(1) r, of mem ?prot] by simp
  have "\<forall>x. \<not> in_ranges (map region_range all) x \<longrightarrow> mem1 x = mem0 x"
    using Cons.prems(1,2) by (auto simp: mem1 protected_range_def in_ranges_def)
  then have "\<exists>v. protect_regions k p mem1 regions = Success v"
    using Cons.prems by (intro Cons.IH) (auto simp: spans_ok_def mem1 protected_range_def in_ranges_def)
  then show ?case using size by (simp add: protect_region_def to_host_size_def guest_pointer_def m Let_def)
qed simp

lemma catch_event_Success: "catch_event ev mem res = Success v \<longleftrightarrow> ev = No_exception \<and> res = Success v"
  by (cases ev) (simp_all add: catch_event_def)

lemma map_regions_free:
  assumes "kernel_contract k" and "spans_ok k (map region_range regions)"
    and "map_regions k (empty_prepared\<lparr>prepared_plan := plan\<rparr>) mem regions = Success v" and "r \<in> set regions"
  shows "free_range (region_range r) mem"
proof -
  have "owns mem (prepared_regions (fst v)) (snd v)" "prepared_regions (fst v) = map region_range regions"
    using map_regions_spec [OF assms(1,2), of "empty_prepared\<lparr>prepared_plan := plan\<rparr>" mem mem] assms(3)
    by (cases v; simp add: empty_prepared_def spans_ok_def)+
  then have "mem x = None" if "range_contains (region_range r) x" for x
    using assms(4) that unfolding owns_def in_ranges_def by (metis imageI list.set_map)
  then show ?thesis by (simp add: free_range_def)
qed

text \<open>When a preparation succeeds: on any kernel it needs the plan and the free addresses, and on a granting kernel no more.\<close>

lemma prepare_with_plan_Success:
  assumes k: "kernel_contract k" and load: "loadable_image gi view"
    and plan: "build_execution_memory_plan ev (image_plan_request gi (kernel_page_size k)) = Success plan"
    and grants: "kernel_grants k mem (plan_regions plan)"
  shows "(\<exists>v. prepare_with_plan k events counter gi plan mem = Success v) \<longleftrightarrow>
    event_reserve events = No_exception \<and> event_view events = No_exception \<and> \<not> epoch_exhausted counter \<and>
    (\<forall>r \<in> set (plan_regions plan). free_range (region_range r) mem)"
proof -
  have wf: "plan_request_wf (image_plan_request gi (kernel_page_size k))" using load by (simp add: loadable_image_def)
  have spans: "spans_ok k (map region_range (plan_regions plan))" by (rule plan_spans_ok [OF wf plan])
  have "\<exists>v. protect_regions k (ready_regions plan) (filled_regions gi view plan mem) (plan_regions plan) = Success v"
    by (rule protect_regions_grants [OF k grants _ _ spans]) (simp_all add: filled_regions_def)
  then have finish: "(\<exists>v. finish_prepare k counter plan (filled_regions gi view plan mem) = Success v) \<longleftrightarrow> \<not> epoch_exhausted counter"
    by (auto simp: finish_prepare_def)
  show ?thesis
    using map_regions_grants [OF k grants _ _ spans plan_regions_disjoint [OF wf plan], of mem "empty_prepared\<lparr>prepared_plan := plan\<rparr>"]
      map_regions_free [OF k spans] finish
    unfolding prepare_with_plan_eq [OF k load plan] catch_event_Success and_then_Success by blast
qed

lemma prepare_with_plan_spec:
  assumes k: "kernel_contract k" and load: "loadable_image gi view"
    and plan: "build_execution_memory_plan ev (image_plan_request gi (kernel_page_size k)) = Success plan"
  shows "restores mem (prepare_with_plan k events counter gi plan mem)"
    and "prepare_with_plan k events counter gi plan mem = Success (prepared, mem', counter') \<Longrightarrow>
      prepared = (ready_regions plan)\<lparr>prepared_epoch := counter\<rparr> \<and> \<not> epoch_exhausted counter \<and> counter' = counter + 1 \<and>
      prepared_memory gi view plan mem mem' \<and> destroy_prepared k prepared mem' = mem"
proof -
  have wf: "plan_request_wf (image_plan_request gi (kernel_page_size k))" using load by (simp add: loadable_image_def)
  have spans: "spans_ok k (map region_range (plan_regions plan))" by (rule plan_spans_ok [OF wf plan])
  let ?map = "map_regions k (empty_prepared\<lparr>prepared_plan := plan\<rparr>) mem (plan_regions plan)"
  have free: "mem x = None" if "?map = Success v" "in_ranges (map region_range (plan_regions plan)) x" for v x
    using map_regions_free [OF k spans that(1)] that(2) by (auto simp: in_ranges_def free_range_def)
  note fin = finish_prepare_spec [OF k wf plan]
  have "restores mem ?map"
    using map_regions_spec [OF k spans, of "empty_prepared\<lparr>prepared_plan := plan\<rparr>" mem mem] by (simp add: empty_prepared_def spans_ok_def)
  then show "restores mem (prepare_with_plan k events counter gi plan mem)"
    unfolding prepare_with_plan_eq [OF k load plan]
    using fin(1) free by (cases "event_reserve events"; cases "event_view events")
      (auto simp: catch_event_def intro!: restores_with_value)
  show "prepare_with_plan k events counter gi plan mem = Success (prepared, mem', counter') \<Longrightarrow>
      prepared = (ready_regions plan)\<lparr>prepared_epoch := counter\<rparr> \<and> \<not> epoch_exhausted counter \<and> counter' = counter + 1 \<and>
      prepared_memory gi view plan mem mem' \<and> destroy_prepared k prepared mem' = mem"
    unfolding prepare_with_plan_eq [OF k load plan] catch_event_Success and_then_Success using fin(2) free by blast
qed

section \<open>Properties\<close>

text \<open>
  C19. Preparing the memory of a built image never stores outside mapped writable memory. When it fails,
  whatever the reason and however far it got, the process memory is exactly what it was. When it
  succeeds, the regions of the image's plan were free and are now mapped with exactly the planned
  permissions, every byte of them is the ELF file's, the initial stack's or zero, nothing else changed,
  the owner has a fresh nonzero epoch, and destroying the owner restores the memory.
\<close>

theorem prepare_linux_guest_memory_correct:
  assumes "kernel_contract k" and "host_object (request_image_bytes request)"
    and "request_host (request_initial_stack request)" and "range_wf (request_storage (request_initial_stack request))"
    and "build_guest_image host request = Success gi"
  shows "case prepare_linux_guest_memory k events counter gi mem of
      Undefined \<Rightarrow> False
    | Failure (e, mem') \<Rightarrow> mem' = mem
    | Success (prepared, mem', counter') \<Rightarrow>
        build_execution_memory_plan (event_plan events) (image_plan_request gi (kernel_page_size k)) = Success (prepared_plan prepared) \<and>
        (\<forall>r \<in> set (plan_regions (prepared_plan prepared)). \<forall>x. range_contains (region_range r) x \<longrightarrow>
           mem x = None \<and> mem' x = Some (initial_byte gi x, region_permissions r)) \<and>
        (\<forall>x. (\<forall>r \<in> set (plan_regions (prepared_plan prepared)). \<not> range_contains (region_range r) x) \<longrightarrow> mem' x = mem x) \<and>
        prepared_epoch prepared = counter \<and> counter \<noteq> 0 \<and> unat counter' = unat counter + 1 \<and>
        destroy_prepared k prepared mem' = mem"
proof -
  note load = built_image_loadable [OF assms(2-5)]
  let ?v = "image_view (request_image_bytes request)" and ?q = "image_plan_request gi (kernel_page_size k)"
  have wf: "plan_request_wf ?q" using load(1) by (simp add: loadable_image_def)
  have "build_execution_memory_plan (event_plan events) ?q \<noteq> Undefined"
    by (cases "event_plan events") (simp_all add: build_execution_memory_plan_def build_plan_body_defined)
  then consider "restores mem (prepare_linux_guest_memory k events counter gi mem)"
      "\<nexists>v. prepare_linux_guest_memory k events counter gi mem = Success v"
    | plan where "build_execution_memory_plan (event_plan events) ?q = Success plan"
      "prepare_linux_guest_memory k events counter gi mem = prepare_with_plan k events counter gi plan mem"
    by (cases "build_execution_memory_plan (event_plan events) ?q"; cases "sint (kernel_page_size k) \<le> 0")
      (simp_all add: prepare_linux_guest_memory_def Let_def)
  then show ?thesis
  proof cases
    case 1
    then show ?thesis by (auto simp: restores_def split: Result.splits)
  next
    case 2
    note spec = prepare_with_plan_spec [OF assms(1) load(1) 2(1)]
    show ?thesis
    proof (cases "prepare_with_plan k events counter gi plan mem")
      case (Success v)
      then obtain p mem' c where v: "prepare_with_plan k events counter gi plan mem = Success (p, mem', c)"
        by (cases v) simp
      note ok = spec(2) [OF v]
      have "unat (counter + 1) = unat counter + 1"
        using ok by (intro not_exhausted_less(2)) simp
      with ok 2 show ?thesis
        unfolding 2(2) v by (auto simp: prepared_memory_def ready_regions_def load(2) in_ranges_def epoch_exhausted_def)
    qed (use spec(1) [of mem events counter] 2 in \<open>auto simp: restores_def\<close>)
  qed
qed

text \<open>
  C20. Where the kernel grants the regions of the image's plan, preparation succeeds exactly when the
  page size is positive, the image has a memory plan, its regions are free in the process, no
  allocation fails and an epoch is left.
\<close>

theorem prepare_linux_guest_memory_complete:
  assumes "kernel_contract k" and "host_object (request_image_bytes request)"
    and "request_host (request_initial_stack request)" and "range_wf (request_storage (request_initial_stack request))"
    and "build_guest_image host request = Success gi"
    and "\<forall>plan. build_execution_memory_plan (event_plan events) (image_plan_request gi (kernel_page_size k)) = Success plan \<longrightarrow>
      kernel_grants k mem (plan_regions plan)"
  shows "(\<exists>v. prepare_linux_guest_memory k events counter gi mem = Success v) \<longleftrightarrow>
    0 < sint (kernel_page_size k) \<and>
    (\<exists>plan. build_execution_memory_plan (event_plan events) (image_plan_request gi (kernel_page_size k)) = Success plan \<and>
      (\<forall>r \<in> set (plan_regions plan). \<forall>x. range_contains (region_range r) x \<longrightarrow> mem x = None)) \<and>
    event_reserve events = No_exception \<and> event_view events = No_exception \<and> counter \<noteq> 0 \<and> counter \<noteq> u64_max"
proof (cases "build_execution_memory_plan (event_plan events) (image_plan_request gi (kernel_page_size k))")
  case (Success plan)
  note load = built_image_loadable(1) [OF assms(2-5)]
  have "kernel_grants k mem (plan_regions plan)" using assms(6) Success by blast
  from prepare_with_plan_Success [OF assms(1) load Success this] Success show ?thesis
    by (auto simp: prepare_linux_guest_memory_def Let_def free_range_def epoch_exhausted_def)
qed (auto simp: prepare_linux_guest_memory_def Let_def)

section \<open>A concrete preparation\<close>

text \<open>
  A kernel with a lowest mappable page (EPERM below it) and 47 bits of user addresses (ENOMEM above).
\<close>

definition sample_kernel :: Kernel where
  "sample_kernel = \<lparr>kernel_page_size = 0x1000, kernel_sysconf_errno = 0,
     kernel_mmap = (\<lambda>mem a n. let r = \<lparr>range_base = a, range_size = n\<rparr> in
       if a < 0x1000 then (Map_failed 1, mem)
       else if 2 ^ 47 < unat a + unat n then (Map_failed 12, mem)
       else if free_range r mem then (Map_at a, zeroed_range r mem) else (Map_failed EEXIST, mem)),
     kernel_munmap = (\<lambda>mem a n. unmapped_range \<lparr>range_base = a, range_size = n\<rparr> mem),
     kernel_mprotect = (\<lambda>mem a n p. (None, protected_range \<lparr>range_base = a, range_size = n\<rparr> (host_permissions p) mem))\<rparr>"

definition sample_events :: Prepare_events where
  "sample_events = \<lparr>event_plan = No_exception, event_reserve = No_exception, event_view = No_exception\<rparr>"

lemma sample_kernel_fields [simp]: "kernel_page_size sample_kernel = 0x1000" "event_plan sample_events = No_exception"
  by (simp_all add: sample_kernel_def sample_events_def)

lemma sample_kernel_ok: "kernel_contract sample_kernel"
  by (simp add: kernel_contract_def sample_kernel_def Let_def)

lemma sample_image_fields [simp]:
  "guest_mappings sample_image = sorted_mappings sample_elf" "guest_elf sample_image = decode_image sample_elf"
  "guest_image_bytes sample_image = sample_elf" "guest_initial_stack sample_image = stack_image sample_stack"
  by (simp_all add: sample_image_def image_of_def)

lemma sample_elf_entry: "elf_entry (decode_header sample_elf) = 0x400000"
  by (simp add: decode_header_def field_nat_def sample_elf_def)

definition sample_image_plan :: ExecutionMemoryPlan where
  "sample_image_plan = \<lparr>plan_host_page_size = 0x1000, plan_regions =
     [\<lparr>region_range = \<lparr>range_base = 0x7000, range_size = 0x1000\<rparr>, region_permissions = 3,
        region_sources = [\<lparr>source_kind = initial_stack_kind, source_index = 0\<rparr>]\<rparr>,
      \<lparr>region_range = \<lparr>range_base = 0x400000, range_size = 0x1000\<rparr>, region_permissions = 5,
        region_sources = [\<lparr>source_kind = mapping_kind, source_index = 0\<rparr>]\<rparr>]\<rparr>"

lemma sample_kernel_grants: "kernel_grants sample_kernel mem (plan_regions sample_image_plan)"
  by (simp add: kernel_grants_def sample_kernel_def sample_image_plan_def Let_def)

lemma sample_sorted: "sorted_mappings sample_elf = image_mappings sample_elf"
  by (simp add: sorted_mappings_def sample_mappings mapping_intent_less_def file_intent_def zero_intent_def)

lemma sample_plan_request_image:
  "image_plan_request sample_image 0x1000 = \<lparr>plan_mappings =
      [file_intent sample_segment \<lparr>range_base = 0x400000, range_size = 120\<rparr>,
       zero_intent sample_segment \<lparr>range_base = 0x400078, range_size = 0xf88\<rparr>],
     plan_stack_storage = \<lparr>range_base = 0x7000, range_size = 0x100\<rparr>, plan_entry_point = 0x400000,
     plan_stack_pointer = 0x70b0, plan_page_size = 0x1000\<rparr>"
  using sample_stack_request(5)
  by (simp add: image_plan_request_def sample_sorted sample_mappings sample_elf_entry stack_image_def) (simp add: sample_stack_def)

lemma sample_image_plan_built:
  "build_execution_memory_plan No_exception (image_plan_request sample_image 0x1000) = Success sample_image_plan"
  by (simp add: sample_plan_request_image build_execution_memory_plan_def build_plan_body_def file_intent_def zero_intent_def
      sample_segment_def from_elf_flags_def source_less_def
      is_power_of_two_def range_empty_def to_page_span_def stack_span_def checked_from_bits_def kKnownMask_def Let_def
      build_region_def span_covers_def GuestRange_create_def check_entry_and_stack_def range_contains_def permissions_has_def
      sample_image_plan_def)

lemma sample_prepared:
  "\<exists>v. prepare_linux_guest_memory sample_kernel sample_events 1 sample_image Map.empty = Success v"
proof -
  have load: "loadable_image sample_image (image_view sample_elf)"
    using built_image_loadable(1) [OF _ _ _ sample_image_built] sample_elf_host sample_stack_request by simp
  have "\<exists>v. prepare_with_plan sample_kernel sample_events 1 sample_image sample_image_plan Map.empty = Success v"
    using prepare_with_plan_Success [OF sample_kernel_ok load _ sample_kernel_grants] sample_image_plan_built
    by (simp add: sample_kernel_def sample_events_def epoch_exhausted_def free_range_def)
  then show ?thesis
    using sample_image_plan_built by (simp add: prepare_linux_guest_memory_def sample_kernel_def sample_events_def)
qed

lemma sample_initial_bytes:
  "initial_byte sample_image 0x400001 = 69" "initial_byte sample_image 0x400fff = 0" "initial_byte sample_image 0x70b0 = 1"
proof -
  have used: "stack_used_range (stack_image sample_stack) = \<lparr>range_base = 0x70b0, range_size = 80\<rparr>"
    using sample_stack_request(5,6) by (simp add: stack_image_def)
  have loads: "load_headers [sample_segment] = [sample_segment]" by (simp add: load_headers_def sample_segment_def)
  show "initial_byte sample_image 0x400001 = 69" "initial_byte sample_image 0x400fff = 0"
    by (simp_all add: initial_byte_def used sample_headers loads Let_def range_contains_iff segment_holds_def segment_byte_def)
      (simp_all add: sample_segment_def sample_elf_def)
  show "initial_byte sample_image 0x70b0 = 1"
    by (simp add: initial_byte_def used Let_def range_contains_iff) (simp add: stack_image_def control_words_def sample_stack_def nth_append le_bytes_def upt_conv_Cons)
qed

theorem prepare_linux_guest_memory_correct_witness:
  "\<exists>prepared mem'. prepare_linux_guest_memory sample_kernel sample_events 1 sample_image Map.empty = Success (prepared, mem', 2) \<and>
     mem' 0x400001 = Some (69, 5) \<and> mem' 0x400fff = Some (0, 5) \<and> mem' 0x70b0 = Some (1, 3) \<and> mem' 0x401000 = None"
proof -
  obtain p mem' c where v: "prepare_linux_guest_memory sample_kernel sample_events 1 sample_image Map.empty = Success (p, mem', c)"
    using sample_prepared by (metis prod_cases3)
  note app = prepare_linux_guest_memory_correct [OF sample_kernel_ok _ _ _ sample_image_built,
      where events = sample_events and counter = 1 and mem = Map.empty]
  have ok: "build_execution_memory_plan No_exception (image_plan_request sample_image 0x1000) = Success (prepared_plan p)"
    "\<forall>r \<in> set (plan_regions (prepared_plan p)). \<forall>x. range_contains (region_range r) x \<longrightarrow>
       mem' x = Some (initial_byte sample_image x, region_permissions r)"
    "\<forall>x. (\<forall>r \<in> set (plan_regions (prepared_plan p)). \<not> range_contains (region_range r) x) \<longrightarrow> mem' x = None"
    "unat c = 2"
    using app sample_elf_host sample_stack_request by (auto simp: v)
  have plan: "prepared_plan p = sample_image_plan" using ok(1) sample_image_plan_built by simp
  have "mem' 0x400001 = Some (69, 5)" "mem' 0x400fff = Some (0, 5)" "mem' 0x70b0 = Some (1, 3)" "mem' 0x401000 = None"
    using ok(2,3) unfolding plan
    by (simp_all add: sample_image_plan_def range_contains_iff sample_initial_bytes)
  moreover have "c = 2" using ok(4) by (simp add: word_unat_eq_iff)
  ultimately show ?thesis using v by auto
qed

theorem prepare_linux_guest_memory_complete_witness:
  "(\<exists>v. prepare_linux_guest_memory sample_kernel sample_events 1 sample_image Map.empty = Success v) \<and>
   \<not> (\<exists>v. prepare_linux_guest_memory sample_kernel sample_events u64_max sample_image Map.empty = Success v)"
proof -
  have events: "event_reserve sample_events = No_exception" "event_view sample_events = No_exception"
    by (simp_all add: sample_events_def)
  have app: "(\<exists>v. prepare_linux_guest_memory sample_kernel sample_events counter sample_image Map.empty = Success v) \<longleftrightarrow>
      counter \<noteq> 0 \<and> counter \<noteq> u64_max" for counter
    using prepare_linux_guest_memory_complete [OF sample_kernel_ok _ _ _ sample_image_built,
        where events = sample_events and counter = counter and mem = Map.empty]
      sample_elf_host sample_stack_request sample_image_plan_built sample_kernel_grants
    by (simp add: events)
  show ?thesis unfolding app by simp
qed

end
