(* ===== verification/Loaded_Program.thy ===== *)
theory Loaded_Program
  imports Linux_Memory
begin

text \<open>
  The pipeline end to end: a program read from an ELF file, built into an image, planned, prepared on
  Linux and accessed through GuestMemoryAccess. The properties relate the accesses to the program
  headers of the file and to the initial stack, without reference to the components in between.
\<close>

text \<open>PF_R, PF_W and PF_X, and what the program headers permit at an address.\<close>

fun elf_flag :: "GuestPermission \<Rightarrow> u32" where
  "elf_flag read_permission = 4"
| "elf_flag write_permission = 2"
| "elf_flag execute_permission = 1"

definition segment_permits :: "GuestImage \<Rightarrow> GuestPermission \<Rightarrow> u64 \<Rightarrow> bool" where
  "segment_permits gi p x \<longleftrightarrow>
     (\<exists>h \<in> set (load_headers (image_program_headers (guest_elf gi))). segment_holds x h \<and> ph_flags h AND elf_flag p \<noteq> 0)"

definition program_allows :: "GuestImage \<Rightarrow> AccessKind \<Rightarrow> u64 \<Rightarrow> bool" where
  "program_allows gi kind x \<longleftrightarrow>
     segment_permits gi (access_permission kind) x \<or> range_contains (stack_storage (guest_initial_stack gi)) x"

lemma elf_flags_permission: "permissions_has (from_elf_flags flags) p \<longleftrightarrow> flags AND elf_flag p \<noteq> 0"
  by (cases p) (simp_all add: from_elf_flags_has)

lemma mappings_permit:
  assumes "host_object (request_image_bytes request)" and "build_guest_image host request = Success gi"
  shows "(\<exists>m \<in> set (guest_mappings gi). range_contains (intent_range m) x \<and> permissions_has (intent_permissions m) p) \<longleftrightarrow>
    segment_permits gi p x"
proof -
  let ?b = "request_image_bytes request"
  have "guest_image_accepts host request gi" by (rule guest_image_parts [OF assms])
  then have acc: "elf64_accepts ?b (request_elf_profile request)"
    and gi: "guest_elf gi = decode_image ?b" "guest_mappings gi = sorted_mappings ?b"
    by (auto simp: guest_image_accepts_def Let_def image_of_def)
  have header: "(\<exists>m \<in> set (load_intents h). range_contains (intent_range m) x \<and> permissions_has (intent_permissions m) p) \<longleftrightarrow>
      segment_holds x h \<and> ph_flags h AND elf_flag p \<noteq> 0"
    if "h \<in> set (load_headers (image_program_headers (decode_image ?b)))" for h
  proof -
    have h: "load_fits h" using accepted_load_fits [OF acc] that by blast
    show ?thesis
      using load_intents_holds [OF h] load_intents_wf(6) [OF h] by (auto simp: elf_flags_permission)
  qed
  have "(\<exists>m \<in> set (guest_mappings gi). range_contains (intent_range m) x \<and> permissions_has (intent_permissions m) p) \<longleftrightarrow>
    (\<exists>h \<in> set (load_headers (image_program_headers (decode_image ?b))). \<exists>m \<in> set (load_intents h).
       range_contains (intent_range m) x \<and> permissions_has (intent_permissions m) p)"
    by (auto simp: gi sorted_mappings_def image_mappings_def)
  also have "\<dots> \<longleftrightarrow> segment_permits gi p x"
    unfolding segment_permits_def gi(1) using header by (rule bex_cong [OF refl])
  finally show ?thesis .
qed

section \<open>The plan never refuses what the program allows\<close>

lemma planned_permission:
  assumes wf: "plan_request_wf (image_plan_request gi ps)"
    and plan: "build_execution_memory_plan ev (image_plan_request gi ps) = Success plan"
    and "(\<exists>m \<in> set (guest_mappings gi). range_contains (intent_range m) x \<and> permissions_has (intent_permissions m) p) \<or>
      range_contains (stack_storage (guest_initial_stack gi)) x \<and> p \<noteq> execute_permission"
  shows "\<exists>r \<in> set (plan_regions plan). range_contains (region_range r) x \<and> permissions_has (region_permissions r) p"
proof -
  note built = built_plan [OF wf plan]
  have "page_allows (image_plan_request gi ps) (x div ps) p"
    using assms(3) by (auto simp: page_allows_def page_touches_def)
  moreover have "in_ranges (map region_range (plan_regions plan)) x"
    using assms(3) by (intro plan_covers_image [OF wf plan]) (auto simp: in_ranges_def)
  then obtain r where "r \<in> set (plan_regions plan)" "range_contains (region_range r) x" by (auto simp: in_ranges_def)
  ultimately show ?thesis
    using region_address(1) [OF built(1)] unfolding built(2) by auto
qed

section \<open>Prepared programs\<close>

lemma prepared_parts:
  assumes "kernel_contract k" and "host_object (request_image_bytes request)"
    and "request_host (request_initial_stack request)" and "range_wf (request_storage (request_initial_stack request))"
    and "build_guest_image host request = Success gi"
    and "prepare_linux_guest_memory k events counter gi mem = Success (prepared, mem', counter')"
  obtains "plan_request_wf (image_plan_request gi (kernel_page_size k))"
    and "build_execution_memory_plan (event_plan events) (image_plan_request gi (kernel_page_size k)) = Success (prepared_plan prepared)"
    and "\<forall>r \<in> set (plan_regions (prepared_plan prepared)). \<forall>x. range_contains (region_range r) x \<longrightarrow>
      mem' x = Some (initial_byte gi x, region_permissions r)"
    and "prepared_regions prepared \<noteq> []"
proof -
  note load = built_image_loadable [OF assms(2-5)]
  obtain plan where plan: "build_execution_memory_plan (event_plan events) (image_plan_request gi (kernel_page_size k)) = Success plan"
    and p: "prepare_with_plan k events counter gi plan mem = Success (prepared, mem', counter')"
    using assms(6) by (auto simp: prepare_linux_guest_memory_def Let_def split: if_splits Result.splits)
  have wf: "plan_request_wf (image_plan_request gi (kernel_page_size k))" and "stack_ok (guest_initial_stack gi)"
    using load(1) by (simp_all add: loadable_image_def)
  from this(2) have "range_contains (stack_storage (guest_initial_stack gi)) (range_base (stack_used_range (guest_initial_stack gi)))"
    using range_offset_contains(1) [of "stack_used_range (guest_initial_stack gi)" 0] by (simp add: stack_ok_def)
  from plan_covers_image [OF wf plan disjI2 [OF this]] have "plan_regions plan \<noteq> []" by auto
  with wf show ?thesis
    using that prepare_with_plan_spec(2) [OF assms(1) load(1) plan p] plan
    by (simp add: ready_regions_def prepared_memory_def load(2))
qed

lemma prepared_access_facts:
  assumes "kernel_contract k" and "host_object (request_image_bytes request)"
    and "request_host (request_initial_stack request)" and "range_wf (request_storage (request_initial_stack request))"
    and "build_guest_image host request = Success gi"
    and "prepare_linux_guest_memory k events counter gi mem = Success (prepared, mem', counter')"
  shows "access_ready (prepared_access gi prepared) gi (prepared_plan prepared)"
    and "backs mem' (prepared_plan prepared)"
    and "byte_allowed gi (prepared_plan prepared) kind x \<longleftrightarrow> program_allows gi kind x"
    and "program_allows gi kind x \<Longrightarrow> fst (the (mem' x)) = initial_byte gi x"
    and "is_exact_executable_address (prepared_access gi prepared) x \<longleftrightarrow> segment_permits gi execute_permission x"
    and "\<not> (program_allows gi write_access x \<and> segment_permits gi execute_permission x)"
proof -
  obtain wf: "plan_request_wf (image_plan_request gi (kernel_page_size k))"
    and plan: "build_execution_memory_plan (event_plan events) (image_plan_request gi (kernel_page_size k)) = Success (prepared_plan prepared)"
    and bytes: "\<forall>r \<in> set (plan_regions (prepared_plan prepared)). \<forall>x. range_contains (region_range r) x \<longrightarrow>
      mem' x = Some (initial_byte gi x, region_permissions r)"
    and regions: "prepared_regions prepared \<noteq> []"
    using prepared_parts [OF assms] by blast
  have guest: "guest_allows gi kind x \<longleftrightarrow> program_allows gi kind x" for kind x
    unfolding guest_allows_def program_allows_def mappings_permit [OF assms(2,5)] ..
  show "access_ready (prepared_access gi prepared) gi (prepared_plan prepared)"
    using wf regions region_shape(1) [OF wf plan] by (auto simp: access_ready_def prepared_access_def ranges_wf_def plan_request_wf_def)
  show "backs mem' (prepared_plan prepared)" using bytes by (auto simp: backs_def)
  have data: "access_permission kind \<noteq> execute_permission" for kind by (simp add: access_permission_def)
  have planned: "plan_allows (prepared_plan prepared) kind x" if "program_allows gi kind x" for kind x
    using planned_permission [OF wf plan, of x "access_permission kind"] that data
    unfolding plan_allows_def guest [symmetric] guest_allows_def by blast
  then show "byte_allowed gi (prepared_plan prepared) kind x \<longleftrightarrow> program_allows gi kind x"
    by (auto simp: byte_allowed_def guest)
  show "program_allows gi kind x \<Longrightarrow> fst (the (mem' x)) = initial_byte gi x"
    using planned [of kind x] bytes by (auto simp: plan_allows_def)
  have exec: "\<exists>r \<in> set (plan_regions (prepared_plan prepared)). range_contains (region_range r) x \<and>
      permissions_has (region_permissions r) execute_permission" if "segment_permits gi execute_permission x"
    using planned_permission [OF wf plan, of x execute_permission] that mappings_permit [OF assms(2,5)] by blast
  then show "is_exact_executable_address (prepared_access gi prepared) x \<longleftrightarrow> segment_permits gi execute_permission x"
    using mappings_permit [OF assms(2,5), of x execute_permission] regions
    by (auto simp: is_exact_executable_address_def prepared_access_def mappings_execute_iff regions_execute_iff)
  show "\<not> (program_allows gi write_access x \<and> segment_permits gi execute_permission x)"
    using exec planned [of write_access x] built_plan(4) [OF wf plan, of "x div kernel_page_size k"] built_plan(2) [OF wf plan]
      region_address(1) [OF built_plan(1) [OF wf plan]]
    by (auto simp: plan_allows_def access_permission_def)
qed

section \<open>Properties\<close>

text \<open>
  C21. A program that was loaded and prepared is accessed exactly as its ELF file and its stack say. A
  read returns bytes exactly when each address lies in a PT_LOAD segment with PF_R or in the stack, and
  the bytes are the initial memory; a write succeeds exactly when each address lies in a segment with
  PF_W or in the stack; an address may be fetched exactly when it lies in a segment with PF_X; and no
  address is both writable and fetchable.
\<close>

theorem loaded_program_access:
  assumes "kernel_contract k" and "host_object (request_image_bytes request)"
    and "request_host (request_initial_stack request)" and "range_wf (request_storage (request_initial_stack request))"
    and "build_guest_image host request = Success gi"
    and "prepare_linux_guest_memory k events counter gi mem = Success (prepared, mem', counter')"
    and "n \<noteq> 0" and "host_object input" and "input \<noteq> []"
  shows "(guest_read (prepared_access gi prepared) mem' a n = Success output \<longleftrightarrow>
      unat a + unat n \<le> 2 ^ 64 \<and> (\<forall>i < unat n. program_allows gi read_access (a + of_nat i)) \<and>
      output = map (\<lambda>i. initial_byte gi (a + of_nat i)) [0..<unat n]) \<and>
    (guest_write (prepared_access gi prepared) mem' a input = Success mem'' \<longleftrightarrow>
      unat a + length input \<le> 2 ^ 64 \<and> (\<forall>i < length input. program_allows gi write_access (a + of_nat i)) \<and>
      mem'' = write_bytes mem' a input) \<and>
    (is_exact_executable_address (prepared_access gi prepared) a \<longleftrightarrow> segment_permits gi execute_permission a) \<and>
    \<not> (program_allows gi write_access a \<and> is_exact_executable_address (prepared_access gi prepared) a)"
proof -
  note facts = prepared_access_facts [OF assms(1-6)]
  have read: "guest_read (prepared_access gi prepared) mem' a n = Success output \<longleftrightarrow>
      unat a + unat n \<le> 2 ^ 64 \<and> (\<forall>i < unat n. program_allows gi read_access (a + of_nat i)) \<and>
      output = map (\<lambda>i. initial_byte gi (a + of_nat i)) [0..<unat n]"
    using assms(7) facts(4) [of read_access]
    unfolding read_Success_iff [OF facts(1,2)] validate_Success [OF facts(1)] facts(3) by (auto intro!: map_cong)
  have len: "unat (of_nat (length input) :: u64) = length input" using assms(8) by (rule host_object_unat)
  then have "of_nat (length input) \<noteq> (0 :: u64)" using assms(9) by (metis length_0_conv unat_0)
  then have "guest_write (prepared_access gi prepared) mem' a input = Success mem'' \<longleftrightarrow>
      unat a + length input \<le> 2 ^ 64 \<and> (\<forall>i < length input. program_allows gi write_access (a + of_nat i)) \<and>
      mem'' = write_bytes mem' a input"
    unfolding write_Success_iff [OF facts(1,2) assms(8)] validate_Success [OF facts(1)] facts(3) len by auto
  with read facts(5,6) show ?thesis by blast
qed

lemma sample_program_allows: "program_allows sample_image read_access 0x400001" "\<not> program_allows sample_image write_access 0x400001"
  "segment_permits sample_image execute_permission 0x400001"
proof -
  have loads: "load_headers [sample_segment] = [sample_segment]" by (simp add: load_headers_def sample_segment_def)
  show "program_allows sample_image read_access 0x400001" "\<not> program_allows sample_image write_access 0x400001"
    "segment_permits sample_image execute_permission 0x400001"
    by (simp_all add: program_allows_def segment_permits_def sample_headers loads access_permission_def)
      (simp_all add: segment_holds_def sample_segment_def stack_image_def sample_stack_def range_contains_iff)
qed

theorem loaded_program_access_witness:
  "\<exists>prepared mem' counter'.
     prepare_linux_guest_memory sample_kernel sample_events 1 sample_image Map.empty = Success (prepared, mem', counter') \<and>
     guest_read (prepared_access sample_image prepared) mem' 0x400001 1 = Success [69] \<and>
     (\<nexists>mem''. guest_write (prepared_access sample_image prepared) mem' 0x400001 [0] = Success mem'') \<and>
     is_exact_executable_address (prepared_access sample_image prepared) 0x400001"
proof -
  obtain p mem' c where v: "prepare_linux_guest_memory sample_kernel sample_events 1 sample_image Map.empty = Success (p, mem', c)"
    using sample_prepared by (metis prod_cases3)
  note app = loaded_program_access [OF sample_kernel_ok _ _ _ sample_image_built v, of 1 "[0]" "0x400001"]
  have "guest_read (prepared_access sample_image p) mem' 0x400001 1 = Success [69]"
    "guest_write (prepared_access sample_image p) mem' 0x400001 [0] \<noteq> Success mem''"
    "is_exact_executable_address (prepared_access sample_image p) 0x400001" for mem''
    using app [of "[69]" mem''] sample_elf_host sample_stack_request sample_program_allows sample_initial_bytes
    by (auto simp: host_object_def)
  with v show ?thesis by blast
qed

end
