(* ===== verification/Sce_Symbols.thy ===== *)
theory Sce_Symbols
  imports Dynamic_Symbols Dynamic_String
begin

text \<open>
  src/loader/sce_symbol_identity.cpp and src/loader/sce_dynamic_symbol.cpp: the names of dynamic
  symbols, which either are plain or spell an 11-character NID, a library and a module separated by
  number signs, and the record of a symbol with its parsed name. Strings are lists of bytes.
\<close>

section \<open>Symbol names\<close>

datatype SceSymbolIdentityErrorCode =
    malformed_long_form
  | invalid_nid_length
  | identity_host_allocation_failure

record SceSymbolIdentityError =
  identity_error_code :: SceSymbolIdentityErrorCode

record SceSymbolIdentity =
  identity_nid :: "u8 list"
  identity_library_id :: "u8 list"
  identity_module_id :: "u8 list"

record SceDynamicSymbolName =
  name_raw :: "u8 list"
  name_identity :: "SceSymbolIdentity option"

definition identity_error :: "SceSymbolIdentityErrorCode \<Rightarrow> SceSymbolIdentityError" where
  "identity_error code = \<lparr>identity_error_code = code\<rparr>"

text \<open>std::string_view::find of a character from a position, and substr.\<close>

definition find_from :: "u8 \<Rightarrow> u8 list \<Rightarrow> nat \<Rightarrow> nat option" where
  "find_from c raw pos = find (\<lambda>i. raw ! i = c) [pos..<length raw]"

definition substr :: "u8 list \<Rightarrow> nat \<Rightarrow> nat \<Rightarrow> u8 list" where
  "substr raw pos n = take n (drop pos raw)"

definition number_sign :: u8 where
  "number_sign = 35"

text \<open>\<open>thrown\<close> is the exception one of the string copies throws, if any.\<close>

definition parse_sce_dynamic_symbol_name ::
  "host_event \<Rightarrow> u8 list \<Rightarrow> (SceDynamicSymbolName, SceSymbolIdentityError) Result" where
  "parse_sce_dynamic_symbol_name thrown raw =
     (case find_from number_sign raw 0 of
        None \<Rightarrow>
          if thrown \<noteq> No_exception then Failure (identity_error identity_host_allocation_failure)
          else Success \<lparr>name_raw = raw, name_identity = None\<rparr>
      | Some first_separator \<Rightarrow>
          (case find_from number_sign raw (first_separator + 1) of
             None \<Rightarrow> Failure (identity_error malformed_long_form)
           | Some second_separator \<Rightarrow>
               if find_from number_sign raw (second_separator + 1) \<noteq> None
               then Failure (identity_error malformed_long_form)
               else let nid = substr raw 0 first_separator;
                        library_id = substr raw (first_separator + 1) (second_separator - first_separator - 1);
                        module_id = drop (second_separator + 1) raw in
                 if nid = [] \<or> library_id = [] \<or> module_id = [] then Failure (identity_error malformed_long_form)
                 else if length nid \<noteq> 11 then Failure (identity_error invalid_nid_length)
                 else if thrown \<noteq> No_exception then Failure (identity_error identity_host_allocation_failure)
                 else Success \<lparr>name_raw = raw, name_identity = Some
                   \<lparr>identity_nid = nid, identity_library_id = library_id, identity_module_id = module_id\<rparr>\<rparr>))"

section \<open>Symbol records\<close>

datatype SceDynamicSymbolErrorCode =
    dynamic_symbol_failure
  | dynamic_string_failure
  | sce_identity_failure

record SceDynamicSymbolError =
  sce_error_code :: SceDynamicSymbolErrorCode
  sce_error_symbol_index :: u64
  sce_error_symbol_error :: "DynamicSymbolError option"
  sce_error_string_error :: "DynamicStringError option"
  sce_error_identity_error :: "SceSymbolIdentityError option"

record SceDynamicSymbolRecord =
  sce_symbol :: DynamicSymbol
  sce_name :: SceDynamicSymbolName

definition symbol_failure :: "u64 \<Rightarrow> DynamicSymbolError \<Rightarrow> SceDynamicSymbolError" where
  "symbol_failure index e = \<lparr>sce_error_code = dynamic_symbol_failure, sce_error_symbol_index = index,
     sce_error_symbol_error = Some e, sce_error_string_error = None, sce_error_identity_error = None\<rparr>"

definition string_failure :: "u64 \<Rightarrow> DynamicStringError \<Rightarrow> SceDynamicSymbolError" where
  "string_failure index e = \<lparr>sce_error_code = dynamic_string_failure, sce_error_symbol_index = index,
     sce_error_symbol_error = None, sce_error_string_error = Some e, sce_error_identity_error = None\<rparr>"

definition identity_failure :: "u64 \<Rightarrow> SceSymbolIdentityError \<Rightarrow> SceDynamicSymbolError" where
  "identity_failure index e = \<lparr>sce_error_code = sce_identity_failure, sce_error_symbol_index = index,
     sce_error_symbol_error = None, sce_error_string_error = None, sce_error_identity_error = Some e\<rparr>"

definition materialize_sce_dynamic_symbol ::
  "nat \<Rightarrow> host_allocator \<Rightarrow> host_event \<Rightarrow> DynamicSymbolTableDescriptor \<Rightarrow> DynamicStringTableDescriptor \<Rightarrow> u64 \<Rightarrow>
     InitializedImageView \<Rightarrow> (SceDynamicSymbolRecord, SceDynamicSymbolError) Result" where
  "materialize_sce_dynamic_symbol max_size alloc thrown symbols strings index image_view =
     and_then (parse_dynamic_symbol symbols index image_view) (symbol_failure index) (\<lambda>symbol.
     let name_reference = \<lparr>ref_offset = ucast (symbol_name_offset symbol),
           ref_source_entry_index = symbols_symtab_source_entry_index symbols\<rparr> in
     and_then (resolve_dynamic_string max_size alloc strings name_reference image_view) (string_failure index) (\<lambda>raw_name.
     and_then (parse_sce_dynamic_symbol_name thrown raw_name) (identity_failure index) (\<lambda>name.
     Success \<lparr>sce_symbol = symbol, sce_name = name\<rparr>)))"

section \<open>Reference semantics\<close>

text \<open>The fields of a string between separators.\<close>

primrec split_on :: "u8 \<Rightarrow> u8 list \<Rightarrow> u8 list list" where
  "split_on c [] = [[]]"
| "split_on c (x # xs) = (if x = c then [] # split_on c xs else (x # hd (split_on c xs)) # tl (split_on c xs))"

definition spelling :: "SceSymbolIdentity \<Rightarrow> u8 list" where
  "spelling i = identity_nid i @ number_sign # identity_library_id i @ number_sign # identity_module_id i"

definition identity_wf :: "SceSymbolIdentity \<Rightarrow> bool" where
  "identity_wf i \<longleftrightarrow> length (identity_nid i) = 11 \<and> identity_library_id i \<noteq> [] \<and> identity_module_id i \<noteq> [] \<and>
     number_sign \<notin> set (identity_nid i) \<union> set (identity_library_id i) \<union> set (identity_module_id i)"

definition parsed_name :: "host_event \<Rightarrow> u8 list \<Rightarrow> (SceDynamicSymbolName, SceSymbolIdentityError) Result" where
  "parsed_name thrown raw =
     (let copied = (\<lambda>i. if thrown \<noteq> No_exception then Failure (identity_error identity_host_allocation_failure)
            else Success \<lparr>name_raw = raw, name_identity = i\<rparr>) in
      case split_on number_sign raw of
        [_] \<Rightarrow> copied None
      | [nid, library_id, module_id] \<Rightarrow>
          if nid = [] \<or> library_id = [] \<or> module_id = [] then Failure (identity_error malformed_long_form)
          else if length nid \<noteq> 11 then Failure (identity_error invalid_nid_length)
          else copied (Some \<lparr>identity_nid = nid, identity_library_id = library_id, identity_module_id = module_id\<rparr>)
      | _ \<Rightarrow> Failure (identity_error malformed_long_form))"

lemma split_on_append: "c \<notin> set xs \<Longrightarrow> split_on c (xs @ c # ys) = xs # split_on c ys"
  by (induction xs) auto

lemma split_on_none: "c \<notin> set xs \<Longrightarrow> split_on c xs = [xs]"
  by (induction xs) auto

lemma split_on_nonempty [simp]: "split_on c xs \<noteq> []"
  by (cases xs) auto

lemma drop_conv_map_nth: "drop pos raw = map ((!) raw) [pos..<length raw]"
  by (metis (no_types) add_0 drop_map drop_upt map_nth)

lemma find_from_None: "find_from c raw pos = None \<longleftrightarrow> c \<notin> set (drop pos raw)"
  by (auto simp: find_from_def find_None_iff drop_conv_map_nth)

lemma find_from_Some:
  assumes "find_from c raw pos = Some k"
  shows "\<exists>ps xs ys. raw = ps @ xs @ c # ys \<and> length ps = pos \<and> c \<notin> set xs \<and> k = pos + length xs"
proof -
  obtain j where j: "j < length raw - pos" "raw ! (pos + j) = c" "\<forall>i < j. raw ! (pos + i) \<noteq> c" "k = pos + j"
    using assms by (auto simp: find_from_def find_Some_iff)
  let ?d = "drop pos raw"
  have d: "?d = take j ?d @ c # drop (Suc j) ?d"
    using j(1,2) by (subst id_take_nth_drop [of j ?d]) auto
  have "raw = take pos raw @ take j ?d @ c # drop (Suc j) ?d" by (metis d append_take_drop_id)
  moreover have "c \<notin> set (take j ?d)" using j by (auto simp: in_set_conv_nth)
  moreover have "length (take pos raw) = pos" "length (take j ?d) = j" using j(1) by auto
  ultimately show ?thesis using j(4) by metis
qed

text \<open>A name with a separator is split at the first one.\<close>

lemma parse_name_eq: "parse_sce_dynamic_symbol_name thrown raw = parsed_name thrown raw"
proof (cases "find_from number_sign raw 0")
  case None
  then have "split_on number_sign raw = [raw]" by (intro split_on_none) (simp add: find_from_None)
  with None show ?thesis by (simp add: parse_sce_dynamic_symbol_name_def parsed_name_def)
next
  case (Some k)
  obtain nid rest where raw: "raw = nid @ number_sign # rest" "number_sign \<notin> set nid" "k = length nid"
    using find_from_Some [OF Some] by auto
  have s: "split_on number_sign raw = nid # split_on number_sign rest" using raw split_on_append by simp
  show ?thesis
  proof (cases "find_from number_sign raw (k + 1)")
    case None
    then have "split_on number_sign rest = [rest]"
      using raw by (intro split_on_none) (simp add: find_from_None)
    with None Some s show ?thesis by (simp add: parse_sce_dynamic_symbol_name_def parsed_name_def)
  next
    case second: (Some l)
    obtain ps lib md where "raw = ps @ lib @ number_sign # md" "length ps = k + 1" "number_sign \<notin> set lib" "l = k + 1 + length lib"
      using find_from_Some [OF second] by auto
    then have rest: "rest = lib @ number_sign # md" "number_sign \<notin> set lib" "l = k + 1 + length lib"
      using raw(1,3) by (auto simp: append_eq_append_conv2 append_eq_Cons_conv Cons_eq_append_conv)
    have s2: "split_on number_sign rest = lib # split_on number_sign md" using rest split_on_append by simp
    have parts: "substr raw 0 k = nid" "substr raw (k + 1) (l - k - 1) = lib" "drop (l + 1) raw = md"
      using raw rest by (simp_all add: substr_def)
    have third: "find_from number_sign raw (l + 1) = None \<longleftrightarrow> number_sign \<notin> set md"
      using raw rest by (subst find_from_None) simp_all
    show ?thesis
    proof (cases "number_sign \<in> set md")
      case False
      then have "split_on number_sign md = [md]" by (rule split_on_none)
      with False Some second s s2 parts third show ?thesis
        by (simp add: parse_sce_dynamic_symbol_name_def parsed_name_def Let_def)
    next
      case True
      then obtain xs ys where "md = xs @ number_sign # ys" "number_sign \<notin> set xs" by (metis split_list_first)
      then have "split_on number_sign md = xs # split_on number_sign ys" using split_on_append by simp
      then obtain u v w where "split_on number_sign md = u # v # w" by (cases "split_on number_sign ys") auto
      with True Some second s s2 parts third show ?thesis
        by (simp add: parse_sce_dynamic_symbol_name_def parsed_name_def Let_def)
    qed
  qed
qed
lemma split_on_eq_singleton: "split_on c raw = [x] \<longleftrightarrow> c \<notin> set raw \<and> x = raw"
proof (cases "c \<in> set raw")
  case True
  then obtain xs ys where "raw = xs @ c # ys" "c \<notin> set xs" by (metis split_list_first)
  then show ?thesis by (simp add: split_on_append)
qed (auto simp: split_on_none)

lemma split_on_eq_Cons:
  assumes "fs \<noteq> []"
  shows "split_on c raw = f # fs \<longleftrightarrow> (\<exists>rest. raw = f @ c # rest \<and> c \<notin> set f \<and> split_on c rest = fs)"
proof (intro iffI)
  assume split: "split_on c raw = f # fs"
  then have "c \<in> set raw" using assms split_on_none [of c raw] by auto
  then obtain xs ys where "raw = xs @ c # ys" "c \<notin> set xs" by (metis split_list_first)
  then show "\<exists>rest. raw = f @ c # rest \<and> c \<notin> set f \<and> split_on c rest = fs" using split by (auto simp: split_on_append)
qed (auto simp: split_on_append)

lemma split_on_eq_3:
  "split_on c raw = [x, y, z] \<longleftrightarrow> raw = x @ c # y @ c # z \<and> c \<notin> set x \<union> set y \<union> set z"
  by (auto simp: split_on_eq_Cons split_on_eq_singleton)

lemma parse_name_Success:
  "parse_sce_dynamic_symbol_name thrown raw = Success n \<longleftrightarrow>
    thrown = No_exception \<and> name_raw n = raw \<and>
    (case name_identity n of None \<Rightarrow> number_sign \<notin> set raw | Some i \<Rightarrow> identity_wf i \<and> raw = spelling i)"
proof -
  have n: "\<lparr>name_raw = r, name_identity = i\<rparr> = n \<longleftrightarrow> name_raw n = r \<and> name_identity n = i" for r i
    by (cases n) auto
  have plain: "(\<exists>x. split_on number_sign raw = [x]) \<longleftrightarrow> number_sign \<notin> set raw" by (simp add: split_on_eq_singleton)
  have long: "split_on number_sign raw = [identity_nid i, identity_library_id i, identity_module_id i] \<and>
      length (identity_nid i) = 11 \<and> identity_library_id i \<noteq> [] \<and> identity_module_id i \<noteq> [] \<longleftrightarrow>
      identity_wf i \<and> raw = spelling i" for i
    by (auto simp: split_on_eq_3 identity_wf_def spelling_def)
  have "parsed_name thrown raw = Success n \<longleftrightarrow> thrown = No_exception \<and> name_raw n = raw \<and>
      (case name_identity n of None \<Rightarrow> \<exists>x. split_on number_sign raw = [x]
       | Some i \<Rightarrow> split_on number_sign raw = [identity_nid i, identity_library_id i, identity_module_id i] \<and>
           length (identity_nid i) = 11 \<and> identity_library_id i \<noteq> [] \<and> identity_module_id i \<noteq> [])"
    by (auto simp: parsed_name_def Let_def n split: list.splits if_splits option.splits)
  then show ?thesis unfolding parse_name_eq plain long .
qed

lemma parse_name_defined [simp]: "parse_sce_dynamic_symbol_name thrown raw \<noteq> Undefined"
  by (auto simp: parse_sce_dynamic_symbol_name_def Let_def split: option.split)

lemma materialize_defined:
  assumes "view_wf view" and "range_wf (string_table_range strings)" and "\<And>n. n \<le> max_size \<Longrightarrow> alloc n \<noteq> Length_error"
  shows "materialize_sce_dynamic_symbol max_size alloc thrown symbols strings index view \<noteq> Undefined"
  by (auto simp: materialize_sce_dynamic_symbol_def Let_def result_simps parse_dynamic_symbol_def
      read_symbol_defined [OF assms(1)] resolve_dynamic_string_defined [OF assms])

text \<open>A materialized symbol is the decoded record with the parsed string it names.\<close>

lemma materialize_Success:
  assumes "range_wf (string_table_range strings)"
  shows "materialize_sce_dynamic_symbol max_size alloc thrown symbols strings index view = Success r \<longleftrightarrow>
    parse_dynamic_symbol symbols index view = Success (sce_symbol r) \<and>
    ucast (symbol_name_offset (sce_symbol r)) < range_size (string_table_range strings) \<and>
    c_string_at (read_byte view) (range_base (string_table_range strings) + ucast (symbol_name_offset (sce_symbol r)))
      (unat (range_size (string_table_range strings)) - unat (symbol_name_offset (sce_symbol r))) (name_raw (sce_name r)) \<and>
    length (name_raw (sce_name r)) \<le> max_size \<and> alloc (length (name_raw (sce_name r))) = No_exception \<and>
    parse_sce_dynamic_symbol_name thrown (name_raw (sce_name r)) = Success (sce_name r)"
    (is "_ \<longleftrightarrow> ?rhs")
proof -
  have r: "\<lparr>sce_symbol = s, sce_name = n\<rparr> = r \<longleftrightarrow> sce_symbol r = s \<and> sce_name r = n" for s n by (cases r) auto
  have u: "unat (ucast (o32 :: u32) :: u64) = unat o32" for o32 by (rule unat_ucast_up) simp
  have raw: "parse_sce_dynamic_symbol_name thrown raw = Success n \<Longrightarrow> name_raw n = raw" for raw n
    by (simp add: parse_name_Success)
  note unfold = materialize_sce_dynamic_symbol_def Let_def and_then_Success resolve_dynamic_string_iff [OF assms]
  show ?thesis
  proof (intro iffI)
    assume "materialize_sce_dynamic_symbol max_size alloc thrown symbols strings index view = Success r"
    then show "?rhs" unfolding unfold by (auto simp: r u) (use raw in force)+
  qed (auto simp: unfold r u)
qed

section \<open>Properties\<close>

text \<open>
  C23. Parsing a symbol name is the splitting of the string at number signs, on every branch and with
  every error; an identity is returned exactly for its own spelling, so that printing and parsing are
  inverse to each other on well-formed identities.
\<close>

theorem parse_sce_dynamic_symbol_name_correct:
  "parse_sce_dynamic_symbol_name thrown raw = parsed_name thrown raw \<and>
   (\<forall>i. (\<exists>n. parse_sce_dynamic_symbol_name thrown raw = Success n \<and> name_identity n = Some i) \<longleftrightarrow>
      thrown = No_exception \<and> identity_wf i \<and> raw = spelling i)"
proof -
  have "(\<exists>n. parse_sce_dynamic_symbol_name thrown raw = Success n \<and> name_identity n = Some i) \<longleftrightarrow>
      thrown = No_exception \<and> identity_wf i \<and> raw = spelling i" for i
    by (auto simp: parse_name_Success intro!: exI [of _ "\<lparr>name_raw = raw, name_identity = Some i\<rparr>"])
  then show ?thesis using parse_name_eq by blast
qed

end
