(* ===== verification/Hle_Gates.thy ===== *)
theory Hle_Gates
  imports Guest_Image
begin

text \<open>
  src/execution/hle.cpp: the registry of emulated functions and the region of synthetic gates, the
  addresses at which a guest program enters them. A gate is sixteen bytes that start with the
  undefined instruction UD2.
\<close>

section \<open>The registry\<close>

type_synonym HleFunctionId = u32

definition kSyntheticGateStride :: u64 where "kSyntheticGateStride = 16"
definition kMaxSyntheticGateArguments :: u8 where "kMaxSyntheticGateArguments = 6"
definition kSyntheticGateUd2Byte0 :: u8 where "kSyntheticGateUd2Byte0 = 0x0f"
definition kSyntheticGateUd2Byte1 :: u8 where "kSyntheticGateUd2Byte1 = 0x0b"
definition kSyntheticGatePaddingByte :: u8 where "kSyntheticGatePaddingByte = 0xcc"

record HleFunctionDescriptor =
  function_id :: HleFunctionId
  canonical_name :: "u8 list"
  argument_count :: u8

datatype HleSetupErrorCode =
    invalid_function_id
  | invalid_function_name
  | invalid_argument_count
  | duplicate_function_id
  | duplicate_function_name
  | invalid_gate_slot_count
  | gate_slot_out_of_bounds
  | duplicate_gate_binding
  | setup_unknown_function
  | gate_range_overflow
  | gate_region_overlap
  | setup_host_size_unrepresentable
  | setup_host_allocation_failure

record HleSetupError =
  setup_error_code :: HleSetupErrorCode
  setup_error_has_function_id :: bool
  setup_error_function_id :: HleFunctionId
  setup_error_has_gate_slot :: bool
  setup_error_gate_slot :: u32
  setup_error_has_guest_address :: bool
  setup_error_guest_address :: u64

text \<open>setup_error with its defaulted arguments.\<close>

definition setup_error :: "HleSetupErrorCode \<Rightarrow> HleFunctionId option \<Rightarrow> u32 option \<Rightarrow> u64 option \<Rightarrow> HleSetupError" where
  "setup_error code fid slot address = \<lparr>setup_error_code = code,
     setup_error_has_function_id = (fid \<noteq> None), setup_error_function_id = (case fid of None \<Rightarrow> 0 | Some f \<Rightarrow> f),
     setup_error_has_gate_slot = (slot \<noteq> None), setup_error_gate_slot = (case slot of None \<Rightarrow> 0 | Some s \<Rightarrow> s),
     setup_error_has_guest_address = (address \<noteq> None),
     setup_error_guest_address = (case address of None \<Rightarrow> 0 | Some a \<Rightarrow> a)\<rparr>"

record HleRegistry =
  registry_descriptors :: "HleFunctionDescriptor list"

primrec check_descriptors :: "HleFunctionDescriptor list \<Rightarrow> (unit, HleSetupError) Result" where
  "check_descriptors [] = Success ()"
| "check_descriptors (descriptor # rest) =
     (if function_id descriptor = 0 then Failure (setup_error invalid_function_id (Some (function_id descriptor)) None None)
      else if canonical_name descriptor = [] then Failure (setup_error invalid_function_name (Some (function_id descriptor)) None None)
      else if argument_count descriptor > kMaxSyntheticGateArguments
      then Failure (setup_error invalid_argument_count (Some (function_id descriptor)) None None)
      else check_descriptors rest)"

primrec find_duplicate :: "HleFunctionDescriptor \<Rightarrow> HleFunctionDescriptor list \<Rightarrow> (unit, HleSetupError) Result" where
  "find_duplicate d [] = Success ()"
| "find_duplicate d (other # rest) =
     (if function_id d = function_id other then Failure (setup_error duplicate_function_id (Some (function_id d)) None None)
      else if canonical_name d = canonical_name other
      then Failure (setup_error duplicate_function_name (Some (function_id other)) None None)
      else find_duplicate d rest)"

primrec check_duplicates :: "HleFunctionDescriptor list \<Rightarrow> (unit, HleSetupError) Result" where
  "check_duplicates [] = Success ()"
| "check_duplicates (d # rest) = with_value (find_duplicate d rest) (\<lambda>_. check_duplicates rest)"

definition registry_create :: "HleFunctionDescriptor list \<Rightarrow> (HleRegistry, HleSetupError) Result" where
  "registry_create descriptors =
     with_value (check_descriptors descriptors) (\<lambda>_.
     with_value (check_duplicates descriptors) (\<lambda>_.
     Success \<lparr>registry_descriptors = std_sort (\<lambda>l r. function_id l < function_id r) descriptors\<rparr>))"

definition registry_find :: "HleRegistry \<Rightarrow> HleFunctionId \<Rightarrow> HleFunctionDescriptor option" where
  "registry_find registry fid = find (\<lambda>d. function_id d = fid) (registry_descriptors registry)"

section \<open>The gate region\<close>

record GateBinding =
  binding_slot :: u32
  binding_function_id :: HleFunctionId

record SyntheticGateRegion =
  gate_range :: GuestRange
  gate_slot_count :: u32
  gate_bindings :: "GateBinding list"
  gate_bytes :: "u8 list"

definition overlaps_image :: "GuestRange \<Rightarrow> GuestImage \<Rightarrow> GuestRange list \<Rightarrow> bool" where
  "overlaps_image gates gi reserved \<longleftrightarrow>
     list_ex (\<lambda>mapping. range_overlaps gates (intent_range mapping)) (guest_mappings gi) \<or>
     range_overlaps gates (stack_storage (guest_initial_stack gi)) \<or>
     list_ex (range_overlaps gates) reserved"

definition recognize_slot :: "SyntheticGateRegion \<Rightarrow> GuestAddress \<Rightarrow> u32 option" where
  "recognize_slot region instruction_pointer =
     (if \<not> range_contains (gate_range region) instruction_pointer then None
      else let offset = instruction_pointer - range_base (gate_range region) in
        if offset mod kSyntheticGateStride \<noteq> 0 then None
        else let slot = offset div kSyntheticGateStride in
          if slot \<ge> ucast (gate_slot_count region) then None else Some (ucast slot))"

definition slot_address :: "SyntheticGateRegion \<Rightarrow> u32 \<Rightarrow> GuestAddress option" where
  "slot_address region slot =
     (if slot \<ge> gate_slot_count region then None
      else case GuestAddress_checked_add (range_base (gate_range region)) (ucast slot * kSyntheticGateStride) of
          Success address \<Rightarrow> Some address
        | _ \<Rightarrow> None)"

definition binding_for_slot :: "SyntheticGateRegion \<Rightarrow> u32 \<Rightarrow> GateBinding option" where
  "binding_for_slot region slot = find (\<lambda>b. binding_slot b = slot) (gate_bindings region)"

primrec check_bindings :: "HleRegistry \<Rightarrow> u32 \<Rightarrow> GateBinding list \<Rightarrow> (unit, HleSetupError) Result" where
  "check_bindings registry slot_count [] = Success ()"
| "check_bindings registry slot_count (binding # rest) =
     (if binding_slot binding \<ge> slot_count
      then Failure (setup_error gate_slot_out_of_bounds (Some (binding_function_id binding)) (Some (binding_slot binding)) None)
      else if registry_find registry (binding_function_id binding) = None
      then Failure (setup_error setup_unknown_function (Some (binding_function_id binding)) (Some (binding_slot binding)) None)
      else case find (\<lambda>other. binding_slot binding = binding_slot other) rest of
          Some other \<Rightarrow>
            Failure (setup_error duplicate_gate_binding (Some (binding_function_id other)) (Some (binding_slot binding)) None)
        | None \<Rightarrow> check_bindings registry slot_count rest)"

primrec store_gates :: "u8 list \<Rightarrow> nat list \<Rightarrow> (u8 list, HleSetupError) Result" where
  "store_gates bytes [] = Success bytes"
| "store_gates bytes (slot # rest) =
     with_value (store_bytes bytes (of_nat slot * kSyntheticGateStride) [kSyntheticGateUd2Byte0, kSyntheticGateUd2Byte1])
       (\<lambda>bytes'. store_gates bytes' rest)"

text \<open>\<open>thrown\<close> is the exception the vector constructor throws, if any.\<close>

definition build_synthetic_gate_region ::
  "host_event \<Rightarrow> HleRegistry \<Rightarrow> GuestAddress \<Rightarrow> u32 \<Rightarrow> GateBinding list \<Rightarrow> GuestImage \<Rightarrow> GuestRange list \<Rightarrow>
     (SyntheticGateRegion, HleSetupError) Result" where
  "build_synthetic_gate_region thrown registry base slot_count bindings gi reserved =
     (if slot_count = 0 then Failure (setup_error invalid_gate_slot_count None None (Some base))
      else let byte_count = ucast slot_count * kSyntheticGateStride in
      and_then (GuestRange_create base byte_count) (\<lambda>_. setup_error gate_range_overflow None None (Some base)) (\<lambda>gates.
      if overlaps_image gates gi reserved then Failure (setup_error gate_region_overlap None None (Some base))
      else with_value (check_bindings registry slot_count bindings) (\<lambda>_.
      if byte_count > u64_max then Failure (setup_error setup_host_size_unrepresentable None None (Some base))
      else case thrown of
        Bad_alloc \<Rightarrow> Failure (setup_error setup_host_allocation_failure None None None)
      | Length_error \<Rightarrow> Failure (setup_error setup_host_size_unrepresentable None None None)
      | No_exception \<Rightarrow>
          with_value (store_gates (replicate (unat byte_count) kSyntheticGatePaddingByte) [0..<unat slot_count]) (\<lambda>bytes.
          Success \<lparr>gate_range = gates, gate_slot_count = slot_count,
            gate_bindings = std_sort (\<lambda>l r. binding_slot l < binding_slot r) bindings, gate_bytes = bytes\<rparr>))))"

section \<open>Registries\<close>

definition registry_wf :: "HleRegistry \<Rightarrow> bool" where
  "registry_wf r \<longleftrightarrow> sorted_wrt (\<lambda>d e. function_id d < function_id e) (registry_descriptors r) \<and>
     distinct (map canonical_name (registry_descriptors r)) \<and>
     (\<forall>d \<in> set (registry_descriptors r). function_id d \<noteq> 0 \<and> canonical_name d \<noteq> [] \<and> unat (argument_count d) \<le> 6)"

lemma check_descriptors_Success:
  "check_descriptors ds = Success u \<longleftrightarrow>
    (\<forall>d \<in> set ds. function_id d \<noteq> 0 \<and> canonical_name d \<noteq> [] \<and> unat (argument_count d) \<le> 6)"
  by (induction ds) (auto simp: kMaxSyntheticGateArguments_def word_less_nat_alt)

lemma find_duplicate_Success:
  "find_duplicate d ds = Success u \<longleftrightarrow> function_id d \<notin> function_id ` set ds \<and> canonical_name d \<notin> canonical_name ` set ds"
  by (induction ds) auto

lemma check_duplicates_Success:
  "check_duplicates ds = Success u \<longleftrightarrow> distinct (map function_id ds) \<and> distinct (map canonical_name ds)"
  by (induction ds) (auto simp: result_simps find_duplicate_Success)

lemma registry_defined:
  "check_descriptors ds \<noteq> Undefined" "find_duplicate d ds \<noteq> Undefined" "check_duplicates ds \<noteq> Undefined"
proof -
  show fd: "find_duplicate d ds \<noteq> Undefined" for d ds by (induction ds) auto
  show "check_descriptors ds \<noteq> Undefined" by (induction ds) auto
  show "check_duplicates ds \<noteq> Undefined" by (induction ds) (auto simp: result_simps fd)
qed

lemma find_by_key:
  "distinct (map key xs) \<Longrightarrow> find (\<lambda>x. key x = k) xs = Some x \<longleftrightarrow> x \<in> set xs \<and> key x = k"
  by (induction xs) auto

lemma find_by_key_None: "find (\<lambda>x. key x = k) xs = None \<longleftrightarrow> k \<notin> key ` set xs"
  by (auto simp: find_None_iff)
lemma distinct_map_mset: "mset xs = mset ys \<Longrightarrow> distinct (map f xs) \<longleftrightarrow> distinct (map f ys)"
  by (rule mset_eq_imp_distinct_iff) simp

text \<open>A list without equal keys is sorted by its keys in one way.\<close>

lemma std_sort_by_key:
  assumes "distinct (map key xs)"
  shows "std_sort (\<lambda>l r. key l < (key r :: 'k :: linorder)) xs = ys \<longleftrightarrow>
    mset ys = mset xs \<and> sorted_wrt (\<lambda>l r. key l < key r) ys"
proof -
  let ?s = "std_sort (\<lambda>l r. key l < key r) xs"
  have "sorted (map key ?s)"
    using comparator.sorted_std_sort [OF comparator_by_key [of key], of xs] by (simp add: sorted_map not_less)
  moreover have "distinct (map key ?s)"
    using assms distinct_map_mset [OF mset_std_sort] by blast
  ultimately have "sorted_wrt (<) (map key ?s)" by (simp only: strict_sorted_iff simp_thms)
  then have strict: "sorted_wrt (\<lambda>l r. key l < key r) ?s" by (simp only: sorted_wrt_map)
  have "ys = ?s" if ys: "mset ys = mset xs" "sorted_wrt (\<lambda>l r. key l < key r) ys"
  proof (rule comparator.sorted_permutation_unique [OF comparator_by_key _ ys(1)])
    show "key x < key y \<or> key y < key x" if "x \<in> set xs" "y \<in> set xs" "x \<noteq> y" for x y
      using assms that by (metis distinct_map inj_on_eq_iff linorder_less_linear)
    show "sorted_wrt (\<lambda>a b. \<not> key b < key a) ys" using ys(2) by (rule sorted_wrt_mono_rel [rotated]) auto
  qed
  then show ?thesis using strict by auto
qed

lemma registry_create_iff:
  "registry_create ds = Success r \<longleftrightarrow> registry_wf r \<and> mset (registry_descriptors r) = mset ds"
proof (cases "distinct (map function_id ds)")
  case True
  have "set (registry_descriptors r) = set ds \<and> (distinct (map canonical_name (registry_descriptors r)) \<longleftrightarrow> distinct (map canonical_name ds))"
    if "mset (registry_descriptors r) = mset ds"
    using that mset_eq_setD distinct_map_mset by blast
  moreover have "\<lparr>registry_descriptors = ds'\<rparr> = r \<longleftrightarrow> ds' = registry_descriptors r" for ds' by (cases r) auto
  ultimately show ?thesis
    using std_sort_by_key [OF True, of "registry_descriptors r"] True
    by (auto simp: registry_create_def result_simps check_descriptors_Success check_duplicates_Success registry_wf_def)
next
  case False
  have "distinct (map function_id ds)" if "registry_wf r" "mset (registry_descriptors r) = mset ds"
  proof -
    have "sorted_wrt (<) (map function_id (registry_descriptors r))"
      using that(1) by (simp only: registry_wf_def sorted_wrt_map)
    then have "distinct (map function_id (registry_descriptors r))" by (simp add: strict_sorted_iff)
    then show ?thesis using distinct_map_mset [OF that(2)] by blast
  qed
  with False show ?thesis by (auto simp: registry_create_def result_simps check_duplicates_Success)
qed

lemma registry_find_Some:
  assumes "registry_wf r"
  shows "registry_find r fid = Some d \<longleftrightarrow> d \<in> set (registry_descriptors r) \<and> function_id d = fid"
proof -
  have "sorted_wrt (<) (map function_id (registry_descriptors r))"
    using assms by (simp only: registry_wf_def sorted_wrt_map)
  then show ?thesis unfolding registry_find_def by (intro find_by_key) (simp add: strict_sorted_iff)
qed

section \<open>Gates\<close>

definition gate :: "u8 list" where
  "gate = [0x0f, 0x0b] @ replicate 14 0xcc"

lemma length_gate [simp]: "length gate = 16"
  by (simp add: gate_def)

lemma store_gates_ok:
  assumes "16 * length slots + length pre < 2 ^ 64" and "length pre = 16 * k" and "slots = [k..<k + length slots]"
  shows "store_gates (pre @ replicate (16 * length slots) 0xcc) slots = Success (pre @ concat (replicate (length slots) gate))"
  using assms
proof (induction slots arbitrary: pre k)
  case (Cons s slots)
  have s: "s = k" "slots = [Suc k..<Suc k + length slots]"
    using Cons.prems(3) by (simp_all add: upt_conv_Cons del: upt_Suc)
  have off: "unat (of_nat k * 16 :: u64) = length pre"
    using Cons.prems(1,2) by (simp add: unat_word_ariths unat_of_nat)
  have "pre @ replicate (16 * length (s # slots)) 0xcc = pre @ [0xcc, 0xcc] @ replicate (14 + 16 * length slots) (0xcc :: u8)"
    by (simp add: replicate_add eval_nat_numeral)
  moreover have "store_bytes (pre @ [0xcc, 0xcc] @ replicate (14 + 16 * length slots) 0xcc) (of_nat k * 16) [0x0f, 0x0b] =
      (Success (pre @ [0x0f, 0x0b] @ replicate (14 + 16 * length slots) 0xcc) :: (_, HleSetupError) Result)"
    using Cons.prems(1) off by (intro store_bytes_ok) simp_all
  moreover have "pre @ [0x0f, 0x0b] @ replicate (14 + 16 * length slots) 0xcc = (pre @ gate) @ replicate (16 * length slots) 0xcc"
    by (simp add: gate_def replicate_add)
  ultimately have "store_gates (pre @ replicate (16 * length (s # slots)) 0xcc) (s # slots) =
      store_gates ((pre @ gate) @ replicate (16 * length slots) 0xcc) slots"
    by (simp add: s(1) kSyntheticGateStride_def kSyntheticGateUd2Byte0_def kSyntheticGateUd2Byte1_def
        del: store_bytes.simps append_assoc)
  also have "\<dots> = Success ((pre @ gate) @ concat (replicate (length slots) gate))"
    using Cons.prems(1,2) s(2) by (intro Cons.IH [of _ "Suc k"]) simp_all
  finally show ?case by simp
qed simp

lemma check_bindings_Success:
  "check_bindings registry n bs = Success u \<longleftrightarrow>
    (\<forall>b \<in> set bs. binding_slot b < n \<and> registry_find registry (binding_function_id b) \<noteq> None) \<and>
    distinct (map binding_slot bs)"
  by (induction bs) (auto simp: find_None_iff find_Some_iff split: option.split)

lemma check_bindings_defined: "check_bindings registry n bs \<noteq> Undefined"
  by (induction bs) (auto split: option.split)
definition gate_region_wf :: "SyntheticGateRegion \<Rightarrow> bool" where
  "gate_region_wf r \<longleftrightarrow> range_size (gate_range r) = ucast (gate_slot_count r) * 16 \<and> range_wf (gate_range r) \<and>
     distinct (map binding_slot (gate_bindings r)) \<and> gate_bytes r = concat (replicate (unat (gate_slot_count r)) gate)"

lemma unat_u32_bound: "unat (w :: u32) < 2 ^ 32"
  using unsigned_less [of w] by simp

lemma unat_gate_offset: "unat (ucast (n :: u32) * 16 :: u64) = 16 * unat n"
proof -
  show ?thesis using unat_u32_bound [of n] by (subst unat_mult_no_wrap) (simp_all add: unat_ucast_up)
qed

lemma gate_region_end: "gate_region_wf r \<Longrightarrow> unat (range_base (gate_range r)) + 16 * unat (gate_slot_count r) \<le> 2 ^ 64"
  unfolding gate_region_wf_def range_wf_def by (metis unat_gate_offset)

lemma slot_address_Some:
  assumes "gate_region_wf r"
  shows "slot_address r s = Some a \<longleftrightarrow> s < gate_slot_count r \<and> a = range_base (gate_range r) + ucast s * 16"
proof -
  have "unat (range_base (gate_range r)) + unat (ucast s * 16 :: u64) < 2 ^ 64" if "s < gate_slot_count r"
    using gate_region_end [OF assms] that by (simp add: unat_gate_offset word_less_nat_alt)
  then show ?thesis
    by (auto simp: slot_address_def kSyntheticGateStride_def GuestAddress_checked_add_def gt_max_minus_iff not_le)
qed

text \<open>Recognition of an instruction pointer is the inverse of the address of a slot.\<close>

lemma recognize_slot_inverse:
  assumes "gate_region_wf r"
  shows "recognize_slot r a = Some s \<longleftrightarrow> slot_address r s = Some a"
proof -
  let ?b = "range_base (gate_range r)" and ?n = "gate_slot_count r"
  have size: "unat (range_size (gate_range r)) = 16 * unat ?n"
    using assms by (simp add: gate_region_wf_def unat_gate_offset)
  have n: "unat (ucast m :: u64) = unat m" for m :: u32 by (rule unat_ucast_up) simp
  have div: "unat (x div 16 :: u64) = unat x div 16" "x mod 16 = 0 \<longleftrightarrow> unat x mod 16 = 0" for x :: u64
    by (simp_all add: unat_div unat_mod unat_eq_0 flip: unat_eq_0)
  show ?thesis
  proof (intro iffI)
    assume some: "recognize_slot r a = Some s"
    then have c: "unat ?b \<le> unat a" "unat (a - ?b) mod 16 = 0" "unat (a - ?b) div 16 < unat ?n" and s: "s = ucast ((a - ?b) div 16)"
      by (auto simp: recognize_slot_def Let_def kSyntheticGateStride_def range_contains_iff div n not_le word_less_nat_alt split: if_splits)
    have "unat s = unat (a - ?b) div 16"
      using c(3) unat_u32_bound [of ?n] unfolding s by (simp add: unsigned_ucast_eq div take_bit_nat_eq_self)
    then have "unat (ucast s * 16 :: u64) = unat (a - ?b)" using c(2) unfolding unat_gate_offset by presburger
    then have "a = ?b + ucast s * 16" by (simp add: word_unat_eq_iff [symmetric])
    moreover have "s < ?n" using c(3) \<open>unat s = _\<close> by (simp add: word_less_nat_alt)
    ultimately show "slot_address r s = Some a" by (simp add: slot_address_Some [OF assms])
  next
    assume "slot_address r s = Some a"
    then have s: "unat s < unat ?n" and a: "a = ?b + ucast s * 16" by (simp_all add: slot_address_Some [OF assms] word_less_nat_alt)
    have off: "a - ?b = ucast s * 16" by (simp add: a)
    have "unat a = unat ?b + 16 * unat s"
      using gate_region_end [OF assms] s unfolding a by (subst unat_add_no_wrap) (simp_all add: unat_gate_offset)
    moreover have "unat ((a - ?b) div 16) = unat s" unfolding div off unat_gate_offset by simp
    moreover from this have "ucast ((a - ?b) div 16) = s" using unat_u32_bound [of s] by (simp add: word_unat_eq_iff unsigned_ucast_eq take_bit_nat_eq_self)
    ultimately show "recognize_slot r a = Some s"
      using s size by (simp add: recognize_slot_def Let_def kSyntheticGateStride_def range_contains_iff div n off unat_gate_offset word_le_nat_alt)
  qed
qed

definition gate_request_ok ::
  "host_event \<Rightarrow> HleRegistry \<Rightarrow> GuestAddress \<Rightarrow> u32 \<Rightarrow> GateBinding list \<Rightarrow> GuestImage \<Rightarrow> GuestRange list \<Rightarrow> bool" where
  "gate_request_ok thrown registry base slot_count bindings gi reserved \<longleftrightarrow>
     thrown = No_exception \<and> slot_count \<noteq> 0 \<and> unat base + 16 * unat slot_count \<le> 2 ^ 64 \<and>
     (\<forall>a. unat base \<le> unat a \<and> unat a < unat base + 16 * unat slot_count \<longrightarrow>
        (\<forall>m \<in> set (guest_mappings gi). \<not> range_contains (intent_range m) a) \<and>
        \<not> range_contains (stack_storage (guest_initial_stack gi)) a \<and>
        (\<forall>r \<in> set reserved. \<not> range_contains r a)) \<and>
     (\<forall>b \<in> set bindings. binding_slot b < slot_count \<and> registry_find registry (binding_function_id b) \<noteq> None) \<and>
     distinct (map binding_slot bindings)"

lemma build_gates_iff:
  "build_synthetic_gate_region thrown registry base slot_count bindings gi reserved \<noteq> Undefined"
  "build_synthetic_gate_region thrown registry base slot_count bindings gi reserved = Success region \<longleftrightarrow>
    gate_request_ok thrown registry base slot_count bindings gi reserved \<and>
    region = \<lparr>gate_range = \<lparr>range_base = base, range_size = ucast slot_count * 16\<rparr>, gate_slot_count = slot_count,
      gate_bindings = std_sort (\<lambda>l r. binding_slot l < binding_slot r) bindings,
      gate_bytes = concat (replicate (unat slot_count) gate)\<rparr>"
proof -
  note n = unat_u32_bound [of slot_count]
  have bytes: "store_gates (replicate (16 * unat slot_count) 0xcc) [0..<unat slot_count] =
      Success (concat (replicate (unat slot_count) gate))"
    using store_gates_ok [of "[0..<unat slot_count]" "[]" 0] n by simp
  have top: "\<not> u64_max < x" for x :: u64 using unat_lt_2p64 [of x] unfolding word_less_nat_alt unat_u64_max by linarith
  have overlap: "overlaps_image \<lparr>range_base = base, range_size = ucast slot_count * 16\<rparr> gi reserved \<longleftrightarrow>
      \<not> (\<forall>a. unat base \<le> unat a \<and> unat a < unat base + 16 * unat slot_count \<longrightarrow>
        (\<forall>m \<in> set (guest_mappings gi). \<not> range_contains (intent_range m) a) \<and>
        \<not> range_contains (stack_storage (guest_initial_stack gi)) a \<and> (\<forall>r \<in> set reserved. \<not> range_contains r a))"
    unfolding overlaps_image_def list_ex_iff range_overlaps_common_address
    by (simp add: range_contains_iff [of "\<lparr>range_base = base, range_size = ucast slot_count * 16\<rparr>"] unat_gate_offset) blast
  show "build_synthetic_gate_region thrown registry base slot_count bindings gi reserved \<noteq> Undefined"
    using check_bindings_defined
    by (auto simp: build_synthetic_gate_region_def Let_def result_simps kSyntheticGateStride_def
        kSyntheticGatePaddingByte_def bytes unat_gate_offset split: host_event.split)
  show "build_synthetic_gate_region thrown registry base slot_count bindings gi reserved = Success region \<longleftrightarrow>
    gate_request_ok thrown registry base slot_count bindings gi reserved \<and>
    region = \<lparr>gate_range = \<lparr>range_base = base, range_size = ucast slot_count * 16\<rparr>, gate_slot_count = slot_count,
      gate_bindings = std_sort (\<lambda>l r. binding_slot l < binding_slot r) bindings,
      gate_bytes = concat (replicate (unat slot_count) gate)\<rparr>"
    by (auto simp: build_synthetic_gate_region_def Let_def result_simps kSyntheticGateStride_def check_bindings_Success
        gate_request_ok_def overlap kSyntheticGatePaddingByte_def bytes top unat_gate_offset split: host_event.split)
qed

lemma built_region_wf:
  "build_synthetic_gate_region thrown registry base slot_count bindings gi reserved = Success region \<Longrightarrow> gate_region_wf region"
  by (auto simp: build_gates_iff gate_region_wf_def range_wf_def unat_gate_offset gate_request_ok_def
      distinct_map_mset [OF mset_std_sort])

section \<open>Properties\<close>

text \<open>
  C24. A gate region is built exactly when it is not empty, fits the address space, shares no byte with
  a mapping, the stack or a reserved range, and its bindings name different slots of it and registered
  functions; no store is out of range. In a built region the address of slot s is its base plus 16 s, an
  instruction pointer is recognised exactly when it is the address of a slot, with that slot, each slot
  has exactly the binding requested for it, and the bytes are one trapping gate for each slot.
\<close>

theorem build_synthetic_gate_region_correct:
  "case build_synthetic_gate_region thrown registry base slot_count bindings gi reserved of
      Undefined \<Rightarrow> False
    | Failure e \<Rightarrow> \<not> gate_request_ok thrown registry base slot_count bindings gi reserved
    | Success region \<Rightarrow> gate_request_ok thrown registry base slot_count bindings gi reserved \<and>
        gate_bytes region = concat (replicate (unat slot_count) gate) \<and>
        (\<forall>s a. slot_address region s = Some a \<longleftrightarrow> s < slot_count \<and> a = base + 16 * ucast s) \<and>
        (\<forall>s a. recognize_slot region a = Some s \<longleftrightarrow> slot_address region s = Some a) \<and>
        (\<forall>s b. binding_for_slot region s = Some b \<longleftrightarrow> b \<in> set bindings \<and> binding_slot b = s)"
proof (cases "build_synthetic_gate_region thrown registry base slot_count bindings gi reserved")
  case (Success region)
  then have ok: "gate_request_ok thrown registry base slot_count bindings gi reserved"
    and region: "region = \<lparr>gate_range = \<lparr>range_base = base, range_size = ucast slot_count * 16\<rparr>, gate_slot_count = slot_count,
      gate_bindings = std_sort (\<lambda>l r. binding_slot l < binding_slot r) bindings,
      gate_bytes = concat (replicate (unat slot_count) gate)\<rparr>"
    by (simp_all add: build_gates_iff)
  have bound: "distinct (map binding_slot (gate_bindings region))" "set (gate_bindings region) = set bindings"
    using ok by (simp_all add: gate_request_ok_def region distinct_map_mset [OF mset_std_sort])
  have wf: "gate_region_wf region" using Success by (rule built_region_wf)
  have "slot_address region s = Some a \<longleftrightarrow> s < slot_count \<and> a = base + 16 * ucast s" for s a
    unfolding slot_address_Some [OF wf] by (simp add: region mult.commute)
  moreover have "binding_for_slot region s = Some b \<longleftrightarrow> b \<in> set bindings \<and> binding_slot b = s" for s b
    unfolding binding_for_slot_def find_by_key [OF bound(1)] bound(2) ..
  moreover have "gate_bytes region = concat (replicate (unat slot_count) gate)" by (simp add: region)
  ultimately show ?thesis using Success ok recognize_slot_inverse [OF wf] by simp
next
  case (Failure e)
  then show ?thesis using build_gates_iff(2) [of thrown registry base slot_count bindings gi reserved] by auto
qed (simp add: build_gates_iff(1))

end
