(* ===== verification/Word_Patches.thy ===== *)
theory Word_Patches
  imports Guest_Memory
begin

text \<open>
  Sequences of eight-byte words written to guest memory, the effect that the relocation components
  share: what is untouched, what reads back, and when the words may be written.
\<close>

definition in_word :: "u64 \<Rightarrow> u64 \<Rightarrow> bool" where
  "in_word a x \<longleftrightarrow> unat a \<le> unat x \<and> unat x < unat a + 8"

definition apart :: "u64 \<Rightarrow> u64 \<Rightarrow> bool" where
  "apart a b \<longleftrightarrow> unat a + 8 \<le> unat b \<or> unat b + 8 \<le> unat a"

lemma apart_sym: "apart a b \<longleftrightarrow> apart b a"
  by (auto simp: apart_def)

definition word_allowed :: "GuestImage \<Rightarrow> ExecutionMemoryPlan \<Rightarrow> AccessKind \<Rightarrow> u64 \<Rightarrow> bool" where
  "word_allowed gi plan kind a \<longleftrightarrow> unat a + 8 \<le> 2 ^ 64 \<and> (\<forall>i < 8. byte_allowed gi plan kind (a + of_nat i))"

definition store_words :: "process_memory \<Rightarrow> (u64 \<times> u8 list) list \<Rightarrow> process_memory" where
  "store_words mem ws = foldl (\<lambda>m (a, bs). write_bytes m a bs) mem ws"

lemma store_words_simps [simp]:
  "store_words mem [] = mem" "store_words mem ((a, bs) # ws) = store_words (write_bytes mem a bs) ws"
  "store_words mem (us @ ws) = store_words (store_words mem us) ws"
  by (simp_all add: store_words_def)

lemma backs_store_words: "backs mem plan \<Longrightarrow> backs (store_words mem ws) plan"
  by (induction ws arbitrary: mem) (auto simp: backs_write_bytes)

lemma validate_word:
  assumes "access_ready access gi plan"
  shows "validate_access access a 8 kind = Success k \<longleftrightarrow> k = 8 \<and> word_allowed gi plan kind a"
  by (simp add: validate_Success [OF assms] word_allowed_def)

lemma write_word:
  assumes "access_ready access gi plan" and "backs mem plan" and "length bs = 8"
  shows "guest_write access mem a bs = Success mem' \<longleftrightarrow> word_allowed gi plan write_access a \<and> mem' = write_bytes mem a bs"
  using assms by (simp add: write_Success_iff host_object_def validate_word)

lemma write_word_defined:
  assumes "access_ready access gi plan" and "backs mem plan" and "length bs = 8"
  shows "guest_write access mem a bs \<noteq> Undefined"
  using assms by (intro write_defined) (simp_all add: host_object_def)

lemma store_words_outside:
  "\<forall>(a, bs) \<in> set ws. length bs = 8 \<and> \<not> in_word a x \<Longrightarrow> store_words mem ws x = mem x"
  by (induction ws arbitrary: mem) (auto simp: write_bytes_def in_word_def)

lemma read_word_cong:
  assumes ready: "access_ready access gi plan" and "backs mem plan" and "backs mem' plan"
    and "word_allowed gi plan read_access a" and "\<And>x. in_word a x \<Longrightarrow> mem' x = mem x"
  shows "guest_read access mem' a 8 = guest_read access mem a 8"
proof -
  have v: "validate_access access a 8 read_access = Success 8" using assms(4) by (simp add: validate_word [OF ready])
  have "mem' (a + of_nat i) = mem (a + of_nat i)" if "i < 8" for i
    using assms(4) u64_offset [of a i] that by (intro assms(5)) (simp add: in_word_def word_allowed_def)
  then show ?thesis by (simp add: read_Success [OF ready assms(2) v] read_Success [OF ready assms(3) v] del: upt_Suc)
qed

text \<open>The last store of a word is what a read returns.\<close>

lemma read_stored_word:
  assumes ready: "access_ready access gi plan" and mem: "backs mem plan"
    and allowed: "word_allowed gi plan read_access a" "word_allowed gi plan write_access a"
    and "length bs = 8" and vs: "\<forall>(b, cs) \<in> set vs. length cs = 8 \<and> apart a b"
  shows "guest_read access (store_words mem (us @ (a, bs) # vs)) a 8 = Success bs"
proof -
  let ?m = "store_words mem us"
  have m: "backs ?m plan" "backs (write_bytes ?m a bs) plan" "backs (store_words mem (us @ (a, bs) # vs)) plan"
    using mem by (simp_all add: backs_store_words backs_write_bytes)
  have "guest_read access (store_words mem (us @ (a, bs) # vs)) a 8 = guest_read access (write_bytes ?m a bs) a 8"
  proof (rule read_word_cong [OF ready m(2,3) allowed(1)])
    fix x assume "in_word a x"
    then show "store_words mem (us @ (a, bs) # vs) x = write_bytes ?m a bs x"
      using vs by (auto simp: in_word_def apart_def intro!: store_words_outside)
  qed
  moreover obtain out where "guest_read access (write_bytes ?m a bs) a 8 = Success out"
    using read_Success [OF ready m(2)] allowed(1) by (auto simp: validate_word [OF ready])
  moreover from this have "out = bs"
    using read_after_write [OF ready m(1), of bs a out] assms(5) allowed(2) by (simp add: host_object_def validate_word [OF ready])
  ultimately show ?thesis by simp
qed

lemma read_apart_word:
  assumes "access_ready access gi plan" and "backs mem plan"
    and "word_allowed gi plan read_access a" and "word_allowed gi plan write_access a"
    and len: "\<forall>(b, cs) \<in> set ws. length cs = 8" and pairs: "sorted_wrt (\<lambda>v w. apart (fst v) (fst w)) ws" and "(a, bs) \<in> set ws"
  shows "guest_read access (store_words mem ws) a 8 = Success bs"
proof -
  obtain us vs where ws: "ws = us @ (a, bs) # vs" using assms(7) by (meson split_list)
  have "\<forall>(b, cs) \<in> set vs. length cs = 8 \<and> apart a b" "length bs = 8"
    using len pairs by (auto simp: ws sorted_wrt_append)
  then show ?thesis unfolding ws by (intro read_stored_word [OF assms(1-4)])
qed

text \<open>The data segment of the sample program.\<close>

lemma sample_data_allowed:
  assumes "0x402010 \<le> unat a" and "unat a < 0x402110"
  shows "byte_allowed sample_guest sample_plan kind a"
  using assms
  by (cases kind) (auto simp: byte_allowed_def guest_allows_def plan_allows_def sample_guest_def sample_data_def
      sample_plan_def sample_data_region_def range_contains_iff access_permission_def permissions_has_def)

lemma sample_word_allowed:
  "0x402010 \<le> unat a \<Longrightarrow> unat a + 8 \<le> 0x402110 \<Longrightarrow> word_allowed sample_guest sample_plan kind a"
  using u64_offset [of a] by (auto simp: word_allowed_def intro!: sample_data_allowed)

end
