(* ===== verification/Owned_Relocations.thy ===== *)
theory Owned_Relocations
  imports Word_Patches
begin

text \<open>
  src/execution/owned_relative_patch.cpp, src/execution/owned_relative_apply.cpp and
  src/execution/owned_tls_module_patch.cpp: the words of R_X86_64_RELATIVE and R_X86_64_DTPMOD64
  relocations, and the application of a batch of relative relocations to guest memory, which checks
  every patch before the first write. Signed 64-bit addends are integers (\<open>int64\<close> bounds them); a
  std::array of eight bytes is a list, whose length the constructors fix.
\<close>

section \<open>Data\<close>

definition kOwnedX86_64RelativeType :: u32 where "kOwnedX86_64RelativeType = 8"
definition kOwnedX86_64RelativePatchWidth :: u64 where "kOwnedX86_64RelativePatchWidth = 8"
definition kX86_64Dtpmod64Type :: u32 where "kX86_64Dtpmod64Type = 16"

datatype OwnedRelativePatchErrorCode =
    relative_unsupported_table_kind
  | relative_unsupported_relocation_type
  | symbol_index_not_zero
  | relative_missing_rela_addend
  | relative_target_range_overflow
  | relocated_value_overflow

record OwnedRelativePatchError =
  relative_error_code :: OwnedRelativePatchErrorCode
  relative_error_raw_relocation_type :: u32

record OwnedRelativePatch =
  relative_target :: GuestAddress
  relative_load_bias :: GuestAddress
  relative_raw_addend :: int
  relative_value :: GuestAddress
  relative_bytes :: "u8 list"

record OwnedRelativeApplyResult =
  applied_target :: GuestAddress
  applied_value :: GuestAddress

datatype OwnedRelativeBatchErrorCode =
    too_many_patches
  | invalid_patch_encoding
  | conflicting_target
  | preflight_failure
  | apply_failure
  | readback_failure
  | readback_mismatch
  | batch_host_allocation_failure

record OwnedRelativeBatchError =
  batch_error_code :: OwnedRelativeBatchErrorCode
  batch_error_patch_index :: nat
  batch_error_conflicting_patch_index :: "nat option"
  batch_error_applied_count :: nat
  batch_error_memory_error :: "GuestMemoryError option"

datatype OwnedTlsModulePatchErrorCode =
    tls_patch_unsupported_table_kind
  | tls_patch_unsupported_relocation_type
  | tls_patch_missing_rela_addend
  | invalid_module_id
  | tls_patch_target_range_overflow

record OwnedTlsModulePatchError =
  tls_patch_error_code :: OwnedTlsModulePatchErrorCode
  tls_patch_error_raw_relocation_type :: u32

record OwnedTlsModulePatch =
  tls_patch_target :: GuestAddress
  tls_patch_symbol_index :: u32
  tls_patch_module_id :: u64
  tls_patch_raw_addend :: int
  tls_patch_bytes :: "u8 list"

section \<open>Patches\<close>

definition relative_error :: "OwnedRelativePatchErrorCode \<Rightarrow> u32 \<Rightarrow> OwnedRelativePatchError" where
  "relative_error code type = \<lparr>relative_error_code = code, relative_error_raw_relocation_type = type\<rparr>"

definition encode_le64 :: "u64 \<Rightarrow> u8 list" where
  "encode_le64 value = le_bytes 8 value"

text \<open>The sum of the load bias and the addend, None when it is not an address.\<close>

definition relocated_value :: "GuestAddress \<Rightarrow> int \<Rightarrow> u64 option" where
  "relocated_value base addend =
     (if addend \<ge> 0
      then let positive = of_int addend in
        if base > u64_max - positive then None else Some (base + positive)
      else let magnitude = of_int (- (addend + 1)) + 1 in
        if base < magnitude then None else Some (base - magnitude))"

definition build_owned_x86_64_relative_patch ::
  "DynamicRelocation \<Rightarrow> GuestAddress \<Rightarrow> (OwnedRelativePatch, OwnedRelativePatchError) Result" where
  "build_owned_x86_64_relative_patch relocation load_bias =
     (let type = reloc_relocation_type relocation in
      if reloc_table_kind relocation \<noteq> rela then Failure (relative_error relative_unsupported_table_kind type)
      else if type \<noteq> kOwnedX86_64RelativeType then Failure (relative_error relative_unsupported_relocation_type type)
      else if reloc_symbol_index relocation \<noteq> 0 then Failure (relative_error symbol_index_not_zero type)
      else case reloc_addend relocation of
        None \<Rightarrow> Failure (relative_error relative_missing_rela_addend type)
      | Some addend \<Rightarrow>
          and_then (GuestRange_create (reloc_target relocation) kOwnedX86_64RelativePatchWidth)
            (\<lambda>_. relative_error relative_target_range_overflow type) (\<lambda>_.
          case relocated_value load_bias addend of
            None \<Rightarrow> Failure (relative_error relocated_value_overflow type)
          | Some value \<Rightarrow> Success \<lparr>relative_target = reloc_target relocation, relative_load_bias = load_bias,
              relative_raw_addend = addend, relative_value = value, relative_bytes = encode_le64 value\<rparr>))"

definition tls_patch_error :: "OwnedTlsModulePatchErrorCode \<Rightarrow> u32 \<Rightarrow> OwnedTlsModulePatchError" where
  "tls_patch_error code type = \<lparr>tls_patch_error_code = code, tls_patch_error_raw_relocation_type = type\<rparr>"

definition build_owned_x86_64_dtpmod64_patch ::
  "DynamicRelocation \<Rightarrow> u64 \<Rightarrow> (OwnedTlsModulePatch, OwnedTlsModulePatchError) Result" where
  "build_owned_x86_64_dtpmod64_patch relocation defining_module_id =
     (let type = reloc_relocation_type relocation in
      if reloc_table_kind relocation \<noteq> rela then Failure (tls_patch_error tls_patch_unsupported_table_kind type)
      else if type \<noteq> kX86_64Dtpmod64Type then Failure (tls_patch_error tls_patch_unsupported_relocation_type type)
      else case reloc_addend relocation of
        None \<Rightarrow> Failure (tls_patch_error tls_patch_missing_rela_addend type)
      | Some addend \<Rightarrow>
          if defining_module_id = 0 then Failure (tls_patch_error invalid_module_id type)
          else and_then (GuestRange_create (reloc_target relocation) 8)
            (\<lambda>_. tls_patch_error tls_patch_target_range_overflow type) (\<lambda>_.
          Success \<lparr>tls_patch_target = reloc_target relocation, tls_patch_symbol_index = reloc_symbol_index relocation,
            tls_patch_module_id = defining_module_id, tls_patch_raw_addend = addend,
            tls_patch_bytes = encode_le64 defining_module_id\<rparr>))"

section \<open>Application\<close>

definition apply_owned_relative_patch ::
  "GuestMemoryAccess \<Rightarrow> process_memory \<Rightarrow> OwnedRelativePatch \<Rightarrow>
     (OwnedRelativeApplyResult \<times> process_memory, GuestMemoryError) Result" where
  "apply_owned_relative_patch access mem patch =
     with_value (preflight_write access (relative_target patch) kOwnedX86_64RelativePatchWidth) (\<lambda>_.
     with_value (guest_write access mem (relative_target patch) (relative_bytes patch)) (\<lambda>mem'.
     Success (\<lparr>applied_target = relative_target patch, applied_value = relative_value patch\<rparr>, mem')))"

definition refuse ::
  "OwnedRelativeBatchErrorCode \<Rightarrow> nat \<Rightarrow> nat \<Rightarrow> nat option \<Rightarrow> GuestMemoryError option \<Rightarrow> OwnedRelativeBatchError" where
  "refuse code index applied conflict e = \<lparr>batch_error_code = code, batch_error_patch_index = index,
     batch_error_conflicting_patch_index = conflict, batch_error_applied_count = applied, batch_error_memory_error = e\<rparr>"

text \<open>An iteration of the checking loop.\<close>

definition check_patch ::
  "GuestMemoryAccess \<Rightarrow> process_memory \<Rightarrow> nat \<Rightarrow> OwnedRelativePatch \<Rightarrow> (unit, OwnedRelativeBatchError) Result" where
  "check_patch access mem index patch =
     (let record = \<lparr>reloc_table_kind = rela, reloc_table_index = of_nat index, reloc_target = relative_target patch,
            reloc_raw_info = ucast kOwnedX86_64RelativeType, reloc_symbol_index = 0,
            reloc_relocation_type = kOwnedX86_64RelativeType, reloc_addend = Some (relative_raw_addend patch)\<rparr> in
      if build_owned_x86_64_relative_patch record (relative_load_bias patch) \<noteq> Success patch
      then Failure (refuse invalid_patch_encoding index 0 None None)
      else and_then (preflight_write access (relative_target patch) kOwnedX86_64RelativePatchWidth)
        (\<lambda>e. refuse preflight_failure index 0 None (Some e)) (\<lambda>_.
      and_then (guest_read access mem (relative_target patch) kOwnedX86_64RelativePatchWidth)
        (\<lambda>e. refuse preflight_failure index 0 None (Some e)) (\<lambda>_.
      Success ())))"

primrec check_patches ::
  "GuestMemoryAccess \<Rightarrow> process_memory \<Rightarrow> nat \<Rightarrow> OwnedRelativePatch list \<Rightarrow> (u64 \<times> nat) list \<Rightarrow>
     ((u64 \<times> nat) list, OwnedRelativeBatchError) Result" where
  "check_patches access mem index [] ordered = Success ordered"
| "check_patches access mem index (patch # rest) ordered =
     with_value (check_patch access mem index patch) (\<lambda>_.
       check_patches access mem (index + 1) rest (ordered @ [(relative_target patch, index)]))"

text \<open>The loop over neighbours of the sorted targets; the addition wraps.\<close>

fun conflicting_neighbours :: "(u64 \<times> nat) list \<Rightarrow> (nat \<times> nat) option" where
  "conflicting_neighbours (a # b # rest) =
     (if fst b < fst a + kOwnedX86_64RelativePatchWidth then Some (snd b, snd a)
      else conflicting_neighbours (b # rest))"
| "conflicting_neighbours _ = None"

primrec apply_patches ::
  "GuestMemoryAccess \<Rightarrow> process_memory \<Rightarrow> nat \<Rightarrow> OwnedRelativePatch list \<Rightarrow> OwnedRelativeApplyResult list \<Rightarrow>
     (OwnedRelativeApplyResult list \<times> process_memory, OwnedRelativeBatchError \<times> process_memory) Result" where
  "apply_patches access mem index [] applied = Success (applied, mem)"
| "apply_patches access mem index (patch # rest) applied =
     (case apply_owned_relative_patch access mem patch of
        Failure e \<Rightarrow> Failure (refuse apply_failure index (length applied) None (Some e), mem)
      | Undefined \<Rightarrow> Undefined
      | Success (result, mem1) \<Rightarrow>
          let applied' = applied @ [result] in
          (case guest_read access mem1 (relative_target patch) kOwnedX86_64RelativePatchWidth of
             Failure e \<Rightarrow> Failure (refuse readback_failure index (length applied') None (Some e), mem1)
           | Undefined \<Rightarrow> Undefined
           | Success observed \<Rightarrow>
               if observed \<noteq> relative_bytes patch
               then Failure (refuse readback_mismatch index (length applied') None None, mem1)
               else apply_patches access mem1 (index + 1) rest applied'))"

text \<open>\<open>thrown\<close> is the exception one of the two reserve calls throws, if any; later push_backs do not allocate.\<close>

definition apply_owned_relative_batch ::
  "host_event \<Rightarrow> GuestMemoryAccess \<Rightarrow> process_memory \<Rightarrow> OwnedRelativePatch list \<Rightarrow>
     (OwnedRelativeApplyResult list \<times> process_memory, OwnedRelativeBatchError \<times> process_memory) Result" where
  "apply_owned_relative_batch thrown access mem patches =
     (if length patches > 4096 then Failure (refuse too_many_patches (length patches) 0 None None, mem)
      else if thrown \<noteq> No_exception then Failure (refuse batch_host_allocation_failure 0 0 None None, mem)
      else and_then (check_patches access mem 0 patches []) (\<lambda>e. (e, mem)) (\<lambda>ordered.
        case conflicting_neighbours (std_sort (\<lambda>l r. fst l < fst r) ordered) of
          Some (index, previous) \<Rightarrow> Failure (refuse conflicting_target index 0 (Some previous) None, mem)
        | None \<Rightarrow> apply_patches access mem 0 patches []))"

section \<open>The relocated value\<close>

abbreviation int64 :: "int \<Rightarrow> bool" where
  "int64 v \<equiv> - (2 ^ 63) \<le> v \<and> v < 2 ^ 63"

lemma uint_of_int: "0 \<le> v \<Longrightarrow> v < 2 ^ 64 \<Longrightarrow> uint (of_int v :: u64) = v"
  by (simp add: uint_word_of_int_eq take_bit_int_eq_self)

lemma relocated_value_eq:
  assumes "int64 addend"
  shows "relocated_value base addend =
    (if 0 \<le> uint base + addend \<and> uint base + addend < 2 ^ 64 then Some (of_int (uint base + addend)) else None)"
proof (cases "addend \<ge> 0")
  case True
  have u: "uint (of_int addend :: u64) = addend" using True assms by (intro uint_of_int) simp_all
  have "base > u64_max - of_int addend \<longleftrightarrow> int (2 ^ 64) \<le> int (unat base) + int (unat (of_int addend :: u64))"
    unfolding gt_max_minus_iff of_nat_add [symmetric] of_nat_le_iff ..
  then have guard: "base > u64_max - of_int addend \<longleftrightarrow> 2 ^ 64 \<le> uint base + addend" using u by simp
  have "base + of_int addend = (of_int (uint base + addend) :: u64)" by simp
  moreover have "0 \<le> uint base + addend" using True by simp
  ultimately show ?thesis using True guard by (simp add: relocated_value_def Let_def not_le)
next
  case False
  let ?m = "of_int (- (addend + 1)) + 1 :: u64"
  have m: "?m = of_int (- addend)" by simp
  have u: "uint ?m = - addend" unfolding m using False assms by (intro uint_of_int) simp_all
  have guard: "base < ?m \<longleftrightarrow> uint base + addend < 0" unfolding word_less_def u by linarith
  have "base - ?m = (of_int (uint base + addend) :: u64)" unfolding m by simp
  moreover have "uint base + addend < 2 ^ 64" using False uint_lt2p [of base] by simp
  ultimately show ?thesis using False guard by (simp add: relocated_value_def Let_def not_le)
qed

text \<open>A patch is canonical when it encodes the sum of its bias and addend at a word inside the address space.\<close>

definition canonical_patch :: "OwnedRelativePatch \<Rightarrow> bool" where
  "canonical_patch p \<longleftrightarrow> unat (relative_target p) + 8 \<le> 2 ^ 64 \<and>
     0 \<le> uint (relative_load_bias p) + relative_raw_addend p \<and> uint (relative_load_bias p) + relative_raw_addend p < 2 ^ 64 \<and>
     relative_value p = of_int (uint (relative_load_bias p) + relative_raw_addend p) \<and>
     relative_bytes p = le_bytes 8 (relative_value p)"

lemma build_relative_iff:
  assumes "\<forall>a. reloc_addend r = Some a \<longrightarrow> int64 a"
  shows "build_owned_x86_64_relative_patch r bias = Success p \<longleftrightarrow>
    reloc_table_kind r = rela \<and> reloc_relocation_type r = 8 \<and> reloc_symbol_index r = 0 \<and>
    reloc_addend r = Some (relative_raw_addend p) \<and> relative_target p = reloc_target r \<and> relative_load_bias p = bias \<and>
    canonical_patch p"
proof (cases "reloc_addend r")
  case (Some a)
  have a: "int64 a" using assms Some by blast
  have "p = \<lparr>relative_target = t, relative_load_bias = b, relative_raw_addend = x, relative_value = v, relative_bytes = y\<rparr> \<longleftrightarrow>
    relative_target p = t \<and> relative_load_bias p = b \<and> relative_raw_addend p = x \<and> relative_value p = v \<and> relative_bytes p = y" for t b x v y
    by (cases p) auto
  then show ?thesis
    unfolding build_owned_x86_64_relative_patch_def Let_def Some
    by (auto simp: and_then_Success GuestRange_create_Success canonical_patch_def encode_le64_def
        kOwnedX86_64RelativeType_def kOwnedX86_64RelativePatchWidth_def relocated_value_eq [OF a])
qed (simp add: build_owned_x86_64_relative_patch_def Let_def)

lemma build_dtpmod64_iff:
  "build_owned_x86_64_dtpmod64_patch r mid = Success p \<longleftrightarrow>
    reloc_table_kind r = rela \<and> reloc_relocation_type r = 16 \<and> reloc_addend r = Some (tls_patch_raw_addend p) \<and>
    mid \<noteq> 0 \<and> unat (reloc_target r) + 8 \<le> 2 ^ 64 \<and> tls_patch_target p = reloc_target r \<and>
    tls_patch_symbol_index p = reloc_symbol_index r \<and> tls_patch_module_id p = mid \<and> tls_patch_bytes p = le_bytes 8 mid"
  by (cases p) (auto simp: build_owned_x86_64_dtpmod64_patch_def Let_def and_then_Success GuestRange_create_Success
      kX86_64Dtpmod64Type_def encode_le64_def split: option.split)

section \<open>Checks\<close>

definition patch_allowed :: "GuestImage \<Rightarrow> ExecutionMemoryPlan \<Rightarrow> OwnedRelativePatch \<Rightarrow> bool" where
  "patch_allowed gi plan p \<longleftrightarrow>
     word_allowed gi plan write_access (relative_target p) \<and> word_allowed gi plan read_access (relative_target p)"

lemma check_patch_Success:
  assumes ready: "access_ready access gi plan" and mem: "backs mem plan" and "int64 (relative_raw_addend p)"
  shows "check_patch access mem index p = Success u \<longleftrightarrow> canonical_patch p \<and> patch_allowed gi plan p"
proof -
  have encoded: "build_owned_x86_64_relative_patch \<lparr>reloc_table_kind = rela, reloc_table_index = of_nat index,
      reloc_target = relative_target p, reloc_raw_info = ucast kOwnedX86_64RelativeType, reloc_symbol_index = 0,
      reloc_relocation_type = kOwnedX86_64RelativeType, reloc_addend = Some (relative_raw_addend p)\<rparr>
      (relative_load_bias p) = Success p \<longleftrightarrow> canonical_patch p"
    using assms(3) by (subst build_relative_iff) (simp_all add: kOwnedX86_64RelativeType_def)
  have "(\<exists>k. preflight_write access (relative_target p) 8 = Success k) \<and>
      (\<exists>bs. guest_read access mem (relative_target p) 8 = Success bs) \<longleftrightarrow>
      patch_allowed gi plan p"
    unfolding preflight_write_def read_Success_iff [OF ready mem] validate_word [OF ready] patch_allowed_def by blast
  then show ?thesis
    unfolding check_patch_def Let_def encoded kOwnedX86_64RelativePatchWidth_def
    by (auto simp: and_then_Success canonical_patch_def)
qed

lemma check_patch_defined:
  assumes "access_ready access gi plan" and "backs mem plan"
  shows "check_patch access mem index p \<noteq> Undefined"
  using validate_ready_defined [OF assms(1)] read_defined [OF assms]
  by (auto simp: check_patch_def Let_def and_then_Undefined preflight_write_def)

lemma check_patch_error: "check_patch access mem index p = Failure e \<Longrightarrow> batch_error_applied_count e = 0"
  by (auto simp: check_patch_def Let_def refuse_def and_then_Failure split: if_splits)

lemma check_patches_Success:
  assumes "access_ready access gi plan" and "backs mem plan"
  shows "\<forall>p \<in> set ps. int64 (relative_raw_addend p) \<Longrightarrow> check_patches access mem index ps acc = Success out \<longleftrightarrow>
    (\<forall>p \<in> set ps. canonical_patch p \<and> patch_allowed gi plan p) \<and>
    out = acc @ zip (map relative_target ps) [index..<index + length ps]"
proof (induction ps arbitrary: index acc)
  case (Cons p ps)
  have "[index..<index + length (p # ps)] = index # [index + 1..<(index + 1) + length ps]"
    by (simp add: upt_conv_Cons del: upt_Suc)
  then show ?case using Cons check_patch_Success [OF assms, of p index] by (simp add: and_then_Success del: upt_Suc)
qed auto

lemma check_patches_Failure:
  assumes "access_ready access gi plan" and "backs mem plan"
  shows "check_patches access mem index ps acc \<noteq> Undefined"
    and "check_patches access mem index ps acc = Failure e \<Longrightarrow> batch_error_applied_count e = 0"
  by (induction ps arbitrary: index acc)
    (auto simp: and_then_Undefined and_then_Failure check_patch_defined [OF assms] dest: check_patch_error)

section \<open>Conflicts\<close>

text \<open>
  Two words do not overlap. The last word of the address space is the exception: the end of its range
  wraps to zero, so that the comparison never reports a second patch there.
\<close>

definition top_word :: u64 where
  "top_word = 0xFFFFFFFFFFFFFFF8"

definition conflict_free :: "u64 \<Rightarrow> u64 \<Rightarrow> bool" where
  "conflict_free a b \<longleftrightarrow> apart a b \<or> (a = top_word \<and> b = top_word)"

lemma top_word_end: "top_word + 8 = 0"
  by (simp add: top_word_def)

lemma word_end: "unat a + 8 \<le> 2 ^ 64 \<Longrightarrow> (b :: u64) < a + 8 \<longleftrightarrow> a \<noteq> top_word \<and> unat b < unat a + 8"
proof (cases "a = top_word")
  case False
  assume "unat a + 8 \<le> 2 ^ 64"
  moreover have "unat a \<noteq> unat top_word" using False by (simp only: word_unat_eq_iff not_False_eq_True)
  ultimately have "unat (a + 8) = unat a + 8" by (subst unat_add_no_wrap) (simp_all add: top_word_def)
  with False show ?thesis by (simp add: word_less_nat_alt)
qed (simp add: top_word_end)

lemma conflicting_neighbours_None:
  assumes "sorted (map fst xs)" and "\<forall>x \<in> set xs. unat (fst x) + 8 \<le> 2 ^ 64"
  shows "conflicting_neighbours xs = None \<longleftrightarrow> sorted_wrt (\<lambda>a b. conflict_free (fst a) (fst b)) xs"
  using assms
proof (induction xs rule: conflicting_neighbours.induct)
  case (1 a b rest)
  have le: "unat (fst a) \<le> unat (fst b)" "\<forall>y \<in> set (b # rest). unat (fst b) \<le> unat (fst y) \<and> unat (fst y) + 8 \<le> 2 ^ 64"
    using 1(2,3) by (auto simp: word_le_nat_alt)
  have "\<not> fst b < fst a + 8 \<longleftrightarrow> (\<forall>y \<in> set (b # rest). conflict_free (fst a) (fst y))"
  proof (cases "fst a = top_word")
    case True
    have "fst y = top_word" if "y \<in> set (b # rest)" for y
      using le that True unat_lt_2p64 [of "fst y"] by (auto simp: top_word_def word_unat_eq_iff intro!: antisym)
    with True show ?thesis using word_end [of "fst a" "fst b"] 1(3) by (auto simp: conflict_free_def)
  next
    case False
    then show ?thesis
      using le word_end [of "fst a" "fst b"] 1(3) by (fastforce simp: conflict_free_def apart_def not_less)
  qed
  with 1 show ?case by (auto simp: kOwnedX86_64RelativePatchWidth_def)
qed simp_all

lemma batch_conflicts:
  assumes "\<forall>p \<in> set ps. unat (relative_target p) + 8 \<le> 2 ^ 64"
  shows "conflicting_neighbours (std_sort (\<lambda>l r. fst l < fst r) (zip (map relative_target ps) [i..<i + length ps])) = None \<longleftrightarrow>
    sorted_wrt (\<lambda>p q. conflict_free (relative_target p) (relative_target q)) ps" (is "conflicting_neighbours (std_sort ?lt ?z) = None \<longleftrightarrow> _")
proof -
  have "sorted (map fst (std_sort ?lt ?z))"
    using comparator.sorted_std_sort [OF comparator_by_key [where key = fst], of ?z] by (simp add: sorted_map not_less)
  moreover have "\<forall>x \<in> set (std_sort ?lt ?z). unat (fst x) + 8 \<le> 2 ^ 64"
    using assms by (auto simp: set_zip)
  ultimately have "conflicting_neighbours (std_sort ?lt ?z) = None \<longleftrightarrow>
      sorted_wrt (\<lambda>a b. conflict_free (fst a) (fst b)) (std_sort ?lt ?z)"
    by (rule conflicting_neighbours_None)
  also have "\<dots> \<longleftrightarrow> sorted_wrt (\<lambda>a b. conflict_free (fst a) (fst b)) ?z"
    by (rule pairwise_std_sort) (auto simp: conflict_free_def apart_def)
  also have "\<dots> \<longleftrightarrow> sorted_wrt conflict_free (map fst ?z)" by (simp only: sorted_wrt_map)
  also have "map fst ?z = map relative_target ps" by simp
  finally show ?thesis by (simp only: sorted_wrt_map)
qed

section \<open>Application\<close>

definition patch_words :: "OwnedRelativePatch list \<Rightarrow> (u64 \<times> u8 list) list" where
  "patch_words ps = map (\<lambda>p. (relative_target p, relative_bytes p)) ps"

lemma patch_words_simps [simp]:
  "patch_words [] = []" "patch_words (p # ps) = (relative_target p, relative_bytes p) # patch_words ps"
  by (simp_all add: patch_words_def)

lemma canonical_bytes: "canonical_patch p \<Longrightarrow> length (relative_bytes p) = 8"
  by (simp add: canonical_patch_def)

lemma apply_patches_Success:
  assumes ready: "access_ready access gi plan"
  shows "backs mem plan \<Longrightarrow> \<forall>p \<in> set ps. canonical_patch p \<and> patch_allowed gi plan p \<Longrightarrow>
    apply_patches access mem index ps applied =
      Success (applied @ map (\<lambda>p. \<lparr>applied_target = relative_target p, applied_value = relative_value p\<rparr>) ps,
        store_words mem (patch_words ps))"
proof (induction ps arbitrary: mem index applied)
  case (Cons p ps)
  let ?t = "relative_target p" and ?b = "relative_bytes p"
  have p: "canonical_patch p" "word_allowed gi plan write_access ?t" "word_allowed gi plan read_access ?t"
    using Cons.prems by (auto simp: patch_allowed_def)
  note len = canonical_bytes [OF p(1)]
  have stored: "guest_write access mem ?t ?b = Success (write_bytes mem ?t ?b)"
    using write_word [OF ready Cons.prems(1) len] p(2) by simp
  have observed: "guest_read access (write_bytes mem ?t ?b) ?t 8 = Success ?b"
    using read_stored_word [OF ready Cons.prems(1) p(3,2) len, of "[]" "[]"] by simp
  have allowed: "validate_access access ?t 8 write_access = Success 8"
    using p(2) by (simp add: validate_word [OF ready])
  have "apply_patches access mem index (p # ps) applied =
      apply_patches access (write_bytes mem ?t ?b) (index + 1) ps
        (applied @ [\<lparr>applied_target = ?t, applied_value = relative_value p\<rparr>])"
    using allowed stored observed
    by (simp add: apply_owned_relative_patch_def preflight_write_def kOwnedX86_64RelativePatchWidth_def)
  then show ?case
    using Cons.IH [OF backs_write_bytes [OF Cons.prems(1)]] Cons.prems by simp
qed simp

definition batch_passes :: "host_event \<Rightarrow> GuestImage \<Rightarrow> ExecutionMemoryPlan \<Rightarrow> OwnedRelativePatch list \<Rightarrow> bool" where
  "batch_passes thrown gi plan patches \<longleftrightarrow> thrown = No_exception \<and> length patches \<le> 4096 \<and>
    (\<forall>p \<in> set patches. canonical_patch p \<and> patch_allowed gi plan p) \<and>
    sorted_wrt (\<lambda>p q. conflict_free (relative_target p) (relative_target q)) patches"

definition apply_results :: "OwnedRelativePatch list \<Rightarrow> OwnedRelativeApplyResult list" where
  "apply_results patches = map (\<lambda>p. \<lparr>applied_target = relative_target p, applied_value = relative_value p\<rparr>) patches"

lemma batch_checked:
  assumes "access_ready access gi plan" and "backs mem plan" and "\<forall>p \<in> set patches. int64 (relative_raw_addend p)"
  shows "apply_owned_relative_batch thrown access mem patches \<noteq> Undefined \<and>
    (if batch_passes thrown gi plan patches
     then apply_owned_relative_batch thrown access mem patches = Success (apply_results patches, store_words mem (patch_words patches))
     else \<exists>e. apply_owned_relative_batch thrown access mem patches = Failure (e, mem) \<and> batch_error_applied_count e = 0)"
proof (cases "\<forall>p \<in> set patches. canonical_patch p \<and> patch_allowed gi plan p")
  case True
  let ?z = "zip (map relative_target patches) [0..<0 + length patches]"
  have check: "check_patches access mem 0 patches [] = Success ?z"
    using True by (simp add: check_patches_Success [OF assms])
  have all_applied: "apply_patches access mem 0 patches [] = Success (apply_results patches, store_words mem (patch_words patches))"
    using apply_patches_Success [OF assms(1,2) True, of 0 "[]"] by (simp add: apply_results_def)
  have "conflicting_neighbours (std_sort (\<lambda>l r. fst l < fst r) ?z) = None \<longleftrightarrow>
      sorted_wrt (\<lambda>p q. conflict_free (relative_target p) (relative_target q)) patches"
    using True by (intro batch_conflicts) (simp add: canonical_patch_def)
  then show ?thesis
    using True check all_applied
    by (auto simp: apply_owned_relative_batch_def batch_passes_def refuse_def split: option.split)
next
  case False
  have "\<nexists>out. check_patches access mem 0 patches [] = Success out"
    using False by (simp add: check_patches_Success [OF assms])
  then obtain e where "check_patches access mem 0 patches [] = Failure e"
    using check_patches_Failure(1) [OF assms(1,2)] by (cases "check_patches access mem 0 patches []") auto
  then show ?thesis
    using False check_patches_Failure(2) [OF assms(1,2)]
    by (auto simp: apply_owned_relative_batch_def batch_passes_def refuse_def)
qed

text \<open>
  A batch is accepted when its words do not overlap. The code decides this except for a second patch of
  the last word of the address space.
\<close>

definition batch_accepted :: "host_event \<Rightarrow> GuestImage \<Rightarrow> ExecutionMemoryPlan \<Rightarrow> OwnedRelativePatch list \<Rightarrow> bool" where
  "batch_accepted thrown gi plan patches \<longleftrightarrow> thrown = No_exception \<and> length patches \<le> 4096 \<and>
    (\<forall>p \<in> set patches. canonical_patch p \<and> patch_allowed gi plan p) \<and>
    sorted_wrt (\<lambda>p q. apart (relative_target p) (relative_target q)) patches"

lemma conflict_free_apart:
  "length (filter (\<lambda>p. relative_target p = top_word) patches) \<le> 1 \<Longrightarrow>
    sorted_wrt (\<lambda>p q. conflict_free (relative_target p) (relative_target q)) patches \<longleftrightarrow>
    sorted_wrt (\<lambda>p q. apart (relative_target p) (relative_target q)) patches"
proof (induction patches)
  case (Cons p ps)
  have "\<not> (relative_target p = top_word \<and> relative_target q = top_word)" if "q \<in> set ps" for q
    using Cons.prems that by (auto simp: filter_empty_conv)
  with Cons show ?case by (auto simp: conflict_free_def split: if_splits)
qed simp

lemma batch_accepted_iff:
  "length (filter (\<lambda>p. relative_target p = top_word) patches) \<le> 1 \<Longrightarrow>
    batch_passes thrown gi plan patches \<longleftrightarrow> batch_accepted thrown gi plan patches"
  by (simp add: batch_passes_def batch_accepted_def conflict_free_apart)

section \<open>Properties\<close>

text \<open>
  C22. Applying a batch of relative relocations with at most one patch of the last word of the address
  space is all or nothing: it never faults, when it fails no guest byte has changed and the error
  reports no applied patch, and it succeeds exactly when there are at most 4096 patches, no allocation
  fails, every patch encodes the sum of its load bias and addend at a word that may be written and read,
  and no two words overlap. After a success each word reads back as the little-endian sum and nothing
  outside the words has changed.
\<close>

theorem apply_owned_relative_batch_correct:
  assumes "access_ready access gi plan" and "backs mem plan" and "\<forall>p \<in> set patches. int64 (relative_raw_addend p)"
    and "length (filter (\<lambda>p. relative_target p = 0xFFFFFFFFFFFFFFF8) patches) \<le> 1"
  shows "case apply_owned_relative_batch thrown access mem patches of
      Undefined \<Rightarrow> False
    | Failure (e, mem') \<Rightarrow> \<not> batch_accepted thrown gi plan patches \<and> mem' = mem \<and> batch_error_applied_count e = 0
    | Success (results, mem') \<Rightarrow> batch_accepted thrown gi plan patches \<and> backs mem' plan \<and>
        results = apply_results patches \<and>
        (\<forall>x. (\<forall>p \<in> set patches. \<not> in_word (relative_target p) x) \<longrightarrow> mem' x = mem x) \<and>
        (\<forall>p \<in> set patches. guest_read access mem' (relative_target p) 8 =
           Success (le_bytes 8 (of_int (uint (relative_load_bias p) + relative_raw_addend p))))"
proof -
  note accepted = batch_accepted_iff [unfolded top_word_def, OF assms(4), of thrown gi plan]
  note checked = batch_checked [OF assms(1-3), of thrown, unfolded accepted]
  show ?thesis
  proof (cases "batch_accepted thrown gi plan patches")
    case True
    then have ok: "\<forall>p \<in> set patches. canonical_patch p \<and> patch_allowed gi plan p"
      and apart: "sorted_wrt (\<lambda>v w. apart (fst v) (fst w)) (patch_words patches)"
      by (simp_all add: batch_accepted_def patch_words_def sorted_wrt_map)
    have len: "\<forall>(b, cs) \<in> set (patch_words patches). length cs = 8" using ok by (auto simp: patch_words_def canonical_bytes)
    have "guest_read access (store_words mem (patch_words patches)) (relative_target p) 8 =
        Success (le_bytes 8 (of_int (uint (relative_load_bias p) + relative_raw_addend p)))" if p: "p \<in> set patches" for p
    proof -
      have "(relative_target p, relative_bytes p) \<in> set (patch_words patches)" using p by (simp add: patch_words_def)
      then show ?thesis
        using ok p apart read_apart_word [OF assms(1,2) _ _ len] by (simp add: patch_allowed_def canonical_patch_def)
    qed
    moreover have "store_words mem (patch_words patches) x = mem x" if "\<forall>p \<in> set patches. \<not> in_word (relative_target p) x" for x
      using len that by (intro store_words_outside) (auto simp: patch_words_def)
    ultimately show ?thesis using checked True backs_store_words [OF assms(2)] by simp
  next
    case False
    then show ?thesis using checked by auto
  qed
qed

text \<open>
  The hypothesis is needed: a second patch of the last word is accepted and replaces the first.
\<close>

lemma relative_batch_last_word:
  assumes "access_ready access gi plan" and "backs mem plan"
    and "int64 (relative_raw_addend p)" and "int64 (relative_raw_addend q)"
    and "canonical_patch p" and "canonical_patch q" and "patch_allowed gi plan p" and "patch_allowed gi plan q"
    and "relative_target p = top_word" and "relative_target q = top_word" and "relative_value p \<noteq> relative_value q"
  shows "\<exists>results mem'. apply_owned_relative_batch No_exception access mem [p, q] = Success (results, mem') \<and>
    guest_read access mem' (relative_target p) 8 \<noteq> Success (relative_bytes p)"
proof -
  have acc: "batch_passes No_exception gi plan [p, q]"
    using assms by (simp add: batch_passes_def conflict_free_def)
  have "guest_read access (store_words mem (patch_words [p, q])) top_word 8 = Success (relative_bytes q)"
    using read_stored_word [OF assms(1,2), of top_word "relative_bytes q" "[]" "[(top_word, relative_bytes p)]"]
      assms(6,8,9,10) by (simp add: patch_allowed_def canonical_bytes)
  moreover have "relative_bytes p \<noteq> relative_bytes q"
    using assms(5,6,11) unfolding canonical_patch_def by (metis le_nat_le_bytes_8 word_unat_eq_iff)
  ultimately show ?thesis
    using batch_checked [OF assms(1,2), of "[p, q]" No_exception] assms(3,4,9) acc by auto
qed

section \<open>A concrete batch\<close>

definition sample_patch :: OwnedRelativePatch where
  "sample_patch = \<lparr>relative_target = 0x402018, relative_load_bias = 0x400000, relative_raw_addend = 16,
     relative_value = 0x400010, relative_bytes = [0x10, 0, 0x40, 0, 0, 0, 0, 0]\<rparr>"

lemma sample_patch_ok: "canonical_patch sample_patch" "patch_allowed sample_guest sample_plan sample_patch"
proof -
  show "canonical_patch sample_patch"
    by (simp add: canonical_patch_def sample_patch_def le_bytes_def upt_rec)
  show "patch_allowed sample_guest sample_plan sample_patch"
    by (simp add: patch_allowed_def sample_patch_def sample_word_allowed)
qed

theorem apply_owned_relative_batch_correct_witness:
  "case apply_owned_relative_batch No_exception sample_access sample_memory [sample_patch] of
     Success (results, mem') \<Rightarrow> guest_read sample_access mem' 0x402018 8 = Success [0x10, 0, 0x40, 0, 0, 0, 0, 0]
   | _ \<Rightarrow> False"
proof -
  have "batch_accepted No_exception sample_guest sample_plan [sample_patch]"
    using sample_patch_ok by (simp add: batch_accepted_def)
  moreover have "le_bytes 8 (of_int (uint (relative_load_bias sample_patch) + relative_raw_addend sample_patch)) =
      [0x10, 0, 0x40, 0, 0, 0, 0, 0]"
    by (simp add: sample_patch_def le_bytes_def upt_rec)
  moreover have "int64 (relative_raw_addend sample_patch)" "relative_target sample_patch = 0x402018"
    by (simp_all add: sample_patch_def)
  ultimately show ?thesis
    using apply_owned_relative_batch_correct [OF sample_access_ready sample_memory_backs, of "[sample_patch]" No_exception]
    by (auto split: Result.splits)
qed

end
