(* ===== verification/Sce_Imports.thy ===== *)
theory Sce_Imports
  imports Sce_Symbols Hle_Gates Dynamic_Relocations Owned_Relocations
begin

text \<open>
  src/execution/sce_import_binding.cpp, sce_import_resolution.cpp, sce_jump_slot_patch.cpp,
  sce_jump_slot_apply.cpp, sce_glob_dat_patch.cpp and sce_glob_dat_apply.cpp: from the relocations of a
  program to the gates its imported functions are bound to. Jump slots and GLOB_DAT words are patched
  by functions with the same bodies and different constants, which share the definitions of a gate
  patch here.
\<close>

section \<open>Bindings of imports\<close>

datatype SceImportBindingErrorCode =
    invalid_identity
  | unknown_hle_function
  | duplicate_identity
  | binding_host_allocation_failure

record SceImportBindingError =
  binding_error_code :: SceImportBindingErrorCode
  binding_error_binding_index :: "nat option"
  binding_error_conflicting_binding_index :: "nat option"
  binding_error_function_id :: "HleFunctionId option"

record SceImportBinding =
  import_identity :: SceSymbolIdentity
  import_function_id :: HleFunctionId

datatype SceImportResolutionKind = resolved | unresolved

record SceImportResolution =
  resolution_kind :: SceImportResolutionKind
  resolution_function_id :: "HleFunctionId option"

record SceImportBindingRegistry =
  import_bindings :: "SceImportBinding list"

definition binding_error ::
  "SceImportBindingErrorCode \<Rightarrow> nat option \<Rightarrow> nat option \<Rightarrow> HleFunctionId option \<Rightarrow> SceImportBindingError" where
  "binding_error code index conflict fid = \<lparr>binding_error_code = code, binding_error_binding_index = index,
     binding_error_conflicting_binding_index = conflict, binding_error_function_id = fid\<rparr>"

definition valid_identity :: "SceSymbolIdentity \<Rightarrow> bool" where
  "valid_identity i \<longleftrightarrow> length (identity_nid i) = 11 \<and> identity_library_id i \<noteq> [] \<and> identity_module_id i \<noteq> []"

text \<open>The loop over the bindings; \<open>previous\<close> are the ones before the current.\<close>

primrec check_import_bindings ::
  "HleRegistry \<Rightarrow> SceImportBinding list \<Rightarrow> SceImportBinding list \<Rightarrow> (unit, SceImportBindingError) Result" where
  "check_import_bindings hle previous [] = Success ()"
| "check_import_bindings hle previous (binding # rest) =
     (let index = length previous in
      if \<not> valid_identity (import_identity binding)
      then Failure (binding_error invalid_identity (Some index) None (Some (import_function_id binding)))
      else if registry_find hle (import_function_id binding) = None
      then Failure (binding_error unknown_hle_function (Some index) None (Some (import_function_id binding)))
      else case find (\<lambda>j. import_identity (previous ! j) = import_identity binding) [0..<index] of
          Some j \<Rightarrow> Failure (binding_error duplicate_identity (Some index) (Some j) (Some (import_function_id binding)))
        | None \<Rightarrow> check_import_bindings hle (previous @ [binding]) rest)"

text \<open>\<open>thrown\<close> is the exception the copy of the bindings throws, if any.\<close>

definition import_registry_create ::
  "host_event \<Rightarrow> HleRegistry \<Rightarrow> SceImportBinding list \<Rightarrow> (SceImportBindingRegistry, SceImportBindingError) Result" where
  "import_registry_create thrown hle bindings =
     (if thrown \<noteq> No_exception then Failure (binding_error binding_host_allocation_failure None None None)
      else with_value (check_import_bindings hle [] bindings) (\<lambda>_. Success \<lparr>import_bindings = bindings\<rparr>))"

definition import_resolve :: "SceImportBindingRegistry \<Rightarrow> SceSymbolIdentity \<Rightarrow> SceImportResolution" where
  "import_resolve registry i =
     (case find (\<lambda>b. import_identity b = i) (import_bindings registry) of
        Some b \<Rightarrow> \<lparr>resolution_kind = resolved, resolution_function_id = Some (import_function_id b)\<rparr>
      | None \<Rightarrow> \<lparr>resolution_kind = unresolved, resolution_function_id = None\<rparr>)"

section \<open>Resolution plans\<close>

datatype SceImportResolutionPlanErrorCode =
    symbol_index_mismatch
  | symbol_not_undefined
  | missing_sce_identity
  | unresolved_import
  | resolution_host_allocation_failure

record SceImportResolutionPlanError =
  resolution_error_code :: SceImportResolutionPlanErrorCode
  resolution_error_relocation_symbol_index :: u32
  resolution_error_symbol_record_index :: u64

record SceImportResolutionPlan =
  plan_table_kind :: RelocationTableKind
  plan_table_index :: u64
  plan_relocation_target :: GuestAddress
  plan_raw_relocation_type :: u32
  plan_raw_addend :: "int option"
  plan_symbol_index :: u32
  plan_raw_symbol_name :: "u8 list"
  plan_identity :: SceSymbolIdentity
  plan_function_id :: HleFunctionId

datatype SceImportBatchPlanErrorCode =
    relocation_failure
  | import_symbol_failure
  | resolution_failure
  | batch_plan_host_allocation_failure

record SceImportBatchPlanError =
  batch_plan_error_code :: SceImportBatchPlanErrorCode
  batch_plan_error_relocation_index :: u64
  batch_plan_error_relocation_error :: "DynamicRelocationError option"
  batch_plan_error_symbol_error :: "SceDynamicSymbolError option"
  batch_plan_error_resolution_error :: "SceImportResolutionPlanError option"

definition plan_sce_import_resolution ::
  "host_event \<Rightarrow> DynamicRelocation \<Rightarrow> SceDynamicSymbolRecord \<Rightarrow> SceImportBindingRegistry \<Rightarrow>
     (SceImportResolutionPlan, SceImportResolutionPlanError) Result" where
  "plan_sce_import_resolution thrown relocation symbol bindings =
     (let plan_error = (\<lambda>code. \<lparr>resolution_error_code = code,
            resolution_error_relocation_symbol_index = reloc_symbol_index relocation,
            resolution_error_symbol_record_index = symbol_index (sce_symbol symbol)\<rparr>) in
      if ucast (reloc_symbol_index relocation) \<noteq> symbol_index (sce_symbol symbol)
      then Failure (plan_error symbol_index_mismatch)
      else if symbol_section_index_raw (sce_symbol symbol) \<noteq> 0 then Failure (plan_error symbol_not_undefined)
      else case name_identity (sce_name symbol) of
        None \<Rightarrow> Failure (plan_error missing_sce_identity)
      | Some i \<Rightarrow>
          (let r = import_resolve bindings i in
           case resolution_function_id r of
             None \<Rightarrow> Failure (plan_error unresolved_import)
           | Some fid \<Rightarrow>
               if resolution_kind r \<noteq> resolved then Failure (plan_error unresolved_import)
               else if thrown \<noteq> No_exception then Failure (plan_error resolution_host_allocation_failure)
               else Success \<lparr>plan_table_kind = reloc_table_kind relocation, plan_table_index = reloc_table_index relocation,
                 plan_relocation_target = reloc_target relocation, plan_raw_relocation_type = reloc_relocation_type relocation,
                 plan_raw_addend = reloc_addend relocation, plan_symbol_index = reloc_symbol_index relocation,
                 plan_raw_symbol_name = name_raw (sce_name symbol), plan_identity = i, plan_function_id = fid\<rparr>))"

text \<open>The allocations of one iteration of the planning loop.\<close>

record Import_events =
  event_string :: host_allocator
  event_name :: host_event
  event_plan :: host_event
  event_push :: host_event

abbreviation batch_plan_error :: "SceImportBatchPlanErrorCode \<Rightarrow> u64 \<Rightarrow> SceImportBatchPlanError" where
  "batch_plan_error code index \<equiv> \<lparr>batch_plan_error_code = code, batch_plan_error_relocation_index = index,
     batch_plan_error_relocation_error = None, batch_plan_error_symbol_error = None, batch_plan_error_resolution_error = None\<rparr>"

definition plan_import ::
  "nat \<Rightarrow> Import_events \<Rightarrow> DynamicRelocationTableDescriptor \<Rightarrow> DynamicSymbolTableDescriptor \<Rightarrow> DynamicStringTableDescriptor \<Rightarrow>
     InitializedImageView \<Rightarrow> SceImportBindingRegistry \<Rightarrow> u64 \<Rightarrow> (SceImportResolutionPlan, SceImportBatchPlanError) Result" where
  "plan_import max_size ev relocations symbols strings view bindings index =
     and_then (parse_dynamic_relocation relocations index symbols view)
       (\<lambda>e. (batch_plan_error relocation_failure index)\<lparr>batch_plan_error_relocation_error := Some e\<rparr>) (\<lambda>relocation.
     and_then (materialize_sce_dynamic_symbol max_size (event_string ev) (event_name ev) symbols strings
         (ucast (reloc_symbol_index relocation)) view)
       (\<lambda>e. (batch_plan_error import_symbol_failure index)\<lparr>batch_plan_error_symbol_error := Some e\<rparr>) (\<lambda>symbol.
     and_then (plan_sce_import_resolution (event_plan ev) relocation symbol bindings)
       (\<lambda>e. (batch_plan_error resolution_failure index)\<lparr>batch_plan_error_resolution_error := Some e\<rparr>) (\<lambda>plan.
     if event_push ev \<noteq> No_exception then Failure (batch_plan_error batch_plan_host_allocation_failure index)
     else Success plan)))"

primrec plan_imports_loop ::
  "(nat \<Rightarrow> (SceImportResolutionPlan, SceImportBatchPlanError) Result) \<Rightarrow> nat list \<Rightarrow> SceImportResolutionPlan list \<Rightarrow>
     (SceImportResolutionPlan list, SceImportBatchPlanError) Result" where
  "plan_imports_loop step [] plans = Success plans"
| "plan_imports_loop step (i # is) plans = with_value (step i) (\<lambda>plan. plan_imports_loop step is (plans @ [plan]))"

definition plan_sce_imports ::
  "nat \<Rightarrow> (nat \<Rightarrow> Import_events) \<Rightarrow> DynamicRelocationTableDescriptor \<Rightarrow> DynamicSymbolTableDescriptor \<Rightarrow>
     DynamicStringTableDescriptor \<Rightarrow> InitializedImageView \<Rightarrow> SceImportBindingRegistry \<Rightarrow>
     (SceImportResolutionPlan list, SceImportBatchPlanError) Result" where
  "plan_sce_imports max_size events relocations symbols strings view bindings =
     plan_imports_loop
       (\<lambda>i. plan_import max_size (events i) relocations symbols strings view bindings (of_nat i))
       [0..<unat (relocs_count relocations)] []"

definition plan_sce_plt_imports ::
  "nat \<Rightarrow> (nat \<Rightarrow> Import_events) \<Rightarrow> DynamicRelocationTableDescriptor \<Rightarrow> DynamicSymbolTableDescriptor \<Rightarrow>
     DynamicStringTableDescriptor \<Rightarrow> InitializedImageView \<Rightarrow> SceImportBindingRegistry \<Rightarrow>
     (SceImportResolutionPlan list, SceImportBatchPlanError) Result" where
  "plan_sce_plt_imports = plan_sce_imports"

section \<open>Gate patches\<close>

definition kX86_64JumpSlotRelocationType :: u32 where "kX86_64JumpSlotRelocationType = 7"
definition kX86_64GlobDatRelocationType :: u32 where "kX86_64GlobDatRelocationType = 6"

datatype GatePatchErrorCode =
    gate_unsupported_table_kind
  | gate_unsupported_relocation_type
  | unbound_gate_slot
  | gate_function_mismatch
  | gate_address_unavailable

record GatePatchError =
  gate_error_code :: GatePatchErrorCode
  gate_error_gate_slot :: u32
  gate_error_relocation_type :: u32
  gate_error_expected_function_id :: "HleFunctionId option"
  gate_error_actual_function_id :: "HleFunctionId option"

record GatePatch =
  gate_patch_target :: GuestAddress
  gate_patch_destination :: GuestAddress
  gate_patch_slot :: u32
  gate_patch_function_id :: HleFunctionId
  gate_patch_bytes :: "u8 list"
  gate_patch_raw_addend :: "int option"

datatype GateBatchErrorCode =
    gate_slot_count_mismatch
  | patch_failure
  | gate_host_allocation_failure

record GateBatchError =
  gate_batch_error_code :: GateBatchErrorCode
  gate_batch_error_plan_index :: nat
  gate_batch_error_plan_count :: nat
  gate_batch_error_gate_slot_count :: nat
  gate_batch_error_patch_error :: "GatePatchError option"

definition gate_patch_error ::
  "GatePatchErrorCode \<Rightarrow> u32 \<Rightarrow> u32 \<Rightarrow> HleFunctionId option \<Rightarrow> HleFunctionId option \<Rightarrow> GatePatchError" where
  "gate_patch_error code slot type expected actual = \<lparr>gate_error_code = code, gate_error_gate_slot = slot,
     gate_error_relocation_type = type, gate_error_expected_function_id = expected, gate_error_actual_function_id = actual\<rparr>"

text \<open>The body of both patch builders, for the table kind and the relocation type they accept.\<close>

definition build_gate_patch ::
  "RelocationTableKind \<Rightarrow> u32 \<Rightarrow> SceImportResolutionPlan \<Rightarrow> SyntheticGateRegion \<Rightarrow> u32 \<Rightarrow> (GatePatch, GatePatchError) Result" where
  "build_gate_patch kind type plan region slot =
     (let failed = (\<lambda>code actual. Failure (gate_patch_error code slot (plan_raw_relocation_type plan)
            (Some (plan_function_id plan)) actual)) in
      if plan_table_kind plan \<noteq> kind then failed gate_unsupported_table_kind None
      else if plan_raw_relocation_type plan \<noteq> type then failed gate_unsupported_relocation_type None
      else case binding_for_slot region slot of
        None \<Rightarrow> failed unbound_gate_slot None
      | Some binding \<Rightarrow>
          if binding_function_id binding \<noteq> plan_function_id plan
          then failed gate_function_mismatch (Some (binding_function_id binding))
          else (case slot_address region slot of
            None \<Rightarrow> failed gate_address_unavailable (Some (binding_function_id binding))
          | Some address \<Rightarrow> Success \<lparr>gate_patch_target = plan_relocation_target plan, gate_patch_destination = address,
              gate_patch_slot = slot, gate_patch_function_id = plan_function_id plan, gate_patch_bytes = encode_le64 address,
              gate_patch_raw_addend = plan_raw_addend plan\<rparr>))"

definition build_synthetic_x86_64_jump_slot_patch ::
  "SceImportResolutionPlan \<Rightarrow> SyntheticGateRegion \<Rightarrow> u32 \<Rightarrow> (GatePatch, GatePatchError) Result" where
  "build_synthetic_x86_64_jump_slot_patch = build_gate_patch plt_rela kX86_64JumpSlotRelocationType"

definition build_synthetic_x86_64_glob_dat_gate_patch ::
  "SceImportResolutionPlan \<Rightarrow> SyntheticGateRegion \<Rightarrow> u32 \<Rightarrow> (GatePatch, GatePatchError) Result" where
  "build_synthetic_x86_64_glob_dat_gate_patch = build_gate_patch rela kX86_64GlobDatRelocationType"

abbreviation gate_batch_error :: "GateBatchErrorCode \<Rightarrow> nat \<Rightarrow> nat \<Rightarrow> nat \<Rightarrow> GatePatchError option \<Rightarrow> GateBatchError" where
  "gate_batch_error code index plans slots e \<equiv> \<lparr>gate_batch_error_code = code, gate_batch_error_plan_index = index,
     gate_batch_error_plan_count = plans, gate_batch_error_gate_slot_count = slots, gate_batch_error_patch_error = e\<rparr>"

primrec build_gate_patches_loop ::
  "(nat \<Rightarrow> (GatePatch, GatePatchError) Result) \<Rightarrow> nat \<Rightarrow> nat list \<Rightarrow> GatePatch list \<Rightarrow> (GatePatch list, GateBatchError) Result" where
  "build_gate_patches_loop build n [] patches = Success patches"
| "build_gate_patches_loop build n (i # is) patches =
     and_then (build i) (\<lambda>e. gate_batch_error patch_failure i n n (Some e)) (\<lambda>patch.
       build_gate_patches_loop build n is (patches @ [patch]))"

text \<open>\<open>thrown\<close> is the exception of the reserve call; the push_backs do not allocate.\<close>

definition build_gate_patches ::
  "(SceImportResolutionPlan \<Rightarrow> SyntheticGateRegion \<Rightarrow> u32 \<Rightarrow> (GatePatch, GatePatchError) Result) \<Rightarrow> host_event \<Rightarrow>
     SceImportResolutionPlan list \<Rightarrow> SyntheticGateRegion \<Rightarrow> u32 list \<Rightarrow> (GatePatch list, GateBatchError) Result" where
  "build_gate_patches build thrown plans region slots =
     (if length plans \<noteq> length slots
      then Failure (gate_batch_error gate_slot_count_mismatch 0 (length plans) (length slots) None)
      else if thrown \<noteq> No_exception
      then Failure (gate_batch_error gate_host_allocation_failure 0 (length plans) (length slots) None)
      else build_gate_patches_loop (\<lambda>i. build (plans ! i) region (slots ! i)) (length plans) [0..<length plans] [])"

definition build_synthetic_x86_64_jump_slot_patches ::
  "host_event \<Rightarrow> SceImportResolutionPlan list \<Rightarrow> SyntheticGateRegion \<Rightarrow> u32 list \<Rightarrow> (GatePatch list, GateBatchError) Result" where
  "build_synthetic_x86_64_jump_slot_patches = build_gate_patches build_synthetic_x86_64_jump_slot_patch"

definition build_synthetic_x86_64_glob_dat_gate_patches ::
  "host_event \<Rightarrow> SceImportResolutionPlan list \<Rightarrow> SyntheticGateRegion \<Rightarrow> u32 list \<Rightarrow> (GatePatch list, GateBatchError) Result" where
  "build_synthetic_x86_64_glob_dat_gate_patches = build_gate_patches build_synthetic_x86_64_glob_dat_gate_patch"

section \<open>Application\<close>

record GateApplyResult =
  gate_applied_target :: GuestAddress
  gate_applied_destination :: GuestAddress
  gate_applied_slot :: u32
  gate_applied_function_id :: HleFunctionId

datatype GateApplyBatchErrorCode =
    gate_apply_failure
  | gate_apply_host_allocation_failure

record GateApplyBatchError =
  gate_apply_error_code :: GateApplyBatchErrorCode
  gate_apply_error_patch_index :: nat
  gate_apply_error_patch_count :: nat
  gate_apply_error_applied_count :: nat
  gate_apply_error_memory_error :: "GuestMemoryError option"

definition applied_patch :: "GatePatch \<Rightarrow> GateApplyResult" where
  "applied_patch patch = \<lparr>gate_applied_target = gate_patch_target patch,
     gate_applied_destination = gate_patch_destination patch, gate_applied_slot = gate_patch_slot patch,
     gate_applied_function_id = gate_patch_function_id patch\<rparr>"

text \<open>apply_synthetic_jump_slot_patch and apply_synthetic_glob_dat_patch.\<close>

definition apply_gate_patch ::
  "GuestMemoryAccess \<Rightarrow> process_memory \<Rightarrow> GatePatch \<Rightarrow> (GateApplyResult \<times> process_memory, GuestMemoryError) Result" where
  "apply_gate_patch access mem patch =
     with_value (guest_write access mem (gate_patch_target patch) (gate_patch_bytes patch)) (\<lambda>mem'.
       Success (applied_patch patch, mem'))"

abbreviation gate_apply_error :: "GateApplyBatchErrorCode \<Rightarrow> nat \<Rightarrow> nat \<Rightarrow> GuestMemoryError option \<Rightarrow> GateApplyBatchError" where
  "gate_apply_error code index patch_count e \<equiv> \<lparr>gate_apply_error_code = code, gate_apply_error_patch_index = index,
     gate_apply_error_patch_count = patch_count, gate_apply_error_applied_count = index, gate_apply_error_memory_error = e\<rparr>"

primrec apply_gate_patches_loop ::
  "GuestMemoryAccess \<Rightarrow> process_memory \<Rightarrow> nat \<Rightarrow> nat \<Rightarrow> GatePatch list \<Rightarrow> GateApplyResult list \<Rightarrow>
     (GateApplyResult list \<times> process_memory, GateApplyBatchError \<times> process_memory) Result" where
  "apply_gate_patches_loop access mem patch_count index [] applied = Success (applied, mem)"
| "apply_gate_patches_loop access mem patch_count index (patch # rest) applied =
     and_then (apply_gate_patch access mem patch)
       (\<lambda>e. (gate_apply_error gate_apply_failure index patch_count (Some e), mem)) (\<lambda>(result, mem').
     apply_gate_patches_loop access mem' patch_count (index + 1) rest (applied @ [result]))"

text \<open>apply_synthetic_jump_slot_patches and apply_synthetic_glob_dat_patches.\<close>

definition apply_gate_patches ::
  "host_event \<Rightarrow> GuestMemoryAccess \<Rightarrow> process_memory \<Rightarrow> GatePatch list \<Rightarrow>
     (GateApplyResult list \<times> process_memory, GateApplyBatchError \<times> process_memory) Result" where
  "apply_gate_patches thrown access mem patches =
     (if thrown \<noteq> No_exception
      then Failure (gate_apply_error gate_apply_host_allocation_failure 0 (length patches) None, mem)
      else apply_gate_patches_loop access mem (length patches) 0 patches [])"
section \<open>Registries of bindings\<close>

definition import_registry_wf :: "HleRegistry \<Rightarrow> SceImportBindingRegistry \<Rightarrow> bool" where
  "import_registry_wf hle r \<longleftrightarrow> distinct (map import_identity (import_bindings r)) \<and>
     (\<forall>b \<in> set (import_bindings r). valid_identity (import_identity b) \<and> registry_find hle (import_function_id b) \<noteq> None)"

lemma check_import_bindings_Success:
  "distinct (map import_identity previous) \<Longrightarrow> check_import_bindings hle previous bs = Success u \<longleftrightarrow>
    (\<forall>b \<in> set bs. valid_identity (import_identity b) \<and> registry_find hle (import_function_id b) \<noteq> None) \<and>
    distinct (map import_identity (previous @ bs))"
proof (induction bs arbitrary: previous)
  case (Cons b bs)
  let ?seen = "find (\<lambda>j. import_identity (previous ! j) = import_identity b) [0..<length previous]"
  have new: "?seen = None \<longleftrightarrow> import_identity b \<notin> import_identity ` set previous"
    by (auto simp: find_None_iff in_set_conv_nth) (metis imageI nth_mem)
  show ?case
  proof (cases "?seen")
    case None
    then have "distinct (map import_identity (previous @ [b]))" using Cons.prems new by auto
    note IH = Cons.IH [OF this]
    have "check_import_bindings hle previous (b # bs) = Success u \<longleftrightarrow>
        valid_identity (import_identity b) \<and> registry_find hle (import_function_id b) \<noteq> None \<and>
        check_import_bindings hle (previous @ [b]) bs = Success u"
      using None by (simp add: Let_def)
    then show ?thesis unfolding IH by auto
  next
    case (Some j)
    then have "\<not> distinct (map import_identity (previous @ b # bs))" using new by auto
    moreover have "check_import_bindings hle previous (b # bs) \<noteq> Success u" using Some by (simp add: Let_def)
    ultimately show ?thesis by blast
  qed
qed simp

lemma import_registry_create_iff:
  "import_registry_create thrown hle bs = Success r \<longleftrightarrow>
    thrown = No_exception \<and> import_bindings r = bs \<and> import_registry_wf hle r"
  by (cases r) (auto simp: import_registry_create_def result_simps check_import_bindings_Success import_registry_wf_def)

lemma import_resolve_Some:
  assumes "distinct (map import_identity (import_bindings r))"
  shows "resolution_function_id (import_resolve r i) = Some fid \<longleftrightarrow>
    \<lparr>import_identity = i, import_function_id = fid\<rparr> \<in> set (import_bindings r)"
proof -
  let ?found = "find (\<lambda>b. import_identity b = i) (import_bindings r)"
  have "resolution_function_id (import_resolve r i) = map_option import_function_id ?found"
    by (simp add: import_resolve_def split: option.split)
  then have "resolution_function_id (import_resolve r i) = Some fid \<longleftrightarrow> (\<exists>b. ?found = Some b \<and> fid = import_function_id b)"
    by auto
  also have "\<dots> \<longleftrightarrow> (\<exists>b. b \<in> set (import_bindings r) \<and> b = \<lparr>import_identity = i, import_function_id = fid\<rparr>)"
    unfolding find_by_key [OF assms] by (intro ex_cong1) (auto intro: SceImportBinding.equality)
  finally show ?thesis by simp
qed

lemma import_resolve_kind: "resolution_kind (import_resolve r i) = resolved \<longleftrightarrow> resolution_function_id (import_resolve r i) \<noteq> None"
  by (auto simp: import_resolve_def split: option.split)

section \<open>Planning\<close>

text \<open>
  What a plan says of relocation i: it names the function that the registry binds to the identity
  spelled by the string of the undefined symbol the relocation refers to.
\<close>

definition import_planned ::
  "nat \<Rightarrow> Import_events \<Rightarrow> DynamicRelocationTableDescriptor \<Rightarrow> DynamicSymbolTableDescriptor \<Rightarrow> DynamicStringTableDescriptor \<Rightarrow>
     InitializedImageView \<Rightarrow> SceImportBindingRegistry \<Rightarrow> u64 \<Rightarrow> SceImportResolutionPlan \<Rightarrow> bool" where
  "import_planned max_size ev relocations symbols strings view bindings i p \<longleftrightarrow>
     (\<exists>r s. parse_dynamic_relocation relocations i symbols view = Success r \<and>
       parse_dynamic_symbol symbols (ucast (reloc_symbol_index r)) view = Success s \<and> symbol_section_index_raw s = 0 \<and>
       ucast (symbol_name_offset s) < range_size (string_table_range strings) \<and>
       c_string_at (read_byte view) (range_base (string_table_range strings) + ucast (symbol_name_offset s))
         (unat (range_size (string_table_range strings)) - unat (symbol_name_offset s)) (spelling (plan_identity p)) \<and>
       identity_wf (plan_identity p) \<and>
       \<lparr>import_identity = plan_identity p, import_function_id = plan_function_id p\<rparr> \<in> set (import_bindings bindings) \<and>
       length (spelling (plan_identity p)) \<le> max_size \<and> event_string ev (length (spelling (plan_identity p))) = No_exception \<and>
       event_name ev = No_exception \<and> event_plan ev = No_exception \<and> event_push ev = No_exception \<and>
       p = \<lparr>plan_table_kind = reloc_table_kind r, plan_table_index = reloc_table_index r,
         plan_relocation_target = reloc_target r, plan_raw_relocation_type = reloc_relocation_type r,
         plan_raw_addend = reloc_addend r, plan_symbol_index = reloc_symbol_index r,
         plan_raw_symbol_name = spelling (plan_identity p), plan_identity = plan_identity p, plan_function_id = plan_function_id p\<rparr>)"

lemma parsed_symbol_index:
  "view_wf view \<Longrightarrow> parse_dynamic_symbol d i view = Success s \<Longrightarrow> symbol_index s = i"
  by (auto simp: parse_dynamic_symbol_def read_symbol_Success decode_symbol_def)

lemma plan_resolution_Success:
  assumes "distinct (map import_identity (import_bindings bindings))"
  shows "plan_sce_import_resolution thrown r s bindings = Success p \<longleftrightarrow>
    ucast (reloc_symbol_index r) = symbol_index (sce_symbol s) \<and> symbol_section_index_raw (sce_symbol s) = 0 \<and>
    name_identity (sce_name s) = Some (plan_identity p) \<and>
    \<lparr>import_identity = plan_identity p, import_function_id = plan_function_id p\<rparr> \<in> set (import_bindings bindings) \<and>
    thrown = No_exception \<and>
    p = \<lparr>plan_table_kind = reloc_table_kind r, plan_table_index = reloc_table_index r,
      plan_relocation_target = reloc_target r, plan_raw_relocation_type = reloc_relocation_type r,
      plan_raw_addend = reloc_addend r, plan_symbol_index = reloc_symbol_index r,
      plan_raw_symbol_name = name_raw (sce_name s), plan_identity = plan_identity p, plan_function_id = plan_function_id p\<rparr>"
  by (auto simp: plan_sce_import_resolution_def Let_def import_resolve_kind import_resolve_Some [OF assms, symmetric]
      if_Failure_Success split: option.split)

lemma plan_resolution_defined: "plan_sce_import_resolution thrown r s bindings \<noteq> Undefined"
  by (auto simp: plan_sce_import_resolution_def Let_def split: option.split)

lemma plan_import_Success:
  assumes "view_wf view" and "range_wf (string_table_range strings)" and "distinct (map import_identity (import_bindings bindings))"
  shows "plan_import max_size ev relocations symbols strings view bindings i = Success p \<longleftrightarrow>
    import_planned max_size ev relocations symbols strings view bindings i p" (is "?run \<longleftrightarrow> ?spec")
proof -
  have "?run \<longleftrightarrow> (\<exists>r s. parse_dynamic_relocation relocations i symbols view = Success r \<and>
      materialize_sce_dynamic_symbol max_size (event_string ev) (event_name ev) symbols strings (ucast (reloc_symbol_index r)) view = Success s \<and>
      plan_sce_import_resolution (event_plan ev) r s bindings = Success p \<and> event_push ev = No_exception)"
    by (auto simp: plan_import_def and_then_Success)
  also have "\<dots> \<longleftrightarrow> ?spec"
  proof (intro iffI)
    assume "\<exists>r s. parse_dynamic_relocation relocations i symbols view = Success r \<and>
      materialize_sce_dynamic_symbol max_size (event_string ev) (event_name ev) symbols strings (ucast (reloc_symbol_index r)) view = Success s \<and>
      plan_sce_import_resolution (event_plan ev) r s bindings = Success p \<and> event_push ev = No_exception"
    then obtain r s where run: "parse_dynamic_relocation relocations i symbols view = Success r"
      "materialize_sce_dynamic_symbol max_size (event_string ev) (event_name ev) symbols strings (ucast (reloc_symbol_index r)) view = Success s"
      "plan_sce_import_resolution (event_plan ev) r s bindings = Success p" "event_push ev = No_exception" by blast
    note m = run(2) [unfolded materialize_Success [OF assms(2)] parse_name_Success]
    note q = run(3) [unfolded plan_resolution_Success [OF assms(3)]]
    have "name_raw (sce_name s) = spelling (plan_identity p)" "identity_wf (plan_identity p)" using m q by auto
    with m q run(1,4) show ?spec unfolding import_planned_def by (intro exI [of _ r] exI [of _ "sce_symbol s"]) simp
  next
    assume ?spec
    then obtain r s where spec: "parse_dynamic_relocation relocations i symbols view = Success r"
      "parse_dynamic_symbol symbols (ucast (reloc_symbol_index r)) view = Success s" "symbol_section_index_raw s = 0"
      "ucast (symbol_name_offset s) < range_size (string_table_range strings)"
      "c_string_at (read_byte view) (range_base (string_table_range strings) + ucast (symbol_name_offset s))
         (unat (range_size (string_table_range strings)) - unat (symbol_name_offset s)) (spelling (plan_identity p))"
      "identity_wf (plan_identity p)"
      "\<lparr>import_identity = plan_identity p, import_function_id = plan_function_id p\<rparr> \<in> set (import_bindings bindings)"
      "length (spelling (plan_identity p)) \<le> max_size" "event_string ev (length (spelling (plan_identity p))) = No_exception"
      "event_name ev = No_exception" "event_plan ev = No_exception" "event_push ev = No_exception"
      "p = \<lparr>plan_table_kind = reloc_table_kind r, plan_table_index = reloc_table_index r,
         plan_relocation_target = reloc_target r, plan_raw_relocation_type = reloc_relocation_type r,
         plan_raw_addend = reloc_addend r, plan_symbol_index = reloc_symbol_index r,
         plan_raw_symbol_name = spelling (plan_identity p), plan_identity = plan_identity p, plan_function_id = plan_function_id p\<rparr>"
      unfolding import_planned_def by blast
    let ?s = "\<lparr>sce_symbol = s, sce_name = \<lparr>name_raw = spelling (plan_identity p), name_identity = Some (plan_identity p)\<rparr>\<rparr>"
    have "materialize_sce_dynamic_symbol max_size (event_string ev) (event_name ev) symbols strings (ucast (reloc_symbol_index r)) view = Success ?s"
      using spec by (simp add: materialize_Success [OF assms(2)] parse_name_Success)
    moreover have "plan_sce_import_resolution (event_plan ev) r ?s bindings = Success p"
      using spec(3,7,11,13) parsed_symbol_index [OF assms(1) spec(2)] by (subst plan_resolution_Success [OF assms(3)]) simp
    ultimately show "\<exists>r s. parse_dynamic_relocation relocations i symbols view = Success r \<and>
      materialize_sce_dynamic_symbol max_size (event_string ev) (event_name ev) symbols strings (ucast (reloc_symbol_index r)) view = Success s \<and>
      plan_sce_import_resolution (event_plan ev) r s bindings = Success p \<and> event_push ev = No_exception"
      using spec(1,12) by blast
  qed
  finally show ?thesis .
qed
lemma plan_import_defined:
  assumes "view_wf view" and "range_wf (string_table_range strings)" and "\<And>n. n \<le> max_size \<Longrightarrow> event_string ev n \<noteq> Length_error"
  shows "plan_import max_size ev relocations symbols strings view bindings i \<noteq> Undefined"
  by (auto simp: plan_import_def and_then_Undefined parse_dynamic_relocation_defined [OF assms(1)]
      materialize_defined [OF assms] plan_resolution_defined)

text \<open>A loop that appends the result of each step.\<close>

lemma collecting_loop:
  assumes "\<And>acc. L [] acc = Success acc"
    and "\<And>i is acc. L (i # is) acc = and_then (f i) (g i) (\<lambda>x. L is (acc @ [x]))"
  shows "L is acc = Success out \<longleftrightarrow> (\<exists>new. out = acc @ new \<and> list_all2 (\<lambda>i x. f i = Success x) is new)"
  by (induction "is" arbitrary: acc) (auto simp: assms and_then_Success list_all2_Cons1)

lemma collecting_loop_upto:
  assumes "\<And>acc. L [] acc = Success acc"
    and "\<And>i is acc. L (i # is) acc = and_then (f i) (g i) (\<lambda>x. L is (acc @ [x]))"
  shows "L [0..<n] [] = Success out \<longleftrightarrow> length out = n \<and> (\<forall>i < n. f i = Success (out ! i))"
  unfolding collecting_loop [of L f g, OF assms] by (auto simp: list_all2_conv_all_nth)

lemma plan_imports_loop_Success:
  "plan_imports_loop step [0..<n] [] = Success plans \<longleftrightarrow> length plans = n \<and> (\<forall>i < n. step i = Success (plans ! i))"
  by (rule collecting_loop_upto) simp_all

lemma plan_imports_loop_defined: "(\<And>i. step i \<noteq> Undefined) \<Longrightarrow> plan_imports_loop step is acc \<noteq> Undefined"
  by (induction "is" arbitrary: acc) (simp_all add: and_then_Undefined)

section \<open>Patching\<close>

lemma build_gate_patch_Success:
  "build_gate_patch kind type plan region slot = Success p \<longleftrightarrow>
    plan_table_kind plan = kind \<and> plan_raw_relocation_type plan = type \<and>
    (\<exists>b. binding_for_slot region slot = Some b \<and> binding_function_id b = plan_function_id plan) \<and>
    slot_address region slot = Some (gate_patch_destination p) \<and>
    p = \<lparr>gate_patch_target = plan_relocation_target plan, gate_patch_destination = gate_patch_destination p,
      gate_patch_slot = slot, gate_patch_function_id = plan_function_id plan,
      gate_patch_bytes = le_bytes 8 (gate_patch_destination p), gate_patch_raw_addend = plan_raw_addend plan\<rparr>"
  by (auto simp: build_gate_patch_def Let_def encode_le64_def if_Failure_Success split: option.split)

lemma build_gate_patches_loop_Success:
  "build_gate_patches_loop build k [0..<n] [] = Success ps \<longleftrightarrow> length ps = n \<and> (\<forall>i < n. build i = Success (ps ! i))"
  by (rule collecting_loop_upto [where g = "\<lambda>i e. gate_batch_error patch_failure i k k (Some e)"]) simp_all

lemma build_gate_patches_Success:
  "build_gate_patches build thrown plans region slots = Success ps \<longleftrightarrow>
    thrown = No_exception \<and> length plans = length slots \<and> length ps = length plans \<and>
    (\<forall>i < length plans. build (plans ! i) region (slots ! i) = Success (ps ! i))"
  by (auto simp: build_gate_patches_def build_gate_patches_loop_Success)

definition gate_words :: "GatePatch list \<Rightarrow> (u64 \<times> u8 list) list" where
  "gate_words ps = map (\<lambda>p. (gate_patch_target p, gate_patch_bytes p)) ps"

lemma gate_words_simps [simp]:
  "gate_words [] = []" "gate_words (p # ps) = (gate_patch_target p, gate_patch_bytes p) # gate_words ps"
  by (simp_all add: gate_words_def)

text \<open>The loop stops at the first word that may not be written, with the words before it in memory.\<close>

lemma apply_gate_patches_loop_eq:
  assumes ready: "access_ready access gi plan"
  shows "backs mem plan \<Longrightarrow> \<forall>p \<in> set ps. length (gate_patch_bytes p) = 8 \<Longrightarrow>
    (case apply_gate_patches_loop access mem n index ps acc of
       Undefined \<Rightarrow> False
     | Success (results, mem') \<Rightarrow> (\<forall>p \<in> set ps. word_allowed gi plan write_access (gate_patch_target p)) \<and>
         results = acc @ map applied_patch ps \<and> mem' = store_words mem (gate_words ps)
     | Failure (e, mem') \<Rightarrow> \<exists>k < length ps. gate_apply_error_applied_count e = index + k \<and>
         gate_apply_error_patch_index e = index + k \<and> gate_apply_error_code e = gate_apply_failure \<and>
         (\<forall>i < k. word_allowed gi plan write_access (gate_patch_target (ps ! i))) \<and>
         \<not> word_allowed gi plan write_access (gate_patch_target (ps ! k)) \<and>
         mem' = store_words mem (gate_words (take k ps)))"
proof (induction ps arbitrary: mem index acc)
  case (Cons p ps)
  let ?t = "gate_patch_target p" and ?b = "gate_patch_bytes p"
  have len: "length ?b = 8" using Cons.prems by simp
  show ?case
  proof (cases "word_allowed gi plan write_access ?t")
    case True
    then have "guest_write access mem ?t ?b = Success (write_bytes mem ?t ?b)"
      using write_word [OF ready Cons.prems(1) len] by simp
    then have step: "apply_gate_patches_loop access mem n index (p # ps) acc =
        apply_gate_patches_loop access (write_bytes mem ?t ?b) n (index + 1) ps (acc @ [applied_patch p])"
      by (simp add: apply_gate_patch_def)
    note IH = Cons.IH [OF backs_write_bytes [OF Cons.prems(1), of ?t ?b], of "acc @ [applied_patch p]" "index + 1"]
    show ?thesis
    proof (cases "apply_gate_patches_loop access mem n index (p # ps) acc")
      case (Failure em)
      then obtain e mem' where em: "em = (e, mem')" by (cases em)
      then obtain k where k: "k < length ps" "gate_apply_error_applied_count e = index + 1 + k"
        "gate_apply_error_patch_index e = index + 1 + k" "gate_apply_error_code e = gate_apply_failure"
        "\<forall>i < k. word_allowed gi plan write_access (gate_patch_target (ps ! i))"
        "\<not> word_allowed gi plan write_access (gate_patch_target (ps ! k))"
        "mem' = store_words (write_bytes mem ?t ?b) (gate_words (take k ps))"
        using IH Cons.prems Failure unfolding step by auto
      have "word_allowed gi plan write_access (gate_patch_target ((p # ps) ! i))" if "i < Suc k" for i
        using True k(5) that by (cases i) auto
      with k Failure em show ?thesis by (auto intro!: exI [of _ "Suc k"])
    qed (use IH Cons.prems step True in \<open>auto split: Result.splits\<close>)
  next
    case False
    then have "\<nexists>m. guest_write access mem ?t ?b = Success m" using write_word [OF ready Cons.prems(1) len] by simp
    then obtain e where "guest_write access mem ?t ?b = Failure e"
      using write_word_defined [OF ready Cons.prems(1) len] by (cases "guest_write access mem ?t ?b") auto
    with False show ?thesis by (auto simp: apply_gate_patch_def intro!: exI [of _ 0])
  qed
qed simp
section \<open>Properties\<close>

text \<open>
  C25. Planning the imports of a relocation table never has undefined behaviour and succeeds exactly when
  every relocation has a plan, one per relocation and in table order; the plan of a relocation names
  the function that the registry binds to the identity spelled by the zero-terminated name of the
  undefined symbol it refers to.
\<close>

theorem plan_sce_imports_correct:
  assumes "view_wf view" and "range_wf (string_table_range strings)"
    and "\<And>i n. n \<le> max_size \<Longrightarrow> event_string (events i) n \<noteq> Length_error"
    and "import_registry_create No_exception hle bs = Success bindings"
  shows "plan_sce_imports max_size events relocations symbols strings view bindings \<noteq> Undefined \<and>
    (\<forall>plans. plan_sce_imports max_size events relocations symbols strings view bindings = Success plans \<longleftrightarrow>
      length plans = unat (relocs_count relocations) \<and>
      (\<forall>i < length plans. import_planned max_size (events i) relocations symbols strings view bindings (of_nat i) (plans ! i)))"
proof -
  have "distinct (map import_identity (import_bindings bindings))"
    using assms(4) by (auto simp: import_registry_create_iff import_registry_wf_def)
  note step = plan_import_Success [OF assms(1,2) this]
  have "plan_sce_imports max_size events relocations symbols strings view bindings \<noteq> Undefined"
    unfolding plan_sce_imports_def by (intro plan_imports_loop_defined plan_import_defined [OF assms(1,2)] assms(3))
  then show ?thesis unfolding plan_sce_imports_def plan_imports_loop_Success step by auto
qed

text \<open>
  C26. Jump slots and GLOB_DAT words are bound to gates. Applying patches that were built for plans
  and slots of a gate region never faults. It writes the words in order and stops exactly at the first
  that may not be written, with the error reporting the words written before it. When it succeeds no
  other byte has changed, and the word of plan i, if it may be read and no later plan overlaps it, holds
  an address that the region recognises as slot i, which is bound to the function of plan i.
\<close>

theorem gate_patches_correct:
  assumes "access_ready access gi plan" and "backs mem plan"
    and region: "build_synthetic_gate_region No_exception registry base slot_count bindings gi reserved = Success region"
    and build: "build \<in> {build_synthetic_x86_64_jump_slot_patches, build_synthetic_x86_64_glob_dat_gate_patches}"
    and patches: "build No_exception plans region slots = Success patches"
  shows "case apply_gate_patches No_exception access mem patches of
      Undefined \<Rightarrow> False
    | Failure (e, mem') \<Rightarrow> let k = gate_apply_error_applied_count e in
        k < length plans \<and> gate_apply_error_patch_index e = k \<and>
        (\<forall>i < k. word_allowed gi plan write_access (plan_relocation_target (plans ! i))) \<and>
        \<not> word_allowed gi plan write_access (plan_relocation_target (plans ! k)) \<and>
        mem' = store_words mem (gate_words (take k patches))
    | Success (results, mem') \<Rightarrow> results = map applied_patch patches \<and>
        (\<forall>x. (\<forall>p \<in> set plans. \<not> in_word (plan_relocation_target p) x) \<longrightarrow> mem' x = mem x) \<and>
        (\<forall>i < length plans. word_allowed gi plan read_access (plan_relocation_target (plans ! i)) \<and>
           (\<forall>j. i < j \<and> j < length plans \<longrightarrow> apart (plan_relocation_target (plans ! i)) (plan_relocation_target (plans ! j))) \<longrightarrow>
           (\<exists>a b. guest_read access mem' (plan_relocation_target (plans ! i)) 8 = Success (le_bytes 8 a) \<and>
             recognize_slot region a = Some (slots ! i) \<and> binding_for_slot region (slots ! i) = Some b \<and>
             binding_function_id b = plan_function_id (plans ! i)))"
proof -
  obtain kind type where build_eq: "build = build_gate_patches (build_gate_patch kind type)"
    using build by (auto simp: build_synthetic_x86_64_jump_slot_patches_def build_synthetic_x86_64_glob_dat_gate_patches_def
        build_synthetic_x86_64_jump_slot_patch_def build_synthetic_x86_64_glob_dat_gate_patch_def)
  have len: "length patches = length plans"
    and each: "\<And>i. i < length plans \<Longrightarrow> build_gate_patch kind type (plans ! i) region (slots ! i) = Success (patches ! i)"
    using patches unfolding build_eq build_gate_patches_Success by auto
  note patch = each [unfolded build_gate_patch_Success]
  have target: "gate_patch_target (patches ! i) = plan_relocation_target (plans ! i)"
    and bytes: "gate_patch_bytes (patches ! i) = le_bytes 8 (gate_patch_destination (patches ! i))" if "i < length plans" for i
    using patch [OF that] by (metis GatePatch.select_convs(1), metis GatePatch.select_convs(5))
  have len8: "\<forall>p \<in> set patches. length (gate_patch_bytes p) = 8" using bytes len by (auto simp: in_set_conv_nth)
  have wf: "gate_region_wf region" using region by (rule built_region_wf)
  have outside: "store_words mem (gate_words patches) x = mem x" if "\<forall>p \<in> set plans. \<not> in_word (plan_relocation_target p) x" for x
    using len8 that target len by (intro store_words_outside) (fastforce simp: gate_words_def in_set_conv_nth)
  have reads: "\<exists>a b. guest_read access (store_words mem (gate_words patches)) (plan_relocation_target (plans ! i)) 8 = Success (le_bytes 8 a) \<and>
      recognize_slot region a = Some (slots ! i) \<and> binding_for_slot region (slots ! i) = Some b \<and> binding_function_id b = plan_function_id (plans ! i)"
    if i: "i < length plans" and "word_allowed gi plan read_access (plan_relocation_target (plans ! i))"
      and "word_allowed gi plan write_access (plan_relocation_target (plans ! i))"
      and later: "\<forall>j. i < j \<and> j < length plans \<longrightarrow> apart (plan_relocation_target (plans ! i)) (plan_relocation_target (plans ! j))" for i
  proof -
    have split: "gate_words patches = gate_words (take i patches) @
        (plan_relocation_target (plans ! i), le_bytes 8 (gate_patch_destination (patches ! i))) # gate_words (drop (Suc i) patches)"
      using i len by (subst id_take_nth_drop [of i patches]) (simp_all add: gate_words_def target bytes)
    have "apart (plan_relocation_target (plans ! i)) (gate_patch_target p)" if p: "p \<in> set (drop (Suc i) patches)" for p
    proof -
      obtain k where k: "k < length plans - Suc i" "p = patches ! (Suc i + k)" using p len by (auto simp: in_set_conv_nth)
      from k(1) have "Suc i + k < length plans" by linarith
      with k(2) show ?thesis using later target by simp
    qed
    then have "\<forall>(b, cs) \<in> set (gate_words (drop (Suc i) patches)). length cs = 8 \<and> apart (plan_relocation_target (plans ! i)) b"
      using len8 by (auto simp: gate_words_def dest: in_set_dropD)
    then have "guest_read access (store_words mem (gate_words patches)) (plan_relocation_target (plans ! i)) 8 =
        Success (le_bytes 8 (gate_patch_destination (patches ! i)))"
      unfolding split by (intro read_stored_word [OF assms(1,2) that(2,3)]) simp_all
    then show ?thesis using patch [OF i] recognize_slot_inverse [OF wf] by blast
  qed
  note run = apply_gate_patches_loop_eq [OF assms(1,2) len8, where n = "length patches" and index = 0 and acc = "[]"]
  show ?thesis
  proof (cases "apply_gate_patches_loop access mem (length patches) 0 patches []")
    case (Success rm)
    then obtain results mem' where rm: "rm = (results, mem')" by (cases rm)
    have all: "\<forall>p \<in> set patches. word_allowed gi plan write_access (gate_patch_target p)"
      and out: "results = map applied_patch patches" "mem' = store_words mem (gate_words patches)"
      using run Success rm by auto
    have "word_allowed gi plan write_access (plan_relocation_target (plans ! i))" if "i < length plans" for i
      using all len target [OF that] nth_mem that by metis
    then show ?thesis using Success rm out outside reads by (auto simp: apply_gate_patches_def)
  next
    case (Failure em)
    then obtain e mem' where em: "em = (e, mem')" by (cases em)
    have fail: "\<exists>k < length patches. gate_apply_error_applied_count e = k \<and> gate_apply_error_patch_index e = k \<and>
        (\<forall>i < k. word_allowed gi plan write_access (gate_patch_target (patches ! i))) \<and>
        \<not> word_allowed gi plan write_access (gate_patch_target (patches ! k)) \<and> mem' = store_words mem (gate_words (take k patches))"
      using run Failure em by auto
    then show ?thesis using Failure em len target by (auto simp: apply_gate_patches_def Let_def)
  qed (use run in auto)
qed
section \<open>A concrete import\<close>

text \<open>A string table, two symbols and a jump-slot relocation of the second, in one segment.\<close>

definition reloc_bytes :: "u8 list" where
  "reloc_bytes = [0x18, 0x20, 0x40, 0, 0, 0, 0, 0, 7, 0, 0, 0, 1, 0, 0, 0, 0, 0, 0, 0, 0, 0, 0, 0]"

definition import_bytes :: "u8 list" where
  "import_bytes = replicate 11 65 @ [35, 66, 35, 67, 0] @ replicate 48 0 @ reloc_bytes"

lemma length_reloc_bytes [simp]: "length reloc_bytes = 24"
  by (simp add: reloc_bytes_def)

definition import_view :: InitializedImageView where
  "import_view = \<lparr>view_image_bytes = import_bytes,
     view_intents = load_intents \<lparr>ph_type = 1, ph_flags = 4, ph_offset = 0, ph_virtual_address = 0x2000,
       ph_physical_address = 0, ph_file_size = 88, ph_memory_size = 88, ph_alignment = 0, ph_index = 0\<rparr>\<rparr>"

definition import_strings :: DynamicStringTableDescriptor where
  "import_strings = \<lparr>string_table_range = \<lparr>range_base = 0x2000, range_size = 16\<rparr>\<rparr>"

definition import_symbols :: DynamicSymbolTableDescriptor where
  "import_symbols = symbol_descriptor \<lparr>singleton_value = 0x2010, singleton_source_entry_index = 1\<rparr>
     \<lparr>singleton_value = 24, singleton_source_entry_index = 2\<rparr> None None None 2 \<lparr>range_base = 0x2010, range_size = 48\<rparr>"

definition import_relocs :: DynamicRelocationTableDescriptor where
  "import_relocs = table_of plt_rela \<lparr>singleton_value = 0x2040, singleton_source_entry_index = 3\<rparr>
     \<lparr>singleton_value = 24, singleton_source_entry_index = 4\<rparr> \<lparr>singleton_value = 24, singleton_source_entry_index = 5\<rparr>"

definition sample_identity :: SceSymbolIdentity where
  "sample_identity = \<lparr>identity_nid = replicate 11 65, identity_library_id = [66], identity_module_id = [67]\<rparr>"

definition sample_bindings :: "SceImportBinding list" where
  "sample_bindings = [\<lparr>import_identity = sample_identity, import_function_id = 5\<rparr>]"

definition sample_hle :: HleRegistry where
  "sample_hle = \<lparr>registry_descriptors = [\<lparr>function_id = 5, canonical_name = [102], argument_count = 1\<rparr>]\<rparr>"

definition sample_import_plan :: SceImportResolutionPlan where
  "sample_import_plan = \<lparr>plan_table_kind = plt_rela, plan_table_index = 0, plan_relocation_target = 0x402018,
     plan_raw_relocation_type = 7, plan_raw_addend = Some 0, plan_symbol_index = 1,
     plan_raw_symbol_name = spelling sample_identity, plan_identity = sample_identity, plan_function_id = 5\<rparr>"

definition no_events :: Import_events where
  "no_events = \<lparr>event_string = \<lambda>_. No_exception, event_name = No_exception, event_plan = No_exception, event_push = No_exception\<rparr>"

lemma import_view_wf: "view_wf import_view"
  by (simp add: view_wf_def import_view_def import_bytes_def load_intents_def file_intent_def zero_intent_def host_object_def
      intent_valid_def)

lemma import_view_byte:
  "0x2000 \<le> unat a \<Longrightarrow> unat a < 0x2058 \<Longrightarrow> read_byte import_view a = Success (import_bytes ! (unat a - 0x2000))"
  by (subst read_byte_Success [OF import_view_wf])
    (simp add: view_sources_def import_view_def load_intents_def file_intent_def zero_intent_def
      intent_sources_Cons range_contains_iff source_of_def)

lemma import_view_bytes:
  assumes "0x2000 \<le> unat a" and "unat a + n \<le> 0x2058"
  shows "guest_bytes (read_byte import_view) a n (take n (drop (unat a - 0x2000) import_bytes))"
proof -
  have "length import_bytes = 88" by (simp add: import_bytes_def)
  moreover have "read_byte import_view (a + of_nat i) = Success (import_bytes ! (unat a - 0x2000 + i))" if "i < n" for i
    using import_view_byte [of "a + of_nat i"] u64_offset [of a i] assms that by simp
  ultimately show ?thesis using assms by (simp add: guest_bytes_def)
qed

lemma import_relocation:
  "parse_dynamic_relocation import_relocs 0 import_symbols import_view = Success
     \<lparr>reloc_table_kind = plt_rela, reloc_table_index = 0, reloc_target = 0x402018, reloc_raw_info = 0x100000007,
       reloc_symbol_index = 1, reloc_relocation_type = 7, reloc_addend = Some 0\<rparr>" (is "_ = Success ?r")
proof -
  have bytes: "guest_bytes (read_byte import_view) 0x2040 24 reloc_bytes"
    using import_view_bytes [of "0x2040" 24] by (simp add: import_bytes_def)
  have decoded: "decode_relocation plt_rela 0 reloc_bytes = ?r" "field_nat reloc_bytes 12 4 = 1"
    by (simp_all add: decode_relocation_def is_rela_def field_nat_def reloc_bytes_def)
  have "relocs_kind import_relocs = plt_rela" "range_base (relocs_range import_relocs) = 0x2040"
    "relocs_entry_size import_relocs = 24" "relocs_count import_relocs = 1" "symbols_count import_symbols = 2"
    by (simp_all add: import_relocs_def table_of_def record_size_def is_rela_def import_symbols_def symbol_descriptor_def)
  with bytes decoded show ?thesis
    unfolding parse_dynamic_relocation_iff [OF import_view_wf] Let_def by (auto simp: record_size_def is_rela_def)
qed

lemma import_symbol: "parse_dynamic_symbol import_symbols 1 import_view = Success (decode_symbol 1 (replicate 24 0))"
proof -
  have "guest_bytes (read_byte import_view) 0x2028 24 (replicate 24 0)"
    using import_view_bytes [of "0x2028" 24] by (simp add: import_bytes_def)
  then show ?thesis
    by (auto simp: parse_dynamic_symbol_def read_symbol_Success [OF import_view_wf] symbol_in_space_def
        import_symbols_def symbol_descriptor_def)
qed

lemma import_name: "c_string_at (read_byte import_view) 0x2000 16 (spelling sample_identity)"
proof -
  have bytes: "guest_bytes (read_byte import_view) 0x2000 16 (spelling sample_identity @ [0])"
    using import_view_bytes [of "0x2000" 16]
    by (simp add: import_bytes_def spelling_def sample_identity_def number_sign_def)
  have len: "length (spelling sample_identity) = 15" by (simp add: spelling_def sample_identity_def)
  have nonzero: "0 \<notin> set (spelling sample_identity)" by (simp add: spelling_def sample_identity_def number_sign_def)
  have "read_byte import_view (0x2000 + of_nat i) = Success ((spelling sample_identity @ [0]) ! i)" if "i < 16" for i
    using bytes that by (simp add: guest_bytes_def)
  note byte = this
  show ?thesis unfolding c_string_at_def len
  proof (intro conjI allI impI)
    fix i :: nat assume i: "i < 15"
    then show "read_byte import_view (0x2000 + of_nat i) = Success (spelling sample_identity ! i)"
      using byte [of i] len by (simp add: nth_append)
    show "spelling sample_identity ! i \<noteq> 0" using nonzero i len by (metis nth_mem)
  qed (use byte [of 15] len in \<open>simp_all add: nth_append\<close>)
qed

theorem plan_sce_imports_correct_witness:
  "plan_sce_imports (2 ^ 62) (\<lambda>_. no_events) import_relocs import_symbols import_strings import_view
     \<lparr>import_bindings = sample_bindings\<rparr> = Success [sample_import_plan]"
proof -
  have created: "import_registry_create No_exception sample_hle sample_bindings = Success \<lparr>import_bindings = sample_bindings\<rparr>"
    by (simp add: import_registry_create_iff import_registry_wf_def sample_bindings_def valid_identity_def sample_identity_def
        registry_find_def sample_hle_def)
  have fields: "symbol_section_index_raw (decode_symbol 1 (replicate 24 0)) = 0" "symbol_name_offset (decode_symbol 1 (replicate 24 0)) = 0"
  proof -
    have "field_nat (replicate 24 0) 6 2 = 0" "field_nat (replicate 24 0) 0 4 = 0" by (simp_all add: field_nat_def le_nat_eq_0)
    then show "symbol_section_index_raw (decode_symbol 1 (replicate 24 0)) = 0" "symbol_name_offset (decode_symbol 1 (replicate 24 0)) = 0"
      by (simp_all add: decode_symbol_def)
  qed
  have wf: "identity_wf sample_identity" "length (spelling sample_identity) = 15"
    by (simp_all add: identity_wf_def spelling_def sample_identity_def number_sign_def)
  have "import_planned (2 ^ 62) no_events import_relocs import_symbols import_strings import_view
      \<lparr>import_bindings = sample_bindings\<rparr> 0 sample_import_plan"
    unfolding import_planned_def
    using import_relocation import_symbol import_name fields wf
    by (simp add: sample_import_plan_def import_strings_def no_events_def sample_bindings_def)
  moreover have "relocs_count import_relocs = 1" by (simp add: import_relocs_def table_of_def record_size_def is_rela_def)
  ultimately show ?thesis
    using plan_sce_imports_correct [OF import_view_wf _ _ created, of import_strings "2 ^ 62" "\<lambda>_. no_events" import_relocs import_symbols]
    by (simp add: no_events_def import_strings_def range_wf_def)
qed

definition sample_region :: SyntheticGateRegion where
  "sample_region = \<lparr>gate_range = \<lparr>range_base = 0x10000, range_size = 32\<rparr>, gate_slot_count = 2,
     gate_bindings = [\<lparr>binding_slot = 1, binding_function_id = 5\<rparr>], gate_bytes = gate @ gate\<rparr>"

lemma sample_region_built:
  "build_synthetic_gate_region No_exception sample_hle 0x10000 2 [\<lparr>binding_slot = 1, binding_function_id = 5\<rparr>] sample_guest [] =
     Success sample_region"
proof -
  have "replicate 2 gate = [gate, gate]" by (simp add: numeral_2_eq_2)
  then show ?thesis
    by (subst build_gates_iff)
      (auto simp: gate_request_ok_def sample_region_def sample_guest_def sample_text_def sample_data_def sample_image_def
        image_of_def stack_image_def sample_stack_def range_contains_iff registry_find_def sample_hle_def word_less_nat_alt)
qed

definition sample_gate_patch :: GatePatch where
  "sample_gate_patch = \<lparr>gate_patch_target = 0x402018, gate_patch_destination = 0x10010, gate_patch_slot = 1,
     gate_patch_function_id = 5, gate_patch_bytes = le_bytes 8 0x10010, gate_patch_raw_addend = Some 0\<rparr>"

lemma sample_gate_patch_built:
  "build_synthetic_x86_64_jump_slot_patches No_exception [sample_import_plan] sample_region [1] = Success [sample_gate_patch]"
  by (simp add: build_synthetic_x86_64_jump_slot_patches_def build_gate_patches_Success build_synthetic_x86_64_jump_slot_patch_def
      build_gate_patch_Success sample_import_plan_def kX86_64JumpSlotRelocationType_def binding_for_slot_def sample_region_def
      slot_address_def GuestAddress_checked_add_def kSyntheticGateStride_def sample_gate_patch_def word_le_nat_alt)

theorem gate_patches_correct_witness:
  "case apply_gate_patches No_exception sample_access sample_memory [sample_gate_patch] of
     Success (results, mem') \<Rightarrow>
       \<exists>a. guest_read sample_access mem' 0x402018 8 = Success (le_bytes 8 a) \<and> recognize_slot sample_region a = Some 1
   | _ \<Rightarrow> False"
proof -
  have "word_allowed sample_guest sample_plan kind (plan_relocation_target sample_import_plan)" for kind
    by (simp add: sample_import_plan_def sample_word_allowed)
  moreover have "plan_relocation_target sample_import_plan = 0x402018" by (simp add: sample_import_plan_def)
  ultimately show ?thesis
    using gate_patches_correct [where build = build_synthetic_x86_64_jump_slot_patches,
        OF sample_access_ready sample_memory_backs sample_region_built insertI1 sample_gate_patch_built]
    by (auto simp: Let_def split: Result.splits)
qed

end
