(* ===== verification/Pm4_Packets.thy ===== *)
theory Pm4_Packets
  imports Prelude
begin

text \<open>
  Command buffers of the graphics processor: raw packets (packet.cpp), the framing of a byte buffer
  into PM4 type-3 packets (pm4_type3_framing.cpp), the graphics IR (graphics_ir.hpp, graphics_ir.cpp)
  and the lowering of single packets to it (pm4_set_context_reg_ir.cpp, pm4_set_sh_reg_ir.cpp,
  pm4_set_uconfig_reg_ir.cpp, pm4_draw_control_ir.cpp, pm4_write_data_ir.cpp).

  A value of type size_t is a natural number here: every sum and product of the code is of word
  indices of one buffer, and where it could exceed 2^64 - 1 the code tests it first, which the model
  repeats with \<open>size_max\<close>. A word of a packet is the four bytes it has in the buffer.
\<close>

section \<open>Raw packets\<close>

abbreviation (input) size_max :: nat where
  "size_max \<equiv> 2 ^ 64 - 1"

abbreviation (input) kPacketWordBytes :: nat where
  "kPacketWordBytes \<equiv> 4"

datatype PacketKind = packet_kind_unknown

datatype PacketErrorCode =
    packet_buffer_not_word_aligned
  | empty_packet
  | packet_range_overflow
  | packet_range_out_of_bounds
  | packet_host_allocation_failure

datatype PacketError = PacketError PacketErrorCode nat nat

datatype RawPacketWord = RawPacketWord u8 u8 u8 u8

fun word_bytes :: "RawPacketWord \<Rightarrow> u8 list" where
  "word_bytes (RawPacketWord a b c d) = [a, b, c, d]"

record PacketExtent =
  extent_word_offset :: nat
  extent_word_count :: nat

record PacketHeader =
  packet_header_word_offset :: nat
  packet_header_raw :: RawPacketWord

record RawPacket =
  packet_extent :: PacketExtent
  packet_header :: PacketHeader
  packet_kind :: PacketKind
  raw_words :: "RawPacketWord list"

definition packet_error :: "PacketErrorCode \<Rightarrow> PacketExtent \<Rightarrow> PacketError" where
  "packet_error code extent = PacketError code (extent_word_offset extent) (extent_word_count extent)"

text \<open>Indexing the command buffer: out of range it is undefined behaviour.\<close>

definition buffer_at :: "'a list \<Rightarrow> nat \<Rightarrow> ('a, 'e) Result" where
  "buffer_at buffer i = (if i < length buffer then Success (buffer ! i) else Undefined)"

definition read_raw_word :: "u8 list \<Rightarrow> nat \<Rightarrow> (RawPacketWord, 'e) Result" where
  "read_raw_word command_buffer word_index =
     (let byte_offset = word_index * kPacketWordBytes in
      with_value (buffer_at command_buffer byte_offset) (\<lambda>a.
      with_value (buffer_at command_buffer (byte_offset + 1)) (\<lambda>b.
      with_value (buffer_at command_buffer (byte_offset + 2)) (\<lambda>c.
      with_value (buffer_at command_buffer (byte_offset + 3)) (\<lambda>d.
        Success (RawPacketWord a b c d))))))"

text \<open>The loop that copies the words of one packet.\<close>

primrec read_raw_words :: "u8 list \<Rightarrow> nat \<Rightarrow> nat list \<Rightarrow> (RawPacketWord list, 'e) Result" where
  "read_raw_words command_buffer word_offset [] = Success []"
| "read_raw_words command_buffer word_offset (index # indices) =
     with_value (read_raw_word command_buffer (word_offset + index)) (\<lambda>w.
       map_value (\<lambda>ws. w # ws) (read_raw_words command_buffer word_offset indices))"

definition parse_raw_packet ::
  "host_allocator \<Rightarrow> u8 list \<Rightarrow> PacketExtent \<Rightarrow> (RawPacket, PacketError) Result" where
  "parse_raw_packet alloc command_buffer extent =
     (if length command_buffer mod kPacketWordBytes \<noteq> 0
      then Failure (packet_error packet_buffer_not_word_aligned extent)
      else if extent_word_count extent = 0 then Failure (packet_error empty_packet extent)
      else if extent_word_offset extent > size_max - extent_word_count extent
      then Failure (packet_error packet_range_overflow extent)
      else
        let packet_end = extent_word_offset extent + extent_word_count extent;
            available_words = length command_buffer div kPacketWordBytes in
        if extent_word_offset extent \<ge> available_words \<or> packet_end > available_words
        then Failure (packet_error packet_range_out_of_bounds extent)
        else if alloc (extent_word_count extent) \<noteq> No_exception
        then Failure (packet_error packet_host_allocation_failure extent)
        else map_value
          (\<lambda>ws. \<lparr>packet_extent = extent,
                 packet_header = \<lparr>packet_header_word_offset = extent_word_offset extent, packet_header_raw = hd ws\<rparr>,
                 packet_kind = packet_kind_unknown, raw_words = ws\<rparr>)
          (read_raw_words command_buffer (extent_word_offset extent) [0..<extent_word_count extent]))"

section \<open>Type-3 framing\<close>

abbreviation (input) kPm4Type3PacketType :: u8 where
  "kPm4Type3PacketType \<equiv> 3"

record Pm4Type3Header =
  header_raw_word :: u32
  header_opcode :: u8
  header_encoded_count :: u16
  header_low_control_bits :: u8
  header_body_word_count :: nat
  header_total_word_count :: nat

record Pm4Type3Frame =
  frame_word_offset :: nat
  frame_header :: Pm4Type3Header
  frame_raw_packet :: RawPacket

record Pm4Type3Stream =
  frames :: "Pm4Type3Frame list"

datatype Pm4Type3FrameErrorCode =
    frame_buffer_not_word_aligned
  | unsupported_packet_type
  | truncated_packet
  | frame_host_size_unrepresentable
  | raw_packet_failure
  | frame_host_allocation_failure

record Pm4Type3FrameError =
  frame_error_code :: Pm4Type3FrameErrorCode
  frame_error_word_offset :: nat
  frame_error_header_type :: "u8 option"
  frame_error_required_words :: nat
  frame_error_available_words :: nat
  frame_error_packet_error :: "PacketError option"

definition frame_error ::
  "Pm4Type3FrameErrorCode \<Rightarrow> nat \<Rightarrow> u8 option \<Rightarrow> nat \<Rightarrow> nat \<Rightarrow> PacketError option \<Rightarrow> Pm4Type3FrameError" where
  "frame_error code word_offset header_type required available perr =
     \<lparr>frame_error_code = code, frame_error_word_offset = word_offset, frame_error_header_type = header_type,
      frame_error_required_words = required, frame_error_available_words = available,
      frame_error_packet_error = perr\<rparr>"

primrec read_word_loop :: "u8 list \<Rightarrow> nat \<Rightarrow> nat list \<Rightarrow> u32 \<Rightarrow> (u32, 'e) Result" where
  "read_word_loop bytes byte_offset [] v = Success v"
| "read_word_loop bytes byte_offset (index # indices) v =
     with_value (buffer_at bytes (byte_offset + index)) (\<lambda>b.
       read_word_loop bytes byte_offset indices (v OR push_bit (index * 8) (ucast b)))"

definition read_little_endian_word :: "u8 list \<Rightarrow> nat \<Rightarrow> (u32, 'e) Result" where
  "read_little_endian_word bytes word_offset =
     read_word_loop bytes (word_offset * kPacketWordBytes) [0..<kPacketWordBytes] 0"

definition header_type :: "u32 \<Rightarrow> u8" where
  "header_type raw_header = ucast (drop_bit 30 raw_header AND 0x3)"

definition encoded_count :: "u32 \<Rightarrow> u16" where
  "encoded_count raw_header = ucast (drop_bit 16 raw_header AND 0x3fff)"

definition make_header :: "u32 \<Rightarrow> Pm4Type3Header" where
  "make_header raw_header =
     \<lparr>header_raw_word = raw_header,
      header_opcode = ucast (drop_bit 8 raw_header AND 0xff),
      header_encoded_count = encoded_count raw_header,
      header_low_control_bits = ucast (raw_header AND 0xff),
      header_body_word_count = unat (encoded_count raw_header) + 1,
      header_total_word_count = unat (encoded_count raw_header) + 2\<rparr>"

text \<open>
  The allocations of the loop: the words of a packet, by their number (caught in parse_raw_packet),
  and the growth of the vector of frames, by the number of frames it then has.
\<close>

record Framing_events =
  packet_alloc :: host_allocator
  frames_alloc :: host_allocator

text \<open>One round of the loop: the frame that starts at a word offset.\<close>

definition frame_packet ::
  "Framing_events \<Rightarrow> u8 list \<Rightarrow> nat \<Rightarrow> nat \<Rightarrow> nat \<Rightarrow> (Pm4Type3Frame, Pm4Type3FrameError) Result" where
  "frame_packet ev command_buffer stream_word_count frame_count word_offset =
     with_value (read_little_endian_word command_buffer word_offset) (\<lambda>raw_header.
       let ht = header_type raw_header;
           available_words = stream_word_count - word_offset in
       if ht \<noteq> kPm4Type3PacketType
       then Failure (frame_error unsupported_packet_type word_offset (Some ht) 1 available_words None)
       else
         let encoded_as_size = unat (encoded_count raw_header) in
         if encoded_as_size > size_max - 2
         then Failure (frame_error frame_host_size_unrepresentable word_offset (Some ht) 0 available_words None)
         else
           let total_word_count = encoded_as_size + 2 in
           if total_word_count > available_words
           then Failure (frame_error truncated_packet word_offset (Some ht) total_word_count available_words None)
           else
             and_then (parse_raw_packet (packet_alloc ev) command_buffer
                         \<lparr>extent_word_offset = word_offset, extent_word_count = total_word_count\<rparr>)
               (\<lambda>e. frame_error raw_packet_failure word_offset (Some ht) total_word_count available_words (Some e))
               (\<lambda>raw_packet.
                 case frames_alloc ev (frame_count + 1) of
                   Bad_alloc \<Rightarrow> Failure (frame_error frame_host_allocation_failure word_offset None 0 0 None)
                 | Length_error \<Rightarrow> Failure (frame_error frame_host_size_unrepresentable word_offset None 0 0 None)
                 | No_exception \<Rightarrow> Success
                     \<lparr>frame_word_offset = word_offset, frame_header = make_header raw_header,
                      frame_raw_packet = raw_packet\<rparr>))"

lemma frame_packet_total:
  "frame_packet ev buf n k off = Success f \<Longrightarrow> header_total_word_count (frame_header f) > 0"
  by (cases "frames_alloc ev (k + 1)")
    (auto simp: frame_packet_def Let_def result_simps make_header_def split: if_splits)

function frame_loop ::
  "Framing_events \<Rightarrow> u8 list \<Rightarrow> nat \<Rightarrow> nat \<Rightarrow> Pm4Type3Frame list \<Rightarrow> (Pm4Type3Stream, Pm4Type3FrameError) Result" where
  "frame_loop ev command_buffer stream_word_count word_offset fs =
     (if word_offset < stream_word_count then
        case frame_packet ev command_buffer stream_word_count (length fs) word_offset of
          Success f \<Rightarrow> frame_loop ev command_buffer stream_word_count
                         (word_offset + header_total_word_count (frame_header f)) (fs @ [f])
        | Failure e \<Rightarrow> Failure e
        | Undefined \<Rightarrow> Undefined
      else Success \<lparr>frames = fs\<rparr>)"
  by pat_completeness auto
termination
  by (relation "measure (\<lambda>(ev, buf, n, off, fs). n - off)") (auto dest: frame_packet_total)

declare frame_loop.simps [simp del]

definition frame_pm4_type3_stream ::
  "Framing_events \<Rightarrow> u8 list \<Rightarrow> (Pm4Type3Stream, Pm4Type3FrameError) Result" where
  "frame_pm4_type3_stream ev command_buffer =
     (if length command_buffer mod kPacketWordBytes \<noteq> 0
      then Failure (frame_error frame_buffer_not_word_aligned 0 None 0 0 None)
      else frame_loop ev command_buffer (length command_buffer div kPacketWordBytes) 0 [])"

section \<open>Graphics IR\<close>

datatype GraphicsIrUnsupportedReason = packet_semantics_unknown

datatype GraphicsIrOperation =
    GraphicsIrUnsupported GraphicsIrUnsupportedReason
  | GraphicsIrShaderRegisterWriteRange u16 "u32 list"
  | GraphicsIrContextRegisterWriteRange u16 "u32 list"
  | GraphicsIrUserConfigRegisterWriteRange u16 "u32 list"
  | GraphicsIrSetInstanceCount u32
  | GraphicsIrDrawIndexAuto u32 u32
  | GraphicsIrGpuMemoryWrite u64 "u32 list"

record GraphicsIrEmission =
  emission_operation :: GraphicsIrOperation
  emission_source_packet :: RawPacket

definition make_unsupported_packet_ir :: "RawPacket \<Rightarrow> GraphicsIrEmission" where
  "make_unsupported_packet_ir packet =
     \<lparr>emission_operation = GraphicsIrUnsupported packet_semantics_unknown, emission_source_packet = packet\<rparr>"

definition graphics_ir_semantically_equal :: "GraphicsIrEmission \<Rightarrow> GraphicsIrEmission \<Rightarrow> bool" where
  "graphics_ir_semantically_equal left right \<longleftrightarrow> emission_operation left = emission_operation right"

section \<open>Lowering of single packets\<close>

primrec raw_word_loop :: "u8 list \<Rightarrow> nat \<Rightarrow> u32 \<Rightarrow> u32" where
  "raw_word_loop [] index v = v"
| "raw_word_loop (b # bs) index v = raw_word_loop bs (index + 1) (v OR push_bit (index * 8) (ucast b))"

definition raw_word_value :: "RawPacketWord \<Rightarrow> u32" where
  "raw_word_value w = raw_word_loop (word_bytes w) 0 0"

text \<open>The loop that collects a number of words of a packet, from an index on.\<close>

primrec word_values :: "RawPacketWord list \<Rightarrow> nat \<Rightarrow> nat list \<Rightarrow> (u32 list, 'e) Result" where
  "word_values ws base [] = Success []"
| "word_values ws base (index # indices) =
     with_value (buffer_at ws (index + base)) (\<lambda>w.
       map_value (\<lambda>vs. raw_word_value w # vs) (word_values ws base indices))"


text \<open>
  The three register packets carry the same payload: a word with the register offset, then the
  values. Their lowerings differ in the opcode, the register window and the operation they emit.
\<close>

datatype Pm4SetRegLowerErrorCode =
    malformed_set_reg
  | unsupported_register_control_bits
  | lower_register_range_out_of_bounds
  | set_reg_host_allocation_failure

record Pm4SetRegLowerError =
  set_reg_error_code :: Pm4SetRegLowerErrorCode
  set_reg_error_word_offset :: nat
  set_reg_error_raw_offset_control_word :: u32
  set_reg_error_value_count :: nat

definition lower_set_reg_error ::
  "Pm4SetRegLowerErrorCode \<Rightarrow> Pm4Type3Frame \<Rightarrow> u32 \<Rightarrow> nat \<Rightarrow> Pm4SetRegLowerError" where
  "lower_set_reg_error code frame raw_offset_control_word value_count =
     \<lparr>set_reg_error_code = code, set_reg_error_word_offset = frame_word_offset frame,
      set_reg_error_raw_offset_control_word = raw_offset_control_word,
      set_reg_error_value_count = value_count\<rparr>"

definition lower_set_reg_frame ::
  "u8 \<Rightarrow> nat \<Rightarrow> (u16 \<Rightarrow> u32 list \<Rightarrow> GraphicsIrOperation) \<Rightarrow> host_allocator \<Rightarrow> Pm4Type3Frame \<Rightarrow>
     (GraphicsIrEmission, Pm4SetRegLowerError) Result" where
  "lower_set_reg_frame opcode window operation alloc frame =
     (let ws = raw_words (frame_raw_packet frame);
          thrown = Failure (lower_set_reg_error set_reg_host_allocation_failure frame 0 0) in
      if header_opcode (frame_header frame) \<noteq> opcode
      then if alloc (length ws) \<noteq> No_exception then thrown
           else Success (make_unsupported_packet_ir (frame_raw_packet frame))
      else
        let value_count = unat (header_encoded_count (frame_header frame)) in
        if value_count = 0 \<or> length ws \<noteq> value_count + 2
           \<or> header_total_word_count (frame_header frame) \<noteq> value_count + 2
        then Failure (lower_set_reg_error malformed_set_reg frame 0 value_count)
        else with_value (buffer_at ws 1) (\<lambda>w.
          let offset_control_word = raw_word_value w;
              control_bits = offset_control_word AND 0xffff0000 in
          if control_bits \<noteq> 0
          then Failure (lower_set_reg_error unsupported_register_control_bits frame offset_control_word value_count)
          else
            let start_offset = (ucast (offset_control_word AND 0xffff) :: u16);
                start = unat start_offset in
            if start \<ge> window \<or> value_count > window - start
            then Failure (lower_set_reg_error lower_register_range_out_of_bounds frame offset_control_word value_count)
            else if alloc value_count \<noteq> No_exception then thrown
            else with_value (word_values ws 2 [0..<value_count]) (\<lambda>values.
              if alloc (length ws) \<noteq> No_exception then thrown
              else Success \<lparr>emission_operation = operation start_offset values,
                            emission_source_packet = frame_raw_packet frame\<rparr>)))"

abbreviation (input) kPm4SetContextRegOpcode :: u8 where "kPm4SetContextRegOpcode \<equiv> 0x69"
abbreviation (input) kPm4SetShRegOpcode :: u8 where "kPm4SetShRegOpcode \<equiv> 0x76"
abbreviation (input) kPm4SetUconfigRegOpcode :: u8 where "kPm4SetUconfigRegOpcode \<equiv> 0x79"
abbreviation (input) kPm4ContextRegisterWindowDwords :: nat where "kPm4ContextRegisterWindowDwords \<equiv> 0x400"
abbreviation (input) kPm4ShaderRegisterWindowDwords :: nat where "kPm4ShaderRegisterWindowDwords \<equiv> 0x400"
abbreviation (input) kPm4UserConfigRegisterWindowDwords :: nat where "kPm4UserConfigRegisterWindowDwords \<equiv> 0x400"

definition lower_pm4_set_context_reg_frame_to_graphics_ir ::
  "host_allocator \<Rightarrow> Pm4Type3Frame \<Rightarrow> (GraphicsIrEmission, Pm4SetRegLowerError) Result" where
  "lower_pm4_set_context_reg_frame_to_graphics_ir =
     lower_set_reg_frame kPm4SetContextRegOpcode kPm4ContextRegisterWindowDwords GraphicsIrContextRegisterWriteRange"

definition lower_pm4_set_sh_reg_frame_to_graphics_ir ::
  "host_allocator \<Rightarrow> Pm4Type3Frame \<Rightarrow> (GraphicsIrEmission, Pm4SetRegLowerError) Result" where
  "lower_pm4_set_sh_reg_frame_to_graphics_ir =
     lower_set_reg_frame kPm4SetShRegOpcode kPm4ShaderRegisterWindowDwords GraphicsIrShaderRegisterWriteRange"

definition lower_pm4_set_uconfig_reg_frame_to_graphics_ir ::
  "host_allocator \<Rightarrow> Pm4Type3Frame \<Rightarrow> (GraphicsIrEmission, Pm4SetRegLowerError) Result" where
  "lower_pm4_set_uconfig_reg_frame_to_graphics_ir =
     lower_set_reg_frame kPm4SetUconfigRegOpcode kPm4UserConfigRegisterWindowDwords GraphicsIrUserConfigRegisterWriteRange"

subsection \<open>Draw control\<close>

abbreviation (input) kPm4DrawIndexAutoOpcode :: u8 where "kPm4DrawIndexAutoOpcode \<equiv> 0x2d"
abbreviation (input) kPm4NumInstancesOpcode :: u8 where "kPm4NumInstancesOpcode \<equiv> 0x2f"

datatype Pm4DrawControlLowerErrorCode = malformed_num_instances | malformed_draw_index_auto

record Pm4DrawControlLowerError =
  draw_control_error_code :: Pm4DrawControlLowerErrorCode
  draw_control_error_word_offset :: nat
  draw_control_error_expected_total_word_count :: nat
  draw_control_error_actual_total_word_count :: nat

definition lower_draw_control_error ::
  "Pm4DrawControlLowerErrorCode \<Rightarrow> Pm4Type3Frame \<Rightarrow> nat \<Rightarrow> Pm4DrawControlLowerError" where
  "lower_draw_control_error code frame expected =
     \<lparr>draw_control_error_code = code, draw_control_error_word_offset = frame_word_offset frame,
      draw_control_error_expected_total_word_count = expected,
      draw_control_error_actual_total_word_count = length (raw_words (frame_raw_packet frame))\<rparr>"

definition lower_pm4_draw_control_frame_to_graphics_ir ::
  "Pm4Type3Frame \<Rightarrow> (GraphicsIrEmission, Pm4DrawControlLowerError) Result" where
  "lower_pm4_draw_control_frame_to_graphics_ir frame =
     (let ws = raw_words (frame_raw_packet frame); header = frame_header frame in
      if header_opcode header = kPm4NumInstancesOpcode
      then if header_encoded_count header \<noteq> 0 \<or> header_total_word_count header \<noteq> 2 \<or> length ws \<noteq> 2
           then Failure (lower_draw_control_error malformed_num_instances frame 2)
           else with_value (buffer_at ws 1) (\<lambda>w.
             Success \<lparr>emission_operation = GraphicsIrSetInstanceCount (raw_word_value w),
                      emission_source_packet = frame_raw_packet frame\<rparr>)
      else if header_opcode header = kPm4DrawIndexAutoOpcode
      then if header_encoded_count header \<noteq> 1 \<or> header_total_word_count header \<noteq> 3 \<or> length ws \<noteq> 3
           then Failure (lower_draw_control_error malformed_draw_index_auto frame 3)
           else with_value (buffer_at ws 1) (\<lambda>w1. with_value (buffer_at ws 2) (\<lambda>w2.
             Success \<lparr>emission_operation = GraphicsIrDrawIndexAuto (raw_word_value w1) (raw_word_value w2),
                      emission_source_packet = frame_raw_packet frame\<rparr>))
      else Success (make_unsupported_packet_ir (frame_raw_packet frame)))"

subsection \<open>Memory writes\<close>

abbreviation (input) kPm4WriteDataOpcode :: u8 where "kPm4WriteDataOpcode \<equiv> 0x37"
abbreviation (input) kPm4WriteDataSupportedControlWord :: u32 where
  "kPm4WriteDataSupportedControlWord \<equiv> 0x00100500"

datatype Pm4WriteDataLowerErrorCode =
    malformed_write_data
  | unsupported_write_type3_header_control_bits
  | unsupported_write_control
  | destination_address_unaligned
  | write_data_host_allocation_failure

record Pm4WriteDataLowerError =
  write_error_code :: Pm4WriteDataLowerErrorCode
  write_error_word_offset :: nat
  write_error_type3_header_control_bits :: u8
  write_error_raw_control_word :: u32
  write_error_destination :: u64
  write_error_value_count :: nat

definition lower_write_data_error ::
  "Pm4WriteDataLowerErrorCode \<Rightarrow> Pm4Type3Frame \<Rightarrow> u32 \<Rightarrow> u64 \<Rightarrow> nat \<Rightarrow> Pm4WriteDataLowerError" where
  "lower_write_data_error code frame raw_control_word destination value_count =
     \<lparr>write_error_code = code, write_error_word_offset = frame_word_offset frame,
      write_error_type3_header_control_bits = header_low_control_bits (frame_header frame),
      write_error_raw_control_word = raw_control_word, write_error_destination = destination,
      write_error_value_count = value_count\<rparr>"

definition lower_pm4_write_data_frame_to_graphics_ir ::
  "host_allocator \<Rightarrow> Pm4Type3Frame \<Rightarrow> (GraphicsIrEmission, Pm4WriteDataLowerError) Result" where
  "lower_pm4_write_data_frame_to_graphics_ir alloc frame =
     (let ws = raw_words (frame_raw_packet frame);
          thrown = Failure (lower_write_data_error write_data_host_allocation_failure frame 0 0 0) in
      if header_opcode (frame_header frame) \<noteq> kPm4WriteDataOpcode
      then if alloc (length ws) \<noteq> No_exception then thrown
           else Success (make_unsupported_packet_ir (frame_raw_packet frame))
      else if header_low_control_bits (frame_header frame) \<noteq> 0
      then Failure (lower_write_data_error unsupported_write_type3_header_control_bits frame 0 0 0)
      else
        let encoded = unat (header_encoded_count (frame_header frame)) in
        if encoded < 3 \<or> length ws \<noteq> encoded + 2 \<or> header_total_word_count (frame_header frame) \<noteq> encoded + 2
        then Failure (lower_write_data_error malformed_write_data frame 0 0 0)
        else
          let value_count = encoded - 2 in
          if value_count = 0 then Failure (lower_write_data_error malformed_write_data frame 0 0 value_count)
          else with_value (buffer_at ws 1) (\<lambda>w1.
            let control_word = raw_word_value w1 in
            if control_word \<noteq> kPm4WriteDataSupportedControlWord
            then Failure (lower_write_data_error unsupported_write_control frame control_word 0 value_count)
            else with_value (buffer_at ws 2) (\<lambda>w2. with_value (buffer_at ws 3) (\<lambda>w3.
              let destination = (ucast (raw_word_value w2) OR push_bit 32 (ucast (raw_word_value w3)) :: u64) in
              if destination AND 0x3 \<noteq> 0
              then Failure (lower_write_data_error destination_address_unaligned frame control_word destination value_count)
              else if alloc value_count \<noteq> No_exception then thrown
              else with_value (word_values ws 4 [0..<value_count]) (\<lambda>values.
                if alloc (length ws) \<noteq> No_exception then thrown
                else Success \<lparr>emission_operation = GraphicsIrGpuMemoryWrite destination values,
                              emission_source_packet = frame_raw_packet frame\<rparr>)))))"

section \<open>Words of a buffer\<close>

text \<open>A buffer as the list of its words.\<close>

definition packet_words :: "u8 list \<Rightarrow> RawPacketWord list" where
  "packet_words buffer =
     map (\<lambda>i. RawPacketWord (buffer ! (i * 4)) (buffer ! (i * 4 + 1)) (buffer ! (i * 4 + 2)) (buffer ! (i * 4 + 3)))
       [0..<length buffer div 4]"

lemma length_packet_words [simp]: "length (packet_words buffer) = length buffer div 4"
  by (simp add: packet_words_def)

lemma buffer_at_ok [simp]: "i < length buffer \<Longrightarrow> buffer_at buffer i = Success (buffer ! i)"
  by (simp add: buffer_at_def)

lemma word_in_buffer:
  assumes "i < length buffer div 4" and "j < 4"
  shows "i * 4 + j < length buffer"
proof -
  have "i * 4 + 4 \<le> length buffer div 4 * 4" using assms by linarith
  also have "\<dots> \<le> length buffer" by (rule div_times_less_eq_dividend)
  finally show ?thesis using assms(2) by linarith
qed

lemma read_raw_word_ok:
  assumes "i < length buffer div 4"
  shows "read_raw_word buffer i = Success (packet_words buffer ! i)"
  using word_in_buffer [OF assms, of 0] word_in_buffer [OF assms, of 1] word_in_buffer [OF assms, of 2]
    word_in_buffer [OF assms, of 3] assms
  by (simp add: read_raw_word_def packet_words_def Let_def)

lemma read_raw_words_ok:
  "off + n \<le> length buffer div 4 \<Longrightarrow> list_all (\<lambda>i. i < n) is \<Longrightarrow>
   read_raw_words buffer off is = Success (map (\<lambda>i. packet_words buffer ! (off + i)) is)"
  by (induction "is") (auto simp: read_raw_word_ok)

lemma map_nth_take_drop:
  "off + n \<le> length xs \<Longrightarrow> map (\<lambda>i. xs ! (off + i)) [0..<n] = take n (drop off xs)"
  by (auto intro!: nth_equalityI)

lemma read_word_loop_ok:
  "i \<le> n \<Longrightarrow> off + n \<le> length buffer \<Longrightarrow>
   read_word_loop buffer off [i..<n] (of_nat (le_nat (take i (drop off buffer)))) =
     Success (of_nat (le_nat (take n (drop off buffer))))"
proof (induction "n - i" arbitrary: i)
  case 0
  then show ?case by simp
next
  case (Suc d)
  then have "i < n" by simp
  have len: "length (take i (drop off buffer)) = i" using Suc.prems \<open>i < n\<close> by simp
  have "take (Suc i) (drop off buffer) = take i (drop off buffer) @ [buffer ! (off + i)]"
    using Suc.prems \<open>i < n\<close> by (simp add: take_Suc_conv_app_nth)
  then show ?case
    using \<open>i < n\<close> Suc.prems Suc.hyps(1) [of "Suc i"] Suc.hyps(2)
      read_le_loop_step [OF len, where b = "buffer ! (off + i)" and ?'a = 32]
    by (simp add: upt_conv_Cons)
qed

lemma raw_word_loop_ok:
  "length xs = i \<Longrightarrow> raw_word_loop bs i (of_nat (le_nat xs)) = of_nat (le_nat (xs @ bs))"
proof (induction bs arbitrary: xs i)
  case (Cons b bs)
  then show ?case
    using read_le_loop_step [of xs i b, where ?'a = 32] Cons.IH [of "xs @ [b]" "Suc i"] by simp
qed simp

lemma raw_word_value_eq: "raw_word_value w = of_nat (le_nat (word_bytes w))"
  using raw_word_loop_ok [of "[]" 0 "word_bytes w"] by (simp add: raw_word_value_def)

lemma take_4_eq: "k + 4 \<le> length xs \<Longrightarrow> take 4 (drop k xs) = [xs ! k, xs ! (k + 1), xs ! (k + 2), xs ! (k + 3)]"
proof -
  assume "k + 4 \<le> length xs"
  then have "map (\<lambda>i. xs ! (k + i)) [0..<4] = take 4 (drop k xs)" by (rule map_nth_take_drop)
  then show ?thesis by (simp add: upt_rec numeral_3_eq_3)
qed

lemma read_little_endian_word_ok:
  assumes "i < length buffer div 4"
  shows "read_little_endian_word buffer i = Success (raw_word_value (packet_words buffer ! i))"
proof -
  have len: "i * 4 + 4 \<le> length buffer" using word_in_buffer [OF assms, of 3] by simp
  have "word_bytes (packet_words buffer ! i) = take 4 (drop (i * 4) buffer)"
    using assms by (simp add: packet_words_def take_4_eq [OF len])
  then show ?thesis
    using read_word_loop_ok [of 0 4 "i * 4" buffer] len
    by (simp add: read_little_endian_word_def raw_word_value_eq)
qed

text \<open>The packet that consists of the given words of a buffer, the first of them at an offset.\<close>

definition raw_packet_at :: "nat \<Rightarrow> RawPacketWord list \<Rightarrow> RawPacket" where
  "raw_packet_at off ws =
     \<lparr>packet_extent = \<lparr>extent_word_offset = off, extent_word_count = length ws\<rparr>,
      packet_header = \<lparr>packet_header_word_offset = off, packet_header_raw = hd ws\<rparr>,
      packet_kind = packet_kind_unknown, raw_words = ws\<rparr>"

text \<open>parse_raw_packet on every extent: the exact words, or the first guard that fails.\<close>

lemma parse_raw_packet_ok:
  assumes "length buffer mod 4 = 0" and "host_object buffer" and "0 < n" and "off + n \<le> length buffer div 4"
  shows "parse_raw_packet alloc buffer \<lparr>extent_word_offset = off, extent_word_count = n\<rparr> =
    (if alloc n \<noteq> No_exception then Failure (PacketError packet_host_allocation_failure off n)
     else Success (raw_packet_at off (take n (drop off (packet_words buffer)))))"
proof -
  have "length buffer div 4 < 2 ^ 63" using assms(2) by (simp add: host_object_def)
  with assms(3,4) have "off \<le> size_max - n" and "\<not> length buffer div 4 \<le> off" by simp_all
  then show ?thesis
    using assms map_nth_take_drop [of off n "packet_words buffer"]
    by (simp add: parse_raw_packet_def packet_error_def raw_packet_at_def list_all_iff not_less read_raw_words_ok)
qed

section \<open>Framing is the decomposition of the buffer into type-3 packets\<close>

text \<open>
  A type-3 packet is a little-endian word whose two top bits are 3, followed by as many words as the
  14-bit field from bit 16 on says, plus one. Bits 8 to 15 are the opcode and bits 0 to 7 the control
  bits. A stream is cut into packets, and each frame describes one of them.
\<close>

definition word_nat :: "RawPacketWord \<Rightarrow> nat" where
  "word_nat w = le_nat (word_bytes w)"

definition body_count :: "RawPacketWord \<Rightarrow> nat" where
  "body_count w = word_nat w div 2 ^ 16 mod 2 ^ 14 + 1"

definition type3_packet :: "RawPacketWord list \<Rightarrow> bool" where
  "type3_packet ws \<longleftrightarrow> ws \<noteq> [] \<and> word_nat (hd ws) div 2 ^ 30 = 3 \<and> length ws = 1 + body_count (hd ws)"

definition frame_at :: "nat \<Rightarrow> RawPacketWord list \<Rightarrow> Pm4Type3Frame" where
  "frame_at off ws =
     \<lparr>frame_word_offset = off,
      frame_header = \<lparr>header_raw_word = of_nat (word_nat (hd ws)),
        header_opcode = of_nat (word_nat (hd ws) div 2 ^ 8 mod 2 ^ 8),
        header_encoded_count = of_nat (word_nat (hd ws) div 2 ^ 16 mod 2 ^ 14),
        header_low_control_bits = of_nat (word_nat (hd ws) mod 2 ^ 8),
        header_body_word_count = body_count (hd ws),
        header_total_word_count = 1 + body_count (hd ws)\<rparr>,
      frame_raw_packet = raw_packet_at off ws\<rparr>"

text \<open>The fields the code extracts with shifts and masks.\<close>

lemma header_field_nat:
  "unat (header_type h) = unat h div 2 ^ 30 mod 4"
  "unat (encoded_count h) = unat h div 2 ^ 16 mod 2 ^ 14"
  "unat (header_opcode (make_header h)) = unat h div 2 ^ 8 mod 256"
  "unat (header_low_control_bits (make_header h)) = unat h mod 256"
proof -
  have m: "(3 :: u32) = mask 2" "(0x3fff :: u32) = mask 14" "(0xff :: u32) = mask 8"
    by (simp_all add: mask_eq_exp_minus_1)
  have lt: "unat h < 2 ^ 32" using unsigned_less [of h] by simp
  then have h: "unat h mod 2 ^ 32 = unat h" "unat h div 2 ^ 30 mod 4 = unat h div 2 ^ 30" by simp_all
  show "unat (header_type h) = unat h div 2 ^ 30 mod 4"
    "unat (encoded_count h) = unat h div 2 ^ 16 mod 2 ^ 14"
    "unat (header_opcode (make_header h)) = unat h div 2 ^ 8 mod 256"
    "unat (header_low_control_bits (make_header h)) = unat h mod 256"
    by (simp_all only: header_type_def encoded_count_def make_header_def Pm4Type3Header.select_convs m
        take_bit_eq_mask [symmetric] unsigned_ucast_eq unsigned_take_bit_eq unsigned_drop_bit_eq)
      (use h in \<open>simp_all add: take_bit_eq_mod drop_bit_eq_div mod_mod_cancel\<close>)
qed

lemma word_nat_unat: "unat (raw_word_value w) = word_nat w"
proof -
  have "le_nat (word_bytes w) < 2 ^ 32" using le_nat_bound [of "word_bytes w"] by (cases w) simp
  then show ?thesis by (simp add: raw_word_value_eq word_nat_def unat_of_nat)
qed

lemma header_type_nat: "word_nat w div 2 ^ 30 = unat (header_type (raw_word_value w))"
proof -
  have "unat (raw_word_value w) < 2 ^ LENGTH(32)" by (rule unsigned_less)
  then have "word_nat w < 2 ^ 32" by (simp add: word_nat_unat)
  then show ?thesis by (simp add: header_field_nat(1) word_nat_unat)
qed

lemma header_fields_of_word:
  "header_type (raw_word_value w) = of_nat (word_nat w div 2 ^ 30)"
  "unat (encoded_count (raw_word_value w)) + 1 = body_count w"
  "make_header (raw_word_value w) =
     \<lparr>header_raw_word = of_nat (word_nat w), header_opcode = of_nat (word_nat w div 2 ^ 8 mod 2 ^ 8),
      header_encoded_count = of_nat (word_nat w div 2 ^ 16 mod 2 ^ 14),
      header_low_control_bits = of_nat (word_nat w mod 2 ^ 8),
      header_body_word_count = body_count w, header_total_word_count = 1 + body_count w\<rparr>"
proof -
  let ?h = "raw_word_value w"
  have word_eq: "x = of_nat n" if "unat x = n" for x :: "'a :: len word" and n using that by auto
  note nat = header_field_nat [of ?h, unfolded word_nat_unat]
  show "header_type ?h = of_nat (word_nat w div 2 ^ 30)" using word_eq [OF header_type_nat [symmetric]] .
  show count: "unat (encoded_count ?h) + 1 = body_count w" by (simp only: nat(2) body_count_def)
  note fields = word_eq [OF nat(2), symmetric] word_eq [OF nat(3), symmetric] word_eq [OF nat(4), symmetric]
    word_eq [OF word_nat_unat [of w], symmetric]
  show "make_header ?h =
    \<lparr>header_raw_word = of_nat (word_nat w), header_opcode = of_nat (word_nat w div 2 ^ 8 mod 2 ^ 8),
      header_encoded_count = of_nat (word_nat w div 2 ^ 16 mod 2 ^ 14),
      header_low_control_bits = of_nat (word_nat w mod 2 ^ 8),
      header_body_word_count = body_count w, header_total_word_count = 1 + body_count w\<rparr>"
    using fields by (simp only: count [symmetric]) (simp add: make_header_def)
qed

lemma type3_packet_iff:
  "type3_packet ws \<longleftrightarrow> ws \<noteq> [] \<and> header_type (raw_word_value (hd ws)) = 3
     \<and> length ws = unat (encoded_count (raw_word_value (hd ws))) + 2"
proof -
  have "word_nat w div 2 ^ 30 = 3 \<longleftrightarrow> header_type (raw_word_value w) = 3" for w
    unfolding header_type_nat by (simp add: word_unat_eq_iff)
  then show ?thesis by (auto simp: type3_packet_def header_fields_of_word(2) [symmetric])
qed

lemma frame_at_eq:
  "frame_at off ws =
     \<lparr>frame_word_offset = off, frame_header = make_header (raw_word_value (hd ws)),
      frame_raw_packet = raw_packet_at off ws\<rparr>"
  by (simp only: frame_at_def header_fields_of_word(3))

primrec frames_at :: "nat \<Rightarrow> RawPacketWord list list \<Rightarrow> Pm4Type3Frame list" where
  "frames_at off [] = []"
| "frames_at off (p # ps) = frame_at off p # frames_at (off + length p) ps"

lemma frames_at_append: "frames_at off (ps @ qs) = frames_at off ps @ frames_at (off + length (concat ps)) qs"
  by (induction ps arbitrary: off) (simp_all add: add.assoc)

lemma length_frames_at [simp]: "length (frames_at off ps) = length ps"
  by (induction ps arbitrary: off) simp_all

lemma header_total_frame_at:
  "type3_packet p \<Longrightarrow> header_total_word_count (frame_header (frame_at off p)) = length p"
  by (simp add: frame_at_eq make_header_def type3_packet_iff)

text \<open>What the code finds at an offset: a packet, or the reason why there is none.\<close>

lemma frame_packet_eq:
  assumes "length buffer mod 4 = 0" and "host_object buffer" and "off < length buffer div 4"
  defines "rest \<equiv> drop off (packet_words buffer)"
  defines "h \<equiv> raw_word_value (hd rest)"
  shows "frame_packet ev buffer (length buffer div 4) k off =
    (let n = unat (encoded_count h) + 2 in
     if header_type h \<noteq> 3
     then Failure (frame_error unsupported_packet_type off (Some (header_type h)) 1 (length rest) None)
     else if n > length rest
     then Failure (frame_error truncated_packet off (Some (header_type h)) n (length rest) None)
     else if packet_alloc ev n \<noteq> No_exception
     then Failure (frame_error raw_packet_failure off (Some (header_type h)) n (length rest)
                     (Some (PacketError packet_host_allocation_failure off n)))
     else case frames_alloc ev (Suc k) of
         Bad_alloc \<Rightarrow> Failure (frame_error frame_host_allocation_failure off None 0 0 None)
       | Length_error \<Rightarrow> Failure (frame_error frame_host_size_unrepresentable off None 0 0 None)
       | No_exception \<Rightarrow> Success (frame_at off (take n rest)))"
proof -
  have small: "unat (encoded_count h) < 2 ^ 16"
    using unsigned_less [of "encoded_count h"] by simp
  have hd: "hd (take (Suc (Suc m)) rest) = hd rest" for m by (cases rest) simp_all
  show ?thesis
    using small assms(3) parse_raw_packet_ok [OF assms(1,2), of "unat (encoded_count h) + 2" off "packet_alloc ev"]
    by (auto simp: frame_packet_def read_little_endian_word_ok h_def rest_def hd_drop_conv_nth Let_def frame_at_eq
        hd [unfolded rest_def] split: host_event.split)
qed

text \<open>The loop, started after the packets \<open>ps\<close>: it goes on with the rest of the words.\<close>

lemma frame_loop_step:
  assumes "length buffer mod 4 = 0" and "host_object buffer"
    and "concat ps @ rest = packet_words buffer" and "rest \<noteq> []"
  shows "frame_loop ev buffer (length buffer div 4) (length (concat ps)) (frames_at 0 ps) =
    (case frame_packet ev buffer (length buffer div 4) (length ps) (length (concat ps)) of
       Success f \<Rightarrow> frame_loop ev buffer (length buffer div 4)
                      (length (concat ps) + header_total_word_count (frame_header f)) (frames_at 0 ps @ [f])
     | Failure e \<Rightarrow> Failure e | Undefined \<Rightarrow> Undefined)"
proof -
  have "length (concat ps) < length buffer div 4"
    using arg_cong [OF assms(3), of length] assms(4) by (cases rest) simp_all
  then show ?thesis by (subst frame_loop.simps) simp
qed

lemma frame_loop_end:
  assumes "concat ps = packet_words buffer"
  shows "frame_loop ev buffer (length buffer div 4) (length (concat ps)) (frames_at 0 ps) =
    Success \<lparr>frames = frames_at 0 ps\<rparr>"
  using arg_cong [OF assms, of length] by (subst frame_loop.simps) simp

text \<open>The reasons for which framing stops before the words \<open>rest\<close> after the packets \<open>ps\<close>.\<close>

definition framing_stops :: "Framing_events \<Rightarrow> RawPacketWord list list \<Rightarrow> RawPacketWord list \<Rightarrow> Pm4Type3FrameError \<Rightarrow> bool" where
  "framing_stops ev ps rest e \<longleftrightarrow>
     (let kind = word_nat (hd rest) div 2 ^ 30; n = 1 + body_count (hd rest); off = length (concat ps) in
      case frame_error_code e of
        frame_buffer_not_word_aligned \<Rightarrow> False
      | unsupported_packet_type \<Rightarrow> kind \<noteq> 3
          \<and> e = frame_error unsupported_packet_type off (Some (of_nat kind)) 1 (length rest) None
      | truncated_packet \<Rightarrow> kind = 3 \<and> length rest < n
          \<and> e = frame_error truncated_packet off (Some 3) n (length rest) None
      | raw_packet_failure \<Rightarrow> packet_alloc ev n \<noteq> No_exception \<and> type3_packet (take n rest)
          \<and> e = frame_error raw_packet_failure off (Some 3) n (length rest)
              (Some (PacketError packet_host_allocation_failure off n))
      | frame_host_allocation_failure \<Rightarrow> frames_alloc ev (Suc (length ps)) = Bad_alloc \<and> type3_packet (take n rest)
          \<and> e = frame_error frame_host_allocation_failure off None 0 0 None
      | frame_host_size_unrepresentable \<Rightarrow> frames_alloc ev (Suc (length ps)) = Length_error \<and> type3_packet (take n rest)
          \<and> e = frame_error frame_host_size_unrepresentable off None 0 0 None)"

definition framing_outcome ::
  "Framing_events \<Rightarrow> u8 list \<Rightarrow> (Pm4Type3Stream, Pm4Type3FrameError) Result \<Rightarrow> bool" where
  "framing_outcome ev buffer r \<longleftrightarrow> (case r of
       Undefined \<Rightarrow> False
     | Success s \<Rightarrow> \<exists>ps. list_all type3_packet ps \<and> concat ps = packet_words buffer \<and> frames s = frames_at 0 ps
     | Failure e \<Rightarrow> \<exists>ps rest. list_all type3_packet ps \<and> concat ps @ rest = packet_words buffer \<and> rest \<noteq> []
         \<and> frame_error_word_offset e = length (concat ps) \<and> framing_stops ev ps rest e)"

lemma type3_packet_take:
  assumes "header_type (raw_word_value (hd rest)) = 3" and "unat (encoded_count (raw_word_value (hd rest))) + 2 \<le> length rest"
  shows "type3_packet (take (unat (encoded_count (raw_word_value (hd rest))) + 2) rest)"
  using assms by (cases rest) (auto simp: type3_packet_iff)

lemma frame_packet_outcome:
  assumes "length buffer mod 4 = 0" and "host_object buffer"
    and "concat ps @ rest = packet_words buffer" and "rest \<noteq> []"
  shows "case frame_packet ev buffer (length buffer div 4) (length ps) (length (concat ps)) of
      Undefined \<Rightarrow> False
    | Success f \<Rightarrow> \<exists>p rest'. rest = p @ rest' \<and> type3_packet p \<and> f = frame_at (length (concat ps)) p
    | Failure e \<Rightarrow> frame_error_word_offset e = length (concat ps) \<and> framing_stops ev ps rest e"
proof -
  have "length (concat ps) < length buffer div 4"
    using arg_cong [OF assms(3), of length] assms(4) by (cases rest) simp_all
  note eq = frame_packet_eq [OF assms(1,2) this, of ev "length ps"]
  have rest: "drop (length (concat ps)) (packet_words buffer) = rest"
    by (simp flip: assms(3))
  let ?n = "unat (encoded_count (raw_word_value (hd rest))) + 2"
  have split: "rest = take ?n rest @ drop ?n rest" by simp
  have n: "1 + body_count (hd rest) = ?n" by (simp add: header_fields_of_word(2) [symmetric])
  have three: "unat (header_type (raw_word_value (hd rest))) = 3 \<longleftrightarrow> header_type (raw_word_value (hd rest)) = 3"
    by (simp add: word_unat_eq_iff)
  show ?thesis
    using type3_packet_take [of rest] split unfolding eq rest framing_stops_def header_type_nat n three
    by (auto simp: Let_def frame_error_def not_less three simp del: append_take_drop_id
        split: host_event.split)
qed

lemma frame_loop_outcome:
  assumes "length buffer mod 4 = 0" and "host_object buffer"
    and "concat ps @ rest = packet_words buffer" and "list_all type3_packet ps"
  shows "framing_outcome ev buffer
    (frame_loop ev buffer (length buffer div 4) (length (concat ps)) (frames_at 0 ps))"
  using assms(3,4)
proof (induction "length rest" arbitrary: ps rest rule: less_induct)
  case less
  show ?case
  proof (cases "rest = []")
    case True
    with less.prems frame_loop_end [of ps buffer ev] show ?thesis
      by (auto simp: framing_outcome_def)
  next
    case False
    note step = frame_loop_step [OF assms(1,2) less.prems(1) False, of ev]
    note packet = frame_packet_outcome [OF assms(1,2) less.prems(1) False, of ev]
    show ?thesis
    proof (cases "frame_packet ev buffer (length buffer div 4) (length ps) (length (concat ps))")
      case (Success f)
      with packet obtain p rest' where p: "rest = p @ rest'" "type3_packet p" "f = frame_at (length (concat ps)) p"
        by auto
      have "length rest' < length rest" using p(1,2) by (simp add: type3_packet_iff)
      then have "framing_outcome ev buffer (frame_loop ev buffer (length buffer div 4)
        (length (concat (ps @ [p]))) (frames_at 0 (ps @ [p])))"
        by (rule less.hyps) (use p less.prems in simp_all)
      with Success step p show ?thesis by (simp add: frames_at_append header_total_frame_at)
    next
      case (Failure e)
      with packet step less.prems False show ?thesis by (auto simp: framing_outcome_def)
    next
      case Undefined
      with packet show ?thesis by simp
    qed
  qed
qed

lemma frame_pm4_type3_stream_outcome:
  assumes "host_object buffer" and "length buffer mod 4 = 0"
  shows "framing_outcome ev buffer (frame_pm4_type3_stream ev buffer)"
  using frame_loop_outcome [of buffer "[]" "packet_words buffer" ev] assms
  by (simp add: frame_pm4_type3_stream_def)

text \<open>A stream that is a sequence of packets is framed into them, when no allocation fails.\<close>

lemma frame_loop_packets:
  assumes "length buffer mod 4 = 0" and "host_object buffer"
    and "\<And>n. packet_alloc ev n = No_exception" and "\<And>n. frames_alloc ev n = No_exception"
    and "concat (ps @ qs) = packet_words buffer" and "list_all type3_packet qs"
  shows "frame_loop ev buffer (length buffer div 4) (length (concat ps)) (frames_at 0 ps) =
    Success \<lparr>frames = frames_at 0 (ps @ qs)\<rparr>"
  using assms(5,6)
proof (induction qs arbitrary: ps)
  case Nil
  then show ?case using frame_loop_end [of ps buffer ev] by simp
next
  case (Cons q qs)
  let ?rest = "concat (q # qs)"
  from Cons.prems have q: "type3_packet q" and rest: "concat ps @ ?rest = packet_words buffer" "?rest \<noteq> []"
    by (auto simp: type3_packet_iff)
  have lt: "length (concat ps) < length buffer div 4"
    using arg_cong [OF rest(1), of length] q by (simp add: type3_packet_iff)
  have drop: "drop (length (concat ps)) (packet_words buffer) = ?rest"
    by (simp flip: rest(1))
  have hd: "hd ?rest = hd q" using q by (simp add: type3_packet_iff)
  have "take (length q) ?rest = q" by simp
  then have "frame_packet ev buffer (length buffer div 4) (length ps) (length (concat ps)) =
      Success (frame_at (length (concat ps)) q)"
    using q unfolding frame_packet_eq [OF assms(1,2) lt] drop hd
    by (simp add: type3_packet_iff assms(3,4))
  then show ?case
    using frame_loop_step [OF assms(1,2) rest, of ev] Cons.IH [of "ps @ [q]"] Cons.prems q
    by (simp add: frames_at_append header_total_frame_at)
qed

lemma frame_pm4_type3_stream_packets:
  assumes "host_object buffer" and "length buffer mod 4 = 0"
    and "\<And>n. packet_alloc ev n = No_exception" and "\<And>n. frames_alloc ev n = No_exception"
    and "concat ps = packet_words buffer" and "list_all type3_packet ps"
  shows "frame_pm4_type3_stream ev buffer = Success \<lparr>frames = frames_at 0 ps\<rparr>"
  using frame_loop_packets [of buffer ev "[]" ps] assms by (simp add: frame_pm4_type3_stream_def)

section \<open>Encoding\<close>

text \<open>
  The other direction: a command is an opcode, the low control bits and a body of 1 to 2^14 words,
  and \<open>encode_command\<close> gives the words of its packet.
\<close>

type_synonym Type3_command = "u8 \<times> u8 \<times> u32 list"

definition raw_word_of :: "u32 \<Rightarrow> RawPacketWord" where
  "raw_word_of v = RawPacketWord (ucast v) (ucast (drop_bit 8 v)) (ucast (drop_bit 16 v)) (ucast (drop_bit 24 v))"

definition type3_header_word :: "u8 \<Rightarrow> u8 \<Rightarrow> nat \<Rightarrow> u32" where
  "type3_header_word opcode control body_words =
     of_nat (3 * 2 ^ 30 + (body_words - 1) * 2 ^ 16 + unat opcode * 2 ^ 8 + unat control)"

fun encodable :: "Type3_command \<Rightarrow> bool" where
  "encodable (opcode, control, body) \<longleftrightarrow> 1 \<le> length body \<and> length body \<le> 0x4000"

fun encode_command :: "Type3_command \<Rightarrow> RawPacketWord list" where
  "encode_command (opcode, control, body) =
     raw_word_of (type3_header_word opcode control (length body)) # map raw_word_of body"

definition decode_frame :: "Pm4Type3Frame \<Rightarrow> Type3_command" where
  "decode_frame f = (header_opcode (frame_header f), header_low_control_bits (frame_header f),
     map raw_word_value (tl (raw_words (frame_raw_packet f))))"

definition stream_bytes :: "RawPacketWord list \<Rightarrow> u8 list" where
  "stream_bytes ws = concat (map word_bytes ws)"

lemma raw_word_value_of [simp]: "raw_word_value (raw_word_of v) = v"
proof -
  have "raw_word_value (raw_word_of v) =
     ucast (ucast v :: u8) OR push_bit 8 (ucast (ucast (drop_bit 8 v) :: u8)) OR
     push_bit 16 (ucast (ucast (drop_bit 16 v) :: u8)) OR push_bit 24 (ucast (ucast (drop_bit 24 v) :: u8))"
    by (simp add: raw_word_value_def raw_word_of_def or.assoc)
  also have "\<dots> = v"
  proof (rule bit_word_eqI)
    fix n assume "n < LENGTH(32)"
    then consider "n < 8" | "8 \<le> n" "n < 16" | "16 \<le> n" "n < 24" | "24 \<le> n" "n < 32" by fastforce
    then show "bit ((ucast (ucast v :: u8) :: u32) OR push_bit 8 (ucast (ucast (drop_bit 8 v) :: u8)) OR
       push_bit 16 (ucast (ucast (drop_bit 16 v) :: u8)) OR
       push_bit 24 (ucast (ucast (drop_bit 24 v) :: u8))) n \<longleftrightarrow> bit v n"
      by cases (auto simp: bit_simps)
  qed
  finally show ?thesis .
qed

lemma length_word_bytes [simp]: "length (word_bytes w) = 4"
  by (cases w) simp

lemma length_stream_bytes [simp]: "length (stream_bytes ws) = 4 * length ws"
  by (induction ws) (simp_all add: stream_bytes_def)

lemma packet_words_stream_bytes [simp]: "packet_words (stream_bytes ws) = ws"
proof -
  have "RawPacketWord (stream_bytes ws ! (i * 4)) (stream_bytes ws ! (i * 4 + 1))
      (stream_bytes ws ! (i * 4 + 2)) (stream_bytes ws ! (i * 4 + 3)) = ws ! i" if "i < length ws" for i
    using that
  proof (induction ws arbitrary: i)
    case (Cons w ws)
    obtain a b c d where "w = RawPacketWord a b c d" by (cases w)
    with Cons show ?case by (cases i) (simp_all add: stream_bytes_def numeral_eq_Suc)
  qed simp
  then show ?thesis by (auto simp: packet_words_def intro!: nth_equalityI)
qed

lemma type3_header_word_fields:
  assumes "1 \<le> n" and "n \<le> 0x4000"
  shows "header_type (type3_header_word opcode control n) = 3"
    and "unat (encoded_count (type3_header_word opcode control n)) = n - 1"
    and "header_opcode (make_header (type3_header_word opcode control n)) = opcode"
    and "header_low_control_bits (make_header (type3_header_word opcode control n)) = control"
proof -
  let ?h = "type3_header_word opcode control n"
  have op: "unat opcode < 256" and ctl: "unat control < 256"
    using unsigned_less [of opcode] unsigned_less [of control] by simp_all
  have "unat ?h = 3 * 2 ^ 30 + (n - 1) * 2 ^ 16 + unat opcode * 2 ^ 8 + unat control"
    unfolding type3_header_word_def unfolding unat_of_nat by (rule mod_less) (use assms op ctl in simp)
  then have h: "unat ?h = ((3 * 2 ^ 14 + (n - 1)) * 2 ^ 8 + unat opcode) * 2 ^ 8 + unat control"
    by simp
  then have h8: "unat ?h div 2 ^ 8 = (3 * 2 ^ 14 + (n - 1)) * 2 ^ 8 + unat opcode"
    using ctl by simp
  have "unat ?h div 2 ^ 16 = unat ?h div 2 ^ 8 div 2 ^ 8" by (simp flip: div_mult2_eq)
  with h8 have h16: "unat ?h div 2 ^ 16 = 3 * 2 ^ 14 + (n - 1)" using op by simp
  have "unat ?h div 2 ^ 30 = unat ?h div 2 ^ 16 div 2 ^ 14" by (simp flip: div_mult2_eq)
  with h16 have h30: "unat ?h div 2 ^ 30 = 3" using assms by simp
  show "header_type ?h = 3" unfolding word_unat_eq_iff header_field_nat(1) h30 by simp
  show "unat (encoded_count ?h) = n - 1" unfolding header_field_nat(2) h16 mod_mult_self3
    by (rule mod_less) (use assms in simp)
  show "header_opcode (make_header ?h) = opcode"
    unfolding word_unat_eq_iff header_field_nat(3) h8
    using op mod_mult_self3 [of "3 * 2 ^ 14 + (n - 1)" "256" "unat opcode"] by simp
  show "header_low_control_bits (make_header ?h) = control"
    unfolding word_unat_eq_iff header_field_nat(4) h
    using ctl mod_mult_self3 [of "(3 * 2 ^ 14 + (n - 1)) * 2 ^ 8 + unat opcode" "256" "unat control"] by simp
qed

lemma encode_command_packet: "encodable c \<Longrightarrow> type3_packet (encode_command c)"
  by (cases c) (auto simp: type3_packet_iff type3_header_word_fields)

lemma decode_frame_at: "encodable c \<Longrightarrow> decode_frame (frame_at off (encode_command c)) = c"
  by (cases c) (simp add: decode_frame_def frame_at_eq raw_packet_at_def type3_header_word_fields comp_def)

lemma decode_frames_at: "list_all encodable cs \<Longrightarrow> map decode_frame (frames_at off (map encode_command cs)) = cs"
  by (induction cs arbitrary: off) (simp_all add: decode_frame_at)

definition encode_stream :: "Type3_command list \<Rightarrow> u8 list" where
  "encode_stream cs = stream_bytes (concat (map encode_command cs))"

definition no_exceptions :: Framing_events where
  "no_exceptions = \<lparr>packet_alloc = (\<lambda>_. No_exception), frames_alloc = (\<lambda>_. No_exception)\<rparr>"

lemma frame_encode_stream:
  assumes "list_all encodable cs" and "host_object (encode_stream cs)"
  shows "frame_pm4_type3_stream no_exceptions (encode_stream cs) =
    Success \<lparr>frames = frames_at 0 (map encode_command cs)\<rparr>"
proof (rule frame_pm4_type3_stream_packets [OF assms(2)])
  show "list_all type3_packet (map encode_command cs)"
    using assms(1) by (induction cs) (simp_all add: encode_command_packet)
qed (simp_all add: encode_stream_def no_exceptions_def)

section \<open>What the lowerings emit\<close>

lemma word_values_ok:
  "base + n \<le> length ws \<Longrightarrow> list_all (\<lambda>i. i < n) is \<Longrightarrow>
   word_values ws base is = Success (map (\<lambda>i. raw_word_value (ws ! (i + base))) is)"
  by (induction "is") auto

lemma word_values_all:
  assumes "base + n = length ws"
  shows "word_values ws base [0..<n] = Success (map raw_word_value (drop base ws))"
  using assms by (auto simp: word_values_ok [of base n] list_all_iff add.commute intro!: nth_equalityI)

lemma frame_at_simps [simp]:
  "frame_word_offset (frame_at off ws) = off"
  "frame_header (frame_at off ws) = make_header (raw_word_value (hd ws))"
  "frame_raw_packet (frame_at off ws) = raw_packet_at off ws"
  "raw_words (raw_packet_at off ws) = ws"
  "packet_extent (raw_packet_at off ws) = \<lparr>extent_word_offset = off, extent_word_count = length ws\<rparr>"
  by (simp_all add: frame_at_eq raw_packet_at_def)

lemma make_header_simps [simp]:
  "header_encoded_count (make_header h) = encoded_count h"
  "header_total_word_count (make_header h) = unat (encoded_count h) + 2"
  by (simp_all add: make_header_def)

text \<open>
  The payload of a register packet of \<open>ws\<close>: the first register in the low half of its first word,
  whose high half is zero, and one value per further word, within the window.
\<close>

definition register_payload :: "nat \<Rightarrow> RawPacketWord list \<Rightarrow> (u16 \<times> u32 list) option" where
  "register_payload window ws =
     (if 3 \<le> length ws \<and> unat (raw_word_value (ws ! 1)) < 2 ^ 16
         \<and> unat (raw_word_value (ws ! 1)) + (length ws - 2) \<le> window
      then Some (ucast (raw_word_value (ws ! 1)), map raw_word_value (drop 2 ws)) else None)"

lemma control_bits_zero_iff: "(w :: u32) AND 0xffff0000 = 0 \<longleftrightarrow> unat w < 2 ^ 16"
proof -
  have "(0xffff0000 :: u32) = push_bit 16 (mask 16)" by (simp add: mask_eq_exp_minus_1)
  then have "w AND 0xffff0000 = 0 \<longleftrightarrow> take_bit 16 w = w"
    by (auto simp: bit_eq_iff bit_simps)
  also have "\<dots> \<longleftrightarrow> unat w < 2 ^ 16"
    by (simp add: word_unat_eq_iff unsigned_take_bit_eq take_bit_nat_eq_self_iff)
  finally show ?thesis .
qed

text \<open>
  A register packet of the stream is lowered to the write its payload describes; a packet of another
  opcode to the unsupported operation. In both cases the emission keeps the packet it comes from.
\<close>

lemma lower_set_reg_frame_eq:
  assumes "type3_packet ws"
  shows "case lower_set_reg_frame opcode window operation alloc (frame_at off ws) of
      Undefined \<Rightarrow> False
    | Success em \<Rightarrow> emission_source_packet em = raw_packet_at off ws \<and>
        (if header_opcode (make_header (raw_word_value (hd ws))) \<noteq> opcode
         then emission_operation em = GraphicsIrUnsupported packet_semantics_unknown
         else \<exists>start values. register_payload window ws = Some (start, values) \<and>
                emission_operation em = operation start values)
    | Failure e \<Rightarrow> set_reg_error_word_offset e = off \<and>
        (if set_reg_error_code e = set_reg_host_allocation_failure
         then alloc (length ws) \<noteq> No_exception \<or> alloc (length ws - 2) \<noteq> No_exception
         else header_opcode (make_header (raw_word_value (hd ws))) = opcode \<and> register_payload window ws = None)"
proof -
  let ?h = "raw_word_value (hd ws)" and ?o = "raw_word_value (ws ! 1)"
  let ?n = "unat (encoded_count ?h)"
  from assms have len: "length ws = ?n + 2" by (simp add: type3_packet_iff)
  have vals: "word_values ws 2 [0..<?n] = (Success (map raw_word_value (drop 2 ws)) :: (u32 list, Pm4SetRegLowerError) Result)"
    by (rule word_values_all) (simp add: len)
  have start: "unat (ucast (?o AND 0xffff) :: u16) = unat ?o" "ucast (?o AND 0xffff) = (ucast ?o :: u16)"
    if "unat ?o < 2 ^ 16"
  proof -
    have "(0xffff :: u32) = mask 16" by (simp add: mask_eq_exp_minus_1)
    then have "?o AND 0xffff = ?o"
      using that by (simp only: take_bit_eq_mask [symmetric])
        (simp add: word_unat_eq_iff unsigned_take_bit_eq take_bit_nat_eq_self_iff)
    then show "unat (ucast (?o AND 0xffff) :: u16) = unat ?o" "ucast (?o AND 0xffff) = (ucast ?o :: u16)"
      using that by (simp_all add: unsigned_ucast_eq take_bit_nat_eq_self)
  qed
  have payload: "register_payload window ws =
      (if ?n \<noteq> 0 \<and> unat ?o < 2 ^ 16 \<and> unat ?o + ?n \<le> window then Some (ucast ?o, map raw_word_value (drop 2 ws)) else None)"
    using len by (auto simp: register_payload_def)
  have eq: "lower_set_reg_frame opcode window operation alloc (frame_at off ws) =
    (if header_opcode (make_header ?h) \<noteq> opcode
     then if alloc (?n + 2) \<noteq> No_exception then Failure (lower_set_reg_error set_reg_host_allocation_failure (frame_at off ws) 0 0)
          else Success (make_unsupported_packet_ir (raw_packet_at off ws))
     else if ?n = 0 then Failure (lower_set_reg_error malformed_set_reg (frame_at off ws) 0 ?n)
     else if \<not> unat ?o < 2 ^ 16
     then Failure (lower_set_reg_error unsupported_register_control_bits (frame_at off ws) ?o ?n)
     else if \<not> unat ?o + ?n \<le> window
     then Failure (lower_set_reg_error lower_register_range_out_of_bounds (frame_at off ws) ?o ?n)
     else if alloc ?n \<noteq> No_exception \<or> alloc (?n + 2) \<noteq> No_exception
     then Failure (lower_set_reg_error set_reg_host_allocation_failure (frame_at off ws) 0 0)
     else Success \<lparr>emission_operation = operation (ucast ?o) (map raw_word_value (drop 2 ws)),
                   emission_source_packet = raw_packet_at off ws\<rparr>)"
  proof (cases "unat ?o < 2 ^ 16")
    case True
    have guard: "(window \<le> unat ?o \<or> window - unat ?o < ?n) \<longleftrightarrow> \<not> unat ?o + ?n \<le> window" if "?n \<noteq> 0"
      using that by linarith
    show ?thesis
      unfolding lower_set_reg_frame_def Let_def
      by (cases "?n = 0") (use True start [OF True] guard in \<open>simp_all add: len vals control_bits_zero_iff\<close>)
  next
    case False
    then show ?thesis
      unfolding lower_set_reg_frame_def Let_def by (simp add: len control_bits_zero_iff)
  qed
  show ?thesis
    unfolding eq payload
    by (simp add: lower_set_reg_error_def make_unsupported_packet_ir_def len)
qed

text \<open>The two draw packets.\<close>

lemma lower_draw_control_eq:
  assumes "type3_packet ws"
  shows "lower_pm4_draw_control_frame_to_graphics_ir (frame_at off ws) =
    (let op = header_opcode (make_header (raw_word_value (hd ws))) in
     if op = kPm4NumInstancesOpcode
     then if length ws = 2
          then Success \<lparr>emission_operation = GraphicsIrSetInstanceCount (raw_word_value (ws ! 1)),
                        emission_source_packet = raw_packet_at off ws\<rparr>
          else Failure (lower_draw_control_error malformed_num_instances (frame_at off ws) 2)
     else if op = kPm4DrawIndexAutoOpcode
     then if length ws = 3
          then Success \<lparr>emission_operation = GraphicsIrDrawIndexAuto (raw_word_value (ws ! 1)) (raw_word_value (ws ! 2)),
                        emission_source_packet = raw_packet_at off ws\<rparr>
          else Failure (lower_draw_control_error malformed_draw_index_auto (frame_at off ws) 3)
     else Success (make_unsupported_packet_ir (raw_packet_at off ws)))"
proof -
  have z: "encoded_count h = 0 \<longleftrightarrow> unat (encoded_count h) = 0" "encoded_count h = 1 \<longleftrightarrow> unat (encoded_count h) = 1" for h
    by (simp_all add: word_unat_eq_iff)
  show ?thesis
    using assms unfolding lower_pm4_draw_control_frame_to_graphics_ir_def type3_packet_iff
    by (auto simp: Let_def z)
qed

section \<open>Properties\<close>

text \<open>
  C27. Framing of a command buffer. A buffer whose size is no multiple of the word size is refused.
  Otherwise framing either returns one frame per packet of a decomposition of the whole buffer into
  type-3 packets, in order, each with its offset, the fields of its header and exactly its words; or
  it fails at the end of a prefix of such packets, and the error tells the truth about the word it
  names: its type bits are not 3, or the buffer ends before the packet does, or an allocation of the
  host failed. No byte outside the buffer is read.
\<close>

theorem frame_pm4_type3_stream_correct:
  assumes "host_object buffer"
  shows "if length buffer mod 4 \<noteq> 0
    then frame_pm4_type3_stream ev buffer = Failure (frame_error frame_buffer_not_word_aligned 0 None 0 0 None)
    else framing_outcome ev buffer (frame_pm4_type3_stream ev buffer)"
  using frame_pm4_type3_stream_outcome [OF assms] by (simp add: frame_pm4_type3_stream_def)

theorem frame_pm4_type3_stream_correct_witness:
  "host_object (stream_bytes [raw_word_of 0xc0002f00, raw_word_of 1, raw_word_of 0xc0012d00]) \<and>
   framing_outcome no_exceptions (stream_bytes [raw_word_of 0xc0002f00, raw_word_of 1, raw_word_of 0xc0012d00])
     (frame_pm4_type3_stream no_exceptions (stream_bytes [raw_word_of 0xc0002f00, raw_word_of 1, raw_word_of 0xc0012d00]))"
  using frame_pm4_type3_stream_correct
    [of "stream_bytes [raw_word_of 0xc0002f00, raw_word_of 1, raw_word_of 0xc0012d00]" no_exceptions]
  by (simp add: host_object_def)

text \<open>
  Round trip of the packet format. Every sequence of commands (an opcode, the low control bits,
  a body of 1 to 2^14 words), written as a stream of type-3 packets, is framed back into exactly
  those commands.
\<close>

theorem frame_encode_stream_roundtrip:
  assumes "list_all encodable cs" and "host_object (encode_stream cs)"
  shows "map_value (\<lambda>s. map decode_frame (frames s)) (frame_pm4_type3_stream no_exceptions (encode_stream cs)) = Success cs"
  using frame_encode_stream [OF assms] decode_frames_at [OF assms(1)] by simp

theorem frame_encode_stream_roundtrip_witness:
  "map_value (\<lambda>s. map decode_frame (frames s))
     (frame_pm4_type3_stream no_exceptions (encode_stream [(0x2f, 0, [1]), (0x2d, 0, [3, 2])])) =
   Success [(0x2f, 0, [1]), (0x2d, 0, [3, 2])]"
  by (rule frame_encode_stream_roundtrip) (simp_all add: host_object_def encode_stream_def)

end
