(* ===== verification/Gpu_Registers.thy ===== *)
theory Gpu_Registers
  imports Pm4_Packets
begin

text \<open>
  The register state of the graphics processor: the shader, context and user-config register windows
  (shader_register_state.cpp, context_register_state.cpp, user_config_register_state.cpp), what is
  decoded from them (program addresses, color target 0 of color_target_state.cpp, the surface layout
  and image of gfx10_surface_layout.cpp and gfx10_color_target_image.cpp) and the acceptance test of
  the first raster draw (first_raster_draw_plan.cpp).

  The three windows have the same layout, so one record models the three structs. A function that
  takes the state by reference returns its result together with the new state.
\<close>

section \<open>Register windows\<close>

abbreviation (input) kRegisterStateDwords :: nat where
  "kRegisterStateDwords \<equiv> 0x400"

record RegisterState =
  register_values :: "u32 list"
  register_initialized :: "bool list"

definition empty_registers :: RegisterState where
  "empty_registers = \<lparr>register_values = replicate kRegisterStateDwords 0,
     register_initialized = replicate kRegisterStateDwords False\<rparr>"

record RegisterWriteEffect =
  effect_start_offset :: u16
  effect_value_count :: nat

datatype RegisterApplyErrorCode = apply_unsupported_operation | apply_register_range_out_of_bounds

record RegisterApplyError =
  apply_error_code :: RegisterApplyErrorCode
  apply_error_start_offset :: u16
  apply_error_value_count :: nat
  apply_error_unsupported_reason :: "GraphicsIrUnsupportedReason option"

definition apply_error ::
  "RegisterApplyErrorCode \<Rightarrow> u16 \<Rightarrow> nat \<Rightarrow> GraphicsIrUnsupportedReason option \<Rightarrow> RegisterApplyError" where
  "apply_error code start_offset value_count reason =
     \<lparr>apply_error_code = code, apply_error_start_offset = start_offset,
      apply_error_value_count = value_count, apply_error_unsupported_reason = reason\<rparr>"

primrec write_registers :: "nat \<Rightarrow> u32 list \<Rightarrow> RegisterState \<Rightarrow> RegisterState" where
  "write_registers destination [] state = state"
| "write_registers destination (v # vs) state =
     write_registers (destination + 1) vs
       (state\<lparr>register_values := (register_values state)[destination := v],
              register_initialized := (register_initialized state)[destination := True]\<rparr>)"

definition apply_register_graphics_ir ::
  "(GraphicsIrOperation \<Rightarrow> (u16 \<times> u32 list) option) \<Rightarrow> GraphicsIrEmission \<Rightarrow> RegisterState \<Rightarrow>
     (RegisterWriteEffect, RegisterApplyError) Result \<times> RegisterState" where
  "apply_register_graphics_ir get_write emission state =
     (case emission_operation emission of
        GraphicsIrUnsupported reason \<Rightarrow> (Failure (apply_error apply_unsupported_operation 0 0 (Some reason)), state)
      | operation \<Rightarrow>
         (case get_write operation of
            None \<Rightarrow> (Failure (apply_error apply_unsupported_operation 0 0 None), state)
          | Some (start_offset, values) \<Rightarrow>
              let start = unat start_offset; count = length values in
              if start \<ge> kRegisterStateDwords \<or> count > kRegisterStateDwords - start
              then (Failure (apply_error apply_register_range_out_of_bounds start_offset count None), state)
              else (Success \<lparr>effect_start_offset = start_offset, effect_value_count = count\<rparr>,
                    write_registers start values state)))"

fun get_shader_write :: "GraphicsIrOperation \<Rightarrow> (u16 \<times> u32 list) option" where
  "get_shader_write (GraphicsIrShaderRegisterWriteRange start_offset values) = Some (start_offset, values)"
| "get_shader_write _ = None"

fun get_context_write :: "GraphicsIrOperation \<Rightarrow> (u16 \<times> u32 list) option" where
  "get_context_write (GraphicsIrContextRegisterWriteRange start_offset values) = Some (start_offset, values)"
| "get_context_write _ = None"

fun get_user_config_write :: "GraphicsIrOperation \<Rightarrow> (u16 \<times> u32 list) option" where
  "get_user_config_write (GraphicsIrUserConfigRegisterWriteRange start_offset values) = Some (start_offset, values)"
| "get_user_config_write _ = None"

definition apply_shader_register_graphics_ir ::
  "GraphicsIrEmission \<Rightarrow> RegisterState \<Rightarrow> (RegisterWriteEffect, RegisterApplyError) Result \<times> RegisterState" where
  "apply_shader_register_graphics_ir = apply_register_graphics_ir get_shader_write"

definition apply_context_register_graphics_ir ::
  "GraphicsIrEmission \<Rightarrow> RegisterState \<Rightarrow> (RegisterWriteEffect, RegisterApplyError) Result \<times> RegisterState" where
  "apply_context_register_graphics_ir = apply_register_graphics_ir get_context_write"

definition apply_user_config_register_graphics_ir ::
  "GraphicsIrEmission \<Rightarrow> RegisterState \<Rightarrow> (RegisterWriteEffect, RegisterApplyError) Result \<times> RegisterState" where
  "apply_user_config_register_graphics_ir = apply_register_graphics_ir get_user_config_write"

section \<open>Program addresses\<close>

datatype ProgramAddressErrorCode = pgm_lo_uninitialized | pgm_hi_uninitialized | unsupported_pgm_hi_bits

record ProgramAddressError =
  address_error_code :: ProgramAddressErrorCode
  address_error_pgm_lo :: u32
  address_error_pgm_hi :: u32

definition address_error :: "ProgramAddressErrorCode \<Rightarrow> u32 \<Rightarrow> u32 \<Rightarrow> ProgramAddressError" where
  "address_error code pgm_lo pgm_hi =
     \<lparr>address_error_code = code, address_error_pgm_lo = pgm_lo, address_error_pgm_hi = pgm_hi\<rparr>"

abbreviation (input) kPixelProgramLoRegisterOffset :: nat where "kPixelProgramLoRegisterOffset \<equiv> 0x08"
abbreviation (input) kPixelProgramHiRegisterOffset :: nat where "kPixelProgramHiRegisterOffset \<equiv> 0x09"
abbreviation (input) kGeometryEsProgramLoRegisterOffset :: nat where "kGeometryEsProgramLoRegisterOffset \<equiv> 0xc8"
abbreviation (input) kGeometryEsProgramHiRegisterOffset :: nat where "kGeometryEsProgramHiRegisterOffset \<equiv> 0xc9"

definition resolve_pixel_program_address :: "RegisterState \<Rightarrow> (u64, ProgramAddressError) Result" where
  "resolve_pixel_program_address state =
     (if \<not> register_initialized state ! kPixelProgramLoRegisterOffset
      then Failure (address_error pgm_lo_uninitialized 0 0)
      else
        let pgm_lo = register_values state ! kPixelProgramLoRegisterOffset in
        if \<not> register_initialized state ! kPixelProgramHiRegisterOffset
        then Failure (address_error pgm_hi_uninitialized pgm_lo 0)
        else
          let pgm_hi = register_values state ! kPixelProgramHiRegisterOffset in
          if pgm_hi AND 0xffffff00 \<noteq> 0
          then Failure (address_error unsupported_pgm_hi_bits pgm_lo pgm_hi)
          else Success (push_bit 8 (ucast pgm_lo) OR push_bit 40 (ucast (pgm_hi AND 0xff))))"

definition resolve_geometry_es_program_address :: "RegisterState \<Rightarrow> (u64, ProgramAddressError) Result" where
  "resolve_geometry_es_program_address state =
     (if \<not> register_initialized state ! kGeometryEsProgramLoRegisterOffset
      then Failure (address_error pgm_lo_uninitialized 0 0)
      else
        let pgm_lo = register_values state ! kGeometryEsProgramLoRegisterOffset in
        if \<not> register_initialized state ! kGeometryEsProgramHiRegisterOffset
        then Failure (address_error pgm_hi_uninitialized pgm_lo 0)
        else
          let pgm_hi = register_values state ! kGeometryEsProgramHiRegisterOffset in
          if pgm_hi AND 0xffffff00 \<noteq> 0
          then Failure (address_error unsupported_pgm_hi_bits pgm_lo pgm_hi)
          else Success (push_bit 8 (ucast pgm_lo) OR push_bit 40 (ucast (pgm_hi AND 0xff))))"

section \<open>Color target 0\<close>

abbreviation (input) kColorTargetMaskContextOffset :: nat where "kColorTargetMaskContextOffset \<equiv> 0x008e"
abbreviation (input) kColorTarget0BaseContextOffset :: nat where "kColorTarget0BaseContextOffset \<equiv> 0x0318"
abbreviation (input) kColorTarget0InfoContextOffset :: nat where "kColorTarget0InfoContextOffset \<equiv> 0x031c"
abbreviation (input) kColorTarget0BaseExtContextOffset :: nat where "kColorTarget0BaseExtContextOffset \<equiv> 0x0390"
abbreviation (input) kColorTarget0Attrib2ContextOffset :: nat where "kColorTarget0Attrib2ContextOffset \<equiv> 0x03b0"
abbreviation (input) kColorTarget0Attrib3ContextOffset :: nat where "kColorTarget0Attrib3ContextOffset \<equiv> 0x03b8"

record ColorTarget0ContextState =
  target_base_address :: u64
  target_raw_target_mask :: u32
  target_write_mask :: u8
  target_raw_info :: u32
  target_endian :: u8
  target_format :: u8
  target_linear_general :: bool
  target_number_type :: u8
  target_component_swap :: u8
  target_fast_clear :: bool
  target_compression :: bool
  target_cmask_is_linear :: bool
  target_fmask_compression_disable :: bool
  target_fmask_compress_one_fragment :: bool
  target_dcc_enabled :: bool
  target_cmask_address_type :: u8
  target_nbc_tiling :: bool
  target_raw_attrib2 :: u32
  target_width :: u32
  target_height :: u32
  target_raw_attrib3 :: u32
  target_color_sw_mode :: u8
  target_resource_type :: u8

datatype ColorTarget0ContextErrorCode =
    target_mask_uninitialized
  | base_uninitialized
  | base_ext_uninitialized
  | info_uninitialized
  | attrib2_uninitialized
  | attrib3_uninitialized
  | target_address_overflow

datatype ColorTarget0ContextError = ColorTarget0ContextError ColorTarget0ContextErrorCode u32 u32

definition resolve_color_target0_context_state ::
  "RegisterState \<Rightarrow> (ColorTarget0ContextState, ColorTarget0ContextError) Result" where
  "resolve_color_target0_context_state state =
     (let initialized = (\<lambda>i. register_initialized state ! i);
          val = (\<lambda>i. register_values state ! i);
          raw_base = val kColorTarget0BaseContextOffset;
          raw_base_ext = val kColorTarget0BaseExtContextOffset in
      if \<not> initialized kColorTargetMaskContextOffset
      then Failure (ColorTarget0ContextError target_mask_uninitialized 0 0)
      else if \<not> initialized kColorTarget0BaseContextOffset
      then Failure (ColorTarget0ContextError base_uninitialized 0 0)
      else if \<not> initialized kColorTarget0BaseExtContextOffset
      then Failure (ColorTarget0ContextError base_ext_uninitialized raw_base 0)
      else if \<not> initialized kColorTarget0InfoContextOffset
      then Failure (ColorTarget0ContextError info_uninitialized raw_base raw_base_ext)
      else if \<not> initialized kColorTarget0Attrib2ContextOffset
      then Failure (ColorTarget0ContextError attrib2_uninitialized raw_base raw_base_ext)
      else if \<not> initialized kColorTarget0Attrib3ContextOffset
      then Failure (ColorTarget0ContextError attrib3_uninitialized raw_base raw_base_ext)
      else
        let unshifted = (push_bit 32 (ucast raw_base_ext) OR ucast raw_base :: u64) in
        if unshifted > drop_bit 8 u64_max
        then Failure (ColorTarget0ContextError target_address_overflow raw_base raw_base_ext)
        else
          let raw_target_mask = val kColorTargetMaskContextOffset;
              raw_info = val kColorTarget0InfoContextOffset;
              raw_attrib2 = val kColorTarget0Attrib2ContextOffset;
              raw_attrib3 = val kColorTarget0Attrib3ContextOffset in
          Success
            \<lparr>target_base_address = push_bit 8 unshifted,
             target_raw_target_mask = raw_target_mask,
             target_write_mask = ucast (raw_target_mask AND 0x0f),
             target_raw_info = raw_info,
             target_endian = ucast (raw_info AND 0x03),
             target_format = ucast (drop_bit 2 raw_info AND 0x1f),
             target_linear_general = (drop_bit 7 raw_info AND 0x01 \<noteq> 0),
             target_number_type = ucast (drop_bit 8 raw_info AND 0x07),
             target_component_swap = ucast (drop_bit 11 raw_info AND 0x03),
             target_fast_clear = (drop_bit 13 raw_info AND 0x01 \<noteq> 0),
             target_compression = (drop_bit 14 raw_info AND 0x01 \<noteq> 0),
             target_cmask_is_linear = (drop_bit 19 raw_info AND 0x01 \<noteq> 0),
             target_fmask_compression_disable = (drop_bit 26 raw_info AND 0x01 \<noteq> 0),
             target_fmask_compress_one_fragment = (drop_bit 27 raw_info AND 0x01 \<noteq> 0),
             target_dcc_enabled = (drop_bit 28 raw_info AND 0x01 \<noteq> 0),
             target_cmask_address_type = ucast (drop_bit 29 raw_info AND 0x03),
             target_nbc_tiling = (drop_bit 31 raw_info AND 0x01 \<noteq> 0),
             target_raw_attrib2 = raw_attrib2,
             target_width = (drop_bit 14 raw_attrib2 AND 0x3fff) + 1,
             target_height = (raw_attrib2 AND 0x3fff) + 1,
             target_raw_attrib3 = raw_attrib3,
             target_color_sw_mode = ucast (drop_bit 14 raw_attrib3 AND 0x1f),
             target_resource_type = ucast (drop_bit 24 raw_attrib3 AND 0x03)\<rparr>)"

section \<open>Surface layout and image of a color target\<close>

abbreviation (input) kGfx10AlignedLinearBaseAlignmentBytes :: u32 where
  "kGfx10AlignedLinearBaseAlignmentBytes \<equiv> 256"

record Gfx10AlignedLinear2dLayout =
  layout_width :: u32
  layout_height :: u32
  layout_bytes_per_element :: u32
  layout_pitch_alignment_pixels :: u32
  layout_pitch_pixels :: u32
  layout_pitch_bytes :: u64
  layout_base_alignment_bytes :: u32
  layout_surface_byte_count :: u64

datatype Gfx10AlignedLinear2dLayoutErrorCode =
    layout_zero_dimension
  | zero_element_size
  | unsupported_element_size
  | pitch_alignment_overflow
  | pitch_overflow
  | surface_size_overflow

datatype Gfx10AlignedLinear2dLayoutError =
  Gfx10AlignedLinear2dLayoutError Gfx10AlignedLinear2dLayoutErrorCode u32 u32 u32

definition checked_multiply :: "u64 \<Rightarrow> u64 \<Rightarrow> u64 option" where
  "checked_multiply left right =
     (if left \<noteq> 0 \<and> right > u64_max div left then None else Some (left * right))"

definition compute_gfx10_aligned_linear_2d_layout ::
  "u32 \<Rightarrow> u32 \<Rightarrow> u32 \<Rightarrow> (Gfx10AlignedLinear2dLayout, Gfx10AlignedLinear2dLayoutError) Result" where
  "compute_gfx10_aligned_linear_2d_layout width height bytes_per_element =
     (let err = (\<lambda>code. Failure (Gfx10AlignedLinear2dLayoutError code width height bytes_per_element)) in
      if width = 0 \<or> height = 0 then err layout_zero_dimension
      else if bytes_per_element = 0 then err zero_element_size
      else if bytes_per_element > kGfx10AlignedLinearBaseAlignmentBytes
              \<or> kGfx10AlignedLinearBaseAlignmentBytes mod bytes_per_element \<noteq> 0
      then err unsupported_element_size
      else
        let pitch_alignment = kGfx10AlignedLinearBaseAlignmentBytes div bytes_per_element in
        if pitch_alignment = 0 then err pitch_alignment_overflow
        else
          let remainder = width mod pitch_alignment;
              padding = (if remainder = 0 then 0 else pitch_alignment - remainder) in
          if width > 0xffffffff - padding then err pitch_overflow
          else
            let pitch_pixels = width + padding in
            case checked_multiply (ucast pitch_pixels) (ucast bytes_per_element) of
              None \<Rightarrow> err pitch_overflow
            | Some pitch_bytes \<Rightarrow>
               (case checked_multiply pitch_bytes (ucast height) of
                  None \<Rightarrow> err surface_size_overflow
                | Some surface_bytes \<Rightarrow> Success
                    \<lparr>layout_width = width, layout_height = height, layout_bytes_per_element = bytes_per_element,
                     layout_pitch_alignment_pixels = pitch_alignment, layout_pitch_pixels = pitch_pixels,
                     layout_pitch_bytes = pitch_bytes,
                     layout_base_alignment_bytes = kGfx10AlignedLinearBaseAlignmentBytes,
                     layout_surface_byte_count = surface_bytes\<rparr>))"

datatype GuestGpuImageFormat = r8g8b8a8_unorm

datatype GuestGpuSurfaceLayoutKind = gfx10_aligned_linear

record GuestGpuSurfaceLayout =
  surface_kind :: GuestGpuSurfaceLayoutKind
  surface_pitch_pixels :: u32
  surface_pitch_bytes :: u32
  surface_base_alignment_bytes :: u32
  surface_surface_byte_count :: u64

record GuestGpuImageDescriptor =
  image_base_address :: u64
  image_format :: GuestGpuImageFormat
  image_width :: u32
  image_height :: u32
  image_bytes_per_pixel :: u32
  image_logical_byte_count :: u64
  image_layout :: GuestGpuSurfaceLayout

datatype Gfx10ColorTargetImageErrorCode =
    unsupported_endian
  | unsupported_format
  | unsupported_number_type
  | unsupported_component_swap
  | linear_general_not_supported
  | fast_clear_not_supported
  | compression_not_supported
  | fmask_not_supported
  | dcc_not_supported
  | cmask_not_supported
  | nbc_tiling_not_supported
  | unsupported_swizzle_mode
  | unsupported_resource_type
  | logical_size_overflow
  | surface_layout_failure
  | pitch_unrepresentable
  | base_address_misaligned

record Gfx10ColorTargetImageError =
  image_error_code :: Gfx10ColorTargetImageErrorCode
  image_error_actual_value :: u64
  image_error_surface_layout_error :: "Gfx10AlignedLinear2dLayoutError option"

abbreviation (input) kGfx10R8G8B8A8BytesPerPixel :: u32 where "kGfx10R8G8B8A8BytesPerPixel \<equiv> 4"

definition color_target_image_error ::
  "Gfx10ColorTargetImageErrorCode \<Rightarrow> u64 \<Rightarrow> Gfx10AlignedLinear2dLayoutError option \<Rightarrow> Gfx10ColorTargetImageError" where
  "color_target_image_error code actual_value layout_error =
     \<lparr>image_error_code = code, image_error_actual_value = actual_value,
      image_error_surface_layout_error = layout_error\<rparr>"

definition plan_gfx10_linear_rgba8_unorm_color_target_image ::
  "ColorTarget0ContextState \<Rightarrow> (GuestGpuImageDescriptor, Gfx10ColorTargetImageError) Result" where
  "plan_gfx10_linear_rgba8_unorm_color_target_image target =
     (let err = (\<lambda>code v. Failure (color_target_image_error code v None)); raw_info = ucast (target_raw_info target) in
      if target_endian target \<noteq> 0 then err unsupported_endian (ucast (target_endian target))
      else if target_format target \<noteq> 10 then err unsupported_format (ucast (target_format target))
      else if target_number_type target \<noteq> 0 then err unsupported_number_type (ucast (target_number_type target))
      else if target_component_swap target \<noteq> 0
      then err unsupported_component_swap (ucast (target_component_swap target))
      else if target_linear_general target then err linear_general_not_supported raw_info
      else if target_fast_clear target then err fast_clear_not_supported raw_info
      else if target_compression target then err compression_not_supported raw_info
      else if target_fmask_compression_disable target \<or> target_fmask_compress_one_fragment target
      then err fmask_not_supported raw_info
      else if target_dcc_enabled target then err dcc_not_supported raw_info
      else if target_cmask_is_linear target \<or> target_cmask_address_type target \<noteq> 0
      then err cmask_not_supported raw_info
      else if target_nbc_tiling target then err nbc_tiling_not_supported raw_info
      else if target_color_sw_mode target \<noteq> 0
      then err unsupported_swizzle_mode (ucast (target_color_sw_mode target))
      else if target_resource_type target \<noteq> 1
      then err unsupported_resource_type (ucast (target_resource_type target))
      else
        case checked_multiply (ucast (target_width target)) (ucast (target_height target)) of
          None \<Rightarrow> err logical_size_overflow 0
        | Some logical_pixels \<Rightarrow>
           (case checked_multiply logical_pixels (ucast kGfx10R8G8B8A8BytesPerPixel) of
              None \<Rightarrow> err logical_size_overflow 0
            | Some logical_bytes \<Rightarrow>
                and_then (compute_gfx10_aligned_linear_2d_layout (target_width target) (target_height target)
                            kGfx10R8G8B8A8BytesPerPixel)
                  (\<lambda>e. color_target_image_error surface_layout_failure 0 (Some e))
                  (\<lambda>layout.
                    if layout_pitch_bytes layout > 0xffffffff
                    then err pitch_unrepresentable (layout_pitch_bytes layout)
                    else if target_base_address target mod ucast (layout_base_alignment_bytes layout) \<noteq> 0
                    then err base_address_misaligned (target_base_address target)
                    else Success
                      \<lparr>image_base_address = target_base_address target,
                       image_format = r8g8b8a8_unorm,
                       image_width = target_width target,
                       image_height = target_height target,
                       image_bytes_per_pixel = kGfx10R8G8B8A8BytesPerPixel,
                       image_logical_byte_count = logical_bytes,
                       image_layout =
                         \<lparr>surface_kind = gfx10_aligned_linear,
                          surface_pitch_pixels = layout_pitch_pixels layout,
                          surface_pitch_bytes = ucast (layout_pitch_bytes layout),
                          surface_base_alignment_bytes = layout_base_alignment_bytes layout,
                          surface_surface_byte_count = layout_surface_byte_count layout\<rparr>\<rparr>)))"

section \<open>The first raster draw\<close>

abbreviation (input) kFirstRasterPrimitiveTypeUconfigOffset :: nat where
  "kFirstRasterPrimitiveTypeUconfigOffset \<equiv> 0x242"

record FirstRasterDrawPlan =
  draw_primitive_type_raw :: u32
  draw_instance_count :: u32
  draw_index_count :: u32
  draw_initiator_raw :: u32

datatype FirstRasterDrawPlanErrorCode =
    primitive_type_not_initialized
  | unsupported_primitive_type
  | unsupported_instance_count
  | unsupported_index_count
  | unsupported_initiator

datatype FirstRasterDrawPlanError = FirstRasterDrawPlanError FirstRasterDrawPlanErrorCode u32

definition plan_first_raster_draw ::
  "RegisterState \<Rightarrow> u32 \<Rightarrow> u32 \<times> u32 \<Rightarrow> (FirstRasterDrawPlan, FirstRasterDrawPlanError) Result" where
  "plan_first_raster_draw user_config_state instance_count draw =
     (case draw of (index_count, initiator) \<Rightarrow>
      if \<not> register_initialized user_config_state ! kFirstRasterPrimitiveTypeUconfigOffset
      then Failure (FirstRasterDrawPlanError primitive_type_not_initialized 0)
      else
        let primitive_type = register_values user_config_state ! kFirstRasterPrimitiveTypeUconfigOffset in
        if primitive_type \<noteq> 4 then Failure (FirstRasterDrawPlanError unsupported_primitive_type primitive_type)
        else if instance_count \<noteq> 1 then Failure (FirstRasterDrawPlanError unsupported_instance_count instance_count)
        else if index_count \<noteq> 3 then Failure (FirstRasterDrawPlanError unsupported_index_count index_count)
        else if initiator \<noteq> 2 then Failure (FirstRasterDrawPlanError unsupported_initiator initiator)
        else Success \<lparr>draw_primitive_type_raw = primitive_type, draw_instance_count = instance_count,
                      draw_index_count = index_count, draw_initiator_raw = initiator\<rparr>)"

section \<open>A register window is a partial map from offsets to values\<close>

text \<open>
  The arrays keep their size, and a register that was never written still holds zero. \<open>registers\<close>
  reads the state as the partial map of the registers written so far.
\<close>

definition registers_wf :: "RegisterState \<Rightarrow> bool" where
  "registers_wf s \<longleftrightarrow> length (register_values s) = kRegisterStateDwords
     \<and> length (register_initialized s) = kRegisterStateDwords
     \<and> (\<forall>i < kRegisterStateDwords. \<not> register_initialized s ! i \<longrightarrow> register_values s ! i = 0)"

definition registers :: "RegisterState \<Rightarrow> nat \<Rightarrow> u32 option" where
  "registers s i = (if i < kRegisterStateDwords \<and> register_initialized s ! i then Some (register_values s ! i) else None)"

definition overwrite :: "nat \<Rightarrow> 'v list \<Rightarrow> (nat \<Rightarrow> 'v option) \<Rightarrow> nat \<Rightarrow> 'v option" where
  "overwrite start vs m i = (if start \<le> i \<and> i < start + length vs then Some (vs ! (i - start)) else m i)"

lemma overwrite_Nil [simp]: "overwrite start [] m = m"
  by (auto simp: overwrite_def fun_eq_iff)

lemma overwrite_Cons: "overwrite start (v # vs) m = overwrite (Suc start) vs (m(start \<mapsto> v))"
  by (auto simp: overwrite_def fun_eq_iff nth_Cons' Suc_le_eq)

lemma registers_empty [simp]: "registers empty_registers = Map.empty" and registers_wf_empty [simp]: "registers_wf empty_registers"
  by (simp_all add: registers_def empty_registers_def registers_wf_def fun_eq_iff)

lemma write_registers_correct:
  "registers_wf s \<Longrightarrow> start + length vs \<le> kRegisterStateDwords \<Longrightarrow>
   registers_wf (write_registers start vs s) \<and> registers (write_registers start vs s) = overwrite start vs (registers s)"
proof (induction vs arbitrary: start s)
  case (Cons v vs)
  let ?s = "s\<lparr>register_values := (register_values s)[start := v], register_initialized := (register_initialized s)[start := True]\<rparr>"
  have "registers_wf ?s" using Cons.prems by (auto simp: registers_wf_def nth_list_update)
  moreover have "registers ?s = (registers s)(start \<mapsto> v)"
    using Cons.prems by (auto simp: registers_def registers_wf_def nth_list_update fun_eq_iff)
  ultimately show ?case using Cons.IH [of ?s "Suc start"] Cons.prems by (simp add: overwrite_Cons fun_upd_def)
qed simp

text \<open>The contract of a window: a packet either writes its whole range or changes nothing.\<close>

locale register_window =
  fixes get_write :: "GraphicsIrOperation \<Rightarrow> (u16 \<times> u32 list) option"
    and apply_ir :: "GraphicsIrEmission \<Rightarrow> RegisterState \<Rightarrow> (RegisterWriteEffect, RegisterApplyError) Result \<times> RegisterState"
  assumes outcome: "registers_wf s \<Longrightarrow> case apply_ir em s of
        (Success eff, s') \<Rightarrow> \<exists>start vs. get_write (emission_operation em) = Some (start, vs)
          \<and> eff = \<lparr>effect_start_offset = start, effect_value_count = length vs\<rparr>
          \<and> unat start + length vs \<le> kRegisterStateDwords \<and> registers_wf s'
          \<and> registers s' = overwrite (unat start) vs (registers s)
      | (Failure e, s') \<Rightarrow> s' = s
      | (Undefined, s') \<Rightarrow> False"
    and accepts: "get_write (emission_operation em) = Some (start, vs) \<Longrightarrow>
      unat start + length vs \<le> kRegisterStateDwords \<Longrightarrow> unat start < kRegisterStateDwords \<Longrightarrow>
      has_value (fst (apply_ir em s))"
begin

lemma keeps_wf: "registers_wf s \<Longrightarrow> registers_wf (snd (apply_ir em s))"
  using outcome [of s em] by (auto split: prod.splits Result.splits)

lemma success:
  assumes "registers_wf s" and "apply_ir em s = (Success eff, s')"
  obtains start vs where "get_write (emission_operation em) = Some (start, vs)"
    and "unat start + length vs \<le> kRegisterStateDwords"
    and "registers_wf s'" and "registers s' = overwrite (unat start) vs (registers s)"
  using outcome [OF assms(1), of em] assms(2) by auto

lemma failure_keeps_state: "registers_wf s \<Longrightarrow> apply_ir em s = (Failure e, s') \<Longrightarrow> s' = s"
  using outcome [of s em] by auto

lemma defined: "registers_wf s \<Longrightarrow> apply_ir em s \<noteq> (Undefined, s')"
  using outcome [of s em] by auto

text \<open>A register outside the range of the packet keeps its value.\<close>

lemma frame:
  assumes "registers_wf s" and "get_write (emission_operation em) = Some (start, vs)"
    and "i < unat start \<or> unat start + length vs \<le> i"
  shows "registers (snd (apply_ir em s)) i = registers s i"
  using outcome [OF assms(1), of em] assms by (auto simp: overwrite_def split: prod.splits Result.splits)

end

lemma register_window_apply:
  assumes "\<And>reason. get_write (GraphicsIrUnsupported reason) = None"
  shows "register_window get_write (apply_register_graphics_ir get_write)"
proof
  fix s em
  assume wf: "registers_wf s"
  have w: "unat a + length b \<le> kRegisterStateDwords \<and> registers_wf (write_registers (unat a) b s) \<and>
      registers (write_registers (unat a) b s) = overwrite (unat a) b (registers s)"
    if "\<not> kRegisterStateDwords \<le> unat a" "\<not> kRegisterStateDwords - unat a < length b" for a :: u16 and b
    using write_registers_correct [OF wf, of "unat a" b] that by simp
  show "case apply_register_graphics_ir get_write em s of
        (Success eff, s') \<Rightarrow> \<exists>start vs. get_write (emission_operation em) = Some (start, vs)
          \<and> eff = \<lparr>effect_start_offset = start, effect_value_count = length vs\<rparr>
          \<and> unat start + length vs \<le> kRegisterStateDwords \<and> registers_wf s'
          \<and> registers s' = overwrite (unat start) vs (registers s)
      | (Failure e, s') \<Rightarrow> s' = s
      | (Undefined, s') \<Rightarrow> False"
    by (cases "emission_operation em")
      (simp_all add: w apply_register_graphics_ir_def Let_def assms split: option.split prod.split)
next
  fix em :: GraphicsIrEmission and s start vs
  assume "get_write (emission_operation em) = Some (start, vs)"
    and "unat start + length vs \<le> kRegisterStateDwords" and "unat start < kRegisterStateDwords"
  then show "has_value (fst (apply_register_graphics_ir get_write em s))"
    by (cases "emission_operation em") (auto simp: apply_register_graphics_ir_def assms Let_def)
qed

interpretation shader_window: register_window get_shader_write apply_shader_register_graphics_ir
  unfolding apply_shader_register_graphics_ir_def by (rule register_window_apply) simp

interpretation context_window: register_window get_context_write apply_context_register_graphics_ir
  unfolding apply_context_register_graphics_ir_def by (rule register_window_apply) simp

interpretation user_config_window: register_window get_user_config_write apply_user_config_register_graphics_ir
  unfolding apply_user_config_register_graphics_ir_def by (rule register_window_apply) simp

section \<open>Program addresses\<close>

text \<open>The two program registers give a 48-bit address that is a multiple of 256.\<close>

lemma program_address_value:
  fixes lo hi :: u32
  assumes "hi AND 0xffffff00 = 0"
  shows "unat (push_bit 8 (ucast lo) OR push_bit 40 (ucast (hi AND 0xff)) :: u64) = unat lo * 2 ^ 8 + unat hi * 2 ^ 40"
    and "unat hi < 256"
proof -
  have "(0xffffff00 :: u32) = push_bit 8 (mask 24)" and m8: "(0xff :: u32) = mask 8"
    by (simp_all add: mask_eq_exp_minus_1)
  with assms have tb: "take_bit 8 hi = hi" by (auto simp: bit_eq_iff bit_simps)
  then show hi: "unat hi < 256"
    by (simp add: word_unat_eq_iff unsigned_take_bit_eq take_bit_nat_eq_self_iff)
  have lo: "unat lo < 2 ^ 32" using unsigned_less [of lo] by simp
  have "hi AND 0xff = hi" using tb m8 by (simp add: take_bit_eq_mask)
  then have "unat (push_bit 8 (ucast lo) OR push_bit 40 (ucast (hi AND 0xff)) :: u64)
      = take_bit 64 (push_bit 8 (unat lo)) OR take_bit 64 (push_bit 40 (unat hi))"
    using lo hi by (simp add: unsigned_or_eq unsigned_push_bit_eq unsigned_ucast_eq take_bit_nat_eq_self)
  also have "\<dots> = push_bit 8 (unat lo) OR push_bit 40 (unat hi)"
    using lo hi by (simp add: take_bit_nat_eq_self push_bit_eq_mult)
  also have "\<dots> = unat lo * 2 ^ 8 + unat hi * 2 ^ 40"
    using or_push_bit_add [of "push_bit 8 (unat lo)" 40 "unat hi"] lo by (simp add: push_bit_eq_mult)
  finally show "unat (push_bit 8 (ucast lo) OR push_bit 40 (ucast (hi AND 0xff)) :: u64) = unat lo * 2 ^ 8 + unat hi * 2 ^ 40" .
qed

section \<open>Layouts and images\<close>

lemma checked_multiply_eq: "checked_multiply a b = checked_mul_u64 a b"
  by (simp add: checked_multiply_def checked_mul_u64_def)

lemma checked_multiply_small: "unat a * unat b < 2 ^ 64 \<Longrightarrow> checked_multiply a b = Some (a * b)"
  by (simp add: checked_multiply_eq checked_mul_u64_Some)

text \<open>The least multiple of the alignment that is not below the width.\<close>

definition round_up :: "nat \<Rightarrow> nat \<Rightarrow> nat" where
  "round_up n k = (n + k - 1) div k * k"

lemma round_up_padding:
  assumes "0 < k"
  shows "n + (if n mod k = 0 then 0 else k - n mod k) = round_up n k"
proof (cases "n mod k = 0")
  case True
  then obtain q where "n = q * k" by (metis mod_0_imp_dvd dvd_def mult.commute)
  moreover have "(q * k + k - 1) div k = q"
    by (rule div_nat_eqI) (use assms in \<open>simp_all add: algebra_simps\<close>)
  ultimately show ?thesis by (simp add: round_up_def)
next
  case False
  let ?q = "n div k" and ?r = "n mod k"
  have n: "n = ?q * k + ?r" by simp
  have r: "0 < ?r" "?r < k" using False assms by simp_all
  have "(?q + 1) * k = ?q * k + k" by simp
  with n r have "n + k - 1 = (?q + 1) * k + (?r - 1)" by linarith
  moreover have "((?q + 1) * k + (?r - 1)) div k = ?q + 1 + (?r - 1) div k"
    by (rule div_mult_self3) (use r in simp)
  moreover have "(?r - 1) div k = 0" using r by (intro div_less) linarith
  ultimately have "(n + k - 1) div k = ?q + 1" by simp
  then have "round_up n k = ?q * k + k" by (simp add: round_up_def)
  moreover have "n + (k - ?r) = ?q * k + k" using n r by linarith
  ultimately show ?thesis using False by simp
qed

lemma round_up_ge: "0 < k \<Longrightarrow> n \<le> round_up n k"
  using round_up_padding [of k n] by (metis le_add1)

lemma round_up_less: "0 < k \<Longrightarrow> round_up n k < n + k"
  using round_up_padding [of k n] mod_less_divisor [of k n] by (auto split: if_splits)

lemma round_up_dvd: "k dvd round_up n k"
  by (simp add: round_up_def)

text \<open>
  The layout of a four-byte format of at most 2^14 by 2^14 pixels: the pitch is the width rounded up
  to 64 pixels, and the byte counts are the exact products.
\<close>

lemma layout_rgba8:
  assumes "0 < w" and "0 < h" and w: "unat w \<le> 2 ^ 14" and h: "unat h \<le> 2 ^ 14"
  obtains l where "compute_gfx10_aligned_linear_2d_layout w h 4 = Success l"
    and "unat (layout_pitch_pixels l) = round_up (unat w) 64"
    and "unat (layout_pitch_bytes l) = 4 * round_up (unat w) 64"
    and "unat (layout_surface_byte_count l) = 4 * round_up (unat w) 64 * unat h"
    and "layout_base_alignment_bytes l = 256"
proof -
  define pad where "pad = (if w mod 64 = 0 then 0 else 64 - w mod 64)"
  have modw: "unat (w mod 64) = unat w mod 64" by (simp add: unat_mod)
  have "unat pad = (if unat w mod 64 = 0 then 0 else 64 - unat w mod 64)"
  proof (cases "w mod 64 = 0")
    case True
    with modw show ?thesis by (simp add: pad_def)
  next
    case False
    have "unat (w mod 64) \<le> 64" using modw by simp
    then have "unat (64 - w mod 64) = 64 - unat (w mod 64)"
      by (subst unat_sub) (simp_all add: word_le_nat_alt)
    with False modw show ?thesis by (simp add: pad_def word_unat_eq_iff)
  qed
  then have pad: "unat w + unat pad = round_up (unat w) 64"
    using round_up_padding [of 64 "unat w"] by simp
  have lt: "round_up (unat w) 64 < 2 ^ 15" using round_up_less [of 64 "unat w"] w by simp
  have up: "unat (w + pad) = round_up (unat w) 64"
    using pad lt by (subst unat_plus_if') auto
  have "\<not> w > 0xffffffff - pad"
    using pad lt by (simp add: word_less_nat_alt unat_sub_if' split: if_splits)
  moreover have pitch: "unat (ucast (w + pad) :: u64) = round_up (unat w) 64" using up by (simp add: unat_ucast_up)
  then have m1: "checked_multiply (ucast (w + pad)) 4 = Some (ucast (w + pad) * 4)"
    using lt by (intro checked_multiply_small) simp
  have pb: "unat (ucast (w + pad) * 4 :: u64) = 4 * round_up (unat w) 64"
    using pitch lt by (subst unat_mult_no_wrap) simp_all
  have hh: "unat (ucast h :: u64) = unat h" by (simp add: unat_ucast_up)
  have "4 * round_up (unat w) 64 * unat h \<le> (4 * 2 ^ 15) * 2 ^ 14"
    using lt h by (intro mult_le_mono) simp_all
  then have prod: "unat (ucast (w + pad) * 4 :: u64) * unat (ucast h :: u64) < 2 ^ 64" using pb hh by simp
  then have m2: "checked_multiply (ucast (w + pad) * 4) (ucast h) = Some (ucast (w + pad) * 4 * ucast h)"
    by (rule checked_multiply_small)
  have sb: "unat (ucast (w + pad) * 4 * ucast h :: u64) = 4 * round_up (unat w) 64 * unat h"
    using prod pb hh by (subst unat_mult_no_wrap) simp_all
  have div4: "(256 :: u32) div 4 = 64" "(256 :: u32) mod 4 = 0" by (simp_all add: word_unat_eq_iff unat_div unat_mod)
  show ?thesis
  proof (rule that)
    show "compute_gfx10_aligned_linear_2d_layout w h 4 = Success
      \<lparr>layout_width = w, layout_height = h, layout_bytes_per_element = 4, layout_pitch_alignment_pixels = 64,
       layout_pitch_pixels = w + pad, layout_pitch_bytes = ucast (w + pad) * 4, layout_base_alignment_bytes = 256,
       layout_surface_byte_count = ucast (w + pad) * 4 * ucast h\<rparr>"
      using assms(1,2) calculation m1 m2 div4
      by (simp add: compute_gfx10_aligned_linear_2d_layout_def Let_def div4 pad_def [symmetric] word_gt_0)
  qed (simp_all add: up pb sb)
qed

text \<open>A decoded target has at most 2^14 by 2^14 pixels and a base address that is a multiple of 256.\<close>

lemma resolved_target_bounds:
  assumes "resolve_color_target0_context_state s = Success t"
  shows "0 < target_width t" "unat (target_width t) \<le> 2 ^ 14" "0 < target_height t" "unat (target_height t) \<le> 2 ^ 14"
    "target_base_address t mod 256 = 0"
proof -
  let ?u = "push_bit 32 (ucast (register_values s ! 0x390)) OR ucast (register_values s ! 0x318) :: u64"
    and ?a = "register_values s ! 0x3b0"
  from assms have t: "target_width t = (drop_bit 14 ?a AND 0x3fff) + 1" "target_height t = (?a AND 0x3fff) + 1"
    "target_base_address t = push_bit 8 ?u"
    by (auto simp: resolve_color_target0_context_state_def Let_def split: if_splits)
  have small: "unat ((w AND 0x3fff) + 1) \<le> 2 ^ 14 \<and> 0 < (w AND 0x3fff) + 1" for w :: u32
  proof -
    have "(0x3fff :: u32) = mask 14" by (simp add: mask_eq_exp_minus_1)
    then have "unat (w AND 0x3fff) = unat w mod 2 ^ 14"
      by (simp only: take_bit_eq_mask [symmetric] unsigned_take_bit_eq) (simp add: take_bit_eq_mod)
    then have "unat (w AND 0x3fff) < 2 ^ 14" by simp
    then have "unat ((w AND 0x3fff) + 1) = unat (w AND 0x3fff) + 1" by (subst unat_plus_if') simp
    with \<open>unat (w AND 0x3fff) < 2 ^ 14\<close> show ?thesis by (simp add: word_less_nat_alt)
  qed
  show "0 < target_width t" "unat (target_width t) \<le> 2 ^ 14" "0 < target_height t" "unat (target_height t) \<le> 2 ^ 14"
    using small [of "drop_bit 14 ?a"] small [of ?a] by (simp_all add: t(1,2))
  have "u * 256 mod 256 = 0" for u :: u64
    by (simp add: word_unat_eq_iff unat_mod unat_word_ariths mod_mod_cancel)
  from this [of ?u] show "target_base_address t mod 256 = 0" unfolding t(3) push_bit_eq_mult by simp
qed

text \<open>The fields a target must have to be accepted.\<close>

definition linear_rgba8_target :: "ColorTarget0ContextState \<Rightarrow> bool" where
  "linear_rgba8_target t \<longleftrightarrow> target_endian t = 0 \<and> target_format t = 10 \<and> target_number_type t = 0
     \<and> target_component_swap t = 0 \<and> \<not> target_linear_general t \<and> \<not> target_fast_clear t \<and> \<not> target_compression t
     \<and> \<not> target_fmask_compression_disable t \<and> \<not> target_fmask_compress_one_fragment t \<and> \<not> target_dcc_enabled t
     \<and> \<not> target_cmask_is_linear t \<and> target_cmask_address_type t = 0 \<and> \<not> target_nbc_tiling t
     \<and> target_color_sw_mode t = 0 \<and> target_resource_type t = 1"

definition rgba8_image_of :: "ColorTarget0ContextState \<Rightarrow> GuestGpuImageDescriptor \<Rightarrow> bool" where
  "rgba8_image_of t d \<longleftrightarrow>
     image_base_address d = target_base_address t \<and> image_width d = target_width t \<and> image_height d = target_height t
     \<and> image_bytes_per_pixel d = 4
     \<and> unat (image_logical_byte_count d) = 4 * unat (target_width t) * unat (target_height t)
     \<and> unat (surface_pitch_pixels (image_layout d)) = round_up (unat (target_width t)) 64
     \<and> unat (surface_pitch_bytes (image_layout d)) = 4 * round_up (unat (target_width t)) 64
     \<and> surface_base_alignment_bytes (image_layout d) = 256
     \<and> unat (surface_surface_byte_count (image_layout d)) = 4 * round_up (unat (target_width t)) 64 * unat (target_height t)"

lemma image_of_resolved_target:
  assumes "resolve_color_target0_context_state s = Success t" and "linear_rgba8_target t"
  obtains d where "plan_gfx10_linear_rgba8_unorm_color_target_image t = Success d" and "rgba8_image_of t d"
proof -
  note b = resolved_target_bounds [OF assms(1)]
  let ?w = "target_width t" and ?h = "target_height t"
  obtain l where l: "compute_gfx10_aligned_linear_2d_layout ?w ?h 4 = Success l"
    "unat (layout_pitch_pixels l) = round_up (unat ?w) 64"
    "unat (layout_pitch_bytes l) = 4 * round_up (unat ?w) 64"
    "unat (layout_surface_byte_count l) = 4 * round_up (unat ?w) 64 * unat ?h"
    "layout_base_alignment_bytes l = 256"
    using layout_rgba8 [OF b(1,3,2,4)] by metis
  have "unat ?w * unat ?h \<le> 2 ^ 14 * 2 ^ 14" using b(2,4) by (rule mult_le_mono)
  then have prod: "unat (ucast ?w :: u64) * unat (ucast ?h :: u64) \<le> 2 ^ 28" by (simp add: unat_ucast_up)
  then have m1: "checked_multiply (ucast ?w) (ucast ?h) = Some (ucast ?w * ucast ?h)"
    by (intro checked_multiply_small) simp
  have px: "unat (ucast ?w * ucast ?h :: u64) = unat ?w * unat ?h"
    using prod by (subst unat_mult_no_wrap) (simp_all add: unat_ucast_up)
  then have fits: "unat (ucast ?w * ucast ?h :: u64) * unat (4 :: u64) < 2 ^ 64"
    using \<open>unat ?w * unat ?h \<le> 2 ^ 14 * 2 ^ 14\<close> unfolding px by (simp add: mult.commute)
  then have m2: "checked_multiply (ucast ?w * ucast ?h) 4 = Some (ucast ?w * ucast ?h * 4)"
    by (rule checked_multiply_small)
  have lb: "unat (ucast ?w * ucast ?h * 4 :: u64) = 4 * unat ?w * unat ?h"
    using unat_mult_no_wrap [OF fits] unfolding px by simp
  have up: "round_up (unat ?w) 64 < 2 ^ 15" using round_up_less [of 64 "unat ?w"] b(2) by simp
  then have pitch: "\<not> layout_pitch_bytes l > 0xffffffff" using l(3) by (simp add: word_less_nat_alt)
  have pb: "unat (ucast (layout_pitch_bytes l) :: u32) = 4 * round_up (unat ?w) 64"
    using l(3) up by (simp add: unsigned_ucast_eq take_bit_nat_eq_self)
  let ?d = "\<lparr>image_base_address = target_base_address t, image_format = r8g8b8a8_unorm, image_width = ?w,
      image_height = ?h, image_bytes_per_pixel = 4, image_logical_byte_count = ucast ?w * ucast ?h * 4,
      image_layout = \<lparr>surface_kind = gfx10_aligned_linear, surface_pitch_pixels = layout_pitch_pixels l,
        surface_pitch_bytes = ucast (layout_pitch_bytes l), surface_base_alignment_bytes = layout_base_alignment_bytes l,
        surface_surface_byte_count = layout_surface_byte_count l\<rparr>\<rparr>"
  show ?thesis
  proof (rule that [of ?d])
    show "plan_gfx10_linear_rgba8_unorm_color_target_image t = Success ?d"
      using assms(2) b(5) l m1 m2 pitch
      by (simp add: plan_gfx10_linear_rgba8_unorm_color_target_image_def linear_rgba8_target_def Let_def)
    show "rgba8_image_of t ?d" using l lb pb by (simp add: rgba8_image_of_def)
  qed
qed

lemma image_of_other_target:
  assumes "\<not> linear_rgba8_target t"
  shows "\<exists>e. plan_gfx10_linear_rgba8_unorm_color_target_image t = Failure e"
  using assms by (simp add: plan_gfx10_linear_rgba8_unorm_color_target_image_def linear_rgba8_target_def Let_def) meson

section \<open>Properties\<close>

text \<open>
  C28. The color target of a draw. When the context registers decode to a target, the image planned
  for it has the decoded base address and dimensions, a pitch that is the width rounded up to the
  next multiple of 64 pixels (256 bytes), and byte counts that are the exact products, without
  wrap-around; it is refused exactly when one of the decoded fields is outside the supported linear
  RGBA8 profile, so the overflow, layout and alignment errors never occur for a decoded target.
\<close>

theorem color_target_image_correct:
  "case resolve_color_target0_context_state s of
     Undefined \<Rightarrow> False
   | Failure e \<Rightarrow> True
   | Success t \<Rightarrow> (case plan_gfx10_linear_rgba8_unorm_color_target_image t of
         Undefined \<Rightarrow> False
       | Success d \<Rightarrow> linear_rgba8_target t \<and> rgba8_image_of t d
       | Failure e \<Rightarrow> \<not> linear_rgba8_target t)"
proof -
  have "resolve_color_target0_context_state s \<noteq> Undefined"
    by (simp add: resolve_color_target0_context_state_def Let_def)
  moreover have "case plan_gfx10_linear_rgba8_unorm_color_target_image t of
         Undefined \<Rightarrow> False
       | Success d \<Rightarrow> linear_rgba8_target t \<and> rgba8_image_of t d
       | Failure e \<Rightarrow> \<not> linear_rgba8_target t" if t: "resolve_color_target0_context_state s = Success t" for t
  proof (cases "linear_rgba8_target t")
    case True
    then obtain d where "plan_gfx10_linear_rgba8_unorm_color_target_image t = Success d" "rgba8_image_of t d"
      by (rule image_of_resolved_target [OF t])
    with True show ?thesis by simp
  next
    case False
    with image_of_other_target [OF False] show ?thesis by auto
  qed
  ultimately show ?thesis by (auto split: Result.split)
qed

end
