(* ===== verification/Raster_Submission.thy ===== *)
theory Raster_Submission
  imports Gpu_Registers
begin

text \<open>
  The first raster submission (sce_agc_first_raster_submission.cpp): a captured command buffer is
  framed, its packets are lowered and applied to the three register windows in order, the state is
  snapshotted at the single draw, and the snapshot is decoded into a plan. Every value of the plan is
  recorded together with the word of the command buffer it came from.
\<close>

section \<open>Data\<close>

record SceAgcDcbSubmission =
  submission_submit_description_address :: u64
  submission_command_words_address :: u64
  submission_word_count :: u32
  submission_flag :: u8
  submission_raw_submit_description :: "u8 list"
  submission_opaque_padding :: "u8 list"
  submission_command_buffer_bytes :: "u8 list"

record SceAgcRasterPacketSource =
  source_frame_index :: nat
  source_packet_word_offset :: nat
  source_value_word_offset :: nat

type_synonym source = "SceAgcRasterPacketSource option"

record ColorTargetSourceSnapshot =
  target_mask_source :: source
  base_source :: source
  info_source :: source
  base_ext_source :: source
  attrib2_source :: source
  attrib3_source :: source

record DrawSnapshot =
  snapshot_shader_register_state :: RegisterState
  snapshot_context_register_state :: RegisterState
  snapshot_user_config_register_state :: RegisterState
  snapshot_instances :: u32
  snapshot_draw :: "u32 \<times> u32"
  snapshot_geometry_pgm_lo_source :: source
  snapshot_geometry_pgm_hi_source :: source
  snapshot_pixel_pgm_lo_source :: source
  snapshot_pixel_pgm_hi_source :: source
  snapshot_primitive_type_source :: source
  snapshot_instances_source :: SceAgcRasterPacketSource
  snapshot_draw_source :: SceAgcRasterPacketSource
  snapshot_color_target_sources :: ColorTargetSourceSnapshot

record SceAgcColorTargetPacketSources =
  packet_target_mask_source :: SceAgcRasterPacketSource
  packet_base_source :: SceAgcRasterPacketSource
  packet_info_source :: SceAgcRasterPacketSource
  packet_base_ext_source :: SceAgcRasterPacketSource
  packet_attrib2_source :: SceAgcRasterPacketSource
  packet_attrib3_source :: SceAgcRasterPacketSource

record SceAgcFirstRasterSubmissionPlan =
  plan_shader_register_state :: RegisterState
  plan_context_register_state :: RegisterState
  plan_user_config_register_state :: RegisterState
  plan_geometry_program_address :: u64
  plan_pixel_program_address :: u64
  plan_color_target_state :: ColorTarget0ContextState
  plan_color_target_image :: GuestGpuImageDescriptor
  plan_draw :: FirstRasterDrawPlan
  plan_geometry_pgm_lo_source :: SceAgcRasterPacketSource
  plan_geometry_pgm_hi_source :: SceAgcRasterPacketSource
  plan_pixel_pgm_lo_source :: SceAgcRasterPacketSource
  plan_pixel_pgm_hi_source :: SceAgcRasterPacketSource
  plan_primitive_type_source :: SceAgcRasterPacketSource
  plan_instances_source :: SceAgcRasterPacketSource
  plan_draw_source :: SceAgcRasterPacketSource
  plan_color_target_sources :: SceAgcColorTargetPacketSources

datatype SceAgcFirstRasterSubmissionErrorCode =
    unsupported_submit_flag
  | pm4_framing_failure
  | unsupported_type3_header_control_bits
  | unsupported_opcode
  | set_sh_lowering_failure
  | shader_register_apply_failure
  | set_context_lowering_failure
  | context_register_apply_failure
  | set_uconfig_lowering_failure
  | user_config_register_apply_failure
  | draw_control_lowering_failure
  | missing_instance_count_before_draw
  | multiple_draws
  | missing_draw
  | geometry_program_address_failure
  | pixel_program_address_failure
  | missing_program_register_provenance
  | missing_primitive_provenance
  | missing_color_target_provenance
  | draw_plan_failure
  | color_target_decode_failure
  | color_target_image_failure

text \<open>The detail errors of the optional fields of the error struct, of which at most one is set.\<close>

datatype Raster_error_detail =
    No_detail
  | Framing_detail Pm4Type3FrameError
  | Set_reg_detail Pm4SetRegLowerError
  | Apply_detail RegisterApplyError
  | Draw_control_detail Pm4DrawControlLowerError
  | Program_address_detail ProgramAddressError
  | Draw_plan_detail FirstRasterDrawPlanError
  | Color_target_detail ColorTarget0ContextError
  | Color_target_image_detail Gfx10ColorTargetImageError

record SceAgcFirstRasterSubmissionError =
  raster_error_code :: SceAgcFirstRasterSubmissionErrorCode
  raster_error_submit_flag :: u8
  raster_error_frame_index :: "nat option"
  raster_error_word_offset :: "nat option"
  raster_error_opcode :: u8
  raster_error_type3_header_control_bits :: u8
  raster_error_detail :: Raster_error_detail

definition make_raster_error :: "SceAgcFirstRasterSubmissionErrorCode \<Rightarrow> SceAgcFirstRasterSubmissionError" where
  "make_raster_error code =
     \<lparr>raster_error_code = code, raster_error_submit_flag = 0, raster_error_frame_index = None,
      raster_error_word_offset = None, raster_error_opcode = 0, raster_error_type3_header_control_bits = 0,
      raster_error_detail = No_detail\<rparr>"

text \<open>The error of a frame: its index, its offset and its opcode.\<close>

definition raster_frame_error ::
  "SceAgcFirstRasterSubmissionErrorCode \<Rightarrow> nat \<Rightarrow> Pm4Type3Frame \<Rightarrow> Raster_error_detail \<Rightarrow> SceAgcFirstRasterSubmissionError" where
  "raster_frame_error code frame_index frame detail =
     (make_raster_error code)
       \<lparr>raster_error_frame_index := Some frame_index, raster_error_word_offset := Some (frame_word_offset frame),
        raster_error_opcode := header_opcode (frame_header frame), raster_error_detail := detail\<rparr>"

definition raster_detail_error ::
  "SceAgcFirstRasterSubmissionErrorCode \<Rightarrow> Raster_error_detail \<Rightarrow> SceAgcFirstRasterSubmissionError" where
  "raster_detail_error code detail = (make_raster_error code)\<lparr>raster_error_detail := detail\<rparr>"

section \<open>Recording where a register value came from\<close>

definition record_register_source ::
  "(GraphicsIrOperation \<Rightarrow> (u16 \<times> u32 list) option) \<Rightarrow> GraphicsIrEmission \<Rightarrow> nat \<Rightarrow> nat \<Rightarrow> source \<Rightarrow> source" where
  "record_register_source get_write emission frame_index target output =
     (case get_write (emission_operation emission) of
        None \<Rightarrow> output
      | Some (start_offset, values) \<Rightarrow>
          let start = unat start_offset in
          if target < start \<or> target - start \<ge> length values then output
          else
            let value_index = target - start;
                packet_word_offset = extent_word_offset (packet_extent (emission_source_packet emission)) in
            Some \<lparr>source_frame_index = frame_index, source_packet_word_offset = packet_word_offset,
                  source_value_word_offset = packet_word_offset + 2 + value_index\<rparr>)"

definition record_shader_register_source :: "GraphicsIrEmission \<Rightarrow> nat \<Rightarrow> nat \<Rightarrow> source \<Rightarrow> source" where
  "record_shader_register_source = record_register_source get_shader_write"

definition record_context_register_source :: "GraphicsIrEmission \<Rightarrow> nat \<Rightarrow> nat \<Rightarrow> source \<Rightarrow> source" where
  "record_context_register_source = record_register_source get_context_write"

definition record_uconfig_register_source :: "GraphicsIrEmission \<Rightarrow> nat \<Rightarrow> nat \<Rightarrow> source \<Rightarrow> source" where
  "record_uconfig_register_source = record_register_source get_user_config_write"

definition complete_color_target_sources :: "ColorTargetSourceSnapshot \<Rightarrow> bool" where
  "complete_color_target_sources sources \<longleftrightarrow>
     target_mask_source sources \<noteq> None \<and> base_source sources \<noteq> None \<and> info_source sources \<noteq> None
     \<and> base_ext_source sources \<noteq> None \<and> attrib2_source sources \<noteq> None \<and> attrib3_source sources \<noteq> None"

section \<open>The loop over the frames\<close>

text \<open>The local variables of the function.\<close>

record Raster_state =
  shader_state :: RegisterState
  context_state :: RegisterState
  user_config_state :: RegisterState
  current_instances :: "u32 option"
  current_instances_source :: source
  geometry_pgm_lo_source :: source
  geometry_pgm_hi_source :: source
  pixel_pgm_lo_source :: source
  pixel_pgm_hi_source :: source
  primitive_type_source :: source
  color_target_sources :: ColorTargetSourceSnapshot
  draw_snapshot :: "DrawSnapshot option"

definition initial_raster_state :: Raster_state where
  "initial_raster_state =
     \<lparr>shader_state = empty_registers, context_state = empty_registers, user_config_state = empty_registers,
      current_instances = None, current_instances_source = None,
      geometry_pgm_lo_source = None, geometry_pgm_hi_source = None,
      pixel_pgm_lo_source = None, pixel_pgm_hi_source = None, primitive_type_source = None,
      color_target_sources = \<lparr>target_mask_source = None, base_source = None, info_source = None,
        base_ext_source = None, attrib2_source = None, attrib3_source = None\<rparr>,
      draw_snapshot = None\<rparr>"

type_synonym raster_step = "(Raster_state, SceAgcFirstRasterSubmissionError) Result"

definition raster_set_sh :: "host_allocator \<Rightarrow> nat \<Rightarrow> Pm4Type3Frame \<Rightarrow> Raster_state \<Rightarrow> raster_step" where
  "raster_set_sh alloc frame_index frame st =
     and_then (lower_pm4_set_sh_reg_frame_to_graphics_ir alloc frame)
       (\<lambda>e. raster_frame_error set_sh_lowering_failure frame_index frame (Set_reg_detail e))
       (\<lambda>emission. case apply_shader_register_graphics_ir emission (shader_state st) of (applied, new_state) \<Rightarrow>
         and_then applied
           (\<lambda>e. raster_frame_error shader_register_apply_failure frame_index frame (Apply_detail e))
           (\<lambda>effect. Success (st
             \<lparr>shader_state := new_state,
              geometry_pgm_lo_source := record_shader_register_source emission frame_index
                kGeometryEsProgramLoRegisterOffset (geometry_pgm_lo_source st),
              geometry_pgm_hi_source := record_shader_register_source emission frame_index
                kGeometryEsProgramHiRegisterOffset (geometry_pgm_hi_source st),
              pixel_pgm_lo_source := record_shader_register_source emission frame_index
                kPixelProgramLoRegisterOffset (pixel_pgm_lo_source st),
              pixel_pgm_hi_source := record_shader_register_source emission frame_index
                kPixelProgramHiRegisterOffset (pixel_pgm_hi_source st)\<rparr>)))"

definition record_color_target_sources ::
  "GraphicsIrEmission \<Rightarrow> nat \<Rightarrow> ColorTargetSourceSnapshot \<Rightarrow> ColorTargetSourceSnapshot" where
  "record_color_target_sources emission frame_index sources =
     \<lparr>target_mask_source = record_context_register_source emission frame_index
        kColorTargetMaskContextOffset (target_mask_source sources),
      base_source = record_context_register_source emission frame_index
        kColorTarget0BaseContextOffset (base_source sources),
      info_source = record_context_register_source emission frame_index
        kColorTarget0InfoContextOffset (info_source sources),
      base_ext_source = record_context_register_source emission frame_index
        kColorTarget0BaseExtContextOffset (base_ext_source sources),
      attrib2_source = record_context_register_source emission frame_index
        kColorTarget0Attrib2ContextOffset (attrib2_source sources),
      attrib3_source = record_context_register_source emission frame_index
        kColorTarget0Attrib3ContextOffset (attrib3_source sources)\<rparr>"

definition raster_set_context :: "host_allocator \<Rightarrow> nat \<Rightarrow> Pm4Type3Frame \<Rightarrow> Raster_state \<Rightarrow> raster_step" where
  "raster_set_context alloc frame_index frame st =
     and_then (lower_pm4_set_context_reg_frame_to_graphics_ir alloc frame)
       (\<lambda>e. raster_frame_error set_context_lowering_failure frame_index frame (Set_reg_detail e))
       (\<lambda>emission. case apply_context_register_graphics_ir emission (context_state st) of (applied, new_state) \<Rightarrow>
         and_then applied
           (\<lambda>e. raster_frame_error context_register_apply_failure frame_index frame (Apply_detail e))
           (\<lambda>effect. Success (st
             \<lparr>context_state := new_state,
              color_target_sources := record_color_target_sources emission frame_index (color_target_sources st)\<rparr>)))"

definition raster_set_uconfig :: "host_allocator \<Rightarrow> nat \<Rightarrow> Pm4Type3Frame \<Rightarrow> Raster_state \<Rightarrow> raster_step" where
  "raster_set_uconfig alloc frame_index frame st =
     and_then (lower_pm4_set_uconfig_reg_frame_to_graphics_ir alloc frame)
       (\<lambda>e. raster_frame_error set_uconfig_lowering_failure frame_index frame (Set_reg_detail e))
       (\<lambda>emission. case apply_user_config_register_graphics_ir emission (user_config_state st) of (applied, new_state) \<Rightarrow>
         and_then applied
           (\<lambda>e. raster_frame_error user_config_register_apply_failure frame_index frame (Apply_detail e))
           (\<lambda>effect. Success (st
             \<lparr>user_config_state := new_state,
              primitive_type_source := record_uconfig_register_source emission frame_index
                kFirstRasterPrimitiveTypeUconfigOffset (primitive_type_source st)\<rparr>)))"

definition draw_packet_source :: "nat \<Rightarrow> Pm4Type3Frame \<Rightarrow> SceAgcRasterPacketSource" where
  "draw_packet_source frame_index frame =
     \<lparr>source_frame_index = frame_index, source_packet_word_offset = frame_word_offset frame,
      source_value_word_offset = frame_word_offset frame + 1\<rparr>"

definition take_snapshot ::
  "Raster_state \<Rightarrow> u32 \<Rightarrow> SceAgcRasterPacketSource \<Rightarrow> u32 \<times> u32 \<Rightarrow> SceAgcRasterPacketSource \<Rightarrow> DrawSnapshot" where
  "take_snapshot st instances instances_source draw draw_source =
     \<lparr>snapshot_shader_register_state = shader_state st,
      snapshot_context_register_state = context_state st,
      snapshot_user_config_register_state = user_config_state st,
      snapshot_instances = instances,
      snapshot_draw = draw,
      snapshot_geometry_pgm_lo_source = geometry_pgm_lo_source st,
      snapshot_geometry_pgm_hi_source = geometry_pgm_hi_source st,
      snapshot_pixel_pgm_lo_source = pixel_pgm_lo_source st,
      snapshot_pixel_pgm_hi_source = pixel_pgm_hi_source st,
      snapshot_primitive_type_source = primitive_type_source st,
      snapshot_instances_source = instances_source,
      snapshot_draw_source = draw_source,
      snapshot_color_target_sources = color_target_sources st\<rparr>"

definition raster_draw_control :: "nat \<Rightarrow> Pm4Type3Frame \<Rightarrow> Raster_state \<Rightarrow> raster_step" where
  "raster_draw_control frame_index frame st =
     and_then (lower_pm4_draw_control_frame_to_graphics_ir frame)
       (\<lambda>e. raster_frame_error draw_control_lowering_failure frame_index frame (Draw_control_detail e))
       (\<lambda>emission. case emission_operation emission of
          GraphicsIrSetInstanceCount instances \<Rightarrow> Success (st
            \<lparr>current_instances := Some instances,
             current_instances_source := Some (draw_packet_source frame_index frame)\<rparr>)
        | GraphicsIrDrawIndexAuto index_count initiator \<Rightarrow>
            if draw_snapshot st \<noteq> None
            then Failure (raster_frame_error multiple_draws frame_index frame No_detail)
            else (case (current_instances st, current_instances_source st) of
                (Some instances, Some instances_source) \<Rightarrow> Success (st
                  \<lparr>draw_snapshot := Some (take_snapshot st instances instances_source (index_count, initiator)
                     (draw_packet_source frame_index frame))\<rparr>)
              | _ \<Rightarrow> Failure (raster_frame_error missing_instance_count_before_draw frame_index frame No_detail))
        | _ \<Rightarrow> Failure (raster_frame_error unsupported_opcode frame_index frame No_detail))"

definition raster_frame :: "host_allocator \<Rightarrow> nat \<Rightarrow> Pm4Type3Frame \<Rightarrow> Raster_state \<Rightarrow> raster_step" where
  "raster_frame alloc frame_index frame st =
     (let opcode = header_opcode (frame_header frame) in
      if header_low_control_bits (frame_header frame) \<noteq> 0
      then Failure ((raster_frame_error unsupported_type3_header_control_bits frame_index frame No_detail)
             \<lparr>raster_error_type3_header_control_bits := header_low_control_bits (frame_header frame)\<rparr>)
      else if opcode = kPm4SetShRegOpcode then raster_set_sh alloc frame_index frame st
      else if opcode = kPm4SetContextRegOpcode then raster_set_context alloc frame_index frame st
      else if opcode = kPm4SetUconfigRegOpcode then raster_set_uconfig alloc frame_index frame st
      else if opcode = kPm4NumInstancesOpcode \<or> opcode = kPm4DrawIndexAutoOpcode
      then raster_draw_control frame_index frame st
      else Failure (raster_frame_error unsupported_opcode frame_index frame No_detail))"

primrec raster_loop :: "host_allocator \<Rightarrow> nat \<Rightarrow> Pm4Type3Frame list \<Rightarrow> Raster_state \<Rightarrow> raster_step" where
  "raster_loop alloc frame_index [] st = Success st"
| "raster_loop alloc frame_index (frame # fs) st =
     with_value (raster_frame alloc frame_index frame st) (raster_loop alloc (frame_index + 1) fs)"

section \<open>The plan\<close>

definition plan_snapshot ::
  "DrawSnapshot \<Rightarrow> (SceAgcFirstRasterSubmissionPlan, SceAgcFirstRasterSubmissionError) Result" where
  "plan_snapshot snapshot =
     and_then (resolve_geometry_es_program_address (snapshot_shader_register_state snapshot))
       (\<lambda>e. raster_detail_error geometry_program_address_failure (Program_address_detail e)) (\<lambda>geometry_address.
     and_then (resolve_pixel_program_address (snapshot_shader_register_state snapshot))
       (\<lambda>e. raster_detail_error pixel_program_address_failure (Program_address_detail e)) (\<lambda>pixel_address.
     case (snapshot_geometry_pgm_lo_source snapshot, snapshot_geometry_pgm_hi_source snapshot,
           snapshot_pixel_pgm_lo_source snapshot, snapshot_pixel_pgm_hi_source snapshot) of
       (Some geometry_lo, Some geometry_hi, Some pixel_lo, Some pixel_hi) \<Rightarrow>
         and_then (plan_first_raster_draw (snapshot_user_config_register_state snapshot)
                     (snapshot_instances snapshot) (snapshot_draw snapshot))
           (\<lambda>e. raster_detail_error draw_plan_failure (Draw_plan_detail e)) (\<lambda>draw_plan.
         and_then (resolve_color_target0_context_state (snapshot_context_register_state snapshot))
           (\<lambda>e. raster_detail_error color_target_decode_failure (Color_target_detail e)) (\<lambda>color_target.
         and_then (plan_gfx10_linear_rgba8_unorm_color_target_image color_target)
           (\<lambda>e. raster_detail_error color_target_image_failure (Color_target_image_detail e)) (\<lambda>color_target_image.
         case snapshot_primitive_type_source snapshot of
           None \<Rightarrow> Failure (make_raster_error missing_primitive_provenance)
         | Some primitive_type \<Rightarrow>
             let sources = snapshot_color_target_sources snapshot in
             if \<not> complete_color_target_sources sources
             then Failure (make_raster_error missing_color_target_provenance)
             else Success
               \<lparr>plan_shader_register_state = snapshot_shader_register_state snapshot,
                plan_context_register_state = snapshot_context_register_state snapshot,
                plan_user_config_register_state = snapshot_user_config_register_state snapshot,
                plan_geometry_program_address = geometry_address,
                plan_pixel_program_address = pixel_address,
                plan_color_target_state = color_target,
                plan_color_target_image = color_target_image,
                plan_draw = draw_plan,
                plan_geometry_pgm_lo_source = geometry_lo,
                plan_geometry_pgm_hi_source = geometry_hi,
                plan_pixel_pgm_lo_source = pixel_lo,
                plan_pixel_pgm_hi_source = pixel_hi,
                plan_primitive_type_source = primitive_type,
                plan_instances_source = snapshot_instances_source snapshot,
                plan_draw_source = snapshot_draw_source snapshot,
                plan_color_target_sources =
                  \<lparr>packet_target_mask_source = the (target_mask_source sources),
                   packet_base_source = the (base_source sources),
                   packet_info_source = the (info_source sources),
                   packet_base_ext_source = the (base_ext_source sources),
                   packet_attrib2_source = the (attrib2_source sources),
                   packet_attrib3_source = the (attrib3_source sources)\<rparr>\<rparr>)))
     | _ \<Rightarrow> Failure (make_raster_error missing_program_register_provenance)))"

definition plan_sce_agc_first_raster_submission ::
  "Framing_events \<Rightarrow> host_allocator \<Rightarrow> SceAgcDcbSubmission \<Rightarrow>
     (SceAgcFirstRasterSubmissionPlan, SceAgcFirstRasterSubmissionError) Result" where
  "plan_sce_agc_first_raster_submission ev alloc submission =
     (if submission_flag submission \<noteq> 0
      then Failure ((make_raster_error unsupported_submit_flag)\<lparr>raster_error_submit_flag := submission_flag submission\<rparr>)
      else
        and_then (frame_pm4_type3_stream ev (submission_command_buffer_bytes submission))
          (\<lambda>e. (raster_detail_error pm4_framing_failure (Framing_detail e))
                 \<lparr>raster_error_word_offset := Some (frame_error_word_offset e)\<rparr>)
          (\<lambda>framed.
        with_value (raster_loop alloc 0 (frames framed) initial_raster_state) (\<lambda>st.
        case draw_snapshot st of
          None \<Rightarrow> Failure (make_raster_error missing_draw)
        | Some snapshot \<Rightarrow> plan_snapshot snapshot)))"

section \<open>What the packets mean\<close>

text \<open>
  The reference: the registers of a window after a sequence of packets are those of the last packets
  of its opcode that cover them, and the instance count is the body of the last NUM_INSTANCES packet.
\<close>

definition packet_opcode :: "RawPacketWord list \<Rightarrow> u8" where
  "packet_opcode p = header_opcode (make_header (raw_word_value (hd p)))"

definition packet_step :: "u8 \<Rightarrow> RawPacketWord list \<Rightarrow> (nat \<Rightarrow> u32 option) \<Rightarrow> nat \<Rightarrow> u32 option" where
  "packet_step opcode p m =
     (if packet_opcode p = opcode
      then case register_payload kRegisterStateDwords p of
          Some (start, vs) \<Rightarrow> overwrite (unat start) vs m
        | None \<Rightarrow> m
      else m)"

definition window_after :: "u8 \<Rightarrow> RawPacketWord list list \<Rightarrow> nat \<Rightarrow> u32 option" where
  "window_after opcode ps = foldl (\<lambda>m p. packet_step opcode p m) Map.empty ps"

definition instances_after :: "RawPacketWord list list \<Rightarrow> u32 option" where
  "instances_after ps =
     foldl (\<lambda>i p. if packet_opcode p = kPm4NumInstancesOpcode then Some (raw_word_value (p ! 1)) else i) None ps"

lemma window_after_Nil [simp]: "window_after opcode [] = Map.empty"
  by (simp add: window_after_def)

lemma window_after_snoc: "window_after opcode (ps @ [p]) = packet_step opcode p (window_after opcode ps)"
  by (simp add: window_after_def)

lemma window_after_other [simp]:
  "packet_opcode p \<noteq> opcode \<Longrightarrow> window_after opcode (ps @ [p]) = window_after opcode ps"
  by (simp add: window_after_snoc packet_step_def)

lemma instances_after_Nil [simp]: "instances_after [] = None"
  by (simp add: instances_after_def)

lemma instances_after_snoc:
  "instances_after (ps @ [p]) =
     (if packet_opcode p = kPm4NumInstancesOpcode then Some (raw_word_value (p ! 1)) else instances_after ps)"
  by (simp add: instances_after_def)

text \<open>A recorded source names the word of the command buffer that holds the value of a register.\<close>

definition word_is :: "RawPacketWord list \<Rightarrow> SceAgcRasterPacketSource \<Rightarrow> u32 \<Rightarrow> bool" where
  "word_is W q v \<longleftrightarrow> source_value_word_offset q < length W \<and> raw_word_value (W ! source_value_word_offset q) = v"

definition tracks :: "RawPacketWord list \<Rightarrow> (nat \<Rightarrow> u32 option) \<Rightarrow> nat \<Rightarrow> source \<Rightarrow> bool" where
  "tracks W m t src \<longleftrightarrow> (case src of None \<Rightarrow> m t = None | Some q \<Rightarrow> \<exists>v. m t = Some v \<and> word_is W q v)"

lemma tracks_simps [simp]:
  "tracks W m t None \<longleftrightarrow> m t = None"
  "tracks W m t (Some q) \<longleftrightarrow> (\<exists>v. m t = Some v \<and> word_is W q v)"
  by (simp_all add: tracks_def)

text \<open>One register packet: the window and the sources of its registers move together.\<close>

context register_window
begin

lemma register_packet:
  assumes "type3_packet p" and "packet_opcode p = opcode" and "W = pre @ p @ post" and "registers_wf s"
    and get: "\<And>a b. get_write (operation a b) = Some (a, b)"
    and low: "lower_set_reg_frame opcode kRegisterStateDwords operation alloc (frame_at (length pre) p) = Success em"
    and app: "apply_ir em s = (Success eff, s')"
  shows "registers_wf s'" and "registers s' = packet_step opcode p (registers s)"
    and "tracks W (registers s) t src \<Longrightarrow> tracks W (registers s') t (record_register_source get_write em k t src)"
proof -
  obtain start vs where pay: "register_payload kRegisterStateDwords p = Some (start, vs)"
    and em: "emission_operation em = operation start vs" "emission_source_packet em = raw_packet_at (length pre) p"
    using lower_set_reg_frame_eq [OF assms(1), where opcode = opcode and window = kRegisterStateDwords
        and operation = operation and alloc = alloc and off = "length pre"] low assms(2)
    by (auto simp: packet_opcode_def split: if_splits)
  have w: "get_write (emission_operation em) = Some (start, vs)" by (simp add: em get)
  with success [OF assms(4) app] show wf: "registers_wf s'" and "registers s' = packet_step opcode p (registers s)"
    by (auto simp: packet_step_def assms(2) pay)
  have reg: "registers s' = overwrite (unat start) vs (registers s)"
    using success [OF assms(4) app] w by auto
  have vs: "vs = map raw_word_value (drop 2 p)" using pay by (auto simp: register_payload_def split: if_splits)
  show "tracks W (registers s') t (record_register_source get_write em k t src)" if "tracks W (registers s) t src"
  proof (cases "unat start \<le> t \<and> t < unat start + length vs")
    case True
    let ?j = "2 + (t - unat start)"
    have j: "?j < length p" using True vs by auto
    then have "W ! (length pre + ?j) = p ! ?j" and "length pre + ?j < length W"
      by (simp_all add: assms(3) nth_append)
    moreover have "vs ! (t - unat start) = raw_word_value (p ! ?j)" using True vs j by simp
    moreover have "\<not> t < unat start" and "\<not> length vs \<le> t - unat start" using True by linarith+
    then have "record_register_source get_write em k t src = Some \<lparr>source_frame_index = k,
        source_packet_word_offset = length pre, source_value_word_offset = length pre + ?j\<rparr>"
      by (simp add: record_register_source_def w em(2) Let_def)
    ultimately show ?thesis using True by (simp add: tracks_def word_is_def reg overwrite_def)
  next
    case False
    then have "record_register_source get_write em k t src = src" by (auto simp: record_register_source_def w Let_def)
    moreover have "registers s' t = registers s t" using False by (auto simp: reg overwrite_def)
    ultimately show ?thesis using that by (simp add: tracks_def split: option.splits)
  qed
qed

text \<open>Lowering a packet of the opcode and applying it, as each case of the switch does.\<close>

lemma lower_and_apply:
  assumes "type3_packet p" and "packet_opcode p = opcode" and "W = pre @ p @ post" and "registers_wf s"
    and get: "\<And>a b. get_write (operation a b) = Some (a, b)"
    and finish: "\<And>em s'. registers_wf s' \<Longrightarrow> registers s' = packet_step opcode p (registers s) \<Longrightarrow>
      (\<And>t src. tracks W (registers s) t src \<Longrightarrow> tracks W (registers s') t (record_register_source get_write em k t src)) \<Longrightarrow>
      P (finish em s')"
  shows "case and_then (lower_set_reg_frame opcode kRegisterStateDwords operation alloc (frame_at (length pre) p)) h
        (\<lambda>em. case apply_ir em s of (applied, s') \<Rightarrow> and_then applied h' (\<lambda>effect. Success (finish em s'))) of
      Undefined \<Rightarrow> False | Success st \<Rightarrow> P st | Failure e \<Rightarrow> True"
proof -
  let ?r = "lower_set_reg_frame opcode kRegisterStateDwords operation alloc (frame_at (length pre) p)"
  have "?r \<noteq> Undefined"
    using lower_set_reg_frame_eq [OF assms(1), where opcode = opcode and window = kRegisterStateDwords
        and operation = operation and alloc = alloc and off = "length pre"] by auto
  moreover have "P (finish em s')" if "?r = Success em" and "apply_ir em s = (Success eff, s')" for em eff s'
    using register_packet [OF assms(1-4) get that] by (intro finish) auto
  ultimately show ?thesis
    by (auto simp: and_then_def defined [OF assms(4)] split: Result.splits prod.splits)
qed

end

section \<open>The state after a prefix of the packets\<close>

text \<open>The sources of the eleven registers that a plan reads.\<close>

definition register_sources_match ::
  "RawPacketWord list \<Rightarrow> RegisterState \<Rightarrow> RegisterState \<Rightarrow> RegisterState \<Rightarrow> source \<Rightarrow> source \<Rightarrow> source \<Rightarrow> source \<Rightarrow>
     source \<Rightarrow> ColorTargetSourceSnapshot \<Rightarrow> bool" where
  "register_sources_match W sh cx uc geometry_lo geometry_hi pixel_lo pixel_hi primitive targets \<longleftrightarrow>
     tracks W (registers sh) kGeometryEsProgramLoRegisterOffset geometry_lo
     \<and> tracks W (registers sh) kGeometryEsProgramHiRegisterOffset geometry_hi
     \<and> tracks W (registers sh) kPixelProgramLoRegisterOffset pixel_lo
     \<and> tracks W (registers sh) kPixelProgramHiRegisterOffset pixel_hi
     \<and> tracks W (registers uc) kFirstRasterPrimitiveTypeUconfigOffset primitive
     \<and> tracks W (registers cx) kColorTargetMaskContextOffset (target_mask_source targets)
     \<and> tracks W (registers cx) kColorTarget0BaseContextOffset (base_source targets)
     \<and> tracks W (registers cx) kColorTarget0InfoContextOffset (info_source targets)
     \<and> tracks W (registers cx) kColorTarget0BaseExtContextOffset (base_ext_source targets)
     \<and> tracks W (registers cx) kColorTarget0Attrib2ContextOffset (attrib2_source targets)
     \<and> tracks W (registers cx) kColorTarget0Attrib3ContextOffset (attrib3_source targets)"

text \<open>The three windows hold what the packets wrote.\<close>

definition windows_match ::
  "RawPacketWord list list \<Rightarrow> RegisterState \<Rightarrow> RegisterState \<Rightarrow> RegisterState \<Rightarrow> bool" where
  "windows_match ps sh cx uc \<longleftrightarrow> registers_wf sh \<and> registers_wf cx \<and> registers_wf uc
     \<and> registers sh = window_after kPm4SetShRegOpcode ps
     \<and> registers cx = window_after kPm4SetContextRegOpcode ps
     \<and> registers uc = window_after kPm4SetUconfigRegOpcode ps"

definition state_matches :: "RawPacketWord list \<Rightarrow> RawPacketWord list list \<Rightarrow> Raster_state \<Rightarrow> bool" where
  "state_matches W ps st \<longleftrightarrow>
     windows_match ps (shader_state st) (context_state st) (user_config_state st)
     \<and> register_sources_match W (shader_state st) (context_state st) (user_config_state st)
         (geometry_pgm_lo_source st) (geometry_pgm_hi_source st) (pixel_pgm_lo_source st) (pixel_pgm_hi_source st)
         (primitive_type_source st) (color_target_sources st)
     \<and> current_instances st = instances_after ps
     \<and> tracks W (\<lambda>_. current_instances st) 0 (current_instances_source st)"

lemma state_matches_draw_snapshot [simp]:
  "state_matches W ps (st\<lparr>draw_snapshot := x\<rparr>) \<longleftrightarrow> state_matches W ps st"
  by (simp add: state_matches_def)

text \<open>The snapshot of a draw packet \<open>d\<close> that follows the packets \<open>ps\<close>.\<close>

definition snapshot_matches ::
  "RawPacketWord list \<Rightarrow> RawPacketWord list list \<Rightarrow> RawPacketWord list \<Rightarrow> DrawSnapshot \<Rightarrow> bool" where
  "snapshot_matches W ps d sn \<longleftrightarrow>
     windows_match ps (snapshot_shader_register_state sn) (snapshot_context_register_state sn)
       (snapshot_user_config_register_state sn)
     \<and> register_sources_match W (snapshot_shader_register_state sn) (snapshot_context_register_state sn)
         (snapshot_user_config_register_state sn) (snapshot_geometry_pgm_lo_source sn) (snapshot_geometry_pgm_hi_source sn)
         (snapshot_pixel_pgm_lo_source sn) (snapshot_pixel_pgm_hi_source sn) (snapshot_primitive_type_source sn)
         (snapshot_color_target_sources sn)
     \<and> instances_after ps = Some (snapshot_instances sn) \<and> word_is W (snapshot_instances_source sn) (snapshot_instances sn)
     \<and> snapshot_draw sn = (raw_word_value (d ! 1), raw_word_value (d ! 2))
     \<and> word_is W (snapshot_draw_source sn) (raw_word_value (d ! 1))"

definition is_draw :: "RawPacketWord list \<Rightarrow> bool" where
  "is_draw p \<longleftrightarrow> packet_opcode p = kPm4DrawIndexAutoOpcode"

definition raster_inv :: "RawPacketWord list \<Rightarrow> RawPacketWord list list \<Rightarrow> Raster_state \<Rightarrow> bool" where
  "raster_inv W ps st \<longleftrightarrow> state_matches W ps st \<and>
     (case draw_snapshot st of
        None \<Rightarrow> list_all (\<lambda>p. \<not> is_draw p) ps
      | Some sn \<Rightarrow> \<exists>before d after. ps = before @ d # after \<and> is_draw d
          \<and> list_all (\<lambda>p. \<not> is_draw p) before \<and> list_all (\<lambda>p. \<not> is_draw p) after
          \<and> snapshot_matches W before d sn)"

lemma raster_inv_initial: "raster_inv W [] initial_raster_state"
  by (simp add: raster_inv_def state_matches_def windows_match_def register_sources_match_def initial_raster_state_def)

text \<open>A packet that is no draw keeps the snapshot.\<close>

lemma raster_inv_step:
  assumes "raster_inv W ps st" and "\<not> is_draw p" and "state_matches W (ps @ [p]) st'" and "draw_snapshot st' = draw_snapshot st"
  shows "raster_inv W (ps @ [p]) st'"
proof (cases "draw_snapshot st")
  case None
  with assms show ?thesis by (simp add: raster_inv_def)
next
  case (Some sn)
  with assms(1) obtain before d after where "ps = before @ d # after" "is_draw d"
    "list_all (\<lambda>p. \<not> is_draw p) before" "list_all (\<lambda>p. \<not> is_draw p) after" "snapshot_matches W before d sn"
    by (auto simp: raster_inv_def)
  then have "\<exists>before d after. ps @ [p] = before @ d # after \<and> is_draw d \<and> list_all (\<lambda>p. \<not> is_draw p) before
      \<and> list_all (\<lambda>p. \<not> is_draw p) after \<and> snapshot_matches W before d sn"
    by (intro exI [of _ before] exI [of _ d] exI [of _ "after @ [p]"]) (use assms(2) in simp)
  then show ?thesis unfolding raster_inv_def assms(4) Some by (simp only: assms(3) option.case simp_thms)
qed

lemmas sources_simps = register_sources_match_def record_shader_register_source_def record_context_register_source_def
  record_uconfig_register_source_def record_color_target_sources_def

lemma raster_set_sh_inv:
  assumes "raster_inv W ps st" and "type3_packet p" and "packet_opcode p = kPm4SetShRegOpcode" and "W = concat ps @ p @ post"
  shows "case raster_set_sh alloc k (frame_at (length (concat ps)) p) st of
      Undefined \<Rightarrow> False | Success st' \<Rightarrow> raster_inv W (ps @ [p]) st' | Failure e \<Rightarrow> True"
proof -
  have m: "state_matches W ps st" using assms(1) by (simp add: raster_inv_def)
  then have wf: "registers_wf (shader_state st)" by (simp add: state_matches_def windows_match_def)
  show ?thesis
    unfolding raster_set_sh_def lower_pm4_set_sh_reg_frame_to_graphics_ir_def
    by (rule shader_window.lower_and_apply [where k = k, OF assms(2-4) wf], simp, rule raster_inv_step [OF assms(1)])
      (use m assms(3) in \<open>auto simp: is_draw_def state_matches_def windows_match_def sources_simps
        instances_after_snoc window_after_snoc [of kPm4SetShRegOpcode]\<close>)
qed

lemma raster_set_context_inv:
  assumes "raster_inv W ps st" and "type3_packet p" and "packet_opcode p = kPm4SetContextRegOpcode" and "W = concat ps @ p @ post"
  shows "case raster_set_context alloc k (frame_at (length (concat ps)) p) st of
      Undefined \<Rightarrow> False | Success st' \<Rightarrow> raster_inv W (ps @ [p]) st' | Failure e \<Rightarrow> True"
proof -
  have m: "state_matches W ps st" using assms(1) by (simp add: raster_inv_def)
  then have wf: "registers_wf (context_state st)" by (simp add: state_matches_def windows_match_def)
  show ?thesis
    unfolding raster_set_context_def lower_pm4_set_context_reg_frame_to_graphics_ir_def
    by (rule context_window.lower_and_apply [where k = k, OF assms(2-4) wf], simp, rule raster_inv_step [OF assms(1)])
      (use m assms(3) in \<open>auto simp: is_draw_def state_matches_def windows_match_def sources_simps
        instances_after_snoc window_after_snoc [of kPm4SetContextRegOpcode]\<close>)
qed

lemma raster_set_uconfig_inv:
  assumes "raster_inv W ps st" and "type3_packet p" and "packet_opcode p = kPm4SetUconfigRegOpcode" and "W = concat ps @ p @ post"
  shows "case raster_set_uconfig alloc k (frame_at (length (concat ps)) p) st of
      Undefined \<Rightarrow> False | Success st' \<Rightarrow> raster_inv W (ps @ [p]) st' | Failure e \<Rightarrow> True"
proof -
  have m: "state_matches W ps st" using assms(1) by (simp add: raster_inv_def)
  then have wf: "registers_wf (user_config_state st)" by (simp add: state_matches_def windows_match_def)
  show ?thesis
    unfolding raster_set_uconfig_def lower_pm4_set_uconfig_reg_frame_to_graphics_ir_def
    by (rule user_config_window.lower_and_apply [where k = k, OF assms(2-4) wf], simp, rule raster_inv_step [OF assms(1)])
      (use m assms(3) in \<open>auto simp: is_draw_def state_matches_def windows_match_def sources_simps
        instances_after_snoc window_after_snoc [of kPm4SetUconfigRegOpcode]\<close>)
qed

lemma raster_draw_control_inv:
  assumes "raster_inv W ps st" and "type3_packet p"
    and "packet_opcode p = kPm4NumInstancesOpcode \<or> packet_opcode p = kPm4DrawIndexAutoOpcode"
    and "W = concat ps @ p @ post"
  shows "case raster_draw_control k (frame_at (length (concat ps)) p) st of
      Undefined \<Rightarrow> False | Success st' \<Rightarrow> raster_inv W (ps @ [p]) st' | Failure e \<Rightarrow> True"
proof -
  let ?f = "frame_at (length (concat ps)) p"
  have m: "state_matches W ps st" using assms(1) by (simp add: raster_inv_def)
  have word: "word_is W (draw_packet_source k ?f) (raw_word_value (p ! 1))" if "1 < length p"
    using that by (simp add: word_is_def draw_packet_source_def assms(4) nth_append)
  note low = lower_draw_control_eq [OF assms(2), of "length (concat ps)", folded packet_opcode_def, unfolded Let_def]
  show ?thesis
  proof (cases "packet_opcode p = kPm4NumInstancesOpcode")
    case True
    have "raster_inv W (ps @ [p]) (st\<lparr>current_instances := Some (raw_word_value (p ! 1)),
        current_instances_source := Some (draw_packet_source k ?f)\<rparr>)" if "length p = 2"
      by (rule raster_inv_step [OF assms(1)])
        (use m True word that in \<open>auto simp: is_draw_def state_matches_def windows_match_def sources_simps
          instances_after_snoc\<close>)
    with True show ?thesis by (simp add: raster_draw_control_def low)
  next
    case False
    with assms(3) have draw: "packet_opcode p = kPm4DrawIndexAutoOpcode" by simp
    have "raster_inv W (ps @ [p]) (st\<lparr>draw_snapshot := Some (take_snapshot st i q
        (raw_word_value (p ! 1), raw_word_value (p ! 2)) (draw_packet_source k ?f))\<rparr>)"
      if "length p = 3" "draw_snapshot st = None" "current_instances st = Some i" "current_instances_source st = Some q" for i q
    proof -
      have "snapshot_matches W ps p (take_snapshot st i q (raw_word_value (p ! 1), raw_word_value (p ! 2)) (draw_packet_source k ?f))"
        using m that word by (auto simp: snapshot_matches_def take_snapshot_def state_matches_def)
      moreover have "state_matches W (ps @ [p]) st"
        using m draw by (auto simp: state_matches_def windows_match_def instances_after_snoc)
      moreover have "list_all (\<lambda>p. \<not> is_draw p) ps" using assms(1) that by (simp add: raster_inv_def)
      ultimately have "\<exists>before d after. ps @ [p] = before @ d # after \<and> is_draw d
          \<and> list_all (\<lambda>p. \<not> is_draw p) before \<and> list_all (\<lambda>p. \<not> is_draw p) after
          \<and> snapshot_matches W before d (take_snapshot st i q (raw_word_value (p ! 1), raw_word_value (p ! 2)) (draw_packet_source k ?f))"
        by (intro exI [of _ ps] exI [of _ p] exI [of _ "[]"]) (use draw in \<open>simp add: is_draw_def\<close>)
      with \<open>state_matches W (ps @ [p]) st\<close> show ?thesis by (simp add: raster_inv_def)
    qed
    with False draw show ?thesis
      by (simp add: raster_draw_control_def low split: option.split)
  qed
qed

lemma raster_frame_inv:
  assumes "raster_inv W ps st" and "type3_packet p" and "W = concat ps @ p @ post"
  shows "case raster_frame alloc k (frame_at (length (concat ps)) p) st of
      Undefined \<Rightarrow> False | Success st' \<Rightarrow> raster_inv W (ps @ [p]) st' | Failure e \<Rightarrow> True"
  using raster_set_sh_inv [OF assms(1,2) _ assms(3)] raster_set_context_inv [OF assms(1,2) _ assms(3)]
    raster_set_uconfig_inv [OF assms(1,2) _ assms(3)] raster_draw_control_inv [OF assms(1,2) _ assms(3)]
  by (simp add: raster_frame_def packet_opcode_def Let_def)

lemma raster_loop_inv:
  assumes "raster_inv W ps st" and "list_all type3_packet qs" and "W = concat (ps @ qs)"
  shows "case raster_loop alloc k (frames_at (length (concat ps)) qs) st of
      Undefined \<Rightarrow> False | Success st' \<Rightarrow> raster_inv W (ps @ qs) st' | Failure e \<Rightarrow> True"
  using assms
proof (induction qs arbitrary: ps st k)
  case (Cons q qs)
  let ?r = "raster_frame alloc k (frame_at (length (concat ps)) q) st"
  have step: "case ?r of Undefined \<Rightarrow> False | Success st' \<Rightarrow> raster_inv W (ps @ [q]) st' | Failure e \<Rightarrow> True"
    by (rule raster_frame_inv [where post = "concat qs"]) (use Cons.prems in simp_all)
  show ?case
  proof (cases ?r)
    case (Success st')
    with step Cons.prems Cons.IH [of "ps @ [q]" st' "k + 1"] show ?thesis by (simp split: Result.splits)
  next
    case (Failure e)
    then show ?thesis by simp
  next
    case Undefined
    with step show ?thesis by simp
  qed
qed simp

section \<open>The plan of a snapshot\<close>

definition names_value :: "RawPacketWord list \<Rightarrow> (nat \<Rightarrow> u32 option) \<Rightarrow> nat \<Rightarrow> SceAgcRasterPacketSource \<Rightarrow> bool" where
  "names_value W m t q \<longleftrightarrow> (\<exists>v. m t = Some v \<and> word_is W q v)"

text \<open>A program address of the plan: the 48 bits that two registers hold, and the words they came from.\<close>

definition program_address_of ::
  "RawPacketWord list \<Rightarrow> (nat \<Rightarrow> u32 option) \<Rightarrow> nat \<Rightarrow> nat \<Rightarrow> SceAgcRasterPacketSource \<Rightarrow> SceAgcRasterPacketSource \<Rightarrow> u64 \<Rightarrow> bool" where
  "program_address_of W m lo_register hi_register qlo qhi address \<longleftrightarrow>
     (\<exists>lo hi. m lo_register = Some lo \<and> m hi_register = Some hi \<and> unat hi < 256
        \<and> unat address = unat lo * 2 ^ 8 + unat hi * 2 ^ 40 \<and> word_is W qlo lo \<and> word_is W qhi hi)"

definition plan_matches ::
  "RawPacketWord list \<Rightarrow> RawPacketWord list list \<Rightarrow> RawPacketWord list \<Rightarrow> SceAgcFirstRasterSubmissionPlan \<Rightarrow> bool" where
  "plan_matches W ps d pl \<longleftrightarrow>
     windows_match ps (plan_shader_register_state pl) (plan_context_register_state pl) (plan_user_config_register_state pl)
     \<and> program_address_of W (window_after kPm4SetShRegOpcode ps) kGeometryEsProgramLoRegisterOffset
         kGeometryEsProgramHiRegisterOffset (plan_geometry_pgm_lo_source pl) (plan_geometry_pgm_hi_source pl)
         (plan_geometry_program_address pl)
     \<and> program_address_of W (window_after kPm4SetShRegOpcode ps) kPixelProgramLoRegisterOffset
         kPixelProgramHiRegisterOffset (plan_pixel_pgm_lo_source pl) (plan_pixel_pgm_hi_source pl)
         (plan_pixel_program_address pl)
     \<and> plan_draw pl = \<lparr>draw_primitive_type_raw = 4, draw_instance_count = 1, draw_index_count = 3, draw_initiator_raw = 2\<rparr>
     \<and> window_after kPm4SetUconfigRegOpcode ps kFirstRasterPrimitiveTypeUconfigOffset = Some 4
     \<and> word_is W (plan_primitive_type_source pl) 4
     \<and> instances_after ps = Some 1 \<and> word_is W (plan_instances_source pl) 1
     \<and> raw_word_value (d ! 1) = 3 \<and> raw_word_value (d ! 2) = 2 \<and> word_is W (plan_draw_source pl) 3
     \<and> resolve_color_target0_context_state (plan_context_register_state pl) = Success (plan_color_target_state pl)
     \<and> linear_rgba8_target (plan_color_target_state pl)
     \<and> rgba8_image_of (plan_color_target_state pl) (plan_color_target_image pl)
     \<and> (let m = window_after kPm4SetContextRegOpcode ps; q = plan_color_target_sources pl in
         names_value W m kColorTargetMaskContextOffset (packet_target_mask_source q)
         \<and> names_value W m kColorTarget0BaseContextOffset (packet_base_source q)
         \<and> names_value W m kColorTarget0InfoContextOffset (packet_info_source q)
         \<and> names_value W m kColorTarget0BaseExtContextOffset (packet_base_ext_source q)
         \<and> names_value W m kColorTarget0Attrib2ContextOffset (packet_attrib2_source q)
         \<and> names_value W m kColorTarget0Attrib3ContextOffset (packet_attrib3_source q))"

lemma registers_Some: "registers s t = Some v \<longleftrightarrow> t < kRegisterStateDwords \<and> register_initialized s ! t \<and> v = register_values s ! t"
  by (auto simp: registers_def)

lemma geometry_address_outcome:
  "case resolve_geometry_es_program_address s of Undefined \<Rightarrow> False | Failure e \<Rightarrow> True | Success a \<Rightarrow>
     register_initialized s ! 0xc8 \<and> register_initialized s ! 0xc9 \<and> unat (register_values s ! 0xc9) < 256
     \<and> unat a = unat (register_values s ! 0xc8) * 2 ^ 8 + unat (register_values s ! 0xc9) * 2 ^ 40"
  using program_address_value(1) [of "register_values s ! 0xc9" "register_values s ! 0xc8"]
    program_address_value(2) [of "register_values s ! 0xc9"]
  by (simp add: resolve_geometry_es_program_address_def Let_def)

lemma pixel_address_outcome:
  "case resolve_pixel_program_address s of Undefined \<Rightarrow> False | Failure e \<Rightarrow> True | Success a \<Rightarrow>
     register_initialized s ! 8 \<and> register_initialized s ! 9 \<and> unat (register_values s ! 9) < 256
     \<and> unat a = unat (register_values s ! 8) * 2 ^ 8 + unat (register_values s ! 9) * 2 ^ 40"
  using program_address_value(1) [of "register_values s ! 9" "register_values s ! 8"]
    program_address_value(2) [of "register_values s ! 9"]
  by (simp add: resolve_pixel_program_address_def Let_def)

text \<open>A register that is initialized has a recorded source, and the source names its value.\<close>

lemma tracked_register:
  assumes "tracks W (registers s) t src" and "t < kRegisterStateDwords" and "register_initialized s ! t"
  shows "\<exists>q. src = Some q \<and> word_is W q (register_values s ! t) \<and> names_value W (registers s) t q"
  using assms by (cases src) (auto simp: registers_def names_value_def)

lemma tracked_program:
  assumes "tracks W (registers s) lo slo" and "tracks W (registers s) hi shi"
    and "lo < kRegisterStateDwords" and "hi < kRegisterStateDwords"
    and "register_initialized s ! lo" and "register_initialized s ! hi" and "unat (register_values s ! hi) < 256"
    and "unat a = unat (register_values s ! lo) * 2 ^ 8 + unat (register_values s ! hi) * 2 ^ 40"
  shows "\<exists>qlo qhi. slo = Some qlo \<and> shi = Some qhi \<and> program_address_of W (registers s) lo hi qlo qhi a"
proof -
  obtain qlo qhi where "slo = Some qlo" "word_is W qlo (register_values s ! lo)"
    "shi = Some qhi" "word_is W qhi (register_values s ! hi)"
    using tracked_register [OF assms(1,3,5)] tracked_register [OF assms(2,4,6)] by blast
  moreover have "registers s lo = Some (register_values s ! lo)" "registers s hi = Some (register_values s ! hi)"
    using assms(3-6) by (simp_all add: registers_def)
  ultimately show ?thesis using assms(7,8) by (auto simp: program_address_of_def)
qed

lemma draw_outcome:
  "case plan_first_raster_draw s i (n, x) of Undefined \<Rightarrow> False | Failure e \<Rightarrow> True | Success pl \<Rightarrow>
     register_initialized s ! 0x242 \<and> register_values s ! 0x242 = 4 \<and> i = 1 \<and> n = 3 \<and> x = 2
     \<and> pl = \<lparr>draw_primitive_type_raw = 4, draw_instance_count = 1, draw_index_count = 3, draw_initiator_raw = 2\<rparr>"
  by (simp add: plan_first_raster_draw_def Let_def)

lemma color_target_outcome:
  "case resolve_color_target0_context_state s of Undefined \<Rightarrow> False | Failure e \<Rightarrow> True | Success t \<Rightarrow>
     register_initialized s ! 0x8e \<and> register_initialized s ! 0x318 \<and> register_initialized s ! 0x31c
     \<and> register_initialized s ! 0x390 \<and> register_initialized s ! 0x3b0 \<and> register_initialized s ! 0x3b8"
  by (simp add: resolve_color_target0_context_state_def Let_def)

lemma image_outcome:
  assumes "resolve_color_target0_context_state s = Success t"
  shows "case plan_gfx10_linear_rgba8_unorm_color_target_image t of
      Undefined \<Rightarrow> False | Failure e \<Rightarrow> True | Success d \<Rightarrow> linear_rgba8_target t \<and> rgba8_image_of t d"
proof (cases "linear_rgba8_target t")
  case True
  then obtain d where "plan_gfx10_linear_rgba8_unorm_color_target_image t = Success d" "rgba8_image_of t d"
    by (rule image_of_resolved_target [OF assms])
  with True show ?thesis by simp
next
  case False
  with image_of_other_target [OF False] show ?thesis by auto
qed

lemma image_defined:
  "resolve_color_target0_context_state s = Success t \<Longrightarrow> plan_gfx10_linear_rgba8_unorm_color_target_image t = Undefined \<Longrightarrow> False"
  using image_outcome [of s t] by simp

definition provenance_errors :: "SceAgcFirstRasterSubmissionErrorCode set" where
  "provenance_errors = {missing_program_register_provenance, missing_primitive_provenance, missing_color_target_provenance}"

lemma detail_not_provenance [simp]:
  "raster_error_code (raster_detail_error code detail) = code"
  "raster_error_code (raster_frame_error code k f detail) = code"
  "raster_error_code (make_raster_error code) = code"
  by (simp_all add: raster_detail_error_def raster_frame_error_def make_raster_error_def)

text \<open>The sources that a plan needs exist whenever the decoders accept the registers.\<close>

lemma geometry_sources:
  assumes "snapshot_matches W ps d sn"
    and "resolve_geometry_es_program_address (snapshot_shader_register_state sn) = Success a"
  shows "\<exists>qlo qhi. snapshot_geometry_pgm_lo_source sn = Some qlo \<and> snapshot_geometry_pgm_hi_source sn = Some qhi
    \<and> program_address_of W (window_after kPm4SetShRegOpcode ps) 0xc8 0xc9 qlo qhi a"
proof -
  let ?s = "snapshot_shader_register_state sn"
  have "tracks W (registers ?s) 0xc8 (snapshot_geometry_pgm_lo_source sn)"
    "tracks W (registers ?s) 0xc9 (snapshot_geometry_pgm_hi_source sn)"
    and reg: "registers ?s = window_after kPm4SetShRegOpcode ps"
    using assms(1) unfolding snapshot_matches_def register_sources_match_def windows_match_def by blast+
  from tracked_program [OF this(1,2)] geometry_address_outcome [of ?s] assms(2) reg show ?thesis by simp
qed

lemma pixel_sources:
  assumes "snapshot_matches W ps d sn"
    and "resolve_pixel_program_address (snapshot_shader_register_state sn) = Success a"
  shows "\<exists>qlo qhi. snapshot_pixel_pgm_lo_source sn = Some qlo \<and> snapshot_pixel_pgm_hi_source sn = Some qhi
    \<and> program_address_of W (window_after kPm4SetShRegOpcode ps) 8 9 qlo qhi a"
proof -
  let ?s = "snapshot_shader_register_state sn"
  have "tracks W (registers ?s) 8 (snapshot_pixel_pgm_lo_source sn)"
    "tracks W (registers ?s) 9 (snapshot_pixel_pgm_hi_source sn)"
    and reg: "registers ?s = window_after kPm4SetShRegOpcode ps"
    using assms(1) unfolding snapshot_matches_def register_sources_match_def windows_match_def by blast+
  from tracked_program [OF this(1,2)] pixel_address_outcome [of ?s] assms(2) reg show ?thesis by simp
qed

lemma draw_sources:
  assumes "snapshot_matches W ps d sn"
    and "plan_first_raster_draw (snapshot_user_config_register_state sn) (snapshot_instances sn) (snapshot_draw sn) = Success dp"
  shows "dp = \<lparr>draw_primitive_type_raw = 4, draw_instance_count = 1, draw_index_count = 3, draw_initiator_raw = 2\<rparr>"
    and "snapshot_instances sn = 1" and "raw_word_value (d ! 1) = 3" and "raw_word_value (d ! 2) = 2"
    and "window_after kPm4SetUconfigRegOpcode ps 0x242 = Some 4"
    and "\<exists>q. snapshot_primitive_type_source sn = Some q \<and> word_is W q 4"
proof -
  let ?s = "snapshot_user_config_register_state sn"
  have tr: "tracks W (registers ?s) 0x242 (snapshot_primitive_type_source sn)"
    and reg: "registers ?s = window_after kPm4SetUconfigRegOpcode ps"
    and dr: "snapshot_draw sn = (raw_word_value (d ! 1), raw_word_value (d ! 2))"
    using assms(1) unfolding snapshot_matches_def register_sources_match_def windows_match_def by blast+
  have out: "register_initialized ?s ! 0x242 \<and> register_values ?s ! 0x242 = 4 \<and> snapshot_instances sn = 1
      \<and> raw_word_value (d ! 1) = 3 \<and> raw_word_value (d ! 2) = 2
      \<and> dp = \<lparr>draw_primitive_type_raw = 4, draw_instance_count = 1, draw_index_count = 3, draw_initiator_raw = 2\<rparr>"
    using draw_outcome [of ?s "snapshot_instances sn" "raw_word_value (d ! 1)" "raw_word_value (d ! 2)"] assms(2) dr by simp
  then show "dp = \<lparr>draw_primitive_type_raw = 4, draw_instance_count = 1, draw_index_count = 3, draw_initiator_raw = 2\<rparr>"
    "snapshot_instances sn = 1" "raw_word_value (d ! 1) = 3" "raw_word_value (d ! 2) = 2" by blast+
  from out tracked_register [OF tr] show "\<exists>q. snapshot_primitive_type_source sn = Some q \<and> word_is W q 4" by auto
  from out show "window_after kPm4SetUconfigRegOpcode ps 0x242 = Some 4" by (simp flip: reg add: registers_def)
qed

lemma color_target_source:
  assumes "tracks W (registers s) t src" and "registers s = m" and "t < kRegisterStateDwords" and "register_initialized s ! t"
  shows "src \<noteq> None \<and> names_value W m t (the src)"
  using tracked_register [OF assms(1,3,4)] assms(2) by auto

lemma color_target_sources_complete:
  assumes "snapshot_matches W ps d sn"
    and "resolve_color_target0_context_state (snapshot_context_register_state sn) = Success ct"
  defines "q \<equiv> snapshot_color_target_sources sn" and "m \<equiv> window_after kPm4SetContextRegOpcode ps"
  shows "complete_color_target_sources q \<and> names_value W m 0x8e (the (target_mask_source q))
    \<and> names_value W m 0x318 (the (base_source q)) \<and> names_value W m 0x31c (the (info_source q))
    \<and> names_value W m 0x390 (the (base_ext_source q)) \<and> names_value W m 0x3b0 (the (attrib2_source q))
    \<and> names_value W m 0x3b8 (the (attrib3_source q))"
proof -
  let ?s = "snapshot_context_register_state sn"
  have reg: "registers ?s = m" and src: "register_sources_match W (snapshot_shader_register_state sn) ?s
      (snapshot_user_config_register_state sn) (snapshot_geometry_pgm_lo_source sn) (snapshot_geometry_pgm_hi_source sn)
      (snapshot_pixel_pgm_lo_source sn) (snapshot_pixel_pgm_hi_source sn) (snapshot_primitive_type_source sn) q"
    using assms(1) by (simp_all add: snapshot_matches_def windows_match_def q_def m_def)
  have i: "register_initialized ?s ! 0x8e" "register_initialized ?s ! 0x318" "register_initialized ?s ! 0x31c"
     "register_initialized ?s ! 0x390" "register_initialized ?s ! 0x3b0" "register_initialized ?s ! 0x3b8"
    using color_target_outcome [of ?s] assms(2) by simp_all
  have tr: "tracks W (registers ?s) 0x8e (target_mask_source q)" "tracks W (registers ?s) 0x318 (base_source q)"
    "tracks W (registers ?s) 0x31c (info_source q)" "tracks W (registers ?s) 0x390 (base_ext_source q)"
    "tracks W (registers ?s) 0x3b0 (attrib2_source q)" "tracks W (registers ?s) 0x3b8 (attrib3_source q)"
    using src unfolding register_sources_match_def by blast+
  have "target_mask_source q \<noteq> None \<and> names_value W m 0x8e (the (target_mask_source q))"
    "base_source q \<noteq> None \<and> names_value W m 0x318 (the (base_source q))"
    "info_source q \<noteq> None \<and> names_value W m 0x31c (the (info_source q))"
    "base_ext_source q \<noteq> None \<and> names_value W m 0x390 (the (base_ext_source q))"
    "attrib2_source q \<noteq> None \<and> names_value W m 0x3b0 (the (attrib2_source q))"
    "attrib3_source q \<noteq> None \<and> names_value W m 0x3b8 (the (attrib3_source q))"
    by (rule color_target_source [OF tr(1) reg _ i(1)] color_target_source [OF tr(2) reg _ i(2)]
        color_target_source [OF tr(3) reg _ i(3)] color_target_source [OF tr(4) reg _ i(4)]
        color_target_source [OF tr(5) reg _ i(5)] color_target_source [OF tr(6) reg _ i(6)], simp)+
  then show ?thesis unfolding complete_color_target_sources_def by blast
qed

text \<open>The plan that the five decoded values and the recorded sources make up.\<close>

definition decoded_plan ::
  "DrawSnapshot \<Rightarrow> u64 \<Rightarrow> u64 \<Rightarrow> FirstRasterDrawPlan \<Rightarrow> ColorTarget0ContextState \<Rightarrow> GuestGpuImageDescriptor \<Rightarrow>
     SceAgcFirstRasterSubmissionPlan" where
  "decoded_plan sn ga pa dp ct ci =
     (let sources = snapshot_color_target_sources sn in
      \<lparr>plan_shader_register_state = snapshot_shader_register_state sn,
       plan_context_register_state = snapshot_context_register_state sn,
       plan_user_config_register_state = snapshot_user_config_register_state sn,
       plan_geometry_program_address = ga, plan_pixel_program_address = pa,
       plan_color_target_state = ct, plan_color_target_image = ci, plan_draw = dp,
       plan_geometry_pgm_lo_source = the (snapshot_geometry_pgm_lo_source sn),
       plan_geometry_pgm_hi_source = the (snapshot_geometry_pgm_hi_source sn),
       plan_pixel_pgm_lo_source = the (snapshot_pixel_pgm_lo_source sn),
       plan_pixel_pgm_hi_source = the (snapshot_pixel_pgm_hi_source sn),
       plan_primitive_type_source = the (snapshot_primitive_type_source sn),
       plan_instances_source = snapshot_instances_source sn, plan_draw_source = snapshot_draw_source sn,
       plan_color_target_sources =
         \<lparr>packet_target_mask_source = the (target_mask_source sources), packet_base_source = the (base_source sources),
          packet_info_source = the (info_source sources), packet_base_ext_source = the (base_ext_source sources),
          packet_attrib2_source = the (attrib2_source sources), packet_attrib3_source = the (attrib3_source sources)\<rparr>\<rparr>)"

lemma and_then_cong: "(\<And>v. r = Success v \<Longrightarrow> k v = k' v) \<Longrightarrow> and_then r h k = and_then r h k'"
  by (cases r) simp_all

text \<open>On a recorded snapshot the three tests for a missing source never fail.\<close>

lemma plan_snapshot_eq:
  assumes sn: "snapshot_matches W ps d sn"
  shows "plan_snapshot sn =
     and_then (resolve_geometry_es_program_address (snapshot_shader_register_state sn))
       (\<lambda>e. raster_detail_error geometry_program_address_failure (Program_address_detail e)) (\<lambda>ga.
     and_then (resolve_pixel_program_address (snapshot_shader_register_state sn))
       (\<lambda>e. raster_detail_error pixel_program_address_failure (Program_address_detail e)) (\<lambda>pa.
     and_then (plan_first_raster_draw (snapshot_user_config_register_state sn) (snapshot_instances sn) (snapshot_draw sn))
       (\<lambda>e. raster_detail_error draw_plan_failure (Draw_plan_detail e)) (\<lambda>dp.
     and_then (resolve_color_target0_context_state (snapshot_context_register_state sn))
       (\<lambda>e. raster_detail_error color_target_decode_failure (Color_target_detail e)) (\<lambda>ct.
     and_then (plan_gfx10_linear_rgba8_unorm_color_target_image ct)
       (\<lambda>e. raster_detail_error color_target_image_failure (Color_target_image_detail e)) (\<lambda>ci.
     Success (decoded_plan sn ga pa dp ct ci))))))"
  unfolding plan_snapshot_def
proof (rule and_then_cong, rule and_then_cong, goal_cases)
  case (1 ga pa)
  from geometry_sources [OF sn 1(1)] pixel_sources [OF sn 1(2)] obtain glo ghi plo phi where
    "snapshot_geometry_pgm_lo_source sn = Some glo" "snapshot_geometry_pgm_hi_source sn = Some ghi"
    "snapshot_pixel_pgm_lo_source sn = Some plo" "snapshot_pixel_pgm_hi_source sn = Some phi" by blast
  note src = this
  show ?case
    unfolding src prod.case option.case
  proof (intro and_then_cong)
    fix dp ct ci
    assume dp: "plan_first_raster_draw (snapshot_user_config_register_state sn) (snapshot_instances sn) (snapshot_draw sn) = Success dp"
      and ct: "resolve_color_target0_context_state (snapshot_context_register_state sn) = Success ct"
    from draw_sources(6) [OF sn dp] obtain pt where "snapshot_primitive_type_source sn = Some pt" by blast
    with src color_target_sources_complete [OF sn ct]
    show "(case snapshot_primitive_type_source sn of
        None \<Rightarrow> Failure (make_raster_error missing_primitive_provenance)
      | Some primitive_type \<Rightarrow>
          let sources = snapshot_color_target_sources sn in
          if \<not> complete_color_target_sources sources
          then Failure (make_raster_error missing_color_target_provenance)
          else Success
               \<lparr>plan_shader_register_state = snapshot_shader_register_state sn,
                plan_context_register_state = snapshot_context_register_state sn,
                plan_user_config_register_state = snapshot_user_config_register_state sn,
                plan_geometry_program_address = ga,
                plan_pixel_program_address = pa,
                plan_color_target_state = ct,
                plan_color_target_image = ci,
                plan_draw = dp,
                plan_geometry_pgm_lo_source = glo,
                plan_geometry_pgm_hi_source = ghi,
                plan_pixel_pgm_lo_source = plo,
                plan_pixel_pgm_hi_source = phi,
                plan_primitive_type_source = primitive_type,
                plan_instances_source = snapshot_instances_source sn,
                plan_draw_source = snapshot_draw_source sn,
                plan_color_target_sources =
                  \<lparr>packet_target_mask_source = the (target_mask_source sources),
                   packet_base_source = the (base_source sources),
                   packet_info_source = the (info_source sources),
                   packet_base_ext_source = the (base_ext_source sources),
                   packet_attrib2_source = the (attrib2_source sources),
                   packet_attrib3_source = the (attrib3_source sources)\<rparr>\<rparr>)
      = Success (decoded_plan sn ga pa dp ct ci)"
      by (simp add: decoded_plan_def Let_def)
  qed
qed

lemma decoded_plan_matches:
  assumes sn: "snapshot_matches W ps d sn"
    and "resolve_geometry_es_program_address (snapshot_shader_register_state sn) = Success ga"
    and "resolve_pixel_program_address (snapshot_shader_register_state sn) = Success pa"
    and "plan_first_raster_draw (snapshot_user_config_register_state sn) (snapshot_instances sn) (snapshot_draw sn) = Success dp"
    and ct: "resolve_color_target0_context_state (snapshot_context_register_state sn) = Success ct"
    and "plan_gfx10_linear_rgba8_unorm_color_target_image ct = Success ci"
  shows "plan_matches W ps d (decoded_plan sn ga pa dp ct ci)"
proof -
  have "windows_match ps (snapshot_shader_register_state sn) (snapshot_context_register_state sn) (snapshot_user_config_register_state sn)"
    "instances_after ps = Some (snapshot_instances sn)" "word_is W (snapshot_instances_source sn) (snapshot_instances sn)"
    "word_is W (snapshot_draw_source sn) (raw_word_value (d ! 1))"
    using sn by (simp_all add: snapshot_matches_def)
  then show ?thesis
    using geometry_sources [OF assms(1,2)] pixel_sources [OF assms(1,3)] draw_sources [OF assms(1,4)]
      color_target_sources_complete [OF assms(1,5)] image_outcome [OF ct] assms(5,6)
    by (auto simp: plan_matches_def decoded_plan_def Let_def)
qed

lemma plan_snapshot_outcome:
  assumes sn: "snapshot_matches W ps d sn"
  shows "case plan_snapshot sn of
      Undefined \<Rightarrow> False
    | Success pl \<Rightarrow> plan_matches W ps d pl
    | Failure e \<Rightarrow> raster_error_code e \<notin> provenance_errors"
proof (cases "plan_snapshot sn")
  case (Success pl)
  then show ?thesis using decoded_plan_matches [OF sn] by (auto simp: plan_snapshot_eq [OF sn] result_simps)
next
  case (Failure e)
  then show ?thesis by (auto simp: plan_snapshot_eq [OF sn] result_simps provenance_errors_def)
next
  case Undefined
  then show ?thesis
    using geometry_address_outcome [of "snapshot_shader_register_state sn"] pixel_address_outcome [of "snapshot_shader_register_state sn"]
      draw_outcome [of "snapshot_user_config_register_state sn" "snapshot_instances sn" "fst (snapshot_draw sn)" "snd (snapshot_draw sn)"]
      color_target_outcome [of "snapshot_context_register_state sn"]
    by (auto simp: plan_snapshot_eq [OF sn] result_simps dest: image_defined)
qed

section \<open>The submission\<close>

text \<open>
  What a submission means: its command buffer is a sequence of type-3 packets of which exactly one is
  a draw, and the plan is that of the packets before it.
\<close>

definition submission_plan :: "u8 list \<Rightarrow> SceAgcFirstRasterSubmissionPlan \<Rightarrow> bool" where
  "submission_plan buffer pl \<longleftrightarrow>
     (\<exists>before d after. list_all type3_packet (before @ d # after) \<and> concat (before @ d # after) = packet_words buffer
        \<and> is_draw d \<and> list_all (\<lambda>p. \<not> is_draw p) (before @ after)
        \<and> plan_matches (packet_words buffer) before d pl)"

lemma framing_outcome_stream:
  assumes "host_object buffer"
  shows "case frame_pm4_type3_stream ev buffer of Undefined \<Rightarrow> False | Failure e \<Rightarrow> True
    | Success s \<Rightarrow> \<exists>ps. list_all type3_packet ps \<and> concat ps = packet_words buffer \<and> frames s = frames_at 0 ps"
  using frame_pm4_type3_stream_outcome [OF assms, of ev]
  by (cases "length buffer mod 4 = 0") (auto simp: framing_outcome_def frame_pm4_type3_stream_def split: Result.splits)

lemma raster_packets_outcome:
  assumes "list_all type3_packet ps" and "concat ps = packet_words buffer"
  shows "case raster_loop alloc 0 (frames_at 0 ps) initial_raster_state of
      Undefined \<Rightarrow> False
    | Failure e \<Rightarrow> True
    | Success st \<Rightarrow> (case draw_snapshot st of None \<Rightarrow> True
        | Some sn \<Rightarrow> \<exists>before d after. ps = before @ d # after \<and> is_draw d
            \<and> list_all (\<lambda>p. \<not> is_draw p) (before @ after) \<and> snapshot_matches (packet_words buffer) before d sn)"
  using raster_loop_inv [OF raster_inv_initial assms(1), of "packet_words buffer" alloc 0] assms(2)
  by (fastforce simp: raster_inv_def split: Result.splits option.splits)

text \<open>The errors of the frames are none of the provenance errors.\<close>

lemma raster_set_errors:
  "raster_set_sh alloc k f st = Failure e \<Longrightarrow> raster_error_code e \<notin> provenance_errors"
  "raster_set_context alloc k f st = Failure e \<Longrightarrow> raster_error_code e \<notin> provenance_errors"
  "raster_set_uconfig alloc k f st = Failure e \<Longrightarrow> raster_error_code e \<notin> provenance_errors"
  by (auto simp: raster_set_sh_def raster_set_context_def raster_set_uconfig_def provenance_errors_def result_simps
      case_prod_unfold)

lemma raster_draw_errors:
  assumes "raster_draw_control k f st = Failure e"
  shows "raster_error_code e \<notin> provenance_errors"
proof -
  have "raster_error_code e \<notin> provenance_errors"
    if "lower_pm4_draw_control_frame_to_graphics_ir f = Success em" and "raster_draw_control k f st = Failure e" for em
    using that by (cases "emission_operation em"; cases "current_instances st"; cases "current_instances_source st")
      (auto simp: raster_draw_control_def provenance_errors_def split: if_splits)
  with assms show ?thesis
    by (cases "lower_pm4_draw_control_frame_to_graphics_ir f") (auto simp: raster_draw_control_def provenance_errors_def)
qed

lemma raster_frame_errors:
  "raster_frame alloc k f st = Failure e \<Longrightarrow> raster_error_code e \<notin> provenance_errors"
  using raster_set_errors [of alloc k f st e] raster_draw_errors [of k f st e]
  by (auto simp: raster_frame_def provenance_errors_def Let_def split: if_splits)

lemma raster_loop_errors:
  "raster_loop alloc k fs st = Failure e \<Longrightarrow> raster_error_code e \<notin> provenance_errors"
  by (induction fs arbitrary: k st) (auto simp: result_simps dest: raster_frame_errors)

lemma plan_submission_outcome:
  assumes "host_object (submission_command_buffer_bytes sub)"
  shows "case plan_sce_agc_first_raster_submission ev alloc sub of
      Undefined \<Rightarrow> False
    | Success pl \<Rightarrow> submission_flag sub = 0 \<and> submission_plan (submission_command_buffer_bytes sub) pl
    | Failure e \<Rightarrow> raster_error_code e \<notin> provenance_errors"
proof (cases "submission_flag sub = 0")
  case True
  let ?b = "submission_command_buffer_bytes sub"
  note def = plan_sce_agc_first_raster_submission_def [of ev alloc sub]
  note frame = framing_outcome_stream [OF assms, of ev]
  show ?thesis
  proof (cases "frame_pm4_type3_stream ev ?b")
    case framed: (Success s)
    with frame obtain ps where ps: "list_all type3_packet ps" "concat ps = packet_words ?b" "frames s = frames_at 0 ps"
      by auto
    note loop = raster_packets_outcome [OF ps(1,2), of alloc]
    show ?thesis
    proof (cases "raster_loop alloc 0 (frames_at 0 ps) initial_raster_state")
      case st: (Success st)
      show ?thesis
      proof (cases "draw_snapshot st")
        case None
        then show ?thesis by (simp add: def True framed ps(3) st provenance_errors_def)
      next
        case (Some sn)
        with loop st obtain before d after where p: "ps = before @ d # after" "is_draw d"
          "list_all (\<lambda>p. \<not> is_draw p) (before @ after)" "snapshot_matches (packet_words ?b) before d sn" by auto
        have "submission_plan ?b pl" if "plan_matches (packet_words ?b) before d pl" for pl
          unfolding submission_plan_def using p(2,3) ps(1,2) that unfolding p(1) by blast
        with plan_snapshot_outcome [OF p(4)] show ?thesis
          by (simp add: def True framed ps(3) st Some split: Result.splits)
      qed
    next
      case (Failure e)
      with raster_loop_errors [OF this] show ?thesis by (simp add: def True framed ps(3))
    next
      case Undefined
      with loop show ?thesis by simp
    qed
  next
    case (Failure e)
    then show ?thesis by (simp add: def True provenance_errors_def raster_detail_error_def make_raster_error_def)
  next
    case Undefined
    with frame show ?thesis by simp
  qed
next
  case False
  then show ?thesis
    by (simp add: plan_sce_agc_first_raster_submission_def provenance_errors_def make_raster_error_def)
qed

section \<open>Which submissions are accepted\<close>

text \<open>
  The packets a submission may contain, and the registers a draw needs. \<open>registers_of\<close> is the state of
  a window that holds the given registers: a well-formed state is determined by its registers.
\<close>

definition acceptable_packet :: "RawPacketWord list \<Rightarrow> bool" where
  "acceptable_packet p \<longleftrightarrow> header_low_control_bits (make_header (raw_word_value (hd p))) = 0 \<and>
     (if packet_opcode p \<in> {kPm4SetShRegOpcode, kPm4SetContextRegOpcode, kPm4SetUconfigRegOpcode}
      then register_payload kRegisterStateDwords p \<noteq> None
      else if packet_opcode p = kPm4NumInstancesOpcode then length p = 2
      else packet_opcode p = kPm4DrawIndexAutoOpcode \<and> length p = 3)"

definition registers_of :: "(nat \<Rightarrow> u32 option) \<Rightarrow> RegisterState" where
  "registers_of m = \<lparr>register_values = map (\<lambda>i. case m i of None \<Rightarrow> 0 | Some v \<Rightarrow> v) [0..<kRegisterStateDwords],
     register_initialized = map (\<lambda>i. m i \<noteq> None) [0..<kRegisterStateDwords]\<rparr>"

lemma registers_determine: "registers_wf s \<Longrightarrow> registers s = m \<Longrightarrow> s = registers_of m"
  by (cases s) (auto simp: registers_wf_def registers_of_def registers_def intro!: nth_equalityI split: if_splits)

definition program_set :: "(nat \<Rightarrow> u32 option) \<Rightarrow> nat \<Rightarrow> nat \<Rightarrow> bool" where
  "program_set m lo hi \<longleftrightarrow> m lo \<noteq> None \<and> (\<exists>v. m hi = Some v \<and> v AND 0xffffff00 = 0)"

definition acceptable_draw :: "RawPacketWord list list \<Rightarrow> RawPacketWord list \<Rightarrow> bool" where
  "acceptable_draw before d \<longleftrightarrow>
     program_set (window_after kPm4SetShRegOpcode before) kGeometryEsProgramLoRegisterOffset kGeometryEsProgramHiRegisterOffset
     \<and> program_set (window_after kPm4SetShRegOpcode before) kPixelProgramLoRegisterOffset kPixelProgramHiRegisterOffset
     \<and> window_after kPm4SetUconfigRegOpcode before kFirstRasterPrimitiveTypeUconfigOffset = Some 4
     \<and> instances_after before = Some 1 \<and> raw_word_value (d ! 1) = 3 \<and> raw_word_value (d ! 2) = 2
     \<and> (\<exists>t. resolve_color_target0_context_state (registers_of (window_after kPm4SetContextRegOpcode before)) = Success t
          \<and> linear_rgba8_target t)"

context register_window
begin

lemma lower_and_apply_accepts:
  assumes "type3_packet p" and "packet_opcode p = opcode" and "registers_wf s"
    and get: "\<And>a b. get_write (operation a b) = Some (a, b)"
    and finish: "\<And>em s'. has_value (finish em s')"
  shows "has_value (and_then (lower_set_reg_frame opcode kRegisterStateDwords operation (\<lambda>_. No_exception) (frame_at off p)) h
        (\<lambda>em. case apply_ir em s of (applied, s') \<Rightarrow> and_then applied h' (\<lambda>effect. finish em s')))
      \<longleftrightarrow> register_payload kRegisterStateDwords p \<noteq> None"
proof -
  note low = lower_set_reg_frame_eq [OF assms(1), where opcode = opcode and window = kRegisterStateDwords
      and operation = operation and alloc = "\<lambda>_. No_exception" and off = off]
  show ?thesis
  proof (cases "lower_set_reg_frame opcode kRegisterStateDwords operation (\<lambda>_. No_exception) (frame_at off p)")
    case (Success em)
    with low assms(2) obtain start vs where pay: "register_payload kRegisterStateDwords p = Some (start, vs)"
      and em: "emission_operation em = operation start vs" by (auto simp: packet_opcode_def split: if_splits)
    then have o: "start = ucast (raw_word_value (p ! 1))" "vs = map raw_word_value (drop 2 p)" "3 \<le> length p"
      "unat (raw_word_value (p ! 1)) < 2 ^ 16" "unat (raw_word_value (p ! 1)) + (length p - 2) \<le> kRegisterStateDwords"
      by (auto simp: register_payload_def split: if_splits)
    then have "unat start = unat (raw_word_value (p ! 1))" by (simp add: unsigned_ucast_eq take_bit_nat_eq_self)
    then have "unat start + length vs \<le> kRegisterStateDwords" "unat start < kRegisterStateDwords" using o by auto
    then have "has_value (fst (apply_ir em s))" by (intro accepts [of _ start vs]) (simp_all add: em get)
    then show ?thesis using Success pay finish by (auto simp: has_value_iff case_prod_unfold)
  next
    case (Failure e)
    with low show ?thesis by (auto split: if_splits)
  next
    case Undefined
    with low show ?thesis by simp
  qed
qed

end

lemma raster_frame_accepts:
  assumes "state_matches W ps st" and "type3_packet p"
  shows "has_value (raster_frame (\<lambda>_. No_exception) k (frame_at off p) st) \<longleftrightarrow>
    acceptable_packet p \<and> (is_draw p \<longrightarrow> draw_snapshot st = None \<and> instances_after ps \<noteq> None)"
proof -
  have wf: "registers_wf (shader_state st)" "registers_wf (context_state st)" "registers_wf (user_config_state st)"
    and inst: "current_instances st = instances_after ps" "tracks W (\<lambda>_. current_instances st) 0 (current_instances_source st)"
    using assms(1) unfolding state_matches_def windows_match_def by blast+
  let ?h = "make_header (raw_word_value (hd p))" and ?f = "frame_at off p"
  have sh: "has_value (raster_set_sh (\<lambda>_. No_exception) k ?f st) \<longleftrightarrow> register_payload kRegisterStateDwords p \<noteq> None"
    if "packet_opcode p = kPm4SetShRegOpcode"
    unfolding raster_set_sh_def lower_pm4_set_sh_reg_frame_to_graphics_ir_def
    by (rule shader_window.lower_and_apply_accepts [OF assms(2) that wf(1)]) simp_all
  have cx: "has_value (raster_set_context (\<lambda>_. No_exception) k ?f st) \<longleftrightarrow> register_payload kRegisterStateDwords p \<noteq> None"
    if "packet_opcode p = kPm4SetContextRegOpcode"
    unfolding raster_set_context_def lower_pm4_set_context_reg_frame_to_graphics_ir_def
    by (rule context_window.lower_and_apply_accepts [OF assms(2) that wf(2)]) simp_all
  have uc: "has_value (raster_set_uconfig (\<lambda>_. No_exception) k ?f st) \<longleftrightarrow> register_payload kRegisterStateDwords p \<noteq> None"
    if "packet_opcode p = kPm4SetUconfigRegOpcode"
    unfolding raster_set_uconfig_def lower_pm4_set_uconfig_reg_frame_to_graphics_ir_def
    by (rule user_config_window.lower_and_apply_accepts [OF assms(2) that wf(3)]) simp_all
  note low = lower_draw_control_eq [OF assms(2), of off, folded packet_opcode_def, unfolded Let_def]
  have num: "has_value (raster_draw_control k ?f st) \<longleftrightarrow> length p = 2" if "packet_opcode p = kPm4NumInstancesOpcode"
    using that by (simp add: raster_draw_control_def low)
  have draw: "has_value (raster_draw_control k ?f st) \<longleftrightarrow> length p = 3 \<and> draw_snapshot st = None \<and> instances_after ps \<noteq> None"
    if "packet_opcode p = kPm4DrawIndexAutoOpcode"
    using that inst by (cases "current_instances_source st") (auto simp: raster_draw_control_def low split: option.splits)
  show ?thesis
    using sh cx uc num draw
    by (simp add: raster_frame_def acceptable_packet_def is_draw_def Let_def packet_opcode_def [symmetric])
qed

lemma raster_loop_append:
  "raster_loop alloc k (fs @ gs) st = with_value (raster_loop alloc k fs st) (raster_loop alloc (k + length fs) gs)"
  by (induction fs arbitrary: k st) (auto simp: and_then_def split: Result.split)

lemma raster_loop_accepts:
  assumes "raster_inv W ps st" and "list_all type3_packet qs" and "W = concat (ps @ qs) @ post"
    and "list_all (\<lambda>p. acceptable_packet p \<and> \<not> is_draw p) qs"
  shows "\<exists>st'. raster_loop (\<lambda>_. No_exception) k (frames_at (length (concat ps)) qs) st = Success st' \<and> raster_inv W (ps @ qs) st'"
  using assms
proof (induction qs arbitrary: ps st k)
  case (Cons q qs)
  let ?r = "raster_frame (\<lambda>_. No_exception) k (frame_at (length (concat ps)) q) st"
  have m: "state_matches W ps st" using Cons.prems(1) by (simp add: raster_inv_def)
  have "has_value ?r" using raster_frame_accepts [OF m, of q] Cons.prems by simp
  then obtain st' where st': "?r = Success st'" by (auto simp: has_value_iff)
  moreover have "case ?r of Undefined \<Rightarrow> False | Success st' \<Rightarrow> raster_inv W (ps @ [q]) st' | Failure e \<Rightarrow> True"
    by (rule raster_frame_inv [where post = "concat qs @ post"]) (use Cons.prems in simp_all)
  ultimately have "raster_inv W (ps @ [q]) st'" by simp
  from Cons.IH [OF this, of "k + 1"] st' Cons.prems show ?case by simp
qed simp

text \<open>The packets that are processed to the end, with a snapshot of their draw.\<close>

lemma raster_loop_snapshot_iff:
  assumes "list_all type3_packet (before @ d # after)" and "concat (before @ d # after) = packet_words buffer"
    and "is_draw d" and "list_all (\<lambda>p. \<not> is_draw p) (before @ after)"
    and "list_all acceptable_packet (before @ d # after)" and "instances_after before \<noteq> None"
  shows "\<exists>st sn. raster_loop (\<lambda>_. No_exception) 0 (frames_at 0 (before @ d # after)) initial_raster_state = Success st
    \<and> draw_snapshot st = Some sn"
proof -
  let ?W = "packet_words buffer" and ?a = "\<lambda>_. No_exception"
  obtain st1 where st1: "raster_loop ?a 0 (frames_at 0 before) initial_raster_state = Success st1" "raster_inv ?W before st1"
    using raster_loop_accepts [OF raster_inv_initial, of before ?W "concat (d # after)" 0] assms by (auto simp: list_all_iff)
  have none: "draw_snapshot st1 = None"
    using st1(2) assms(4) by (cases "draw_snapshot st1") (auto simp: raster_inv_def)
  let ?r = "raster_frame ?a (length before) (frame_at (length (concat before)) d) st1"
  have "has_value ?r"
    using raster_frame_accepts [of ?W before st1 d "length before" "length (concat before)"] st1(2) none assms
    by (simp add: raster_inv_def)
  then obtain st2 where st2: "?r = Success st2" by (auto simp: has_value_iff)
  moreover have "case ?r of Undefined \<Rightarrow> False | Success st' \<Rightarrow> raster_inv ?W (before @ [d]) st' | Failure e \<Rightarrow> True"
    by (rule raster_frame_inv [where post = "concat after"]) (use st1 assms(1,2) in simp_all)
  ultimately have inv2: "raster_inv ?W (before @ [d]) st2" by simp
  obtain st3 where st3: "raster_loop ?a (Suc (length before)) (frames_at (length (concat (before @ [d]))) after) st2 = Success st3"
    "raster_inv ?W ((before @ [d]) @ after) st3"
    using raster_loop_accepts [OF inv2, of after "[]" "Suc (length before)"] assms by (auto simp: list_all_iff)
  have "raster_loop ?a 0 (frames_at 0 (before @ d # after)) initial_raster_state = Success st3"
    using st1(1) st2 st3(1) by (simp add: frames_at_append raster_loop_append)
  moreover have "draw_snapshot st3 \<noteq> None"
    using st3(2) assms(3) by (cases "draw_snapshot st3") (auto simp: raster_inv_def)
  ultimately show ?thesis by blast
qed

lemma raster_loop_packets:
  assumes "raster_inv W ps st" and "list_all type3_packet qs" and "W = concat (ps @ qs)"
    and "raster_loop (\<lambda>_. No_exception) k (frames_at (length (concat ps)) qs) st = Success st'"
  shows "list_all acceptable_packet qs"
  using assms
proof (induction qs arbitrary: ps st k)
  case (Cons q qs)
  then obtain st1 where st1: "raster_frame (\<lambda>_. No_exception) k (frame_at (length (concat ps)) q) st = Success st1"
    and rest: "raster_loop (\<lambda>_. No_exception) (k + 1) (frames_at (length (concat (ps @ [q]))) qs) st1 = Success st'"
    by (auto simp: result_simps)
  have "case raster_frame (\<lambda>_. No_exception) k (frame_at (length (concat ps)) q) st of
      Undefined \<Rightarrow> False | Success st' \<Rightarrow> raster_inv W (ps @ [q]) st' | Failure e \<Rightarrow> True"
    by (rule raster_frame_inv [where post = "concat qs"]) (use Cons.prems in simp_all)
  then have "raster_inv W (ps @ [q]) st1" using st1 by simp
  moreover have "acceptable_packet q"
    using raster_frame_accepts [of W ps st q k "length (concat ps)"] Cons.prems(1,2) st1 by (simp add: raster_inv_def)
  ultimately show ?case using Cons.IH [of "ps @ [q]" st1 "k + 1"] rest Cons.prems(2,3) by simp
qed simp

lemma has_value_and_then: "has_value (and_then r h k) \<longleftrightarrow> (\<exists>v. r = Success v \<and> has_value (k v))"
  by (cases r) simp_all

lemma geometry_accepts:
  "(\<exists>a. resolve_geometry_es_program_address s = Success a) \<longleftrightarrow> program_set (registers s) 0xc8 0xc9"
  by (simp add: resolve_geometry_es_program_address_def program_set_def registers_def Let_def)

lemma pixel_accepts: "(\<exists>a. resolve_pixel_program_address s = Success a) \<longleftrightarrow> program_set (registers s) 8 9"
  by (simp add: resolve_pixel_program_address_def program_set_def registers_def Let_def)

lemma draw_accepts:
  "(\<exists>dp. plan_first_raster_draw s i (n, x) = Success dp) \<longleftrightarrow> registers s 0x242 = Some 4 \<and> i = 1 \<and> n = 3 \<and> x = 2"
  by (simp add: plan_first_raster_draw_def registers_def Let_def)

lemma image_accepts:
  assumes "resolve_color_target0_context_state s = Success t"
  shows "(\<exists>ci. plan_gfx10_linear_rgba8_unorm_color_target_image t = Success ci) \<longleftrightarrow> linear_rgba8_target t"
proof (cases "linear_rgba8_target t")
  case True
  then show ?thesis using image_of_resolved_target [OF assms True] by blast
next
  case False
  then show ?thesis using image_of_other_target [OF False] by auto
qed

lemma plan_snapshot_accepts:
  assumes "snapshot_matches W before d sn"
  shows "has_value (plan_snapshot sn) \<longleftrightarrow> acceptable_draw before d"
proof -
  have win: "windows_match before (snapshot_shader_register_state sn) (snapshot_context_register_state sn) (snapshot_user_config_register_state sn)"
    and i: "instances_after before = Some (snapshot_instances sn)"
    and d: "snapshot_draw sn = (raw_word_value (d ! 1), raw_word_value (d ! 2))"
    using assms unfolding snapshot_matches_def by blast+
  have sh: "registers (snapshot_shader_register_state sn) = window_after kPm4SetShRegOpcode before"
    and uc: "registers (snapshot_user_config_register_state sn) = window_after kPm4SetUconfigRegOpcode before"
    and cx: "snapshot_context_register_state sn = registers_of (window_after kPm4SetContextRegOpcode before)"
    using win unfolding windows_match_def by (blast intro: registers_determine)+
  have img: "(\<exists>t. resolve_color_target0_context_state s = Success t \<and> linear_rgba8_target t) \<longleftrightarrow>
      (\<exists>t. resolve_color_target0_context_state s = Success t \<and> (\<exists>ci. plan_gfx10_linear_rgba8_unorm_color_target_image t = Success ci))" for s
    using image_accepts by blast
  note parts = geometry_accepts [of "snapshot_shader_register_state sn"] pixel_accepts [of "snapshot_shader_register_state sn"]
    draw_accepts [of "snapshot_user_config_register_state sn" "snapshot_instances sn" "raw_word_value (d ! 1)" "raw_word_value (d ! 2)"]
  show ?thesis
    unfolding plan_snapshot_eq [OF assms] has_value_and_then has_value.simps acceptable_draw_def sh [symmetric] uc [symmetric]
      cx [symmetric] i d
    unfolding parts [symmetric] img option.inject by (use parts in blast)
qed

text \<open>A command buffer of acceptable packets with one draw that follows the registers it needs.\<close>

definition acceptable_submission :: "u8 list \<Rightarrow> bool" where
  "acceptable_submission buffer \<longleftrightarrow> length buffer mod 4 = 0 \<and>
     (\<exists>before d after. list_all type3_packet (before @ d # after) \<and> concat (before @ d # after) = packet_words buffer
        \<and> list_all acceptable_packet (before @ d # after) \<and> is_draw d \<and> list_all (\<lambda>p. \<not> is_draw p) (before @ after)
        \<and> acceptable_draw before d)"

lemma packets_unique:
  assumes "concat ps = concat qs" and "list_all type3_packet ps" and "list_all type3_packet qs"
  shows "ps = qs"
  using assms
proof (induction ps arbitrary: qs)
  case Nil
  then show ?case by (cases qs) (auto simp: type3_packet_iff)
next
  case (Cons p ps)
  then obtain q qs' where qs: "qs = q # qs'" by (cases qs) (auto simp: type3_packet_iff)
  have "hd p = hd q" using Cons.prems qs by (cases p; cases q) (auto simp: type3_packet_iff)
  then have "length p = length q" using Cons.prems qs by (simp add: type3_packet_iff)
  with Cons.prems qs have "p = q \<and> concat ps = concat qs'" by simp
  with Cons qs show ?case by simp
qed

lemma submission_accepts:
  assumes "host_object (submission_command_buffer_bytes sub)"
  shows "has_value (plan_sce_agc_first_raster_submission no_exceptions (\<lambda>_. No_exception) sub) \<longleftrightarrow>
    submission_flag sub = 0 \<and> acceptable_submission (submission_command_buffer_bytes sub)" (is "?l \<longleftrightarrow> ?r")
proof
  let ?b = "submission_command_buffer_bytes sub"
  assume l: ?l
  then have flag: "submission_flag sub = 0" by (auto simp: plan_sce_agc_first_raster_submission_def split: if_splits)
  with l obtain s st sn where s: "frame_pm4_type3_stream no_exceptions ?b = Success s"
    and st: "raster_loop (\<lambda>_. No_exception) 0 (frames s) initial_raster_state = Success st" "draw_snapshot st = Some sn"
    and sn: "has_value (plan_snapshot sn)"
    by (auto simp: plan_sce_agc_first_raster_submission_def has_value_and_then split: option.splits)
  have mod: "length ?b mod 4 = 0" using s by (auto simp: frame_pm4_type3_stream_def split: if_splits)
  obtain ps where ps: "list_all type3_packet ps" "concat ps = packet_words ?b" "frames s = frames_at 0 ps"
    using framing_outcome_stream [OF assms, of no_exceptions] s by auto
  with st raster_packets_outcome [OF ps(1,2), of "\<lambda>_. No_exception"] obtain before d after where
    p: "ps = before @ d # after" "is_draw d" "list_all (\<lambda>p. \<not> is_draw p) (before @ after)"
      "snapshot_matches (packet_words ?b) before d sn" by auto
  have "list_all acceptable_packet ps"
    using raster_loop_packets [OF raster_inv_initial ps(1), of "packet_words ?b" 0 st] ps st by simp
  moreover have "acceptable_draw before d" using sn plan_snapshot_accepts [OF p(4)] by simp
  ultimately show ?r using flag mod ps(1,2) p(2,3) unfolding acceptable_submission_def p(1) by blast
next
  let ?b = "submission_command_buffer_bytes sub" and ?a = "\<lambda>_. No_exception"
  assume r: ?r
  then obtain before d after where p: "list_all type3_packet (before @ d # after)" "concat (before @ d # after) = packet_words ?b"
    "list_all acceptable_packet (before @ d # after)" "is_draw d" "list_all (\<lambda>p. \<not> is_draw p) (before @ after)"
    "acceptable_draw before d" unfolding acceptable_submission_def by blast
  have s: "frame_pm4_type3_stream no_exceptions ?b = Success \<lparr>frames = frames_at 0 (before @ d # after)\<rparr>"
    by (rule frame_pm4_type3_stream_packets [OF assms]) (use r p in \<open>simp_all add: acceptable_submission_def no_exceptions_def\<close>)
  have "instances_after before \<noteq> None" using p(6) by (simp add: acceptable_draw_def)
  then obtain st sn where st: "raster_loop ?a 0 (frames_at 0 (before @ d # after)) initial_raster_state = Success st" "draw_snapshot st = Some sn"
    using raster_loop_snapshot_iff [OF p(1,2,4,5,3)] by blast
  with raster_packets_outcome [OF p(1,2), of ?a] obtain before' d' after' where
    q: "before @ d # after = before' @ d' # after'" "is_draw d'" "list_all (\<lambda>p. \<not> is_draw p) (before' @ after')"
      "snapshot_matches (packet_words ?b) before' d' sn" by auto
  have "takeWhile (\<lambda>p. \<not> is_draw p) (before @ d # after) = before" "takeWhile (\<lambda>p. \<not> is_draw p) (before' @ d' # after') = before'"
    using p(4,5) q(2,3) by (simp_all add: takeWhile_append2 list_all_iff)
  with q(1) have "before' = before \<and> d' = d" by simp
  with q(4) p(6) plan_snapshot_accepts have "has_value (plan_snapshot sn)" by blast
  with r s st show ?l by (simp add: plan_sce_agc_first_raster_submission_def)
qed

text \<open>A command buffer that draws one triangle to a 64 by 64 RGBA8 target.\<close>

definition sample_commands :: "Type3_command list" where
  "sample_commands =
     [(0x76, 0, [0xc8, 0x1000, 0]), (0x76, 0, [0x08, 0x2000, 1]),
      (0x69, 0, [0x8e, 0xf]), (0x69, 0, [0x318, 0x4000]), (0x69, 0, [0x31c, 0x28]), (0x69, 0, [0x390, 0]),
      (0x69, 0, [0x3b0, 0xfc03f]), (0x69, 0, [0x3b8, 0x1000000]),
      (0x79, 0, [0x242, 4]), (0x2f, 0, [1]), (0x2d, 0, [3, 2])]"

definition sample_submission :: SceAgcDcbSubmission where
  "sample_submission = \<lparr>submission_submit_description_address = 0x1000, submission_command_words_address = 0x2000,
     submission_word_count = 39, submission_flag = 0, submission_raw_submit_description = [],
     submission_opaque_padding = [], submission_command_buffer_bytes = encode_stream sample_commands\<rparr>"

lemma nth_registers_of [simp]:
  "i < kRegisterStateDwords \<Longrightarrow> register_values (registers_of m) ! i = (case m i of None \<Rightarrow> 0 | Some v \<Rightarrow> v)"
  "i < kRegisterStateDwords \<Longrightarrow> register_initialized (registers_of m) ! i \<longleftrightarrow> m i \<noteq> None"
  unfolding registers_of_def RegisterState.select_convs by (simp_all add: nth_map_upt del: upt_rec_numeral)

lemma packet_opcode_encode: "encodable (op, ctl, body) \<Longrightarrow> packet_opcode (encode_command (op, ctl, body)) = op"
  by (simp add: packet_opcode_def type3_header_word_fields)

lemma acceptable_encode:
  "encodable (op, 0, body) \<Longrightarrow> acceptable_packet (encode_command (op, 0, body)) \<longleftrightarrow>
     (if op \<in> {kPm4SetShRegOpcode, kPm4SetContextRegOpcode, kPm4SetUconfigRegOpcode}
      then register_payload kRegisterStateDwords (encode_command (op, 0, body)) \<noteq> None
      else if op = kPm4NumInstancesOpcode then length body = 1 else op = kPm4DrawIndexAutoOpcode \<and> length body = 2)"
  unfolding acceptable_packet_def packet_opcode_encode by (auto simp: type3_header_word_fields)

lemma payload_encode:
  "register_payload window (encode_command (op, ctl, start # vs)) =
     (if vs \<noteq> [] \<and> unat start < 2 ^ 16 \<and> unat start + length vs \<le> window then Some (ucast start, vs) else None)"
  by (auto simp: register_payload_def Suc_le_eq comp_def)

lemma sample_acceptable: "acceptable_submission (encode_stream sample_commands)"
proof -
  let ?before = "map encode_command (butlast sample_commands)" and ?d = "encode_command (0x2d, 0, [3, 2])"
  have ps: "map encode_command sample_commands = ?before @ [?d]" by (simp add: sample_commands_def)
  have t3: "list_all type3_packet (?before @ [?d])"
    unfolding ps [symmetric] by (simp add: sample_commands_def encode_command_packet del: encode_command.simps)
  have words: "concat (?before @ [?d]) = packet_words (encode_stream sample_commands)"
    unfolding ps [symmetric] by (simp add: encode_stream_def)
  have acc: "list_all acceptable_packet (?before @ [?d])"
    unfolding ps [symmetric] by (simp add: sample_commands_def acceptable_encode payload_encode del: encode_command.simps)
  have ops: "list_all (\<lambda>p. \<not> is_draw p) ?before" "is_draw ?d"
    by (simp_all add: sample_commands_def is_draw_def packet_opcode_encode del: encode_command.simps)
  have win: "window_after kPm4SetShRegOpcode ?before = overwrite 8 [0x2000, 1] (overwrite 0xc8 [0x1000, 0] Map.empty)"
    "window_after kPm4SetUconfigRegOpcode ?before = overwrite 0x242 [4] Map.empty"
    "window_after kPm4SetContextRegOpcode ?before = overwrite 0x3b8 [0x1000000] (overwrite 0x3b0 [0xfc03f]
       (overwrite 0x390 [0] (overwrite 0x31c [0x28] (overwrite 0x318 [0x4000] (overwrite 0x8e [0xf] Map.empty)))))"
    by (simp_all add: sample_commands_def window_after_def packet_step_def packet_opcode_encode payload_encode
        del: encode_command.simps)
  have "instances_after ?before = Some 1"
    by (simp add: sample_commands_def instances_after_def packet_opcode_encode del: encode_command.simps) simp
  then have "acceptable_draw ?before ?d"
    unfolding acceptable_draw_def win
    by (simp add: program_set_def overwrite_def resolve_color_target0_context_state_def linear_rgba8_target_def Let_def)
  with t3 words acc ops show ?thesis
    unfolding acceptable_submission_def
    by (intro conjI exI [of _ ?before] exI [of _ ?d] exI [of _ "[]"]) (simp_all add: encode_stream_def)
qed

section \<open>Properties\<close>

text \<open>
  C29. The first raster submission. A plan is returned only for a command buffer that is a sequence
  of type-3 packets with exactly one draw. Its register windows hold, for every register, the last
  value written to it before the draw (packets after the draw do not reach the plan); the program
  addresses are the 48-bit values of two shader registers each, the draw is the accepted one, and
  the color target is the one the context registers encode. Every recorded source names the word of
  the command buffer that holds the value the plan uses, so the three errors for a missing source
  never occur, and no packet makes the planner read outside the buffer. When the host has memory, a
  plan is returned exactly for the acceptable command buffers: supported packets without control
  bits, register ranges inside the windows, one draw, and the registers and the instance count that
  the draw needs set before it.
\<close>

theorem first_raster_submission_correct:
  assumes "host_object (submission_command_buffer_bytes sub)"
  shows "(case plan_sce_agc_first_raster_submission ev alloc sub of
      Undefined \<Rightarrow> False
    | Success pl \<Rightarrow> submission_flag sub = 0 \<and> submission_plan (submission_command_buffer_bytes sub) pl
    | Failure e \<Rightarrow> raster_error_code e \<notin> provenance_errors)
   \<and> (has_value (plan_sce_agc_first_raster_submission no_exceptions (\<lambda>_. No_exception) sub) \<longleftrightarrow>
        submission_flag sub = 0 \<and> acceptable_submission (submission_command_buffer_bytes sub))"
  using plan_submission_outcome [OF assms] submission_accepts [OF assms] by blast

theorem first_raster_submission_correct_witness:
  "has_value (plan_sce_agc_first_raster_submission no_exceptions (\<lambda>_. No_exception) sample_submission) \<and>
   (case plan_sce_agc_first_raster_submission no_exceptions (\<lambda>_. No_exception) sample_submission of
      Undefined \<Rightarrow> False
    | Success pl \<Rightarrow> submission_plan (submission_command_buffer_bytes sample_submission) pl
    | Failure e \<Rightarrow> raster_error_code e \<notin> provenance_errors)"
proof -
  have "host_object (submission_command_buffer_bytes sample_submission)"
    by (simp add: host_object_def sample_submission_def sample_commands_def encode_stream_def)
  from first_raster_submission_correct [OF this, of no_exceptions "\<lambda>_. No_exception"] sample_acceptable show ?thesis
    by (simp add: sample_submission_def split: Result.splits)
qed

end
