(* ===== verification/Gpu_Memory.thy ===== *)
theory Gpu_Memory
  imports Gpu_Registers
begin

text \<open>
  Memory of the graphics processor as the guest sees it: the allocation and the buffer address
  spaces (gpu_allocation_address_space.cpp, gpu_buffer_address_space.cpp), the resolution of a typed
  memory write, and the registry of typed image views over allocations (gpu_image.cpp).

  The two address spaces are separate classes with the same algorithm. Their shared contract is the
  locale \<open>gpu_region_table\<close>, whose laws are the recursion equations of the loops; it is interpreted
  on both. A member function that changes the object returns the new object, and a push_back that
  may throw is decided by a \<open>host_event\<close>. A vector of entries models the private member.
\<close>

section \<open>Half-open ranges\<close>

definition checked_end :: "u64 \<Rightarrow> u64 \<Rightarrow> u64 option" where
  "checked_end base byte_size = (if base > u64_max - byte_size then None else Some (base + byte_size))"

definition ranges_overlap :: "u64 \<Rightarrow> u64 \<Rightarrow> u64 \<Rightarrow> u64 \<Rightarrow> bool" where
  "ranges_overlap left_begin left_end right_begin right_end \<longleftrightarrow> left_begin < right_end \<and> right_begin < left_end"

section \<open>The allocation address space\<close>

record GuestGpuAllocation =
  gpu_allocation_id :: u64
  gpu_allocation_base :: u64
  gpu_allocation_byte_size :: u64

datatype GuestGpuAllocationRegistrationErrorCode =
    zero_sized_allocation
  | allocation_address_range_overflow
  | overlapping_allocation
  | allocation_host_size_unrepresentable
  | allocation_host_allocation_failure

record GuestGpuAllocationRegistrationError =
  allocation_registration_code :: GuestGpuAllocationRegistrationErrorCode
  allocation_registration_base :: u64
  allocation_registration_byte_size :: u64
  conflicting_allocation_id :: "u64 option"

datatype GuestGpuAllocationResolutionErrorCode =
    allocation_zero_sized_request
  | allocation_request_overflow
  | allocation_unmapped_range
  | allocation_partially_mapped_range

record GuestGpuAllocationResolutionError =
  allocation_resolution_code :: GuestGpuAllocationResolutionErrorCode
  allocation_resolution_address :: u64
  allocation_resolution_byte_count :: u64
  intersecting_allocation_id :: "u64 option"

record GuestGpuAllocationResolution =
  resolved_allocation_id :: u64
  resolved_allocation_byte_offset :: u64
  resolved_allocation_byte_count :: u64

type_synonym GuestGpuAllocationAddressSpace = "GuestGpuAllocation list"

definition allocation_registration_error ::
  "GuestGpuAllocationRegistrationErrorCode \<Rightarrow> u64 \<Rightarrow> u64 \<Rightarrow> u64 option \<Rightarrow> GuestGpuAllocationRegistrationError" where
  "allocation_registration_error code base byte_size conflicting =
     \<lparr>allocation_registration_code = code, allocation_registration_base = base,
      allocation_registration_byte_size = byte_size, conflicting_allocation_id = conflicting\<rparr>"

definition allocation_resolution_error ::
  "GuestGpuAllocationResolutionErrorCode \<Rightarrow> u64 \<Rightarrow> u64 \<Rightarrow> u64 option \<Rightarrow> GuestGpuAllocationResolutionError" where
  "allocation_resolution_error code address byte_count intersecting =
     \<lparr>allocation_resolution_code = code, allocation_resolution_address = address,
      allocation_resolution_byte_count = byte_count, intersecting_allocation_id = intersecting\<rparr>"

text \<open>The loop over the registered allocations: the error that ends the registration, if any.\<close>

fun allocation_conflict ::
  "u64 \<Rightarrow> u64 \<Rightarrow> u64 \<Rightarrow> GuestGpuAllocation list \<Rightarrow> GuestGpuAllocationRegistrationError option" where
  "allocation_conflict base byte_size end_value [] = None"
| "allocation_conflict base byte_size end_value (allocation # rest) =
     (case checked_end (gpu_allocation_base allocation) (gpu_allocation_byte_size allocation) of
        None \<Rightarrow> Some (allocation_registration_error allocation_address_range_overflow
                        (gpu_allocation_base allocation) (gpu_allocation_byte_size allocation)
                        (Some (gpu_allocation_id allocation)))
      | Some allocation_end \<Rightarrow>
          if ranges_overlap base end_value (gpu_allocation_base allocation) allocation_end
          then Some (allocation_registration_error overlapping_allocation base byte_size
                       (Some (gpu_allocation_id allocation)))
          else allocation_conflict base byte_size end_value rest)"

definition register_allocation ::
  "host_event \<Rightarrow> u64 \<Rightarrow> u64 \<Rightarrow> GuestGpuAllocationAddressSpace \<Rightarrow>
     (u64, GuestGpuAllocationRegistrationError) Result \<times> GuestGpuAllocationAddressSpace" where
  "register_allocation event base byte_size allocations =
     (if byte_size = 0
      then (Failure (allocation_registration_error zero_sized_allocation base byte_size None), allocations)
      else case checked_end base byte_size of
        None \<Rightarrow> (Failure (allocation_registration_error allocation_address_range_overflow base byte_size None), allocations)
      | Some end_value \<Rightarrow>
         (case allocation_conflict base byte_size end_value allocations of
            Some e \<Rightarrow> (Failure e, allocations)
          | None \<Rightarrow>
             (let new_id = of_nat (length allocations) in
              case event of
                Bad_alloc \<Rightarrow>
                  (Failure (allocation_registration_error allocation_host_allocation_failure base byte_size None), allocations)
              | Length_error \<Rightarrow>
                  (Failure (allocation_registration_error allocation_host_size_unrepresentable base byte_size None), allocations)
              | No_exception \<Rightarrow>
                  (Success new_id,
                   allocations @ [\<lparr>gpu_allocation_id = new_id, gpu_allocation_base = base,
                                   gpu_allocation_byte_size = byte_size\<rparr>]))))"

text \<open>The loop of resolve_range with the identity of the last entry that intersected the request.\<close>

fun resolve_allocation_loop ::
  "u64 \<Rightarrow> u64 \<Rightarrow> u64 \<Rightarrow> u64 option \<Rightarrow> GuestGpuAllocation list \<Rightarrow>
     (GuestGpuAllocationResolution, GuestGpuAllocationResolutionError) Result" where
  "resolve_allocation_loop address byte_count request_end intersecting [] =
     (if intersecting \<noteq> None
      then Failure (allocation_resolution_error allocation_partially_mapped_range address byte_count intersecting)
      else Failure (allocation_resolution_error allocation_unmapped_range address byte_count None))"
| "resolve_allocation_loop address byte_count request_end intersecting (allocation # rest) =
     (case checked_end (gpu_allocation_base allocation) (gpu_allocation_byte_size allocation) of
        None \<Rightarrow> resolve_allocation_loop address byte_count request_end intersecting rest
      | Some allocation_end \<Rightarrow>
          if address \<ge> gpu_allocation_base allocation \<and> request_end \<le> allocation_end
          then Success \<lparr>resolved_allocation_id = gpu_allocation_id allocation,
                        resolved_allocation_byte_offset = address - gpu_allocation_base allocation,
                        resolved_allocation_byte_count = byte_count\<rparr>
          else resolve_allocation_loop address byte_count request_end
                 (if ranges_overlap address request_end (gpu_allocation_base allocation) allocation_end
                  then Some (gpu_allocation_id allocation) else intersecting) rest)"

definition resolve_allocation_range ::
  "u64 \<Rightarrow> u64 \<Rightarrow> GuestGpuAllocationAddressSpace \<Rightarrow>
     (GuestGpuAllocationResolution, GuestGpuAllocationResolutionError) Result" where
  "resolve_allocation_range address byte_count allocations =
     (if byte_count = 0
      then Failure (allocation_resolution_error allocation_zero_sized_request address byte_count None)
      else case checked_end address byte_count of
        None \<Rightarrow> Failure (allocation_resolution_error allocation_request_overflow address byte_count None)
      | Some request_end \<Rightarrow> resolve_allocation_loop address byte_count request_end None allocations)"

definition allocation_entry_at :: "u64 \<Rightarrow> GuestGpuAllocationAddressSpace \<Rightarrow> GuestGpuAllocation option" where
  "allocation_entry_at wanted allocations = find (\<lambda>allocation. gpu_allocation_id allocation = wanted) allocations"

section \<open>The buffer address space\<close>

record GuestGpuBufferRegion =
  gpu_buffer_id :: u64
  gpu_buffer_base :: u64
  gpu_buffer_byte_size :: u64

datatype GuestGpuBufferRegistrationErrorCode =
    zero_sized_region
  | buffer_address_range_overflow
  | overlapping_region
  | buffer_host_size_unrepresentable
  | buffer_host_allocation_failure

record GuestGpuBufferRegistrationError =
  buffer_registration_code :: GuestGpuBufferRegistrationErrorCode
  buffer_registration_base :: u64
  buffer_registration_byte_size :: u64
  conflicting_buffer_id :: "u64 option"

datatype GuestGpuBufferResolutionErrorCode =
    buffer_zero_sized_request
  | buffer_request_overflow
  | buffer_unmapped_range
  | buffer_partially_mapped_range

record GuestGpuBufferResolutionError =
  buffer_resolution_code :: GuestGpuBufferResolutionErrorCode
  buffer_resolution_address :: u64
  buffer_resolution_byte_count :: u64
  intersecting_buffer_id :: "u64 option"

record GuestGpuBufferResolution =
  resolved_buffer_id :: u64
  resolved_buffer_byte_offset :: u64
  resolved_buffer_byte_count :: u64

type_synonym GuestGpuBufferAddressSpace = "GuestGpuBufferRegion list"

definition buffer_registration_error ::
  "GuestGpuBufferRegistrationErrorCode \<Rightarrow> u64 \<Rightarrow> u64 \<Rightarrow> u64 option \<Rightarrow> GuestGpuBufferRegistrationError" where
  "buffer_registration_error code base byte_size conflicting =
     \<lparr>buffer_registration_code = code, buffer_registration_base = base,
      buffer_registration_byte_size = byte_size, conflicting_buffer_id = conflicting\<rparr>"

definition buffer_resolution_error ::
  "GuestGpuBufferResolutionErrorCode \<Rightarrow> u64 \<Rightarrow> u64 \<Rightarrow> u64 option \<Rightarrow> GuestGpuBufferResolutionError" where
  "buffer_resolution_error code address byte_count intersecting =
     \<lparr>buffer_resolution_code = code, buffer_resolution_address = address,
      buffer_resolution_byte_count = byte_count, intersecting_buffer_id = intersecting\<rparr>"

fun buffer_conflict ::
  "u64 \<Rightarrow> u64 \<Rightarrow> u64 \<Rightarrow> GuestGpuBufferRegion list \<Rightarrow> GuestGpuBufferRegistrationError option" where
  "buffer_conflict base byte_size end_value [] = None"
| "buffer_conflict base byte_size end_value (buffer # rest) =
     (case checked_end (gpu_buffer_base buffer) (gpu_buffer_byte_size buffer) of
        None \<Rightarrow> Some (buffer_registration_error buffer_address_range_overflow
                        (gpu_buffer_base buffer) (gpu_buffer_byte_size buffer) (Some (gpu_buffer_id buffer)))
      | Some buffer_end \<Rightarrow>
          if ranges_overlap base end_value (gpu_buffer_base buffer) buffer_end
          then Some (buffer_registration_error overlapping_region base byte_size (Some (gpu_buffer_id buffer)))
          else buffer_conflict base byte_size end_value rest)"

definition register_buffer ::
  "host_event \<Rightarrow> u64 \<Rightarrow> u64 \<Rightarrow> GuestGpuBufferAddressSpace \<Rightarrow>
     (u64, GuestGpuBufferRegistrationError) Result \<times> GuestGpuBufferAddressSpace" where
  "register_buffer event base byte_size buffers =
     (if byte_size = 0
      then (Failure (buffer_registration_error zero_sized_region base byte_size None), buffers)
      else case checked_end base byte_size of
        None \<Rightarrow> (Failure (buffer_registration_error buffer_address_range_overflow base byte_size None), buffers)
      | Some end_value \<Rightarrow>
         (case buffer_conflict base byte_size end_value buffers of
            Some e \<Rightarrow> (Failure e, buffers)
          | None \<Rightarrow>
             (let new_id = of_nat (length buffers) in
              case event of
                Bad_alloc \<Rightarrow>
                  (Failure (buffer_registration_error buffer_host_allocation_failure base byte_size None), buffers)
              | Length_error \<Rightarrow>
                  (Failure (buffer_registration_error buffer_host_size_unrepresentable base byte_size None), buffers)
              | No_exception \<Rightarrow>
                  (Success new_id,
                   buffers @ [\<lparr>gpu_buffer_id = new_id, gpu_buffer_base = base, gpu_buffer_byte_size = byte_size\<rparr>]))))"

fun resolve_buffer_loop ::
  "u64 \<Rightarrow> u64 \<Rightarrow> u64 \<Rightarrow> u64 option \<Rightarrow> GuestGpuBufferRegion list \<Rightarrow>
     (GuestGpuBufferResolution, GuestGpuBufferResolutionError) Result" where
  "resolve_buffer_loop address byte_count request_end intersecting [] =
     (if intersecting \<noteq> None
      then Failure (buffer_resolution_error buffer_partially_mapped_range address byte_count intersecting)
      else Failure (buffer_resolution_error buffer_unmapped_range address byte_count None))"
| "resolve_buffer_loop address byte_count request_end intersecting (buffer # rest) =
     (case checked_end (gpu_buffer_base buffer) (gpu_buffer_byte_size buffer) of
        None \<Rightarrow> resolve_buffer_loop address byte_count request_end intersecting rest
      | Some buffer_end \<Rightarrow>
          if address \<ge> gpu_buffer_base buffer \<and> request_end \<le> buffer_end
          then Success \<lparr>resolved_buffer_id = gpu_buffer_id buffer,
                        resolved_buffer_byte_offset = address - gpu_buffer_base buffer,
                        resolved_buffer_byte_count = byte_count\<rparr>
          else resolve_buffer_loop address byte_count request_end
                 (if ranges_overlap address request_end (gpu_buffer_base buffer) buffer_end
                  then Some (gpu_buffer_id buffer) else intersecting) rest)"

definition resolve_buffer_range ::
  "u64 \<Rightarrow> u64 \<Rightarrow> GuestGpuBufferAddressSpace \<Rightarrow> (GuestGpuBufferResolution, GuestGpuBufferResolutionError) Result" where
  "resolve_buffer_range address byte_count buffers =
     (if byte_count = 0
      then Failure (buffer_resolution_error buffer_zero_sized_request address byte_count None)
      else case checked_end address byte_count of
        None \<Rightarrow> Failure (buffer_resolution_error buffer_request_overflow address byte_count None)
      | Some request_end \<Rightarrow> resolve_buffer_loop address byte_count request_end None buffers)"

definition buffer_entry_at :: "u64 \<Rightarrow> GuestGpuBufferAddressSpace \<Rightarrow> GuestGpuBufferRegion option" where
  "buffer_entry_at wanted buffers = find (\<lambda>buffer. gpu_buffer_id buffer = wanted) buffers"

datatype GpuMemoryWriteResolutionError =
    payload_size_unrepresentable
  | address_resolution_failure GuestGpuBufferResolutionError

text \<open>The operation of the resolution is a memory write: its destination and its values.\<close>

definition resolve_gpu_memory_write ::
  "u64 \<Rightarrow> u32 list \<Rightarrow> GuestGpuBufferAddressSpace \<Rightarrow> (GuestGpuBufferResolution, GpuMemoryWriteResolutionError) Result" where
  "resolve_gpu_memory_write destination write_values address_space =
     (let value_count = (of_nat (length write_values) :: u64) in
      if value_count > u64_max div 4 then Failure payload_size_unrepresentable
      else
        let byte_count = value_count * 4 in
        and_then (resolve_buffer_range destination byte_count address_space) address_resolution_failure Success)"

section \<open>Image views\<close>

record GuestGpuImageView =
  view_id :: u64
  view_allocation_id :: u64
  view_allocation_byte_offset :: u64
  view_descriptor :: GuestGpuImageDescriptor

datatype GuestGpuImageRegistrationErrorCode =
    view_zero_dimension
  | view_zero_bytes_per_pixel
  | view_logical_size_overflow
  | view_logical_size_mismatch
  | view_zero_pitch
  | view_pitch_size_overflow
  | view_pitch_size_mismatch
  | view_pitch_smaller_than_width
  | view_zero_base_alignment
  | view_misaligned_base_address
  | view_zero_surface_size
  | view_surface_size_overflow
  | view_surface_size_mismatch
  | view_allocation_resolution_failure
  | view_host_size_unrepresentable
  | view_host_allocation_failure

datatype GuestGpuImageRegistrationError =
  GuestGpuImageRegistrationError GuestGpuImageRegistrationErrorCode "GuestGpuAllocationResolutionError option"

type_synonym GuestGpuImageRegistry = "GuestGpuImageView list"

text \<open>The checks of register_view on the descriptor, in their order: the error of the first that fails.\<close>

definition image_descriptor_error :: "GuestGpuImageDescriptor \<Rightarrow> GuestGpuImageRegistrationErrorCode option" where
  "image_descriptor_error descriptor =
     (let layout = image_layout descriptor in
      if image_width descriptor = 0 \<or> image_height descriptor = 0 then Some view_zero_dimension
      else if image_bytes_per_pixel descriptor = 0 then Some view_zero_bytes_per_pixel
      else case checked_multiply (ucast (image_width descriptor)) (ucast (image_height descriptor)) of
        None \<Rightarrow> Some view_logical_size_overflow
      | Some pixel_count \<Rightarrow>
         (case checked_multiply pixel_count (ucast (image_bytes_per_pixel descriptor)) of
            None \<Rightarrow> Some view_logical_size_overflow
          | Some expected_logical_bytes \<Rightarrow>
              if image_logical_byte_count descriptor \<noteq> expected_logical_bytes then Some view_logical_size_mismatch
              else if surface_pitch_pixels layout = 0 \<or> surface_pitch_bytes layout = 0 then Some view_zero_pitch
              else if surface_pitch_pixels layout < image_width descriptor then Some view_pitch_smaller_than_width
              else case checked_multiply (ucast (surface_pitch_pixels layout)) (ucast (image_bytes_per_pixel descriptor)) of
                None \<Rightarrow> Some view_pitch_size_overflow
              | Some expected_pitch_bytes \<Rightarrow>
                  if expected_pitch_bytes > 0xffffffff then Some view_pitch_size_overflow
                  else if ucast (surface_pitch_bytes layout) \<noteq> expected_pitch_bytes then Some view_pitch_size_mismatch
                  else if surface_base_alignment_bytes layout = 0 then Some view_zero_base_alignment
                  else if image_base_address descriptor mod ucast (surface_base_alignment_bytes layout) \<noteq> 0
                  then Some view_misaligned_base_address
                  else if surface_surface_byte_count layout = 0 then Some view_zero_surface_size
                  else case checked_multiply (ucast (surface_pitch_bytes layout)) (ucast (image_height descriptor)) of
                    None \<Rightarrow> Some view_surface_size_overflow
                  | Some expected_surface_bytes \<Rightarrow>
                      if surface_surface_byte_count layout \<noteq> expected_surface_bytes
                      then Some view_surface_size_mismatch else None))"

definition register_view ::
  "host_event \<Rightarrow> GuestGpuImageDescriptor \<Rightarrow> GuestGpuAllocationAddressSpace \<Rightarrow> GuestGpuImageRegistry \<Rightarrow>
     (u64, GuestGpuImageRegistrationError) Result \<times> GuestGpuImageRegistry" where
  "register_view event descriptor allocations views =
     (case image_descriptor_error descriptor of
        Some code \<Rightarrow> (Failure (GuestGpuImageRegistrationError code None), views)
      | None \<Rightarrow>
         (case resolve_allocation_range (image_base_address descriptor)
                 (surface_surface_byte_count (image_layout descriptor)) allocations of
            Undefined \<Rightarrow> (Undefined, views)
          | Failure e \<Rightarrow> (Failure (GuestGpuImageRegistrationError view_allocation_resolution_failure (Some e)), views)
          | Success allocation \<Rightarrow>
             (let new_id = of_nat (length views) in
              case event of
                Bad_alloc \<Rightarrow> (Failure (GuestGpuImageRegistrationError view_host_allocation_failure None), views)
              | Length_error \<Rightarrow> (Failure (GuestGpuImageRegistrationError view_host_size_unrepresentable None), views)
              | No_exception \<Rightarrow>
                  (Success new_id,
                   views @ [\<lparr>view_id = new_id, view_allocation_id = resolved_allocation_id allocation,
                             view_allocation_byte_offset = resolved_allocation_byte_offset allocation,
                             view_descriptor = descriptor\<rparr>]))))"

datatype GuestGpuImageResolutionErrorCode = image_not_found | image_ambiguous

datatype GuestGpuImageResolutionError =
  GuestGpuImageResolutionError GuestGpuImageResolutionErrorCode nat "u64 option"

text \<open>The loop of resolve_exact: the number of matching views and the first of them.\<close>

fun count_matching_views ::
  "GuestGpuImageDescriptor \<Rightarrow> nat \<Rightarrow> GuestGpuImageView option \<Rightarrow> GuestGpuImageView list \<Rightarrow> nat \<times> GuestGpuImageView option" where
  "count_matching_views descriptor match_count first [] = (match_count, first)"
| "count_matching_views descriptor match_count first (view # rest) =
     (if view_descriptor view = descriptor
      then count_matching_views descriptor (match_count + 1) (if first = None then Some view else first) rest
      else count_matching_views descriptor match_count first rest)"

definition resolve_exact ::
  "GuestGpuImageDescriptor \<Rightarrow> GuestGpuImageRegistry \<Rightarrow> (GuestGpuImageView, GuestGpuImageResolutionError) Result" where
  "resolve_exact descriptor views =
     (case count_matching_views descriptor 0 None views of
        (match_count, first) \<Rightarrow>
          if match_count = 0 then Failure (GuestGpuImageResolutionError image_not_found 0 None)
          else case first of
            None \<Rightarrow> Undefined
          | Some view \<Rightarrow>
              if match_count \<noteq> 1
              then Failure (GuestGpuImageResolutionError image_ambiguous match_count (Some (view_id view)))
              else Success view)"

definition image_entry_at :: "u64 \<Rightarrow> GuestGpuImageRegistry \<Rightarrow> GuestGpuImageView option" where
  "image_entry_at wanted views = find (\<lambda>view. view_id view = wanted) views"

section \<open>Tables of disjoint regions\<close>

text \<open>
  The specification of an address space: a list of regions (base and size) that are not empty, end
  below the top of the address space and are pairwise disjoint.
\<close>

type_synonym region = "u64 \<times> u64"

fun region_limit :: "region \<Rightarrow> nat" where
  "region_limit (b, n) = unat b + unat n"

definition region_covers :: "u64 \<Rightarrow> u64 \<Rightarrow> region \<Rightarrow> bool" where
  "region_covers a n r \<longleftrightarrow> unat (fst r) \<le> unat a \<and> unat a + unat n \<le> region_limit r"

definition region_touches :: "u64 \<Rightarrow> u64 \<Rightarrow> region \<Rightarrow> bool" where
  "region_touches a n r \<longleftrightarrow> unat a < region_limit r \<and> unat (fst r) < unat a + unat n"

definition region_ok :: "region \<Rightarrow> bool" where
  "region_ok r \<longleftrightarrow> snd r \<noteq> 0 \<and> region_limit r < 2 ^ 64"

definition regions_wf :: "region list \<Rightarrow> bool" where
  "regions_wf rs \<longleftrightarrow> list_all region_ok rs \<and> sorted_wrt (\<lambda>r s. \<not> region_touches (fst s) (snd s) r) rs"

lemma regions_wf_Nil [simp]: "regions_wf []"
  by (simp add: regions_wf_def)

lemma regions_wf_snoc:
  "regions_wf (rs @ [(b, n)]) \<longleftrightarrow> regions_wf rs \<and> region_ok (b, n) \<and> list_all (\<lambda>r. \<not> region_touches b n r) rs"
  by (auto simp: regions_wf_def sorted_wrt_append list_all_iff)

lemma checked_end_eq: "checked_end b n = (if unat b + unat n < 2 ^ 64 then Some (b + n) else None)"
  by (simp add: checked_end_def gt_max_minus_iff not_less)

lemma checked_end_region:
  "region_ok (b, n) \<Longrightarrow> checked_end b n = Some (b + n) \<and> unat (b + n) = region_limit (b, n)"
  by (simp add: region_ok_def checked_end_eq unat_add_no_wrap)

lemma ranges_overlap_touches:
  assumes "unat a + unat n < 2 ^ 64" "unat b + unat m < 2 ^ 64"
  shows "ranges_overlap a (a + n) b (b + m) \<longleftrightarrow> region_touches a n (b, m)"
  using assms by (simp add: ranges_overlap_def region_touches_def word_less_nat_alt unat_add_no_wrap)

lemma contained_covers:
  assumes "unat a + unat n < 2 ^ 64" "unat b + unat m < 2 ^ 64"
  shows "a \<ge> b \<and> a + n \<le> b + m \<longleftrightarrow> region_covers a n (b, m)"
  using assms by (simp add: region_covers_def word_le_nat_alt unat_add_no_wrap)

lemma covers_touches: "n \<noteq> 0 \<Longrightarrow> region_covers a n r \<Longrightarrow> region_touches a n r"
  using unat_gt_0 [of n] by (cases r) (auto simp: region_covers_def region_touches_def)

text \<open>A request inside one region touches no other, so the owner of a range is unique.\<close>

lemma covers_disjoint:
  assumes "regions_wf rs" "i < length rs" "j < length rs" "i \<noteq> j" "region_covers a n (rs ! i)"
  shows "\<not> region_touches a n (rs ! j)"
proof -
  have apart: "\<not> region_touches (fst (rs ! l)) (snd (rs ! l)) (rs ! k)" if "k < l" "l < length rs" for k l
    using assms(1) that sorted_wrt_nth_less unfolding regions_wf_def by fast
  show ?thesis
  proof (cases "i < j")
    case True
    with apart [of i j] assms show ?thesis
      by (cases "rs ! i"; cases "rs ! j") (auto simp: region_covers_def region_touches_def)
  next
    case False
    with apart [of j i] assms show ?thesis
      by (cases "rs ! i"; cases "rs ! j") (auto simp: region_covers_def region_touches_def)
  qed
qed

lemma covers_unique:
  assumes "regions_wf rs" "i < length rs" "j < length rs" "n \<noteq> 0"
    "region_covers a n (rs ! i)" "region_covers a n (rs ! j)"
  shows "i = j"
  using covers_disjoint [OF assms(1-3), of a n] covers_touches [OF assms(4,6)] assms(5) by blast

text \<open>
  The contract of an address space. \<open>conflict\<close> and \<open>resolve_loop\<close> are its two loops; the laws are
  their recursion equations and the case distinctions of the two member functions.
\<close>

locale gpu_region_table =
  fixes region_id region_base region_size :: "'r \<Rightarrow> u64"
    and conflict :: "u64 \<Rightarrow> u64 \<Rightarrow> u64 \<Rightarrow> 'r list \<Rightarrow> 'e option"
    and register :: "host_event \<Rightarrow> u64 \<Rightarrow> u64 \<Rightarrow> 'r list \<Rightarrow> (u64, 'e) Result \<times> 'r list"
    and resolution :: "u64 \<Rightarrow> u64 \<Rightarrow> u64 \<Rightarrow> 's"
    and zero_error overflow_error unmapped_error :: "u64 \<Rightarrow> u64 \<Rightarrow> 'f"
    and partial_error :: "u64 \<Rightarrow> u64 \<Rightarrow> u64 \<Rightarrow> 'f"
    and resolve_loop :: "u64 \<Rightarrow> u64 \<Rightarrow> u64 \<Rightarrow> u64 option \<Rightarrow> 'r list \<Rightarrow> ('s, 'f) Result"
    and resolve :: "u64 \<Rightarrow> u64 \<Rightarrow> 'r list \<Rightarrow> ('s, 'f) Result"
  assumes conflict_Nil: "conflict b n e [] = None"
    and conflict_Cons: "conflict b n e (r # rs) = None \<longleftrightarrow>
      (\<exists>l. checked_end (region_base r) (region_size r) = Some l \<and> \<not> ranges_overlap b e (region_base r) l)
      \<and> conflict b n e rs = None"
    and register_accepted: "n \<noteq> 0 \<Longrightarrow> checked_end b n = Some e \<Longrightarrow> conflict b n e rs = None \<Longrightarrow> ev = No_exception \<Longrightarrow>
      \<exists>r. register ev b n rs = (Success (of_nat (length rs)), rs @ [r]) \<and> region_id r = of_nat (length rs)
        \<and> region_base r = b \<and> region_size r = n"
    and register_refused: "\<not> (n \<noteq> 0 \<and> (\<exists>e. checked_end b n = Some e \<and> conflict b n e rs = None) \<and> ev = No_exception) \<Longrightarrow>
      \<exists>err. register ev b n rs = (Failure err, rs)"
    and resolve_loop_Nil: "resolve_loop a n e seen [] =
      Failure (case seen of None \<Rightarrow> unmapped_error a n | Some i \<Rightarrow> partial_error a n i)"
    and resolve_loop_Cons: "checked_end (region_base r) (region_size r) = Some l \<Longrightarrow> resolve_loop a n e seen (r # rs) =
      (if a \<ge> region_base r \<and> e \<le> l then Success (resolution (region_id r) (a - region_base r) n)
       else resolve_loop a n e (if ranges_overlap a e (region_base r) l then Some (region_id r) else seen) rs)"
    and resolve_eq: "resolve a n rs =
      (if n = 0 then Failure (zero_error a n)
       else case checked_end a n of None \<Rightarrow> Failure (overflow_error a n) | Some e \<Rightarrow> resolve_loop a n e None rs)"
begin

definition regions :: "'r list \<Rightarrow> region list" where
  "regions = map (\<lambda>r. (region_base r, region_size r))"

text \<open>The representation invariant: disjoint regions whose identities are their positions.\<close>

definition table_wf :: "'r list \<Rightarrow> bool" where
  "table_wf rs \<longleftrightarrow> regions_wf (regions rs) \<and> map region_id rs = map of_nat [0..<length rs]"

lemma table_wf_Nil: "table_wf []"
  by (simp add: table_wf_def regions_def)

lemma conflict_None:
  assumes "list_all region_ok (regions rs)" and "unat b + unat n < 2 ^ 64"
  shows "conflict b n (b + n) rs = None \<longleftrightarrow> list_all (\<lambda>r. \<not> region_touches b n r) (regions rs)"
  using assms(1)
proof (induction rs)
  case Nil
  then show ?case by (simp add: conflict_Nil regions_def)
next
  case (Cons r rs)
  then have ok: "region_ok (region_base r, region_size r)" by (simp add: regions_def)
  with Cons assms(2) show ?case
    by (simp add: conflict_Cons checked_end_region ranges_overlap_touches region_ok_def regions_def)
qed

text \<open>Registration refines the addition of a disjoint region; a refused one changes nothing.\<close>

lemma register_spec:
  assumes "table_wf rs"
  shows "if region_ok (b, n) \<and> list_all (\<lambda>r. \<not> region_touches b n r) (regions rs) \<and> ev = No_exception
    then \<exists>rs'. register ev b n rs = (Success (of_nat (length rs)), rs') \<and> table_wf rs' \<and> regions rs' = regions rs @ [(b, n)]
    else \<exists>err. register ev b n rs = (Failure err, rs)"
proof (cases "region_ok (b, n) \<and> list_all (\<lambda>r. \<not> region_touches b n r) (regions rs) \<and> ev = No_exception")
  case True
  have wf: "regions_wf (regions rs)" "map region_id rs = map of_nat [0..<length rs]"
    using assms unfolding table_wf_def by blast+
  then have "conflict b n (b + n) rs = None"
    using True conflict_None [of rs b n] by (simp add: regions_wf_def region_ok_def)
  then obtain r where r: "register ev b n rs = (Success (of_nat (length rs)), rs @ [r])"
      "region_id r = of_nat (length rs)" "region_base r = b" "region_size r = n"
    using True register_accepted [of n b "b + n" rs ev] checked_end_region [of b n] by (auto simp: region_ok_def)
  have "regions (rs @ [r]) = regions rs @ [(b, n)]" using r by (simp add: regions_def)
  with True wf r show ?thesis by (simp add: table_wf_def regions_wf_snoc)
next
  case False
  moreover have "list_all region_ok (regions rs)" using assms unfolding table_wf_def regions_wf_def by blast
  ultimately have "\<not> (n \<noteq> 0 \<and> (\<exists>e. checked_end b n = Some e \<and> conflict b n e rs = None) \<and> ev = No_exception)"
    using conflict_None [of rs b n] by (auto simp: checked_end_eq region_ok_def)
  from register_refused [OF this] show ?thesis unfolding if_not_P [OF False] .
qed

lemma resolve_loop_spec:
  assumes "list_all region_ok (regions rs)" and "unat a + unat n < 2 ^ 64"
  shows "resolve_loop a n (a + n) seen rs =
    (case find (\<lambda>r. region_covers a n (region_base r, region_size r)) rs of
       Some r \<Rightarrow> Success (resolution (region_id r) (a - region_base r) n)
     | None \<Rightarrow> Failure (case filter (\<lambda>r. region_touches a n (region_base r, region_size r)) rs of
           [] \<Rightarrow> (case seen of None \<Rightarrow> unmapped_error a n | Some i \<Rightarrow> partial_error a n i)
         | t # ts \<Rightarrow> partial_error a n (region_id (last (t # ts)))))"
  using assms(1)
proof (induction rs arbitrary: seen)
  case Nil
  then show ?case by (simp add: resolve_loop_Nil)
next
  case (Cons r rs)
  then have ok: "region_ok (region_base r, region_size r)" and rest: "list_all region_ok (regions rs)"
    by (simp_all add: regions_def)
  from ok have lim: "unat (region_base r) + unat (region_size r) < 2 ^ 64"
    and e: "checked_end (region_base r) (region_size r) = Some (region_base r + region_size r)"
    by (simp_all add: region_ok_def checked_end_eq)
  show ?case
    unfolding resolve_loop_Cons [OF e] contained_covers [OF assms(2) lim] ranges_overlap_touches [OF assms(2) lim]
      Cons.IH [OF rest]
    by (simp split: list.split option.split)
qed

text \<open>
  Resolution refines the search for the region that covers the request; a failure tells an empty or
  wrapping request, a request that no region touches, and one that leaves a region it touches.
\<close>

lemma resolve_spec:
  assumes "table_wf rs"
  shows "case resolve a n rs of
      Success s \<Rightarrow> n \<noteq> 0 \<and> (\<exists>!k. k < length rs \<and> region_covers a n (regions rs ! k))
        \<and> (\<exists>k < length rs. region_covers a n (regions rs ! k) \<and> s = resolution (of_nat k) (a - fst (regions rs ! k)) n)
    | Failure e \<Rightarrow> (n = 0 \<and> e = zero_error a n)
        \<or> (n \<noteq> 0 \<and> 2 ^ 64 \<le> unat a + unat n \<and> e = overflow_error a n)
        \<or> (n \<noteq> 0 \<and> unat a + unat n < 2 ^ 64 \<and> list_all (\<lambda>r. \<not> region_touches a n r) (regions rs) \<and> e = unmapped_error a n)
        \<or> (n \<noteq> 0 \<and> unat a + unat n < 2 ^ 64 \<and> list_all (\<lambda>r. \<not> region_covers a n r) (regions rs)
           \<and> (\<exists>k < length rs. region_touches a n (regions rs ! k) \<and> e = partial_error a n (of_nat k)))
    | Undefined \<Rightarrow> False"
proof -
  have wf: "regions_wf (regions rs)" and ids: "map region_id rs = map of_nat [0..<length rs]"
    using assms unfolding table_wf_def by blast+
  have id_at: "region_id (rs ! k) = of_nat k" if "k < length rs" for k
    using arg_cong [OF ids, of "\<lambda>xs. xs ! k"] that by simp
  have at: "regions rs ! k = (region_base (rs ! k), region_size (rs ! k))" if "k < length rs" for k
    using that by (simp add: regions_def)
  show ?thesis
  proof (cases "n = 0 \<or> 2 ^ 64 \<le> unat a + unat n")
    case True
    then show ?thesis by (auto simp: resolve_eq checked_end_eq)
  next
    case False
    then have fits: "unat a + unat n < 2 ^ 64" and n: "n \<noteq> 0" by simp_all
    have res: "resolve a n rs = resolve_loop a n (a + n) None rs"
      using False by (simp add: resolve_eq checked_end_eq)
    note loop = resolve_loop_spec [OF _ fits, of rs None, folded res]
    have ok: "list_all region_ok (regions rs)" using wf unfolding regions_wf_def by blast
    let ?cov = "\<lambda>r. region_covers a n (region_base r, region_size r)"
    let ?tou = "\<lambda>r. region_touches a n (region_base r, region_size r)"
    show ?thesis
    proof (cases "find ?cov rs")
      case (Some r)
      then obtain k where k: "k < length rs" "?cov (rs ! k)" "r = rs ! k" by (auto simp: find_Some_iff)
      have "\<exists>!k. k < length rs \<and> region_covers a n (regions rs ! k)"
        using k at covers_unique [OF wf _ _ n] by (intro ex1I [of _ k]) (auto simp: regions_def)
      with k n at [OF k(1)] id_at [OF k(1)] Some loop [OF ok] show ?thesis by auto
    next
      case None
      then have none: "list_all (\<lambda>r. \<not> region_covers a n r) (regions rs)"
        by (auto simp: find_None_iff list_all_iff regions_def)
      show ?thesis
      proof (cases "filter ?tou rs")
        case Nil
        then have "list_all (\<lambda>r. \<not> region_touches a n r) (regions rs)"
          by (auto simp: filter_empty_conv list_all_iff regions_def)
        with loop [OF ok] None Nil n fits show ?thesis by simp
      next
        case (Cons t ts)
        then have "last (t # ts) \<in> set (filter ?tou rs)" by (metis last_in_set list.distinct(1))
        then obtain k where k: "k < length rs" "rs ! k = last (t # ts)" "?tou (rs ! k)"
          by (auto simp: in_set_conv_nth)
        with loop [OF ok] None Cons n fits none at [OF k(1)] id_at [OF k(1)] show ?thesis by (auto simp del: last.simps)
      qed
    qed
  qed
qed

lemma resolve_covered:
  assumes "table_wf rs" "n \<noteq> 0" "k < length rs" "region_covers a n (regions rs ! k)"
  shows "resolve a n rs = Success (resolution (of_nat k) (a - fst (regions rs ! k)) n)"
proof -
  have wf: "regions_wf (regions rs)" using assms unfolding table_wf_def by blast
  have len: "length (regions rs) = length rs" by (simp add: regions_def)
  have "region_limit (regions rs ! k) < 2 ^ 64"
    using wf assms(3) unfolding regions_wf_def region_ok_def by (simp add: list_all_length len)
  then have "unat a + unat n < 2 ^ 64" using assms(4) by (simp add: region_covers_def)
  moreover have "\<not> list_all (\<lambda>r. \<not> region_covers a n r) (regions rs)" "\<not> list_all (\<lambda>r. \<not> region_touches a n r) (regions rs)"
    using assms(3,4) covers_touches [OF assms(2,4)] len by (auto simp: list_all_length)
  ultimately obtain s j where "resolve a n rs = Success s" "j < length rs" "region_covers a n (regions rs ! j)"
    "s = resolution (of_nat j) (a - fst (regions rs ! j)) n"
    using resolve_spec [OF assms(1), where a = a and n = n] assms(2) by (cases "resolve a n rs") auto
  moreover from this have "j = k" using covers_unique [OF wf _ _ assms(2), of j k a] assms(3,4) len by simp
  ultimately show ?thesis by simp
qed

text \<open>Registration of further regions does not change what a resolved request resolves to.\<close>

lemma resolve_stable:
  assumes "table_wf rs" "resolve a n rs = Success s"
  shows "resolve a n (snd (register ev b m rs)) = Success s"
proof -
  from resolve_spec [OF assms(1), where a = a and n = n] assms(2) obtain k where
    k: "n \<noteq> 0" "k < length rs" "region_covers a n (regions rs ! k)" "s = resolution (of_nat k) (a - fst (regions rs ! k)) n"
    by auto
  have len: "length (regions rs) = length rs" for rs by (simp add: regions_def)
  from register_spec [OF assms(1), where b = b and n = m and ev = ev] consider
      "snd (register ev b m rs) = rs"
    | rs' where "snd (register ev b m rs) = rs'" "table_wf rs'" "regions rs' = regions rs @ [(b, m)]"
    by (auto split: if_splits)
  then show ?thesis
  proof cases
    case 1
    with assms(2) show ?thesis by simp
  next
    case 2
    then have "k < length rs'" "regions rs' ! k = regions rs ! k"
      using k(2) len [of rs] len [of rs'] by (auto simp: nth_append)
    with resolve_covered [OF 2(2) k(1), of k a] k 2(1) show ?thesis by simp
  qed
qed

lemma table_wf_register: "table_wf rs \<Longrightarrow> table_wf (snd (register ev b n rs))"
  using register_spec [of rs, where b = b and n = n and ev = ev] by (auto split: if_splits)

end

interpretation allocation_space: gpu_region_table gpu_allocation_id gpu_allocation_base gpu_allocation_byte_size
  allocation_conflict register_allocation GuestGpuAllocationResolution.make
  "\<lambda>a n. allocation_resolution_error allocation_zero_sized_request a n None"
  "\<lambda>a n. allocation_resolution_error allocation_request_overflow a n None"
  "\<lambda>a n. allocation_resolution_error allocation_unmapped_range a n None"
  "\<lambda>a n i. allocation_resolution_error allocation_partially_mapped_range a n (Some i)"
  resolve_allocation_loop resolve_allocation_range
  by unfold_locales
    (auto simp: register_allocation_def resolve_allocation_range_def Let_def GuestGpuAllocationResolution.make_def
      split: option.splits host_event.splits)

interpretation buffer_space: gpu_region_table gpu_buffer_id gpu_buffer_base gpu_buffer_byte_size
  buffer_conflict register_buffer GuestGpuBufferResolution.make
  "\<lambda>a n. buffer_resolution_error buffer_zero_sized_request a n None"
  "\<lambda>a n. buffer_resolution_error buffer_request_overflow a n None"
  "\<lambda>a n. buffer_resolution_error buffer_unmapped_range a n None"
  "\<lambda>a n i. buffer_resolution_error buffer_partially_mapped_range a n (Some i)"
  resolve_buffer_loop resolve_buffer_range
  by unfold_locales
    (auto simp: register_buffer_def resolve_buffer_range_def Let_def GuestGpuBufferResolution.make_def
      split: option.splits host_event.splits)

section \<open>Image views over allocations\<close>

text \<open>
  A descriptor is consistent when its byte counts are the exact products of its dimensions, without
  wrap-around, its pitch is not below the width and its base address is aligned.
\<close>

definition consistent_image :: "GuestGpuImageDescriptor \<Rightarrow> bool" where
  "consistent_image d \<longleftrightarrow>
     (let l = image_layout d in
      0 < unat (image_width d) \<and> 0 < unat (image_height d) \<and> 0 < unat (image_bytes_per_pixel d)
      \<and> unat (image_logical_byte_count d) = unat (image_width d) * unat (image_height d) * unat (image_bytes_per_pixel d)
      \<and> unat (image_width d) \<le> unat (surface_pitch_pixels l)
      \<and> unat (surface_pitch_bytes l) = unat (surface_pitch_pixels l) * unat (image_bytes_per_pixel d)
      \<and> 0 < unat (surface_base_alignment_bytes l)
      \<and> unat (surface_base_alignment_bytes l) dvd unat (image_base_address d)
      \<and> unat (surface_surface_byte_count l) = unat (surface_pitch_bytes l) * unat (image_height d))"

lemma unat_u32_ucast [simp]: "unat (ucast (w :: u32) :: u64) = unat w"
  by (simp add: unat_ucast_up)

lemma unat_u32_lt: "unat (w :: u32) < 2 ^ 32"
  using unsigned_less [of w] by simp

lemma u32_zero_iff: "(w :: u32) = 0 \<longleftrightarrow> unat w = 0" and u64_zero_iff: "(v :: u64) = 0 \<longleftrightarrow> unat v = 0"
  by (simp_all add: word_unat_eq_iff)

lemma u32_product: "unat (a :: u32) * unat (b :: u32) < 2 ^ 64"
proof -
  have "unat a * unat b < 2 ^ 32 * 2 ^ 32" using unat_u32_lt [of a] unat_u32_lt [of b] by (intro mult_strict_mono) simp_all
  then show ?thesis by (simp only: power_add [symmetric]) simp
qed

lemma checked_multiply_u32:
  "checked_multiply (ucast (a :: u32)) (ucast (b :: u32)) = Some (ucast a * ucast b)"
  "unat (ucast a * ucast b :: u64) = unat a * unat b"
  using u32_product [of a b] unat_mult_no_wrap [of "ucast a" "ucast b"] by (simp_all add: checked_multiply_small)

lemma checked_multiply_eq_iff:
  "checked_multiply a b = Some c \<longleftrightarrow> unat c = unat a * unat b"
proof
  show "checked_multiply a b = Some c \<Longrightarrow> unat c = unat a * unat b"
    by (auto simp: checked_multiply_eq checked_mul_u64_Some unat_mult_no_wrap)
  assume "unat c = unat a * unat b"
  moreover from this have "unat a * unat b < 2 ^ 64" using unat_lt_2p64 [of c] by simp
  ultimately show "checked_multiply a b = Some c"
    by (auto simp: checked_multiply_eq checked_mul_u64_Some word_unat_eq_iff unat_mult_no_wrap)
qed

lemma image_descriptor_error_None: "image_descriptor_error d = None \<longleftrightarrow> consistent_image d"
proof -
  let ?w = "image_width d" and ?h = "image_height d" and ?b = "image_bytes_per_pixel d" and ?l = "image_layout d"
  let ?pp = "surface_pitch_pixels ?l" and ?pb = "surface_pitch_bytes ?l" and ?al = "surface_base_alignment_bytes ?l"
    and ?sb = "surface_surface_byte_count ?l"
  have align: "image_base_address d mod ucast ?al = 0 \<longleftrightarrow> unat ?al dvd unat (image_base_address d)"
    by (simp add: word_unat_eq_iff unat_mod dvd_eq_mod_eq_0)
  have pitch: "(\<not> ucast ?pp * ucast ?b > (0xffffffff :: u64) \<and> ucast ?pb = (ucast ?pp * ucast ?b :: u64))
      \<longleftrightarrow> unat ?pb = unat ?pp * unat ?b"
    using unat_u32_lt [of ?pb] by (auto simp: word_less_nat_alt word_unat_eq_iff checked_multiply_u32(2))
  have surf: "?sb = ucast ?pb * ucast ?h \<longleftrightarrow> unat ?sb = unat ?pb * unat ?h"
    by (simp add: word_unat_eq_iff checked_multiply_u32(2))
  have logical: "checked_multiply (ucast ?w * ucast ?h) (ucast ?b) = Some (image_logical_byte_count d)
      \<longleftrightarrow> unat (image_logical_byte_count d) = unat ?w * unat ?h * unat ?b"
    by (simp add: checked_multiply_eq_iff checked_multiply_u32(2))
  have "image_descriptor_error d = None \<longleftrightarrow>
      ?w \<noteq> 0 \<and> ?h \<noteq> 0 \<and> ?b \<noteq> 0 \<and> checked_multiply (ucast ?w * ucast ?h) (ucast ?b) = Some (image_logical_byte_count d)
      \<and> ?pp \<noteq> 0 \<and> ?pb \<noteq> 0 \<and> ?w \<le> ?pp
      \<and> (\<not> ucast ?pp * ucast ?b > (0xffffffff :: u64) \<and> ucast ?pb = (ucast ?pp * ucast ?b :: u64))
      \<and> ?al \<noteq> 0 \<and> image_base_address d mod ucast ?al = 0 \<and> ?sb \<noteq> 0 \<and> ?sb = ucast ?pb * ucast ?h"
    unfolding image_descriptor_error_def Let_def checked_multiply_u32
    by (auto split: option.split)
  also have "\<dots> \<longleftrightarrow> consistent_image d"
    unfolding align pitch surf logical
    unfolding consistent_image_def Let_def u32_zero_iff u64_zero_iff word_le_nat_alt
    by auto
  finally show ?thesis .
qed

text \<open>The image planned for a decoded color target is consistent.\<close>

lemma color_target_image_consistent:
  assumes t: "resolve_color_target0_context_state regs = Success t" and d: "rgba8_image_of t d"
  shows "consistent_image d"
proof -
  note b = resolved_target_bounds [OF t]
  from b(5) have "unat (target_base_address t) mod 256 = 0" by (simp add: word_unat_eq_iff unat_mod)
  then have "256 dvd unat (target_base_address t)" by blast
  moreover have "unat (target_width t) \<le> round_up (unat (target_width t)) 64"
    using round_up_padding [of 64 "unat (target_width t)"] by linarith
  ultimately show ?thesis
    using d b(1,3) by (simp add: consistent_image_def rgba8_image_of_def Let_def word_less_nat_alt)
qed

text \<open>A view lies in the allocation it names, at its recorded offset.\<close>

definition view_placed :: "GuestGpuAllocationAddressSpace \<Rightarrow> GuestGpuImageView \<Rightarrow> bool" where
  "view_placed allocations v \<longleftrightarrow>
     consistent_image (view_descriptor v) \<and>
     resolve_allocation_range (image_base_address (view_descriptor v))
       (surface_surface_byte_count (image_layout (view_descriptor v))) allocations =
     Success \<lparr>resolved_allocation_id = view_allocation_id v,
              resolved_allocation_byte_offset = view_allocation_byte_offset v,
              resolved_allocation_byte_count = surface_surface_byte_count (image_layout (view_descriptor v))\<rparr>"

definition views_wf :: "GuestGpuAllocationAddressSpace \<Rightarrow> GuestGpuImageRegistry \<Rightarrow> bool" where
  "views_wf allocations views \<longleftrightarrow>
     map view_id views = map of_nat [0..<length views] \<and> list_all (view_placed allocations) views"

lemma resolved_byte_count:
  assumes "allocation_space.table_wf allocations" "resolve_allocation_range a n allocations = Success r"
  shows "resolved_allocation_byte_count r = n"
  using allocation_space.resolve_spec [OF assms(1), where a = a and n = n] assms(2)
  by (auto simp: GuestGpuAllocationResolution.make_def)

lemma register_view_spec:
  assumes "allocation_space.table_wf allocations"
  shows "if consistent_image d \<and> ev = No_exception
       \<and> list_ex (region_covers (image_base_address d) (surface_surface_byte_count (image_layout d)))
           (allocation_space.regions allocations)
    then \<exists>v. register_view ev d allocations views = (Success (of_nat (length views)), views @ [v])
         \<and> view_id v = of_nat (length views) \<and> view_descriptor v = d \<and> view_placed allocations v
    else \<exists>e. register_view ev d allocations views = (Failure e, views)"
proof -
  let ?a = "image_base_address d" and ?n = "surface_surface_byte_count (image_layout d)"
  note spec = allocation_space.resolve_spec [OF assms, where a = ?a and n = ?n]
  have len: "length (allocation_space.regions allocations) = length allocations" by (simp add: allocation_space.regions_def)
  have pos: "?n \<noteq> 0" if "consistent_image d"
    using that by (auto simp: consistent_image_def Let_def u64_zero_iff)
  have iff: "(\<exists>r. resolve_allocation_range ?a ?n allocations = Success r) \<longleftrightarrow>
      list_ex (region_covers ?a ?n) (allocation_space.regions allocations)" if "consistent_image d"
    using spec allocation_space.resolve_covered [OF assms pos [OF that], where a = ?a] len
    by (auto simp: list_ex_length split: Result.splits)
  show ?thesis
  proof (cases "consistent_image d")
    case False
    then show ?thesis by (auto simp: register_view_def image_descriptor_error_None [symmetric])
  next
    case True
    then have none: "image_descriptor_error d = None" by (simp add: image_descriptor_error_None)
    show ?thesis
    proof (cases "resolve_allocation_range ?a ?n allocations")
      case (Success r)
      with resolved_byte_count [OF assms Success] iff [OF True] True none show ?thesis
        by (cases r; cases ev) (auto simp: register_view_def view_placed_def Let_def)
    next
      case (Failure e)
      with iff [OF True] True none show ?thesis by (auto simp: register_view_def)
    next
      case Undefined
      with spec show ?thesis by simp
    qed
  qed
qed

lemma views_wf_register_view:
  assumes "allocation_space.table_wf allocations" "views_wf allocations views"
  shows "views_wf allocations (snd (register_view ev d allocations views))"
  using register_view_spec [OF assms(1), where d = d and ev = ev and views = views] assms(2)
  by (auto simp: views_wf_def split: if_splits)

lemma views_wf_register_allocation:
  assumes "allocation_space.table_wf allocations" "views_wf allocations views"
  shows "views_wf (snd (register_allocation ev b n allocations)) views"
  using assms(2) allocation_space.resolve_stable [OF assms(1)]
  by (auto simp: views_wf_def view_placed_def list_all_iff)

text \<open>The search for a descriptor counts the views that have it.\<close>

lemma count_matching_views_eq:
  "count_matching_views d k first views =
     (k + length (filter (\<lambda>v. view_descriptor v = d) views),
      if first = None then find (\<lambda>v. view_descriptor v = d) views else first)"
  by (induction d k first views rule: count_matching_views.induct) auto

lemma resolve_exact_eq:
  "resolve_exact d views = (case filter (\<lambda>v. view_descriptor v = d) views of
     [] \<Rightarrow> Failure (GuestGpuImageResolutionError image_not_found 0 None)
   | [v] \<Rightarrow> Success v
   | v # vs \<Rightarrow> Failure (GuestGpuImageResolutionError image_ambiguous (1 + length vs) (Some (view_id v))))"
proof -
  have "find P xs = (case filter P xs of [] \<Rightarrow> None | x # _ \<Rightarrow> Some x)" for P and xs :: "GuestGpuImageView list"
    by (induction xs) auto
  then show ?thesis
    by (simp add: resolve_exact_def count_matching_views_eq split: list.split)
qed

section \<open>Sequences of registrations\<close>

text \<open>
  The objects the graphics services share, and the calls that change them. Allocations, buffers and
  views may be registered in any order, and any push_back may throw.
\<close>

record Gpu_memory_state =
  gpu_allocations :: GuestGpuAllocationAddressSpace
  gpu_buffers :: GuestGpuBufferAddressSpace
  gpu_views :: GuestGpuImageRegistry

definition empty_gpu_memory :: Gpu_memory_state where
  "empty_gpu_memory = \<lparr>gpu_allocations = [], gpu_buffers = [], gpu_views = []\<rparr>"

inductive gpu_memory_step :: "Gpu_memory_state \<Rightarrow> Gpu_memory_state \<Rightarrow> bool" where
  step_allocation:
    "gpu_memory_step s (s\<lparr>gpu_allocations := snd (register_allocation ev b n (gpu_allocations s))\<rparr>)"
| step_buffer:
    "gpu_memory_step s (s\<lparr>gpu_buffers := snd (register_buffer ev b n (gpu_buffers s))\<rparr>)"
| step_view:
    "gpu_memory_step s (s\<lparr>gpu_views := snd (register_view ev d (gpu_allocations s) (gpu_views s))\<rparr>)"

inductive gpu_memory_reachable :: "Gpu_memory_state \<Rightarrow> bool" where
  reachable_empty: "gpu_memory_reachable empty_gpu_memory"
| reachable_step: "gpu_memory_reachable s \<Longrightarrow> gpu_memory_step s s' \<Longrightarrow> gpu_memory_reachable s'"

inductive_cases gpu_memory_stepE: "gpu_memory_step s s'"

definition gpu_memory_wf :: "Gpu_memory_state \<Rightarrow> bool" where
  "gpu_memory_wf s \<longleftrightarrow> allocation_space.table_wf (gpu_allocations s) \<and> buffer_space.table_wf (gpu_buffers s)
     \<and> views_wf (gpu_allocations s) (gpu_views s)"

lemma gpu_memory_step_wf: "gpu_memory_step s s' \<Longrightarrow> gpu_memory_wf s \<Longrightarrow> gpu_memory_wf s'"
  by (erule gpu_memory_stepE)
    (auto simp: gpu_memory_wf_def allocation_space.table_wf_register buffer_space.table_wf_register
      views_wf_register_allocation views_wf_register_view)

lemma gpu_memory_reachable_wf: "gpu_memory_reachable s \<Longrightarrow> gpu_memory_wf s"
proof (induction rule: gpu_memory_reachable.induct)
  case reachable_empty
  show ?case
    by (simp add: gpu_memory_wf_def empty_gpu_memory_def allocation_space.table_wf_Nil buffer_space.table_wf_Nil views_wf_def)
next
  case (reachable_step s s')
  then show ?case using gpu_memory_step_wf by blast
qed

section \<open>Memory writes of a command buffer\<close>

text \<open>The packet of a memory write: control word, destination and values.\<close>

definition write_data_command :: "u64 \<Rightarrow> u32 list \<Rightarrow> Type3_command" where
  "write_data_command destination vs =
     (kPm4WriteDataOpcode, 0,
      kPm4WriteDataSupportedControlWord # ucast destination # ucast (drop_bit 32 destination) # vs)"

lemma u64_halves: "(ucast (ucast d :: u32) OR push_bit 32 (ucast (ucast (drop_bit 32 d) :: u32)) :: u64) = d"
proof (rule bit_eqI)
  fix n assume "possible_bit TYPE(u64) n"
  then have "n < 64" by simp
  then show "bit (ucast (ucast d :: u32) OR push_bit 32 (ucast (ucast (drop_bit 32 d) :: u32)) :: u64) n = bit d n"
    by (cases "n < 32") (auto simp: bit_simps)
qed

lemma lower_write_data_command:
  assumes "vs \<noteq> []" "length vs + 3 \<le> 0x4000" "d AND 3 = 0"
  shows "lower_pm4_write_data_frame_to_graphics_ir (\<lambda>_. No_exception) (frame_at off (encode_command (write_data_command d vs))) =
    Success \<lparr>emission_operation = GraphicsIrGpuMemoryWrite d vs,
             emission_source_packet = raw_packet_at off (encode_command (write_data_command d vs))\<rparr>"
proof -
  define ws where "ws = encode_command (write_data_command d vs)"
  let ?h = "type3_header_word 0x37 0 (length vs + 3)"
  have at: "raw_word_value (hd ws) = ?h" "raw_word_value (ws ! 1) = kPm4WriteDataSupportedControlWord"
    "raw_word_value (ws ! 2) = ucast d" "raw_word_value (ws ! 3) = ucast (drop_bit 32 d)" "length ws = length vs + 4"
    "map raw_word_value (drop 4 ws) = vs"
    by (simp_all add: ws_def write_data_command_def comp_def eval_nat_numeral)
  have f: "unat (encoded_count ?h) = length vs + 2" "header_opcode (make_header ?h) = 0x37"
    "header_low_control_bits (make_header ?h) = 0"
    using type3_header_word_fields [of "length vs + 3" "0x37" 0] assms(2) by simp_all
  have vals: "word_values ws 4 [0..<length vs] = (Success vs :: (u32 list, Pm4WriteDataLowerError) Result)"
    using word_values_all [of 4 "length vs" ws] at(5,6) by simp
  have "1 \<le> length vs" using assms(1) by (cases vs) simp_all
  then show ?thesis
    unfolding lower_pm4_write_data_frame_to_graphics_ir_def Let_def ws_def [symmetric]
    using assms(1,3) by (simp add: at(1,5) at(2) [unfolded One_nat_def] at(3,4) f vals u64_halves)
qed

lemma resolve_gpu_memory_write_spec:
  assumes wf: "buffer_space.table_wf buffers" and vs: "vs \<noteq> []" "length vs < 2 ^ 62"
  shows "case resolve_gpu_memory_write d vs buffers of
      Undefined \<Rightarrow> False
    | Success r \<Rightarrow> unat (resolved_buffer_byte_count r) = 4 * length vs \<and>
        (\<exists>k < length buffers. resolved_buffer_id r = of_nat k \<and>
           (case buffer_space.regions buffers ! k of (b, n) \<Rightarrow>
              unat b + unat (resolved_buffer_byte_offset r) = unat d \<and>
              unat (resolved_buffer_byte_offset r) + 4 * length vs \<le> unat n))
    | Failure e \<Rightarrow> \<not> list_ex (\<lambda>(b, n). unat b \<le> unat d \<and> unat d + 4 * length vs \<le> unat b + unat n) (buffer_space.regions buffers)"
proof -
  let ?n = "of_nat (length vs) * 4 :: u64"
  have len: "unat (of_nat (length vs) :: u64) = length vs" using vs(2) by (simp add: unat_of_nat)
  then have n: "unat ?n = 4 * length vs" using vs(2) by (subst unat_mult_no_wrap) simp_all
  have small: "\<not> of_nat (length vs) > u64_max div 4"
    using vs(2) by (simp add: word_less_nat_alt unat_div len)
  have n0: "?n \<noteq> 0" using n vs(1) by (auto simp: u64_zero_iff)
  have lr: "length (buffer_space.regions buffers) = length buffers" by (simp add: buffer_space.regions_def)
  have cov: "(\<lambda>(b, m). unat b \<le> unat d \<and> unat d + 4 * length vs \<le> unat b + unat m) = region_covers d ?n"
    by (auto simp: fun_eq_iff region_covers_def n)
  have eq: "resolve_gpu_memory_write d vs buffers = and_then (resolve_buffer_range d ?n buffers) address_resolution_failure Success"
    using small by (simp add: resolve_gpu_memory_write_def Let_def)
  note spec = buffer_space.resolve_spec [OF wf, where a = d and n = ?n]
  show ?thesis
  proof (cases "resolve_buffer_range d ?n buffers")
    case (Success r)
    with spec obtain k where k: "k < length buffers" "region_covers d ?n (buffer_space.regions buffers ! k)"
      "r = GuestGpuBufferResolution.make (of_nat k) (d - fst (buffer_space.regions buffers ! k)) ?n"
      by auto
    obtain b m where bm: "buffer_space.regions buffers ! k = (b, m)" by (cases "buffer_space.regions buffers ! k")
    have off: "unat (d - b) = unat d - unat b" "unat b \<le> unat d" "unat d + 4 * length vs \<le> unat b + unat m"
      using k(2) by (simp_all add: bm region_covers_def n unat_sub word_le_nat_alt)
    with Success k n bm show ?thesis
      unfolding eq by (auto simp: GuestGpuBufferResolution.make_def intro!: exI [of _ k])
  next
    case (Failure e)
    then have "\<not> list_ex (region_covers d ?n) (buffer_space.regions buffers)"
      using buffer_space.resolve_covered [OF wf n0, where a = d] lr by (auto simp: list_ex_length)
    with Failure show ?thesis unfolding eq cov by simp
  next
    case Undefined
    with spec show ?thesis by simp
  qed
qed

text \<open>The resolution of an allocation, with the fields of its result and of its errors.\<close>

lemma resolve_allocation_range_correct:
  assumes "allocation_space.table_wf allocations"
  shows "case resolve_allocation_range a n allocations of
       Undefined \<Rightarrow> False
     | Success r \<Rightarrow> n \<noteq> 0 \<and> (\<exists>k < length allocations.
          region_covers a n (allocation_space.regions allocations ! k)
          \<and> (\<forall>j < length allocations. region_covers a n (allocation_space.regions allocations ! j) \<longrightarrow> j = k)
          \<and> r = \<lparr>resolved_allocation_id = of_nat k,
                 resolved_allocation_byte_offset = a - gpu_allocation_base (allocations ! k),
                 resolved_allocation_byte_count = n\<rparr>)
     | Failure e \<Rightarrow> (case allocation_resolution_code e of
          allocation_zero_sized_request \<Rightarrow> n = 0
        | allocation_request_overflow \<Rightarrow> 2 ^ 64 \<le> unat a + unat n
        | allocation_unmapped_range \<Rightarrow> list_all (\<lambda>r. \<not> region_touches a n r) (allocation_space.regions allocations)
        | allocation_partially_mapped_range \<Rightarrow>
            list_all (\<lambda>r. \<not> region_covers a n r) (allocation_space.regions allocations)
            \<and> (\<exists>k < length allocations. region_touches a n (allocation_space.regions allocations ! k)
                 \<and> intersecting_allocation_id e = Some (of_nat k)))"
proof -
  have base: "fst (allocation_space.regions allocations ! k) = gpu_allocation_base (allocations ! k)"
    if "k < length allocations" for k using that by (simp add: allocation_space.regions_def)
  note spec = allocation_space.resolve_spec [OF assms, where a = a and n = n]
  show ?thesis
  proof (cases "resolve_allocation_range a n allocations")
    case (Success r)
    with spec base show ?thesis by (auto simp: GuestGpuAllocationResolution.make_def Ex1_def)
  next
    case (Failure e)
    with spec show ?thesis by (auto simp: allocation_resolution_error_def)
  next
    case Undefined
    with spec show ?thesis by simp
  qed
qed

section \<open>Properties\<close>

text \<open>
  C30. After any sequence of registrations, with any allocation failures, the allocations and the
  buffers are non-empty, do not wrap, are pairwise disjoint and have their positions as identities,
  and every image view still resolves to the allocation and offset it was registered with. In such a
  state a request resolves to an allocation exactly when that allocation, which is then the only one,
  holds all its bytes; otherwise the error says whether the request is empty, wraps, touches no
  allocation, or leaves an allocation it touches.
\<close>

theorem gpu_memory_invariant:
  assumes "gpu_memory_reachable s"
  shows "gpu_memory_wf s \<and>
    (case resolve_allocation_range a n (gpu_allocations s) of
       Undefined \<Rightarrow> False
     | Success r \<Rightarrow> n \<noteq> 0 \<and> (\<exists>k < length (gpu_allocations s).
          region_covers a n (allocation_space.regions (gpu_allocations s) ! k)
          \<and> (\<forall>j < length (gpu_allocations s). region_covers a n (allocation_space.regions (gpu_allocations s) ! j) \<longrightarrow> j = k)
          \<and> r = \<lparr>resolved_allocation_id = of_nat k,
                 resolved_allocation_byte_offset = a - gpu_allocation_base ((gpu_allocations s) ! k),
                 resolved_allocation_byte_count = n\<rparr>)
     | Failure e \<Rightarrow> (case allocation_resolution_code e of
          allocation_zero_sized_request \<Rightarrow> n = 0
        | allocation_request_overflow \<Rightarrow> 2 ^ 64 \<le> unat a + unat n
        | allocation_unmapped_range \<Rightarrow> list_all (\<lambda>r. \<not> region_touches a n r) (allocation_space.regions (gpu_allocations s))
        | allocation_partially_mapped_range \<Rightarrow>
            list_all (\<lambda>r. \<not> region_covers a n r) (allocation_space.regions (gpu_allocations s))
            \<and> (\<exists>k < length (gpu_allocations s). region_touches a n (allocation_space.regions (gpu_allocations s) ! k)
                 \<and> intersecting_allocation_id e = Some (of_nat k))))"
  using gpu_memory_reachable_wf [OF assms] resolve_allocation_range_correct unfolding gpu_memory_wf_def by blast

theorem gpu_memory_invariant_witness:
  "resolve_allocation_range 0x1080 0x40 [\<lparr>gpu_allocation_id = 0, gpu_allocation_base = 0x1000, gpu_allocation_byte_size = 0x100\<rparr>] =
     Success \<lparr>resolved_allocation_id = 0, resolved_allocation_byte_offset = 0x80, resolved_allocation_byte_count = 0x40\<rparr>
   \<and> gpu_memory_wf (empty_gpu_memory\<lparr>gpu_allocations :=
       [\<lparr>gpu_allocation_id = 0, gpu_allocation_base = 0x1000, gpu_allocation_byte_size = 0x100\<rparr>]\<rparr>)"
proof -
  let ?s = "empty_gpu_memory\<lparr>gpu_allocations :=
       [\<lparr>gpu_allocation_id = 0, gpu_allocation_base = 0x1000, gpu_allocation_byte_size = 0x100\<rparr>]\<rparr>"
  have "gpu_memory_reachable ?s"
    using reachable_step [OF reachable_empty step_allocation [of empty_gpu_memory No_exception "0x1000" "0x100"]]
    by (simp add: register_allocation_def checked_end_def Let_def empty_gpu_memory_def)
  from gpu_memory_invariant [OF this] show ?thesis
    by (simp add: resolve_allocation_range_def checked_end_def)
qed

text \<open>
  C31. From registers to memory: when the context registers decode to a color target with a linear
  RGBA8 image, the registration of that image as a view passes every check of the descriptor, and it
  succeeds exactly when one registered allocation holds the whole surface and the host has memory.
  The new view has the next identity, the planned descriptor and the allocation and offset of the
  surface, and resolving the descriptor finds it unless an equal view exists already. A failed
  registration leaves the registry unchanged.
\<close>

theorem color_target_view_correct:
  assumes "gpu_memory_reachable s"
    and "resolve_color_target0_context_state regs = Success t"
    and "plan_gfx10_linear_rgba8_unorm_color_target_image t = Success d"
  shows "if ev = No_exception \<and> list_ex (region_covers (target_base_address t) (surface_surface_byte_count (image_layout d)))
              (allocation_space.regions (gpu_allocations s))
    then \<exists>v. register_view ev d (gpu_allocations s) (gpu_views s) = (Success (of_nat (length (gpu_views s))), gpu_views s @ [v])
         \<and> view_id v = of_nat (length (gpu_views s)) \<and> view_descriptor v = d \<and> view_placed (gpu_allocations s) v
         \<and> (if list_ex (\<lambda>w. view_descriptor w = d) (gpu_views s)
            then \<not> has_value (resolve_exact d (gpu_views s @ [v])) else resolve_exact d (gpu_views s @ [v]) = Success v)
    else \<exists>e. register_view ev d (gpu_allocations s) (gpu_views s) = (Failure e, gpu_views s)"
proof -
  have lin: "linear_rgba8_target t" using image_of_other_target [of t] assms(3) by auto
  then have img: "rgba8_image_of t d" using image_of_resolved_target [OF assms(2) lin] assms(3) by auto
  have cons: "consistent_image d" by (rule color_target_image_consistent [OF assms(2) img])
  have base: "image_base_address d = target_base_address t" using img by (simp add: rgba8_image_of_def)
  have t: "allocation_space.table_wf (gpu_allocations s)"
    using gpu_memory_reachable_wf [OF assms(1)] unfolding gpu_memory_wf_def by blast
  have found: "if list_ex (\<lambda>w. view_descriptor w = d) vs then \<not> has_value (resolve_exact d (vs @ [v]))
      else resolve_exact d (vs @ [v]) = Success v" if "view_descriptor v = d" for vs v
  proof (cases "filter (\<lambda>w. view_descriptor w = d) vs")
    case Nil
    then show ?thesis using that by (auto simp: resolve_exact_eq filter_empty_conv list_ex_iff)
  next
    case (Cons w ws)
    then have "w \<in> set (filter (\<lambda>w. view_descriptor w = d) vs)" by simp
    then have "list_ex (\<lambda>w. view_descriptor w = d) vs" unfolding list_ex_iff by auto
    with Cons that show ?thesis by (cases ws) (simp_all add: resolve_exact_eq)
  qed
  let ?C = "ev = No_exception \<and> list_ex (region_covers (target_base_address t) (surface_surface_byte_count (image_layout d)))
      (allocation_space.regions (gpu_allocations s))"
  note spec = register_view_spec [OF t, where d = d and ev = ev and views = "gpu_views s", unfolded base]
  show ?thesis
  proof (cases ?C)
    case True
    with spec cons obtain v where
      "register_view ev d (gpu_allocations s) (gpu_views s) = (Success (of_nat (length (gpu_views s))), gpu_views s @ [v])"
      "view_id v = of_nat (length (gpu_views s))" "view_descriptor v = d" "view_placed (gpu_allocations s) v"
      by auto
    with found show ?thesis unfolding if_P [OF True] by blast
  next
    case False
    with spec show ?thesis unfolding if_not_P [OF False] by (auto split: if_splits)
  qed
qed

definition sample_registers :: RegisterState where
  "sample_registers =
     \<lparr>register_values = map (\<lambda>i. if i = 0x8e then 0xf else if i = 0x318 then 0x4000 else if i = 0x31c then 0x28
        else if i = 0x3b0 then 0xfc03f else if i = 0x3b8 then 0x1000000 else 0) [0..<kRegisterStateDwords],
      register_initialized = replicate kRegisterStateDwords True\<rparr>"

theorem color_target_view_correct_witness:
  "\<exists>t d v. resolve_color_target0_context_state sample_registers = Success t
     \<and> plan_gfx10_linear_rgba8_unorm_color_target_image t = Success d
     \<and> register_view No_exception d
         [\<lparr>gpu_allocation_id = 0, gpu_allocation_base = 0x400000, gpu_allocation_byte_size = 0x8000\<rparr>] [] = (Success 0, [v])
     \<and> view_allocation_byte_offset v = 0 \<and> resolve_exact d [v] = Success v"
proof -
  let ?alloc = "\<lparr>gpu_allocation_id = 0, gpu_allocation_base = 0x400000, gpu_allocation_byte_size = 0x8000\<rparr> :: GuestGpuAllocation"
  let ?s = "empty_gpu_memory\<lparr>gpu_allocations := [?alloc]\<rparr>"
  have s: "gpu_memory_reachable ?s"
    using reachable_step [OF reachable_empty step_allocation [of empty_gpu_memory No_exception "0x400000" "0x8000"]]
    by (simp add: register_allocation_def checked_end_def Let_def empty_gpu_memory_def)
  obtain t where t: "resolve_color_target0_context_state sample_registers = Success t" "linear_rgba8_target t"
    "target_base_address t = 0x400000" "target_width t = 64" "target_height t = 64"
    by (simp add: resolve_color_target0_context_state_def sample_registers_def linear_rgba8_target_def Let_def
        del: upt_rec_numeral)
  obtain d where d: "plan_gfx10_linear_rgba8_unorm_color_target_image t = Success d" "rgba8_image_of t d"
    by (rule image_of_resolved_target [OF t(1,2)])
  have "unat (surface_surface_byte_count (image_layout d)) = 16384"
    using d(2) t(4,5) by (simp add: rgba8_image_of_def round_up_def)
  then have "list_ex (region_covers (target_base_address t) (surface_surface_byte_count (image_layout d)))
      (allocation_space.regions (gpu_allocations ?s))"
    by (simp add: t(3) allocation_space.regions_def region_covers_def)
  with color_target_view_correct [OF s t(1) d(1), of No_exception] obtain v where
    v: "register_view No_exception d [?alloc] [] = (Success 0, [v])" "view_descriptor v = d" "view_placed [?alloc] v"
      "resolve_exact d [v] = Success v"
    by (auto simp: empty_gpu_memory_def)
  have "view_allocation_byte_offset v = 0"
    using v(2,3) d(2) t(3) by (auto simp: view_placed_def rgba8_image_of_def resolve_allocation_range_def checked_end_def
        split: if_splits)
  with t d v show ?thesis by blast
qed

text \<open>
  C32. From a command buffer to memory: a memory-write command with an aligned destination and at
  least one value, written as a type-3 packet, is lowered to exactly that write, and the write
  resolves to a registered buffer exactly when that buffer holds all four bytes of every value; the
  resolution names the buffer and the offset of the destination in it.
\<close>

theorem write_data_command_resolved:
  assumes "gpu_memory_reachable s" and "vs \<noteq> []" and "length vs + 3 \<le> 0x4000" and "d AND 3 = 0"
  shows "case lower_pm4_write_data_frame_to_graphics_ir (\<lambda>_. No_exception)
      (frame_at off (encode_command (write_data_command d vs))) of
    Undefined \<Rightarrow> False
  | Failure e \<Rightarrow> False
  | Success em \<Rightarrow> emission_operation em = GraphicsIrGpuMemoryWrite d vs \<and>
     (case resolve_gpu_memory_write d vs (gpu_buffers s) of
        Undefined \<Rightarrow> False
      | Success r \<Rightarrow> unat (resolved_buffer_byte_count r) = 4 * length vs \<and>
          (\<exists>k < length (gpu_buffers s). resolved_buffer_id r = of_nat k \<and>
             (case buffer_space.regions (gpu_buffers s) ! k of (b, n) \<Rightarrow>
                unat b + unat (resolved_buffer_byte_offset r) = unat d \<and>
                unat (resolved_buffer_byte_offset r) + 4 * length vs \<le> unat n))
      | Failure e \<Rightarrow> \<not> list_ex (\<lambda>(b, n). unat b \<le> unat d \<and> unat d + 4 * length vs \<le> unat b + unat n)
          (buffer_space.regions (gpu_buffers s)))"
proof -
  have "buffer_space.table_wf (gpu_buffers s)" using gpu_memory_reachable_wf [OF assms(1)] unfolding gpu_memory_wf_def by blast
  moreover have "length vs < 2 ^ 62" using assms(3) by simp
  ultimately show ?thesis
    using resolve_gpu_memory_write_spec [OF _ assms(2), of "gpu_buffers s" d]
    unfolding lower_write_data_command [OF assms(2-4)] by simp
qed

theorem write_data_command_resolved_witness:
  "lower_pm4_write_data_frame_to_graphics_ir (\<lambda>_. No_exception) (frame_at 0 (encode_command (write_data_command 0x2010 [7, 8]))) =
     Success \<lparr>emission_operation = GraphicsIrGpuMemoryWrite 0x2010 [7, 8],
              emission_source_packet = raw_packet_at 0 (encode_command (write_data_command 0x2010 [7, 8]))\<rparr>
   \<and> resolve_gpu_memory_write 0x2010 [7, 8]
       [\<lparr>gpu_buffer_id = 0, gpu_buffer_base = 0x2000, gpu_buffer_byte_size = 0x100\<rparr>] =
     Success \<lparr>resolved_buffer_id = 0, resolved_buffer_byte_offset = 0x10, resolved_buffer_byte_count = 8\<rparr>"
proof -
  let ?b = "[\<lparr>gpu_buffer_id = 0, gpu_buffer_base = 0x2000, gpu_buffer_byte_size = 0x100\<rparr>] :: GuestGpuBufferRegion list"
  have "gpu_memory_reachable (empty_gpu_memory\<lparr>gpu_buffers := ?b\<rparr>)"
    using reachable_step [OF reachable_empty step_buffer [of empty_gpu_memory No_exception "0x2000" "0x100"]]
    by (simp add: register_buffer_def checked_end_def Let_def empty_gpu_memory_def)
  from write_data_command_resolved [OF this, of "[7, 8]" "0x2010" 0] show ?thesis
    by (simp add: lower_write_data_command resolve_gpu_memory_write_def resolve_buffer_range_def checked_end_def
        del: encode_command.simps)
qed

end
