(* ===== verification/Shader_Ir.thy ===== *)
theory Shader_Ir
  imports Pm4_Packets
begin

text \<open>
  Shader instructions: the decoder of the supported RDNA2 encodings (rdna2_decoder.cpp), the typed
  shader IR and the lowering of one instruction (shader_ir.cpp), and the lowering of a whole
  instruction stream (shader_program.cpp).

  Signed immediates and deltas are integers inside the range of their C++ type. A structure whose
  only member is a register index is that index, and an array of four registers is a list of four.
\<close>

section \<open>The instruction decoder\<close>

datatype Rdna2InstructionFormat =
  format_sopp | format_sop1 | format_vop1 | format_vop2 | format_exp | format_unsupported

datatype Rdna2InstructionKind =
    s_nop
  | s_endpgm
  | s_branch
  | s_cbranch_scc0
  | s_cbranch_scc1
  | s_cbranch_vccz
  | s_cbranch_vccnz
  | s_cbranch_execz
  | s_cbranch_execnz
  | s_barrier
  | s_waitcnt
  | s_mov_b32
  | s_mov_b64
  | v_mov_b32
  | v_add_f32
  | kind_exp
  | unknown_sopp_opcode
  | unknown_sop1_opcode
  | unknown_vop1_opcode
  | unknown_vop2_opcode
  | unsupported_encoding

datatype Rdna2DecodeErrorCode = source_offset_overflow | instruction_out_of_bounds

datatype Rdna2DecodeError = Rdna2DecodeError Rdna2DecodeErrorCode nat nat

record Rdna2SoppFields =
  sopp_opcode :: u8
  sopp_simm16 :: int

record Rdna2Sop1Fields =
  sop1_opcode :: u8
  sop1_destination_selector :: u8
  sop1_source_selector :: u8
  sop1_literal_constant :: "u32 option"

record Rdna2Vop1Fields =
  vop1_opcode :: u8
  vop1_destination_selector :: u8
  vop1_source_selector :: u16
  vop1_source_extension :: "u32 option"

record Rdna2Vop2Fields =
  vop2_opcode :: u8
  vop2_destination_selector :: u8
  vop2_source0_selector :: u16
  vop2_source1_selector :: u8
  vop2_source0_extension :: "u32 option"

record Rdna2ExpFields =
  exp_enable_mask :: u8
  exp_target :: u8
  exp_compressed :: bool
  exp_done :: bool
  exp_valid_mask :: bool
  exp_source_vgprs :: "u8 list"

record Rdna2Instruction =
  inst_word_index :: nat
  inst_word_count :: nat
  inst_byte_offset :: nat
  inst_raw_word :: u32
  inst_raw_encoding :: "u8 list"
  inst_format :: Rdna2InstructionFormat
  inst_kind :: Rdna2InstructionKind
  inst_sopp :: "Rdna2SoppFields option"
  inst_sop1 :: "Rdna2Sop1Fields option"
  inst_vop1 :: "Rdna2Vop1Fields option"
  inst_vop2 :: "Rdna2Vop2Fields option"
  inst_exp :: "Rdna2ExpFields option"

definition raw_encoding :: "u32 \<Rightarrow> u8 list" where
  "raw_encoding word =
     [ucast (word AND 0xff), ucast (drop_bit 8 word AND 0xff),
      ucast (drop_bit 16 word AND 0xff), ucast (drop_bit 24 word AND 0xff)]"

definition decode_simm16 :: "u32 \<Rightarrow> int" where
  "decode_simm16 word =
     (let bits = (ucast (word AND 0xffff) :: u16) in
      if bits < 0x8000 then int (unat bits) else int (unat bits) - 0x10000)"

definition classify_sopp_opcode :: "u8 \<Rightarrow> Rdna2InstructionKind" where
  "classify_sopp_opcode opcode =
     (if opcode = 0 then s_nop
      else if opcode = 1 then s_endpgm
      else if opcode = 2 then s_branch
      else if opcode = 4 then s_cbranch_scc0
      else if opcode = 5 then s_cbranch_scc1
      else if opcode = 6 then s_cbranch_vccz
      else if opcode = 7 then s_cbranch_vccnz
      else if opcode = 8 then s_cbranch_execz
      else if opcode = 9 then s_cbranch_execnz
      else if opcode = 10 then s_barrier
      else if opcode = 12 then s_waitcnt
      else unknown_sopp_opcode)"

definition vop1_source_has_extension :: "u16 \<Rightarrow> bool" where
  "vop1_source_has_extension selector \<longleftrightarrow>
     selector = 233 \<or> selector = 234 \<or> selector = 249 \<or> selector = 250 \<or> selector = 255"

definition classify_vop1_opcode :: "u8 \<Rightarrow> Rdna2InstructionKind" where
  "classify_vop1_opcode opcode = (if opcode = 1 then v_mov_b32 else unknown_vop1_opcode)"

definition vop2_source0_has_extension :: "u16 \<Rightarrow> bool" where
  "vop2_source0_has_extension selector \<longleftrightarrow>
     selector = 233 \<or> selector = 234 \<or> selector = 249 \<or> selector = 250 \<or> selector = 255"

definition classify_vop2_opcode :: "u8 \<Rightarrow> Rdna2InstructionKind" where
  "classify_vop2_opcode opcode = (if opcode = 3 then v_add_f32 else unknown_vop2_opcode)"

definition classify_sop1_opcode :: "u8 \<Rightarrow> Rdna2InstructionKind" where
  "classify_sop1_opcode opcode =
     (if opcode = 3 then s_mov_b32 else if opcode = 4 then s_mov_b64 else unknown_sop1_opcode)"

text \<open>The members every decoded instruction has; the fields of its format are set afterwards.\<close>

definition decoded_instruction ::
  "nat \<Rightarrow> nat \<Rightarrow> u32 \<Rightarrow> Rdna2InstructionFormat \<Rightarrow> Rdna2InstructionKind \<Rightarrow> Rdna2Instruction" where
  "decoded_instruction word_index word_count word format kind =
     \<lparr>inst_word_index = word_index, inst_word_count = word_count, inst_byte_offset = word_index * 4,
      inst_raw_word = word, inst_raw_encoding = raw_encoding word, inst_format = format, inst_kind = kind,
      inst_sopp = None, inst_sop1 = None, inst_vop1 = None, inst_vop2 = None, inst_exp = None\<rparr>"

text \<open>The dword after the first one, where the encoding asks for it.\<close>

definition extension_word :: "bool \<Rightarrow> u32 list \<Rightarrow> nat \<Rightarrow> (nat \<times> u32 option, Rdna2DecodeError) Result" where
  "extension_word extended words word_index =
     (if extended
      then let extension_index = word_index + 1 in
        if extension_index \<ge> length words
        then Failure (Rdna2DecodeError instruction_out_of_bounds extension_index (length words))
        else with_value (buffer_at words extension_index) (\<lambda>w. Success (2, Some w))
      else Success (1, None))"

definition decode_exp :: "u32 list \<Rightarrow> nat \<Rightarrow> u32 \<Rightarrow> (Rdna2Instruction, Rdna2DecodeError) Result" where
  "decode_exp words word_index word =
     (let second_word_index = word_index + 1 in
      if second_word_index \<ge> length words
      then Failure (Rdna2DecodeError instruction_out_of_bounds second_word_index (length words))
      else with_value (buffer_at words second_word_index) (\<lambda>sources.
        Success ((decoded_instruction word_index 2 word format_exp kind_exp)
          \<lparr>inst_exp := Some
             \<lparr>exp_enable_mask = ucast (word AND 0x0f),
              exp_target = ucast (drop_bit 4 word AND 0x3f),
              exp_compressed = (drop_bit 10 word AND 1 \<noteq> 0),
              exp_done = (drop_bit 11 word AND 1 \<noteq> 0),
              exp_valid_mask = (drop_bit 12 word AND 1 \<noteq> 0),
              exp_source_vgprs = [ucast (sources AND 0xff), ucast (drop_bit 8 sources AND 0xff),
                ucast (drop_bit 16 sources AND 0xff), ucast (drop_bit 24 sources AND 0xff)]\<rparr>\<rparr>)))"

definition decode_sopp :: "nat \<Rightarrow> u32 \<Rightarrow> Rdna2Instruction" where
  "decode_sopp word_index word =
     (let opcode = (ucast (drop_bit 16 word AND 0x7f) :: u8) in
      (decoded_instruction word_index 1 word format_sopp (classify_sopp_opcode opcode))
        \<lparr>inst_sopp := Some \<lparr>sopp_opcode = opcode, sopp_simm16 = decode_simm16 word\<rparr>\<rparr>)"

definition decode_sop1 :: "u32 list \<Rightarrow> nat \<Rightarrow> u32 \<Rightarrow> (Rdna2Instruction, Rdna2DecodeError) Result" where
  "decode_sop1 words word_index word =
     (let opcode = (ucast (drop_bit 8 word AND 0xff) :: u8);
          destination = ucast (drop_bit 16 word AND 0x7f);
          source = ucast (word AND 0xff);
          kind = classify_sop1_opcode opcode in
      with_value (extension_word (kind = s_mov_b32 \<and> source = 255) words word_index) (\<lambda>(word_count, literal_constant).
        Success ((decoded_instruction word_index word_count word format_sop1 kind)
          \<lparr>inst_sop1 := Some \<lparr>sop1_opcode = opcode, sop1_destination_selector = destination,
             sop1_source_selector = source, sop1_literal_constant = literal_constant\<rparr>\<rparr>)))"

definition decode_vop1 :: "u32 list \<Rightarrow> nat \<Rightarrow> u32 \<Rightarrow> (Rdna2Instruction, Rdna2DecodeError) Result" where
  "decode_vop1 words word_index word =
     (let opcode = (ucast (drop_bit 9 word AND 0xff) :: u8);
          destination = ucast (drop_bit 17 word AND 0xff);
          source = ucast (word AND 0x1ff) in
      with_value (extension_word (vop1_source_has_extension source) words word_index) (\<lambda>(word_count, source_extension).
        Success ((decoded_instruction word_index word_count word format_vop1 (classify_vop1_opcode opcode))
          \<lparr>inst_vop1 := Some \<lparr>vop1_opcode = opcode, vop1_destination_selector = destination,
             vop1_source_selector = source, vop1_source_extension = source_extension\<rparr>\<rparr>)))"

definition decode_vop2 :: "u32 list \<Rightarrow> nat \<Rightarrow> u32 \<Rightarrow> (Rdna2Instruction, Rdna2DecodeError) Result" where
  "decode_vop2 words word_index word =
     (let opcode = (ucast (drop_bit 25 word AND 0x3f) :: u8);
          destination = ucast (drop_bit 17 word AND 0xff);
          source0 = ucast (word AND 0x1ff);
          source1 = ucast (drop_bit 9 word AND 0xff) in
      with_value (extension_word (vop2_source0_has_extension source0) words word_index) (\<lambda>(word_count, source0_extension).
        Success ((decoded_instruction word_index word_count word format_vop2 (classify_vop2_opcode opcode))
          \<lparr>inst_vop2 := Some \<lparr>vop2_opcode = opcode, vop2_destination_selector = destination,
             vop2_source0_selector = source0, vop2_source1_selector = source1,
             vop2_source0_extension = source0_extension\<rparr>\<rparr>)))"

definition decode_rdna2_instruction :: "u32 list \<Rightarrow> nat \<Rightarrow> (Rdna2Instruction, Rdna2DecodeError) Result" where
  "decode_rdna2_instruction words word_index =
     (if word_index > size_max div 4
      then Failure (Rdna2DecodeError source_offset_overflow word_index (length words))
      else if word_index \<ge> length words
      then Failure (Rdna2DecodeError instruction_out_of_bounds word_index (length words))
      else with_value (buffer_at words word_index) (\<lambda>word.
        if word AND 0xfc000000 = 0xf8000000 then decode_exp words word_index word
        else
          let encoding = drop_bit 23 word AND 0x1ff in
          if encoding = 0x17f then Success (decode_sopp word_index word)
          else if encoding = 0x17d then decode_sop1 words word_index word
          else if drop_bit 25 word AND 0x7f = 0x3f then decode_vop1 words word_index word
          else if word AND 0x80000000 = 0 then decode_vop2 words word_index word
          else Success (decoded_instruction word_index 1 word format_unsupported unsupported_encoding)))"

section \<open>The typed shader IR\<close>

datatype ShaderIrBranchCondition = scc_zero | scc_one | vcc_zero | vcc_nonzero | exec_zero | exec_nonzero

datatype ShaderIrExportTargetKind = mrt | mrt_z | null_target | position_target | primitive_target | parameter_target

record ShaderIrExport =
  export_target_kind :: ShaderIrExportTargetKind
  export_target_index :: u8
  export_enable_mask :: u8
  export_compressed :: bool
  export_done :: bool
  export_valid_mask :: bool
  export_sources :: "u8 list"

datatype ShaderIrSpecialScalarSourceKind32 = vcc_lo | vcc_hi | m0_register | null_register | exec_lo | exec_hi

datatype ShaderIrScalarSource32 =
    ShaderIrSgpr u8
  | ShaderIrSpecialScalarSource32 ShaderIrSpecialScalarSourceKind32
  | ShaderIrInlineInteger32 int
  | ShaderIrLiteral32 u32

datatype ShaderIrUnsupportedReason =
    reason_unknown_sopp_opcode
  | reason_unknown_sop1_opcode
  | reason_unknown_vop1_opcode
  | reason_unknown_vop2_opcode
  | unknown_export_target
  | unsupported_scalar_operand
  | unsupported_vector_operand
  | reason_unsupported_encoding
  | invalid_decoded_instruction

datatype ShaderIrOperation =
    ShaderIrNop u8
  | ShaderIrEndProgram
  | ShaderIrRelativeBranch int
  | ShaderIrConditionalRelativeBranch ShaderIrBranchCondition int
  | ShaderIrWorkgroupBarrier
  | ShaderIrWaitCount u8 u8 u8
  | ShaderIrScalarMove32 u8 ShaderIrScalarSource32
  | ShaderIrScalarMove64 u8 u8
  | ShaderIrVectorMove32 u8 u8
  | ShaderIrVectorAddF32 u8 u8 u8
  | ShaderIrExportOp ShaderIrExport
  | ShaderIrUnsupported ShaderIrUnsupportedReason

record ShaderIrEmission =
  ir_operation :: ShaderIrOperation
  ir_source_instruction :: Rdna2Instruction

definition valid_sopp_source :: "Rdna2Instruction \<Rightarrow> bool" where
  "valid_sopp_source i \<longleftrightarrow> inst_format i = format_sopp \<and> inst_sopp i \<noteq> None \<and> inst_sop1 i = None
     \<and> inst_vop1 i = None \<and> inst_vop2 i = None \<and> inst_exp i = None"

definition valid_vop1_source :: "Rdna2Instruction \<Rightarrow> bool" where
  "valid_vop1_source i \<longleftrightarrow> inst_format i = format_vop1 \<and> inst_vop1 i \<noteq> None \<and> inst_sopp i = None
     \<and> inst_sop1 i = None \<and> inst_vop2 i = None \<and> inst_exp i = None"

definition valid_vop2_source :: "Rdna2Instruction \<Rightarrow> bool" where
  "valid_vop2_source i \<longleftrightarrow> inst_format i = format_vop2 \<and> inst_vop2 i \<noteq> None \<and> inst_sopp i = None
     \<and> inst_sop1 i = None \<and> inst_vop1 i = None \<and> inst_exp i = None"

definition valid_sop1_source :: "Rdna2Instruction \<Rightarrow> bool" where
  "valid_sop1_source i \<longleftrightarrow> inst_format i = format_sop1 \<and> inst_sop1 i \<noteq> None \<and> inst_sopp i = None
     \<and> inst_vop1 i = None \<and> inst_vop2 i = None \<and> inst_exp i = None"

definition valid_exp_source :: "Rdna2Instruction \<Rightarrow> bool" where
  "valid_exp_source i \<longleftrightarrow> inst_format i = format_exp \<and> inst_exp i \<noteq> None \<and> inst_sopp i = None
     \<and> inst_sop1 i = None \<and> inst_vop1 i = None \<and> inst_vop2 i = None \<and> inst_word_count i = 2"

definition export_target :: "u8 \<Rightarrow> (ShaderIrExportTargetKind \<times> u8) option" where
  "export_target target =
     (if target \<le> 0x07 then Some (mrt, target)
      else if target = 0x08 then Some (mrt_z, 0)
      else if target = 0x09 then Some (null_target, 0)
      else if target \<ge> 0x0c \<and> target \<le> 0x0f then Some (position_target, target - 0x0c)
      else if target = 0x14 then Some (primitive_target, 0)
      else if target \<ge> 0x20 \<and> target \<le> 0x3f then Some (parameter_target, target - 0x20)
      else None)"

definition plain_sgpr_selector :: "u8 \<Rightarrow> bool" where
  "plain_sgpr_selector selector \<longleftrightarrow> selector \<le> 105"

definition plain_sgpr_pair_selector :: "u8 \<Rightarrow> bool" where
  "plain_sgpr_pair_selector selector \<longleftrightarrow> selector \<le> 104 \<and> selector mod 2 = 0"

definition special_scalar_source32 :: "u8 \<Rightarrow> ShaderIrSpecialScalarSourceKind32 option" where
  "special_scalar_source32 selector =
     (if selector = 106 then Some vcc_lo
      else if selector = 107 then Some vcc_hi
      else if selector = 124 then Some m0_register
      else if selector = 125 then Some null_register
      else if selector = 126 then Some exec_lo
      else if selector = 127 then Some exec_hi
      else None)"

definition scalar_source32 :: "u8 \<Rightarrow> u32 option \<Rightarrow> ShaderIrScalarSource32 option" where
  "scalar_source32 selector literal_constant =
     (if plain_sgpr_selector selector then Some (ShaderIrSgpr selector)
      else case special_scalar_source32 selector of
        Some special \<Rightarrow> Some (ShaderIrSpecialScalarSource32 special)
      | None \<Rightarrow>
          if selector \<ge> 128 \<and> selector \<le> 192 then Some (ShaderIrInlineInteger32 (int (unat selector) - 128))
          else if selector \<ge> 193 \<and> selector \<le> 208
          then Some (ShaderIrInlineInteger32 (- (int (unat selector) - 192)))
          else if selector = 255
          then (case literal_constant of Some bits \<Rightarrow> Some (ShaderIrLiteral32 bits) | None \<Rightarrow> None)
          else None)"

text \<open>The lowering takes the fields of the format out of an instruction whose guard was checked.\<close>

definition relative_branch_delta :: "Rdna2Instruction \<Rightarrow> int" where
  "relative_branch_delta i = sopp_simm16 (the (inst_sopp i)) * 4 + 4"

definition wait_count :: "Rdna2Instruction \<Rightarrow> ShaderIrOperation" where
  "wait_count i =
     (let bits = (word_of_int (sopp_simm16 (the (inst_sopp i))) :: u16) in
      ShaderIrWaitCount
        (ucast (push_bit 4 (drop_bit 14 bits AND 0x3) OR (bits AND 0x0f)))
        (ucast (drop_bit 4 bits AND 0x7))
        (ucast (drop_bit 8 bits AND 0x3f)))"

definition lower_operation :: "Rdna2Instruction \<Rightarrow> ShaderIrOperation" where
  "lower_operation i =
     (let invalid = ShaderIrUnsupported invalid_decoded_instruction;
          sopp = (\<lambda>op. if valid_sopp_source i then op else invalid);
          cbranch = (\<lambda>c. if valid_sopp_source i
                         then ShaderIrConditionalRelativeBranch c (relative_branch_delta i) else invalid) in
      case inst_kind i of
        s_nop \<Rightarrow> sopp (ShaderIrNop (ucast ((word_of_int (sopp_simm16 (the (inst_sopp i))) :: u16) AND 0x0f) + 1))
      | s_endpgm \<Rightarrow> sopp ShaderIrEndProgram
      | s_branch \<Rightarrow> sopp (ShaderIrRelativeBranch (relative_branch_delta i))
      | s_cbranch_scc0 \<Rightarrow> cbranch scc_zero
      | s_cbranch_scc1 \<Rightarrow> cbranch scc_one
      | s_cbranch_vccz \<Rightarrow> cbranch vcc_zero
      | s_cbranch_vccnz \<Rightarrow> cbranch vcc_nonzero
      | s_cbranch_execz \<Rightarrow> cbranch exec_zero
      | s_cbranch_execnz \<Rightarrow> cbranch exec_nonzero
      | s_barrier \<Rightarrow> sopp ShaderIrWorkgroupBarrier
      | s_waitcnt \<Rightarrow> sopp (wait_count i)
      | s_mov_b32 \<Rightarrow>
          if valid_sop1_source i
          then let f = the (inst_sop1 i) in
            (case scalar_source32 (sop1_source_selector f) (sop1_literal_constant f) of
               Some source \<Rightarrow>
                 if plain_sgpr_selector (sop1_destination_selector f)
                 then ShaderIrScalarMove32 (sop1_destination_selector f) source
                 else ShaderIrUnsupported unsupported_scalar_operand
             | None \<Rightarrow> ShaderIrUnsupported unsupported_scalar_operand)
          else invalid
      | s_mov_b64 \<Rightarrow>
          if valid_sop1_source i
          then let f = the (inst_sop1 i) in
            if plain_sgpr_pair_selector (sop1_destination_selector f) \<and> plain_sgpr_pair_selector (sop1_source_selector f)
            then ShaderIrScalarMove64 (sop1_destination_selector f) (sop1_source_selector f)
            else ShaderIrUnsupported unsupported_scalar_operand
          else invalid
      | v_mov_b32 \<Rightarrow>
          if valid_vop1_source i
          then let f = the (inst_vop1 i); source = vop1_source_selector f in
            if source \<ge> 256 \<and> source \<le> 511
            then ShaderIrVectorMove32 (vop1_destination_selector f) (ucast (source - 256))
            else ShaderIrUnsupported unsupported_vector_operand
          else invalid
      | v_add_f32 \<Rightarrow>
          if valid_vop2_source i
          then let f = the (inst_vop2 i); source0 = vop2_source0_selector f in
            if source0 \<ge> 256 \<and> source0 \<le> 511
            then ShaderIrVectorAddF32 (vop2_destination_selector f) (ucast (source0 - 256)) (vop2_source1_selector f)
            else ShaderIrUnsupported unsupported_vector_operand
          else invalid
      | kind_exp \<Rightarrow>
          if valid_exp_source i
          then let f = the (inst_exp i) in
            (case export_target (exp_target f) of
               None \<Rightarrow> ShaderIrUnsupported unknown_export_target
             | Some (kind, index) \<Rightarrow> ShaderIrExportOp
                 \<lparr>export_target_kind = kind, export_target_index = index, export_enable_mask = exp_enable_mask f,
                  export_compressed = exp_compressed f, export_done = exp_done f,
                  export_valid_mask = exp_valid_mask f,
                  export_sources = [exp_source_vgprs f ! 0, exp_source_vgprs f ! 1,
                                    exp_source_vgprs f ! 2, exp_source_vgprs f ! 3]\<rparr>)
          else invalid
      | unknown_sopp_opcode \<Rightarrow> sopp (ShaderIrUnsupported reason_unknown_sopp_opcode)
      | unknown_sop1_opcode \<Rightarrow> if valid_sop1_source i then ShaderIrUnsupported reason_unknown_sop1_opcode else invalid
      | unknown_vop1_opcode \<Rightarrow> if valid_vop1_source i then ShaderIrUnsupported reason_unknown_vop1_opcode else invalid
      | unknown_vop2_opcode \<Rightarrow> if valid_vop2_source i then ShaderIrUnsupported reason_unknown_vop2_opcode else invalid
      | unsupported_encoding \<Rightarrow>
          if inst_format i = format_unsupported \<and> inst_sopp i = None \<and> inst_sop1 i = None \<and> inst_vop1 i = None
             \<and> inst_vop2 i = None \<and> inst_exp i = None
          then ShaderIrUnsupported reason_unsupported_encoding else invalid)"

definition lower_rdna2_to_shader_ir :: "Rdna2Instruction \<Rightarrow> ShaderIrEmission" where
  "lower_rdna2_to_shader_ir i = \<lparr>ir_operation = lower_operation i, ir_source_instruction = i\<rparr>"

definition shader_ir_semantically_equal :: "ShaderIrEmission \<Rightarrow> ShaderIrEmission \<Rightarrow> bool" where
  "shader_ir_semantically_equal left right \<longleftrightarrow> ir_operation left = ir_operation right"

section \<open>Lowering of an instruction stream\<close>

record ShaderIrProgram =
  program_source_word_count :: nat
  program_emissions :: "ShaderIrEmission list"

datatype ShaderIrProgramErrorCode = decode_failure | invalid_instruction_extent | program_host_allocation_failure

record ShaderIrProgramError =
  program_error_code :: ShaderIrProgramErrorCode
  program_error_word_index :: nat
  program_error_lowered_instruction_count :: nat
  program_error_decode_error :: "Rdna2DecodeError option"

definition ir_program_error ::
  "ShaderIrProgramErrorCode \<Rightarrow> nat \<Rightarrow> nat \<Rightarrow> Rdna2DecodeError option \<Rightarrow> ShaderIrProgramError" where
  "ir_program_error code word_index lowered decode_error =
     \<lparr>program_error_code = code, program_error_word_index = word_index,
      program_error_lowered_instruction_count = lowered, program_error_decode_error = decode_error\<rparr>"

function lower_stream_loop ::
  "u32 list \<Rightarrow> nat \<Rightarrow> ShaderIrEmission list \<Rightarrow> (ShaderIrEmission list, ShaderIrProgramError) Result" where
  "lower_stream_loop words word_index emissions =
     (if word_index < length words
      then and_then (decode_rdna2_instruction words word_index)
        (\<lambda>e. ir_program_error decode_failure word_index (length emissions) (Some e))
        (\<lambda>instruction.
          let remaining_words = length words - word_index in
          if inst_word_count instruction = 0 \<or> inst_word_count instruction > remaining_words
          then Failure (ir_program_error invalid_instruction_extent word_index (length emissions) None)
          else lower_stream_loop words (word_index + inst_word_count instruction)
                 (emissions @ [lower_rdna2_to_shader_ir instruction]))
      else Success emissions)"
  by pat_completeness auto
termination
  by (relation "measure (\<lambda>(words, word_index, emissions). length words - word_index)") auto

declare lower_stream_loop.simps [simp del]

text \<open>The reservation of the whole vector is the only allocation that can fail.\<close>

definition lower_rdna2_stream_to_shader_ir ::
  "host_event \<Rightarrow> u32 list \<Rightarrow> (ShaderIrProgram, ShaderIrProgramError) Result" where
  "lower_rdna2_stream_to_shader_ir event words =
     (if event \<noteq> No_exception then Failure (ir_program_error program_host_allocation_failure 0 0 None)
      else with_value (lower_stream_loop words 0 []) (\<lambda>emissions.
        Success \<lparr>program_source_word_count = length words, program_emissions = emissions\<rparr>))"

section \<open>What the decoder accepts\<close>

text \<open>The number of dwords of the instruction that starts with a word.\<close>

definition instruction_words :: "u32 \<Rightarrow> nat" where
  "instruction_words w =
     (if w AND 0xfc000000 = 0xf8000000 then 2
      else if drop_bit 23 w AND 0x1ff = 0x17f then 1
      else if drop_bit 23 w AND 0x1ff = 0x17d
      then (if ucast (drop_bit 8 w AND 0xff) = (3 :: u8) \<and> ucast (w AND 0xff) = (255 :: u8) then 2 else 1)
      else if drop_bit 25 w AND 0x7f = 0x3f then (if vop1_source_has_extension (ucast (w AND 0x1ff)) then 2 else 1)
      else if w AND 0x80000000 = 0 then (if vop2_source0_has_extension (ucast (w AND 0x1ff)) then 2 else 1)
      else 1)"

lemma instruction_words_cases: "instruction_words w = 1 \<or> instruction_words w = 2"
  by (simp add: instruction_words_def)

lemma classify_sop1_mov: "classify_sop1_opcode op = s_mov_b32 \<longleftrightarrow> op = 3"
  by (simp add: classify_sop1_opcode_def)

lemma extension_word_eq:
  "extension_word x words i =
     (if x then if i + 1 < length words then Success (2, Some (words ! (i + 1)))
                else Failure (Rdna2DecodeError instruction_out_of_bounds (i + 1) (length words))
      else Success (1, None))"
  by (simp add: extension_word_def not_le)

text \<open>An instruction whose kind belongs to its format is lowered to an operation or a stated reason.\<close>

definition ir_valid :: "Rdna2Instruction \<Rightarrow> bool" where
  "ir_valid i \<longleftrightarrow> lower_operation i \<noteq> ShaderIrUnsupported invalid_decoded_instruction"

lemma lower_sopp_valid: "valid_sopp_source i \<Longrightarrow> inst_kind i = classify_sopp_opcode op \<Longrightarrow> ir_valid i"
  unfolding classify_sopp_opcode_def
  by (auto simp: ir_valid_def lower_operation_def wait_count_def Let_def split: if_splits)

lemma lower_sop1_valid: "valid_sop1_source i \<Longrightarrow> inst_kind i = classify_sop1_opcode op \<Longrightarrow> ir_valid i"
  unfolding classify_sop1_opcode_def
  by (auto simp: ir_valid_def lower_operation_def Let_def split: if_splits option.splits)

lemma lower_vop1_valid: "valid_vop1_source i \<Longrightarrow> inst_kind i = classify_vop1_opcode op \<Longrightarrow> ir_valid i"
  unfolding classify_vop1_opcode_def
  by (auto simp: ir_valid_def lower_operation_def Let_def split: if_splits)

lemma lower_vop2_valid: "valid_vop2_source i \<Longrightarrow> inst_kind i = classify_vop2_opcode op \<Longrightarrow> ir_valid i"
  unfolding classify_vop2_opcode_def
  by (auto simp: ir_valid_def lower_operation_def Let_def split: if_splits)

lemma lower_exp_valid: "valid_exp_source i \<Longrightarrow> inst_kind i = kind_exp \<Longrightarrow> ir_valid i"
  by (auto simp: ir_valid_def lower_operation_def Let_def split: option.splits)

text \<open>The facts about a decoded instruction that do not depend on its format.\<close>

definition decoded_at :: "u32 list \<Rightarrow> nat \<Rightarrow> nat \<Rightarrow> Rdna2Instruction \<Rightarrow> bool" where
  "decoded_at words i n inst \<longleftrightarrow> inst_word_index inst = i \<and> inst_word_count inst = n \<and> inst_byte_offset inst = 4 * i
     \<and> inst_raw_word inst = words ! i \<and> ir_valid inst"

lemma decode_sopp_at: "decoded_at words i 1 (decode_sopp i (words ! i))"
  unfolding decoded_at_def
  by (intro conjI lower_sopp_valid [of _ "ucast (drop_bit 16 (words ! i) AND 0x7f)"])
    (simp_all add: decode_sopp_def decoded_instruction_def valid_sopp_source_def Let_def)

lemma decode_exp_at:
  "if i + 2 \<le> length words then \<exists>inst. decode_exp words i (words ! i) = Success inst \<and> decoded_at words i 2 inst
   else decode_exp words i (words ! i) = Failure (Rdna2DecodeError instruction_out_of_bounds (i + 1) (length words))"
  by (auto simp: decode_exp_def decoded_instruction_def decoded_at_def Let_def valid_exp_source_def intro!: lower_exp_valid)

lemma decode_sop1_at:
  "let n = (if ucast (drop_bit 8 (words ! i) AND 0xff) = (3 :: u8) \<and> ucast (words ! i AND 0xff) = (255 :: u8)
     then 2 else 1) in i < length words \<longrightarrow>
   (if i + n \<le> length words then \<exists>inst. decode_sop1 words i (words ! i) = Success inst \<and> decoded_at words i n inst
    else decode_sop1 words i (words ! i) = Failure (Rdna2DecodeError instruction_out_of_bounds (i + 1) (length words)))"
  unfolding decode_sop1_def extension_word_eq Let_def classify_sop1_mov
  by (auto simp: decoded_instruction_def decoded_at_def valid_sop1_source_def intro!: lower_sop1_valid)

lemma decode_vop1_at:
  "let n = (if vop1_source_has_extension (ucast (words ! i AND 0x1ff)) then 2 else 1) in i < length words \<longrightarrow>
   (if i + n \<le> length words then \<exists>inst. decode_vop1 words i (words ! i) = Success inst \<and> decoded_at words i n inst
    else decode_vop1 words i (words ! i) = Failure (Rdna2DecodeError instruction_out_of_bounds (i + 1) (length words)))"
  unfolding decode_vop1_def extension_word_eq Let_def
  by (auto simp: decoded_instruction_def decoded_at_def valid_vop1_source_def intro!: lower_vop1_valid)

lemma decode_vop2_at:
  "let n = (if vop2_source0_has_extension (ucast (words ! i AND 0x1ff)) then 2 else 1) in i < length words \<longrightarrow>
   (if i + n \<le> length words then \<exists>inst. decode_vop2 words i (words ! i) = Success inst \<and> decoded_at words i n inst
    else decode_vop2 words i (words ! i) = Failure (Rdna2DecodeError instruction_out_of_bounds (i + 1) (length words)))"
  unfolding decode_vop2_def extension_word_eq Let_def
  by (auto simp: decoded_instruction_def decoded_at_def valid_vop2_source_def intro!: lower_vop2_valid)

lemma decode_other_at:
  "decoded_at words i 1 (decoded_instruction i 1 (words ! i) format_unsupported unsupported_encoding)"
  by (simp add: decoded_at_def decoded_instruction_def ir_valid_def lower_operation_def Let_def)

lemma decode_rdna2_eq:
  assumes "i < length words" and "length words < 2 ^ 62"
  shows "decode_rdna2_instruction words i = (let w = words ! i in
     if w AND 0xfc000000 = 0xf8000000 then decode_exp words i w
     else if drop_bit 23 w AND 0x1ff = 0x17f then Success (decode_sopp i w)
     else if drop_bit 23 w AND 0x1ff = 0x17d then decode_sop1 words i w
     else if drop_bit 25 w AND 0x7f = 0x3f then decode_vop1 words i w
     else if w AND 0x80000000 = 0 then decode_vop2 words i w
     else Success (decoded_instruction i 1 w format_unsupported unsupported_encoding))"
proof -
  have "\<not> i > size_max div 4" using assms by simp
  with assms(1) show ?thesis unfolding decode_rdna2_instruction_def Let_def by simp
qed

text \<open>
  Decoding at an index inside the stream succeeds exactly when the instruction does not run past the
  end, and then gives the position, the size and the raw word.
\<close>

lemma decode_outcome:
  assumes "i < length words" and "length words < 2 ^ 62"
  shows "if i + instruction_words (words ! i) \<le> length words
    then \<exists>inst. decode_rdna2_instruction words i = Success inst \<and> decoded_at words i (instruction_words (words ! i)) inst
    else decode_rdna2_instruction words i = Failure (Rdna2DecodeError instruction_out_of_bounds (i + 1) (length words))"
proof -
  let ?w = "words ! i"
  note dec = decode_rdna2_eq [OF assms]
  have one: "i + 1 \<le> length words" using assms(1) by simp
  note at = decode_sop1_at [of words i] decode_vop1_at [of words i] decode_vop2_at [of words i]
  consider "?w AND 0xfc000000 = 0xf8000000"
    | "?w AND 0xfc000000 \<noteq> 0xf8000000" "drop_bit 23 ?w AND 0x1ff = 0x17f"
    | "?w AND 0xfc000000 \<noteq> 0xf8000000" "drop_bit 23 ?w AND 0x1ff = 0x17d"
    | "?w AND 0xfc000000 \<noteq> 0xf8000000" "drop_bit 23 ?w AND 0x1ff \<noteq> 0x17f" "drop_bit 23 ?w AND 0x1ff \<noteq> 0x17d"
        "drop_bit 25 ?w AND 0x7f = 0x3f"
    | "?w AND 0xfc000000 \<noteq> 0xf8000000" "drop_bit 23 ?w AND 0x1ff \<noteq> 0x17f" "drop_bit 23 ?w AND 0x1ff \<noteq> 0x17d"
        "drop_bit 25 ?w AND 0x7f \<noteq> 0x3f" "?w AND 0x80000000 = 0"
    | "?w AND 0xfc000000 \<noteq> 0xf8000000" "drop_bit 23 ?w AND 0x1ff \<noteq> 0x17f" "drop_bit 23 ?w AND 0x1ff \<noteq> 0x17d"
        "drop_bit 25 ?w AND 0x7f \<noteq> 0x3f" "?w AND 0x80000000 \<noteq> 0"
    by metis
  then show ?thesis
  proof cases
    case 1
    with decode_exp_at [of i words] show ?thesis unfolding dec instruction_words_def Let_def by simp
  next
    case 2
    with decode_sopp_at [of words i] one show ?thesis unfolding dec instruction_words_def Let_def by simp
  next
    case 3
    with at(1) assms(1) show ?thesis unfolding dec instruction_words_def Let_def by simp
  next
    case 4
    with at(2) assms(1) show ?thesis unfolding dec instruction_words_def Let_def by simp
  next
    case 5
    with at(3) assms(1) show ?thesis unfolding dec instruction_words_def Let_def by simp
  next
    case 6
    with decode_other_at [of words i] one show ?thesis unfolding dec instruction_words_def Let_def by simp
  qed
qed

section \<open>Streams are sequences of instructions\<close>

text \<open>
  The emissions of a stream: one per instruction, each decoded where the previous one ends, and the
  last one ending with the stream.
\<close>

primrec stream_tiles :: "u32 list \<Rightarrow> nat \<Rightarrow> ShaderIrEmission list \<Rightarrow> bool" where
  "stream_tiles words i [] \<longleftrightarrow> i = length words"
| "stream_tiles words i (e # es) \<longleftrightarrow>
     i < length words \<and> decode_rdna2_instruction words i = Success (ir_source_instruction e)
     \<and> decoded_at words i (instruction_words (words ! i)) (ir_source_instruction e)
     \<and> ir_operation e = lower_operation (ir_source_instruction e)
     \<and> i + instruction_words (words ! i) \<le> length words
     \<and> stream_tiles words (i + instruction_words (words ! i)) es"

text \<open>The stream ends inside an instruction: following the sizes from an index leads to its last word.\<close>

inductive truncated_at :: "u32 list \<Rightarrow> nat \<Rightarrow> nat \<Rightarrow> bool" for words where
  truncated_here: "i < length words \<Longrightarrow> i + instruction_words (words ! i) > length words \<Longrightarrow> truncated_at words i i"
| truncated_later: "i < length words \<Longrightarrow> i + instruction_words (words ! i) \<le> length words \<Longrightarrow>
    truncated_at words (i + instruction_words (words ! i)) k \<Longrightarrow> truncated_at words i k"

lemma stream_tiles_not_truncated: "truncated_at words i k \<Longrightarrow> \<not> stream_tiles words i es"
  by (induction arbitrary: es rule: truncated_at.induct) (case_tac es; simp)+

lemma lower_stream_step:
  assumes "decode_rdna2_instruction words i = Success inst" "0 < inst_word_count inst"
    "i + inst_word_count inst \<le> length words"
  shows "lower_stream_loop words i acc =
    lower_stream_loop words (i + inst_word_count inst) (acc @ [lower_rdna2_to_shader_ir inst])"
proof -
  have "\<not> length words - i < inst_word_count inst" using assms(3) by linarith
  moreover have "i < length words" using assms(2,3) by linarith
  ultimately show ?thesis using assms(1,2) by (subst lower_stream_loop.simps) (simp add: Let_def)
qed

lemma lower_stream_loop_outcome:
  assumes "length words < 2 ^ 62" and "i \<le> length words"
  shows "(\<exists>es. stream_tiles words i es \<and> lower_stream_loop words i acc = Success (acc @ es))
    \<or> (\<exists>k n. truncated_at words i k \<and> k = length words - 1 \<and> lower_stream_loop words i acc =
         Failure (ir_program_error decode_failure k n (Some (Rdna2DecodeError instruction_out_of_bounds (length words) (length words)))))"
  using assms
proof (induction words i acc rule: lower_stream_loop.induct)
  case (1 words i acc)
  show ?case
  proof (cases "i < length words")
    case False
    with "1.prems" have "stream_tiles words i []" by simp
    moreover have "lower_stream_loop words i acc = Success (acc @ [])" using False by (subst lower_stream_loop.simps) simp
    ultimately show ?thesis by blast
  next
    case True
    let ?n = "instruction_words (words ! i)"
    note dec = decode_outcome [OF True "1.prems"(1)]
    show ?thesis
    proof (cases "i + ?n \<le> length words")
      case False
      with dec have "decode_rdna2_instruction words i = Failure (Rdna2DecodeError instruction_out_of_bounds (i + 1) (length words))"
        by simp
      moreover have "i = length words - 1" "i + 1 = length words"
        using False True instruction_words_cases [of "words ! i"] by auto
      ultimately have "lower_stream_loop words i acc = Failure (ir_program_error decode_failure i (length acc)
          (Some (Rdna2DecodeError instruction_out_of_bounds (length words) (length words))))"
        using True by (subst lower_stream_loop.simps) simp
      moreover have "truncated_at words i i" using True False by (intro truncated_here) simp_all
      ultimately show ?thesis using \<open>i = length words - 1\<close> by blast
    next
      case fits: True
      with dec obtain inst where inst: "decode_rdna2_instruction words i = Success inst" "decoded_at words i ?n inst"
        by auto
      then have cnt: "inst_word_count inst = ?n" by (simp add: decoded_at_def)
      have pos: "?n \<noteq> 0" using instruction_words_cases [of "words ! i"] by auto
      have room: "\<not> length words - i < ?n" using fits by linarith
      let ?e = "lower_rdna2_to_shader_ir inst"
      have step: "lower_stream_loop words i acc = lower_stream_loop words (i + ?n) (acc @ [?e])"
        using lower_stream_step [OF inst(1)] cnt pos fits by simp
      from "1.IH" [OF True refl, of inst] cnt room pos fits "1.prems"
      have IH: "(\<exists>es. stream_tiles words (i + ?n) es \<and> lower_stream_loop words (i + ?n) (acc @ [?e]) = Success ((acc @ [?e]) @ es))
        \<or> (\<exists>k n. truncated_at words (i + ?n) k \<and> k = length words - 1 \<and> lower_stream_loop words (i + ?n) (acc @ [?e]) =
         Failure (ir_program_error decode_failure k n (Some (Rdna2DecodeError instruction_out_of_bounds (length words) (length words)))))"
        by simp
      then show ?thesis
      proof
        assume "\<exists>es. stream_tiles words (i + ?n) es \<and> lower_stream_loop words (i + ?n) (acc @ [?e]) = Success ((acc @ [?e]) @ es)"
        then obtain es where es: "stream_tiles words (i + ?n) es" "lower_stream_loop words (i + ?n) (acc @ [?e]) = Success ((acc @ [?e]) @ es)"
          by blast
        then have "stream_tiles words i (?e # es)"
          using True inst fits by (simp add: lower_rdna2_to_shader_ir_def)
        moreover have "lower_stream_loop words i acc = Success (acc @ (?e # es))" unfolding step es(2) by simp
        ultimately show ?thesis by blast
      next
        assume "\<exists>k n. truncated_at words (i + ?n) k \<and> k = length words - 1 \<and> lower_stream_loop words (i + ?n) (acc @ [?e]) =
         Failure (ir_program_error decode_failure k n (Some (Rdna2DecodeError instruction_out_of_bounds (length words) (length words))))"
        then show ?thesis unfolding step using truncated_later [OF True fits] by blast
      qed
    qed
  qed
qed

section \<open>Fields of an instruction word\<close>

lemma mask_AND:
  "w AND 0x7f = take_bit 7 (w::u32)" "w AND 0xff = take_bit 8 w" "w AND 0x1ff = take_bit 9 w" "w AND 0xffff = take_bit 16 w"
  "w AND 0x3f = take_bit 6 w" "w AND 0xf = take_bit 4 w" "w AND 1 = take_bit 1 w"
  by (simp_all add: take_bit_eq_mask mask_eq_exp_minus_1)

lemma bit_below: "unat w < 2 ^ k \<Longrightarrow> bit w n \<Longrightarrow> n < k" for w :: "'a::len word"
proof -
  assume "unat w < 2 ^ k" "bit w n"
  then have "bit (unat w) n" by (simp add: bit_unsigned_iff)
  then have "unat w div 2 ^ n \<noteq> 0" by (auto simp: bit_iff_odd intro: ccontr)
  then have "2 ^ n \<le> unat w" by (metis div_less not_less)
  then have "(2 :: nat) ^ n < 2 ^ k" using \<open>unat w < 2 ^ k\<close> by (rule le_less_trans)
  then show "n < k" by simp
qed

lemma bit_below6: "(w :: u8) < 64 \<Longrightarrow> bit w n \<Longrightarrow> n < 6"
  using bit_below [of w 6 n] by (simp add: word_less_nat_alt)
lemma bit_below7: "(w :: u8) < 128 \<Longrightarrow> bit w n \<Longrightarrow> n < 7"
  using bit_below [of w 7 n] by (simp add: word_less_nat_alt)
lemma bit_below9: "(w :: u16) < 512 \<Longrightarrow> bit w n \<Longrightarrow> n < 9"
  using bit_below [of w 9 n] by (simp add: word_less_nat_alt)

lemma and_field: "w AND push_bit k (mask m) = push_bit k (take_bit m (drop_bit k w))" for w :: u32
  by (auto simp: bit_eq_iff bit_simps)

lemma top_bits:
  fixes w :: u32
  shows "w AND 0xfc000000 = 0xf8000000 \<longleftrightarrow> drop_bit 26 w = 0x3e" (is ?A)
    and "w AND 0x80000000 = 0 \<longleftrightarrow> drop_bit 31 w = 0" (is ?B)
proof -
  have c: "(0xfc000000 :: u32) = push_bit 26 (mask 6)" "(0xf8000000 :: u32) = push_bit 26 0x3e" "(0x80000000 :: u32) = push_bit 31 (mask 1)"
    by (simp_all add: mask_eq_exp_minus_1)
  have u: "unat w < 4294967296" using unsigned_less [of w] by simp
  have len: "unat (drop_bit 26 w) < 2 ^ 6" "unat (drop_bit 31 w) < 2 ^ 1"
    unfolding unsigned_drop_bit_eq unfolding drop_bit_eq_div using u by (simp_all add: take_bit_nat_eq_self less_mult_imp_div_less)
  then have t: "take_bit 6 (drop_bit 26 w) = drop_bit 26 w" "take_bit 1 (drop_bit 31 w) = drop_bit 31 w"
    by (simp_all add: word_unat_eq_iff unsigned_take_bit_eq take_bit_nat_eq_self unat_mod)
  have inv6: "drop_bit 26 (push_bit 26 y) = y" if "unat y < 2 ^ 6" for y :: u32
    using bit_below [OF that] by (auto simp: bit_eq_iff bit_simps)
  have inv1: "drop_bit 31 (push_bit 31 y) = y" if "unat y < 2 ^ 1" for y :: u32
    using bit_below [OF that] by (auto simp: bit_eq_iff bit_simps)
  show ?A unfolding c(1,2) and_field t using inv6 [OF len(1)] inv6 [of "0x3e"] by fastforce
  show ?B unfolding c(3) and_field t using inv1 [OF len(2)] by (metis push_bit_of_0 drop_bit_of_0)
qed

section \<open>An assembler\<close>

text \<open>
  Words of the five encodings, written with the bit positions of the instruction set manual that the
  decoder quotes, and the assembler that writes a typed operation with them.
\<close>

definition sopp_word :: "u8 \<Rightarrow> u16 \<Rightarrow> u32" where
  "sopp_word op imm = push_bit 23 0x17f OR push_bit 16 (ucast op) OR ucast imm"

definition sop1_word :: "u8 \<Rightarrow> u8 \<Rightarrow> u8 \<Rightarrow> u32" where
  "sop1_word op dst src = push_bit 23 0x17d OR push_bit 16 (ucast dst) OR push_bit 8 (ucast op) OR ucast src"

definition vop1_word :: "u8 \<Rightarrow> u8 \<Rightarrow> u16 \<Rightarrow> u32" where
  "vop1_word op dst src = push_bit 25 0x3f OR push_bit 17 (ucast dst) OR push_bit 9 (ucast op) OR ucast src"

definition vop2_word :: "u8 \<Rightarrow> u8 \<Rightarrow> u16 \<Rightarrow> u8 \<Rightarrow> u32" where
  "vop2_word op dst src0 src1 = push_bit 25 (ucast op) OR push_bit 17 (ucast dst) OR push_bit 9 (ucast src1) OR ucast src0"

definition exp_word :: "u8 \<Rightarrow> u8 \<Rightarrow> bool \<Rightarrow> bool \<Rightarrow> bool \<Rightarrow> u32" where
  "exp_word en tgt compr dn vm = push_bit 26 0x3e OR push_bit 12 (of_bool vm) OR push_bit 11 (of_bool dn)
     OR push_bit 10 (of_bool compr) OR push_bit 4 (ucast tgt) OR ucast en"

lemma bit_below4: "(w :: u8) < 16 \<Longrightarrow> bit w n \<Longrightarrow> n < 4"
  using bit_below [of w 4 n] by (simp add: word_less_nat_alt)

lemma sopp_fields:
  assumes "op < 128"
  shows "drop_bit 23 (sopp_word op imm) = 0x17f"
    "ucast (drop_bit 16 (sopp_word op imm) AND 0x7f) = op"
    "ucast (sopp_word op imm AND 0xffff) = imm"
  unfolding mask_AND sopp_word_def using assms
  by (auto simp: bit_eq_iff bit_simps dest!: bit_below7 dest: bit_imp_le_length)

lemma sop1_fields:
  assumes "dst < 128"
  shows "drop_bit 23 (sop1_word op dst src) = 0x17d"
    "ucast (drop_bit 16 (sop1_word op dst src) AND 0x7f) = dst"
    "ucast (drop_bit 8 (sop1_word op dst src) AND 0xff) = op"
    "ucast (sop1_word op dst src AND 0xff) = src"
  unfolding mask_AND sop1_word_def using assms
  by (auto simp: bit_eq_iff bit_simps dest!: bit_below7 dest: bit_imp_le_length)

lemma vop1_fields:
  assumes "src < 512"
  shows "drop_bit 25 (vop1_word op dst src) = 0x3f"
    "ucast (drop_bit 17 (vop1_word op dst src) AND 0xff) = dst"
    "ucast (drop_bit 9 (vop1_word op dst src) AND 0xff) = op"
    "ucast (vop1_word op dst src AND 0x1ff) = src"
  unfolding mask_AND vop1_word_def using assms
  by (auto simp: bit_eq_iff bit_simps dest!: bit_below9 dest: bit_imp_le_length)

lemma vop2_fields:
  assumes "src0 < 512" "op < 64"
  shows "drop_bit 25 (vop2_word op dst src0 src1) = ucast op"
    "ucast (drop_bit 17 (vop2_word op dst src0 src1) AND 0xff) = dst"
    "ucast (drop_bit 9 (vop2_word op dst src0 src1) AND 0xff) = src1"
    "ucast (vop2_word op dst src0 src1 AND 0x1ff) = src0"
  unfolding mask_AND vop2_word_def using assms
  by (auto simp: bit_eq_iff bit_simps dest!: bit_below9 bit_below6 dest: bit_imp_le_length)


lemma odd_field: "(w AND 1 \<noteq> 0) = odd (w :: u32)"
  by (simp add: and_one_eq odd_iff_mod_2_eq_one)

lemma exp_fields:
  assumes "en < 16" "tgt < 64"
  shows "drop_bit 26 (exp_word en tgt compr dn vm) = 0x3e"
    "ucast (exp_word en tgt compr dn vm AND 0x0f) = en"
    "ucast (drop_bit 4 (exp_word en tgt compr dn vm) AND 0x3f) = tgt"
    "(drop_bit 10 (exp_word en tgt compr dn vm) AND 1 \<noteq> 0) = compr"
    "(drop_bit 11 (exp_word en tgt compr dn vm) AND 1 \<noteq> 0) = dn"
    "(drop_bit 12 (exp_word en tgt compr dn vm) AND 1 \<noteq> 0) = vm"
proof -
  show "drop_bit 26 (exp_word en tgt compr dn vm) = 0x3e"
    unfolding exp_word_def mask_AND(5,6) using assms
    by (intro bit_eqI) (auto simp: bit_simps dest!: bit_below4 bit_below6 dest: bit_imp_le_length)
  show "ucast (exp_word en tgt compr dn vm AND 0x0f) = en"
    unfolding exp_word_def mask_AND(5,6) using assms
    by (intro bit_eqI) (auto simp: bit_simps dest!: bit_below4 bit_below6 dest: bit_imp_le_length)
  show "ucast (drop_bit 4 (exp_word en tgt compr dn vm) AND 0x3f) = tgt"
    unfolding exp_word_def mask_AND(5,6) using assms
    by (intro bit_eqI) (auto simp: bit_simps dest!: bit_below4 bit_below6 dest: bit_imp_le_length)
  show "(drop_bit 10 (exp_word en tgt compr dn vm) AND 1 \<noteq> 0) = compr"
    "(drop_bit 11 (exp_word en tgt compr dn vm) AND 1 \<noteq> 0) = dn"
    "(drop_bit 12 (exp_word en tgt compr dn vm) AND 1 \<noteq> 0) = vm"
    unfolding odd_field bit_iff_odd_drop_bit [symmetric] exp_word_def using assms
    by (auto simp: bit_simps dest!: bit_below4 bit_below6)
qed

text \<open>Which encoding a word has is decided by its nine top bits.\<close>

lemma top_nine:
  fixes w :: u32
  shows "drop_bit 23 w AND 0x1ff = drop_bit 23 w" "drop_bit 25 w AND 0x7f = drop_bit 25 w"
    "drop_bit 25 w = drop_bit 2 (drop_bit 23 w)" "drop_bit 26 w = drop_bit 3 (drop_bit 23 w)"
    "drop_bit 26 w = drop_bit 1 (drop_bit 25 w)" "drop_bit 31 w = drop_bit 6 (drop_bit 25 w)"
  unfolding mask_AND by (auto simp: bit_eq_iff bit_simps dest: bit_imp_le_length)

lemma decode_sopp_word:
  assumes "i < length words" "length words < 2 ^ 62" "words ! i = sopp_word op imm" "op < 128"
  shows "decode_rdna2_instruction words i = Success (decode_sopp i (sopp_word op imm))"
  unfolding decode_rdna2_eq [OF assms(1,2)] assms(3) Let_def top_bits top_nine(1,4) sopp_fields(1) [OF assms(4)] by simp

lemma decode_sop1_word:
  assumes "i < length words" "length words < 2 ^ 62" "words ! i = sop1_word op dst src" "dst < 128"
  shows "decode_rdna2_instruction words i = decode_sop1 words i (sop1_word op dst src)"
  unfolding decode_rdna2_eq [OF assms(1,2)] assms(3) Let_def top_bits top_nine(1,4) sop1_fields(1) [OF assms(4)] by simp

lemma decode_vop1_word:
  assumes "i < length words" "length words < 2 ^ 62" "words ! i = vop1_word op dst src" "src < 512"
  shows "decode_rdna2_instruction words i = decode_vop1 words i (vop1_word op dst src)"
proof -
  let ?w = "vop1_word op dst src"
  have e: "drop_bit 2 (drop_bit 23 ?w) = 0x3f" using vop1_fields(1) [OF assms(4)] top_nine(3) [of ?w] by simp
  have "drop_bit 2 (0x17f :: u32) \<noteq> 0x3f" "drop_bit 2 (0x17d :: u32) \<noteq> 0x3f" by simp_all
  with e have "drop_bit 23 ?w \<noteq> 0x17f" "drop_bit 23 ?w \<noteq> 0x17d" by metis+
  then show ?thesis
    unfolding decode_rdna2_eq [OF assms(1,2)] assms(3) Let_def top_bits top_nine(1,2,5) vop1_fields(1) [OF assms(4)] by simp
qed

lemma decode_vop2_word:
  assumes "i < length words" "length words < 2 ^ 62" "words ! i = vop2_word op dst src0 src1" "src0 < 512" "op < 63"
  shows "decode_rdna2_instruction words i = decode_vop2 words i (vop2_word op dst src0 src1)"
proof -
  let ?w = "vop2_word op dst src0 src1"
  have op: "op < 64" "unat op < 63" using assms(5) by (simp_all add: word_less_nat_alt)
  then have n: "unat (ucast op :: u32) < 63" by (simp add: unat_ucast_up)
  have e: "drop_bit 2 (drop_bit 23 ?w) = ucast op" using vop2_fields(1) [OF assms(4) op(1)] top_nine(3) [of ?w] by simp
  have "(ucast op :: u32) \<noteq> 0x5f" "(ucast op :: u32) \<noteq> 0x3f" using n by (auto simp: word_unat_eq_iff)
  moreover have "drop_bit 2 (0x17f :: u32) = 0x5f" "drop_bit 2 (0x17d :: u32) = 0x5f" by simp_all
  ultimately have no: "drop_bit 23 ?w \<noteq> 0x17f" "drop_bit 23 ?w \<noteq> 0x17d" "(ucast op :: u32) \<noteq> 0x3f"
    using e by metis+
  have d: "unat (drop_bit k (ucast op :: u32)) = unat op div 2 ^ k" for k
    unfolding unsigned_drop_bit_eq unfolding drop_bit_eq_div using n
    by (simp add: take_bit_nat_eq_self unat_ucast_up)
  have "drop_bit 1 (ucast op :: u32) \<noteq> 0x3e" "drop_bit 6 (ucast op :: u32) = 0"
    using op d [of 1] d [of 6] by (auto simp: word_unat_eq_iff)
  then show ?thesis
    using no unfolding decode_rdna2_eq [OF assms(1,2)] assms(3) Let_def top_bits top_nine(1,2,5,6) vop2_fields(1) [OF assms(4) op(1)]
    by simp
qed

lemma decode_exp_word:
  assumes "i < length words" "length words < 2 ^ 62" "words ! i = exp_word en tgt compr dn vm" "en < 16" "tgt < 64"
  shows "decode_rdna2_instruction words i = decode_exp words i (exp_word en tgt compr dn vm)"
  unfolding decode_rdna2_eq [OF assms(1,2)] assms(3) Let_def top_bits exp_fields(1) [OF assms(4,5)] by simp

text \<open>
  A typed operation: its operands are inside the ranges that the encodings can express. The
  unsupported operation has no encoding.
\<close>

fun source_typed :: "ShaderIrScalarSource32 \<Rightarrow> bool" where
  "source_typed (ShaderIrSgpr r) \<longleftrightarrow> r \<le> 105"
| "source_typed (ShaderIrSpecialScalarSource32 k) \<longleftrightarrow> True"
| "source_typed (ShaderIrInlineInteger32 n) \<longleftrightarrow> - 16 \<le> n \<and> n \<le> 64"
| "source_typed (ShaderIrLiteral32 bits) \<longleftrightarrow> True"

fun export_typed :: "ShaderIrExportTargetKind \<Rightarrow> u8 \<Rightarrow> bool" where
  "export_typed mrt n \<longleftrightarrow> n < 8"
| "export_typed position_target n \<longleftrightarrow> n < 4"
| "export_typed parameter_target n \<longleftrightarrow> n < 32"
| "export_typed _ n \<longleftrightarrow> n = 0"

definition branch_typed :: "int \<Rightarrow> bool" where
  "branch_typed delta \<longleftrightarrow> delta mod 4 = 0 \<and> - 131068 \<le> delta \<and> delta \<le> 131072"

fun ir_typed :: "ShaderIrOperation \<Rightarrow> bool" where
  "ir_typed (ShaderIrNop n) \<longleftrightarrow> 1 \<le> n \<and> n \<le> 16"
| "ir_typed ShaderIrEndProgram \<longleftrightarrow> True"
| "ir_typed (ShaderIrRelativeBranch delta) \<longleftrightarrow> branch_typed delta"
| "ir_typed (ShaderIrConditionalRelativeBranch c delta) \<longleftrightarrow> branch_typed delta"
| "ir_typed ShaderIrWorkgroupBarrier \<longleftrightarrow> True"
| "ir_typed (ShaderIrWaitCount v e l) \<longleftrightarrow> v < 64 \<and> e < 8 \<and> l < 64"
| "ir_typed (ShaderIrScalarMove32 d s) \<longleftrightarrow> d \<le> 105 \<and> source_typed s"
| "ir_typed (ShaderIrScalarMove64 d s) \<longleftrightarrow> d \<le> 104 \<and> even (unat d) \<and> s \<le> 104 \<and> even (unat s)"
| "ir_typed (ShaderIrVectorMove32 d s) \<longleftrightarrow> True"
| "ir_typed (ShaderIrVectorAddF32 d s0 s1) \<longleftrightarrow> True"
| "ir_typed (ShaderIrExportOp x) \<longleftrightarrow> export_typed (export_target_kind x) (export_target_index x)
     \<and> export_enable_mask x < 16 \<and> length (export_sources x) = 4"
| "ir_typed (ShaderIrUnsupported reason) \<longleftrightarrow> False"

fun branch_opcode :: "ShaderIrBranchCondition \<Rightarrow> u8" where
  "branch_opcode scc_zero = 4"
| "branch_opcode scc_one = 5"
| "branch_opcode vcc_zero = 6"
| "branch_opcode vcc_nonzero = 7"
| "branch_opcode exec_zero = 8"
| "branch_opcode exec_nonzero = 9"

fun source_selector :: "ShaderIrScalarSource32 \<Rightarrow> u8" where
  "source_selector (ShaderIrSgpr r) = r"
| "source_selector (ShaderIrSpecialScalarSource32 k) =
     (case k of vcc_lo \<Rightarrow> 106 | vcc_hi \<Rightarrow> 107 | m0_register \<Rightarrow> 124 | null_register \<Rightarrow> 125 | exec_lo \<Rightarrow> 126 | exec_hi \<Rightarrow> 127)"
| "source_selector (ShaderIrInlineInteger32 n) = (if 0 \<le> n then word_of_int (128 + n) else word_of_int (192 - n))"
| "source_selector (ShaderIrLiteral32 bits) = 255"

fun source_literal :: "ShaderIrScalarSource32 \<Rightarrow> u32 list" where
  "source_literal (ShaderIrLiteral32 bits) = [bits]"
| "source_literal _ = []"

fun target_code :: "ShaderIrExportTargetKind \<Rightarrow> u8 \<Rightarrow> u8" where
  "target_code mrt n = n"
| "target_code mrt_z n = 8"
| "target_code null_target n = 9"
| "target_code position_target n = n + 12"
| "target_code primitive_target n = 20"
| "target_code parameter_target n = n + 32"

definition wait_immediate :: "u8 \<Rightarrow> u8 \<Rightarrow> u8 \<Rightarrow> u16" where
  "wait_immediate v e l = push_bit 14 (ucast (drop_bit 4 v)) OR push_bit 8 (ucast l) OR push_bit 4 (ucast e) OR take_bit 4 (ucast v)"

definition sources_word :: "u8 list \<Rightarrow> u32" where
  "sources_word rs = push_bit 24 (ucast (rs ! 3)) OR push_bit 16 (ucast (rs ! 2)) OR push_bit 8 (ucast (rs ! 1)) OR ucast (rs ! 0)"

fun assemble :: "ShaderIrOperation \<Rightarrow> u32 list" where
  "assemble (ShaderIrNop n) = [sopp_word 0 (ucast (n - 1))]"
| "assemble ShaderIrEndProgram = [sopp_word 1 0]"
| "assemble (ShaderIrRelativeBranch delta) = [sopp_word 2 (word_of_int ((delta - 4) div 4))]"
| "assemble (ShaderIrConditionalRelativeBranch c delta) = [sopp_word (branch_opcode c) (word_of_int ((delta - 4) div 4))]"
| "assemble ShaderIrWorkgroupBarrier = [sopp_word 10 0]"
| "assemble (ShaderIrWaitCount v e l) =
     [sopp_word 12 (wait_immediate v e l)]"
| "assemble (ShaderIrScalarMove32 d s) = sop1_word 3 d (source_selector s) # source_literal s"
| "assemble (ShaderIrScalarMove64 d s) = [sop1_word 4 d s]"
| "assemble (ShaderIrVectorMove32 d s) = [vop1_word 1 d (ucast s + 256)]"
| "assemble (ShaderIrVectorAddF32 d s0 s1) = [vop2_word 3 d (ucast s0 + 256) s1]"
| "assemble (ShaderIrExportOp x) =
     [exp_word (export_enable_mask x) (target_code (export_target_kind x) (export_target_index x))
        (export_compressed x) (export_done x) (export_valid_mask x),
      sources_word (export_sources x)]"
| "assemble (ShaderIrUnsupported reason) = []"

lemma simm16_value:
  "op < 128 \<Longrightarrow> decode_simm16 (sopp_word op imm) = (if uint imm < 32768 then uint imm else uint imm - 65536)"
  by (simp add: decode_simm16_def sopp_fields(3) word_less_def)

lemma simm16_word: "op < 128 \<Longrightarrow> word_of_int (decode_simm16 (sopp_word op imm)) = imm"
proof -
  have "(65536 :: u16) = 0" by (simp add: word_uint_eq_iff)
  then have "word_of_int (uint imm - 65536) = imm" by (simp only: of_int_diff of_int_numeral) simp
  then show "op < 128 \<Longrightarrow> ?thesis" by (simp add: simm16_value)
qed

lemma simm16_of_int:
  assumes "op < 128" "- 32768 \<le> k" "k < 32768"
  shows "decode_simm16 (sopp_word op (word_of_int k)) = k"
proof -
  have "uint (word_of_int k :: u16) = k mod 65536" by (simp add: uint_word_of_int)
  moreover have "k mod 65536 = (if k < 0 then k + 65536 else k)"
    using assms(2,3) mod_add_self2 [of k 65536] by (auto simp: mod_pos_pos_trivial simp del: mod_add_self2)
  ultimately show ?thesis using assms by (simp add: simm16_value)
qed

text \<open>What an assembled operation decodes to, wherever its words stand in a stream.\<close>

definition decodes_to :: "u32 list \<Rightarrow> nat \<Rightarrow> ShaderIrOperation \<Rightarrow> bool" where
  "decodes_to words i op \<longleftrightarrow> (\<exists>inst. decode_rdna2_instruction words i = Success inst \<and> lower_operation inst = op
     \<and> inst_word_count inst = length (assemble op))"

lemma decodes_to_sopp:
  assumes "i < length words" "length words < 2 ^ 62" "words ! i = sopp_word code imm" "code < 128"
    and "lower_operation (decode_sopp i (sopp_word code imm)) = op" "length (assemble op) = 1"
  shows "decodes_to words i op"
  using decode_sopp_word [OF assms(1-4)] assms(5,6)
  by (simp add: decodes_to_def) (simp add: decode_sopp_def decoded_instruction_def Let_def)

lemma lower_sopp_eq:
  assumes "code < 128"
  shows "lower_operation (decode_sopp i (sopp_word code imm)) =
    (let d = decode_simm16 (sopp_word code imm) * 4 + 4 in
     case classify_sopp_opcode code of
       s_nop \<Rightarrow> ShaderIrNop (ucast (imm AND 0x0f) + 1)
     | s_endpgm \<Rightarrow> ShaderIrEndProgram
     | s_branch \<Rightarrow> ShaderIrRelativeBranch d
     | s_cbranch_scc0 \<Rightarrow> ShaderIrConditionalRelativeBranch scc_zero d
     | s_cbranch_scc1 \<Rightarrow> ShaderIrConditionalRelativeBranch scc_one d
     | s_cbranch_vccz \<Rightarrow> ShaderIrConditionalRelativeBranch vcc_zero d
     | s_cbranch_vccnz \<Rightarrow> ShaderIrConditionalRelativeBranch vcc_nonzero d
     | s_cbranch_execz \<Rightarrow> ShaderIrConditionalRelativeBranch exec_zero d
     | s_cbranch_execnz \<Rightarrow> ShaderIrConditionalRelativeBranch exec_nonzero d
     | s_barrier \<Rightarrow> ShaderIrWorkgroupBarrier
     | s_waitcnt \<Rightarrow> ShaderIrWaitCount (ucast (push_bit 4 (drop_bit 14 imm AND 0x3) OR (imm AND 0x0f)))
         (ucast (drop_bit 4 imm AND 0x7)) (ucast (drop_bit 8 imm AND 0x3f))
     | _ \<Rightarrow> ShaderIrUnsupported reason_unknown_sopp_opcode)"
  using assms
  by (simp add: simm16_word sopp_fields(2) lower_operation_def decode_sopp_def decoded_instruction_def valid_sopp_source_def
      relative_branch_delta_def wait_count_def classify_sopp_opcode_def Let_def)

lemma branch_roundtrip:
  assumes "branch_typed delta" "code < 128"
  shows "decode_simm16 (sopp_word code (word_of_int ((delta - 4) div 4))) * 4 + 4 = delta"
proof -
  have "(delta - 4) div 4 * 4 = delta - 4" using assms(1) unfolding branch_typed_def by presburger
  moreover have "- 32768 \<le> (delta - 4) div 4" "(delta - 4) div 4 < 32768"
    using assms(1) unfolding branch_typed_def by presburger+
  ultimately show ?thesis using simm16_of_int [OF assms(2), of "(delta - 4) div 4"] by simp
qed

lemma sources_word_bytes:
  assumes "length rs = 4"
  shows "[ucast (sources_word rs AND 0xff), ucast (drop_bit 8 (sources_word rs) AND 0xff),
    ucast (drop_bit 16 (sources_word rs) AND 0xff), ucast (drop_bit 24 (sources_word rs) AND 0xff)] = rs"
proof -
  obtain a b c d where rs: "rs = [a, b, c, d]"
    using assms by (auto simp: length_Suc_conv eval_nat_numeral)
  have "ucast (sources_word rs AND 0xff) = a" "ucast (drop_bit 8 (sources_word rs) AND 0xff) = b"
    "ucast (drop_bit 16 (sources_word rs) AND 0xff) = c" "ucast (drop_bit 24 (sources_word rs) AND 0xff) = d"
    unfolding mask_AND sources_word_def rs
    by (auto simp: bit_eq_iff bit_simps dest: bit_imp_le_length)
  then show ?thesis by (simp add: rs)
qed

lemma source_roundtrip:
  assumes "source_typed s"
  shows "scalar_source32 (source_selector s) (case source_literal s of [] \<Rightarrow> None | b # bs \<Rightarrow> Some b) = Some s"
    and "source_selector s = 255 \<longleftrightarrow> source_literal s \<noteq> []"
proof -
  have "scalar_source32 (source_selector s) (case source_literal s of [] \<Rightarrow> None | b # bs \<Rightarrow> Some b) = Some s
    \<and> (source_selector s = 255 \<longleftrightarrow> source_literal s \<noteq> [])"
  proof (cases s)
    case (ShaderIrSgpr r)
    with assms show ?thesis by (auto simp: scalar_source32_def plain_sgpr_selector_def)
  next
    case (ShaderIrSpecialScalarSource32 k)
    then show ?thesis
      by (cases k) (simp_all add: scalar_source32_def plain_sgpr_selector_def special_scalar_source32_def)
  next
    case (ShaderIrInlineInteger32 n)
    let ?sel = "source_selector s"
    define m where "m = (if 0 \<le> n then 128 + n else 192 - n)"
    have b: "- 16 \<le> n" "n \<le> 64" using assms by (simp_all add: ShaderIrInlineInteger32)
    have "?sel = word_of_int m" by (simp add: ShaderIrInlineInteger32 m_def)
    moreover have mb: "128 \<le> m" "m \<le> 208" using b by (auto simp: m_def)
    ultimately have u: "uint ?sel = m" by (simp add: uint_word_of_int)
    then have un: "unat ?sel = nat m" by (simp add: unat_eq_nat_uint)
    have ge: "128 \<le> unat ?sel" "unat ?sel \<le> 208" using un mb by linarith+
    have c: "?sel \<ge> k \<longleftrightarrow> unat k \<le> unat ?sel" "?sel \<le> k \<longleftrightarrow> unat ?sel \<le> unat k" "?sel = k \<longleftrightarrow> unat ?sel = unat k" for k
      by (simp_all add: word_le_nat_alt word_unat_eq_iff)
    have "special_scalar_source32 ?sel = None" "\<not> plain_sgpr_selector ?sel"
      using ge unfolding special_scalar_source32_def plain_sgpr_selector_def c by simp_all
    moreover have "unat ?sel \<le> 192 \<longleftrightarrow> 0 \<le> n" using un b by (auto simp: m_def)
    moreover have "uint ?sel = (if 0 \<le> n then 128 + n else 192 - n)" using u by (simp add: m_def)
    ultimately have "scalar_source32 ?sel None = Some (ShaderIrInlineInteger32 n)"
      unfolding scalar_source32_def c using ge by (cases "0 \<le> n") simp_all
    then have "scalar_source32 ?sel None = Some s" unfolding ShaderIrInlineInteger32 [symmetric] .
    moreover have "source_literal s = []" by (simp add: ShaderIrInlineInteger32)
    moreover have "?sel \<noteq> 255" using ge unfolding c by simp
    ultimately show ?thesis by (metis list.case(1))
  next
    case (ShaderIrLiteral32 bits)
    then show ?thesis
      by (simp add: scalar_source32_def plain_sgpr_selector_def special_scalar_source32_def)
  qed
  then show "scalar_source32 (source_selector s) (case source_literal s of [] \<Rightarrow> None | b # bs \<Rightarrow> Some b) = Some s"
    "source_selector s = 255 \<longleftrightarrow> source_literal s \<noteq> []" by blast+
qed

lemma target_roundtrip:
  assumes "export_typed k n"
  shows "export_target (target_code k n) = Some (k, n)" "target_code k n < 64"
proof -
  have plus: "unat (n + c) = unat n + unat c" if "unat n + unat c < 256" for c
    using that by (simp add: unat_plus_if')
  have "export_target (target_code k n) = Some (k, n) \<and> target_code k n < 64"
  proof (cases k)
    case mrt
    with assms have n: "unat n < 8" by (simp add: word_less_nat_alt)
    with mrt show ?thesis by (simp add: export_target_def word_le_nat_alt word_less_nat_alt)
  next
    case position_target
    with assms have n: "unat n < 4" by (simp add: word_less_nat_alt)
    with position_target plus [of 12] show ?thesis
      by (auto simp: export_target_def word_le_nat_alt word_less_nat_alt word_unat_eq_iff)
  next
    case parameter_target
    with assms have n: "unat n < 32" by (simp add: word_less_nat_alt)
    with parameter_target plus [of 32] show ?thesis
      by (auto simp: export_target_def word_le_nat_alt word_less_nat_alt word_unat_eq_iff)
  qed (use assms in \<open>simp_all add: export_target_def\<close>)
  then show "export_target (target_code k n) = Some (k, n)" "target_code k n < 64" by blast+
qed

lemma decodes_to_exp:
  assumes "ir_typed (ShaderIrExportOp x)" "length words < 2 ^ 62" "i + 1 < length words"
    and "words ! i = exp_word (export_enable_mask x) (target_code (export_target_kind x) (export_target_index x))
      (export_compressed x) (export_done x) (export_valid_mask x)"
    and "words ! (i + 1) = sources_word (export_sources x)"
  shows "decodes_to words i (ShaderIrExportOp x)"
proof -
  have t: "export_enable_mask x < 16" "export_typed (export_target_kind x) (export_target_index x)" "length (export_sources x) = 4"
    using assms(1) by simp_all
  note f = exp_fields [OF t(1) target_roundtrip(2) [OF t(2)]]
  have rs: "[export_sources x ! 0, export_sources x ! 1, export_sources x ! 2, export_sources x ! 3] = export_sources x"
    using t(3) by (auto simp: length_Suc_conv eval_nat_numeral)
  show ?thesis
    using decode_exp_word [OF _ assms(2,4) t(1) target_roundtrip(2) [OF t(2)]] assms(3)
    unfolding decodes_to_def decode_exp_def Let_def
    by (simp add: assms(5) [simplified] f sources_word_bytes [OF t(3)] decoded_instruction_def lower_operation_def
        valid_exp_source_def target_roundtrip(1) [OF t(2)] rs [simplified])
qed

lemma decodes_to_sop1:
  assumes "i < length words" "length words < 2 ^ 62" "words ! i = sop1_word code dst src" "dst < 128"
    and "code = 3 \<Longrightarrow> src = 255 \<Longrightarrow> i + 1 < length words"
  shows "\<exists>inst. decode_rdna2_instruction words i = Success inst
    \<and> inst_word_count inst = (if code = 3 \<and> src = 255 then 2 else 1)
    \<and> lower_operation inst =
       (if code = 3 then (case scalar_source32 src (if src = 255 then Some (words ! (i + 1)) else None) of
            Some s \<Rightarrow> if plain_sgpr_selector dst then ShaderIrScalarMove32 dst s else ShaderIrUnsupported unsupported_scalar_operand
          | None \<Rightarrow> ShaderIrUnsupported unsupported_scalar_operand)
        else if code = 4 then (if plain_sgpr_pair_selector dst \<and> plain_sgpr_pair_selector src then ShaderIrScalarMove64 dst src
            else ShaderIrUnsupported unsupported_scalar_operand)
        else ShaderIrUnsupported reason_unknown_sop1_opcode)"
  using assms(5) sop1_fields(2-4) [OF assms(4)]
  unfolding decode_sop1_word [OF assms(1-4)] decode_sop1_def Let_def
  by (auto simp: extension_word_eq classify_sop1_opcode_def decoded_instruction_def lower_operation_def valid_sop1_source_def Let_def
      split: option.split)

lemma wait_roundtrip:
  fixes v e l :: u8
  assumes "v < 64" "e < 8" "l < 64"
  defines "imm \<equiv> wait_immediate v e l"
  shows "ucast (push_bit 4 (drop_bit 14 imm AND 0x3) OR (imm AND 0x0f)) = v"
    "ucast (drop_bit 4 imm AND 0x7) = e" "ucast (drop_bit 8 imm AND 0x3f) = l"
proof -
  have m: "w AND 0x3 = take_bit 2 w" "w AND 0x0f = take_bit 4 w" "w AND 0x7 = take_bit 3 w" "w AND 0x3f = take_bit 6 w" for w :: u16
    by (simp_all add: take_bit_eq_mask mask_eq_exp_minus_1)
  have e8: "bit e n \<Longrightarrow> n < 3" for n using bit_below [of e 3 n] assms(2) by (simp add: word_less_nat_alt)
  note b = bit_below6 [OF assms(1)] bit_below6 [OF assms(3)] e8
  show "ucast (push_bit 4 (drop_bit 14 imm AND 0x3) OR (imm AND 0x0f)) = v"
    unfolding m imm_def wait_immediate_def by (intro bit_eqI) (auto simp: bit_simps dest: b)
  show "ucast (drop_bit 4 imm AND 0x7) = e" unfolding m imm_def wait_immediate_def by (intro bit_eqI) (auto simp: bit_simps dest: b)
  show "ucast (drop_bit 8 imm AND 0x3f) = l" unfolding m imm_def wait_immediate_def by (intro bit_eqI) (auto simp: bit_simps dest: b)
qed

lemma nop_roundtrip: "1 \<le> n \<Longrightarrow> n \<le> 16 \<Longrightarrow> ucast ((ucast (n - 1) :: u16) AND 0x0f) + 1 = (n :: u8)"
proof -
  assume n: "1 \<le> n" "n \<le> 16"
  then have "unat (n - 1) < 16" by (simp add: word_le_nat_alt unat_sub)
  moreover have m: "w AND 0x0f = take_bit 4 w" for w :: u16 by (simp add: take_bit_eq_mask mask_eq_exp_minus_1)
  ultimately have "ucast ((ucast (n - 1) :: u16) AND 0x0f) = n - 1"
    using bit_below [of "n - 1" 4] unfolding m by (intro bit_eqI) (auto simp: bit_simps)
  then show ?thesis by simp
qed

lemma sgpr_bounds: "(d :: u8) \<le> 105 \<Longrightarrow> d < 128" "(d :: u8) \<le> 104 \<Longrightarrow> d < 128"
  by (simp_all add: word_le_nat_alt word_less_nat_alt)

lemma vgpr_selector: "(ucast (s :: u8) + 256 :: u16) < 512" "(ucast s + 256 :: u16) \<ge> 256" "(ucast s + 256 :: u16) \<le> 511"
    "ucast ((ucast s + 256 :: u16) - 256) = s"
  and vgpr_no_extension: "\<not> vop1_source_has_extension (ucast s + 256)" "\<not> vop2_source0_has_extension (ucast s + 256)"
proof -
  have "unat s < 256" using unsigned_less [of s] by simp
  then have u: "unat (ucast s + 256 :: u16) = unat s + 256" by (subst unat_plus_if') (simp add: unat_ucast_up)
  with \<open>unat s < 256\<close> show "(ucast s + 256 :: u16) < 512" "(ucast s + 256 :: u16) \<ge> 256" "(ucast s + 256 :: u16) \<le> 511"
    by (simp_all add: word_less_nat_alt word_le_nat_alt)
  show "ucast ((ucast s + 256 :: u16) - 256) = s" by (simp add: bit_eq_iff bit_simps)
  show "\<not> vop1_source_has_extension (ucast s + 256)" "\<not> vop2_source0_has_extension (ucast s + 256)"
    unfolding vop1_source_has_extension_def vop2_source0_has_extension_def word_unat_eq_iff u by simp_all
qed

lemma decodes_to_vop1:
  assumes "i < length words" "length words < 2 ^ 62" "words ! i = vop1_word 1 d (ucast s + 256)"
  shows "decodes_to words i (ShaderIrVectorMove32 d s)"
  using vop1_fields(2-4) [OF vgpr_selector(1)] vgpr_selector vgpr_no_extension
  unfolding decodes_to_def decode_vop1_word [OF assms vgpr_selector(1)] decode_vop1_def Let_def
  by (simp add: extension_word_eq classify_vop1_opcode_def decoded_instruction_def lower_operation_def valid_vop1_source_def Let_def)

lemma decodes_to_vop2:
  assumes "i < length words" "length words < 2 ^ 62" "words ! i = vop2_word 3 d (ucast s0 + 256) s1"
  shows "decodes_to words i (ShaderIrVectorAddF32 d s0 s1)"
proof -
  have op: "(3 :: u8) < 63" "(3 :: u8) < 64" by simp_all
  show ?thesis
    using vop2_fields(2-4) [OF vgpr_selector(1) op(2)] vop2_fields(1) [OF vgpr_selector(1) op(2)] vgpr_selector vgpr_no_extension
    unfolding decodes_to_def decode_vop2_word [OF assms vgpr_selector(1) op(1)] decode_vop2_def Let_def
    by (simp add: extension_word_eq classify_vop2_opcode_def decoded_instruction_def lower_operation_def valid_vop2_source_def Let_def)
qed

lemma assemble_decodes:
  assumes "ir_typed op" "length words < 2 ^ 62" "i + length (assemble op) \<le> length words"
    and "\<And>k. k < length (assemble op) \<Longrightarrow> words ! (i + k) = assemble op ! k"
  shows "decodes_to words i op"
proof -
  have len: "0 < length (assemble op)" using assms(1) by (cases op) simp_all
  with assms(3) have i: "i < length words" by linarith
  from len assms(4) [of 0] have w: "words ! i = assemble op ! 0" by simp
  note sopp = decodes_to_sopp [OF i assms(2), where op = op] and low = lower_sopp_eq
  show ?thesis
  proof (cases op)
    case (ShaderIrNop n)
    with assms(1) w show ?thesis by (intro sopp [of 0 "ucast (n - 1)"]) (simp_all add: low nop_roundtrip classify_sopp_opcode_def)
  next
    case ShaderIrEndProgram
    with w show ?thesis by (intro sopp [of 1 0]) (simp_all add: low classify_sopp_opcode_def)
  next
    case (ShaderIrRelativeBranch delta)
    with assms(1) w show ?thesis
      by (intro sopp [of 2 "word_of_int ((delta - 4) div 4)"]) (simp_all add: low branch_roundtrip classify_sopp_opcode_def)
  next
    case (ShaderIrConditionalRelativeBranch c delta)
    with assms(1) w show ?thesis
      by (intro sopp [of "branch_opcode c" "word_of_int ((delta - 4) div 4)"])
        (cases c; simp add: low branch_roundtrip classify_sopp_opcode_def)+
  next
    case ShaderIrWorkgroupBarrier
    with w show ?thesis by (intro sopp [of 10 0]) (simp_all add: low classify_sopp_opcode_def)
  next
    case (ShaderIrWaitCount v e l)
    with assms(1) w show ?thesis
      by (intro sopp [of 12 "wait_immediate v e l"])
        (simp_all add: low classify_sopp_opcode_def, use wait_roundtrip [of v e l] in simp)
  next
    case (ShaderIrScalarMove32 d s)
    then have t: "d \<le> 105" "source_typed s" using assms(1) by simp_all
    note src = source_roundtrip [OF t(2)]
    have lit: "(if source_selector s = 255 then Some (words ! (i + 1)) else None) =
        (case source_literal s of [] \<Rightarrow> None | b # bs \<Rightarrow> Some b)"
      using src(2) assms(4) [of 1] by (cases s) (auto simp: ShaderIrScalarMove32)
    have ext: "i + 1 < length words" if "source_selector s = 255"
      using that src(2) assms(3) by (cases s) (auto simp: ShaderIrScalarMove32)
    from decodes_to_sop1 [OF i assms(2), of 3 d "source_selector s"] w sgpr_bounds(1) [OF t(1)] ext
    show ?thesis
      using src t(1) unfolding decodes_to_def lit
      by (cases s) (auto simp: ShaderIrScalarMove32 plain_sgpr_selector_def)
  next
    case (ShaderIrScalarMove64 d s)
    then have t: "d \<le> 104" "even (unat d)" "s \<le> 104" "even (unat s)" using assms(1) by simp_all
    then have "plain_sgpr_pair_selector d" "plain_sgpr_pair_selector s"
      by (simp_all add: plain_sgpr_pair_selector_def word_unat_eq_iff unat_mod)
    with decodes_to_sop1 [OF i assms(2), of 4 d s] w sgpr_bounds(2) [OF t(1)] show ?thesis
      by (auto simp: ShaderIrScalarMove64 decodes_to_def)
  next
    case (ShaderIrVectorMove32 d s)
    with w show ?thesis using decodes_to_vop1 [OF i assms(2)] by simp
  next
    case (ShaderIrVectorAddF32 d s0 s1)
    with w show ?thesis using decodes_to_vop2 [OF i assms(2)] by simp
  next
    case (ShaderIrExportOp x)
    with assms(3) have "i + 1 < length words" by simp
    with decodes_to_exp [OF _ assms(2)] assms(1) w assms(4) [of 1] show ?thesis
      by (simp add: ShaderIrExportOp)
  next
    case (ShaderIrUnsupported r)
    with assms(1) show ?thesis by simp
  qed
qed

lemma lower_stream_assembled:
  assumes "list_all ir_typed ops" "length (pre @ concat (map assemble ops)) < 2 ^ 62"
  shows "\<exists>es. lower_stream_loop (pre @ concat (map assemble ops)) (length pre) acc = Success (acc @ es) \<and> map ir_operation es = ops"
  using assms
proof (induction ops arbitrary: pre acc)
  case Nil
  then show ?case by (subst lower_stream_loop.simps) simp
next
  case (Cons op ops)
  let ?ws = "pre @ concat (map assemble (op # ops))"
  have "decodes_to ?ws (length pre) op"
    using Cons.prems by (intro assemble_decodes) (auto simp: nth_append)
  then obtain inst where inst: "decode_rdna2_instruction ?ws (length pre) = Success inst" "lower_operation inst = op"
    "inst_word_count inst = length (assemble op)" unfolding decodes_to_def by blast
  have pos: "0 < length (assemble op)" using Cons.prems(1) by (cases op) simp_all
  have ws: "?ws = (pre @ assemble op) @ concat (map assemble ops)" by simp
  have typed: "list_all ir_typed ops" using Cons.prems(1) by simp
  have "length ((pre @ assemble op) @ concat (map assemble ops)) < 2 ^ 62" using Cons.prems(2) unfolding ws .
  from Cons.IH [OF typed this, of "acc @ [lower_rdna2_to_shader_ir inst]"] obtain es where
    es: "lower_stream_loop ?ws (length pre + length (assemble op)) (acc @ [lower_rdna2_to_shader_ir inst]) =
      Success ((acc @ [lower_rdna2_to_shader_ir inst]) @ es)" "map ir_operation es = ops"
    unfolding ws by auto
  have "lower_stream_loop ?ws (length pre) acc = Success (acc @ (lower_rdna2_to_shader_ir inst # es))"
    using es(1) lower_stream_step [OF inst(1), of acc] pos by (simp add: inst(3))
  moreover have "map ir_operation (lower_rdna2_to_shader_ir inst # es) = op # ops"
    using es(2) inst(2) by (simp add: lower_rdna2_to_shader_ir_def)
  ultimately show ?case by (intro exI conjI)
qed

text \<open>Conversely, every operation that comes out of the decoder is typed or says why it is unsupported.\<close>

definition ir_typed_or_unsupported :: "ShaderIrOperation \<Rightarrow> bool" where
  "ir_typed_or_unsupported op \<longleftrightarrow> ir_typed op \<or> (\<exists>r. op = ShaderIrUnsupported r \<and> r \<noteq> invalid_decoded_instruction)"

lemma simm16_range: "- 32768 \<le> decode_simm16 w" "decode_simm16 w < 32768"
proof -
  let ?b = "ucast (w AND 0xffff) :: u16"
  have "uint ?b < 65536" "- 32768 \<le> uint ?b" using uint_lt2p [of ?b] order_trans [OF _ uint_ge_0, of "- 32768" ?b] by simp_all
  then show "- 32768 \<le> decode_simm16 w" "decode_simm16 w < 32768"
    by (simp_all add: decode_simm16_def Let_def word_less_def)
qed

lemma low_nibble: "unat (w AND 0x0f :: u16) < 16" "unat (v AND 0x0f :: u32) < 16"
proof -
  have "w AND 0x0f = take_bit 4 w" "v AND 0x0f = take_bit 4 v" by (simp_all add: take_bit_eq_mask mask_eq_exp_minus_1)
  then show "unat (w AND 0x0f :: u16) < 16" "unat (v AND 0x0f :: u32) < 16"
    by (simp_all add: take_bit_eq_mod unat_mod)
qed

lemma scalar_source_typed: "scalar_source32 sel lit = Some s \<Longrightarrow> source_typed s"
  by (auto simp: scalar_source32_def plain_sgpr_selector_def word_le_def split: if_splits option.splits)

lemma export_target_typed: "export_target t = Some (k, n) \<Longrightarrow> export_typed k n"
  by (auto simp: export_target_def word_le_nat_alt word_less_nat_alt unat_sub split: if_splits)

lemma mask_below: "unat (w AND 0x3 :: u16) < 4" "unat (w AND 0x7 :: u16) < 8" "unat (w AND 0x3f :: u16) < 64"
proof -
  have "w AND 0x3 = take_bit 2 w" "w AND 0x7 = take_bit 3 w" "w AND 0x3f = take_bit 6 w"
    by (simp_all add: take_bit_eq_mask mask_eq_exp_minus_1)
  then show "unat (w AND 0x3 :: u16) < 4" "unat (w AND 0x7 :: u16) < 8" "unat (w AND 0x3f :: u16) < 64"
    by (simp_all add: take_bit_eq_mod unat_mod)
qed

lemma ucast_small: "unat w < 256 \<Longrightarrow> unat (ucast w :: u8) = unat w" for w :: "'a :: len word"
  by (simp add: unsigned_ucast_eq take_bit_nat_eq_self)

lemma wait_typed: "ir_typed (ShaderIrWaitCount (ucast (push_bit 4 (drop_bit 14 imm AND 0x3) OR (imm AND 0x0f)))
    (ucast (drop_bit 4 imm AND 0x7)) (ucast (drop_bit 8 imm AND 0x3f)))" for imm :: u16
proof -
  have "unat (push_bit 4 (drop_bit 14 imm AND 0x3) OR (imm AND 0x0f)) < 2 ^ 6"
  proof -
    let ?x = "push_bit 4 (drop_bit 14 imm AND 0x3) OR (imm AND 0x0f)"
    have m: "w AND 0x3 = take_bit 2 w" "w AND 0x0f = take_bit 4 w" for w :: u16
      by (simp_all add: take_bit_eq_mask mask_eq_exp_minus_1)
    have "take_bit 6 ?x = ?x" unfolding m by (intro bit_eqI) (auto simp: bit_simps)
    moreover have "unat (take_bit 6 x) < 2 ^ 6" for x :: u16 by (simp add: take_bit_eq_mod unat_mod)
    ultimately show ?thesis by metis
  qed
  then show ?thesis
    using mask_below(2) [of "drop_bit 4 imm"] mask_below(3) [of "drop_bit 8 imm"]
    by (simp add: word_less_nat_alt ucast_small)
qed

lemma wait_count_typed: "ir_typed (wait_count i)"
  unfolding wait_count_def Let_def by (rule wait_typed)

lemma branch_typed_simm: "branch_typed (decode_simm16 w * 4 + 4)"
  using simm16_range [of w] by (simp add: branch_typed_def)

lemma lower_sopp_typed: "ir_typed_or_unsupported (lower_operation (decode_sopp i w))"
proof -
  have nop: "1 \<le> ucast (imm AND 0x0f) + (1 :: u8)" "ucast (imm AND 0x0f) + (1 :: u8) \<le> 16" for imm :: u16
    using low_nibble(1) [of imm] by (simp_all add: word_le_nat_alt unat_plus_if' ucast_small)
  show ?thesis
    by (simp add: lower_operation_def decode_sopp_def decoded_instruction_def valid_sopp_source_def
        relative_branch_delta_def classify_sopp_opcode_def Let_def ir_typed_or_unsupported_def
        branch_typed_simm nop wait_count_typed)
qed

lemma lower_exp_typed:
  assumes "decode_exp words i w = Success inst"
  shows "ir_typed_or_unsupported (lower_operation inst)"
proof -
  from assms obtain tgt c dn vm a b x y where "inst = (decoded_instruction i 2 w format_exp kind_exp)
      \<lparr>inst_exp := Some \<lparr>exp_enable_mask = ucast (w AND 0x0f), exp_target = tgt, exp_compressed = c, exp_done = dn,
         exp_valid_mask = vm, exp_source_vgprs = [a, b, x, y]\<rparr>\<rparr>"
    unfolding decode_exp_def Let_def by (auto simp: buffer_at_def split: if_splits)
  moreover have "ucast (w AND 0x0f) < (16 :: u8)" using low_nibble(2) [of w] by (simp add: word_less_nat_alt ucast_small)
  ultimately show ?thesis
    by (auto simp: lower_operation_def decoded_instruction_def valid_exp_source_def Let_def ir_typed_or_unsupported_def
        dest: export_target_typed split: option.split)
qed

lemma lower_sop1_typed:
  assumes "decode_sop1 words i w = Success inst"
  shows "ir_typed_or_unsupported (lower_operation inst)"
proof -
  have even: "even (unat r)" if "plain_sgpr_pair_selector r" for r
    using that by (auto simp: plain_sgpr_pair_selector_def word_unat_eq_iff unat_mod)
  from assms obtain n lit where "inst = (decoded_instruction i n w format_sop1 (classify_sop1_opcode (ucast (drop_bit 8 w AND 0xff))))
      \<lparr>inst_sop1 := Some \<lparr>sop1_opcode = ucast (drop_bit 8 w AND 0xff), sop1_destination_selector = ucast (drop_bit 16 w AND 0x7f),
         sop1_source_selector = ucast (w AND 0xff), sop1_literal_constant = lit\<rparr>\<rparr>"
    unfolding decode_sop1_def Let_def by (auto simp: result_simps)
  then show ?thesis
    by (auto simp: lower_operation_def decoded_instruction_def valid_sop1_source_def Let_def ir_typed_or_unsupported_def
        classify_sop1_opcode_def plain_sgpr_selector_def even dest: scalar_source_typed split: option.split)
      (auto simp: plain_sgpr_pair_selector_def)
qed

lemma lower_vop1_typed:
  assumes "decode_vop1 words i w = Success inst"
  shows "ir_typed_or_unsupported (lower_operation inst)"
proof -
  from assms obtain n op f where "inst = (decoded_instruction i n w format_vop1 (classify_vop1_opcode op))\<lparr>inst_vop1 := Some f\<rparr>"
    unfolding decode_vop1_def Let_def by (auto simp: result_simps)
  then show ?thesis
    by (simp add: lower_operation_def decoded_instruction_def valid_vop1_source_def Let_def ir_typed_or_unsupported_def
        classify_vop1_opcode_def)
qed

lemma lower_vop2_typed:
  assumes "decode_vop2 words i w = Success inst"
  shows "ir_typed_or_unsupported (lower_operation inst)"
proof -
  from assms obtain n op f where "inst = (decoded_instruction i n w format_vop2 (classify_vop2_opcode op))\<lparr>inst_vop2 := Some f\<rparr>"
    unfolding decode_vop2_def Let_def by (auto simp: result_simps)
  then show ?thesis
    by (simp add: lower_operation_def decoded_instruction_def valid_vop2_source_def Let_def ir_typed_or_unsupported_def
        classify_vop2_opcode_def)
qed

lemma decode_typed:
  assumes "decode_rdna2_instruction words i = Success inst"
  shows "ir_typed_or_unsupported (lower_operation inst)"
proof -
  have other: "ir_typed_or_unsupported (lower_operation (decoded_instruction i 1 w format_unsupported unsupported_encoding))" for w
    by (simp add: lower_operation_def decoded_instruction_def ir_typed_or_unsupported_def Let_def)
  from assms obtain w where "inst = decode_sopp i w \<or> decode_exp words i w = Success inst \<or> decode_sop1 words i w = Success inst
      \<or> decode_vop1 words i w = Success inst \<or> decode_vop2 words i w = Success inst
      \<or> inst = decoded_instruction i 1 w format_unsupported unsupported_encoding"
    unfolding decode_rdna2_instruction_def Let_def by (auto simp: result_simps split: if_splits)
  then show ?thesis
    using lower_sopp_typed lower_exp_typed lower_sop1_typed lower_vop1_typed lower_vop2_typed other by blast
qed

lemma stream_tiles_typed: "stream_tiles words i es \<Longrightarrow> list_all (ir_typed_or_unsupported \<circ> ir_operation) es"
  by (induction es arbitrary: i) (auto dest: decode_typed)

section \<open>Properties\<close>

text \<open>
  C33. Lowering of a shader. A stream is lowered exactly when it is a sequence of whole instructions:
  there is then one emission per instruction, decoded where the previous instruction ends, with its
  position, size, byte offset and raw word, and its operation is typed or gives the reason why it is
  unsupported. Otherwise the stream ends inside its last instruction, and the error names its last
  word. The loop always ends, and no word is read outside the stream.
\<close>

theorem lower_rdna2_stream_correct:
  assumes "length words < 2 ^ 62"
  shows "case lower_rdna2_stream_to_shader_ir ev words of
      Undefined \<Rightarrow> False
    | Success p \<Rightarrow> ev = No_exception \<and> program_source_word_count p = length words
        \<and> stream_tiles words 0 (program_emissions p)
        \<and> list_all (ir_typed_or_unsupported \<circ> ir_operation) (program_emissions p)
    | Failure e \<Rightarrow> (if ev \<noteq> No_exception then program_error_code e = program_host_allocation_failure
        else program_error_code e = decode_failure \<and> program_error_word_index e = length words - 1
          \<and> truncated_at words 0 (length words - 1) \<and> (\<nexists>es. stream_tiles words 0 es))"
  using lower_stream_loop_outcome [OF assms, of 0 "[]"] stream_tiles_typed stream_tiles_not_truncated
  by (fastforce simp: lower_rdna2_stream_to_shader_ir_def ir_program_error_def)

theorem lower_rdna2_stream_correct_witness:
  "stream_tiles [sopp_word 1 0] 0 [lower_rdna2_to_shader_ir (decode_sopp 0 (sopp_word 1 0))]
   \<and> \<not> has_value (lower_rdna2_stream_to_shader_ir No_exception [sop1_word 3 7 255])"
proof -
  have "lower_rdna2_stream_to_shader_ir No_exception [sopp_word 1 0] =
      Success \<lparr>program_source_word_count = 1, program_emissions = [lower_rdna2_to_shader_ir (decode_sopp 0 (sopp_word 1 0))]\<rparr>"
    using decode_sopp_word [of 0 "[sopp_word 1 0]" 1 0]
    by (simp add: lower_rdna2_stream_to_shader_ir_def lower_stream_loop.simps Let_def)
      (simp add: decode_sopp_def decoded_instruction_def lower_stream_loop.simps Let_def)
  with lower_rdna2_stream_correct [of "[sopp_word 1 0]" No_exception]
  have "stream_tiles [sopp_word 1 0] 0 [lower_rdna2_to_shader_ir (decode_sopp 0 (sopp_word 1 0))]" by (simp del: stream_tiles.simps)
  moreover have "decode_rdna2_instruction [sop1_word 3 7 255] 0 = Failure (Rdna2DecodeError instruction_out_of_bounds 1 1)"
    using decode_sop1_word [of 0 "[sop1_word 3 7 255]" 3 7 255] sop1_fields(3,4) [of 7 3 255]
    by (simp add: decode_sop1_def extension_word_eq classify_sop1_opcode_def Let_def)
  then have "\<not> has_value (lower_rdna2_stream_to_shader_ir No_exception [sop1_word 3 7 255])"
    by (simp add: lower_rdna2_stream_to_shader_ir_def lower_stream_loop.simps)
  ultimately show ?thesis by blast
qed

text \<open>
  C34. Decoding inverts assembling: a sequence of typed operations, each written with the bit fields
  of its encoding, is lowered to exactly these operations, literal constants and export sources
  included.
\<close>

theorem assemble_lower_roundtrip:
  assumes "list_all ir_typed ops" and "length (concat (map assemble ops)) < 2 ^ 62"
  shows "case lower_rdna2_stream_to_shader_ir No_exception (concat (map assemble ops)) of
      Success p \<Rightarrow> map ir_operation (program_emissions p) = ops
    | Failure e \<Rightarrow> False | Undefined \<Rightarrow> False"
  using lower_stream_assembled [of ops "[]" "[]"] assms by (auto simp: lower_rdna2_stream_to_shader_ir_def)

theorem assemble_lower_roundtrip_witness:
  "case lower_rdna2_stream_to_shader_ir No_exception (concat (map assemble
      [ShaderIrScalarMove32 7 (ShaderIrLiteral32 0xdeadbeef), ShaderIrVectorAddF32 1 2 3, ShaderIrEndProgram])) of
      Success p \<Rightarrow> map ir_operation (program_emissions p) =
        [ShaderIrScalarMove32 7 (ShaderIrLiteral32 0xdeadbeef), ShaderIrVectorAddF32 1 2 3, ShaderIrEndProgram]
    | Failure e \<Rightarrow> False | Undefined \<Rightarrow> False"
  using assemble_lower_roundtrip
    [of "[ShaderIrScalarMove32 7 (ShaderIrLiteral32 0xdeadbeef), ShaderIrVectorAddF32 1 2 3, ShaderIrEndProgram]"]
  by simp

end
