(* ===== verification/Shader_Cfg.thy ===== *)
theory Shader_Cfg
  imports Shader_Ir
begin

text \<open>
  The control-flow graph of a lowered shader (shader_cfg.cpp): validation of the layout, resolution of
  branch targets, basic blocks and their edges. The specification says which emissions lead a block and
  where control goes after an emission, in terms of byte offsets only.
\<close>

section \<open>Building the graph\<close>

datatype ShaderCfgEdgeKind =
  linear_fallthrough | unconditional_branch | conditional_branch_taken | conditional_branch_fallthrough

record ShaderCfgEdge =
  edge_kind :: ShaderCfgEdgeKind
  edge_target_block_index :: nat

record ShaderCfgBasicBlock =
  block_first_emission_index :: nat
  block_emission_count :: nat
  block_successors :: "ShaderCfgEdge list"

record ShaderControlFlowGraph =
  graph_source_word_count :: nat
  graph_emission_count :: nat
  graph_blocks :: "ShaderCfgBasicBlock list"

datatype ShaderCfgErrorCode =
  invalid_program_layout | invalid_branch_delta | invalid_branch_target | cfg_host_allocation_failure

record ShaderCfgError =
  cfg_error_code :: ShaderCfgErrorCode
  cfg_error_emission_index :: nat
  cfg_error_source_word_index :: nat
  cfg_error_target_word_index :: "int option"

definition cfg_error :: "ShaderCfgErrorCode \<Rightarrow> nat \<Rightarrow> nat \<Rightarrow> int option \<Rightarrow> ShaderCfgError" where
  "cfg_error code emission_index source_word_index target_word_index =
     \<lparr>cfg_error_code = code, cfg_error_emission_index = emission_index,
      cfg_error_source_word_index = source_word_index, cfg_error_target_word_index = target_word_index\<rparr>"

abbreviation i64_max :: int where
  "i64_max \<equiv> 9223372036854775807"

abbreviation emission_word_index :: "ShaderIrEmission \<Rightarrow> nat" where
  "emission_word_index e \<equiv> inst_word_index (ir_source_instruction e)"

abbreviation emission_word_count :: "ShaderIrEmission \<Rightarrow> nat" where
  "emission_word_count e \<equiv> inst_word_count (ir_source_instruction e)"

primrec validate_emissions :: "nat \<Rightarrow> nat \<Rightarrow> nat \<Rightarrow> ShaderIrEmission list \<Rightarrow> (nat, ShaderCfgError) Result" where
  "validate_emissions word_count emission_index expected_word_index [] = Success expected_word_index"
| "validate_emissions word_count emission_index expected_word_index (e # es) =
     (let instruction = ir_source_instruction e in
      if inst_word_count instruction = 0 \<or> inst_word_index instruction \<noteq> expected_word_index
         \<or> expected_word_index > word_count \<or> inst_word_count instruction > word_count - expected_word_index
         \<or> expected_word_index > size_max div 4 \<or> inst_byte_offset instruction \<noteq> expected_word_index * 4
      then Failure (cfg_error invalid_program_layout emission_index (inst_word_index instruction) None)
      else validate_emissions word_count (emission_index + 1) (expected_word_index + inst_word_count instruction) es)"

text \<open>The function returns an optional error; no error is \<open>Success ()\<close> here.\<close>

definition validate_program_layout :: "ShaderIrProgram \<Rightarrow> (unit, ShaderCfgError) Result" where
  "validate_program_layout program =
     (if int (program_source_word_count program) > i64_max
      then Failure (cfg_error invalid_program_layout 0 0 None)
      else with_value (validate_emissions (program_source_word_count program) 0 0 (program_emissions program))
        (\<lambda>expected_word_index.
          if expected_word_index \<noteq> program_source_word_count program
          then Failure (cfg_error invalid_program_layout (length (program_emissions program)) expected_word_index None)
          else Success ()))"

text \<open>std::lower_bound on a partitioned range: the number of leading elements below the value.\<close>

definition lower_bound :: "('a \<Rightarrow> bool) \<Rightarrow> 'a list \<Rightarrow> nat" where
  "lower_bound below xs = length (takeWhile below xs)"

text \<open>
  A resolution is the target emission or an error code with the target word index. The delta is
  divided only when it is a multiple of four, where the C++ division and \<open>div\<close> agree.
\<close>

definition resolve_branch_target ::
  "ShaderIrProgram \<Rightarrow> nat \<Rightarrow> int \<Rightarrow> (nat, ShaderCfgErrorCode \<times> int option) Result" where
  "resolve_branch_target program emission_index byte_delta =
     with_value (buffer_at (program_emissions program) emission_index) (\<lambda>e.
       if byte_delta mod 4 \<noteq> 0 then Failure (invalid_branch_delta, None)
       else
         let source_word_index = int (emission_word_index e);
             delta_words = byte_delta div 4 in
         if delta_words > 0 \<and> source_word_index > i64_max - delta_words then Failure (invalid_branch_target, None)
         else
           let target_word_index = source_word_index + delta_words in
           if target_word_index < 0 \<or> target_word_index \<ge> int (program_source_word_count program)
           then Failure (invalid_branch_target, Some target_word_index)
           else
             let target = nat target_word_index;
                 found = lower_bound (\<lambda>e. emission_word_index e < target) (program_emissions program) in
             if found = length (program_emissions program) then Failure (invalid_branch_target, Some target_word_index)
             else with_value (buffer_at (program_emissions program) found) (\<lambda>f.
               if emission_word_index f \<noteq> target then Failure (invalid_branch_target, Some target_word_index)
               else Success found))"

fun branch_byte_delta :: "ShaderIrOperation \<Rightarrow> int option" where
  "branch_byte_delta (ShaderIrRelativeBranch delta) = Some delta"
| "branch_byte_delta (ShaderIrConditionalRelativeBranch _ delta) = Some delta"
| "branch_byte_delta _ = None"

text \<open>A store through operator[] of a vector.\<close>

definition vector_store :: "'a list \<Rightarrow> nat \<Rightarrow> 'a \<Rightarrow> ('a list, 'e) Result" where
  "vector_store xs i v = (if i < length xs then Success (xs[i := v]) else Undefined)"

definition mark_next :: "nat \<Rightarrow> nat \<Rightarrow> bool list \<Rightarrow> (bool list, 'e) Result" where
  "mark_next emission_count emission_index leaders =
     (if emission_index + 1 < emission_count then vector_store leaders (emission_index + 1) True else Success leaders)"

text \<open>The loop that marks block leaders and records branch targets, over the remaining indices.\<close>

primrec scan_branches ::
  "ShaderIrProgram \<Rightarrow> nat \<Rightarrow> nat list \<Rightarrow> bool list \<Rightarrow> nat option list
    \<Rightarrow> (bool list \<times> nat option list, ShaderCfgError) Result" where
  "scan_branches program emission_count [] leaders branch_targets = Success (leaders, branch_targets)"
| "scan_branches program emission_count (emission_index # indices) leaders branch_targets =
     with_value (buffer_at (program_emissions program) emission_index) (\<lambda>emission.
       case branch_byte_delta (ir_operation emission) of
         Some byte_delta \<Rightarrow>
           and_then (resolve_branch_target program emission_index byte_delta)
             (\<lambda>(code, target). cfg_error code emission_index (emission_word_index emission) target)
             (\<lambda>target.
               with_value (vector_store branch_targets emission_index (Some target)) (\<lambda>branch_targets.
               with_value (vector_store leaders target True) (\<lambda>leaders.
               with_value (mark_next emission_count emission_index leaders) (\<lambda>leaders.
                 scan_branches program emission_count indices leaders branch_targets))))
       | None \<Rightarrow>
           if ir_operation emission = ShaderIrEndProgram
           then with_value (mark_next emission_count emission_index leaders) (\<lambda>leaders.
             scan_branches program emission_count indices leaders branch_targets)
           else scan_branches program emission_count indices leaders branch_targets)"

primrec fill_block :: "nat \<Rightarrow> nat list \<Rightarrow> nat list \<Rightarrow> (nat list, 'e) Result" where
  "fill_block block_index [] emission_to_block = Success emission_to_block"
| "fill_block block_index (i # indices) emission_to_block =
     with_value (vector_store emission_to_block i block_index) (fill_block block_index indices)"

primrec collect_blocks ::
  "nat \<Rightarrow> nat \<Rightarrow> nat list \<Rightarrow> nat list \<Rightarrow> ShaderCfgBasicBlock list
    \<Rightarrow> (ShaderCfgBasicBlock list \<times> nat list, ShaderCfgError) Result" where
  "collect_blocks emission_count block_index [] emission_to_block blocks = Success (blocks, emission_to_block)"
| "collect_blocks emission_count block_index (first # starts) emission_to_block blocks =
     (let end_index = (case starts of [] \<Rightarrow> emission_count | next # _ \<Rightarrow> next) in
      with_value (fill_block block_index [first..<end_index] emission_to_block) (\<lambda>emission_to_block.
        collect_blocks emission_count (block_index + 1) starts emission_to_block
          (blocks @ [\<lparr>block_first_emission_index = first, block_emission_count = end_index - first,
                      block_successors = []\<rparr>])))"

text \<open>An empty optional would throw an exception that nothing catches.\<close>

definition branch_edge ::
  "ShaderCfgEdgeKind \<Rightarrow> nat option list \<Rightarrow> nat list \<Rightarrow> nat \<Rightarrow> (ShaderCfgEdge, 'e) Result" where
  "branch_edge kind branch_targets emission_to_block last_emission_index =
     with_value (buffer_at branch_targets last_emission_index) (\<lambda>target.
       case target of
         None \<Rightarrow> Undefined
       | Some t \<Rightarrow> with_value (buffer_at emission_to_block t) (\<lambda>b.
           Success \<lparr>edge_kind = kind, edge_target_block_index = b\<rparr>))"

definition next_edge ::
  "ShaderCfgEdgeKind \<Rightarrow> nat \<Rightarrow> nat list \<Rightarrow> nat \<Rightarrow> (ShaderCfgEdge list, 'e) Result" where
  "next_edge kind emission_count emission_to_block last_emission_index =
     (if last_emission_index + 1 < emission_count
      then with_value (buffer_at emission_to_block (last_emission_index + 1)) (\<lambda>b.
        Success [\<lparr>edge_kind = kind, edge_target_block_index = b\<rparr>])
      else Success [])"

definition block_edges ::
  "ShaderIrProgram \<Rightarrow> nat \<Rightarrow> nat option list \<Rightarrow> nat list \<Rightarrow> ShaderCfgBasicBlock
    \<Rightarrow> (ShaderCfgEdge list, ShaderCfgError) Result" where
  "block_edges program emission_count branch_targets emission_to_block block =
     (let last_emission_index = block_first_emission_index block + block_emission_count block - 1 in
      with_value (buffer_at (program_emissions program) last_emission_index) (\<lambda>emission.
        case ir_operation emission of
          ShaderIrRelativeBranch _ \<Rightarrow>
            with_value (branch_edge unconditional_branch branch_targets emission_to_block last_emission_index)
              (\<lambda>edge. Success [edge])
        | ShaderIrConditionalRelativeBranch _ _ \<Rightarrow>
            with_value (branch_edge conditional_branch_taken branch_targets emission_to_block last_emission_index)
              (\<lambda>edge. with_value (next_edge conditional_branch_fallthrough emission_count emission_to_block
                         last_emission_index) (\<lambda>edges. Success (edge # edges)))
        | ShaderIrEndProgram \<Rightarrow> Success []
        | _ \<Rightarrow> next_edge linear_fallthrough emission_count emission_to_block last_emission_index))"

primrec connect_blocks ::
  "ShaderIrProgram \<Rightarrow> nat \<Rightarrow> nat option list \<Rightarrow> nat list \<Rightarrow> ShaderCfgBasicBlock list
    \<Rightarrow> (ShaderCfgBasicBlock list, ShaderCfgError) Result" where
  "connect_blocks program emission_count branch_targets emission_to_block [] = Success []"
| "connect_blocks program emission_count branch_targets emission_to_block (block # blocks) =
     with_value (block_edges program emission_count branch_targets emission_to_block block) (\<lambda>edges.
       with_value (connect_blocks program emission_count branch_targets emission_to_block blocks) (\<lambda>connected.
         Success (block\<lparr>block_successors := edges\<rparr> # connected)))"

text \<open>
  The vectors of the scan are allocated before it and those of the blocks after it, so an allocation
  failure comes before or after the errors of branch targets.
\<close>

definition build_shader_control_flow_graph ::
  "host_event \<Rightarrow> host_event \<Rightarrow> ShaderIrProgram \<Rightarrow> (ShaderControlFlowGraph, ShaderCfgError) Result" where
  "build_shader_control_flow_graph scan_event block_event program =
     with_value (validate_program_layout program) (\<lambda>_.
       if program_emissions program = []
       then Success \<lparr>graph_source_word_count = program_source_word_count program, graph_emission_count = 0,
                     graph_blocks = []\<rparr>
       else if scan_event \<noteq> No_exception then Failure (cfg_error cfg_host_allocation_failure 0 0 None)
       else
         let emission_count = length (program_emissions program) in
         with_value (scan_branches program emission_count [0..<emission_count]
             ((replicate emission_count False)[0 := True]) (replicate emission_count None))
           (\<lambda>(leaders, branch_targets).
             if block_event \<noteq> No_exception then Failure (cfg_error cfg_host_allocation_failure 0 0 None)
             else
               let block_starts = filter (\<lambda>i. leaders ! i) [0..<emission_count] in
               with_value (collect_blocks emission_count 0 block_starts (replicate emission_count 0) [])
                 (\<lambda>(blocks, emission_to_block).
                   with_value (connect_blocks program emission_count branch_targets emission_to_block blocks)
                     (\<lambda>connected. Success \<lparr>graph_source_word_count = program_source_word_count program,
                        graph_emission_count = emission_count, graph_blocks = connected\<rparr>))))"

section \<open>Specification\<close>

text \<open>The instructions follow each other without gaps and fill the program.\<close>

definition layout_ok :: "ShaderIrProgram \<Rightarrow> bool" where
  "layout_ok p \<longleftrightarrow> (let es = program_emissions p in
     int (program_source_word_count p) \<le> i64_max
     \<and> sum_list (map emission_word_count es) = program_source_word_count p
     \<and> (\<forall>i < length es. 0 < emission_word_count (es ! i)
          \<and> emission_word_index (es ! i) = sum_list (map emission_word_count (take i es))
          \<and> emission_word_index (es ! i) \<le> size_max div 4
          \<and> inst_byte_offset (ir_source_instruction (es ! i)) = 4 * emission_word_index (es ! i)))"

text \<open>The emission whose first byte lies a delta away from the first byte of another one.\<close>

definition jump_target :: "ShaderIrProgram \<Rightarrow> nat \<Rightarrow> int \<Rightarrow> nat option" where
  "jump_target p i delta = (let es = program_emissions p in
     find (\<lambda>t. 4 * int (emission_word_index (es ! t)) = 4 * int (emission_word_index (es ! i)) + delta) [0..<length es])"

abbreviation operation_at :: "ShaderIrProgram \<Rightarrow> nat \<Rightarrow> ShaderIrOperation" where
  "operation_at p i \<equiv> ir_operation (program_emissions p ! i)"

definition unresolved_branch :: "ShaderIrProgram \<Rightarrow> nat \<Rightarrow> bool" where
  "unresolved_branch p i \<longleftrightarrow> i < length (program_emissions p)
     \<and> (case branch_byte_delta (operation_at p i) of Some d \<Rightarrow> jump_target p i d = None | None \<Rightarrow> False)"

definition branches_resolve :: "ShaderIrProgram \<Rightarrow> bool" where
  "branches_resolve p \<longleftrightarrow> (\<forall>i. \<not> unresolved_branch p i)"

definition first_unresolved :: "ShaderIrProgram \<Rightarrow> nat \<Rightarrow> bool" where
  "first_unresolved p i \<longleftrightarrow> unresolved_branch p i \<and> (\<forall>j < i. \<not> unresolved_branch p j)"

definition jumps_to :: "ShaderIrProgram \<Rightarrow> nat \<Rightarrow> nat \<Rightarrow> bool" where
  "jumps_to p i t \<longleftrightarrow> (case branch_byte_delta (operation_at p i) of Some d \<Rightarrow> jump_target p i d = Some t | None \<Rightarrow> False)"

definition ends_block :: "ShaderIrOperation \<Rightarrow> bool" where
  "ends_block oper \<longleftrightarrow> oper = ShaderIrEndProgram \<or> branch_byte_delta oper \<noteq> None"

text \<open>The emissions that lead a block: the first one, jump targets, and those after a jump or an end.\<close>

definition leader :: "ShaderIrProgram \<Rightarrow> nat \<Rightarrow> bool" where
  "leader p i \<longleftrightarrow> i = 0 \<or> ends_block (operation_at p (i - 1)) \<or> (\<exists>j < length (program_emissions p). jumps_to p j i)"

text \<open>Where control can go after an emission.\<close>

definition exits :: "ShaderIrProgram \<Rightarrow> nat \<Rightarrow> (ShaderCfgEdgeKind \<times> nat) list" where
  "exits p i = (let next = (\<lambda>kind. if i + 1 < length (program_emissions p) then [(kind, i + 1)] else []) in
     case operation_at p i of
       ShaderIrRelativeBranch d \<Rightarrow> [(unconditional_branch, the (jump_target p i d))]
     | ShaderIrConditionalRelativeBranch c d \<Rightarrow>
         (conditional_branch_taken, the (jump_target p i d)) # next conditional_branch_fallthrough
     | ShaderIrEndProgram \<Rightarrow> []
     | _ \<Rightarrow> next linear_fallthrough)"

abbreviation block_end :: "ShaderCfgBasicBlock \<Rightarrow> nat" where
  "block_end b \<equiv> block_first_emission_index b + block_emission_count b"

definition leads_to :: "ShaderControlFlowGraph \<Rightarrow> ShaderCfgEdge \<Rightarrow> ShaderCfgEdgeKind \<times> nat \<Rightarrow> bool" where
  "leads_to g edge exit \<longleftrightarrow> edge_kind edge = fst exit \<and> edge_target_block_index edge < length (graph_blocks g)
     \<and> block_first_emission_index (graph_blocks g ! edge_target_block_index edge) = snd exit"

text \<open>
  A graph of a program: its blocks partition the emissions in order, each block starts at the only
  leader in it, and its edges are the exits of its last emission, to the blocks that start there.
\<close>

definition cfg_of :: "ShaderIrProgram \<Rightarrow> ShaderControlFlowGraph \<Rightarrow> bool" where
  "cfg_of p g \<longleftrightarrow>
     graph_source_word_count g = program_source_word_count p
     \<and> graph_emission_count g = length (program_emissions p)
     \<and> concat (map (\<lambda>b. [block_first_emission_index b..<block_end b]) (graph_blocks g))
       = [0..<length (program_emissions p)]
     \<and> (\<forall>b \<in> set (graph_blocks g). 0 < block_emission_count b
          \<and> (\<forall>i \<in> {block_first_emission_index b..<block_end b}. leader p i \<longleftrightarrow> i = block_first_emission_index b)
          \<and> list_all2 (leads_to g) (block_successors b) (exits p (block_end b - 1)))"

section \<open>Layout and branch targets\<close>

lemma validate_emissions_Success:
  "validate_emissions N k w es = Success m \<longleftrightarrow>
     m = w + sum_list (map emission_word_count es) \<and> (es \<noteq> [] \<longrightarrow> m \<le> N)
     \<and> (\<forall>i < length es. 0 < emission_word_count (es ! i)
          \<and> emission_word_index (es ! i) = w + sum_list (map emission_word_count (take i es))
          \<and> emission_word_index (es ! i) \<le> size_max div 4
          \<and> inst_byte_offset (ir_source_instruction (es ! i)) = 4 * emission_word_index (es ! i))"
proof (induction es arbitrary: k w)
  case Nil
  then show ?case by auto
next
  case (Cons e es)
  show ?case
    unfolding validate_emissions.simps Let_def if_Failure_Success Cons.IH length_Cons All_less_Suc2
    by (auto simp: add.assoc)
qed

lemma validate_emissions_total:
  "case validate_emissions N k w es of Undefined \<Rightarrow> False | Failure e \<Rightarrow> cfg_error_code e = invalid_program_layout | Success m \<Rightarrow> True"
  by (induction es arbitrary: k w) (simp_all add: Let_def cfg_error_def)

lemma validate_layout_outcome:
  "case validate_program_layout p of
     Undefined \<Rightarrow> False | Success u \<Rightarrow> layout_ok p
   | Failure e \<Rightarrow> cfg_error_code e = invalid_program_layout \<and> \<not> layout_ok p"
proof (cases "validate_emissions (program_source_word_count p) 0 0 (program_emissions p)")
  case (Success m)
  then have "layout_ok p \<longleftrightarrow> int (program_source_word_count p) \<le> i64_max \<and> m = program_source_word_count p"
    unfolding validate_emissions_Success layout_ok_def Let_def by auto
  with Success show ?thesis unfolding validate_program_layout_def by (simp add: cfg_error_def)
next
  case (Failure e)
  have "\<not> layout_ok p"
  proof
    assume "layout_ok p"
    then have "validate_emissions (program_source_word_count p) 0 0 (program_emissions p) = Success (program_source_word_count p)"
      unfolding validate_emissions_Success layout_ok_def Let_def by auto
    with Failure show False by simp
  qed
  then show ?thesis
    using Failure validate_emissions_total [of "program_source_word_count p" 0 0 "program_emissions p"]
    by (auto simp: validate_program_layout_def cfg_error_def)
next
  case Undefined
  then show ?thesis using validate_emissions_total [of "program_source_word_count p" 0 0 "program_emissions p"] by simp
qed

lemma sum_take_le:
  fixes f :: "'a \<Rightarrow> nat"
  assumes "i < j" "j \<le> length xs"
  shows "sum_list (map f (take i xs)) + f (xs ! i) \<le> sum_list (map f (take j xs))"
proof -
  have "take j xs = take (Suc i) xs @ take (j - Suc i) (drop (Suc i) xs)"
    using assms take_add [of "Suc i" "j - Suc i" xs] by simp
  moreover have "take (Suc i) xs = take i xs @ [xs ! i]" using assms by (intro take_Suc_conv_app_nth) simp
  ultimately show ?thesis by simp
qed

lemma layout_index:
  assumes "layout_ok p" "i < length (program_emissions p)"
  shows "emission_word_index (program_emissions p ! i) = sum_list (map emission_word_count (take i (program_emissions p)))"
    and "0 < emission_word_count (program_emissions p ! i)"
  using assms unfolding layout_ok_def Let_def by blast+

lemma layout_strict:
  assumes "layout_ok p" "i < j" "j < length (program_emissions p)"
  shows "emission_word_index (program_emissions p ! i) < emission_word_index (program_emissions p ! j)"
  using layout_index [OF assms(1), of i] layout_index [OF assms(1,3)] assms(2,3)
    sum_take_le [of i j "program_emissions p" emission_word_count] by simp

lemma layout_below:
  assumes "layout_ok p" "i < length (program_emissions p)"
  shows "emission_word_index (program_emissions p ! i) < program_source_word_count p"
proof -
  have "sum_list (map emission_word_count (program_emissions p)) = program_source_word_count p"
    using assms(1) unfolding layout_ok_def Let_def by blast
  then show ?thesis
    using layout_index [OF assms] assms(2)
      sum_take_le [of i "length (program_emissions p)" "program_emissions p" emission_word_count] by simp
qed

lemma jump_target_Some:
  assumes "layout_ok p"
  shows "jump_target p i d = Some t \<longleftrightarrow> t < length (program_emissions p)
    \<and> 4 * int (emission_word_index (program_emissions p ! t)) = 4 * int (emission_word_index (program_emissions p ! i)) + d"
proof
  assume "jump_target p i d = Some t"
  then show "t < length (program_emissions p)
    \<and> 4 * int (emission_word_index (program_emissions p ! t)) = 4 * int (emission_word_index (program_emissions p ! i)) + d"
    unfolding jump_target_def Let_def find_Some_iff by auto
next
  assume r: "t < length (program_emissions p)
    \<and> 4 * int (emission_word_index (program_emissions p ! t)) = 4 * int (emission_word_index (program_emissions p ! i)) + d"
  then have "4 * int (emission_word_index (program_emissions p ! j)) \<noteq> 4 * int (emission_word_index (program_emissions p ! i)) + d"
    if "j < t" for j
    using layout_strict [OF assms that] by simp
  with r show "jump_target p i d = Some t"
    unfolding jump_target_def Let_def find_Some_iff by (intro exI [of _ t]) auto
qed

lemma jump_target_None:
  "jump_target p i d = None \<longleftrightarrow> (\<forall>t < length (program_emissions p).
     4 * int (emission_word_index (program_emissions p ! t)) \<noteq> 4 * int (emission_word_index (program_emissions p ! i)) + d)"
  unfolding jump_target_def Let_def find_None_iff by auto

lemma lower_bound_found:
  assumes "layout_ok p" "t < length (program_emissions p)"
  shows "lower_bound (\<lambda>e. emission_word_index e < emission_word_index (program_emissions p ! t)) (program_emissions p) = t"
  unfolding lower_bound_def
proof (rule takeWhile_eq_take_P_nth [THEN arg_cong [where f = length], THEN trans, of t])
  show "emission_word_index (program_emissions p ! i) < emission_word_index (program_emissions p ! t)"
    if "i < t" "i < length (program_emissions p)" for i
    using layout_strict assms that by blast
qed (use assms in auto)

lemma resolve_branch_target_eq:
  assumes ok: "layout_ok p" and i: "i < length (program_emissions p)"
  shows "case jump_target p i d of
      Some t \<Rightarrow> resolve_branch_target p i d = Success t
    | None \<Rightarrow> \<exists>w. resolve_branch_target p i d = Failure (if 4 dvd d then invalid_branch_target else invalid_branch_delta, w)"
proof (cases "jump_target p i d")
  case (Some t)
  let ?wi = "\<lambda>k. emission_word_index (program_emissions p ! k)"
  from Some have t: "t < length (program_emissions p)" "4 * int (?wi t) = 4 * int (?wi i) + d"
    unfolding jump_target_Some [OF ok] by auto
  then have d: "d mod 4 = 0" "int (?wi i) + d div 4 = int (?wi t)" by presburger+
  have le: "int (?wi t) < int (program_source_word_count p)" "int (program_source_word_count p) \<le> i64_max"
    using layout_below [OF ok t(1)] ok by (simp_all add: layout_ok_def Let_def)
  show ?thesis
    using Some i t(1) d le lower_bound_found [OF ok t(1)]
    by (auto simp: resolve_branch_target_def buffer_at_def Let_def)
next
  case None
  let ?wi = "\<lambda>k. emission_word_index (program_emissions p ! k)"
  have "\<not> (d mod 4 = 0 \<and> f < length (program_emissions p) \<and> int (?wi f) = int (?wi i) + d div 4)" for f
  proof
    assume f: "d mod 4 = 0 \<and> f < length (program_emissions p) \<and> int (?wi f) = int (?wi i) + d div 4"
    then have "4 * int (?wi f) = 4 * int (?wi i) + d" by presburger
    with None f show False unfolding jump_target_None by blast
  qed
  then have no: "d mod 4 = 0 \<Longrightarrow> f < length (program_emissions p) \<Longrightarrow> 0 \<le> int (?wi i) + d div 4 \<Longrightarrow>
      ?wi f \<noteq> nat (int (?wi i) + d div 4)" for f
    by (metis int_nat_eq)
  have bound: "lower_bound q (program_emissions p) \<le> length (program_emissions p)" for q
    by (simp add: lower_bound_def length_takeWhile_le)
  show ?thesis
    using None i no bound [THEN le_neq_implies_less]
    by (auto simp: resolve_branch_target_def buffer_at_def Let_def mod_eq_0_iff_dvd)
qed

section \<open>The scan for leaders\<close>

definition marks :: "ShaderIrProgram \<Rightarrow> nat \<Rightarrow> nat \<Rightarrow> bool" where
  "marks p j k \<longleftrightarrow> jumps_to p j k \<or> (ends_block (operation_at p j) \<and> k = j + 1)"

definition recorded :: "ShaderIrProgram \<Rightarrow> nat \<Rightarrow> nat option \<Rightarrow> nat option" where
  "recorded p j old = (case branch_byte_delta (operation_at p j) of Some d \<Rightarrow> jump_target p j d | None \<Rightarrow> old)"

lemma mark_next_eq:
  assumes "length leaders = n"
  shows "\<exists>leaders'. mark_next n i leaders = (Success leaders' :: (_, ShaderCfgError) Result) \<and> length leaders' = n
    \<and> (\<forall>k < n. leaders' ! k \<longleftrightarrow> leaders ! k \<or> k = i + 1)"
  using assms by (auto simp: mark_next_def vector_store_def nth_list_update)

lemma scan_step_unresolved:
  assumes "layout_ok p" "unresolved_branch p i"
  shows "\<exists>d w. branch_byte_delta (operation_at p i) = Some d \<and> scan_branches p n (i # is) L T =
    Failure (cfg_error (if 4 dvd d then invalid_branch_target else invalid_branch_delta) i
      (emission_word_index (program_emissions p ! i)) w)"
proof -
  from assms(2) obtain d where d: "i < length (program_emissions p)" "branch_byte_delta (operation_at p i) = Some d"
      "jump_target p i d = None"
    by (auto simp: unresolved_branch_def split: option.splits)
  from resolve_branch_target_eq [OF assms(1) d(1), of d] d(3)
  obtain w where "resolve_branch_target p i d = Failure (if 4 dvd d then invalid_branch_target else invalid_branch_delta, w)"
    by auto
  with d show ?thesis by (auto simp: buffer_at_def)
qed

lemma scan_step_resolved:
  assumes ok: "layout_ok p" and n: "n = length (program_emissions p)" and i: "i < n" "\<not> unresolved_branch p i"
    and len: "length L = n" "length T = n"
  shows "\<exists>L' T'. scan_branches p n (i # is) L T = scan_branches p n is L' T' \<and> length L' = n \<and> length T' = n
    \<and> (\<forall>k < n. L' ! k \<longleftrightarrow> L ! k \<or> marks p i k)
    \<and> (\<forall>j < n. T' ! j = (if j = i then recorded p i (T ! i) else T ! j))"
proof (cases "branch_byte_delta (operation_at p i)")
  case (Some d)
  with i n obtain t where t: "jump_target p i d = Some t" by (auto simp: unresolved_branch_def)
  then have tn: "t < n" using jump_target_Some [OF ok] n by auto
  have res: "resolve_branch_target p i d = Success t" using resolve_branch_target_eq [OF ok, of i d] t i n by simp
  from mark_next_eq [of "L[t := True]" n i] len obtain L' where
    L': "mark_next n i (L[t := True]) = (Success L' :: (_, ShaderCfgError) Result)" "length L' = n"
      "\<forall>k < n. L' ! k \<longleftrightarrow> L[t := True] ! k \<or> k = i + 1"
    by (auto simp del: length_list_update simp add: length_list_update [of L])
  have "scan_branches p n (i # is) L T = scan_branches p n is L' (T[i := Some t])"
    using Some res L'(1) i(1) n len tn by (simp add: buffer_at_def vector_store_def)
  moreover have "\<forall>k < n. L' ! k \<longleftrightarrow> L ! k \<or> marks p i k"
    using L'(3) Some t tn len(1) nth_list_update [of t L True] by (auto simp: marks_def jumps_to_def ends_block_def)
  moreover have "\<forall>j < n. T[i := Some t] ! j = (if j = i then recorded p i (T ! i) else T ! j)"
    using Some t len by (auto simp: recorded_def nth_list_update)
  ultimately show ?thesis using L'(2) len by (metis length_list_update)
next
  case None
  then have rec: "recorded p i x = x" for x by (simp add: recorded_def)
  show ?thesis
  proof (cases "operation_at p i = ShaderIrEndProgram")
    case True
    from mark_next_eq [OF len(1), of i] obtain L' where
      L': "mark_next n i L = (Success L' :: (_, ShaderCfgError) Result)" "length L' = n" "\<forall>k < n. L' ! k \<longleftrightarrow> L ! k \<or> k = i + 1" by blast
    have "scan_branches p n (i # is) L T = scan_branches p n is L' T"
      using None True L'(1) i(1) n by (simp add: buffer_at_def)
    moreover have "\<forall>k < n. L' ! k \<longleftrightarrow> L ! k \<or> marks p i k"
      using L'(3) True by (auto simp: marks_def jumps_to_def ends_block_def)
    ultimately show ?thesis using L'(2) len rec by auto
  next
    case False
    then have "scan_branches p n (i # is) L T = scan_branches p n is L T" "\<not> marks p i k" for k
      using None i(1) n by (simp_all add: buffer_at_def marks_def jumps_to_def ends_block_def)
    then show ?thesis using len rec by auto
  qed
qed

lemma scan_outcome:
  assumes ok: "layout_ok p" and n: "n = length (program_emissions p)"
  shows "i \<le> n \<Longrightarrow> length L = n \<Longrightarrow> length T = n \<Longrightarrow>
    (\<exists>L' T'. scan_branches p n [i..<n] L T = Success (L', T') \<and> (\<forall>j \<in> {i..<n}. \<not> unresolved_branch p j)
       \<and> length L' = n \<and> length T' = n \<and> (\<forall>k < n. L' ! k \<longleftrightarrow> L ! k \<or> (\<exists>j \<in> {i..<n}. marks p j k))
       \<and> (\<forall>j < n. T' ! j = (if i \<le> j then recorded p j (T ! j) else T ! j)))
    \<or> (\<exists>j \<in> {i..<n}. unresolved_branch p j \<and> (\<forall>k \<in> {i..<j}. \<not> unresolved_branch p k)
       \<and> (\<exists>d w. branch_byte_delta (operation_at p j) = Some d \<and> scan_branches p n [i..<n] L T =
           Failure (cfg_error (if 4 dvd d then invalid_branch_target else invalid_branch_delta) j
             (emission_word_index (program_emissions p ! j)) w)))"
proof (induction "n - i" arbitrary: i L T)
  case 0
  then show ?case by auto
next
  case (Suc m)
  then have i: "i < n" and up: "[i..<n] = i # [Suc i..<n]" by (simp_all add: upt_conv_Cons)
  have range: "{i..<n} = insert i {Suc i..<n}" using i by auto
  show ?case
  proof (cases "unresolved_branch p i")
    case True
    then show ?thesis
      using scan_step_unresolved [OF ok True, of n "[Suc i..<n]" L T] i unfolding up by (intro disjI2 bexI [of _ i]) auto
  next
    case False
    from scan_step_resolved [OF ok n i False Suc.prems(2,3), of "[Suc i..<n]"] obtain L1 T1 where
      step: "scan_branches p n [i..<n] L T = scan_branches p n [Suc i..<n] L1 T1" "length L1 = n" "length T1 = n"
        "\<forall>k < n. L1 ! k \<longleftrightarrow> L ! k \<or> marks p i k"
        "\<forall>j < n. T1 ! j = (if j = i then recorded p i (T ! i) else T ! j)"
      unfolding up by blast
    have "m = n - Suc i" "Suc i \<le> n" using Suc.hyps(2) by simp_all
    from Suc.hyps(1) [OF this step(2,3)] show ?thesis
    proof (elim disjE)
      assume "\<exists>L' T'. scan_branches p n [Suc i..<n] L1 T1 = Success (L', T') \<and> (\<forall>j \<in> {Suc i..<n}. \<not> unresolved_branch p j)
       \<and> length L' = n \<and> length T' = n \<and> (\<forall>k < n. L' ! k \<longleftrightarrow> L1 ! k \<or> (\<exists>j \<in> {Suc i..<n}. marks p j k))
       \<and> (\<forall>j < n. T' ! j = (if Suc i \<le> j then recorded p j (T1 ! j) else T1 ! j))"
      then obtain L' T' where r: "scan_branches p n [Suc i..<n] L1 T1 = Success (L', T')"
        "\<forall>j \<in> {Suc i..<n}. \<not> unresolved_branch p j" "length L' = n" "length T' = n"
        "\<forall>k < n. L' ! k \<longleftrightarrow> L1 ! k \<or> (\<exists>j \<in> {Suc i..<n}. marks p j k)"
        "\<forall>j < n. T' ! j = (if Suc i \<le> j then recorded p j (T1 ! j) else T1 ! j)"
        by blast
      have "\<forall>j < n. T' ! j = (if i \<le> j then recorded p j (T ! j) else T ! j)"
        using r(6) step(5) by (auto simp: le_eq_less_or_eq Suc_le_eq)
      moreover have "\<forall>k < n. L' ! k \<longleftrightarrow> L ! k \<or> (\<exists>j \<in> {i..<n}. marks p j k)"
        using r(5) step(4) unfolding range by auto
      moreover have "\<forall>j \<in> {i..<n}. \<not> unresolved_branch p j" using r(2) False unfolding range by auto
      ultimately show ?thesis using r(1,3,4) step(1) by auto
    next
      assume "\<exists>j \<in> {Suc i..<n}. unresolved_branch p j \<and> (\<forall>k \<in> {Suc i..<j}. \<not> unresolved_branch p k)
       \<and> (\<exists>d w. branch_byte_delta (operation_at p j) = Some d \<and> scan_branches p n [Suc i..<n] L1 T1 =
           Failure (cfg_error (if 4 dvd d then invalid_branch_target else invalid_branch_delta) j
             (emission_word_index (program_emissions p ! j)) w))"
      then obtain j where j: "j \<in> {Suc i..<n}" "unresolved_branch p j" "\<forall>k \<in> {Suc i..<j}. \<not> unresolved_branch p k"
        "\<exists>d w. branch_byte_delta (operation_at p j) = Some d \<and> scan_branches p n [i..<n] L T =
           Failure (cfg_error (if 4 dvd d then invalid_branch_target else invalid_branch_delta) j
             (emission_word_index (program_emissions p ! j)) w)"
        unfolding step(1) by blast
      have "\<forall>k \<in> {i..<j}. \<not> unresolved_branch p k" using j(3) False by (auto simp: le_eq_less_or_eq Suc_le_eq)
      then show ?thesis using j by (intro disjI2 bexI [of _ j]) auto
    qed
  qed
qed

section \<open>Blocks\<close>

lemma fill_block_eq:
  "j \<le> length m \<Longrightarrow> \<exists>m'. fill_block b [i..<j] m = (Success m' :: (_, ShaderCfgError) Result) \<and> length m' = length m
     \<and> (\<forall>k < length m. m' ! k = (if i \<le> k \<and> k < j then b else m ! k))"
proof (induction "j - i" arbitrary: i m)
  case 0
  then show ?case by auto
next
  case (Suc x)
  then have up: "[i..<j] = i # [Suc i..<j]" and i: "i < length m" by (simp_all add: upt_conv_Cons)
  have "x = j - Suc i" "j \<le> length (m[i := b])" using Suc.hyps(2) Suc.prems by simp_all
  from Suc.hyps(1) [OF this] obtain m' where
    "fill_block b [Suc i..<j] (m[i := b]) = (Success m' :: (_, ShaderCfgError) Result)" "length m' = length m"
    "\<forall>k < length m. m' ! k = (if Suc i \<le> k \<and> k < j then b else m[i := b] ! k)" by auto
  moreover have "i < j" using Suc.hyps(2) by simp
  ultimately show ?case using i unfolding up
    by (auto simp: vector_store_def nth_list_update Suc_le_eq)
qed

definition spans :: "nat \<Rightarrow> nat list \<Rightarrow> ShaderCfgBasicBlock list" where
  "spans n starts = map2 (\<lambda>s t. \<lparr>block_first_emission_index = s, block_emission_count = t - s, block_successors = []\<rparr>)
     starts (tl starts @ [n])"

lemma spans_Cons: "spans n (s # starts) =
  \<lparr>block_first_emission_index = s, block_emission_count = (case starts of [] \<Rightarrow> n | t # _ \<Rightarrow> t) - s, block_successors = []\<rparr>
    # spans n starts"
  by (cases starts) (simp_all add: spans_def)

lemma spans_Nil [simp]: "spans n [] = []"
  by (simp add: spans_def)

lemma length_spans [simp]: "length (spans n starts) = length starts"
  by (induction starts) (simp_all add: spans_Cons)

lemma spans_first: "k < length starts \<Longrightarrow> block_first_emission_index (spans n starts ! k) = starts ! k"
  by (induction starts arbitrary: k) (auto simp: spans_Cons nth_Cons split: nat.splits)

lemma collect_blocks_eq:
  assumes "sorted_wrt (<) starts" "\<forall>s \<in> set starts. s < n" "length m = n"
  shows "\<exists>m'. collect_blocks n k starts m bs = Success (bs @ spans n starts, m') \<and> length m' = n
    \<and> (\<forall>j < length starts. m' ! (starts ! j) = k + j)
    \<and> (\<forall>i < (case starts of [] \<Rightarrow> n | s # _ \<Rightarrow> s). m' ! i = m ! i)"
  using assms
proof (induction starts arbitrary: k m bs)
  case Nil
  then show ?case by simp
next
  case (Cons s starts)
  let ?e = "case starts of [] \<Rightarrow> n | t # _ \<Rightarrow> t"
  have se: "s < ?e" "?e \<le> n" using Cons.prems by (auto split: list.splits)
  from fill_block_eq [of ?e m k s] se Cons.prems(3) obtain m1 where
    m1: "fill_block k [s..<?e] m = (Success m1 :: (_, ShaderCfgError) Result)" "length m1 = n"
      "\<forall>i < n. m1 ! i = (if s \<le> i \<and> i < ?e then k else m ! i)" by auto
  let ?b = "\<lparr>block_first_emission_index = s, block_emission_count = ?e - s, block_successors = []\<rparr>"
  from Cons.IH [of m1 "k + 1" "bs @ [?b]"] Cons.prems m1(2) obtain m' where
    m': "collect_blocks n (k + 1) starts m1 (bs @ [?b]) = Success ((bs @ [?b]) @ spans n starts, m')" "length m' = n"
      "\<forall>j < length starts. m' ! (starts ! j) = k + 1 + j" "\<forall>i < ?e. m' ! i = m1 ! i"
    by auto
  have "collect_blocks n k (s # starts) m bs = Success (bs @ spans n (s # starts), m')"
    using m1(1) m'(1) unfolding collect_blocks.simps Let_def spans_Cons by simp
  moreover have "\<forall>j < length (s # starts). m' ! ((s # starts) ! j) = k + j"
    using m'(3,4) m1(3) se by (auto simp: nth_Cons split: nat.splits)
  moreover have "\<forall>i < s. m' ! i = m ! i" using m'(4) m1(3) se by auto
  ultimately show ?case using m'(2) by auto
qed

lemma spans_partition:
  assumes "sorted_wrt (<) starts" "\<forall>s \<in> set starts. s < n"
  shows "concat (map (\<lambda>b. [block_first_emission_index b..<block_end b]) (spans n starts))
    = (case starts of [] \<Rightarrow> [] | s # _ \<Rightarrow> [s..<n])"
  using assms
proof (induction starts)
  case (Cons s starts)
  show ?case
  proof (cases starts)
    case (Cons t rest)
    with Cons.prems have "s < t" "t < n" by auto
    then have "[s..<n] = [s..<t] @ [t..<n]"
      using upt_add_eq_append [of s t "n - t"] by simp
    with Cons.IH Cons.prems Cons show ?thesis by (simp add: spans_Cons)
  qed (use Cons.prems in \<open>simp add: spans_Cons\<close>)
qed simp

lemma spans_block:
  assumes "sorted_wrt (<) starts" "\<forall>s \<in> set starts. s < n" "b \<in> set (spans n starts)"
  shows "0 < block_emission_count b" "block_first_emission_index b \<in> set starts" "block_end b \<le> n"
    "block_end b = n \<or> block_end b \<in> set starts"
    "\<And>i. block_first_emission_index b \<le> i \<Longrightarrow> i < block_end b \<Longrightarrow> i \<in> set starts \<Longrightarrow> i = block_first_emission_index b"
proof -
  have "0 < block_emission_count b \<and> block_first_emission_index b \<in> set starts \<and> block_end b \<le> n
    \<and> (block_end b = n \<or> block_end b \<in> set starts)
    \<and> (\<forall>i. block_first_emission_index b \<le> i \<and> i < block_end b \<and> i \<in> set starts \<longrightarrow> i = block_first_emission_index b)"
    using assms
  proof (induction starts)
    case (Cons s starts)
    show ?case
    proof (cases "b \<in> set (spans n starts)")
      case True
      with Cons.IH Cons.prems have IH: "0 < block_emission_count b \<and> block_first_emission_index b \<in> set starts \<and> block_end b \<le> n
        \<and> (block_end b = n \<or> block_end b \<in> set starts)
        \<and> (\<forall>i. block_first_emission_index b \<le> i \<and> i < block_end b \<and> i \<in> set starts \<longrightarrow> i = block_first_emission_index b)"
        by simp
      then have "s < block_first_emission_index b" using Cons.prems by simp
      with IH show ?thesis by auto
    next
      case False
      with Cons.prems(3) have b: "b = \<lparr>block_first_emission_index = s,
          block_emission_count = (case starts of [] \<Rightarrow> n | t # _ \<Rightarrow> t) - s, block_successors = []\<rparr>"
        by (simp add: spans_Cons)
      show ?thesis
      proof (cases starts)
        case Nil
        with b Cons.prems show ?thesis by simp
      next
        case (Cons t rest)
        with Cons.prems have "s < t" "t < n" "\<forall>r \<in> set rest. t < r" by auto
        with b Cons show ?thesis by auto
      qed
    qed
  qed simp
  then show "0 < block_emission_count b" "block_first_emission_index b \<in> set starts" "block_end b \<le> n"
    "block_end b = n \<or> block_end b \<in> set starts"
    "\<And>i. block_first_emission_index b \<le> i \<Longrightarrow> i < block_end b \<Longrightarrow> i \<in> set starts \<Longrightarrow> i = block_first_emission_index b"
    by blast+
qed

section \<open>Edges\<close>

definition points :: "nat list \<Rightarrow> ShaderCfgEdge \<Rightarrow> ShaderCfgEdgeKind \<times> nat \<Rightarrow> bool" where
  "points starts edge exit \<longleftrightarrow> edge_kind edge = fst exit \<and> edge_target_block_index edge < length starts
     \<and> starts ! edge_target_block_index edge = snd exit"

lemma leads_to_points: "leads_to g = points (map block_first_emission_index (graph_blocks g))"
  by (intro ext) (auto simp: leads_to_def points_def)

lemma next_edge_eq:
  assumes "i + 1 < n \<Longrightarrow> i + 1 < length m \<and> m ! (i + 1) < length starts \<and> starts ! (m ! (i + 1)) = i + 1"
  shows "\<exists>edges. next_edge kind n m i = (Success edges :: (_, ShaderCfgError) Result)
    \<and> list_all2 (points starts) edges (if i + 1 < n then [(kind, i + 1)] else [])"
  using assms by (auto simp: next_edge_def buffer_at_def points_def)

lemma branch_edge_eq:
  assumes "i < length T" "T ! i = Some t" "t < length m" "m ! t < length starts" "starts ! (m ! t) = t"
  shows "\<exists>edge. branch_edge kind T m i = (Success edge :: (_, ShaderCfgError) Result) \<and> points starts edge (kind, t)"
  using assms by (auto simp: branch_edge_def buffer_at_def points_def)

lemma block_edges_eq:
  fixes p b
  defines "i \<equiv> block_end b - 1" and "n \<equiv> length (program_emissions p)"
  assumes pos: "0 < block_emission_count b" and le: "block_end b \<le> n" and res: "\<not> unresolved_branch p i"
    and m: "length m = n" "\<And>t. t < n \<Longrightarrow> leader p t \<Longrightarrow> m ! t < length starts \<and> starts ! (m ! t) = t"
    and T: "length T = n" "\<And>j. j < n \<Longrightarrow> T ! j = recorded p j None"
    and nxt: "block_end b < n \<Longrightarrow> leader p (block_end b)"
    and ok: "layout_ok p"
  shows "\<exists>edges. block_edges p n T m b = Success edges \<and> list_all2 (points starts) edges (exits p i)"
proof -
  have i: "i < n" "block_end b = i + 1" using pos le unfolding i_def by auto
  have nx: "\<exists>edges. next_edge kind n m i = (Success edges :: (_, ShaderCfgError) Result)
    \<and> list_all2 (points starts) edges (if i + 1 < n then [(kind, i + 1)] else [])" for kind
    using nxt m i by (intro next_edge_eq) auto
  have br: "\<exists>edge. branch_edge kind T m i = (Success edge :: (_, ShaderCfgError) Result)
      \<and> points starts edge (kind, the (jump_target p i d))"
    if d: "branch_byte_delta (operation_at p i) = Some d" for kind d
  proof -
    from res d i obtain t where t: "jump_target p i d = Some t" by (auto simp: unresolved_branch_def n_def)
    then have tn: "t < n" using jump_target_Some [OF ok] by (simp add: n_def)
    have "leader p t" using d t i unfolding leader_def jumps_to_def n_def by fastforce
    then have "\<exists>edge. branch_edge kind T m i = (Success edge :: (_, ShaderCfgError) Result) \<and> points starts edge (kind, t)"
      using m tn T i d t by (intro branch_edge_eq) (auto simp: recorded_def)
    with t show ?thesis by simp
  qed
  have at: "with_value (buffer_at (program_emissions p) i) f = f (program_emissions p ! i)"
    for f :: "_ \<Rightarrow> (ShaderCfgEdge list, ShaderCfgError) Result"
    using i by (simp add: buffer_at_def n_def)
  have ex: "block_edges p n T m b = (case operation_at p i of
          ShaderIrRelativeBranch _ \<Rightarrow> with_value (branch_edge unconditional_branch T m i) (\<lambda>edge. Success [edge])
        | ShaderIrConditionalRelativeBranch _ _ \<Rightarrow> with_value (branch_edge conditional_branch_taken T m i)
              (\<lambda>edge. with_value (next_edge conditional_branch_fallthrough n m i) (\<lambda>edges. Success (edge # edges)))
        | ShaderIrEndProgram \<Rightarrow> Success []
        | _ \<Rightarrow> next_edge linear_fallthrough n m i)"
    unfolding block_edges_def Let_def i_def [symmetric] at ..
  show ?thesis
  proof (cases "operation_at p i")
    case (ShaderIrRelativeBranch d)
    with br [of d unconditional_branch] show ?thesis unfolding ex by (auto simp: exits_def)
  next
    case (ShaderIrConditionalRelativeBranch c d)
    with br [of d conditional_branch_taken] nx [of conditional_branch_fallthrough] show ?thesis
      unfolding ex exits_def Let_def n_def [symmetric] by auto
  qed (use nx [of linear_fallthrough] in \<open>simp_all add: ex exits_def Let_def flip: n_def\<close>)
qed

lemma connect_blocks_eq:
  assumes "\<And>b. b \<in> set bs \<Longrightarrow> \<exists>edges. block_edges p n T m b = Success edges \<and> Q b edges"
  shows "\<exists>cs. connect_blocks p n T m bs = Success cs
    \<and> list_all2 (\<lambda>b c. \<exists>edges. c = b\<lparr>block_successors := edges\<rparr> \<and> Q b edges) bs cs"
  using assms
proof (induction bs)
  case (Cons b bs)
  from Cons.IH Cons.prems obtain cs where "connect_blocks p n T m bs = Success cs"
    "list_all2 (\<lambda>b c. \<exists>edges. c = b\<lparr>block_successors := edges\<rparr> \<and> Q b edges) bs cs" by auto
  moreover from Cons.prems [of b] obtain edges where "block_edges p n T m b = Success edges" "Q b edges" by auto
  ultimately show ?case by auto
qed simp

section \<open>The whole construction\<close>

lemma filter_index:
  assumes "t < n" "P t"
  shows "\<exists>j < length (filter P [0..<n]). filter P [0..<n] ! j = t"
  using assms by (metis (mono_tags, lifting) atLeastLessThan_iff in_set_conv_nth le0 mem_Collect_eq set_filter set_upt)

lemma build_from_scan:
  assumes ok: "layout_ok p" and n: "n = length (program_emissions p)"
    and res: "\<forall>i < n. \<not> unresolved_branch p i"
    and T: "length T = n" "\<forall>j < n. T ! j = recorded p j None"
    and starts: "starts = filter (leader p) [0..<n]" "0 < n"
  shows "\<exists>blocks m cs. collect_blocks n 0 starts (replicate n 0) [] = Success (blocks, m)
    \<and> connect_blocks p n T m blocks = Success cs
    \<and> cfg_of p \<lparr>graph_source_word_count = program_source_word_count p, graph_emission_count = n, graph_blocks = cs\<rparr>"
proof -
  have sorted: "sorted_wrt (<) starts" and below: "\<forall>s \<in> set starts. s < n"
    unfolding starts by (simp_all add: sorted_wrt_filter)
  have lead: "i \<in> set starts \<longleftrightarrow> i < n \<and> leader p i" for i unfolding starts by auto
  have hd: "\<exists>rest. starts = 0 # rest"
    unfolding starts using starts(2) by (subst upt_conv_Cons) (simp_all add: leader_def)
  from collect_blocks_eq [OF sorted below, of "replicate n 0" 0 "[]"] obtain m where
    coll: "collect_blocks n 0 starts (replicate n 0) [] = Success (spans n starts, m)" "length m = n"
    and m: "\<forall>j < length starts. m ! (starts ! j) = j" by auto
  have good: "m ! t < length starts \<and> starts ! (m ! t) = t" if "t < n" "leader p t" for t
    using filter_index [of t n "leader p"] that m unfolding starts(1) [symmetric] by auto
  have "\<exists>edges. block_edges p n T m b = Success edges \<and> list_all2 (points starts) edges (exits p (block_end b - 1))"
    if b: "b \<in> set (spans n starts)" for b
  proof -
    note sb = spans_block [OF sorted below b]
    have "block_end b - 1 < n" using sb(1,3) by linarith
    then show ?thesis
      using block_edges_eq [of b p m starts T] sb(1,3,4) res coll(2) good T ok unfolding n [symmetric] lead by blast
  qed
  from connect_blocks_eq [of "spans n starts" p n T m "\<lambda>b edges. list_all2 (points starts) edges (exits p (block_end b - 1))", OF this]
  obtain cs where cs: "connect_blocks p n T m (spans n starts) = Success cs"
    "list_all2 (\<lambda>b c. \<exists>edges. c = b\<lparr>block_successors := edges\<rparr> \<and> list_all2 (points starts) edges (exits p (block_end b - 1)))
      (spans n starts) cs" by blast
  have len: "length cs = length starts" using list_all2_lengthD [OF cs(2)] by simp
  have nth: "\<exists>edges. cs ! k = (spans n starts ! k)\<lparr>block_successors := edges\<rparr>
      \<and> list_all2 (points starts) edges (exits p (block_end (spans n starts ! k) - 1))" if "k < length starts" for k
    using list_all2_nthD2 [OF cs(2), of k] that len by simp
  have same: "block_first_emission_index (cs ! k) = block_first_emission_index (spans n starts ! k)"
      "block_emission_count (cs ! k) = block_emission_count (spans n starts ! k)" if "k < length starts" for k
    using nth [OF that] by auto
  have first: "map block_first_emission_index cs = starts"
    using same spans_first len by (intro nth_equalityI) simp_all
  have part: "concat (map (\<lambda>b. [block_first_emission_index b..<block_end b]) cs) = [0..<n]"
  proof -
    have "map (\<lambda>b. [block_first_emission_index b..<block_end b]) cs
        = map (\<lambda>b. [block_first_emission_index b..<block_end b]) (spans n starts)"
      using same len by (intro nth_equalityI) simp_all
    then show ?thesis using spans_partition [OF sorted below] hd by auto
  qed
  have each: "0 < block_emission_count c \<and> (\<forall>i \<in> {block_first_emission_index c..<block_end c}. leader p i \<longleftrightarrow> i = block_first_emission_index c)
      \<and> list_all2 (points starts) (block_successors c) (exits p (block_end c - 1))" if "c \<in> set cs" for c
  proof -
    from that len obtain k where k: "k < length starts" "c = cs ! k" by (auto simp: in_set_conv_nth)
    from k(1) have b: "spans n starts ! k \<in> set (spans n starts)" by simp
    note sb = spans_block [OF sorted below b] and eq = same [OF k(1), folded k(2)]
    have "leader p i \<longleftrightarrow> i = block_first_emission_index c" if "i \<in> {block_first_emission_index c..<block_end c}" for i
      using that sb(2,3,5) lead unfolding eq by (metis atLeastLessThan_iff less_le_trans)
    then show ?thesis using sb(1) nth [OF k(1)] eq unfolding k(2) by auto
  qed
  show ?thesis
    using coll cs(1) part each unfolding cfg_of_def leads_to_points n [symmetric]
    by (intro exI [of _ "spans n starts"] exI [of _ m] exI [of _ cs]) (simp add: first)
qed

lemma scan_leaders:
  assumes "n = length (program_emissions p)" "0 < n" "i < n"
  shows "(replicate n False)[0 := True] ! i \<or> (\<exists>j \<in> {0..<n}. marks p j i) \<longleftrightarrow> leader p i"
proof -
  have "(\<exists>j < n. ends_block (operation_at p j) \<and> i = j + 1) \<longleftrightarrow> i \<noteq> 0 \<and> ends_block (operation_at p (i - 1))"
  proof
    assume "i \<noteq> 0 \<and> ends_block (operation_at p (i - 1))"
    with assms(3) show "\<exists>j < n. ends_block (operation_at p j) \<and> i = j + 1" by (intro exI [of _ "i - 1"]) auto
  qed auto
  moreover have "(replicate n False)[0 := True] ! i \<longleftrightarrow> i = 0" using assms(2,3) by (auto simp: nth_list_update)
  ultimately show ?thesis unfolding leader_def marks_def assms(1) [symmetric] by auto
qed

lemma build_cfg_outcome:
  "case build_shader_control_flow_graph scan_event block_event p of
     Undefined \<Rightarrow> False
   | Success g \<Rightarrow> layout_ok p \<and> branches_resolve p \<and> cfg_of p g
       \<and> (program_emissions p = [] \<or> scan_event = No_exception \<and> block_event = No_exception)
   | Failure e \<Rightarrow> (case cfg_error_code e of
         invalid_program_layout \<Rightarrow> \<not> layout_ok p
       | cfg_host_allocation_failure \<Rightarrow> layout_ok p \<and> program_emissions p \<noteq> []
           \<and> (scan_event \<noteq> No_exception \<or> block_event \<noteq> No_exception \<and> branches_resolve p)
       | code \<Rightarrow> layout_ok p \<and> first_unresolved p (cfg_error_emission_index e)
           \<and> (code = invalid_branch_target) = (4 dvd the (branch_byte_delta (operation_at p (cfg_error_emission_index e)))))"
proof (cases "layout_ok p")
  case False
  then show ?thesis
    using validate_layout_outcome [of p] by (cases "validate_program_layout p") (auto simp: build_shader_control_flow_graph_def)
next
  case ok: True
  then have val: "validate_program_layout p = Success ()"
    using validate_layout_outcome [of p] by (cases "validate_program_layout p") auto
  define n where "n = length (program_emissions p)"
  have unres: "unresolved_branch p i \<Longrightarrow> i < n" for i by (simp add: unresolved_branch_def n_def)
  consider "program_emissions p = []" | "program_emissions p \<noteq> []" "scan_event \<noteq> No_exception"
    | "0 < n" "scan_event = No_exception"
    by (auto simp: n_def)
  then show ?thesis
  proof cases
    case 1
    then show ?thesis
      using val ok by (simp add: build_shader_control_flow_graph_def cfg_of_def branches_resolve_def unresolved_branch_def)
  next
    case 2
    then show ?thesis using val ok by (simp add: build_shader_control_flow_graph_def cfg_error_def)
  next
    case 3
    then have ne: "program_emissions p \<noteq> []" by (auto simp: n_def)
    from scan_outcome [OF ok n_def, of 0 "(replicate n False)[0 := True]" "replicate n None"]
    consider (ok) L T where "scan_branches p n [0..<n] ((replicate n False)[0 := True]) (replicate n None) = Success (L, T)"
        "\<forall>j < n. \<not> unresolved_branch p j" "length T = n"
        "\<forall>k < n. L ! k \<longleftrightarrow> (replicate n False)[0 := True] ! k \<or> (\<exists>j \<in> {0..<n}. marks p j k)"
        "\<forall>j < n. T ! j = recorded p j None"
      | (bad) j d w where "unresolved_branch p j" "\<forall>k < j. \<not> unresolved_branch p k" "branch_byte_delta (operation_at p j) = Some d"
        "scan_branches p n [0..<n] ((replicate n False)[0 := True]) (replicate n None) =
           Failure (cfg_error (if 4 dvd d then invalid_branch_target else invalid_branch_delta) j
             (emission_word_index (program_emissions p ! j)) w)"
      by auto
    then show ?thesis
    proof cases
      case ok
      have starts: "filter (\<lambda>i. L ! i) [0..<n] = filter (leader p) [0..<n]"
        using ok(4) scan_leaders [OF n_def] 3(1) by (intro filter_cong) auto
      have res: "\<not> unresolved_branch p i" for i using ok(2) unres by blast
      from build_from_scan [OF \<open>layout_ok p\<close> n_def ok(2,3,5) refl 3(1)] obtain blocks m cs where
        "collect_blocks n 0 (filter (leader p) [0..<n]) (replicate n 0) [] = Success (blocks, m)"
        "connect_blocks p n T m blocks = Success cs"
        "cfg_of p \<lparr>graph_source_word_count = program_source_word_count p, graph_emission_count = n, graph_blocks = cs\<rparr>"
        by blast
      then show ?thesis
        using val ok(1) 3(2) ne res \<open>layout_ok p\<close> unfolding build_shader_control_flow_graph_def Let_def n_def [symmetric]
        by (simp add: starts cfg_error_def branches_resolve_def)
    next
      case bad
      then show ?thesis
        using val ok 3(2) ne unfolding build_shader_control_flow_graph_def Let_def n_def [symmetric]
        by (auto simp: cfg_error_def first_unresolved_def)
    qed
  qed
qed

text \<open>A program lowered from a stream always has a valid layout.\<close>

lemma stream_tiles_layout:
  assumes "stream_tiles words w es" "length words < 2 ^ 62"
  shows "w + sum_list (map emission_word_count es) = length words
    \<and> (\<forall>i < length es. 0 < emission_word_count (es ! i)
          \<and> emission_word_index (es ! i) = w + sum_list (map emission_word_count (take i es))
          \<and> emission_word_index (es ! i) \<le> size_max div 4
          \<and> inst_byte_offset (ir_source_instruction (es ! i)) = 4 * emission_word_index (es ! i))"
  using assms(1)
proof (induction es arbitrary: w)
  case (Cons e es)
  let ?k = "instruction_words (words ! w)"
  from Cons.prems have e: "inst_word_count (ir_source_instruction e) = ?k" "inst_word_index (ir_source_instruction e) = w"
    "inst_byte_offset (ir_source_instruction e) = 4 * w" "w < length words"
    by (auto simp: decoded_at_def)
  moreover have "0 < ?k" using instruction_words_cases [of "words ! w"] by auto
  moreover have "w \<le> size_max div 4" using e(4) assms(2) by simp
  ultimately show ?case
    using Cons.IH [of "w + ?k"] Cons.prems unfolding length_Cons All_less_Suc2 by (auto simp: add.assoc)
qed simp

lemma lowered_layout:
  assumes "lower_rdna2_stream_to_shader_ir ev words = Success p" "length words < 2 ^ 62"
  shows "layout_ok p"
proof -
  from assms(1) obtain es where es: "lower_stream_loop words 0 [] = Success es"
    and p: "p = \<lparr>program_source_word_count = length words, program_emissions = es\<rparr>"
    by (auto simp: lower_rdna2_stream_to_shader_ir_def result_simps split: if_splits)
  from lower_stream_loop_outcome [OF assms(2), of 0 "[]"] es have "stream_tiles words 0 es" by auto
  from stream_tiles_layout [OF this assms(2)] assms(2) show ?thesis
    unfolding layout_ok_def p Let_def by auto
qed

section \<open>Properties\<close>

text \<open>
  C35. The control-flow graph of a shader. It is built exactly for programs whose instructions are laid
  out without gaps and whose branches all lead to the first byte of an instruction. Its blocks then
  partition the emissions in order, a block starts at the only leader in it, and its edges are exactly
  the ways control can leave its last emission, in order, each to the block that starts there. An error
  of a branch names the first branch that does not resolve and whether its delta is a multiple of four.
  No vector is indexed out of range for any program, well formed or not.
\<close>

theorem build_shader_control_flow_graph_correct:
  "case build_shader_control_flow_graph scan_event block_event p of
     Undefined \<Rightarrow> False
   | Success g \<Rightarrow> layout_ok p \<and> branches_resolve p \<and> cfg_of p g
       \<and> (program_emissions p = [] \<or> scan_event = No_exception \<and> block_event = No_exception)
   | Failure e \<Rightarrow> (case cfg_error_code e of
         invalid_program_layout \<Rightarrow> \<not> layout_ok p
       | cfg_host_allocation_failure \<Rightarrow> layout_ok p \<and> program_emissions p \<noteq> []
           \<and> (if scan_event = No_exception then branches_resolve p \<and> block_event \<noteq> No_exception else True)
       | code \<Rightarrow> layout_ok p \<and> first_unresolved p (cfg_error_emission_index e)
           \<and> (code = invalid_branch_target) = (4 dvd the (branch_byte_delta (operation_at p (cfg_error_emission_index e)))))"
  using build_cfg_outcome [of p scan_event block_event]
  by (auto split: Result.splits ShaderCfgErrorCode.splits)

end
