(* ===== verification/Exact_F32.thy ===== *)
theory Exact_F32
  imports Prelude
begin

text \<open>
  The exact binary32 addition of shader_vector_execution.cpp, which is total on the cases where the
  result does not depend on rounding, denormal or signed-zero modes and refuses all others.
  \<open>f32_value\<close> is the meaning of a normal number, scaled by a power of two so that it is an integer.
\<close>

section \<open>The operation\<close>

record NormalF32 =
  f32_negative :: bool
  f32_exponent :: u8
  f32_significand :: u32

definition decode_normal_f32 :: "u32 \<Rightarrow> NormalF32 option" where
  "decode_normal_f32 bits =
     (let exponent = (ucast (drop_bit 23 bits AND 0xff) :: u8) in
      if exponent = 0 \<or> exponent = 0xff then None
      else Some \<lparr>f32_negative = (bits AND 0x80000000 \<noteq> 0), f32_exponent = exponent,
                 f32_significand = 0x00800000 OR (bits AND 0x007fffff)\<rparr>)"

function bit_length_loop :: "u64 \<Rightarrow> nat \<Rightarrow> nat" where
  "bit_length_loop v n = (if v \<noteq> 0 then bit_length_loop (drop_bit 1 v) (n + 1) else n)"
  by pat_completeness auto
termination
  by (relation "measure (\<lambda>(v, n). unat v)") (auto simp: drop_bit_eq_div unat_div_distrib unat_gt_0)

declare bit_length_loop.simps [simp del]

definition bit_length :: "u64 \<Rightarrow> nat" where
  "bit_length v = bit_length_loop v 0"

definition encode_normal_f32 :: "bool \<Rightarrow> int \<Rightarrow> u64 \<Rightarrow> u32 option" where
  "encode_normal_f32 negative result_exponent normalized_significand =
     (if result_exponent \<le> 0 \<or> result_exponent \<ge> 0xff then None
      else if normalized_significand < 0x00800000 \<or> normalized_significand > 0x00ffffff then None
      else Some ((if negative then 0x80000000 else 0) OR push_bit 23 (word_of_int result_exponent)
                 OR (ucast normalized_significand AND 0x007fffff)))"

text \<open>The part after the exact sum of the shifted significands is known.\<close>

definition normalize_exact_sum :: "u8 \<Rightarrow> int \<Rightarrow> u32 option" where
  "normalize_exact_sum minimum_exponent signed_sum =
     (if signed_sum = 0 then None
      else
        let negative = signed_sum < 0;
            magnitude = (word_of_int (if negative then - signed_sum else signed_sum) :: u64);
            len = bit_length magnitude in
        if len = 0 then None
        else if len > 24 then
          let discard_count = len - 24;
              discarded_mask = push_bit discard_count 1 - 1 in
          if magnitude AND discarded_mask \<noteq> 0 then None
          else encode_normal_f32 negative (int (unat minimum_exponent) + int discard_count)
                 (drop_bit discard_count magnitude)
        else
          let left_normalize = 24 - len in
          encode_normal_f32 negative (int (unat minimum_exponent) - int left_normalize)
            (push_bit left_normalize magnitude))"

definition exact_normal_f32_sum :: "u32 \<Rightarrow> u32 \<Rightarrow> u32 option" where
  "exact_normal_f32_sum left_bits right_bits =
     (case (decode_normal_f32 left_bits, decode_normal_f32 right_bits) of
        (Some left, Some right) \<Rightarrow>
          let minimum_exponent = (if f32_exponent left < f32_exponent right then f32_exponent left else f32_exponent right);
              left_shift = unat (f32_exponent left) - unat minimum_exponent;
              right_shift = unat (f32_exponent right) - unat minimum_exponent in
          if left_shift > 24 \<or> right_shift > 24 then None
          else
            let left_magnitude = sint (push_bit left_shift (ucast (f32_significand left) :: u64));
                right_magnitude = sint (push_bit right_shift (ucast (f32_significand right) :: u64));
                signed_left = (if f32_negative left then - left_magnitude else left_magnitude);
                signed_right = (if f32_negative right then - right_magnitude else right_magnitude);
                signed_sum = signed_left + signed_right in
            normalize_exact_sum minimum_exponent signed_sum
      | _ \<Rightarrow> None)"

section \<open>Meaning of a normal number\<close>

definition f32_exp :: "u32 \<Rightarrow> nat" where
  "f32_exp w = unat w div 2 ^ 23 mod 2 ^ 8"

definition f32_sig :: "u32 \<Rightarrow> nat" where
  "f32_sig w = 2 ^ 23 + unat w mod 2 ^ 23"

definition f32_sign :: "u32 \<Rightarrow> int" where
  "f32_sign w = (if unat w < 2 ^ 31 then 1 else - 1)"

definition f32_normal :: "u32 \<Rightarrow> bool" where
  "f32_normal w \<longleftrightarrow> 0 < f32_exp w \<and> f32_exp w < 255"

definition f32_value :: "u32 \<Rightarrow> int" where
  "f32_value w = f32_sign w * int (f32_sig w) * 2 ^ f32_exp w"

lemma f32_sig_range: "2 ^ 23 \<le> f32_sig w" "f32_sig w < 2 ^ 24"
  by (simp_all add: f32_sig_def)

lemma f32_fields_unat: "unat w = (if f32_sign w = 1 then 0 else 2 ^ 31) + 2 ^ 23 * f32_exp w + (f32_sig w - 2 ^ 23)"
proof -
  define u where "u = unat w"
  have u: "u < 2 ^ 32" using unsigned_less [of w] by (simp add: u_def)
  define q e s f where "q = u div 2 ^ 23" and "e = q mod 2 ^ 8" and "s = q div 2 ^ 8" and "f = u mod 2 ^ 23"
  have "u = 2 ^ 23 * q + f" "q = 2 ^ 8 * s + e" by (simp_all add: q_def f_def s_def e_def)
  then have sum: "u = 2 ^ 31 * s + 2 ^ 23 * e + f" by simp
  have "s = u div 2 ^ 31" by (simp add: s_def q_def div_mult2_eq [symmetric])
  then have "s = (if u < 2 ^ 31 then 0 else 1)" using u by (simp add: div_nat_eqI)
  with sum have "u = (if u < 2 ^ 31 then 0 else 2 ^ 31) + 2 ^ 23 * e + f" by (cases "u < 2 ^ 31") simp_all
  then have "u = (if u < 2 ^ 31 then 0 else 2 ^ 31) + 2 ^ 23 * (u div 2 ^ 23 mod 2 ^ 8) + u mod 2 ^ 23"
    unfolding e_def q_def f_def .
  then show ?thesis unfolding f32_sign_def f32_exp_def f32_sig_def u_def [symmetric] by (cases "u < 2 ^ 31") simp_all
qed

lemma of_nat_of_unat: "of_nat (unat w) = w"
  by simp

lemma f32_eqI:
  assumes "f32_sign v = f32_sign w" "f32_exp v = f32_exp w" "f32_sig v = f32_sig w"
  shows "v = w"
  using f32_fields_unat [of v] f32_fields_unat [of w] assms by (simp add: word_unat_eq_iff)

lemma decode_normal_f32_eq:
  "decode_normal_f32 w =
     (if f32_normal w then Some \<lparr>f32_negative = (f32_sign w = - 1), f32_exponent = of_nat (f32_exp w),
        f32_significand = of_nat (f32_sig w)\<rparr> else None)"
proof -
  have mask: "(0xff :: u32) = Bit_Operations.mask 8" "(0x007fffff :: u32) = Bit_Operations.mask 23"
    by (simp_all add: mask_eq_exp_minus_1)
  have e: "unat (ucast (drop_bit 23 w AND 0xff) :: u8) = f32_exp w"
    unfolding mask take_bit_eq_mask [symmetric]
    by (simp add: unsigned_ucast_eq unsigned_take_bit_eq unat_drop_bit_eq drop_bit_eq_div take_bit_eq_mod f32_exp_def
        unat_mod_distrib unat_div_distrib)
  have frac: "unat (w AND 0x007fffff) = unat w mod 2 ^ 23"
    unfolding mask take_bit_eq_mask [symmetric] by (simp add: take_bit_eq_mod unat_mod_distrib)
  have "take_bit 23 (0x00800000 :: u32) = 0" by simp
  then have "(0x00800000 :: u32) AND (w AND 0x007fffff) = 0"
    unfolding mask take_bit_eq_mask by (metis and.assoc and.commute and_zero_eq)
  then have "0x00800000 OR (w AND 0x007fffff) = 0x00800000 + (w AND 0x007fffff)"
    by (metis disjunctive_add_eq_or)
  moreover have "unat (0x00800000 + (w AND 0x007fffff)) = f32_sig w"
    using frac by (subst unat_add_lem [THEN iffD1]) (simp_all add: f32_sig_def)
  ultimately have sig: "0x00800000 OR (w AND 0x007fffff) = (of_nat (f32_sig w) :: u32)"
    by (metis of_nat_of_unat)
  have u: "unat w < 2 ^ 32" using unsigned_less [of w] by simp
  have "(0x80000000 :: u32) = push_bit 31 1" by simp
  then have "w AND 0x80000000 \<noteq> 0 \<longleftrightarrow> bit w 31"
    by (metis (no_types, lifting) and_exp_eq_0_iff_not_bit push_bit_of_1)
  also have "\<dots> \<longleftrightarrow> odd (unat w div 2 ^ 31)" 
    using bit_iff_odd [of "unat w" 31] by (simp add: bit_unsigned_iff)
  also have "unat w div 2 ^ 31 = (if unat w < 2 ^ 31 then 0 else 1)"
    using u by (simp add: div_nat_eqI)
  also have "odd (if unat w < 2 ^ 31 then 0 else 1 :: nat) \<longleftrightarrow> 2 ^ 31 \<le> unat w" by simp
  finally have sign: "w AND 0x80000000 \<noteq> 0 \<longleftrightarrow> f32_sign w = - 1" by (simp add: f32_sign_def not_less)
  have "(ucast (drop_bit 23 w AND 0xff) :: u8) = of_nat (f32_exp w)" using e by (metis of_nat_of_unat)
  moreover have "f32_exp w < 256" by (simp add: f32_exp_def)
  ultimately show ?thesis
    using e sig sign by (simp add: decode_normal_f32_def f32_normal_def Let_def word_unat_eq_iff) 
qed

lemma f32_of_fields:
  assumes "unat w = (if neg then 2 ^ 31 else 0) + 2 ^ 23 * e + f" "e < 256" "f < 2 ^ 23"
  shows "f32_sign w = (if neg then - 1 else 1)" "f32_exp w = e" "f32_sig w = 2 ^ 23 + f"
proof -
  have low: "2 ^ 23 * e + f < 2 ^ 31" using assms(2,3) by simp
  then show "f32_sign w = (if neg then - 1 else 1)" using assms(1) by (simp add: f32_sign_def)
  define q :: nat where "q = (if neg then 2 ^ 8 else 0) + e"
  have "unat w = 2 ^ 23 * q + f" using assms(1) by (simp add: q_def)
  then have "unat w div 2 ^ 23 = q" "unat w mod 2 ^ 23 = f" using assms(3) by simp_all
  moreover have "q mod 2 ^ 8 = e" using assms(2) by (simp add: q_def)
  ultimately show "f32_exp w = e" "f32_sig w = 2 ^ 23 + f" using assms(2) by (simp_all add: f32_exp_def f32_sig_def)
qed

lemma unat_or_disjoint:
  fixes a b :: u32
  assumes "2 ^ k dvd unat a" "unat b < 2 ^ k" "unat a + unat b < 2 ^ 32"
  shows "unat (a OR b) = unat a + unat b"
proof -
  obtain c where c: "unat a = push_bit k c" using assms(1) by (auto simp: push_bit_eq_mult mult.commute elim: dvdE)
  have "unat a OR unat b = unat a + unat b"
    using or_push_bit_add [OF assms(2), of c] unfolding c by (simp add: or.commute add.commute)
  then show ?thesis by (simp add: unsigned_or_eq)
qed

lemma encode_normal_f32_eq:
  "encode_normal_f32 neg e v =
     (if 1 \<le> e \<and> e \<le> 254 \<and> 2 ^ 23 \<le> unat v \<and> unat v < 2 ^ 24
      then Some (of_nat ((if neg then 2 ^ 31 else 0) + 2 ^ 23 * nat e + (unat v - 2 ^ 23))) else None)"
proof (cases "1 \<le> e \<and> e \<le> 254 \<and> 2 ^ 23 \<le> unat v \<and> unat v < 2 ^ 24")
  case False
  then show ?thesis by (auto simp: encode_normal_f32_def word_less_nat_alt)
next
  case True
  have mask: "(0x007fffff :: u32) = Bit_Operations.mask 23" by (simp add: mask_eq_exp_minus_1)
  have f: "unat (ucast v AND 0x007fffff :: u32) = unat v - 2 ^ 23"
  proof -
    have "unat (ucast v AND 0x007fffff :: u32) = unat v mod 2 ^ 23"
      unfolding mask take_bit_eq_mask [symmetric]
      by (simp only: unsigned_take_bit_eq unsigned_ucast_eq) (simp add: take_bit_eq_mod mod_mod_cancel)
    also have "\<dots> = (2 ^ 23 + (unat v - 2 ^ 23)) mod 2 ^ 23" using True by simp
    also have "\<dots> = unat v - 2 ^ 23" using True by (subst mod_add_self1, intro mod_less) auto
    finally show ?thesis .
  qed
  obtain n where n: "e = int n" "n < 2 ^ 32" using True by (intro that [of "nat e"]) auto
  then have "unat (word_of_int e :: u32) = nat e" by (simp add: unsigned_of_nat take_bit_nat_eq_self)
  then have "unat (push_bit 23 (word_of_int e) :: u32) = take_bit 32 (2 ^ 23 * nat e)"
    by (simp only: unsigned_push_bit_eq) (simp add: push_bit_eq_mult mult.commute)
  moreover have "2 ^ 23 * nat e < 2 ^ 32" using True by auto
  ultimately have e: "unat (push_bit 23 (word_of_int e) :: u32) = 2 ^ 23 * nat e"
    by (metis take_bit_nat_eq_self)
  have 1: "unat (push_bit 23 (word_of_int e) OR (ucast v AND 0x007fffff) :: u32) = 2 ^ 23 * nat e + (unat v - 2 ^ 23)"
    using unat_or_disjoint [of 23 "push_bit 23 (word_of_int e)" "ucast v AND 0x007fffff"] e f True by auto
  then have small: "unat (push_bit 23 (word_of_int e) OR (ucast v AND 0x007fffff) :: u32) < 2 ^ 31" using True by auto
  have 2: "unat ((if neg then 0x80000000 else 0) OR (push_bit 23 (word_of_int e) OR (ucast v AND 0x007fffff)) :: u32)
      = (if neg then 2 ^ 31 else 0) + (2 ^ 23 * nat e + (unat v - 2 ^ 23))"
    using unat_or_disjoint [of 31 "0x80000000" "push_bit 23 (word_of_int e) OR (ucast v AND 0x007fffff)"] small 1
    by (cases neg) simp_all
  have "(if neg then 0x80000000 else 0) OR (push_bit 23 (word_of_int e) OR (ucast v AND 0x007fffff))
      = (of_nat ((if neg then 2 ^ 31 else 0) + 2 ^ 23 * nat e + (unat v - 2 ^ 23)) :: u32)"
    using arg_cong [OF 2, of "of_nat :: nat \<Rightarrow> u32"] by (simp only: of_nat_of_unat add.assoc)
  then show ?thesis using True by (simp add: encode_normal_f32_def word_less_nat_alt or.assoc)
qed

lemma encode_normal_f32_Some:
  assumes "1 \<le> e" "e \<le> 254" "2 ^ 23 \<le> unat v" "unat v < 2 ^ 24"
  shows "\<exists>r. encode_normal_f32 neg e v = Some r \<and> f32_normal r \<and> f32_sign r = (if neg then - 1 else 1)
    \<and> int (f32_exp r) = e \<and> f32_sig r = unat v"
proof -
  define u :: nat where "u = (if neg then 2 ^ 31 else 0) + 2 ^ 23 * nat e + (unat v - 2 ^ 23)"
  have "u < 2 ^ 32" using assms by (auto simp: u_def)
  then have "unat (of_nat u :: u32) = u" by (simp add: unsigned_of_nat take_bit_nat_eq_self)
  from f32_of_fields [OF this [unfolded u_def], folded u_def] assms
  have "f32_sign (of_nat u) = (if neg then - 1 else 1)" "f32_exp (of_nat u) = nat e" "f32_sig (of_nat u) = unat v" by auto
  then show ?thesis using assms encode_normal_f32_eq [of neg e v] unfolding u_def [symmetric] by (auto simp: f32_normal_def)
qed

section \<open>Normalization\<close>

lemma bit_length_loop_eq:
  "v \<noteq> 0 \<Longrightarrow> \<exists>k. bit_length_loop v n = n + Suc k \<and> 2 ^ k \<le> unat v \<and> unat v < 2 ^ Suc k"
proof (induction v n rule: bit_length_loop.induct)
  case (1 v n)
  have half: "unat (drop_bit 1 v) = unat v div 2" by (simp add: drop_bit_eq_div unat_div_distrib)
  have pos: "0 < unat v" using "1.prems" by (simp add: unat_gt_0)
  show ?case
  proof (cases "drop_bit 1 v = 0")
    case True
    then have "unat v div 2 = 0" using half by simp
    then have "unat v = 1" using pos by simp
    moreover have "bit_length_loop v n = n + 1"
      using "1.prems" True by (subst bit_length_loop.simps, subst bit_length_loop.simps) simp
    ultimately show ?thesis by (intro exI [of _ 0]) simp
  next
    case False
    from "1.IH" [OF "1.prems" this] obtain k where "bit_length_loop (drop_bit 1 v) (n + 1) = n + 1 + Suc k"
      "2 ^ k \<le> unat v div 2" "unat v div 2 < 2 ^ Suc k" unfolding half by blast
    then show ?thesis
      using "1.prems" by (intro exI [of _ "Suc k"], subst bit_length_loop.simps) auto
  qed
qed

lemma bit_length_bounds:
  assumes "v \<noteq> 0"
  obtains k where "bit_length v = Suc k" "2 ^ k \<le> unat v" "unat v < 2 ^ Suc k"
  using bit_length_loop_eq [OF assms, of 0] unfolding bit_length_def by auto

lemma scale_determined:
  fixes R M :: nat
  assumes "R * 2 ^ e = M * 2 ^ m" "2 ^ a \<le> R" "R < 2 ^ Suc a" "2 ^ k \<le> M" "M < 2 ^ Suc k"
  shows "e + a = m + k"
proof -
  have lo: "2 ^ (a + e) \<le> R * 2 ^ e" "R * 2 ^ e < 2 ^ (Suc a + e)" "2 ^ (k + m) \<le> M * 2 ^ m" "M * 2 ^ m < 2 ^ (Suc k + m)"
    unfolding power_add using assms(2-5) by (simp_all add: mult_le_mono1)
  have "(2 :: nat) ^ (a + e) < 2 ^ (Suc k + m)" "(2 :: nat) ^ (k + m) < 2 ^ (Suc a + e)"
    using lo assms(1) by linarith+
  then have "a + e < Suc k + m" "k + m < Suc a + e" by (simp_all only: power_strict_increasing_iff one_less_numeral_iff semiring_norm)
  then show ?thesis by simp
qed

lemma f32_value_split:
  assumes "f32_value r = S * 2 ^ m"
  shows "S \<noteq> 0" "f32_sign r = (if S < 0 then - 1 else 1)" "f32_sig r * 2 ^ f32_exp r = nat \<bar>S\<bar> * 2 ^ m"
proof -
  have pos: "0 < int (f32_sig r) * 2 ^ f32_exp r" using f32_sig_range(1) [of r] by simp
  have sgn: "f32_sign r = 1 \<or> f32_sign r = - 1" by (simp add: f32_sign_def)
  have eq: "S * 2 ^ m = f32_sign r * (int (f32_sig r) * 2 ^ f32_exp r)" using assms by (simp add: f32_value_def mult.assoc)
  show "S \<noteq> 0" using eq pos sgn by auto
  have "S < 0 \<longleftrightarrow> S * 2 ^ m < 0" by (simp add: mult_less_0_iff)
  then show sign: "f32_sign r = (if S < 0 then - 1 else 1)" using eq pos sgn by auto
  have "\<bar>S\<bar> * 2 ^ m = \<bar>S * 2 ^ m\<bar>" by (simp add: abs_mult)
  also have "\<dots> = int (f32_sig r) * 2 ^ f32_exp r" unfolding eq using sgn by (auto simp: abs_mult)
  finally have "int (nat \<bar>S\<bar> * 2 ^ m) = int (f32_sig r * 2 ^ f32_exp r)" by simp
  then show "f32_sig r * 2 ^ f32_exp r = nat \<bar>S\<bar> * 2 ^ m" by (metis of_nat_eq_iff)
qed

lemma f32_valueI:
  assumes "f32_sign r = (if S < 0 then - 1 else 1)" "f32_sig r * 2 ^ f32_exp r = nat \<bar>S\<bar> * 2 ^ m"
  shows "f32_value r = S * 2 ^ m"
proof -
  have "int (f32_sig r) * 2 ^ f32_exp r = \<bar>S\<bar> * 2 ^ m" using arg_cong [OF assms(2), of int] by simp
  then show ?thesis unfolding f32_value_def mult.assoc using assms(1) by simp
qed

lemma mask_low:
  fixes v :: u64
  assumes "d < 64"
  shows "v AND (push_bit d 1 - 1) = 0 \<longleftrightarrow> 2 ^ d dvd unat v"
proof -
  have "v AND (push_bit d 1 - 1) = take_bit d v" by (simp add: take_bit_eq_mask mask_eq_exp_minus_1 push_bit_of_1)
  also have "\<dots> = 0 \<longleftrightarrow> take_bit d (unat v) = 0" by (metis unsigned_take_bit_eq unsigned_0 unat_eq_zero)
  finally show ?thesis by (simp add: take_bit_eq_0_iff)
qed

lemma encode_iff:
  assumes "\<And>r. f32_normal r \<and> f32_value r = S * 2 ^ m \<Longrightarrow> int (f32_exp r) = e \<and> f32_sig r = unat v"
    and "1 \<le> e \<Longrightarrow> e \<le> 254 \<Longrightarrow> 2 ^ 23 \<le> unat v \<Longrightarrow> unat v < 2 ^ 24 \<Longrightarrow> unat v * 2 ^ nat e = nat \<bar>S\<bar> * 2 ^ m"
  shows "encode_normal_f32 (S < 0) e v = Some r \<longleftrightarrow> f32_normal r \<and> f32_value r = S * 2 ^ m"
proof
  assume s: "encode_normal_f32 (S < 0) e v = Some r"
  then have c: "1 \<le> e" "e \<le> 254" "2 ^ 23 \<le> unat v" "unat v < 2 ^ 24" by (auto simp: encode_normal_f32_eq split: if_splits)
  from encode_normal_f32_Some [OF c, of "S < 0"] s have r: "f32_normal r" "f32_sign r = (if S < 0 then - 1 else 1)"
    "int (f32_exp r) = e" "f32_sig r = unat v" by auto
  then have "f32_sig r * 2 ^ f32_exp r = nat \<bar>S\<bar> * 2 ^ m" using assms(2) [OF c] by (metis nat_int)
  with r show "f32_normal r \<and> f32_value r = S * 2 ^ m" using f32_valueI by blast
next
  assume r: "f32_normal r \<and> f32_value r = S * 2 ^ m"
  note ev = assms(1) [OF r]
  have c: "1 \<le> e" "e \<le> 254" "2 ^ 23 \<le> unat v" "unat v < 2 ^ 24"
    using r ev f32_sig_range [of r] by (auto simp: f32_normal_def)
  from encode_normal_f32_Some [OF c, of "S < 0"] obtain r' where r': "encode_normal_f32 (S < 0) e v = Some r'"
    "f32_sign r' = (if S < 0 then - 1 else 1)" "int (f32_exp r') = e" "f32_sig r' = unat v" by blast
  moreover have "r' = r" using r' ev f32_value_split(2) [of r S m] r by (intro f32_eqI) auto
  ultimately show "encode_normal_f32 (S < 0) e v = Some r" by simp
qed

lemma normalize_exact_sum_eq:
  assumes "\<bar>S\<bar> < 2 ^ 49"
  shows "normalize_exact_sum m S = Some r \<longleftrightarrow> f32_normal r \<and> f32_value r = S * 2 ^ unat m"
proof (cases "S = 0")
  case True
  then show ?thesis using f32_value_split(1) [of r S "unat m"] by (auto simp: normalize_exact_sum_def)
next
  case False
  define M where "M = nat \<bar>S\<bar>"
  define v :: u64 where "v = word_of_int (if S < 0 then - S else S)"
  have M: "0 < M" "M < 2 ^ 49" using False assms by (auto simp: M_def)
  have "v = of_nat M" by (simp add: v_def M_def abs_if)
  then have v: "unat v = M" using M(2) by (simp add: unsigned_of_nat take_bit_nat_eq_self)
  then have "v \<noteq> 0" using M(1) by auto
  then obtain k where k: "bit_length v = Suc k" "2 ^ k \<le> M" "M < 2 ^ Suc k" unfolding v [symmetric] by (rule bit_length_bounds)
  have "(2 :: nat) ^ k < 2 ^ 49" using k(2) M(2) by linarith
  then have k49: "k < 49" by (rule power_less_imp_less_exp [rotated]) simp
  have det: "f32_exp r + 23 = unat m + k \<and> f32_sig r * 2 ^ f32_exp r = M * 2 ^ unat m"
    if "f32_normal r \<and> f32_value r = S * 2 ^ unat m" for r
  proof -
    have eq: "f32_sig r * 2 ^ f32_exp r = M * 2 ^ unat m" using f32_value_split(3) [of r S "unat m"] that by (simp add: M_def)
    with scale_determined [OF eq, of 23 k] k f32_sig_range [of r] show ?thesis by simp
  qed
  have norm: "normalize_exact_sum m S =
     (if Suc k > 24 then if v AND (push_bit (k - 23) 1 - 1) \<noteq> 0 then None
        else encode_normal_f32 (S < 0) (int (unat m) + int (k - 23)) (drop_bit (k - 23) v)
      else encode_normal_f32 (S < 0) (int (unat m) - int (23 - k)) (push_bit (23 - k) v))"
    using False k(1) unfolding normalize_exact_sum_def Let_def v_def [symmetric] by simp
  show ?thesis
  proof (cases "23 < k")
    case True
    let ?d = "k - 23"
    have shift: "f32_sig r * 2 ^ ?d = M" "f32_exp r = unat m + ?d" if "f32_normal r \<and> f32_value r = S * 2 ^ unat m" for r
    proof -
      show e: "f32_exp r = unat m + ?d" using det [OF that] True by auto
      have "f32_sig r * 2 ^ ?d * 2 ^ unat m = M * 2 ^ unat m" using det [OF that] unfolding e power_add by (simp add: mult_ac)
      then show "f32_sig r * 2 ^ ?d = M" by simp
    qed
    have drop: "unat (drop_bit ?d v) = M div 2 ^ ?d" 
      unfolding unat_drop_bit_eq v by (simp add: drop_bit_eq_div)
    show ?thesis
    proof (cases "2 ^ ?d dvd M")
      case False
      then have "\<not> (f32_normal r \<and> f32_value r = S * 2 ^ unat m)" using shift(1) by (metis dvd_triv_right)
      then show ?thesis using True False mask_low [of ?d v] v k49 by (auto simp: norm)
    next
      case div: True
      have "encode_normal_f32 (S < 0) (int (unat m) + int ?d) (drop_bit ?d v) = Some r \<longleftrightarrow> f32_normal r \<and> f32_value r = S * 2 ^ unat m"
      proof (rule encode_iff)
        show "int (f32_exp r) = int (unat m) + int ?d \<and> f32_sig r = unat (drop_bit ?d v)"
          if "f32_normal r \<and> f32_value r = S * 2 ^ unat m" for r
          using shift [OF that] unfolding drop by auto
        have "M div 2 ^ ?d * 2 ^ ?d = M" using div by simp
        then show "unat (drop_bit ?d v) * 2 ^ nat (int (unat m) + int ?d) = nat \<bar>S\<bar> * 2 ^ unat m"
          unfolding drop M_def [symmetric] by (simp add: nat_add_distrib power_add mult_ac)
      qed
      then show ?thesis using True div mask_low [of ?d v] v k49 by (simp add: norm)
    qed
  next
    case False
    let ?l = "23 - k"
    have "M * 2 ^ ?l < 2 ^ Suc k * 2 ^ ?l" using k(3) by simp
    also have "(2 :: nat) ^ Suc k * 2 ^ ?l = 2 ^ 24" using False by (simp add: power_add [symmetric] del: power_Suc)
    finally have "M * 2 ^ ?l < 2 ^ 24" .
    then have push: "unat (push_bit ?l v) = M * 2 ^ ?l"
      by (simp only: unsigned_push_bit_eq v) (simp add: push_bit_eq_mult take_bit_nat_eq_self)
    have "encode_normal_f32 (S < 0) (int (unat m) - int ?l) (push_bit ?l v) = Some r \<longleftrightarrow> f32_normal r \<and> f32_value r = S * 2 ^ unat m"
    proof (rule encode_iff)
      fix r assume r: "f32_normal r \<and> f32_value r = S * 2 ^ unat m"
      then have e: "f32_exp r + ?l = unat m" using det [OF r] False by auto
      have "f32_sig r * 2 ^ f32_exp r = M * 2 ^ ?l * 2 ^ f32_exp r"
        using det [OF r] unfolding e [symmetric] power_add by (simp add: mult_ac)
      then have "f32_sig r = unat (push_bit ?l v)" unfolding push by simp
      moreover have "int (f32_exp r) = int (unat m) - int ?l" using e by linarith
      ultimately show "int (f32_exp r) = int (unat m) - int ?l \<and> f32_sig r = unat (push_bit ?l v)" by blast
    next
      assume "1 \<le> int (unat m) - int ?l"
      then have "unat m = ?l + nat (int (unat m) - int ?l)" by linarith
      then have "(2 :: nat) ^ unat m = 2 ^ ?l * 2 ^ nat (int (unat m) - int ?l)" by (metis power_add)
      then show "unat (push_bit ?l v) * 2 ^ nat (int (unat m) - int ?l) = nat \<bar>S\<bar> * 2 ^ unat m"
        unfolding push M_def [symmetric] by (simp add: mult.assoc)
    qed
    then show ?thesis using False by (simp add: norm)
  qed
qed

section \<open>The sum\<close>

lemma shifted_significand:
  assumes "sh \<le> 24"
  shows "sint (push_bit sh (ucast (of_nat (f32_sig w) :: u32) :: u64)) = int (f32_sig w * 2 ^ sh)"
proof -
  have "f32_sig w < 2 ^ 32" using f32_sig_range(2) [of w] by simp
  then have "unat (ucast (of_nat (f32_sig w) :: u32) :: u64) = f32_sig w"
    by (simp add: unsigned_ucast_eq unsigned_of_nat take_bit_nat_eq_self)
  moreover have "f32_sig w * 2 ^ sh < 2 ^ 24 * 2 ^ 24"
    using f32_sig_range(2) [of w] assms by (intro mult_less_le_imp_less power_increasing) simp_all
  ultimately have "unat (push_bit sh (ucast (of_nat (f32_sig w) :: u32) :: u64)) = f32_sig w * 2 ^ sh"
    by (simp only: unsigned_push_bit_eq) (simp add: push_bit_eq_mult take_bit_nat_eq_self)
  moreover have "sint (v :: u64) = int (unat v)" if "unat v < 2 ^ 48" for v
  proof -
    have "uint v < 2 ^ 48" using of_nat_less_iff [of "unat v" "2 ^ 48", where 'a = int] that by simp
    moreover have "- (2 ^ 63) \<le> uint v" by (rule order_trans [OF _ uint_ge_0]) simp
    ultimately have "signed_take_bit 63 (uint v) = uint v" by (intro signed_take_bit_int_eq_self) simp_all
    then show ?thesis by (simp add: sint_uint)
  qed
  moreover have "f32_sig w * 2 ^ sh < 2 ^ 48" using \<open>f32_sig w * 2 ^ sh < 2 ^ 24 * 2 ^ 24\<close> by simp
  ultimately show ?thesis by metis
qed

text \<open>A sum whose terms are more than 24 binary places apart is never a normal number.\<close>

lemma far_apart_not_normal:
  fixes A B :: nat and s t :: int
  assumes A: "2 ^ 23 \<le> A" "A < 2 ^ 24" and B: "2 ^ 23 \<le> B" "B < 2 ^ 24" and sh: "24 < sh"
    and st: "s = 1 \<or> s = - 1" "t = 1 \<or> t = - 1"
  shows "f32_value r \<noteq> (s * (int A * 2 ^ sh) + t * int B) * 2 ^ m"
proof
  let ?S = "s * (int A * 2 ^ sh) + t * int B"
  assume "f32_value r = ?S * 2 ^ m"
  then have eq: "f32_sig r * 2 ^ f32_exp r = nat \<bar>?S\<bar> * 2 ^ m" by (rule f32_value_split)
  have big: "int A * 2 ^ sh - int B \<le> \<bar>?S\<bar>" using st by auto
  have "(8388608 :: int) * 2 ^ sh \<le> int A * 2 ^ sh" using A(1) by (intro mult_right_mono) simp_all
  moreover have "int B < 2 ^ sh"
  proof (rule less_le_trans)
    show "int B < 2 ^ 24" using B(2) by simp
    show "(2 :: int) ^ 24 \<le> 2 ^ sh" using sh by (intro power_increasing) simp_all
  qed
  moreover have "(0 :: int) < 2 ^ sh" by simp
  ultimately have "4194304 * 2 ^ sh \<le> \<bar>?S\<bar>" using big by linarith
  then have low: "2 ^ (sh + 22) \<le> \<bar>?S\<bar>" by (simp add: power_add)
  have "int (f32_sig r * 2 ^ f32_exp r) < 2 ^ 24 * 2 ^ f32_exp r" using f32_sig_range(2) [of r] by simp
  then have "\<bar>?S\<bar> * 2 ^ m < 2 ^ (f32_exp r + 24)" unfolding eq by (simp add: power_add)
  moreover have "(2 :: int) ^ (sh + 22 + m) \<le> \<bar>?S\<bar> * 2 ^ m" using low by (simp add: power_add)
  ultimately have "(2 :: int) ^ (sh + 22 + m) < 2 ^ (f32_exp r + 24)" by linarith
  then have "sh + 22 + m < f32_exp r + 24" by (rule power_less_imp_less_exp [rotated]) simp
  then obtain d where d: "f32_exp r = m + (sh - 1) + d" using sh by (intro that [of "f32_exp r - (m + (sh - 1))"]) linarith
  have "nat \<bar>?S\<bar> * 2 ^ m = f32_sig r * 2 ^ d * 2 ^ (sh - 1) * 2 ^ m" using eq unfolding d power_add by (simp add: mult_ac)
  then have "nat \<bar>?S\<bar> = f32_sig r * 2 ^ d * 2 ^ (sh - 1)" by simp
  then have "int (2 ^ (sh - 1)) dvd int (nat \<bar>?S\<bar>)" unfolding of_nat_dvd_iff by simp
  then have "2 ^ (sh - 1) dvd ?S" by simp
  moreover have "(2 :: int) ^ (sh - 1) dvd s * (int A * 2 ^ sh)" by (intro dvd_mult le_imp_power_dvd) simp
  ultimately have "2 ^ (sh - 1) dvd t * int B" using dvd_add_right_iff by blast
  then have "(2 :: int) ^ (sh - 1) dvd int B" using st(2) by auto
  then have "(2 :: int) ^ (sh - 1) \<le> int B" using B(1) by (intro zdvd_imp_le) auto
  moreover have "(2 :: int) ^ 24 \<le> 2 ^ (sh - 1)" using sh by (intro power_increasing) auto
  ultimately have "(2 :: int) ^ 24 \<le> int B" by (rule order_trans [rotated])
  then show False using B(2) by simp
qed

lemma exact_normal_f32_sum_iff:
  "exact_normal_f32_sum a b = Some r \<longleftrightarrow>
     f32_normal a \<and> f32_normal b \<and> f32_normal r \<and> f32_value r = f32_value a + f32_value b"
proof (cases "f32_normal a \<and> f32_normal b")
  case False
  then show ?thesis by (auto simp: exact_normal_f32_sum_def decode_normal_f32_eq)
next
  case True
  define m where "m = min (f32_exp a) (f32_exp b)"
  have ea: "f32_exp a < 255" "f32_exp b < 255" using True by (auto simp: f32_normal_def)
  then have u: "unat (of_nat (f32_exp a) :: u8) = f32_exp a" "unat (of_nat (f32_exp b) :: u8) = f32_exp b"
    by (simp_all add: unsigned_of_nat take_bit_nat_eq_self)
  have min: "unat (if (of_nat (f32_exp a) :: u8) < of_nat (f32_exp b) then of_nat (f32_exp a) else of_nat (f32_exp b) :: u8) = m"
    unfolding word_less_nat_alt u m_def by (auto simp: u min_def)
  define sa sb where "sa = f32_exp a - m" and "sb = f32_exp b - m"
  have exps: "f32_exp a = m + sa" "f32_exp b = m + sb" "sa = 0 \<or> sb = 0" by (auto simp: m_def sa_def sb_def)
  define S where "S = f32_sign a * (int (f32_sig a) * 2 ^ sa) + f32_sign b * (int (f32_sig b) * 2 ^ sb)"
  have val: "f32_value a + f32_value b = S * 2 ^ m"
    unfolding f32_value_def S_def exps(1,2) power_add by (simp add: algebra_simps)
  have sg: "f32_sign a = 1 \<or> f32_sign a = - 1" "f32_sign b = 1 \<or> f32_sign b = - 1" by (simp_all add: f32_sign_def)
  define mn :: u8 where
    "mn = (if (of_nat (f32_exp a) :: u8) < of_nat (f32_exp b) then of_nat (f32_exp a) else of_nat (f32_exp b))"
  have dec: "decode_normal_f32 a = Some \<lparr>f32_negative = (f32_sign a = - 1), f32_exponent = of_nat (f32_exp a),
        f32_significand = of_nat (f32_sig a)\<rparr>"
      "decode_normal_f32 b = Some \<lparr>f32_negative = (f32_sign b = - 1), f32_exponent = of_nat (f32_exp b),
        f32_significand = of_nat (f32_sig b)\<rparr>"
    using True by (simp_all add: decode_normal_f32_eq)
  have sign: "(if f32_sign w = - 1 then - x else x) = f32_sign w * x" for w x by (auto simp: f32_sign_def)
  have code: "exact_normal_f32_sum a b = (if sa > 24 \<or> sb > 24 then None else normalize_exact_sum mn S)"
    unfolding exact_normal_f32_sum_def dec prod.case option.case NormalF32.select_convs Let_def mn_def [symmetric]
      min [folded mn_def] u sa_def [symmetric] sb_def [symmetric] sign S_def
    using shifted_significand [of sa a] shifted_significand [of sb b] 
    by (intro if_cong refl) (simp only: not_less de_Morgan_disj of_nat_mult of_nat_power of_nat_numeral)
  show ?thesis
  proof (cases "sa > 24 \<or> sb > 24")
    case far: True
    have "f32_value r \<noteq> S * 2 ^ m"
    proof (cases "sa > 24")
      case True
      with exps(3) have "sb = 0" by simp
      then show ?thesis
        using far_apart_not_normal [where r = r and m = m, OF f32_sig_range [of a] f32_sig_range [of b] True sg] by (simp add: S_def)
    next
      case False
      with far exps(3) have "sa = 0" "24 < sb" by simp_all
      then show ?thesis
        using far_apart_not_normal [where r = r and m = m, OF f32_sig_range [of b] f32_sig_range [of a] \<open>24 < sb\<close> sg(2,1)] by (simp add: S_def add.commute)
    qed
    then show ?thesis using far unfolding code val by simp
  next
    case False
    have bound: "int (f32_sig w) * 2 ^ sh < 2 ^ 48" if "sh \<le> 24" for w sh
      using mult_less_le_imp_less [of "int (f32_sig w)" "2 ^ 24" "2 ^ sh" "2 ^ 24"] f32_sig_range(2) [of w]
        power_increasing [OF that, of "2 :: int"] by simp
    define x y where "x = int (f32_sig a) * 2 ^ sa" and "y = int (f32_sig b) * 2 ^ sb"
    have "0 \<le> x" "0 \<le> y" "x < 2 ^ 48" "y < 2 ^ 48"
      using bound [of sa a] bound [of sb b] False by (simp_all add: x_def y_def)
    then have "\<bar>S\<bar> < 2 ^ 49" using sg unfolding S_def x_def [symmetric] y_def [symmetric] by (auto simp: abs_less_iff)
    from normalize_exact_sum_eq [OF this] show ?thesis using False True unfolding code val by (simp add: min [folded mn_def])
  qed
qed

section \<open>Properties\<close>

text \<open>
  C36. The exact addition of two binary32 numbers returns a result exactly when both operands are normal
  and their real sum is itself a normal number, and the result is then that sum: the early refusal of
  operands more than 24 places apart loses nothing, and no accepted result is rounded.
\<close>

theorem exact_normal_f32_sum_correct:
  "exact_normal_f32_sum a b = Some r \<longleftrightarrow>
     f32_normal a \<and> f32_normal b \<and> f32_normal r \<and> f32_value r = f32_value a + f32_value b"
  by (rule exact_normal_f32_sum_iff)

end
