(* ===== verification/Shader_Operations.thy ===== *)
theory Shader_Operations
  imports Shader_Cfg Exact_F32
begin

text \<open>
  The effect of one shader operation on the state of a wave: scalar moves
  (shader_scalar_execution.cpp), moves and exact additions of vector registers
  (shader_vector_execution.cpp), and the capture of exports (shader_export_execution.cpp).

  A function that takes a state by reference returns its result together with the state. The arrays of
  fixed size are lists; \<open>scalar_wf\<close> and \<open>vector_wf\<close> give the sizes their types have.
\<close>

section \<open>Scalar operations\<close>

definition kShaderScalarGprCount :: nat where
  "kShaderScalarGprCount = 106"

record ShaderScalarState =
  state_sgprs :: "u32 list"
  state_vcc :: u64
  state_m0 :: u32
  state_exec :: u64
  state_scc :: bool

datatype ShaderScalarWriteWidth = bits32 | bits64

record ShaderScalarExecutionEffect =
  scalar_effect_width :: ShaderScalarWriteWidth
  scalar_effect_first_destination_sgpr :: u8
  scalar_effect_written_values :: "u32 list"

datatype ShaderScalarExecutionErrorCode = scalar_unsupported_operation | invalid_sgpr_index | invalid_sgpr_pair

datatype ShaderScalarExecutionOperandRole = role_none | role_source | role_destination

datatype ShaderScalarExecutionError =
  ShaderScalarExecutionError ShaderScalarExecutionErrorCode ShaderScalarExecutionOperandRole u16

definition valid_sgpr :: "u8 \<Rightarrow> bool" where
  "valid_sgpr index \<longleftrightarrow> unat index < kShaderScalarGprCount"

definition valid_sgpr_pair :: "u8 \<Rightarrow> bool" where
  "valid_sgpr_pair first_index \<longleftrightarrow> unat first_index mod 2 = 0 \<and> unat first_index + 1 < kShaderScalarGprCount"

fun read_scalar_source32 ::
  "ShaderIrScalarSource32 \<Rightarrow> ShaderScalarState \<Rightarrow> (u32, ShaderScalarExecutionError) Result" where
  "read_scalar_source32 (ShaderIrSgpr index) state =
     (if \<not> valid_sgpr index then Failure (ShaderScalarExecutionError invalid_sgpr_index role_source (ucast index))
      else buffer_at (state_sgprs state) (unat index))"
| "read_scalar_source32 (ShaderIrSpecialScalarSource32 kind) state =
     Success (case kind of
        vcc_lo \<Rightarrow> ucast (state_vcc state AND 0xffffffff)
      | vcc_hi \<Rightarrow> ucast (drop_bit 32 (state_vcc state))
      | m0_register \<Rightarrow> state_m0 state
      | null_register \<Rightarrow> 0
      | exec_lo \<Rightarrow> ucast (state_exec state AND 0xffffffff)
      | exec_hi \<Rightarrow> ucast (drop_bit 32 (state_exec state)))"
| "read_scalar_source32 (ShaderIrInlineInteger32 v) state = Success (word_of_int v)"
| "read_scalar_source32 (ShaderIrLiteral32 bits) state = Success bits"

text \<open>A result that leaves the state as it was, or installs the registers of a success.\<close>

fun with_sgprs ::
  "('eff \<times> u32 list, 'e) Result \<Rightarrow> ShaderScalarState \<Rightarrow> ('eff, 'e) Result \<times> ShaderScalarState" where
  "with_sgprs (Success (eff, sgprs)) state = (Success eff, state\<lparr>state_sgprs := sgprs\<rparr>)"
| "with_sgprs (Failure e) state = (Failure e, state)"
| "with_sgprs Undefined state = (Undefined, state)"

fun execute_shader_scalar_operation ::
  "ShaderIrOperation \<Rightarrow> ShaderScalarState
    \<Rightarrow> (ShaderScalarExecutionEffect, ShaderScalarExecutionError) Result \<times> ShaderScalarState" where
  "execute_shader_scalar_operation (ShaderIrScalarMove32 destination source) state =
     with_sgprs
       (if \<not> valid_sgpr destination
        then Failure (ShaderScalarExecutionError invalid_sgpr_index role_destination (ucast destination))
        else with_value (read_scalar_source32 source state) (\<lambda>v.
          with_value (vector_store (state_sgprs state) (unat destination) v) (\<lambda>sgprs.
            Success (\<lparr>scalar_effect_width = bits32, scalar_effect_first_destination_sgpr = destination,
                      scalar_effect_written_values = [v, 0]\<rparr>, sgprs)))) state"
| "execute_shader_scalar_operation (ShaderIrScalarMove64 destination source) state =
     with_sgprs
       (if \<not> valid_sgpr_pair destination
        then Failure (ShaderScalarExecutionError invalid_sgpr_pair role_destination (ucast destination))
        else if \<not> valid_sgpr_pair source
        then Failure (ShaderScalarExecutionError invalid_sgpr_pair role_source (ucast source))
        else with_value (buffer_at (state_sgprs state) (unat source)) (\<lambda>low.
          with_value (buffer_at (state_sgprs state) (unat source + 1)) (\<lambda>high.
          with_value (vector_store (state_sgprs state) (unat destination) low) (\<lambda>sgprs.
          with_value (vector_store sgprs (unat destination + 1) high) (\<lambda>sgprs.
            Success (\<lparr>scalar_effect_width = bits64, scalar_effect_first_destination_sgpr = destination,
                      scalar_effect_written_values = [low, high]\<rparr>, sgprs)))))) state"
| "execute_shader_scalar_operation _ state =
     (Failure (ShaderScalarExecutionError scalar_unsupported_operation role_none 0), state)"

section \<open>Vector operations\<close>

definition kShaderVectorGprCount :: nat where
  "kShaderVectorGprCount = 256"

definition kShaderMaxWaveLaneCount :: nat where
  "kShaderMaxWaveLaneCount = 64"

datatype ShaderWaveSize = wave_unspecified | wave32 | wave64

record ShaderVectorState =
  wave_size :: ShaderWaveSize
  vgprs :: "u32 list list"

record ShaderVectorMove32Effect =
  move_wave_size :: ShaderWaveSize
  move_destination_vgpr :: u8
  move_source_vgpr :: u8
  move_active_lane_mask :: u64
  move_written_values :: "u32 list"

record ShaderVectorAddF32Effect =
  add_wave_size :: ShaderWaveSize
  add_destination_vgpr :: u8
  add_source0_vgpr :: u8
  add_source1_vgpr :: u8
  add_active_lane_mask :: u64
  add_written_values :: "u32 list"

datatype ShaderVectorExecutionErrorCode = vector_unsupported_operation | vector_invalid_wave_size | unsupported_f32_case

datatype ShaderVectorExecutionError = ShaderVectorExecutionError ShaderVectorExecutionErrorCode "nat option"

text \<open>The lanes of a wave and the mask of its active ones; nothing for an unspecified size.\<close>

fun wave_lanes :: "ShaderWaveSize \<Rightarrow> u64 \<Rightarrow> (nat \<times> u64) option" where
  "wave_lanes wave32 exec = Some (32, exec AND 0xffffffff)"
| "wave_lanes wave64 exec = Some (64, exec)"
| "wave_lanes wave_unspecified exec = None"

definition vgpr_lane :: "ShaderVectorState \<Rightarrow> u8 \<Rightarrow> nat \<Rightarrow> (u32, 'e) Result" where
  "vgpr_lane state index lane = with_value (buffer_at (vgprs state) (unat index)) (\<lambda>register. buffer_at register lane)"

text \<open>The loop that computes a value for every active lane.\<close>

primrec read_active_lanes ::
  "(nat \<Rightarrow> (u32, 'e) Result) \<Rightarrow> u64 \<Rightarrow> nat list \<Rightarrow> u32 list \<Rightarrow> (u32 list, 'e) Result" where
  "read_active_lanes f active_lane_mask [] written_values = Success written_values"
| "read_active_lanes f active_lane_mask (lane # lanes) written_values =
     (if active_lane_mask AND push_bit lane 1 \<noteq> 0
      then with_value (f lane) (\<lambda>v. with_value (vector_store written_values lane v)
             (read_active_lanes f active_lane_mask lanes))
      else read_active_lanes f active_lane_mask lanes written_values)"

text \<open>The loop that stores the values of the active lanes into a register.\<close>

primrec write_active_lanes ::
  "u64 \<Rightarrow> nat \<Rightarrow> u32 list \<Rightarrow> nat list \<Rightarrow> u32 list list \<Rightarrow> (u32 list list, 'e) Result" where
  "write_active_lanes active_lane_mask destination_index written_values [] registers = Success registers"
| "write_active_lanes active_lane_mask destination_index written_values (lane # lanes) registers =
     (if active_lane_mask AND push_bit lane 1 \<noteq> 0
      then with_value (buffer_at written_values lane) (\<lambda>v.
        with_value (buffer_at registers destination_index) (\<lambda>register.
        with_value (vector_store register lane v) (\<lambda>register.
        with_value (vector_store registers destination_index register)
          (write_active_lanes active_lane_mask destination_index written_values lanes))))
      else write_active_lanes active_lane_mask destination_index written_values lanes registers)"

fun with_vgprs ::
  "('eff \<times> u32 list list, 'e) Result \<Rightarrow> ShaderVectorState \<Rightarrow> ('eff, 'e) Result \<times> ShaderVectorState" where
  "with_vgprs (Success (eff, registers)) state = (Success eff, state\<lparr>vgprs := registers\<rparr>)"
| "with_vgprs (Failure e) state = (Failure e, state)"
| "with_vgprs Undefined state = (Undefined, state)"

fun execute_shader_vector_move32_operation ::
  "ShaderIrOperation \<Rightarrow> ShaderScalarState \<Rightarrow> ShaderVectorState
    \<Rightarrow> (ShaderVectorMove32Effect, ShaderVectorExecutionError) Result \<times> ShaderVectorState" where
  "execute_shader_vector_move32_operation (ShaderIrVectorMove32 destination source) scalar_state vector_state =
     (case wave_lanes (wave_size vector_state) (state_exec scalar_state) of
        None \<Rightarrow> (Failure (ShaderVectorExecutionError vector_invalid_wave_size None), vector_state)
      | Some (lane_count, active_lane_mask) \<Rightarrow>
          with_vgprs
            (with_value (read_active_lanes (vgpr_lane vector_state source) active_lane_mask [0..<lane_count]
                (replicate kShaderMaxWaveLaneCount 0)) (\<lambda>written_values.
             with_value (write_active_lanes active_lane_mask (unat destination) written_values [0..<lane_count]
                (vgprs vector_state)) (\<lambda>registers.
               Success (\<lparr>move_wave_size = wave_size vector_state, move_destination_vgpr = destination,
                         move_source_vgpr = source, move_active_lane_mask = active_lane_mask,
                         move_written_values = written_values\<rparr>, registers)))) vector_state)"
| "execute_shader_vector_move32_operation _ scalar_state vector_state =
     (Failure (ShaderVectorExecutionError vector_unsupported_operation None), vector_state)"

definition exact_lane_sum ::
  "ShaderVectorState \<Rightarrow> u8 \<Rightarrow> u8 \<Rightarrow> nat \<Rightarrow> (u32, ShaderVectorExecutionError) Result" where
  "exact_lane_sum state source0 source1 lane =
     with_value (vgpr_lane state source0 lane) (\<lambda>left.
       with_value (vgpr_lane state source1 lane) (\<lambda>right.
         case exact_normal_f32_sum left right of
           Some v \<Rightarrow> Success v
         | None \<Rightarrow> Failure (ShaderVectorExecutionError unsupported_f32_case (Some lane))))"

fun execute_shader_vector_add_f32_exact_operation ::
  "ShaderIrOperation \<Rightarrow> ShaderScalarState \<Rightarrow> ShaderVectorState
    \<Rightarrow> (ShaderVectorAddF32Effect, ShaderVectorExecutionError) Result \<times> ShaderVectorState" where
  "execute_shader_vector_add_f32_exact_operation (ShaderIrVectorAddF32 destination source0 source1) scalar_state vector_state =
     (case wave_lanes (wave_size vector_state) (state_exec scalar_state) of
        None \<Rightarrow> (Failure (ShaderVectorExecutionError vector_invalid_wave_size None), vector_state)
      | Some (lane_count, active_lane_mask) \<Rightarrow>
          with_vgprs
            (with_value (read_active_lanes (exact_lane_sum vector_state source0 source1) active_lane_mask [0..<lane_count]
                (replicate kShaderMaxWaveLaneCount 0)) (\<lambda>written_values.
             with_value (write_active_lanes active_lane_mask (unat destination) written_values [0..<lane_count]
                (vgprs vector_state)) (\<lambda>registers.
               Success (\<lparr>add_wave_size = wave_size vector_state, add_destination_vgpr = destination,
                         add_source0_vgpr = source0, add_source1_vgpr = source1,
                         add_active_lane_mask = active_lane_mask, add_written_values = written_values\<rparr>, registers))))
            vector_state)"
| "execute_shader_vector_add_f32_exact_operation _ scalar_state vector_state =
     (Failure (ShaderVectorExecutionError vector_unsupported_operation None), vector_state)"

section \<open>Exports\<close>

record ShaderExportCaptureEffect =
  capture_wave_size :: ShaderWaveSize
  capture_target_kind :: ShaderIrExportTargetKind
  capture_target_index :: u8
  capture_enable_mask :: u8
  capture_compressed :: bool
  capture_done :: bool
  capture_valid_mask :: bool
  capture_active_lane_mask :: u64
  capture_source_values :: "u32 list list"

datatype ShaderExportCaptureError = export_unsupported_operation | export_invalid_wave_size

primrec capture_components ::
  "ShaderVectorState \<Rightarrow> nat \<Rightarrow> u64 \<Rightarrow> u8 list \<Rightarrow> (u32 list list, ShaderExportCaptureError) Result" where
  "capture_components state lane_count active_lane_mask [] = Success []"
| "capture_components state lane_count active_lane_mask (source # sources) =
     with_value (read_active_lanes (vgpr_lane state source) active_lane_mask [0..<lane_count]
         (replicate kShaderMaxWaveLaneCount 0)) (\<lambda>lane_values.
       with_value (capture_components state lane_count active_lane_mask sources) (\<lambda>components.
         Success (lane_values # components)))"

fun capture_shader_export_operation ::
  "ShaderIrOperation \<Rightarrow> ShaderScalarState \<Rightarrow> ShaderVectorState
    \<Rightarrow> (ShaderExportCaptureEffect, ShaderExportCaptureError) Result" where
  "capture_shader_export_operation (ShaderIrExportOp export_op) scalar_state vector_state =
     (case wave_lanes (wave_size vector_state) (state_exec scalar_state) of
        None \<Rightarrow> Failure export_invalid_wave_size
      | Some (lane_count, active_lane_mask) \<Rightarrow>
          with_value (capture_components vector_state lane_count active_lane_mask (export_sources export_op))
            (\<lambda>source_values. Success
               \<lparr>capture_wave_size = wave_size vector_state, capture_target_kind = export_target_kind export_op,
                capture_target_index = export_target_index export_op, capture_enable_mask = export_enable_mask export_op,
                capture_compressed = export_compressed export_op, capture_done = export_done export_op,
                capture_valid_mask = export_valid_mask export_op, capture_active_lane_mask = active_lane_mask,
                capture_source_values = source_values\<rparr>))"
| "capture_shader_export_operation _ scalar_state vector_state = Failure export_unsupported_operation"

section \<open>Lanes\<close>

definition scalar_wf :: "ShaderScalarState \<Rightarrow> bool" where
  "scalar_wf s \<longleftrightarrow> length (state_sgprs s) = kShaderScalarGprCount"

definition vector_wf :: "ShaderVectorState \<Rightarrow> bool" where
  "vector_wf v \<longleftrightarrow> length (vgprs v) = kShaderVectorGprCount
     \<and> (\<forall>r < length (vgprs v). length (vgprs v ! r) = kShaderMaxWaveLaneCount)"

text \<open>A lane of the wave whose bit is set in the execution mask.\<close>

definition lane_active :: "ShaderWaveSize \<Rightarrow> u64 \<Rightarrow> nat \<Rightarrow> bool" where
  "lane_active wave exec lane \<longleftrightarrow>
     lane < (case wave of wave32 \<Rightarrow> 32 | wave64 \<Rightarrow> 64 | wave_unspecified \<Rightarrow> 0) \<and> bit exec lane"

lemma mask_bit: "lane < 64 \<Longrightarrow> (m :: u64) AND push_bit lane 1 \<noteq> 0 \<longleftrightarrow> bit m lane"
  by (simp add: push_bit_of_1 and_exp_eq_0_iff_not_bit)

lemma wave_lanes_Some:
  assumes "wave_lanes wave exec = Some (n, m)"
  shows "n \<le> 64" "lane < n \<and> bit m lane \<longleftrightarrow> lane_active wave exec lane"
proof -
  have m32: "(0xffffffff :: u64) = Bit_Operations.mask 32" by (simp add: mask_eq_exp_minus_1)
  have "bit (exec AND 0xffffffff) lane \<longleftrightarrow> lane < 32 \<and> bit exec lane"
    unfolding m32 by (auto simp: bit_simps dest: bit_imp_le_length)
  then show "n \<le> 64" "lane < n \<and> bit m lane \<longleftrightarrow> lane_active wave exec lane"
    using assms by (cases wave; auto simp: lane_active_def)+
qed

lemma wave_lanes_None: "wave_lanes wave exec = None \<longleftrightarrow> wave = wave_unspecified"
  by (cases wave) simp_all

text \<open>The values of the active lanes, in a register that is zero elsewhere.\<close>

definition lanes_read ::
  "(nat \<Rightarrow> (u32, 'e) Result) \<Rightarrow> u64 \<Rightarrow> nat list \<Rightarrow> u32 list \<Rightarrow> (u32 list, 'e) Result \<Rightarrow> bool" where
  "lanes_read f m L xs r \<longleftrightarrow> (case r of
      Success ys \<Rightarrow> length ys = length xs
        \<and> (\<forall>l < length xs. if l \<in> set L \<and> bit m l then f l = Success (ys ! l) else ys ! l = xs ! l)
    | Failure e \<Rightarrow> \<exists>K l K'. L = K @ l # K' \<and> bit m l \<and> f l = Failure e \<and> (\<forall>k \<in> set K. bit m k \<longrightarrow> (\<exists>v. f k = Success v))
    | Undefined \<Rightarrow> \<exists>l \<in> set L. bit m l \<and> f l = Undefined)"

lemma read_active_lanes_eq:
  assumes "distinct L" "\<forall>l \<in> set L. l < length xs \<and> l < 64"
  shows "lanes_read f m L xs (read_active_lanes f m L xs)"
  using assms
proof (induction L arbitrary: xs)
  case (Cons i L)
  show ?case
  proof (cases "bit m i")
    case False
    then have step: "read_active_lanes f m (i # L) xs = read_active_lanes f m L xs"
      using Cons.prems mask_bit [of i m] by simp
    have IH: "lanes_read f m L xs (read_active_lanes f m L xs)"
      using Cons by simp
    show ?thesis
    proof (cases "read_active_lanes f m L xs")
      case (Success ys)
      with IH False show ?thesis unfolding step by (auto simp: lanes_read_def)
    next
      case (Failure e)
      with IH obtain K l K' where "i # L = (i # K) @ l # K'" "bit m l" "f l = Failure e"
        "\<forall>k \<in> set (i # K). bit m k \<longrightarrow> (\<exists>v. f k = Success v)" using False by (auto simp: lanes_read_def)
      then show ?thesis unfolding step Failure lanes_read_def Result.case by blast
    next
      case Undefined
      with IH show ?thesis unfolding step by (auto simp: lanes_read_def)
    qed
  next
    case True
    then have step: "read_active_lanes f m (i # L) xs = with_value (f i) (\<lambda>v. read_active_lanes f m L (xs[i := v]))"
      using Cons.prems mask_bit [of i m] by (simp add: vector_store_def)
    show ?thesis
    proof (cases "f i")
      case fi: (Success v)
      have IH: "lanes_read f m L (xs[i := v]) (read_active_lanes f m L (xs[i := v]))"
        using Cons.prems by (intro Cons.IH) auto
      have st: "read_active_lanes f m (i # L) xs = read_active_lanes f m L (xs[i := v])" using fi unfolding step by simp
      show ?thesis
      proof (cases "read_active_lanes f m L (xs[i := v])")
        case (Success ys)
        have "(if l \<in> set (i # L) \<and> bit m l then f l = Success (ys ! l) else ys ! l = xs ! l)" if l: "l < length xs" for l
        proof (cases "l = i")
          case False
          with IH Success l show ?thesis by (auto simp: lanes_read_def)
        next
          case eq: True
          then have "l \<notin> set L" using Cons.prems by simp
          with IH Success l eq have "ys ! l = v" by (simp add: lanes_read_def)
          then show ?thesis using eq fi True by simp
        qed
        moreover have "length ys = length xs" using IH Success by (simp add: lanes_read_def)
        ultimately show ?thesis unfolding st Success lanes_read_def by simp
      next
        case (Failure e)
        with IH obtain K l K' where "i # L = (i # K) @ l # K'" "bit m l" "f l = Failure e"
          "\<forall>k \<in> set (i # K). bit m k \<longrightarrow> (\<exists>v. f k = Success v)" using fi by (auto simp: lanes_read_def)
        then show ?thesis unfolding st Failure lanes_read_def Result.case by blast
      next
        case Undefined
        with IH show ?thesis unfolding st by (auto simp: lanes_read_def)
      qed
    next
      case (Failure e)
      have "i # L = [] @ i # L" by simp
      with Failure True show ?thesis unfolding step lanes_read_def by fastforce
    next
      case Undefined
      then show ?thesis using True unfolding step by (simp add: lanes_read_def)
    qed
  qed
qed (simp add: lanes_read_def)

lemma write_active_lanes_eq:
  assumes "distinct L" "\<forall>l \<in> set L. l < 64" "d < length R" "\<forall>r < length R. length (R ! r) = 64" "length ys = 64"
  shows "\<exists>R'. write_active_lanes m d ys L R = (Success R' :: (_, ShaderVectorExecutionError) Result) \<and> length R' = length R
    \<and> (\<forall>r < length R. length (R' ! r) = 64
        \<and> (\<forall>l < 64. R' ! r ! l = (if r = d \<and> l \<in> set L \<and> bit m l then ys ! l else R ! r ! l)))"
  using assms
proof (induction L arbitrary: R)
  case (Cons i L)
  show ?case
  proof (cases "bit m i")
    case False
    then have step: "write_active_lanes m d ys (i # L) R = (write_active_lanes m d ys L R :: (_, ShaderVectorExecutionError) Result)"
      using Cons.prems mask_bit [of i m] by simp
    from Cons.IH [of R] Cons.prems obtain R' where
      "write_active_lanes m d ys L R = (Success R' :: (_, ShaderVectorExecutionError) Result)" "length R' = length R"
      "\<forall>r < length R. length (R' ! r) = 64
        \<and> (\<forall>l < 64. R' ! r ! l = (if r = d \<and> l \<in> set L \<and> bit m l then ys ! l else R ! r ! l))" by auto
    then show ?thesis using False unfolding step by auto
  next
    case True
    let ?R = "R[d := (R ! d)[i := ys ! i]]"
    have step: "write_active_lanes m d ys (i # L) R = (write_active_lanes m d ys L ?R :: (_, ShaderVectorExecutionError) Result)"
      using True mask_bit [of i m] Cons.prems by (simp add: vector_store_def buffer_at_def)
    have "\<forall>r < length ?R. length (?R ! r) = 64" using Cons.prems by (auto simp: nth_list_update)
    with Cons.IH [of ?R] Cons.prems obtain R' where
      R': "write_active_lanes m d ys L ?R = (Success R' :: (_, ShaderVectorExecutionError) Result)" "length R' = length R"
      "\<forall>r < length R. length (R' ! r) = 64
        \<and> (\<forall>l < 64. R' ! r ! l = (if r = d \<and> l \<in> set L \<and> bit m l then ys ! l else ?R ! r ! l))" by auto
    have "i \<notin> set L" "i < 64" using Cons.prems by auto
    then have "\<forall>r < length R. \<forall>l < 64. R' ! r ! l = (if r = d \<and> l \<in> set (i # L) \<and> bit m l then ys ! l else R ! r ! l)"
      using R'(3) True Cons.prems by (auto simp: nth_list_update)
    then show ?thesis using R' unfolding step by auto
  qed
qed simp

abbreviation vgpr :: "ShaderVectorState \<Rightarrow> u8 \<Rightarrow> nat \<Rightarrow> u32" where
  "vgpr v r lane \<equiv> vgprs v ! unat r ! lane"

lemma unat_u8 [simp]: "unat (r :: u8) < 256"
  using unsigned_less [of r] by simp

lemma vgpr_lane_eq: "vector_wf v \<Longrightarrow> l < 64 \<Longrightarrow> vgpr_lane v r l = Success (vgpr v r l)"
  by (simp add: vector_wf_def vgpr_lane_def buffer_at_def kShaderVectorGprCount_def kShaderMaxWaveLaneCount_def)

text \<open>Values for all lanes of a wave: those of the active lanes, and zero elsewhere.\<close>

lemma lanes_of_wave:
  fixes f :: "nat \<Rightarrow> (u32, 'e) Result"
  assumes "wave_lanes w exec = Some (n, m)" "\<And>l. l < 64 \<Longrightarrow> f l \<noteq> Undefined"
  shows "case read_active_lanes f m [0..<n] (replicate kShaderMaxWaveLaneCount 0) of
      Success ys \<Rightarrow> length ys = 64 \<and> (\<forall>l < 64. if lane_active w exec l then f l = Success (ys ! l) else ys ! l = 0)
    | Failure e \<Rightarrow> \<exists>l < 64. lane_active w exec l \<and> f l = Failure e \<and> (\<forall>k < l. lane_active w exec k \<longrightarrow> (\<exists>v. f k = Success v))
    | Undefined \<Rightarrow> False"
proof -
  note act = wave_lanes_Some(2) [OF assms(1)] and n = wave_lanes_Some(1) [OF assms(1)]
  have lr: "lanes_read f m [0..<n] (replicate 64 0) (read_active_lanes f m [0..<n] (replicate 64 0))"
    using n by (intro read_active_lanes_eq) auto
  show ?thesis
  proof (cases "read_active_lanes f m [0..<n] (replicate 64 0)")
    case (Success ys)
    with lr act show ?thesis by (auto simp: lanes_read_def kShaderMaxWaveLaneCount_def)
  next
    case (Failure e)
    with lr obtain K l K' where l: "[0..<n] = K @ l # K'" "bit m l" "f l = Failure e"
      "\<forall>k \<in> set K. bit m k \<longrightarrow> (\<exists>v. f k = Success v)" by (auto simp: lanes_read_def)
    have "length K < n" using arg_cong [OF l(1), of length] by simp
    then have "l = length K" using arg_cong [OF l(1), of "\<lambda>xs. xs ! length K"] by simp
    moreover have "set K = {0..<length K}"
      using arg_cong [OF l(1), of "take (length K)"] \<open>length K < n\<close> by (simp add: take_upt) (metis set_upt)
    moreover have "length K < n" using arg_cong [OF l(1), of length] by simp
    moreover have "bit m k" if "lane_active w exec k" for k using act [of k] that by simp
    ultimately have "l < 64 \<and> lane_active w exec l \<and> f l = Failure e \<and> (\<forall>k < l. lane_active w exec k \<longrightarrow> (\<exists>v. f k = Success v))"
      using l n act [of l] by auto
    then show ?thesis using Failure by (auto simp: kShaderMaxWaveLaneCount_def)
  next
    case Undefined
    with lr assms(2) n show ?thesis by (auto simp: lanes_read_def)
  qed
qed

lemma lanes_of_vgpr:
  assumes wf: "vector_wf v" and nm: "wave_lanes (wave_size v) exec = Some (n, m)"
  shows "\<exists>ys. read_active_lanes (vgpr_lane v r) m [0..<n] (replicate kShaderMaxWaveLaneCount 0) = (Success ys :: (_, 'e) Result)
    \<and> length ys = 64 \<and> (\<forall>l < 64. ys ! l = (if lane_active (wave_size v) exec l then vgpr v r l else 0))"
proof -
  let ?f = "vgpr_lane v r :: nat \<Rightarrow> (u32, 'e) Result"
  have f: "?f l = Success (vgpr v r l)" if "l < 64" for l using vgpr_lane_eq [OF wf that] .
  then have "\<And>l. l < 64 \<Longrightarrow> ?f l \<noteq> Undefined" by simp
  note L = lanes_of_wave [where f = ?f, OF nm this]
  show ?thesis
  proof (cases "read_active_lanes ?f m [0..<n] (replicate kShaderMaxWaveLaneCount 0)")
    case (Success ys)
    have "ys ! l = (if lane_active (wave_size v) exec l then vgpr v r l else 0)" if "l < 64" for l
      using L Success f [OF that] that by (auto split: if_splits)
    then show ?thesis using L Success by auto
  next
    case (Failure e)
    with L f show ?thesis by fastforce
  qed (use L in simp)
qed

lemma write_wave:
  assumes "vector_wf v" "wave_lanes w exec = Some (n, m)" "length ys = 64"
  shows "\<exists>R. write_active_lanes m (unat d) ys [0..<n] (vgprs v) = (Success R :: (_, ShaderVectorExecutionError) Result)
    \<and> vector_wf (v\<lparr>vgprs := R\<rparr>)
    \<and> (\<forall>r l. l < 64 \<longrightarrow> vgpr (v\<lparr>vgprs := R\<rparr>) r l = (if r = d \<and> lane_active w exec l then ys ! l else vgpr v r l))"
proof -
  have wf: "length (vgprs v) = 256" "\<forall>r < length (vgprs v). length (vgprs v ! r) = 64"
    using assms(1) by (auto simp: vector_wf_def kShaderVectorGprCount_def kShaderMaxWaveLaneCount_def)
  note act = wave_lanes_Some(2) [OF assms(2)] and n = wave_lanes_Some(1) [OF assms(2)]
  from write_active_lanes_eq [of "[0..<n]" "unat d" "vgprs v" ys m] wf n assms(3) obtain R where
    R: "write_active_lanes m (unat d) ys [0..<n] (vgprs v) = (Success R :: (_, ShaderVectorExecutionError) Result)" "length R = 256"
    "\<forall>r < 256. length (R ! r) = 64
      \<and> (\<forall>l < 64. R ! r ! l = (if r = unat d \<and> l \<in> set [0..<n] \<and> bit m l then ys ! l else vgprs v ! r ! l))" by auto
  then have "vgpr (v\<lparr>vgprs := R\<rparr>) r l = (if r = d \<and> lane_active w exec l then ys ! l else vgpr v r l)" if "l < 64" for r l
    using that act [of l] by (auto simp: word_unat_eq_iff)
  with R show ?thesis
    by (intro exI [of _ R]) (auto simp: vector_wf_def kShaderVectorGprCount_def kShaderMaxWaveLaneCount_def)
qed

section \<open>What the operations do\<close>

lemma vector_move_outcome:
  assumes wf: "vector_wf v"
  shows "case execute_shader_vector_move32_operation (ShaderIrVectorMove32 d s) sc v of (r, v') \<Rightarrow>
    if wave_size v = wave_unspecified then r = Failure (ShaderVectorExecutionError vector_invalid_wave_size None) \<and> v' = v
    else has_value r \<and> wave_size v' = wave_size v \<and> vector_wf v' \<and> (\<forall>r l. l < 64 \<longrightarrow>
      vgpr v' r l = (if r = d \<and> lane_active (wave_size v) (state_exec sc) l then vgpr v s l else vgpr v r l))"
proof (cases "wave_lanes (wave_size v) (state_exec sc)")
  case None
  then show ?thesis by (simp add: wave_lanes_None)
next
  case (Some nm)
  then obtain n m where nm: "wave_lanes (wave_size v) (state_exec sc) = Some (n, m)" by (cases nm) auto
  then have size: "wave_size v \<noteq> wave_unspecified" by auto
  from lanes_of_vgpr [OF wf nm, of s] obtain ys where
    ys: "read_active_lanes (vgpr_lane v s) m [0..<n] (replicate kShaderMaxWaveLaneCount 0) = (Success ys :: (_, ShaderVectorExecutionError) Result)"
      "length ys = 64" "\<forall>l < 64. ys ! l = (if lane_active (wave_size v) (state_exec sc) l then vgpr v s l else 0)"
    by blast
  from write_wave [OF wf nm ys(2), of d] obtain R where
    R: "write_active_lanes m (unat d) ys [0..<n] (vgprs v) = (Success R :: (_, ShaderVectorExecutionError) Result)"
      "vector_wf (v\<lparr>vgprs := R\<rparr>)"
      "\<forall>r l. l < 64 \<longrightarrow> vgpr (v\<lparr>vgprs := R\<rparr>) r l = (if r = d \<and> lane_active (wave_size v) (state_exec sc) l then ys ! l else vgpr v r l)"
    by blast
  show ?thesis using nm size ys R by simp
qed

lemma exact_lane_sum_eq:
  "vector_wf v \<Longrightarrow> l < 64 \<Longrightarrow> exact_lane_sum v s0 s1 l = (case exact_normal_f32_sum (vgpr v s0 l) (vgpr v s1 l) of
     Some x \<Rightarrow> Success x | None \<Rightarrow> Failure (ShaderVectorExecutionError unsupported_f32_case (Some l)))"
  by (simp add: exact_lane_sum_def vgpr_lane_eq)

lemma vector_add_outcome:
  fixes sc v s0 s1
  assumes wf: "vector_wf v" and size: "wave_size v \<noteq> wave_unspecified"
  defines "act \<equiv> lane_active (wave_size v) (state_exec sc)"
  defines "lsum \<equiv> \<lambda>l. exact_normal_f32_sum (vgpr v s0 l) (vgpr v s1 l)"
  shows "case execute_shader_vector_add_f32_exact_operation (ShaderIrVectorAddF32 d s0 s1) sc v of
      (Success eff, v') \<Rightarrow> wave_size v' = wave_size v \<and> vector_wf v' \<and> (\<forall>r l. l < 64 \<longrightarrow>
        (if r = d \<and> act l then lsum l = Some (vgpr v' r l) else vgpr v' r l = vgpr v r l))
    | (Failure e, v') \<Rightarrow> v' = v \<and> (\<exists>l. e = ShaderVectorExecutionError unsupported_f32_case (Some l)
        \<and> act l \<and> lsum l = None \<and> (\<forall>k < l. act k \<longrightarrow> lsum k \<noteq> None))
    | (Undefined, v') \<Rightarrow> False"
proof -
  from size obtain n m where nm: "wave_lanes (wave_size v) (state_exec sc) = Some (n, m)"
    using wave_lanes_None [of "wave_size v" "state_exec sc"] by auto
  have eq: "exact_lane_sum v s0 s1 l = (case lsum l of
      Some x \<Rightarrow> Success x | None \<Rightarrow> Failure (ShaderVectorExecutionError unsupported_f32_case (Some l)))" if "l < 64" for l
    using exact_lane_sum_eq [OF wf that] by (simp add: lsum_def)
  have "exact_lane_sum v s0 s1 l \<noteq> Undefined" if "l < 64" for l using eq [OF that] by (auto split: option.splits)
  note L = lanes_of_wave [where f = "exact_lane_sum v s0 s1", OF nm this, folded act_def]
  show ?thesis
  proof (cases "read_active_lanes (exact_lane_sum v s0 s1) m [0..<n] (replicate kShaderMaxWaveLaneCount 0)")
    case (Success ys)
    with L have ys: "length ys = 64" "\<forall>l < 64. if act l then exact_lane_sum v s0 s1 l = Success (ys ! l) else ys ! l = 0" by auto
    from write_wave [OF wf nm ys(1), of d, folded act_def] obtain R where
      R: "write_active_lanes m (unat d) ys [0..<n] (vgprs v) = (Success R :: (_, ShaderVectorExecutionError) Result)"
        "vector_wf (v\<lparr>vgprs := R\<rparr>)" "\<forall>r l. l < 64 \<longrightarrow> vgpr (v\<lparr>vgprs := R\<rparr>) r l = (if r = d \<and> act l then ys ! l else vgpr v r l)"
      by blast
    have "lsum l = Some (ys ! l)" if "l < 64" "act l" for l
      using ys(2) that eq [OF that(1)] by (auto split: option.splits)
    then show ?thesis using nm Success R by simp
  next
    case (Failure e)
    with L obtain l where l: "l < 64" "act l" "exact_lane_sum v s0 s1 l = Failure e"
      "\<forall>k < l. act k \<longrightarrow> (\<exists>x. exact_lane_sum v s0 s1 k = Success x)" by auto
    then have "e = ShaderVectorExecutionError unsupported_f32_case (Some l)" "lsum l = None" using eq [OF l(1)] by (auto split: option.splits)
    moreover have "\<forall>k < l. act k \<longrightarrow> lsum k \<noteq> None" using l(1,4) eq by (fastforce split: option.splits)
    ultimately show ?thesis using nm Failure l(2) by auto
  next
    case Undefined
    with L show ?thesis by simp
  qed
qed

definition captured :: "ShaderVectorState \<Rightarrow> u64 \<Rightarrow> u32 list \<Rightarrow> u8 \<Rightarrow> bool" where
  "captured v exec c r \<longleftrightarrow> length c = 64 \<and> (\<forall>l < 64. c ! l = (if lane_active (wave_size v) exec l then vgpr v r l else 0))"

lemma capture_components_eq:
  assumes wf: "vector_wf v" and nm: "wave_lanes (wave_size v) exec = Some (n, m)"
  shows "\<exists>cs. capture_components v n m sources = Success cs \<and> list_all2 (captured v exec) cs sources"
proof (induction sources)
  case (Cons r sources)
  from lanes_of_vgpr [OF wf nm, of r] obtain ys where
    "read_active_lanes (vgpr_lane v r) m [0..<n] (replicate kShaderMaxWaveLaneCount 0) = (Success ys :: (_, ShaderExportCaptureError) Result)"
    "length ys = 64" "\<forall>l < 64. ys ! l = (if lane_active (wave_size v) exec l then vgpr v r l else 0)"
    by blast
  moreover from this(2,3) have "captured v exec ys r" by (simp add: captured_def)
  ultimately show ?case using Cons by auto
qed simp

lemma export_outcome:
  assumes "vector_wf v" "wave_size v \<noteq> wave_unspecified"
  shows "\<exists>eff. capture_shader_export_operation (ShaderIrExportOp x) sc v = Success eff
    \<and> list_all2 (captured v (state_exec sc)) (capture_source_values eff) (export_sources x)"
proof -
  from assms(2) obtain n m where nm: "wave_lanes (wave_size v) (state_exec sc) = Some (n, m)"
    using wave_lanes_None [of "wave_size v" "state_exec sc"] by auto
  with capture_components_eq [OF assms(1) nm, of "export_sources x"] show ?thesis by auto
qed

text \<open>A typed scalar operation always succeeds, and changes only its destination.\<close>

lemma read_source_typed:
  "scalar_wf s \<Longrightarrow> source_typed src \<Longrightarrow> \<exists>v. read_scalar_source32 src s = Success v"
  by (cases src) (auto simp: scalar_wf_def valid_sgpr_def kShaderScalarGprCount_def buffer_at_def word_le_nat_alt)

lemma scalar_move32_outcome:
  assumes "scalar_wf s" "ir_typed (ShaderIrScalarMove32 d src)"
  shows "\<exists>eff v. read_scalar_source32 src s = Success v
    \<and> execute_shader_scalar_operation (ShaderIrScalarMove32 d src) s = (Success eff, s\<lparr>state_sgprs := (state_sgprs s)[unat d := v]\<rparr>)"
  using read_source_typed [OF assms(1), of src] assms
  by (auto simp: scalar_wf_def valid_sgpr_def kShaderScalarGprCount_def vector_store_def word_le_nat_alt)

lemma scalar_move64_outcome:
  assumes "scalar_wf s" "ir_typed (ShaderIrScalarMove64 d src)"
  shows "\<exists>eff. execute_shader_scalar_operation (ShaderIrScalarMove64 d src) s = (Success eff,
    s\<lparr>state_sgprs := (state_sgprs s)[unat d := state_sgprs s ! unat src, unat d + 1 := state_sgprs s ! (unat src + 1)]\<rparr>)"
  using assms
  by (auto simp: scalar_wf_def valid_sgpr_pair_def kShaderScalarGprCount_def vector_store_def buffer_at_def word_le_nat_alt
      even_iff_mod_2_eq_zero)

section \<open>Properties\<close>

text \<open>
  C37. Adding vector registers. On a wave with a size the operation either adds every active lane
  exactly, the operands and the result being normal numbers, and changes no other lane and no other
  register, also when a source is the destination; or it changes nothing and names the first active
  lane whose sum is not a normal number. No register is accessed out of range.
\<close>

theorem vector_add_f32_exact_correct:
  assumes "vector_wf v" and "wave_size v \<noteq> wave_unspecified"
  shows "case execute_shader_vector_add_f32_exact_operation (ShaderIrVectorAddF32 d s0 s1) sc v of
      (Success eff, v') \<Rightarrow> wave_size v' = wave_size v \<and> vector_wf v' \<and> (\<forall>r l. l < 64 \<longrightarrow>
        (if r = d \<and> lane_active (wave_size v) (state_exec sc) l
         then f32_normal (vgpr v s0 l) \<and> f32_normal (vgpr v s1 l) \<and> f32_normal (vgpr v' r l)
           \<and> f32_value (vgpr v' r l) = f32_value (vgpr v s0 l) + f32_value (vgpr v s1 l)
         else vgpr v' r l = vgpr v r l))
    | (Failure e, v') \<Rightarrow> v' = v \<and> (\<exists>l. e = ShaderVectorExecutionError unsupported_f32_case (Some l)
        \<and> lane_active (wave_size v) (state_exec sc) l
        \<and> \<not> (f32_normal (vgpr v s0 l) \<and> f32_normal (vgpr v s1 l)
             \<and> (\<exists>x. f32_normal x \<and> f32_value x = f32_value (vgpr v s0 l) + f32_value (vgpr v s1 l)))
        \<and> (\<forall>k < l. lane_active (wave_size v) (state_exec sc) k \<longrightarrow> exact_normal_f32_sum (vgpr v s0 k) (vgpr v s1 k) \<noteq> None))
    | (Undefined, v') \<Rightarrow> False"
proof -
  obtain r v' where r: "execute_shader_vector_add_f32_exact_operation (ShaderIrVectorAddF32 d s0 s1) sc v = (r, v')"
    by (cases "execute_shader_vector_add_f32_exact_operation (ShaderIrVectorAddF32 d s0 s1) sc v")
  have none: "exact_normal_f32_sum a b = None \<longleftrightarrow>
      \<not> (f32_normal a \<and> f32_normal b \<and> (\<exists>x. f32_normal x \<and> f32_value x = f32_value a + f32_value b))" for a b
    using exact_normal_f32_sum_iff [of a b] by (cases "exact_normal_f32_sum a b") auto
  note out = vector_add_outcome [where d = d and ?s0.0 = s0 and ?s1.0 = s1 and sc = sc, OF assms, unfolded r]
  show ?thesis
  proof (cases r)
    case (Success eff)
    with out have "wave_size v' = wave_size v" "vector_wf v'"
      "\<And>r l. l < 64 \<Longrightarrow> (if r = d \<and> lane_active (wave_size v) (state_exec sc) l
        then exact_normal_f32_sum (vgpr v s0 l) (vgpr v s1 l) = Some (vgpr v' r l) else vgpr v' r l = vgpr v r l)" by auto
    then show ?thesis unfolding r Success prod.case Result.case exact_normal_f32_sum_iff by blast
  next
    case (Failure e)
    with out obtain l where "v' = v" "e = ShaderVectorExecutionError unsupported_f32_case (Some l)"
      "lane_active (wave_size v) (state_exec sc) l" "exact_normal_f32_sum (vgpr v s0 l) (vgpr v s1 l) = None"
      "\<forall>k < l. lane_active (wave_size v) (state_exec sc) k \<longrightarrow> exact_normal_f32_sum (vgpr v s0 k) (vgpr v s1 k) \<noteq> None" by auto
    then show ?thesis unfolding r Failure prod.case Result.case none by blast
  next
    case Undefined
    with out show ?thesis by simp
  qed
qed

definition sample_scalar :: ShaderScalarState where
  "sample_scalar = \<lparr>state_sgprs = replicate 106 0, state_vcc = 0, state_m0 = 0, state_exec = 1, state_scc = False\<rparr>"

definition sample_vector :: ShaderVectorState where
  "sample_vector = \<lparr>wave_size = wave32, vgprs = replicate 256 (replicate 64 0x3f800000)\<rparr>"

lemma sample_states: "scalar_wf sample_scalar" "vector_wf sample_vector" "wave_size sample_vector = wave32"
  "k < 256 \<Longrightarrow> l < 64 \<Longrightarrow> vgprs sample_vector ! k ! l = 0x3f800000"
  by (simp_all add: scalar_wf_def vector_wf_def sample_scalar_def sample_vector_def kShaderScalarGprCount_def
      kShaderVectorGprCount_def kShaderMaxWaveLaneCount_def)

lemma sample_sum: "exact_normal_f32_sum 0x3f800000 0x3f800000 = Some 0x40000000"
  by (simp add: exact_normal_f32_sum_iff f32_normal_def f32_value_def f32_exp_def f32_sig_def f32_sign_def)

theorem vector_add_f32_exact_correct_witness:
  "case execute_shader_vector_add_f32_exact_operation (ShaderIrVectorAddF32 3 1 2) sample_scalar sample_vector of
     (Success eff, v') \<Rightarrow> f32_value (vgpr v' 3 0) = 2 * f32_value 0x3f800000 \<and> vgpr v' 3 1 = 0x3f800000
   | (Failure e, v') \<Rightarrow> False | (Undefined, v') \<Rightarrow> False"
proof -
  have act: "lane_active wave32 (state_exec sample_scalar) l \<longleftrightarrow> l = 0" for l
    by (auto simp: lane_active_def sample_scalar_def bit_1_iff)
  obtain r v' where r: "execute_shader_vector_add_f32_exact_operation (ShaderIrVectorAddF32 3 1 2) sample_scalar sample_vector = (r, v')"
    by (cases "execute_shader_vector_add_f32_exact_operation (ShaderIrVectorAddF32 3 1 2) sample_scalar sample_vector")
  have size: "wave32 \<noteq> wave_unspecified" by simp
  note sample = vector_add_f32_exact_correct [where v = sample_vector and d = 3 and ?s0.0 = 1 and ?s1.0 = 2 and sc = sample_scalar,
      OF sample_states(2), unfolded sample_states(3) act r, OF size]
  show ?thesis
  proof (cases r)
    case (Success eff)
    from sample [unfolded Success prod.case Result.case] have lanes: "\<forall>r l. l < 64 \<longrightarrow> (if r = 3 \<and> l = 0
        then f32_normal (vgpr sample_vector 1 l) \<and> f32_normal (vgpr sample_vector 2 l) \<and> f32_normal (vgpr v' r l)
          \<and> f32_value (vgpr v' r l) = f32_value (vgpr sample_vector 1 l) + f32_value (vgpr sample_vector 2 l)
        else vgpr v' r l = vgpr sample_vector r l)" by blast
    from lanes [rule_format, of 0 3] have "f32_value (vgpr v' 3 0) = 2 * f32_value 0x3f800000"
      by (simp add: sample_states(4))
    moreover from lanes [rule_format, of 1 3] have "vgpr v' 3 1 = 0x3f800000"
      by (simp add: sample_states(4))
    ultimately show ?thesis unfolding r Success prod.case Result.case ..
  next
    case (Failure e)
    have "f32_normal 0x3f800000 \<and> (\<exists>x. f32_normal x \<and> f32_value x = f32_value 0x3f800000 + f32_value 0x3f800000)"
      using sample_sum unfolding exact_normal_f32_sum_iff by blast
    with sample Failure have False by (auto simp: sample_states(4))
    then show ?thesis ..
  next
    case Undefined
    with sample have False by simp
    then show ?thesis ..
  qed
qed

end
