(* ===== verification/Shader_Execution.thy ===== *)
theory Shader_Execution
  imports Shader_Operations
begin

text \<open>
  Execution of a shader over its control-flow graph: branch decisions and the choice of a successor
  (shader_control_execution.cpp), basic blocks and whole programs of a scalar wave
  (shader_control_execution.cpp, shader_program_execution.cpp) and of a full wave
  (shader_wave_block_execution.cpp, shader_wave_program_execution.cpp).

  The scalar and the wave functions have the same control structure and differ in the operations they
  execute, so the structure is defined once over an operation \<open>oper\<close> on a state and instantiated twice.
  Their error codes are one type; the scalar functions use a part of it. The optional errors of a
  scalar operation, a vector operation and an export are one optional \<open>ShaderOperationFailure\<close>.
\<close>

section \<open>Branch decisions and successors\<close>

record ShaderBranchDecision =
  decision_condition :: ShaderIrBranchCondition
  decision_taken :: bool

definition evaluate_shader_branch_condition ::
  "ShaderIrBranchCondition \<Rightarrow> ShaderScalarState \<Rightarrow> ShaderBranchDecision" where
  "evaluate_shader_branch_condition condition state =
     \<lparr>decision_condition = condition,
      decision_taken = (case condition of
          scc_zero \<Rightarrow> \<not> state_scc state
        | scc_one \<Rightarrow> state_scc state
        | vcc_zero \<Rightarrow> state_vcc state = 0
        | vcc_nonzero \<Rightarrow> state_vcc state \<noteq> 0
        | exec_zero \<Rightarrow> state_exec state = 0
        | exec_nonzero \<Rightarrow> state_exec state \<noteq> 0)\<rparr>"

datatype ShaderCfgSuccessorErrorCode =
    successor_graph_program_mismatch
  | successor_block_index_out_of_bounds
  | successor_invalid_block_extent
  | invalid_edge_target
  | invalid_successor_topology
  | branch_decision_required
  | unexpected_branch_decision
  | branch_condition_mismatch

datatype ShaderCfgSuccessorError = ShaderCfgSuccessorError ShaderCfgSuccessorErrorCode nat "nat option"

definition graph_mismatch :: "ShaderIrProgram \<Rightarrow> ShaderControlFlowGraph \<Rightarrow> bool" where
  "graph_mismatch program graph \<longleftrightarrow>
     graph_source_word_count graph \<noteq> program_source_word_count program
     \<or> graph_emission_count graph \<noteq> length (program_emissions program)"

definition block_extent_invalid :: "ShaderIrProgram \<Rightarrow> ShaderCfgBasicBlock \<Rightarrow> bool" where
  "block_extent_invalid program block \<longleftrightarrow>
     block_emission_count block = 0
     \<or> block_first_emission_index block > length (program_emissions program)
     \<or> block_emission_count block > length (program_emissions program) - block_first_emission_index block"

primrec first_invalid_edge :: "nat \<Rightarrow> nat \<Rightarrow> ShaderCfgEdge list \<Rightarrow> nat option" where
  "first_invalid_edge block_count edge_index [] = None"
| "first_invalid_edge block_count edge_index (edge # edges) =
     (if edge_target_block_index edge < block_count then first_invalid_edge block_count (edge_index + 1) edges
      else Some edge_index)"

text \<open>The taken and the fallthrough edge of a conditional branch; nothing when the edges are not those of one.\<close>

primrec conditional_edges ::
  "ShaderCfgEdge list \<Rightarrow> ShaderCfgEdge option \<Rightarrow> ShaderCfgEdge option
    \<Rightarrow> (ShaderCfgEdge option \<times> ShaderCfgEdge option) option" where
  "conditional_edges [] taken_edge fallthrough_edge = Some (taken_edge, fallthrough_edge)"
| "conditional_edges (edge # edges) taken_edge fallthrough_edge =
     (case edge_kind edge of
        conditional_branch_taken \<Rightarrow>
          if taken_edge \<noteq> None then None else conditional_edges edges (Some edge) fallthrough_edge
      | conditional_branch_fallthrough \<Rightarrow>
          if fallthrough_edge \<noteq> None then None else conditional_edges edges taken_edge (Some edge)
      | _ \<Rightarrow> None)"

definition select_conditional ::
  "ShaderCfgBasicBlock \<Rightarrow> nat \<Rightarrow> bool \<Rightarrow> bool \<Rightarrow> (ShaderCfgEdge option, ShaderCfgSuccessorError) Result" where
  "select_conditional block block_index has_source_fallthrough taken =
     (let topology = Failure (ShaderCfgSuccessorError invalid_successor_topology block_index None) in
      case conditional_edges (block_successors block) None None of
        None \<Rightarrow> topology
      | Some (taken_edge, fallthrough_edge) \<Rightarrow>
          if taken_edge = None \<or> (has_source_fallthrough \<and> fallthrough_edge = None)
             \<or> (\<not> has_source_fallthrough \<and> fallthrough_edge \<noteq> None)
             \<or> length (block_successors block) \<noteq> (if has_source_fallthrough then 2 else 1)
          then topology
          else if has_source_fallthrough \<and> edge_target_block_index (the fallthrough_edge) \<noteq> block_index + 1
          then topology
          else if taken then Success taken_edge
          else Success fallthrough_edge)"

definition select_shader_cfg_successor ::
  "ShaderIrProgram \<Rightarrow> ShaderControlFlowGraph \<Rightarrow> nat \<Rightarrow> ShaderBranchDecision option
    \<Rightarrow> (ShaderCfgEdge option, ShaderCfgSuccessorError) Result" where
  "select_shader_cfg_successor program graph block_index branch_decision =
     (let failure = (\<lambda>code. Failure (ShaderCfgSuccessorError code block_index None)) in
      if graph_mismatch program graph then failure successor_graph_program_mismatch
      else if block_index \<ge> length (graph_blocks graph) then failure successor_block_index_out_of_bounds
      else with_value (buffer_at (graph_blocks graph) block_index) (\<lambda>block.
        if block_extent_invalid program block then failure successor_invalid_block_extent
        else case first_invalid_edge (length (graph_blocks graph)) 0 (block_successors block) of
          Some edge_index \<Rightarrow> Failure (ShaderCfgSuccessorError invalid_edge_target block_index (Some edge_index))
        | None \<Rightarrow>
            let last_emission_index = block_first_emission_index block + block_emission_count block - 1;
                has_source_fallthrough = last_emission_index + 1 < length (program_emissions program);
                successors = block_successors block in
            with_value (buffer_at (program_emissions program) last_emission_index) (\<lambda>emission.
              case ir_operation emission of
                ShaderIrEndProgram \<Rightarrow>
                  if branch_decision \<noteq> None then failure unexpected_branch_decision
                  else if successors \<noteq> [] then failure invalid_successor_topology
                  else Success None
              | ShaderIrRelativeBranch _ \<Rightarrow>
                  if branch_decision \<noteq> None then failure unexpected_branch_decision
                  else (case successors of
                      [edge] \<Rightarrow> if edge_kind edge \<noteq> unconditional_branch then failure invalid_successor_topology
                                else Success (Some edge)
                    | _ \<Rightarrow> failure invalid_successor_topology)
              | ShaderIrConditionalRelativeBranch condition _ \<Rightarrow>
                  (case branch_decision of
                     None \<Rightarrow> failure branch_decision_required
                   | Some decision \<Rightarrow>
                       if decision_condition decision \<noteq> condition then failure branch_condition_mismatch
                       else select_conditional block block_index has_source_fallthrough (decision_taken decision))
              | _ \<Rightarrow>
                  if branch_decision \<noteq> None then failure unexpected_branch_decision
                  else if has_source_fallthrough
                  then (case successors of
                      [edge] \<Rightarrow>
                        if edge_kind edge \<noteq> linear_fallthrough \<or> edge_target_block_index edge \<noteq> block_index + 1
                        then failure invalid_successor_topology else Success (Some edge)
                    | _ \<Rightarrow> failure invalid_successor_topology)
                  else if successors \<noteq> [] then failure invalid_successor_topology
                  else Success None)))"

section \<open>Blocks\<close>

datatype ShaderOperationFailure =
    Unsupported_operation
  | Scalar_failure ShaderScalarExecutionError
  | Vector_failure ShaderVectorExecutionError
  | Export_failure ShaderExportCaptureError

datatype ShaderBlockExecutionErrorCode =
    block_graph_program_mismatch
  | block_index_out_of_bounds
  | invalid_block_extent
  | invalid_block_control_flow
  | block_host_allocation_failure
  | block_unsupported_operation
  | scalar_execution_failure
  | vector_execution_failure
  | export_capture_failure
  | cfg_successor_failure

record ShaderBlockExecutionError =
  block_error_code :: ShaderBlockExecutionErrorCode
  block_error_block_index :: nat
  block_error_emission_index :: nat
  block_error_completed_emission_count :: nat
  block_error_operation :: "ShaderOperationFailure option"
  block_error_successor :: "ShaderCfgSuccessorError option"

record 'eff ShaderBlockExecution =
  executed_block_index :: nat
  executed_emission_count :: nat
  executed_effects :: "'eff list"
  executed_branch_decision :: "ShaderBranchDecision option"
  executed_successor :: "ShaderCfgEdge option"

definition block_error ::
  "ShaderBlockExecutionErrorCode \<Rightarrow> nat \<Rightarrow> nat \<Rightarrow> nat \<Rightarrow> ShaderOperationFailure option \<Rightarrow> ShaderCfgSuccessorError option
    \<Rightarrow> ShaderBlockExecutionError" where
  "block_error code block_index emission_index completed failure successor =
     \<lparr>block_error_code = code, block_error_block_index = block_index, block_error_emission_index = emission_index,
      block_error_completed_emission_count = completed, block_error_operation = failure,
      block_error_successor = successor\<rparr>"

fun operation_failure :: "ShaderOperationFailure \<Rightarrow> ShaderBlockExecutionErrorCode \<times> ShaderOperationFailure option" where
  "operation_failure Unsupported_operation = (block_unsupported_operation, None)"
| "operation_failure (Scalar_failure e) = (scalar_execution_failure, Some (Scalar_failure e))"
| "operation_failure (Vector_failure e) = (vector_execution_failure, Some (Vector_failure e))"
| "operation_failure (Export_failure e) = (export_capture_failure, Some (Export_failure e))"

fun control_operation :: "ShaderIrOperation \<Rightarrow> bool" where
  "control_operation ShaderIrEndProgram \<longleftrightarrow> True"
| "control_operation (ShaderIrRelativeBranch _) \<longleftrightarrow> True"
| "control_operation (ShaderIrConditionalRelativeBranch _ _) \<longleftrightarrow> True"
| "control_operation _ \<longleftrightarrow> False"

text \<open>The loop that refuses a control operation before the end of the block.\<close>

primrec check_block_control_flow ::
  "ShaderIrProgram \<Rightarrow> nat \<Rightarrow> nat list \<Rightarrow> (unit, ShaderBlockExecutionError) Result" where
  "check_block_control_flow program block_index [] = Success ()"
| "check_block_control_flow program block_index (emission_index # indices) =
     with_value (buffer_at (program_emissions program) emission_index) (\<lambda>emission.
       if control_operation (ir_operation emission)
       then Failure (block_error invalid_block_control_flow block_index emission_index 0 None None)
       else check_block_control_flow program block_index indices)"

definition checked_block ::
  "ShaderIrProgram \<Rightarrow> ShaderControlFlowGraph \<Rightarrow> nat \<Rightarrow> (ShaderCfgBasicBlock, ShaderBlockExecutionError) Result" where
  "checked_block program graph block_index =
     (if graph_mismatch program graph then Failure (block_error block_graph_program_mismatch block_index 0 0 None None)
      else if block_index \<ge> length (graph_blocks graph)
      then Failure (block_error block_index_out_of_bounds block_index 0 0 None None)
      else with_value (buffer_at (graph_blocks graph) block_index) (\<lambda>block.
        if block_extent_invalid program block
        then Failure (block_error invalid_block_extent block_index (block_first_emission_index block) 0 None None)
        else with_value (check_block_control_flow program block_index
            [block_first_emission_index block..<block_first_emission_index block + block_emission_count block - 1])
          (\<lambda>_. Success block)))"

text \<open>The loop over the emissions of a block, with the effects, the decision and the count so far.\<close>

primrec run_emissions ::
  "(ShaderIrOperation \<Rightarrow> 's \<Rightarrow> ('eff, ShaderOperationFailure) Result \<times> 's) \<Rightarrow> ('s \<Rightarrow> ShaderScalarState)
    \<Rightarrow> ShaderIrProgram \<Rightarrow> nat \<Rightarrow> nat list \<Rightarrow> 's \<Rightarrow> 'eff list \<Rightarrow> ShaderBranchDecision option \<Rightarrow> nat
    \<Rightarrow> ('eff list \<times> ShaderBranchDecision option \<times> nat, ShaderBlockExecutionError) Result \<times> 's" where
  "run_emissions oper scalar_of program block_index [] state effects branch_decision completed =
     (Success (effects, branch_decision, completed), state)"
| "run_emissions oper scalar_of program block_index (emission_index # indices) state effects branch_decision completed =
     (case buffer_at (program_emissions program) emission_index of
        Success emission \<Rightarrow>
          (case ir_operation emission of
             ShaderIrNop _ \<Rightarrow>
               run_emissions oper scalar_of program block_index indices state effects branch_decision (completed + 1)
           | ShaderIrRelativeBranch _ \<Rightarrow>
               run_emissions oper scalar_of program block_index indices state effects branch_decision (completed + 1)
           | ShaderIrEndProgram \<Rightarrow>
               run_emissions oper scalar_of program block_index indices state effects branch_decision (completed + 1)
           | ShaderIrConditionalRelativeBranch condition _ \<Rightarrow>
               run_emissions oper scalar_of program block_index indices state effects
                 (Some (evaluate_shader_branch_condition condition (scalar_of state))) (completed + 1)
           | operation \<Rightarrow>
               (case oper operation state of
                  (Success eff, state) \<Rightarrow>
                    run_emissions oper scalar_of program block_index indices state (effects @ [eff]) branch_decision
                      (completed + 1)
                | (Failure failure, state) \<Rightarrow>
                    (Failure (block_error (fst (operation_failure failure)) block_index emission_index completed
                       (snd (operation_failure failure)) None), state)
                | (Undefined, state) \<Rightarrow> (Undefined, state)))
      | Failure e \<Rightarrow> (Failure e, state)
      | Undefined \<Rightarrow> (Undefined, state))"

definition execute_block ::
  "(ShaderIrOperation \<Rightarrow> 's \<Rightarrow> ('eff, ShaderOperationFailure) Result \<times> 's) \<Rightarrow> ('s \<Rightarrow> ShaderScalarState)
    \<Rightarrow> host_event \<Rightarrow> ShaderIrProgram \<Rightarrow> ShaderControlFlowGraph \<Rightarrow> nat \<Rightarrow> 's
    \<Rightarrow> ('eff ShaderBlockExecution, ShaderBlockExecutionError) Result \<times> 's" where
  "execute_block oper scalar_of event program graph block_index state =
     (case checked_block program graph block_index of
        Failure e \<Rightarrow> (Failure e, state)
      | Undefined \<Rightarrow> (Undefined, state)
      | Success block \<Rightarrow>
          if event \<noteq> No_exception
          then (Failure (block_error block_host_allocation_failure block_index (block_first_emission_index block) 0 None None),
                state)
          else
            case run_emissions oper scalar_of program block_index
                [block_first_emission_index block..<block_first_emission_index block + block_emission_count block]
                state [] None 0 of
              (Failure e, state) \<Rightarrow> (Failure e, state)
            | (Undefined, state) \<Rightarrow> (Undefined, state)
            | (Success (effects, branch_decision, completed), state) \<Rightarrow>
                (case select_shader_cfg_successor program graph block_index branch_decision of
                   Failure e \<Rightarrow>
                     (Failure (block_error cfg_successor_failure block_index
                        (block_first_emission_index block + block_emission_count block - 1) completed None (Some e)), state)
                 | Undefined \<Rightarrow> (Undefined, state)
                 | Success successor \<Rightarrow>
                     (Success \<lparr>executed_block_index = block_index, executed_emission_count = completed,
                        executed_effects = effects, executed_branch_decision = branch_decision,
                        executed_successor = successor\<rparr>, state)))"

text \<open>The operations a scalar block executes, and those of a full wave.\<close>

fun scalar_operation ::
  "ShaderIrOperation \<Rightarrow> ShaderScalarState \<Rightarrow> (ShaderScalarExecutionEffect, ShaderOperationFailure) Result \<times> ShaderScalarState" where
  "scalar_operation (ShaderIrScalarMove32 d s) state =
     (let (r, state') = execute_shader_scalar_operation (ShaderIrScalarMove32 d s) state in (and_then r Scalar_failure Success, state'))"
| "scalar_operation (ShaderIrScalarMove64 d s) state =
     (let (r, state') = execute_shader_scalar_operation (ShaderIrScalarMove64 d s) state in (and_then r Scalar_failure Success, state'))"
| "scalar_operation _ state = (Failure Unsupported_operation, state)"

definition execute_shader_scalar_block ::
  "host_event \<Rightarrow> ShaderIrProgram \<Rightarrow> ShaderControlFlowGraph \<Rightarrow> nat \<Rightarrow> ShaderScalarState
    \<Rightarrow> (ShaderScalarExecutionEffect ShaderBlockExecution, ShaderBlockExecutionError) Result \<times> ShaderScalarState" where
  "execute_shader_scalar_block = execute_block scalar_operation (\<lambda>state. state)"

datatype ShaderWaveExecutionEffect =
    Scalar_effect ShaderScalarExecutionEffect
  | Move_effect ShaderVectorMove32Effect
  | Add_effect ShaderVectorAddF32Effect
  | Export_effect ShaderExportCaptureEffect

type_synonym wave_state = "ShaderScalarState \<times> ShaderVectorState"

fun wave_operation ::
  "ShaderIrOperation \<Rightarrow> wave_state \<Rightarrow> (ShaderWaveExecutionEffect, ShaderOperationFailure) Result \<times> wave_state" where
  "wave_operation (ShaderIrScalarMove32 d s) (scalar_state, vector_state) =
     (let (r, scalar_state') = execute_shader_scalar_operation (ShaderIrScalarMove32 d s) scalar_state in
      (and_then r Scalar_failure (\<lambda>e. Success (Scalar_effect e)), (scalar_state', vector_state)))"
| "wave_operation (ShaderIrScalarMove64 d s) (scalar_state, vector_state) =
     (let (r, scalar_state') = execute_shader_scalar_operation (ShaderIrScalarMove64 d s) scalar_state in
      (and_then r Scalar_failure (\<lambda>e. Success (Scalar_effect e)), (scalar_state', vector_state)))"
| "wave_operation (ShaderIrVectorMove32 d s) (scalar_state, vector_state) =
     (let (r, vector_state') = execute_shader_vector_move32_operation (ShaderIrVectorMove32 d s) scalar_state vector_state in
      (and_then r Vector_failure (\<lambda>e. Success (Move_effect e)), (scalar_state, vector_state')))"
| "wave_operation (ShaderIrVectorAddF32 d s0 s1) (scalar_state, vector_state) =
     (let (r, vector_state') = execute_shader_vector_add_f32_exact_operation (ShaderIrVectorAddF32 d s0 s1) scalar_state vector_state in
      (and_then r Vector_failure (\<lambda>e. Success (Add_effect e)), (scalar_state, vector_state')))"
| "wave_operation (ShaderIrExportOp x) (scalar_state, vector_state) =
     (and_then (capture_shader_export_operation (ShaderIrExportOp x) scalar_state vector_state)
        Export_failure (\<lambda>e. Success (Export_effect e)), (scalar_state, vector_state))"
| "wave_operation _ state = (Failure Unsupported_operation, state)"

definition execute_shader_wave_block ::
  "host_event \<Rightarrow> ShaderIrProgram \<Rightarrow> ShaderControlFlowGraph \<Rightarrow> nat \<Rightarrow> wave_state
    \<Rightarrow> (ShaderWaveExecutionEffect ShaderBlockExecution, ShaderBlockExecutionError) Result \<times> wave_state" where
  "execute_shader_wave_block = execute_block wave_operation fst"

section \<open>Programs\<close>

record 'eff ShaderProgramExecution =
  execution_entry_block_index :: nat
  execution_blocks :: "'eff ShaderBlockExecution list"

datatype ShaderProgramExecutionErrorCode =
    program_graph_mismatch
  | entry_block_out_of_bounds
  | execution_host_allocation_failure
  | execution_budget_exhausted
  | block_execution_failure

record 'eff ShaderProgramExecutionError =
  execution_error_code :: ShaderProgramExecutionErrorCode
  execution_error_current_block_index :: nat
  execution_error_completed_blocks :: "'eff ShaderBlockExecution list"
  execution_error_block_error :: "ShaderBlockExecutionError option"

definition program_error ::
  "ShaderProgramExecutionErrorCode \<Rightarrow> nat \<Rightarrow> 'eff ShaderBlockExecution list \<Rightarrow> ShaderBlockExecutionError option
    \<Rightarrow> 'eff ShaderProgramExecutionError" where
  "program_error code current_block_index completed_blocks failed_block =
     \<lparr>execution_error_code = code, execution_error_current_block_index = current_block_index,
      execution_error_completed_blocks = completed_blocks, execution_error_block_error = failed_block\<rparr>"

text \<open>
  The loop, by the number of blocks that may still be executed. The event of a block is that of its
  allocation, given the number of blocks completed before it.
\<close>

primrec run_blocks ::
  "(ShaderIrOperation \<Rightarrow> 's \<Rightarrow> ('eff, ShaderOperationFailure) Result \<times> 's) \<Rightarrow> ('s \<Rightarrow> ShaderScalarState)
    \<Rightarrow> host_allocator \<Rightarrow> ShaderIrProgram \<Rightarrow> ShaderControlFlowGraph \<Rightarrow> nat \<Rightarrow> nat \<Rightarrow> nat \<Rightarrow> 'eff ShaderBlockExecution list \<Rightarrow> 's
    \<Rightarrow> ('eff ShaderProgramExecution, 'eff ShaderProgramExecutionError) Result \<times> 's" where
  "run_blocks oper scalar_of events program graph entry 0 current_block_index block_executions state =
     (Failure (program_error execution_budget_exhausted current_block_index block_executions None), state)"
| "run_blocks oper scalar_of events program graph entry (Suc remaining) current_block_index block_executions state =
     (case execute_block oper scalar_of (events (length block_executions)) program graph current_block_index state of
        (Failure e, state) \<Rightarrow>
          (Failure (program_error block_execution_failure current_block_index block_executions (Some e)), state)
      | (Undefined, state) \<Rightarrow> (Undefined, state)
      | (Success execution, state) \<Rightarrow>
          (case executed_successor execution of
             None \<Rightarrow> (Success \<lparr>execution_entry_block_index = entry, execution_blocks = block_executions @ [execution]\<rparr>, state)
           | Some edge \<Rightarrow>
               run_blocks oper scalar_of events program graph entry remaining (edge_target_block_index edge)
                 (block_executions @ [execution]) state))"

definition execute_program ::
  "(ShaderIrOperation \<Rightarrow> 's \<Rightarrow> ('eff, ShaderOperationFailure) Result \<times> 's) \<Rightarrow> ('s \<Rightarrow> ShaderScalarState)
    \<Rightarrow> host_event \<Rightarrow> host_allocator \<Rightarrow> ShaderIrProgram \<Rightarrow> ShaderControlFlowGraph \<Rightarrow> nat \<Rightarrow> nat \<Rightarrow> 's
    \<Rightarrow> ('eff ShaderProgramExecution, 'eff ShaderProgramExecutionError) Result \<times> 's" where
  "execute_program oper scalar_of reserve_event events program graph entry_block_index max_block_executions state =
     (if graph_mismatch program graph then (Failure (program_error program_graph_mismatch entry_block_index [] None), state)
      else if entry_block_index \<ge> length (graph_blocks graph)
      then (Failure (program_error entry_block_out_of_bounds entry_block_index [] None), state)
      else if reserve_event \<noteq> No_exception
      then (Failure (program_error execution_host_allocation_failure entry_block_index [] None), state)
      else run_blocks oper scalar_of events program graph entry_block_index max_block_executions entry_block_index [] state)"

definition execute_shader_scalar_program ::
  "host_event \<Rightarrow> host_allocator \<Rightarrow> ShaderIrProgram \<Rightarrow> ShaderControlFlowGraph \<Rightarrow> nat \<Rightarrow> nat \<Rightarrow> ShaderScalarState
    \<Rightarrow> (ShaderScalarExecutionEffect ShaderProgramExecution, ShaderScalarExecutionEffect ShaderProgramExecutionError) Result
        \<times> ShaderScalarState" where
  "execute_shader_scalar_program = execute_program scalar_operation (\<lambda>state. state)"

definition execute_shader_wave_program ::
  "host_event \<Rightarrow> host_allocator \<Rightarrow> ShaderIrProgram \<Rightarrow> ShaderControlFlowGraph \<Rightarrow> nat \<Rightarrow> nat \<Rightarrow> wave_state
    \<Rightarrow> (ShaderWaveExecutionEffect ShaderProgramExecution, ShaderWaveExecutionEffect ShaderProgramExecutionError) Result
        \<times> wave_state" where
  "execute_shader_wave_program = execute_program wave_operation fst"

section \<open>The reference machine\<close>

text \<open>
  A machine without blocks: it executes the emission at a position and goes to the next position. A
  jump goes to the emission at the target byte; the machine halts at an end of program and where
  there is no next emission.
\<close>

definition next_emission :: "ShaderIrProgram \<Rightarrow> nat \<Rightarrow> ShaderScalarState \<Rightarrow> nat option" where
  "next_emission p i s = (let next = (if i + 1 < length (program_emissions p) then Some (i + 1) else None) in
     case operation_at p i of
       ShaderIrRelativeBranch d \<Rightarrow> jump_target p i d
     | ShaderIrConditionalRelativeBranch c d \<Rightarrow>
         if decision_taken (evaluate_shader_branch_condition c s) then jump_target p i d else next
     | ShaderIrEndProgram \<Rightarrow> None
     | _ \<Rightarrow> next)"

fun no_effect :: "ShaderIrOperation \<Rightarrow> bool" where
  "no_effect (ShaderIrNop _) \<longleftrightarrow> True"
| "no_effect operation \<longleftrightarrow> control_operation operation"

definition emission_effect ::
  "(ShaderIrOperation \<Rightarrow> 's \<Rightarrow> ('eff, ShaderOperationFailure) Result \<times> 's) \<Rightarrow> ShaderIrOperation \<Rightarrow> 's
    \<Rightarrow> ('eff list \<times> 's) option" where
  "emission_effect oper operation st =
     (if no_effect operation then Some ([], st)
      else case oper operation st of (Success eff, st') \<Rightarrow> Some ([eff], st') | _ \<Rightarrow> None)"

inductive halts ::
  "(ShaderIrOperation \<Rightarrow> 's \<Rightarrow> ('eff, ShaderOperationFailure) Result \<times> 's) \<Rightarrow> ('s \<Rightarrow> ShaderScalarState)
    \<Rightarrow> ShaderIrProgram \<Rightarrow> nat \<Rightarrow> nat \<Rightarrow> 's \<Rightarrow> 'eff list \<Rightarrow> 's \<Rightarrow> bool"
  for oper scalar_of p where
  halts_here: "i < length (program_emissions p) \<Longrightarrow> emission_effect oper (operation_at p i) st = Some (effs, st') \<Longrightarrow>
    next_emission p i (scalar_of st') = None \<Longrightarrow> halts oper scalar_of p 1 i st effs st'"
| halts_later: "i < length (program_emissions p) \<Longrightarrow> emission_effect oper (operation_at p i) st = Some (effs, st') \<Longrightarrow>
    next_emission p i (scalar_of st') = Some j \<Longrightarrow> halts oper scalar_of p k j st' effs' st'' \<Longrightarrow>
    halts oper scalar_of p (Suc k) i st (effs @ effs') st''"

inductive_cases haltsE: "halts oper scalar_of p k i st effs st'"

section \<open>The shape of a graph\<close>

lemma partition_ends:
  assumes "concat (map (\<lambda>b. [block_first_emission_index b..<block_end b]) bs) = [s..<n]"
    "\<forall>b \<in> set bs. 0 < block_emission_count b" "k < length bs"
  shows "s \<le> block_first_emission_index (bs ! k) \<and> block_end (bs ! k) \<le> n
    \<and> block_end (bs ! k) = (if Suc k < length bs then block_first_emission_index (bs ! Suc k) else n)
    \<and> (k = 0 \<longrightarrow> block_first_emission_index (bs ! k) = s)"
  using assms
proof (induction bs arbitrary: s k)
  case (Cons b bs)
  let ?f = "block_first_emission_index b" and ?e = "block_end b"
  have pos: "?f < ?e" using Cons.prems(2) by simp
  have eq: "[?f..<?e] @ concat (map (\<lambda>b. [block_first_emission_index b..<block_end b]) bs) = [s..<n]"
    using Cons.prems(1) by simp
  have ne: "[s..<n] \<noteq> []" using pos unfolding eq [symmetric] by simp
  then have "s < n" by simp
  moreover have "hd [s..<n] = ?f" using pos unfolding eq [symmetric] by simp
  ultimately have fs: "?f = s" "s < n" by simp_all
  have len: "length [?f..<?e] \<le> length [s..<n]" unfolding eq [symmetric] by simp
  then have le: "?e \<le> n" using fs pos by simp
  have "[s..<n] = [s..<?e] @ [?e..<n]" using fs le pos upt_add_eq_append [of s ?e "n - ?e"] by simp
  with eq have rest: "concat (map (\<lambda>b. [block_first_emission_index b..<block_end b]) bs) = [?e..<n]" unfolding fs(1) by simp
  have bs0: "bs \<noteq> [] \<Longrightarrow> block_first_emission_index (bs ! 0) = ?e" "bs = [] \<Longrightarrow> ?e = n"
    using Cons.IH [OF rest, of 0] Cons.prems(2) arg_cong [OF rest, of length] le by auto
  show ?case
  proof (cases k)
    case 0
    then show ?thesis using fs le bs0 by auto
  next
    case (Suc j)
    with Cons.IH [OF rest, of j] Cons.prems show ?thesis using pos fs by auto
  qed
qed simp

lemma cfg_blocks:
  assumes "cfg_of p g" "k < length (graph_blocks g)"
  defines "b \<equiv> graph_blocks g ! k" and "n \<equiv> length (program_emissions p)"
  shows "0 < block_emission_count b" "block_end b \<le> n"
    "block_end b = (if Suc k < length (graph_blocks g) then block_first_emission_index (graph_blocks g ! Suc k) else n)"
    "k = 0 \<longrightarrow> block_first_emission_index b = 0"
    "list_all2 (leads_to g) (block_successors b) (exits p (block_end b - 1))"
    "\<And>i. block_first_emission_index b \<le> i \<Longrightarrow> i < block_end b - 1 \<Longrightarrow> \<not> ends_block (operation_at p i)"
proof -
  have b: "b \<in> set (graph_blocks g)" using assms(2) by (simp add: b_def)
  note c = assms(1) [unfolded cfg_of_def]
  show "0 < block_emission_count b" "list_all2 (leads_to g) (block_successors b) (exits p (block_end b - 1))" using c b by auto
  have part: "concat (map (\<lambda>b. [block_first_emission_index b..<block_end b]) (graph_blocks g)) = [0..<n]"
    "\<forall>b \<in> set (graph_blocks g). 0 < block_emission_count b" using c by (auto simp: n_def)
  from partition_ends [OF part assms(2)] show "block_end b \<le> n" "k = 0 \<longrightarrow> block_first_emission_index b = 0"
    "block_end b = (if Suc k < length (graph_blocks g) then block_first_emission_index (graph_blocks g ! Suc k) else n)"
    unfolding b_def by auto
  have only: "leader p i \<longleftrightarrow> i = block_first_emission_index b" if "block_first_emission_index b \<le> i" "i < block_end b" for i
    using c b that by auto
  show "\<not> ends_block (operation_at p i)" if "block_first_emission_index b \<le> i" "i < block_end b - 1" for i
  proof
    assume "ends_block (operation_at p i)"
    then have "leader p (i + 1)" by (simp add: leader_def)
    with only [of "i + 1"] that show False by auto
  qed
qed

lemma cfg_first_strict:
  assumes "cfg_of p g" "i < j" "j < length (graph_blocks g)"
  shows "block_first_emission_index (graph_blocks g ! i) < block_first_emission_index (graph_blocks g ! j)"
  using assms(2,3)
proof (induction j)
  case (Suc j)
  have j: "j < length (graph_blocks g)" using Suc.prems by simp
  have "block_first_emission_index (graph_blocks g ! j) < block_first_emission_index (graph_blocks g ! Suc j)"
    using cfg_blocks(1,3) [OF assms(1) j] Suc.prems by auto
  moreover have "i = j \<or> i < j" using Suc.prems by auto
  ultimately show ?case using Suc.IH j by auto
qed simp

lemma cfg_first_unique:
  assumes "cfg_of p g" "i < length (graph_blocks g)" "j < length (graph_blocks g)"
    "block_first_emission_index (graph_blocks g ! i) = block_first_emission_index (graph_blocks g ! j)"
  shows "i = j"
  using cfg_first_strict [OF assms(1), of i j] cfg_first_strict [OF assms(1), of j i] assms(2-4) by (cases i j rule: linorder_cases) auto

section \<open>A block is a straight run of the reference machine\<close>

definition decision_at :: "ShaderIrOperation \<Rightarrow> ShaderScalarState \<Rightarrow> ShaderBranchDecision option" where
  "decision_at operation s =
     (case operation of ShaderIrConditionalRelativeBranch c _ \<Rightarrow> Some (evaluate_shader_branch_condition c s) | _ \<Rightarrow> None)"

lemma no_invalid_edge:
  "list_all (\<lambda>edge. edge_target_block_index edge < m) edges \<Longrightarrow> first_invalid_edge m i edges = None"
  by (induction edges arbitrary: i) simp_all

lemma leads_to_next:
  assumes "cfg_of p g" "k < length (graph_blocks g)" "leads_to g edge (kind, block_end (graph_blocks g ! k))"
    "block_end (graph_blocks g ! k) < length (program_emissions p)"
  shows "edge_target_block_index edge = k + 1"
proof -
  have "Suc k < length (graph_blocks g)"
    "block_first_emission_index (graph_blocks g ! Suc k) = block_end (graph_blocks g ! k)"
    using cfg_blocks(3) [OF assms(1,2)] assms(4) by (auto split: if_splits)
  with assms(3) cfg_first_unique [OF assms(1), of "edge_target_block_index edge" "Suc k"] show ?thesis
    by (auto simp: leads_to_def)
qed

definition selects :: "ShaderControlFlowGraph \<Rightarrow> ShaderCfgEdge option \<Rightarrow> nat option \<Rightarrow> bool" where
  "selects g sel next \<longleftrightarrow> (case next of None \<Rightarrow> sel = None
     | Some j \<Rightarrow> (\<exists>edge. sel = Some edge \<and> edge_target_block_index edge < length (graph_blocks g)
         \<and> block_first_emission_index (graph_blocks g ! edge_target_block_index edge) = j))"

lemma select_successor:
  assumes cfg: "cfg_of p g" and k: "k < length (graph_blocks g)" and res: "branches_resolve p"
  defines "i \<equiv> block_end (graph_blocks g ! k) - 1"
  shows "\<exists>sel. select_shader_cfg_successor p g k (decision_at (operation_at p i) s) = Success sel
    \<and> selects g sel (next_emission p i s)"
proof -
  let ?b = "graph_blocks g ! k" and ?n = "length (program_emissions p)"
  note cb = cfg_blocks [OF cfg k]
  have i: "i < ?n" "block_end ?b = i + 1" using cb(1,2) unfolding i_def by linarith+
  have edges: "list_all2 (leads_to g) (block_successors ?b) (exits p i)" using cb(5) by (simp add: i_def)
  have valid: "first_invalid_edge (length (graph_blocks g)) 0 (block_successors ?b) = None"
    using edges by (intro no_invalid_edge) (auto simp: list_all_length list_all2_conv_all_nth leads_to_def)
  have extent: "\<not> block_extent_invalid p ?b" using cb(1,2) by (auto simp: block_extent_invalid_def)
  have match: "\<not> graph_mismatch p g" using cfg by (simp add: graph_mismatch_def cfg_of_def)
  have inside: "\<not> length (graph_blocks g) \<le> k"
    and at_block: "buffer_at (graph_blocks g) k = (Success ?b :: (_, ShaderCfgSuccessorError) Result)"
    and at_i: "buffer_at (program_emissions p) i = (Success (program_emissions p ! i) :: (_, ShaderCfgSuccessorError) Result)"
    using k i by (simp_all add: buffer_at_def)
  have nx: "edge_target_block_index edge = k + 1" if "leads_to g edge (kind, i + 1)" "i + 1 < ?n" for edge kind
    using leads_to_next [OF cfg k, of edge kind] that i by simp
  have jump: "\<exists>t. jump_target p i d = Some t" if "branch_byte_delta (operation_at p i) = Some d" for d
    using res i that by (auto simp: branches_resolve_def unresolved_branch_def)
  have sel: "select_shader_cfg_successor p g k dec =
     (let failure = (\<lambda>code. Failure (ShaderCfgSuccessorError code k None)); successors = block_successors ?b in
      case operation_at p i of
        ShaderIrEndProgram \<Rightarrow> if dec \<noteq> None then failure unexpected_branch_decision
          else if successors \<noteq> [] then failure invalid_successor_topology else Success None
      | ShaderIrRelativeBranch _ \<Rightarrow> if dec \<noteq> None then failure unexpected_branch_decision
          else (case successors of
              [edge] \<Rightarrow> if edge_kind edge \<noteq> unconditional_branch then failure invalid_successor_topology else Success (Some edge)
            | _ \<Rightarrow> failure invalid_successor_topology)
      | ShaderIrConditionalRelativeBranch condition _ \<Rightarrow>
          (case dec of None \<Rightarrow> failure branch_decision_required
           | Some decision \<Rightarrow> if decision_condition decision \<noteq> condition then failure branch_condition_mismatch
               else select_conditional ?b k (i + 1 < ?n) (decision_taken decision))
      | _ \<Rightarrow> if dec \<noteq> None then failure unexpected_branch_decision
          else if i + 1 < ?n
          then (case successors of
              [edge] \<Rightarrow> if edge_kind edge \<noteq> linear_fallthrough \<or> edge_target_block_index edge \<noteq> k + 1
                then failure invalid_successor_topology else Success (Some edge)
            | _ \<Rightarrow> failure invalid_successor_topology)
          else if successors \<noteq> [] then failure invalid_successor_topology else Success None)" for dec
    unfolding select_shader_cfg_successor_def Let_def
    by (simp only: match inside at_block and_then_simps extent valid if_False option.case i_def [symmetric] at_i)
  show ?thesis
  proof (cases "operation_at p i")
    case (ShaderIrRelativeBranch d)
    with jump obtain t where "jump_target p i d = Some t" by auto
    with ShaderIrRelativeBranch edges show ?thesis
      unfolding sel by (auto simp: decision_at_def exits_def next_emission_def selects_def leads_to_def list_all2_Cons2)
  next
    case (ShaderIrConditionalRelativeBranch c d)
    with jump obtain t where t: "jump_target p i d = Some t" by auto
    have cond: "decision_condition (evaluate_shader_branch_condition c s) = c" by (simp add: evaluate_shader_branch_condition_def)
    show ?thesis
    proof (cases "i + 1 < ?n")
      case True
      with edges ShaderIrConditionalRelativeBranch t obtain e1 e2 where
        e: "block_successors ?b = [e1, e2]" "leads_to g e1 (conditional_branch_taken, t)"
          "leads_to g e2 (conditional_branch_fallthrough, i + 1)"
        by (auto simp: exits_def list_all2_Cons2)
      with nx [OF e(3) True] True ShaderIrConditionalRelativeBranch t cond show ?thesis
        unfolding sel by (auto simp: decision_at_def select_conditional_def next_emission_def selects_def leads_to_def)
    next
      case False
      with edges ShaderIrConditionalRelativeBranch t obtain e1 where
        e: "block_successors ?b = [e1]" "leads_to g e1 (conditional_branch_taken, t)"
        by (auto simp: exits_def list_all2_Cons2)
      with False ShaderIrConditionalRelativeBranch t cond show ?thesis
        unfolding sel by (auto simp: decision_at_def select_conditional_def next_emission_def selects_def leads_to_def)
    qed
  qed (use edges nx in \<open>auto simp: sel decision_at_def exits_def next_emission_def selects_def leads_to_def list_all2_Cons2
      split: if_splits\<close>)
qed

lemma no_effect_cases:
  "no_effect operation \<longleftrightarrow> (case operation of ShaderIrNop _ \<Rightarrow> True | ShaderIrRelativeBranch _ \<Rightarrow> True | ShaderIrEndProgram \<Rightarrow> True
     | ShaderIrConditionalRelativeBranch _ _ \<Rightarrow> True | _ \<Rightarrow> False)"
  by (cases operation) simp_all

lemma ends_block_control: "ends_block operation \<longleftrightarrow> control_operation operation"
  by (cases operation) (simp_all add: ends_block_def)

text \<open>One emission of the loop is one step of the reference machine, or the failure of its operation.\<close>

lemma run_emission_step:
  assumes "i < length (program_emissions p)"
  shows "run_emissions oper scalar_of p bi (i # is) st effs dec c =
    (case emission_effect oper (operation_at p i) st of
       Some (new, st') \<Rightarrow> run_emissions oper scalar_of p bi is st' (effs @ new)
         (case operation_at p i of ShaderIrConditionalRelativeBranch _ _ \<Rightarrow> decision_at (operation_at p i) (scalar_of st') | _ \<Rightarrow> dec) (c + 1)
     | None \<Rightarrow> (case oper (operation_at p i) st of
         (Failure f, st') \<Rightarrow> (Failure (block_error (fst (operation_failure f)) bi i c (snd (operation_failure f)) None), st')
       | (_, st') \<Rightarrow> (Undefined, st')))"
proof -
  have "buffer_at (program_emissions p) i = (Success (program_emissions p ! i) :: (_, ShaderBlockExecutionError) Result)"
    using assms by (simp add: buffer_at_def)
  then show ?thesis
    by (cases "operation_at p i"; cases "oper (operation_at p i) st"; cases "fst (oper (operation_at p i) st)")
      (simp_all add: emission_effect_def decision_at_def)
qed

lemma straight_next:
  assumes "\<not> ends_block (operation_at p i)" "i + 1 < length (program_emissions p)"
  shows "next_emission p i s = Some (i + 1)"
  using assms by (cases "operation_at p i") (simp_all add: next_emission_def ends_block_def)

lemma not_conditional:
  assumes "\<not> ends_block (operation_at p i)"
  shows "(case operation_at p i of ShaderIrConditionalRelativeBranch c d \<Rightarrow> x c d | _ \<Rightarrow> y) = y"
  using assms by (cases "operation_at p i") (simp_all add: ends_block_def)

text \<open>
  A straight run up to a position and the halting runs of the machine: every continuation of the run
  is a run from its start, and a run from its start goes through the position.
\<close>

definition extends_to ::
  "(ShaderIrOperation \<Rightarrow> 's \<Rightarrow> ('eff, ShaderOperationFailure) Result \<times> 's) \<Rightarrow> ('s \<Rightarrow> ShaderScalarState)
    \<Rightarrow> ShaderIrProgram \<Rightarrow> nat \<Rightarrow> nat \<Rightarrow> 's \<Rightarrow> 'eff list \<Rightarrow> nat option \<Rightarrow> 's \<Rightarrow> bool" where
  "extends_to oper scalar_of p steps i st effs next st' \<longleftrightarrow>
     (next = None \<longrightarrow> halts oper scalar_of p steps i st effs st')
     \<and> (\<forall>j k rest st2. next = Some j \<and> halts oper scalar_of p k j st' rest st2
          \<longrightarrow> halts oper scalar_of p (steps + k) i st (effs @ rest) st2)"

definition goes_through ::
  "(ShaderIrOperation \<Rightarrow> 's \<Rightarrow> ('eff, ShaderOperationFailure) Result \<times> 's) \<Rightarrow> ('s \<Rightarrow> ShaderScalarState)
    \<Rightarrow> ShaderIrProgram \<Rightarrow> nat \<Rightarrow> 'eff list \<Rightarrow> 's \<Rightarrow> 'eff list \<Rightarrow> nat option \<Rightarrow> 's \<Rightarrow> bool" where
  "goes_through oper scalar_of p k effs st2 new next st' \<longleftrightarrow>
     (next = None \<and> effs = new \<and> st2 = st')
     \<or> (\<exists>j k' rest. next = Some j \<and> k' < k \<and> halts oper scalar_of p k' j st' rest st2 \<and> effs = new @ rest)"

lemma extends_to_step:
  assumes "i < length (program_emissions p)" "emission_effect oper (operation_at p i) st = Some (new, st1)"
    "next_emission p i (scalar_of st1) = Some j" "extends_to oper scalar_of p n j st1 effs next st'"
  shows "extends_to oper scalar_of p (Suc n) i st (new @ effs) next st'"
  using assms(4) halts_later [where scalar_of = scalar_of, OF assms(1-3)] unfolding extends_to_def by auto

lemma extends_to_one:
  assumes "i < length (program_emissions p)" "emission_effect oper (operation_at p i) st = Some (new, st1)"
  shows "extends_to oper scalar_of p 1 i st new (next_emission p i (scalar_of st1)) st1"
  using halts_here [OF assms, of scalar_of] halts_later [OF assms, of scalar_of] unfolding extends_to_def by auto

lemma goes_through_step:
  "goes_through oper scalar_of p k rest st2 new2 next st' \<Longrightarrow> goes_through oper scalar_of p (Suc k) (new @ rest) st2 (new @ new2) next st'"
  unfolding goes_through_def by (auto intro: less_SucI)

lemma run_emissions_sound:
  assumes "run_emissions oper scalar_of p bi [i..<e] st acc None c = (Success (acc', dec, c'), st')"
    "i < e" "e \<le> length (program_emissions p)" "\<And>j. i \<le> j \<Longrightarrow> j < e - 1 \<Longrightarrow> \<not> ends_block (operation_at p j)"
  shows "\<exists>effs. acc' = acc @ effs \<and> c' = c + (e - i) \<and> dec = decision_at (operation_at p (e - 1)) (scalar_of st')
    \<and> extends_to oper scalar_of p (e - i) i st effs (next_emission p (e - 1) (scalar_of st')) st'"
  using assms
proof (induction "e - i" arbitrary: i st acc c)
  case (Suc x)
  then have i: "i < length (program_emissions p)" and up: "[i..<e] = i # [Suc i..<e]" by (simp_all add: upt_conv_Cons)
  from Suc.prems(1) obtain new st1 where eff: "emission_effect oper (operation_at p i) st = Some (new, st1)"
    and rec: "run_emissions oper scalar_of p bi [Suc i..<e] st1 (acc @ new)
      (case operation_at p i of ShaderIrConditionalRelativeBranch _ _ \<Rightarrow> decision_at (operation_at p i) (scalar_of st1) | _ \<Rightarrow> None) (c + 1)
      = (Success (acc', dec, c'), st')"
    unfolding up run_emission_step [OF i] by (auto split: option.splits prod.splits Result.splits)
  show ?case
  proof (cases "Suc i = e")
    case True
    then have "acc' = acc @ new" "c' = c + 1" "st' = st1" "dec = decision_at (operation_at p i) (scalar_of st1)"
      using rec by (auto simp: decision_at_def split: ShaderIrOperation.splits)
    moreover have "e - 1 = i" "e - i = 1" using True by auto
    ultimately show ?thesis using extends_to_one [OF i eff, of scalar_of] by auto
  next
    case False
    with Suc.prems(2) have lt: "Suc i < e" by simp
    then have straight: "\<not> ends_block (operation_at p i)" using Suc.prems(4) [of i] by simp
    note rec' = rec [unfolded not_conditional [OF straight]]
    have nxt: "next_emission p i (scalar_of st1) = Some (Suc i)" using straight_next [OF straight] lt Suc.prems(3) by simp
    have x: "x = e - Suc i" using Suc.hyps(2) by simp
    have inner: "\<And>j. Suc i \<le> j \<Longrightarrow> j < e - 1 \<Longrightarrow> \<not> ends_block (operation_at p j)" using Suc.prems(4) by simp
    from Suc.hyps(1) [OF x rec' lt Suc.prems(3) inner] obtain effs where IH: "acc' = (acc @ new) @ effs" "c' = c + 1 + (e - Suc i)"
      "dec = decision_at (operation_at p (e - 1)) (scalar_of st')"
      "extends_to oper scalar_of p (e - Suc i) (Suc i) st1 effs (next_emission p (e - 1) (scalar_of st')) st'"
      by blast
    have len: "e - i = Suc (e - Suc i)" using lt by simp
    have "acc' = acc @ (new @ effs)" "c' = c + (e - i)" using IH(1,2) lt by simp_all
    moreover have "extends_to oper scalar_of p (e - i) i st (new @ effs) (next_emission p (e - 1) (scalar_of st')) st'"
      using extends_to_step [where scalar_of = scalar_of, OF i eff nxt IH(4)] len by simp
    ultimately show ?thesis using IH(3) by blast
  qed
qed simp

lemma run_emissions_complete:
  assumes "halts oper scalar_of p k i st effs st2"
    "i < e" "e \<le> length (program_emissions p)" "\<And>j. i \<le> j \<Longrightarrow> j < e - 1 \<Longrightarrow> \<not> ends_block (operation_at p j)"
  shows "\<exists>new st'. run_emissions oper scalar_of p bi [i..<e] st acc None c =
      (Success (acc @ new, decision_at (operation_at p (e - 1)) (scalar_of st'), c + (e - i)), st')
    \<and> goes_through oper scalar_of p k effs st2 new (next_emission p (e - 1) (scalar_of st')) st'"
  using assms
proof (induction "e - i" arbitrary: i st acc c k effs)
  case (Suc x)
  then have i: "i < length (program_emissions p)" and up: "[i..<e] = i # [Suc i..<e]" by (simp_all add: upt_conv_Cons)
  from Suc.prems(1) obtain new st1 where eff: "emission_effect oper (operation_at p i) st = Some (new, st1)"
    and cont: "next_emission p i (scalar_of st1) = None \<and> effs = new \<and> st2 = st1
      \<or> (\<exists>j k' rest. next_emission p i (scalar_of st1) = Some j \<and> k = Suc k' \<and> halts oper scalar_of p k' j st1 rest st2 \<and> effs = new @ rest)"
    by (auto elim: haltsE)
  have step: "run_emissions oper scalar_of p bi [i..<e] st acc None c = run_emissions oper scalar_of p bi [Suc i..<e] st1 (acc @ new)
      (case operation_at p i of ShaderIrConditionalRelativeBranch _ _ \<Rightarrow> decision_at (operation_at p i) (scalar_of st1) | _ \<Rightarrow> None) (c + 1)"
    unfolding up run_emission_step [OF i] eff by simp
  show ?case
  proof (cases "Suc i = e")
    case True
    then have "run_emissions oper scalar_of p bi [i..<e] st acc None c = (Success (acc @ new, decision_at (operation_at p i) (scalar_of st1), c + 1), st1)"
      unfolding step by (auto simp: decision_at_def split: ShaderIrOperation.splits)
    moreover have "e - 1 = i" "e - i = 1" using True by auto
    ultimately show ?thesis using cont by (auto simp: goes_through_def)
  next
    case False
    with Suc.prems(2) have lt: "Suc i < e" by simp
    then have straight: "\<not> ends_block (operation_at p i)" using Suc.prems(4) [of i] by simp
    have nxt: "next_emission p i (scalar_of st1) = Some (Suc i)" using straight_next [OF straight] lt Suc.prems(3) by simp
    with cont obtain k' rest where k': "k = Suc k'" "halts oper scalar_of p k' (Suc i) st1 rest st2" "effs = new @ rest" by auto
    have x: "x = e - Suc i" using Suc.hyps(2) by simp
    have inner: "\<And>j. Suc i \<le> j \<Longrightarrow> j < e - 1 \<Longrightarrow> \<not> ends_block (operation_at p j)" using Suc.prems(4) by simp
    from Suc.hyps(1) [OF x k'(2) lt Suc.prems(3) inner, of "acc @ new" "c + 1"] obtain new2 st' where
      IH: "run_emissions oper scalar_of p bi [Suc i..<e] st1 (acc @ new) None (c + 1) =
        (Success ((acc @ new) @ new2, decision_at (operation_at p (e - 1)) (scalar_of st'), c + 1 + (e - Suc i)), st')"
      "goes_through oper scalar_of p k' rest st2 new2 (next_emission p (e - 1) (scalar_of st')) st'" by blast
    have "run_emissions oper scalar_of p bi [i..<e] st acc None c =
        (Success (acc @ (new @ new2), decision_at (operation_at p (e - 1)) (scalar_of st'), c + (e - i)), st')"
      unfolding step not_conditional [OF straight] IH(1) using lt by simp
    then show ?thesis using goes_through_step [OF IH(2), of new] k' by blast
  qed
qed simp

section \<open>Execution over the graph is the reference machine\<close>

lemma check_control_flow_ok:
  "\<forall>i \<in> set is. i < length (program_emissions p) \<and> \<not> control_operation (operation_at p i) \<Longrightarrow>
     check_block_control_flow p bi is = Success ()"
  by (induction "is") (simp_all add: buffer_at_def)

lemma checked_block_ok:
  assumes "cfg_of p g" "k < length (graph_blocks g)"
  shows "checked_block p g k = Success (graph_blocks g ! k)"
proof -
  let ?b = "graph_blocks g ! k"
  note cb = cfg_blocks [OF assms]
  have "\<not> graph_mismatch p g" using assms(1) by (simp add: graph_mismatch_def cfg_of_def)
  moreover have "\<not> block_extent_invalid p ?b" using cb(1,2) by (auto simp: block_extent_invalid_def)
  moreover have "check_block_control_flow p k [block_first_emission_index ?b..<block_end ?b - 1] = Success ()"
    using cb(2,6) by (intro check_control_flow_ok) (auto simp: ends_block_control)
  ultimately show ?thesis using assms(2) by (simp add: checked_block_def buffer_at_def)
qed

lemma execute_block_eq:
  assumes cfg: "cfg_of p g" and k: "k < length (graph_blocks g)"
  defines "b \<equiv> graph_blocks g ! k"
  shows "execute_block oper scalar_of No_exception p g k st =
    (case run_emissions oper scalar_of p k [block_first_emission_index b..<block_end b] st [] None 0 of
       (Failure e, st') \<Rightarrow> (Failure e, st') | (Undefined, st') \<Rightarrow> (Undefined, st')
     | (Success (effects, dec, completed), st') \<Rightarrow>
        (case select_shader_cfg_successor p g k dec of
           Failure e \<Rightarrow> (Failure (block_error cfg_successor_failure k (block_end b - 1) completed None (Some e)), st')
         | Undefined \<Rightarrow> (Undefined, st')
         | Success successor \<Rightarrow> (Success \<lparr>executed_block_index = k, executed_emission_count = completed,
             executed_effects = effects, executed_branch_decision = dec, executed_successor = successor\<rparr>, st')))"
  unfolding execute_block_def checked_block_ok [OF cfg k] b_def by simp

lemma block_run:
  assumes cfg: "cfg_of p g" and k: "k < length (graph_blocks g)"
  defines "b \<equiv> graph_blocks g ! k"
  shows "block_first_emission_index b < block_end b" "block_end b \<le> length (program_emissions p)"
    "\<And>j. block_first_emission_index b \<le> j \<Longrightarrow> j < block_end b - 1 \<Longrightarrow> \<not> ends_block (operation_at p j)"
  using cfg_blocks [OF cfg k] unfolding b_def by auto

lemma execute_block_sound:
  assumes cfg: "cfg_of p g" and k: "k < length (graph_blocks g)" and res: "branches_resolve p"
    and run: "execute_block oper scalar_of event p g k st = (Success ex, st')"
  defines "b \<equiv> graph_blocks g ! k"
  shows "extends_to oper scalar_of p (block_emission_count b) (block_first_emission_index b) st (executed_effects ex)
      (next_emission p (block_end b - 1) (scalar_of st')) st'
    \<and> selects g (executed_successor ex) (next_emission p (block_end b - 1) (scalar_of st'))"
proof -
  have ev: "event = No_exception" using run checked_block_ok [OF cfg k] by (auto simp: execute_block_def split: if_splits)
  from run obtain effs dec c where r: "run_emissions oper scalar_of p k [block_first_emission_index b..<block_end b] st [] None 0
      = (Success (effs, dec, c), st')" and ex: "executed_effects ex = effs"
    and sel: "select_shader_cfg_successor p g k dec = Success (executed_successor ex)"
    unfolding ev execute_block_eq [OF cfg k] b_def by (auto split: prod.splits Result.splits)
  from run_emissions_sound [OF r block_run [OF cfg k, folded b_def]]
  have "dec = decision_at (operation_at p (block_end b - 1)) (scalar_of st')"
    "extends_to oper scalar_of p (block_emission_count b) (block_first_emission_index b) st effs
      (next_emission p (block_end b - 1) (scalar_of st')) st'"
    by auto
  with select_successor [OF cfg k res, of "scalar_of st'"] sel ex show ?thesis unfolding b_def by auto
qed

lemma execute_block_complete:
  assumes cfg: "cfg_of p g" and k: "k < length (graph_blocks g)" and res: "branches_resolve p"
  defines "b \<equiv> graph_blocks g ! k"
  assumes "halts oper scalar_of p steps (block_first_emission_index b) st effs st2"
  shows "\<exists>ex st'. execute_block oper scalar_of No_exception p g k st = (Success ex, st')
    \<and> goes_through oper scalar_of p steps effs st2 (executed_effects ex) (next_emission p (block_end b - 1) (scalar_of st')) st'
    \<and> selects g (executed_successor ex) (next_emission p (block_end b - 1) (scalar_of st'))"
proof -
  from run_emissions_complete [OF assms(5) block_run [OF cfg k, folded b_def], of k "[]" 0] obtain new st' where
    r: "run_emissions oper scalar_of p k [block_first_emission_index b..<block_end b] st [] None 0 =
      (Success (new, decision_at (operation_at p (block_end b - 1)) (scalar_of st'), block_emission_count b), st')"
    "goes_through oper scalar_of p steps effs st2 new (next_emission p (block_end b - 1) (scalar_of st')) st'"
    by auto
  from select_successor [OF cfg k res, of "scalar_of st'"] obtain sel where
    sel: "select_shader_cfg_successor p g k (decision_at (operation_at p (block_end b - 1)) (scalar_of st')) = Success sel"
      "selects g sel (next_emission p (block_end b - 1) (scalar_of st'))" unfolding b_def by blast
  show ?thesis unfolding execute_block_eq [OF cfg k, folded b_def] using r sel by simp
qed

definition program_effects :: "'eff ShaderBlockExecution list \<Rightarrow> 'eff list" where
  "program_effects blocks = concat (map executed_effects blocks)"

lemma run_blocks_sound:
  assumes cfg: "cfg_of p g" and res: "branches_resolve p"
  shows "run_blocks oper scalar_of events p g entry remaining cur done_blocks st = (Success ex, st2) \<Longrightarrow> cur < length (graph_blocks g) \<Longrightarrow>
    \<exists>new steps. execution_blocks ex = done_blocks @ new \<and> execution_entry_block_index ex = entry
      \<and> halts oper scalar_of p steps (block_first_emission_index (graph_blocks g ! cur)) st (program_effects new) st2"
proof (induction remaining arbitrary: cur done_blocks st)
  case (Suc remaining)
  from Suc.prems(1) obtain bx st1 where bx: "execute_block oper scalar_of (events (length done_blocks)) p g cur st = (Success bx, st1)"
    by (auto split: prod.splits Result.splits)
  note snd = execute_block_sound [OF cfg Suc.prems(2) res bx]
  show ?case
  proof (cases "executed_successor bx")
    case None
    then have "execution_blocks ex = done_blocks @ [bx]" "execution_entry_block_index ex = entry" "st2 = st1"
      using Suc.prems(1) bx by auto
    moreover have "next_emission p (block_end (graph_blocks g ! cur) - 1) (scalar_of st1) = None"
      using snd None by (auto simp: selects_def split: option.splits)
    ultimately show ?thesis using snd by (intro exI [of _ "[bx]"]) (auto simp: extends_to_def program_effects_def)
  next
    case (Some edge)
    then have rec: "run_blocks oper scalar_of events p g entry remaining (edge_target_block_index edge) (done_blocks @ [bx]) st1 = (Success ex, st2)"
      using Suc.prems(1) bx by simp
    from snd Some obtain j where j: "next_emission p (block_end (graph_blocks g ! cur) - 1) (scalar_of st1) = Some j"
      "edge_target_block_index edge < length (graph_blocks g)"
      "block_first_emission_index (graph_blocks g ! edge_target_block_index edge) = j"
      by (auto simp: selects_def split: option.splits)
    from Suc.IH [OF rec j(2)] obtain new steps where new: "execution_blocks ex = (done_blocks @ [bx]) @ new"
      "execution_entry_block_index ex = entry" "halts oper scalar_of p steps j st1 (program_effects new) st2" unfolding j(3) by blast
    then have "halts oper scalar_of p (block_emission_count (graph_blocks g ! cur) + steps)
        (block_first_emission_index (graph_blocks g ! cur)) st (executed_effects bx @ program_effects new) st2"
      using snd j(1) by (auto simp: extends_to_def)
    then have "halts oper scalar_of p (block_emission_count (graph_blocks g ! cur) + steps)
        (block_first_emission_index (graph_blocks g ! cur)) st (program_effects (bx # new)) st2"
      by (simp add: program_effects_def)
    moreover have "execution_blocks ex = done_blocks @ (bx # new)" using new(1) by simp
    ultimately show ?thesis using new(2) by blast
  qed
qed simp

lemma halts_pos: "halts oper scalar_of p k i st effs st' \<Longrightarrow> 0 < k"
  by (auto elim: haltsE)

lemma run_blocks_complete:
  assumes cfg: "cfg_of p g" and res: "branches_resolve p" and ev: "\<And>n. events n = No_exception"
  shows "halts oper scalar_of p steps (block_first_emission_index (graph_blocks g ! cur)) st effs st2 \<Longrightarrow>
    cur < length (graph_blocks g) \<Longrightarrow> steps \<le> remaining \<Longrightarrow>
    \<exists>ex new. run_blocks oper scalar_of events p g entry remaining cur done_blocks st = (Success ex, st2)
      \<and> execution_blocks ex = done_blocks @ new \<and> program_effects new = effs"
proof (induction remaining arbitrary: steps cur done_blocks st effs)
  case 0
  then show ?case using halts_pos by fastforce
next
  case (Suc remaining)
  from execute_block_complete [OF cfg Suc.prems(2) res Suc.prems(1)] obtain bx st1 where
    bx: "execute_block oper scalar_of No_exception p g cur st = (Success bx, st1)"
    and go: "goes_through oper scalar_of p steps effs st2 (executed_effects bx)
      (next_emission p (block_end (graph_blocks g ! cur) - 1) (scalar_of st1)) st1"
    and sel: "selects g (executed_successor bx) (next_emission p (block_end (graph_blocks g ! cur) - 1) (scalar_of st1))"
    by blast
  show ?case
  proof (cases "next_emission p (block_end (graph_blocks g ! cur) - 1) (scalar_of st1)")
    case None
    with go sel have "executed_successor bx = None" "effs = executed_effects bx" "st2 = st1" by (auto simp: goes_through_def selects_def)
    with bx ev [of "length done_blocks"] show ?thesis by (intro exI conjI) (auto simp: program_effects_def)
  next
    case (Some j)
    with sel obtain edge where e: "executed_successor bx = Some edge" "edge_target_block_index edge < length (graph_blocks g)"
      "block_first_emission_index (graph_blocks g ! edge_target_block_index edge) = j" by (auto simp: selects_def)
    from go Some obtain k' rest where k': "k' < steps" "halts oper scalar_of p k' j st1 rest st2" "effs = executed_effects bx @ rest"
      by (auto simp: goes_through_def)
    have "k' \<le> remaining" using k'(1) Suc.prems(3) by simp
    from Suc.IH [OF k'(2) [folded e(3)] e(2) this, of "done_blocks @ [bx]"] obtain ex new where
      "run_blocks oper scalar_of events p g entry remaining (edge_target_block_index edge) (done_blocks @ [bx]) st1 = (Success ex, st2)"
      "execution_blocks ex = (done_blocks @ [bx]) @ new" "program_effects new = rest" by blast
    with bx e(1) ev [of "length done_blocks"] k'(3) show ?thesis by (intro exI [of _ ex] exI [of _ "bx # new"]) (simp add: program_effects_def)
  qed
qed

text \<open>Both directions for a program with its own graph.\<close>

lemma execute_program_reference:
  assumes build: "build_shader_control_flow_graph se be p = Success g" and entry: "entry < length (graph_blocks g)"
  defines "start \<equiv> block_first_emission_index (graph_blocks g ! entry)"
  shows "(execute_program oper scalar_of ev events p g entry budget st = (Success ex, st') \<longrightarrow>
      (\<exists>steps. halts oper scalar_of p steps start st (program_effects (execution_blocks ex)) st'))
    \<and> (halts oper scalar_of p steps start st effs st' \<and> steps \<le> budget \<longrightarrow>
      (\<exists>ex. execute_program oper scalar_of No_exception (\<lambda>_. No_exception) p g entry budget st = (Success ex, st')
        \<and> program_effects (execution_blocks ex) = effs))"
proof -
  from build_cfg_outcome [where scan_event = se and block_event = be and p = p] build have c: "cfg_of p g" "branches_resolve p" by simp_all
  then have match: "\<not> graph_mismatch p g" by (simp add: graph_mismatch_def cfg_of_def)
  have run: "execute_program oper scalar_of No_exception events p g entry budget st =
      run_blocks oper scalar_of events p g entry budget entry [] st" for events
    using match entry by (simp add: execute_program_def)
  have "ev = No_exception" if "execute_program oper scalar_of ev events p g entry budget st = (Success ex, st')"
    using that match entry by (auto simp: execute_program_def split: if_splits)
  with run_blocks_sound [OF c, where done_blocks = "[]" and cur = entry] entry
  have "execute_program oper scalar_of ev events p g entry budget st = (Success ex, st') \<longrightarrow>
      (\<exists>steps. halts oper scalar_of p steps start st (program_effects (execution_blocks ex)) st')"
    unfolding start_def using run by (metis append_Nil)
  moreover have "\<exists>ex. execute_program oper scalar_of No_exception (\<lambda>_. No_exception) p g entry budget st = (Success ex, st')
        \<and> program_effects (execution_blocks ex) = effs" if "halts oper scalar_of p steps start st effs st'" "steps \<le> budget"
    using run_blocks_complete [where events = "\<lambda>_. No_exception" and done_blocks = "[]", OF c refl that(1) [unfolded start_def] entry that(2)]
    unfolding run by auto
  ultimately show ?thesis by blast
qed

section \<open>Typed programs\<close>

text \<open>
  The contract of the operations a machine executes: on a well-formed state a typed operation keeps
  the state well formed, and fails only where the machine refuses it.
\<close>

locale typed_operations =
  fixes oper :: "ShaderIrOperation \<Rightarrow> 's \<Rightarrow> ('eff, ShaderOperationFailure) Result \<times> 's"
    and scalar_of :: "'s \<Rightarrow> ShaderScalarState"
    and wf :: "'s \<Rightarrow> bool"
    and refused :: "ShaderIrOperation \<Rightarrow> ShaderOperationFailure \<Rightarrow> bool"
  assumes oper_typed: "wf st \<Longrightarrow> ir_typed_or_unsupported operation \<Longrightarrow> \<not> no_effect operation \<Longrightarrow>
    (case oper operation st of (Success eff, st') \<Rightarrow> wf st' | (Failure f, st') \<Rightarrow> wf st' \<and> refused operation f | (Undefined, st') \<Rightarrow> False)"
begin

definition refused_at :: "ShaderIrProgram \<Rightarrow> ShaderBlockExecutionError \<Rightarrow> bool" where
  "refused_at p e \<longleftrightarrow> block_error_emission_index e < length (program_emissions p)
     \<and> (\<exists>f. refused (operation_at p (block_error_emission_index e)) f
          \<and> block_error_code e = fst (operation_failure f) \<and> block_error_operation e = snd (operation_failure f))"

lemma effect_typed:
  assumes "wf st" "ir_typed_or_unsupported operation"
  shows "case emission_effect oper operation st of
      Some (new, st') \<Rightarrow> wf st'
    | None \<Rightarrow> \<exists>f st'. oper operation st = (Failure f, st') \<and> wf st' \<and> refused operation f"
  using oper_typed [OF assms] assms(1) unfolding emission_effect_def
  by (cases "no_effect operation") (auto split: prod.splits Result.splits)

lemma emissions_typed:
  assumes "\<And>i. i < length (program_emissions p) \<Longrightarrow> ir_typed_or_unsupported (operation_at p i)"
  shows "wf st \<Longrightarrow> \<forall>i \<in> set is. i < length (program_emissions p) \<Longrightarrow>
    (case run_emissions oper scalar_of p bi is st effs dec c of
      (Success r, st') \<Rightarrow> wf st' | (Failure e, st') \<Rightarrow> wf st' \<and> refused_at p e | (Undefined, st') \<Rightarrow> False)"
proof (induction "is" arbitrary: st effs dec c)
  case (Cons i "is")
  then have i: "i < length (program_emissions p)" by simp
  show ?case
  proof (cases "emission_effect oper (operation_at p i) st")
    case None
    with effect_typed [OF Cons.prems(1) assms [OF i]] obtain f st' where
      "oper (operation_at p i) st = (Failure f, st')" "wf st'" "refused (operation_at p i) f" by auto
    then show ?thesis using i None unfolding run_emission_step [OF i] by (auto simp: refused_at_def block_error_def)
  next
    case (Some a)
    with effect_typed [OF Cons.prems(1) assms [OF i]] have "wf (snd a)" by (cases a) auto
    with Cons.IH [of "snd a"] Cons.prems(2) show ?thesis unfolding run_emission_step [OF i] Some by (cases a) simp
  qed
qed simp

lemma block_typed:
  assumes cfg: "cfg_of p g" and k: "k < length (graph_blocks g)" and res: "branches_resolve p"
    and typed: "\<And>i. i < length (program_emissions p) \<Longrightarrow> ir_typed_or_unsupported (operation_at p i)" and wf: "wf st"
  shows "case execute_block oper scalar_of event p g k st of
      (Success ex, st') \<Rightarrow> wf st' \<and> (\<forall>edge. executed_successor ex = Some edge \<longrightarrow> edge_target_block_index edge < length (graph_blocks g))
    | (Failure e, st') \<Rightarrow> wf st' \<and> (block_error_code e = block_host_allocation_failure \<and> event \<noteq> No_exception \<or> refused_at p e)
    | (Undefined, st') \<Rightarrow> False"
proof (cases "event = No_exception")
  case False
  then show ?thesis using wf checked_block_ok [OF cfg k] by (simp add: execute_block_def block_error_def)
next
  case True
  let ?b = "graph_blocks g ! k"
  let ?run = "run_emissions oper scalar_of p k [block_first_emission_index ?b..<block_end ?b] st [] None 0"
  have "\<forall>i \<in> set [block_first_emission_index ?b..<block_end ?b]. i < length (program_emissions p)"
    using block_run(2) [OF cfg k] by auto
  note et = emissions_typed [OF typed wf this, of k "[]" None 0]
  show ?thesis
  proof (cases "fst ?run")
    case (Success r)
    then obtain effs dec c st' where r: "?run = (Success (effs, dec, c), st')" by (metis prod.collapse prod_cases3)
    from run_emissions_sound [OF r block_run [OF cfg k]]
    have "dec = decision_at (operation_at p (block_end ?b - 1)) (scalar_of st')" by blast
    with select_successor [OF cfg k res, of "scalar_of st'"] obtain sel where
      "select_shader_cfg_successor p g k dec = Success sel" "selects g sel (next_emission p (block_end ?b - 1) (scalar_of st'))"
      by auto
    then show ?thesis using et r True unfolding True execute_block_eq [OF cfg k]
      by (auto simp: selects_def split: option.splits)
  next
    case (Failure e)
    then obtain st' where "?run = (Failure e, st')" by (metis prod.collapse)
    then show ?thesis using et True unfolding True execute_block_eq [OF cfg k] by auto
  next
    case Undefined
    then obtain st' where "?run = (Undefined, st')" by (metis prod.collapse)
    then show ?thesis using et by auto
  qed
qed

lemma blocks_typed:
  assumes cfg: "cfg_of p g" and res: "branches_resolve p"
    and typed: "\<And>i. i < length (program_emissions p) \<Longrightarrow> ir_typed_or_unsupported (operation_at p i)"
  shows "wf st \<Longrightarrow> cur < length (graph_blocks g) \<Longrightarrow>
    (case run_blocks oper scalar_of events p g entry remaining cur done_blocks st of
      (Success ex, st') \<Rightarrow> wf st'
    | (Failure e, st') \<Rightarrow> wf st' \<and> (execution_error_code e = execution_budget_exhausted
        \<or> execution_error_code e = block_execution_failure \<and> (\<exists>b. execution_error_block_error e = Some b
            \<and> (block_error_code b = block_host_allocation_failure \<and> (\<exists>n. events n \<noteq> No_exception) \<or> refused_at p b)))
    | (Undefined, st') \<Rightarrow> False)"
proof (induction remaining arbitrary: cur done_blocks st)
  case 0
  then show ?case by (simp add: program_error_def)
next
  case (Suc remaining)
  let ?ev = "events (length done_blocks)"
  note bt = block_typed [OF cfg Suc.prems(2) res typed Suc.prems(1), of ?ev]
  obtain r st1 where r: "execute_block oper scalar_of ?ev p g cur st = (r, st1)" by (cases "execute_block oper scalar_of ?ev p g cur st")
  show ?case
  proof (cases r)
    case (Success ex)
    with bt r have "wf st1" "\<And>edge. executed_successor ex = Some edge \<Longrightarrow> edge_target_block_index edge < length (graph_blocks g)" by auto
    then show ?thesis using Suc.IH [of st1] r Success by (cases "executed_successor ex") simp_all
  next
    case (Failure e)
    with bt r show ?thesis by (auto simp: program_error_def)
  next
    case Undefined
    with bt r show ?thesis by simp
  qed
qed

lemma program_typed:
  assumes "build_shader_control_flow_graph se be p = Success g" "entry < length (graph_blocks g)"
    and typed: "\<And>i. i < length (program_emissions p) \<Longrightarrow> ir_typed_or_unsupported (operation_at p i)" and wf: "wf st"
  shows "case execute_program oper scalar_of ev events p g entry budget st of
      (Success ex, st') \<Rightarrow> wf st'
    | (Failure e, st') \<Rightarrow> wf st' \<and> (execution_error_code e = execution_budget_exhausted
        \<or> execution_error_code e = execution_host_allocation_failure \<and> ev \<noteq> No_exception
        \<or> execution_error_code e = block_execution_failure \<and> (\<exists>b. execution_error_block_error e = Some b
            \<and> (block_error_code b = block_host_allocation_failure \<and> (\<exists>n. events n \<noteq> No_exception) \<or> refused_at p b)))
    | (Undefined, st') \<Rightarrow> False"
proof -
  from build_cfg_outcome [where scan_event = se and block_event = be and p = p] assms(1)
  have c: "cfg_of p g" "branches_resolve p" by simp_all
  then have match: "\<not> graph_mismatch p g" by (simp add: graph_mismatch_def cfg_of_def)
  have "case run_blocks oper scalar_of events p g entry budget entry [] st of
      (Success ex, st') \<Rightarrow> wf st'
    | (Failure e, st') \<Rightarrow> wf st' \<and> (execution_error_code e = execution_budget_exhausted
        \<or> execution_error_code e = block_execution_failure \<and> (\<exists>b. execution_error_block_error e = Some b
            \<and> (block_error_code b = block_host_allocation_failure \<and> (\<exists>n. events n \<noteq> No_exception) \<or> refused_at p b)))
    | (Undefined, st') \<Rightarrow> False"
    by (rule blocks_typed [OF c typed wf assms(2)])
  then show ?thesis using match assms(2) wf
    by (auto simp: execute_program_def program_error_def split: prod.splits Result.splits)
qed

end

definition wave_wf :: "wave_state \<Rightarrow> bool" where
  "wave_wf st \<longleftrightarrow> scalar_wf (fst st) \<and> vector_wf (snd st) \<and> wave_size (snd st) \<noteq> wave_unspecified"

text \<open>What a wave refuses: barriers, wait counts and unsupported instructions, and inexact sums.\<close>

definition wave_refuses :: "ShaderIrOperation \<Rightarrow> ShaderOperationFailure \<Rightarrow> bool" where
  "wave_refuses operation f \<longleftrightarrow> (case operation of
       ShaderIrWorkgroupBarrier \<Rightarrow> f = Unsupported_operation
     | ShaderIrWaitCount _ _ _ \<Rightarrow> f = Unsupported_operation
     | ShaderIrUnsupported _ \<Rightarrow> f = Unsupported_operation
     | ShaderIrVectorAddF32 _ _ _ \<Rightarrow> (\<exists>l. f = Vector_failure (ShaderVectorExecutionError unsupported_f32_case (Some l)))
     | _ \<Rightarrow> False)"

definition scalar_refuses :: "ShaderIrOperation \<Rightarrow> ShaderOperationFailure \<Rightarrow> bool" where
  "scalar_refuses operation f \<longleftrightarrow> f = Unsupported_operation
     \<and> (case operation of ShaderIrScalarMove32 _ _ \<Rightarrow> False | ShaderIrScalarMove64 _ _ \<Rightarrow> False | _ \<Rightarrow> True)"

lemma scalar_operation_typed:
  assumes "scalar_wf s" "ir_typed_or_unsupported operation"
  shows "case scalar_operation operation s of
    (Success eff, s') \<Rightarrow> scalar_wf s' | (Failure f, s') \<Rightarrow> scalar_wf s' \<and> scalar_refuses operation f | (Undefined, s') \<Rightarrow> False"
proof (cases operation)
  case (ShaderIrScalarMove32 d src)
  with scalar_move32_outcome [OF assms(1), of d src] assms show ?thesis
    by (auto simp: ir_typed_or_unsupported_def scalar_wf_def simp del: execute_shader_scalar_operation.simps)
next
  case (ShaderIrScalarMove64 d src)
  with scalar_move64_outcome [OF assms(1), of d src] assms show ?thesis
    by (auto simp: ir_typed_or_unsupported_def scalar_wf_def simp del: execute_shader_scalar_operation.simps)
qed (use assms in \<open>auto simp: scalar_refuses_def\<close>)

lemma wave_operation_typed:
  assumes "wave_wf st" "ir_typed_or_unsupported operation" "\<not> no_effect operation"
  shows "case wave_operation operation st of
    (Success eff, st') \<Rightarrow> wave_wf st' | (Failure f, st') \<Rightarrow> wave_wf st' \<and> wave_refuses operation f | (Undefined, st') \<Rightarrow> False"
proof -
  obtain s v where st: "st = (s, v)" by (cases st)
  have wf: "scalar_wf s" "vector_wf v" "wave_size v \<noteq> wave_unspecified" using assms(1) by (simp_all add: wave_wf_def st)
  show ?thesis
  proof (cases operation)
    case (ShaderIrScalarMove32 d src)
    with scalar_move32_outcome [OF wf(1), of d src] assms(2) wf show ?thesis
      by (auto simp: st ir_typed_or_unsupported_def scalar_wf_def wave_wf_def simp del: execute_shader_scalar_operation.simps)
  next
    case (ShaderIrScalarMove64 d src)
    with scalar_move64_outcome [OF wf(1), of d src] assms(2) wf show ?thesis
      by (auto simp: st ir_typed_or_unsupported_def scalar_wf_def wave_wf_def simp del: execute_shader_scalar_operation.simps)
  next
    case (ShaderIrVectorMove32 d src)
    with vector_move_outcome [where d = d and s = src and sc = s, OF wf(2)] wf show ?thesis
      by (auto simp: st wave_wf_def result_simps simp del: execute_shader_vector_move32_operation.simps split: prod.splits)
  next
    case (ShaderIrVectorAddF32 d s0 s1)
    with vector_add_outcome [where d = d and ?s0.0 = s0 and ?s1.0 = s1 and sc = s, OF wf(2,3)] wf show ?thesis
      by (auto simp: st wave_wf_def wave_refuses_def simp del: execute_shader_vector_add_f32_exact_operation.simps
          split: prod.splits Result.splits)
  next
    case (ShaderIrExportOp x)
    with export_outcome [where x = x and sc = s, OF wf(2,3)] wf show ?thesis
      by (auto simp: st wave_wf_def simp del: capture_shader_export_operation.simps)
  qed (use assms st in \<open>auto simp: wave_refuses_def\<close>)
qed

interpretation scalar_machine: typed_operations scalar_operation "\<lambda>state. state" scalar_wf scalar_refuses
  by unfold_locales (rule scalar_operation_typed)

interpretation wave_machine: typed_operations wave_operation fst wave_wf wave_refuses
  by unfold_locales (rule wave_operation_typed)

lemma state_of_outcome:
  "(case x of (Success a, s) \<Rightarrow> P s | (Failure e, s) \<Rightarrow> P s \<and> Q e | (Undefined, s) \<Rightarrow> False) \<Longrightarrow> P (snd x)"
  by (auto split: prod.splits Result.splits)

lemma lowered_typed:
  assumes "lower_rdna2_stream_to_shader_ir ev words = Success p" "length words < 2 ^ 62" "i < length (program_emissions p)"
  shows "ir_typed_or_unsupported (operation_at p i)"
proof -
  from assms(1) obtain es where es: "lower_stream_loop words 0 [] = Success es" "program_emissions p = es"
    by (auto simp: lower_rdna2_stream_to_shader_ir_def result_simps split: if_splits)
  from lower_stream_loop_outcome [OF assms(2), of 0 "[]"] es have "stream_tiles words 0 es" by auto
  from stream_tiles_typed [OF this] assms(3) es(2) show ?thesis by (simp add: list_all_length)
qed

section \<open>Properties\<close>

definition wave_refused_at :: "ShaderIrProgram \<Rightarrow> ShaderBlockExecutionError \<Rightarrow> bool" where
  "wave_refused_at p e \<longleftrightarrow> block_error_emission_index e < length (program_emissions p)
     \<and> (\<exists>f. wave_refuses (operation_at p (block_error_emission_index e)) f
          \<and> block_error_code e = fst (operation_failure f) \<and> block_error_operation e = snd (operation_failure f))"

text \<open>
  A small program for the witnesses: it moves a literal into a scalar register and ends, or it loads
  a vector register and adds it to itself.
\<close>

definition sample_emission :: "nat \<Rightarrow> ShaderIrOperation \<Rightarrow> ShaderIrEmission" where
  "sample_emission i operation = \<lparr>ir_operation = operation, ir_source_instruction = decoded_instruction i 1 0 format_sopp s_nop\<rparr>"

definition sample_program :: ShaderIrProgram where
  "sample_program = \<lparr>program_source_word_count = 2, program_emissions =
     [sample_emission 0 (ShaderIrScalarMove32 7 (ShaderIrLiteral32 5)), sample_emission 1 ShaderIrEndProgram]\<rparr>"

definition sample_graph :: ShaderControlFlowGraph where
  "sample_graph = \<lparr>graph_source_word_count = 2, graph_emission_count = 2,
     graph_blocks = [\<lparr>block_first_emission_index = 0, block_emission_count = 2, block_successors = []\<rparr>]\<rparr>"

lemma sample_wf: "wave_wf (sample_scalar, sample_vector)"
  by (simp add: wave_wf_def sample_states)

lemma sample_build: "build_shader_control_flow_graph No_exception No_exception sample_program = Success sample_graph"
  by (simp add: build_shader_control_flow_graph_def sample_program_def sample_graph_def sample_emission_def validate_program_layout_def
      decoded_instruction_def buffer_at_def mark_next_def vector_store_def block_edges_def next_edge_def upt_conv_Cons Let_def)

text \<open>
  C38. Executing a shader over its control-flow graph is running its instructions one after the other.
  If the execution of a wave succeeds, the reference machine halts from the same start with the same
  effects in the same order and the same final state; and if the reference machine halts within the
  budget, the execution succeeds with exactly its effects and final state.
\<close>

theorem wave_program_refines_reference:
  assumes "build_shader_control_flow_graph se be p = Success g" and "entry < length (graph_blocks g)"
  shows "(execute_shader_wave_program ev events p g entry budget st = (Success ex, st') \<longrightarrow>
      (\<exists>steps. halts wave_operation fst p steps (block_first_emission_index (graph_blocks g ! entry)) st
        (program_effects (execution_blocks ex)) st'))
    \<and> (halts wave_operation fst p steps (block_first_emission_index (graph_blocks g ! entry)) st effs st' \<and> steps \<le> budget \<longrightarrow>
      (\<exists>ex. execute_shader_wave_program No_exception (\<lambda>_. No_exception) p g entry budget st = (Success ex, st')
        \<and> program_effects (execution_blocks ex) = effs))"
  unfolding execute_shader_wave_program_def by (rule execute_program_reference [OF assms])

theorem wave_program_refines_reference_witness:
  "\<exists>ex st'. execute_shader_wave_program No_exception (\<lambda>_. No_exception) sample_program sample_graph 0 2 (sample_scalar, sample_vector)
      = (Success ex, st') \<and> length (program_effects (execution_blocks ex)) = 1 \<and> state_sgprs (fst st') ! 7 = 5"
proof -
  let ?op = "ShaderIrScalarMove32 7 (ShaderIrLiteral32 5)"
  let ?st1 = "(sample_scalar\<lparr>state_sgprs := (state_sgprs sample_scalar)[7 := 5]\<rparr>, sample_vector)"
  from scalar_move32_outcome [OF sample_states(1), of 7 "ShaderIrLiteral32 5"] obtain eff where
    "execute_shader_scalar_operation ?op sample_scalar = (Success eff, fst ?st1)" by (auto simp: word_le_nat_alt)
  then have eff: "emission_effect wave_operation (operation_at sample_program 0) (sample_scalar, sample_vector) = Some ([Scalar_effect eff], ?st1)"
    by (simp add: emission_effect_def sample_program_def sample_emission_def del: execute_shader_scalar_operation.simps)
  have "halts wave_operation fst sample_program 1 1 ?st1 [] ?st1"
    by (rule halts_here) (simp_all add: emission_effect_def sample_program_def sample_emission_def next_emission_def)
  with eff have "halts wave_operation fst sample_program (Suc 1) 0 (sample_scalar, sample_vector) ([Scalar_effect eff] @ []) ?st1"
    by (intro halts_later [OF _ eff]) (simp_all add: sample_program_def sample_emission_def next_emission_def)
  then have run: "halts wave_operation fst sample_program 2 (block_first_emission_index (graph_blocks sample_graph ! 0))
      (sample_scalar, sample_vector) [Scalar_effect eff] ?st1 \<and> 2 \<le> (2 :: nat)"
    by (simp add: sample_graph_def numeral_2_eq_2)
  have "0 < length (graph_blocks sample_graph)" by (simp add: sample_graph_def)
  from wave_program_refines_reference [OF sample_build this, THEN conjunct2, THEN mp, OF run] obtain ex where "execute_shader_wave_program No_exception (\<lambda>_. No_exception) sample_program sample_graph 0 2 (sample_scalar, sample_vector)
      = (Success ex, ?st1)" "program_effects (execution_blocks ex) = [Scalar_effect eff]" by blast
  moreover have "state_sgprs (fst ?st1) ! 7 = 5" by (simp add: sample_scalar_def)
  ultimately show ?thesis by (intro exI [of _ ex] exI [of _ ?st1]) simp
qed

text \<open>
  C39. Type safety of shader execution. A wave that runs a shader lowered from an instruction stream
  over the graph built for it never accesses a register out of range and keeps the sizes of its
  register files. Apart from failing allocations it can only stop because the budget is used up,
  because it reaches an operation it does not execute, or because a sum is not exact: mismatched or
  malformed graphs, bad block extents, wrong branch decisions and invalid registers cannot occur.
\<close>

theorem wave_execution_type_safe:
  assumes "lower_rdna2_stream_to_shader_ir lev words = Success p" and "length words < 2 ^ 62"
    and "build_shader_control_flow_graph se be p = Success g" and "entry < length (graph_blocks g)" and "wave_wf st"
  shows "case execute_shader_wave_program ev events p g entry budget st of
      (Success ex, st') \<Rightarrow> wave_wf st'
    | (Failure e, st') \<Rightarrow> wave_wf st' \<and> (execution_error_code e = execution_budget_exhausted
        \<or> execution_error_code e = execution_host_allocation_failure \<and> ev \<noteq> No_exception
        \<or> execution_error_code e = block_execution_failure \<and> (\<exists>b. execution_error_block_error e = Some b
            \<and> (block_error_code b = block_host_allocation_failure \<and> (\<exists>n. events n \<noteq> No_exception) \<or> wave_refused_at p b)))
    | (Undefined, st') \<Rightarrow> False"
  using wave_machine.program_typed [OF assms(3,4) lowered_typed [OF assms(1,2)] assms(5)]
  unfolding execute_shader_wave_program_def wave_refused_at_def wave_machine.refused_at_def by simp

theorem wave_execution_type_safe_witness:
  "wave_wf (snd (execute_shader_wave_program No_exception (\<lambda>_. No_exception)
     \<lparr>program_source_word_count = 1, program_emissions = [lower_rdna2_to_shader_ir (decode_sopp 0 (sopp_word 1 0))]\<rparr>
     \<lparr>graph_source_word_count = 1, graph_emission_count = 1,
      graph_blocks = [\<lparr>block_first_emission_index = 0, block_emission_count = 1, block_successors = []\<rparr>]\<rparr>
     0 1 (sample_scalar, sample_vector)))" (is "wave_wf (snd (execute_shader_wave_program _ _ ?p ?g 0 1 _))")
proof -
  have "ir_operation (lower_rdna2_to_shader_ir (decode_sopp 0 (sopp_word 1 0))) = ShaderIrEndProgram"
    using sopp_fields [of 1 0] by (simp add: lower_rdna2_to_shader_ir_def lower_operation_def decode_sopp_def decoded_instruction_def
        classify_sopp_opcode_def valid_sopp_source_def Let_def)
  moreover have src: "inst_word_count (ir_source_instruction (lower_rdna2_to_shader_ir (decode_sopp 0 (sopp_word 1 0)))) = 1"
    "inst_word_index (ir_source_instruction (lower_rdna2_to_shader_ir (decode_sopp 0 (sopp_word 1 0)))) = 0"
    "inst_byte_offset (ir_source_instruction (lower_rdna2_to_shader_ir (decode_sopp 0 (sopp_word 1 0)))) = 0"
    by (simp_all add: lower_rdna2_to_shader_ir_def decode_sopp_def decoded_instruction_def Let_def)
  ultimately have build: "build_shader_control_flow_graph No_exception No_exception ?p = Success ?g"
    by (simp add: build_shader_control_flow_graph_def validate_program_layout_def buffer_at_def mark_next_def vector_store_def
        block_edges_def upt_conv_Cons Let_def)
  have "lower_rdna2_stream_to_shader_ir No_exception [sopp_word 1 0] = Success ?p"
    using decode_sopp_word [of 0 "[sopp_word 1 0]" 1 0]
    by (simp add: lower_rdna2_stream_to_shader_ir_def lower_stream_loop.simps Let_def)
      (simp add: decode_sopp_def decoded_instruction_def lower_stream_loop.simps Let_def)
  from wave_execution_type_safe [OF this _ build, where entry = 0 and ev = No_exception and events = "\<lambda>_. No_exception" and budget = 1,
      OF _ _ sample_wf]
  show ?thesis by (intro state_of_outcome) simp
qed

end
