(* ===== verification/Guest_Worker_Wire.thy ===== *)
theory Guest_Worker_Wire
  imports Guest_Address
begin

text \<open>
  include/astraea/execution/guest_worker_protocol.hpp and guest_worker_wire.hpp with
  src/execution/guest_worker_protocol.cpp and guest_worker_wire.cpp: the messages the controller and
  the guest worker exchange, their binary frames, and the checks of a handshake, a run request and a
  system call result.

  A scoped enumeration without an enumerator for some value of its underlying type can hold that
  value in C++, and the encoder and the decoder both guard against it, so the enumerations of the
  messages are their 32-bit representations here and the enumerators are constants. The identifier
  structures wrap one 64-bit value and are words; std::int64_t and std::int32_t fields hold the
  two's complement word, which std::bit_cast does not change; the array of six arguments is a list,
  and \<open>wire_typed\<close> states its length.
\<close>

section \<open>Messages\<close>

type_synonym GuestWorkerId = u64
type_synonym GuestThreadId = u64
type_synonym GuestRequestId = u64

definition kGuestWorkerProtocolVersion :: u32 where
  "kGuestWorkerProtocolVersion = 1"













record GuestWorkerHello =
  hello_protocol_version :: u32

record GuestWorkerReady =
  ready_protocol_version :: u32
  ready_worker_id :: GuestWorkerId

record GuestWorkerRunRequest =
  budget_microseconds :: u64

record GuestWorkerSyscallRequest =
  request_request_id :: GuestRequestId
  request_worker_id :: GuestWorkerId
  request_thread_id :: GuestThreadId
  request_syscall_number :: u64
  request_arguments :: "u64 list"
  request_guest_rip :: GuestAddress

record GuestWorkerSyscallResult =
  result_request_id :: GuestRequestId
  result_worker_id :: GuestWorkerId
  result_thread_id :: GuestThreadId
  result_return_value :: u64
  result_guest_errno :: u32









section \<open>Protocol checks\<close>

datatype GuestWorkerProtocolValidationErrorCode =
    unsupported_protocol_version
  | zero_run_budget
  | syscall_request_id_mismatch
  | syscall_worker_id_mismatch
  | syscall_thread_id_mismatch

type_synonym GuestWorkerProtocolValidationResult = "(bool, GuestWorkerProtocolValidationErrorCode) Result"

definition validate_guest_worker_handshake ::
    "GuestWorkerHello \<Rightarrow> GuestWorkerReady \<Rightarrow> GuestWorkerProtocolValidationResult" where
  "validate_guest_worker_handshake hello ready =
     (if hello_protocol_version hello \<noteq> kGuestWorkerProtocolVersion \<or>
         ready_protocol_version ready \<noteq> kGuestWorkerProtocolVersion \<or>
         hello_protocol_version hello \<noteq> ready_protocol_version ready
      then Failure unsupported_protocol_version else Success True)"

definition validate_guest_worker_run_request ::
    "GuestWorkerRunRequest \<Rightarrow> GuestWorkerProtocolValidationResult" where
  "validate_guest_worker_run_request request =
     (if budget_microseconds request = 0 then Failure zero_run_budget else Success True)"

definition validate_guest_worker_syscall_result ::
    "GuestWorkerSyscallRequest \<Rightarrow> GuestWorkerSyscallResult \<Rightarrow> GuestWorkerProtocolValidationResult" where
  "validate_guest_worker_syscall_result request result =
     (if request_request_id request \<noteq> result_request_id result then Failure syscall_request_id_mismatch
      else if request_worker_id request \<noteq> result_worker_id result then Failure syscall_worker_id_mismatch
      else if request_thread_id request \<noteq> result_thread_id result then Failure syscall_thread_id_mismatch
      else Success True)"

section \<open>Frames\<close>







subsection \<open>Integers\<close>









subsection \<open>Values\<close>








subsection \<open>Encoding\<close>



subsection \<open>Decoding\<close>






section \<open>Integers in a frame\<close>


















section \<open>Layout of the messages\<close>













section \<open>Decoding\<close>


















section \<open>Properties\<close>




end
