(* ===== verification/Spec2Isabelle.thy ===== *)
theory Spec2Isabelle
  imports Loaded_Program Sce_Imports Raster_Submission Gpu_Memory Shader_Execution Guest_Worker_Wire
begin

text \<open>
  A verification library for Astraea, a research emulator for PS5 programs written in C++23. It models
  the path of a guest program from the bytes of its ELF file to the accesses that host code makes to
  its prepared memory, function by function from the sources under src/, and proves what each
  component promises and what the whole path amounts to.

  The parts and how they interact.

  \<^item> \<open>Prelude\<close>: the Result type of include/astraea/core/result.hpp with a third value \<open>Undefined\<close> for
    C++ expressions with undefined behaviour (an index out of a span, a store outside mapped memory),
    little-endian reads, checked 64-bit arithmetic, and std::sort as a function \<open>std_sort\<close> over a
    comparison, with the locale \<open>comparator\<close> for its strict weak orders.
  \<^item> \<open>Guest_Address\<close>: include/astraea/memory/guest_address.hpp. Addresses and sizes are 64-bit words;
    \<open>range_wf\<close> is the invariant GuestRange protects.
  \<^item> \<open>Elf64\<close>: src/loader/elf64.cpp, \<open>parse_elf64\<close>. \<open>elf64_accepts\<close> and \<open>decode_image\<close> are its
    specification, written with natural numbers over the bytes.
  \<^item> \<open>Mapping_Intents\<close>, \<open>Image_View\<close>: src/memory/mapping.cpp and src/memory/initialized_image_view.cpp.
    The meaning of a view is the set of byte sources of an address; the locales \<open>byte_reader\<close> and
    \<open>range_reader\<close> are what the loader components rely on, interpreted for \<open>read_byte\<close> and \<open>copy_bytes\<close>.
  \<^item> \<open>Dynamic_Table\<close>, \<open>Dynamic_Metadata\<close>, \<open>Dynamic_String\<close>, \<open>Hash_Tables\<close>, \<open>Dynamic_Symbols\<close>,
    \<open>Dynamic_Relocations\<close>, \<open>Tls_Template\<close>, \<open>Initial_Stack\<close>: the files of the same names in src/loader
    (\<open>Hash_Tables\<close> is sysv_hash.cpp and gnu_hash.cpp). The locale \<open>singleton_merge\<close> is the contract of
    the three merge_singleton functions.
  \<^item> \<open>Guest_Image\<close>: src/loader/guest_image.cpp, which calls all of the above and returns a GuestImage.
  \<^item> \<open>Memory_Plan\<close>: src/execution/memory_plan.cpp, the page-granular plan of an image, the check of
    guest writes, and mapping epochs. The epoch counter is a step relation over threads with relaxed
    atomic operations, with its invariant by rule induction.
  \<^item> \<open>Guest_Memory\<close>: src/execution/guest_memory.cpp, checked access to guest memory. The locale
    \<open>coverage_scan\<close> carries its two coverage loops. The memory of the process is a partial map from
    addresses to a byte and the permissions of its page.
  \<^item> \<open>Linux_Memory\<close>: src/execution/linux_memory.cpp, which realises the plan with mmap and mprotect.
  \<^item> \<open>Loaded_Program\<close>: the composition of loader, plan, preparation and access.
  \<^item> \<open>Word_Patches\<close>: sequences of words written to guest memory, shared by the relocation theories.
  \<^item> \<open>Owned_Relocations\<close>: src/execution/owned_relative_patch.cpp, owned_relative_apply.cpp and
    owned_tls_module_patch.cpp, relocation words of programs whose load bias is known.
  \<^item> \<open>Sce_Symbols\<close>: src/loader/sce_symbol_identity.cpp and sce_dynamic_symbol.cpp, symbol names.
  \<^item> \<open>Hle_Gates\<close>: src/execution/hle.cpp, emulated functions and the gates through which they are called.
  \<^item> \<open>Sce_Imports\<close>: src/execution/sce_import_binding.cpp, sce_import_resolution.cpp and the jump-slot and
    GLOB_DAT files, which bind the imports of a program to gates.
  \<^item> \<open>Pm4_Packets\<close>: the command processor's input: src/graphics/packet.cpp, pm4_type3_framing.cpp,
    graphics_ir.cpp and the pm4_*_ir.cpp lowerings. A buffer is the list of its words.
  \<^item> \<open>Gpu_Registers\<close>: the register windows and what is decoded from them (the *_register_state.cpp files,
    color_target_state.cpp, gfx10_surface_layout.cpp, gfx10_color_target_image.cpp and
    first_raster_draw_plan.cpp). The locale \<open>register_window\<close> is the contract of a window; the three
    windows of the code interpret it.
  \<^item> \<open>Raster_Submission\<close>: src/execution/sce_agc_first_raster_submission.cpp, which frames a command
    buffer, applies its packets to the windows and plans the single draw.
  \<^item> \<open>Gpu_Memory\<close>: src/graphics/gpu_allocation_address_space.cpp, gpu_buffer_address_space.cpp and
    gpu_image.cpp. The locale \<open>gpu_region_table\<close> is the contract of the two address spaces; the shared
    objects form a step relation with its invariant by rule induction.
  \<^item> \<open>Shader_Ir\<close>: src/graphics/rdna2_decoder.cpp, shader_ir.cpp and shader_program.cpp, which decode the
    words of a shader into typed operations. \<open>assemble\<close> is the encoding the decoder inverts.
  \<^item> \<open>Shader_Cfg\<close>: src/graphics/shader_cfg.cpp, the control-flow graph of a shader. \<open>cfg_of\<close> is its
    specification by leaders and exits.
  \<^item> \<open>Exact_F32\<close>, \<open>Shader_Operations\<close>: src/graphics/shader_scalar_execution.cpp,
    shader_vector_execution.cpp and shader_export_execution.cpp, the effect of one operation on the
    registers of a wave; \<open>Exact_F32\<close> is the binary32 addition.
  \<^item> \<open>Shader_Execution\<close>: src/graphics/shader_control_execution.cpp, shader_program_execution.cpp and the
    shader_wave_*_execution.cpp files, which run a shader over its graph. \<open>halts\<close> is a reference machine
    without a graph, as an inductive relation; the locale \<open>typed_operations\<close> is the contract of the
    operations a machine executes, interpreted for scalar and for full waves. The number of blocks a
    program may execute is an argument of the code, not a bound of the model.

  \<^item> \<open>Guest_Worker_Wire\<close>: src/execution/guest_worker_wire.cpp and guest_worker_protocol.cpp, the messages
    between the controller and the guest worker and their frames. \<open>frame_of\<close> is the reference layout.

  How code is modelled. A function is a definition with the same branches in the same order; a loop
  over a container is a primitive recursion on the list it visits, other loops are functions with a
  termination proof by a measure, so no fuel and no bound is chosen anywhere. A mutable local is an
  argument of the recursion, an object that owns memory is a record that the operations return. Every
  error is a value with the source's error record. A \<open>constexpr\<close> branch for hosts whose size_t or
  pointers do not have 64 bits is not compiled on the supported hosts and is left out. Where several
  allocations lead to the same handler, one argument of type \<open>host_event\<close> says which exception is
  thrown, if any.

  What is outside src/ is an argument: \<open>host_object\<close> bounds the size of an object, the record \<open>Host\<close>
  holds vector limits and allocation outcomes, the record \<open>Kernel\<close> the system calls. About the kernel,
  \<open>kernel_contract\<close> states what the manual pages document of a call that succeeds or fails (munmap, whose
  result the code discards, is taken to unmap the pages it is given), and \<open>kernel_grants\<close>, used by one
  property, that nothing outside the process makes it refuse the regions of the plan at hand; the
  witnesses use a kernel with a lowest mappable page and 47-bit addresses that satisfies both.

  What the properties show, theory by theory. Parsing and image construction (\<open>Elf64\<close> to \<open>Guest_Image\<close>)
  never have undefined behaviour for any input and accept exactly the files described by their
  specifications, and the memory of an image is the ELF definition of its segments. Plans
  (\<open>Memory_Plan\<close>) are exact page covers with separated write and execute permission, writes are owned
  exactly and epochs are never reused. Validation of an access (\<open>Guest_Memory\<close>) is bytewise exact, reads
  return what was written and strings are found. Preparation of memory (\<open>Linux_Memory\<close>) is all or
  nothing and succeeds whenever it can; a loaded program (\<open>Loaded_Program\<close>) is accessed exactly as its
  program headers and its stack say. Relative relocations are applied all or nothing
  (\<open>Owned_Relocations\<close>); symbol names are parsed and printed without loss (\<open>Sce_Symbols\<close>); gates are found
  again from their addresses (\<open>Hle_Gates\<close>); every import is planned for the function its name is bound
  to, and the patched words lead to the gate of that function (\<open>Sce_Imports\<close>). Command buffers are
  framed into exactly their packets, and framing inverts the packet encoding (\<open>Pm4_Packets\<close>); the image
  of a color target has exact sizes (\<open>Gpu_Registers\<close>); the plan of a submission holds the last register
  values before its draw, with the words they came from, and is returned exactly when it should be
  (\<open>Raster_Submission\<close>). Allocations and buffers stay disjoint, image views stay inside their
  allocation, the image of a color target is registered and a memory write is resolved exactly when
  memory holds it (\<open>Gpu_Memory\<close>). Shaders are lowered exactly when they are whole instructions, and
  lowering inverts the instruction encoding (\<open>Shader_Ir\<close>). Their graphs are exactly the partition into
  basic blocks (\<open>Shader_Cfg\<close>), additions are exact or refused (\<open>Exact_F32\<close>, \<open>Shader_Operations\<close>), execution
  over the graph refines running the instructions one by one, and no lowered shader can run into an
  error of registers, graphs or decisions (\<open>Shader_Execution\<close>). Encoding and decoding of worker messages
  are inverse, and a frame is delimited by its header (\<open>Guest_Worker_Wire\<close>).

  One property has an exception the code itself has: two relative patches of the last word of the address
  space are not recognised as overlapping, because the end of that word wraps to zero
  (\<open>relative_batch_last_word\<close> in \<open>Owned_Relocations\<close>), so the property asks for at most one.

  Not modelled. Native execution (signals, seccomp, transfers of control), the Vulkan backends, the
  process session of the guest worker and the command-line tools are sequences of calls to code that is
  not under src/. The dispatch of emulated calls runs guest code through those backends. Traces are text
  output. The Windows memory backend repeats the Linux one over calls with another contract, and the
  module graph repeats the import path of \<open>Sce_Imports\<close> per module. Shader containers, the services that
  read them from guest memory, and SPIR-V generation are left out.
\<close>

end
